(* ===== verification/Prelude.thy ===== *)
theory Prelude
  imports Main
begin

text \<open>
  Shared vocabulary of the development.

  \<^item> \<open>error\<close> and \<open>result\<close>: Go functions that return \<open>(T, error)\<close> become functions into
    \<open>'a result\<close>. Every sentinel error of the modelled packages is a constructor, an error made
    by \<open>fmt.Errorf\<close> without \<open>%w\<close> is \<open>Errorf msg\<close>, one that wraps another is \<open>Wrap msg e\<close>, and a
    run-time panic (slice bounds, nil dereference) is \<open>Panic msg\<close>.
  \<^item> \<open>clock\<close>: an operation may read the wall clock several times; the \<open>k\<close>-th reading of one
    operation is \<open>clk k\<close>, in nanoseconds.
  \<^item> Go's fixed-width integers: \<open>int\<close> is 64 bits wide, \<open>i64\<close> writes the wrap-around out, and
    \<open>i32\<close> the truncation of a conversion to \<open>int32\<close>.
  \<^item> \<open>split_on\<close>, \<open>find_first\<close> and list lemmas that the components share.
\<close>

named_theorems kind_defs \<open>the string constants of resource kinds\<close>
named_theorems run_defs \<open>definitions of the operations on a run\<close>
named_theorems job_defs \<open>definitions of the operations on a job\<close>
named_theorems authz_defs \<open>definitions of the access checks\<close>
named_theorems sys_defs \<open>definitions of the service operations\<close>

section \<open>Errors and results\<close>

datatype error =
    ErrAccessNotPermitted
  | ErrUnauthorized
  | ErrResourceNotFound
  | ErrResourceAlreadyExists
  | ErrRequiredName
  | ErrInvalidName
  | ErrEmptyValue
  | ErrTimeout
  | ErrConflict
  | ErrRequiredOrg
  | ErrStatusTimestampNotFound
  | ErrMissingParameter string
  | ErrInvalidRunStateTransition
  | ErrRunDiscardNotAllowed
  | ErrRunCancelNotAllowed
  | ErrRunForceCancelNotAllowed
  | ErrPhaseAlreadyStarted
  | ErrInvalidJobStateTransition
  | ErrInfinitePaginationDetected
  | ErrWorkspaceAlreadyLocked
  | ErrWorkspaceAlreadyUnlocked
  | ErrWorkspaceLockedByRun
  | ErrWorkspaceLockedByDifferentUser
  | ErrWorkspaceInvalidLock
  | ErrUnsupportedTerraformVersion
  | ErrInvalidVersion
  | ErrTagsRegexAndTriggerPatterns
  | ErrTagsRegexAndAlwaysTrigger
  | ErrTriggerPatternsAndAlwaysTrigger
  | ErrInvalidTriggerPattern
  | ErrInvalidTagsRegex
  | ErrAgentExecutionModeWithoutPool
  | ErrNonAgentExecutionModeWithPool
  | ErrSubscriptionTerminated
  | ErrPoolAssignedWorkspacesNotAllowed
  | ErrWorkspaceNotAllowedToUsePool
  | ErrCannotDeletePoolReferencedByWorkspaces
  | ErrTriggerLoop
  | ErrCannotDeleteOnlyOwner
  | ErrRemovingOwnersTeamNotPermitted
  | ErrUnsupportedDestination
  | ErrInvalidTrigger
  | ErrInvalidTagSpec
  | ErrInvalidModuleRepo
  | ErrNotExist
  | ContextCanceled
  | Errorf string
  | Wrap string error
  | JoinErrors error error
  | Panic string

type_synonym 'a result = "error + 'a"

text \<open>
  Go's \<open>errors.Is\<close> on the errors of this model: an error matches a target when it is the target
  or wraps one that matches; the error of \<open>errors.Join\<close> wraps both of its parts.
\<close>

fun errors_is :: "error \<Rightarrow> error \<Rightarrow> bool" where
  "errors_is (Wrap m e) t = (Wrap m e = t \<or> errors_is e t)"
| "errors_is (JoinErrors a b) t = (JoinErrors a b = t \<or> errors_is a t \<or> errors_is b t)"
| "errors_is e t = (e = t)"

text \<open>\<open>internal.ErrorIs\<close>: several targets are checked, the variadic ones first.\<close>

definition ErrorIs :: "error \<Rightarrow> error \<Rightarrow> error list \<Rightarrow> bool" where
  "ErrorIs e target moreTargets = list_ex (errors_is e) (moreTargets @ [target])"

lemma ErrorIs_iff: "ErrorIs e t ts \<longleftrightarrow> errors_is e t \<or> (\<exists>t' \<in> set ts. errors_is e t')"
  by (auto simp: ErrorIs_def list_ex_iff)

definition is_ok :: "'a result \<Rightarrow> bool" where
  "is_ok r = (case r of Inl _ \<Rightarrow> False | Inr _ \<Rightarrow> True)"

lemma is_ok_simps [simp]: "is_ok (Inr x)" "\<not> is_ok (Inl e)"
  by (simp_all add: is_ok_def)

lemma is_okE: "is_ok r \<Longrightarrow> (\<And>x. r = Inr x \<Longrightarrow> P) \<Longrightarrow> P"
  by (cases r) auto

section \<open>Time\<close>

type_synonym gtime = int      \<comment> \<open>nanoseconds, \<open>time.Time\<close>\<close>
type_synonym gduration = int  \<comment> \<open>nanoseconds, \<open>time.Duration\<close>\<close>
type_synonym clock = "nat \<Rightarrow> gtime"

definition Millisecond :: gduration where "Millisecond = 1000000"
definition Second :: gduration where "Second = 1000 * Millisecond"
definition Minute :: gduration where "Minute = 60 * Second"
definition Hour :: gduration where "Hour = 60 * Minute"

text \<open>
  \<open>internal.CurrentTimestamp\<close>: the given time, or the wall clock when none is given, rounded to
  the nearest millisecond with halfway values rounded up (\<open>Time.Round\<close>). The second argument is
  the reading of the clock.
\<close>

definition CurrentTimestamp :: "gtime option \<Rightarrow> gtime \<Rightarrow> gtime" where
  "CurrentTimestamp now reading =
     (let t = (case now of None \<Rightarrow> reading | Some n \<Rightarrow> n)
      in (t + Millisecond div 2) div Millisecond * Millisecond)"

lemma CurrentTimestamp_mono:
  "a \<le> b \<Longrightarrow> CurrentTimestamp None a \<le> CurrentTimestamp None b"
  by (simp add: CurrentTimestamp_def Millisecond_def zdiv_mono1)

lemma CurrentTimestamp_near:
  "\<bar>CurrentTimestamp None a - a\<bar> \<le> Millisecond div 2"
  by (simp add: CurrentTimestamp_def Millisecond_def)

section \<open>Fixed-width integers\<close>

definition i64 :: "int \<Rightarrow> int" where
  "i64 x = (x + 2 ^ 63) mod 2 ^ 64 - 2 ^ 63"

definition i32 :: "int \<Rightarrow> int" where
  "i32 x = (x + 2 ^ 31) mod 2 ^ 32 - 2 ^ 31"

lemma i64_id: "- (2 ^ 63) \<le> x \<Longrightarrow> x < 2 ^ 63 \<Longrightarrow> i64 x = x"
  by (simp add: i64_def)

lemma i32_id: "- (2 ^ 31) \<le> x \<Longrightarrow> x < 2 ^ 31 \<Longrightarrow> i32 x = x"
  by (simp add: i32_def)

section \<open>Lists and strings\<close>

text \<open>\<open>strings.Split\<close> with a one-character separator.\<close>

fun split_on :: "char \<Rightarrow> string \<Rightarrow> string list" where
  "split_on c [] = [[]]"
| "split_on c (x # xs) =
     (if x = c then [] # split_on c xs
      else (case split_on c xs of [] \<Rightarrow> [[x]] | p # ps \<Rightarrow> (x # p) # ps))"

lemma split_on_not_Nil [simp]: "split_on c xs \<noteq> []"
  by (induction xs) (auto split: list.splits)

lemma split_on_absent: "c \<notin> set xs \<Longrightarrow> split_on c xs = [xs]"
  by (induction xs) auto

lemma split_on_append: "c \<notin> set xs \<Longrightarrow> split_on c (xs @ c # ys) = xs # split_on c ys"
  by (induction xs) auto

lemma split_on_single: "split_on c xs = [p] \<Longrightarrow> xs = p \<and> c \<notin> set p"
proof (induction xs arbitrary: p)
  case Nil
  then show ?case by simp
next
  case (Cons x xs)
  show ?case
  proof (cases "split_on c xs")
    case Nil
    then show ?thesis by simp
  next
    case (Cons q qs)
    with \<open>split_on c (x # xs) = [p]\<close> have "x \<noteq> c" "p = x # q" "qs = []"
      by (auto split: if_splits)
    with Cons \<open>\<And>p. split_on c xs = [p] \<Longrightarrow> xs = p \<and> c \<notin> set p\<close> show ?thesis by auto
  qed
qed

lemma split_on_two:
  "split_on c xs = [p, q] \<Longrightarrow> xs = p @ c # q \<and> c \<notin> set p \<and> c \<notin> set q"
proof (induction xs arbitrary: p)
  case Nil
  then show ?case by simp
next
  case (Cons x xs)
  show ?case
  proof (cases "x = c")
    case True
    with Cons.prems show ?thesis by (auto dest: split_on_single)
  next
    case False
    with Cons.prems obtain p' where "split_on c xs = [p', q]" "p = x # p'"
      by (auto split: list.splits)
    with Cons.IH [of p'] False show ?thesis by auto
  qed
qed

text \<open>The first element that satisfies a predicate: a \<open>for\<close> loop that returns from its body.\<close>

primrec find_first :: "('a \<Rightarrow> bool) \<Rightarrow> 'a list \<Rightarrow> 'a option" where
  "find_first P [] = None"
| "find_first P (x # xs) = (if P x then Some x else find_first P xs)"

lemma find_first_Some_iff:
  "find_first P xs = Some x \<longleftrightarrow>
     (\<exists>i < length xs. xs ! i = x \<and> P x \<and> (\<forall>j < i. \<not> P (xs ! j)))"
proof (induction xs)
  case Nil
  then show ?case by simp
next
  case (Cons y ys)
  then show ?case by (auto simp: Ex_less_Suc2 All_less_Suc2)
qed

lemma find_first_None_iff: "find_first P xs = None \<longleftrightarrow> (\<forall>x \<in> set xs. \<not> P x)"
  by (induction xs) auto

lemma find_first_SomeD: "find_first P xs = Some x \<Longrightarrow> x \<in> set xs \<and> P x"
  by (induction xs) (auto split: if_splits)

lemma find_first_append:
  "find_first P (xs @ ys) = (case find_first P xs of None \<Rightarrow> find_first P ys | Some x \<Rightarrow> Some x)"
  by (induction xs) auto

lemma find_first_map: "find_first P (map f xs) = map_option f (find_first (P \<circ> f) xs)"
  by (induction xs) auto

text \<open>\<open>internal.Diff\<close>: the elements of the first list that are not in the second.\<close>

definition Diff :: "'a list \<Rightarrow> 'a list \<Rightarrow> 'a list" where
  "Diff a b = filter (\<lambda>x. x \<notin> set b) a"

lemma set_Diff [simp]: "set (Diff a b) = set a - set b"
  by (auto simp: Diff_def)

end
