(* ===== verification/Resource.thy ===== *)
theory Resource
  imports Prelude "HOL-Library.Monad_Syntax"
begin

text \<open>
  The packages \<open>internal/resource\<close> and the paging helpers of \<open>internal/sql\<close>: resource kinds and
  actions, TFE identifiers with their parser and printer, name validation, pagination, and the
  \<open>ListAll\<close> loop that collects every page. The contract between a page source and \<open>ListAll\<close> is the
  locale \<open>page_source\<close>; the in-memory pager \<open>NewPage\<close> and the database pager (LIMIT and OFFSET)
  both interpret it.
\<close>

section \<open>Kinds and actions (kind.go, action.go)\<close>

type_synonym Kind = string

definition SiteKind :: Kind where [kind_defs]: "SiteKind = ''site''"
definition OrganizationKind :: Kind where [kind_defs]: "OrganizationKind = ''org''"
definition WorkspaceKind :: Kind where [kind_defs]: "WorkspaceKind = ''ws''"
definition RunKind :: Kind where [kind_defs]: "RunKind = ''run''"
definition ConfigVersionKind :: Kind where [kind_defs]: "ConfigVersionKind = ''cv''"
definition IngressAttributesKind :: Kind where [kind_defs]: "IngressAttributesKind = ''ia''"
definition JobKind :: Kind where [kind_defs]: "JobKind = ''job''"
definition ChunkKind :: Kind where [kind_defs]: "ChunkKind = ''chunk''"
definition UserKind :: Kind where [kind_defs]: "UserKind = ''user''"
definition TeamKind :: Kind where [kind_defs]: "TeamKind = ''team''"
definition ModuleKind :: Kind where [kind_defs]: "ModuleKind = ''mod''"
definition ModuleVersionKind :: Kind where [kind_defs]: "ModuleVersionKind = ''modver''"
definition NotificationConfigurationKind :: Kind where
  [kind_defs]: "NotificationConfigurationKind = ''nc''"
definition AgentPoolKind :: Kind where [kind_defs]: "AgentPoolKind = ''apool''"
definition RunnerKind :: Kind where [kind_defs]: "RunnerKind = ''runner''"
definition StateVersionKind :: Kind where [kind_defs]: "StateVersionKind = ''sv''"
definition StateVersionOutputKind :: Kind where [kind_defs]: "StateVersionOutputKind = ''wsout''"
definition VariableSetKind :: Kind where [kind_defs]: "VariableSetKind = ''varset''"
definition VariableKind :: Kind where [kind_defs]: "VariableKind = ''var''"
definition VCSProviderKind :: Kind where [kind_defs]: "VCSProviderKind = ''vcs''"
definition OrganizationTokenKind :: Kind where [kind_defs]: "OrganizationTokenKind = ''ot''"
definition UserTokenKind :: Kind where [kind_defs]: "UserTokenKind = ''ut''"
definition TeamTokenKind :: Kind where [kind_defs]: "TeamTokenKind = ''tt''"
definition AgentTokenKind :: Kind where [kind_defs]: "AgentTokenKind = ''at''"
definition SSHKeyKind :: Kind where [kind_defs]: "SSHKeyKind = ''sshkey''"
definition PrivateKeyKind :: Kind where [kind_defs]: "PrivateKeyKind = ''privkey''"
definition RunTriggerKind :: Kind where [kind_defs]: "RunTriggerKind = ''rt''"
definition GithubAppKind :: Kind where [kind_defs]: "GithubAppKind = ''ghapp''"
definition PlanFileKind :: Kind where [kind_defs]: "PlanFileKind = ''pf''"
definition TagKind :: Kind where [kind_defs]: "TagKind = ''tag''"
definition EntitlementKind :: Kind where [kind_defs]: "EntitlementKind = ''ent''"
definition LockFileKind :: Kind where [kind_defs]: "LockFileKind = ''lock''"

text \<open>The const block of kind.go, in its order.\<close>

definition all_kinds :: "Kind list" where
  "all_kinds =
     [SiteKind, OrganizationKind, WorkspaceKind, RunKind, ConfigVersionKind,
      IngressAttributesKind, JobKind, ChunkKind, UserKind, TeamKind, ModuleKind,
      ModuleVersionKind, NotificationConfigurationKind, AgentPoolKind, RunnerKind,
      StateVersionKind, StateVersionOutputKind, VariableSetKind, VariableKind,
      VCSProviderKind, OrganizationTokenKind, UserTokenKind, TeamTokenKind, AgentTokenKind,
      SSHKeyKind, PrivateKeyKind, RunTriggerKind, GithubAppKind, PlanFileKind, TagKind,
      EntitlementKind, LockFileKind]"

definition fullKinds :: "(Kind \<times> string) list" where
  "fullKinds =
     [(OrganizationKind, ''organization''),
      (WorkspaceKind, ''workspace''),
      (RunKind, ''run''),
      (ConfigVersionKind, ''config''),
      (IngressAttributesKind, ''ingress-attributes''),
      (JobKind, ''job''),
      (ModuleKind, ''module''),
      (ModuleVersionKind, ''module-version''),
      (NotificationConfigurationKind, ''notification-config''),
      (AgentPoolKind, ''agent-pool''),
      (RunnerKind, ''runner''),
      (StateVersionKind, ''state-version''),
      (StateVersionOutputKind, ''workspace-output''),
      (VariableSetKind, ''variable-set''),
      (VariableKind, ''variable''),
      (OrganizationTokenKind, ''organization-token''),
      (UserTokenKind, ''user-token''),
      (TeamTokenKind, ''team-token''),
      (AgentTokenKind, ''agent-token''),
      (SSHKeyKind, ''ssh-key''),
      (PrivateKeyKind, ''private-key''),
      (RunTriggerKind, ''trigger''),
      (VCSProviderKind, ''vcs-provider''),
      (GithubAppKind, ''github-app''),
      (PlanFileKind, ''plan-file''),
      (TagKind, ''tag''),
      (EntitlementKind, ''entitlement''),
      (LockFileKind, ''lock-file'')]"

definition Full :: "Kind \<Rightarrow> string" where
  "Full k = (case map_of fullKinds k of Some full \<Rightarrow> full | None \<Rightarrow> k)"

datatype Action =
    GetAction | ListAction | CreateAction | NewAction | EditAction | UpdateAction
  | DeleteAction | WatchAction | UploadAction | DownloadAction | ApplyAction | CancelAction
  | ForceCancelAction | DiscardAction | RetryAction | LockAction | ForceUnlockAction
  | UnlockAction | AddAction | RemoveAction | SetPermissionAction | UnsetPermissionAction
  | EnqueuePlanAction | RollbackAction | TailAction

section \<open>Identifiers (tfe\_id.go, site.go, id.go)\<close>

definition base58 :: string where
  "base58 = ''123456789ABCDEFGHJKLMNPQRSTUVWXYZabcdefghijkmnopqrstuvwxyz''"

record TfeID =
  tfe_kind :: Kind
  tfe_id :: string

text \<open>
  \<open>GenerateRandomStringFromAlphabet\<close>: the randomness is an argument, the raw value of the \<open>i\<close>-th
  draw, which \<open>rand.Intn\<close> reduces to an index of the alphabet.
\<close>

definition GenerateRandomStringFromAlphabet :: "(nat \<Rightarrow> nat) \<Rightarrow> nat \<Rightarrow> string \<Rightarrow> string" where
  "GenerateRandomStringFromAlphabet rnd n alphabet =
     map (\<lambda>i. alphabet ! (rnd i mod length alphabet)) [0..<n]"

definition NewTfeID :: "(nat \<Rightarrow> nat) \<Rightarrow> Kind \<Rightarrow> TfeID" where
  "NewTfeID rnd kind =
     \<lparr>tfe_kind = kind, tfe_id = GenerateRandomStringFromAlphabet rnd 16 base58\<rparr>"

definition ConvertTfeID :: "TfeID \<Rightarrow> Kind \<Rightarrow> TfeID" where
  "ConvertTfeID tid to = \<lparr>tfe_kind = to, tfe_id = tfe_id tid\<rparr>"

definition TfeID_String :: "TfeID \<Rightarrow> string" where
  "TfeID_String tid = tfe_kind tid @ ''-'' @ tfe_id tid"

definition TfeID_IsZero :: "TfeID \<Rightarrow> bool" where
  "TfeID_IsZero tid = (tfe_id tid = '''' \<and> tfe_kind tid = '''')"

definition ParseTfeID :: "string \<Rightarrow> TfeID result" where
  "ParseTfeID s =
     (let parts = split_on (CHR ''-'') s
      in if length parts \<noteq> 2 then Inl (Errorf (''malformed ID: '' @ s))
         else let kind = parts ! 0
              in if length kind < 2
                 then Inl (Errorf (''kind must be at least 2 characters: '' @ s))
                 else let tid = parts ! 1
                      in if length tid < 1
                         then Inl (Errorf (''id suffix must be at least 1 character: '' @ s))
                         else Inr \<lparr>tfe_kind = kind, tfe_id = tid\<rparr>)"

text \<open>A hard-coded ID that does not parse is a panic.\<close>

definition MustHardcodeTfeID :: "Kind \<Rightarrow> string \<Rightarrow> TfeID result" where
  "MustHardcodeTfeID kind suffix =
     (case ParseTfeID (kind @ ''-'' @ suffix) of
        Inl e \<Rightarrow> Inl (Panic ''failed to parse hardcoded ID'')
      | Inr tid \<Rightarrow> Inr tid)"

text \<open>
  \<open>UnmarshalText\<close> leaves its receiver alone on empty input; \<open>Scan\<close> does so on a database NULL
  (\<open>None\<close>).
\<close>

definition UnmarshalText :: "TfeID \<Rightarrow> string \<Rightarrow> TfeID result" where
  "UnmarshalText tid text = (if text = [] then Inr tid else ParseTfeID text)"

definition TfeID_Scan :: "TfeID \<Rightarrow> string option \<Rightarrow> TfeID result" where
  "TfeID_Scan tid text = (case text of None \<Rightarrow> Inr tid | Some s \<Rightarrow> ParseTfeID s)"

definition TfeID_Value :: "TfeID option \<Rightarrow> string option" where
  "TfeID_Value tid = map_option TfeID_String tid"

text \<open>
  The interface \<open>resource.ID\<close> and the types that implement it: TFE identifiers, the site,
  organization names and usernames. A pointer to one of them implements the interface too, and some
  services pass \<open>&pool.Organization\<close>: it has the kind and the string of what it points to but, as an
  interface value, is not equal to it.
\<close>

datatype ID =
  TfeID_ID TfeID | SiteID | OrganizationName_ID string | Username_ID string | Pointer_ID ID

fun ID_Kind :: "ID \<Rightarrow> Kind" where
  "ID_Kind (TfeID_ID tid) = tfe_kind tid"
| "ID_Kind SiteID = SiteKind"
| "ID_Kind (OrganizationName_ID n) = OrganizationKind"
| "ID_Kind (Username_ID n) = UserKind"
| "ID_Kind (Pointer_ID i) = ID_Kind i"

fun ID_String :: "ID \<Rightarrow> string" where
  "ID_String (TfeID_ID tid) = TfeID_String tid"
| "ID_String SiteID = ''site''"
| "ID_String (OrganizationName_ID n) = n"
| "ID_String (Username_ID n) = n"
| "ID_String (Pointer_ID i) = ID_String i"

section \<open>Names (resource.go)\<close>

definition is_name_char :: "char \<Rightarrow> bool" where
  "is_name_char c = (let n = of_char c :: nat
     in 97 \<le> n \<and> n \<le> 122 \<or> 65 \<le> n \<and> n \<le> 90 \<or> 48 \<le> n \<and> n \<le> 57 \<or> n = 45 \<or> n = 95)"

definition ValidateName :: "string option \<Rightarrow> unit result" where
  "ValidateName name =
     (case name of
        None \<Rightarrow> Inl ErrRequiredName
      | Some n \<Rightarrow> if n \<noteq> [] \<and> list_all is_name_char n then Inr () else Inl ErrInvalidName)"

section \<open>Pagination (pagination.go, sql.go)\<close>

definition DefaultPageSize :: int where "DefaultPageSize = 20"
definition MaxPageSize :: int where "MaxPageSize = 100"

record PageOptions =
  PageNumber :: int
  PageSize :: int

record Pagination =
  CurrentPage :: int
  PreviousPage :: "int option"
  NextPage :: "int option"
  TotalPages :: int
  TotalCount :: int

text \<open>A Go slice may be nil: \<open>None\<close>. Its elements are those of the empty list then.\<close>

type_synonym 'a slice = "'a list option"

definition elems :: "'a slice \<Rightarrow> 'a list" where
  "elems s = (case s of None \<Rightarrow> [] | Some xs \<Rightarrow> xs)"

lemma elems_simps [simp]: "elems None = []" "elems (Some xs) = xs"
  by (simp_all add: elems_def)

record 'a Page =
  Items :: "'a slice"
  Page_Pagination :: Pagination

definition Normalize :: "PageOptions \<Rightarrow> PageOptions" where
  "Normalize opts =
     (let o1 = (if PageNumber opts < 1 then opts\<lparr>PageNumber := 1\<rparr> else opts);
          o2 = (if PageSize o1 \<le> 0 then o1\<lparr>PageSize := DefaultPageSize\<rparr> else o1);
          o3 = (if PageSize o2 > MaxPageSize then o2\<lparr>PageSize := MaxPageSize\<rparr> else o2)
      in o3)"

text \<open>
  \<open>math.Ceil\<close> of the floating-point quotient; page sizes are at most 100 and the quotient is
  taken exactly, which is what the 53-bit mantissa gives for any count below \<open>2 ^ 45\<close>.
\<close>

definition ceil_div :: "int \<Rightarrow> int \<Rightarrow> int" where
  "ceil_div a b = - ((- a) div b)"

definition newPagination :: "PageOptions \<Rightarrow> int \<Rightarrow> Pagination" where
  "newPagination opts count =
     (let total = max 1 (ceil_div count (PageSize opts))
      in \<lparr>CurrentPage = PageNumber opts,
          PreviousPage = (if PageNumber opts > 1 then Some (PageNumber opts - 1) else None),
          NextPage = (if PageNumber opts < total then Some (i64 (PageNumber opts + 1)) else None),
          TotalPages = total,
          TotalCount = count\<rparr>)"

text \<open>
  \<open>NewPage\<close>. The products are 64-bit and may wrap; a slice expression whose bound is negative or
  past the end is a panic.
\<close>

definition NewPage :: "'a slice \<Rightarrow> PageOptions \<Rightarrow> int option \<Rightarrow> 'a Page result" where
  "NewPage resources options count =
     (let opts = Normalize options
      in case count of
           None \<Rightarrow>
             (let metadata = newPagination opts (int (length (elems resources)));
                  end = i64 (PageSize opts * PageNumber opts);
                  start = i64 (PageSize opts * (PageNumber opts - 1))
              in if int (length (elems resources)) > end \<and> end < 0
                 then Inl (Panic ''slice bounds out of range'')
                 else let rs = (if int (length (elems resources)) > end
                                then map_option (take (nat end)) resources else resources)
                      in if start > int (length (elems rs))
                         then Inr \<lparr>Items = Some [], Page_Pagination = metadata\<rparr>
                         else if start < 0
                         then Inl (Panic ''slice bounds out of range'')
                         else Inr \<lparr>Items = map_option (drop (nat start)) rs,
                                   Page_Pagination = metadata\<rparr>)
         | Some c \<Rightarrow>
             Inr \<lparr>Items = resources, Page_Pagination = newPagination opts c\<rparr>)"

text \<open>
  \<open>ListAll\<close>: the loop as a partial function, \<open>None\<close> when it never returns. \<open>fn\<close> may return a nil
  page (\<open>Inr None\<close>).
\<close>

partial_function (option) ListAll_loop ::
  "(PageOptions \<Rightarrow> 'a Page option result) \<Rightarrow> PageOptions \<Rightarrow> 'a list \<Rightarrow> int \<Rightarrow>
   'a list result option" where
  "ListAll_loop fn opts all lastNextPage =
     (case fn opts of
        Inl err \<Rightarrow> Some (Inl err)
      | Inr page \<Rightarrow>
          (case page of
             None \<Rightarrow> Some (Inr all)
           | Some p \<Rightarrow>
               (case Items p of
                  None \<Rightarrow> Some (Inr all)
                | Some items \<Rightarrow>
                    (case NextPage (Page_Pagination p) of
                       None \<Rightarrow> Some (Inr (all @ items))
                     | Some nextp \<Rightarrow>
                         if nextp = lastNextPage
                         then Some (Inl ErrInfinitePaginationDetected)
                         else ListAll_loop fn (opts\<lparr>PageNumber := nextp\<rparr>) (all @ items) nextp))))"

definition ListAll :: "(PageOptions \<Rightarrow> 'a Page option result) \<Rightarrow> 'a list result option" where
  "ListAll fn = ListAll_loop fn \<lparr>PageNumber = 0, PageSize = MaxPageSize\<rparr> [] 0"

text \<open>\<open>sql.GetOffset\<close> and \<open>sql.GetLimit\<close> convert to a 32-bit integer.\<close>

definition GetOffset :: "PageOptions \<Rightarrow> int" where
  "GetOffset options =
     (let opts = Normalize options in i32 (i64 ((PageNumber opts - 1) * PageSize opts)))"

definition GetLimit :: "PageOptions \<Rightarrow> int" where
  "GetLimit opts = i32 (PageSize (Normalize opts))"

text \<open>
  The two page sources of the code base: a full result set paged in memory (\<open>count\<close> nil), and a
  result set that a query has already cut with LIMIT and OFFSET (\<open>count\<close> is the size of the whole).
\<close>

definition mem_page :: "'a list \<Rightarrow> PageOptions \<Rightarrow> 'a Page option result" where
  "mem_page xs opts =
     (case NewPage (Some xs) opts None of Inl e \<Rightarrow> Inl e | Inr p \<Rightarrow> Inr (Some p))"

definition db_page :: "'a list \<Rightarrow> PageOptions \<Rightarrow> 'a Page option result" where
  "db_page rows opts =
     (if GetOffset opts < 0 then Inl (Errorf ''OFFSET must not be negative'')
      else case NewPage (Some (take (nat (GetLimit opts)) (drop (nat (GetOffset opts)) rows)))
                  opts (Some (int (length rows))) of
             Inl e \<Rightarrow> Inl e | Inr p \<Rightarrow> Inr (Some p))"

section \<open>Lemmas: identifiers\<close>

definition wf_tfe_id :: "TfeID \<Rightarrow> bool" where
  "wf_tfe_id t \<longleftrightarrow>
     2 \<le> length (tfe_kind t) \<and> CHR ''-'' \<notin> set (tfe_kind t) \<and>
     tfe_id t \<noteq> [] \<and> CHR ''-'' \<notin> set (tfe_id t)"

lemma ParseTfeID_String: "wf_tfe_id t \<Longrightarrow> ParseTfeID (TfeID_String t) = Inr t"
  by (simp add: wf_tfe_id_def TfeID_String_def ParseTfeID_def split_on_append split_on_absent
        Let_def length_greater_0_conv [symmetric] Suc_leI del: length_greater_0_conv)

lemma String_ParseTfeID:
  assumes "ParseTfeID s = Inr t"
  shows "wf_tfe_id t \<and> s = TfeID_String t"
proof -
  have len: "length (split_on (CHR ''-'') s) = 2"
    using assms by (auto simp: ParseTfeID_def Let_def split: if_splits)
  then obtain k i where ki: "split_on (CHR ''-'') s = [k, i]"
    by (auto simp: numeral_2_eq_2 length_Suc_conv)
  then have "s = k @ CHR ''-'' # i" "CHR ''-'' \<notin> set k" "CHR ''-'' \<notin> set i"
    using split_on_two [OF ki] by auto
  with assms ki show ?thesis
    by (auto simp: ParseTfeID_def Let_def wf_tfe_id_def TfeID_String_def split: if_splits)
qed

lemma base58_chars: "CHR ''-'' \<notin> set base58" "base58 \<noteq> []"
  by (simp_all add: base58_def)

lemma NewTfeID_suffix:
  "length (tfe_id (NewTfeID rnd k)) = 16 \<and> CHR ''-'' \<notin> set (tfe_id (NewTfeID rnd k))"
proof -
  have "base58 ! (n mod length base58) \<in> set base58" for n
    by (rule nth_mem) (use base58_chars(2) in simp)
  with base58_chars(1) show ?thesis
    by (auto simp: NewTfeID_def GenerateRandomStringFromAlphabet_def)
qed

lemma all_kinds_wf: "k \<in> set all_kinds \<Longrightarrow> 2 \<le> length k \<and> CHR ''-'' \<notin> set k"
  by (auto simp: all_kinds_def kind_defs)

lemma NewTfeID_wf: "k \<in> set all_kinds \<Longrightarrow> wf_tfe_id (NewTfeID rnd k)"
  using NewTfeID_suffix [of rnd k] all_kinds_wf [of k]
  by (auto simp: wf_tfe_id_def NewTfeID_def)

section \<open>Lemmas: pagination\<close>

lemma Normalize_bounds:
  "1 \<le> PageNumber (Normalize opts)"
  "1 \<le> PageSize (Normalize opts)" "PageSize (Normalize opts) \<le> MaxPageSize"
  by (auto simp: Normalize_def Let_def DefaultPageSize_def MaxPageSize_def)

lemma Normalize_idem: "Normalize (Normalize opts) = Normalize opts"
  by (auto simp: Normalize_def Let_def DefaultPageSize_def MaxPageSize_def)

lemma ceil_div_less_iff:
  assumes "0 < b"
  shows "n < ceil_div a b \<longleftrightarrow> n * b < a"
proof -
  define q r where "q = (- a) div b" and "r = (- a) mod b"
  have a: "a = - q * b - r" and r: "0 \<le> r" "r < b"
    using assms div_mult_mod_eq [of "- a" b] unfolding q_def r_def by (linarith | simp)+
  show ?thesis
  proof
    assume "n < ceil_div a b"
    then have "n \<le> - q - 1" by (simp add: ceil_div_def q_def)
    then have "n * b \<le> (- q - 1) * b" using assms by (simp add: mult_right_mono)
    with a r show "n * b < a" by (simp add: algebra_simps)
  next
    assume "n * b < a"
    with a r have "n * b < (- q) * b" by simp
    with assms have "n < - q" using mult_less_cancel_right_pos by blast
    then show "n < ceil_div a b" by (simp add: ceil_div_def q_def)
  qed
qed

lemma NextPage_newPagination:
  assumes "1 \<le> PageNumber opts" "1 \<le> PageSize opts"
    and "PageNumber opts * PageSize opts < 2 ^ 63 - 1"
  shows "NextPage (newPagination opts c) =
     (if PageNumber opts * PageSize opts < c then Some (PageNumber opts + 1) else None)"
proof -
  have "PageNumber opts * 1 \<le> PageNumber opts * PageSize opts"
    using assms by (intro mult_left_mono) auto
  with assms have "PageNumber opts < 2 ^ 63 - 1" by linarith
  with assms have "i64 (PageNumber opts + 1) = PageNumber opts + 1"
    by (intro i64_id) auto
  with assms show ?thesis
    by (auto simp: newPagination_def Let_def ceil_div_less_iff less_max_iff_disj)
qed

text \<open>
  As long as the products do not leave 64 bits, \<open>NewPage\<close> on a full result set returns the segment
  of the requested page.
\<close>

lemma NewPage_segment:
  assumes "PageSize (Normalize opts) * PageNumber (Normalize opts) < 2 ^ 63"
  shows "NewPage (Some xs) opts None =
     Inr \<lparr>Items = Some (take (nat (PageSize (Normalize opts)))
                     (drop (nat (PageSize (Normalize opts) * (PageNumber (Normalize opts) - 1))) xs)),
          Page_Pagination = newPagination (Normalize opts) (int (length xs))\<rparr>"
proof -
  define n s where "n = PageNumber (Normalize opts)" and "s = PageSize (Normalize opts)"
  have n: "1 \<le> n" and s: "1 \<le> s" using Normalize_bounds [of opts] by (auto simp: n_def s_def)
  have pos: "0 \<le> s * (n - 1)" "s * (n - 1) \<le> s * n" "0 \<le> s * n"
    using n s by (simp_all add: mult_left_mono)
  have "s * n < 2 ^ 63" using assms by (simp add: n_def s_def)
  with pos have wrap: "i64 (s * n) = s * n" "i64 (s * (n - 1)) = s * (n - 1)"
    by (auto intro!: i64_id)
  have sn: "nat (s * n) = nat (s * (n - 1)) + nat s"
    using pos s by (simp add: nat_add_distrib [symmetric] algebra_simps)
  show ?thesis
    using pos unfolding NewPage_def Let_def n_def [symmetric] s_def [symmetric]
    by (auto simp: wrap sn [symmetric] take_drop drop_all nat_le_iff add.commute [of "nat s"])
qed


section \<open>The contract of a page source, and ListAll\<close>

text \<open>
  What \<open>ListAll\<close> relies on: asked for page \<open>n\<close> with the maximal page size, the source answers with
  the \<open>n\<close>-th segment of a fixed result set and names the next page exactly when there are items
  beyond this one.
\<close>

locale page_source =
  fixes fetch :: "PageOptions \<Rightarrow> 'a Page option result"
    and items :: "'a list"
    and bound :: int
  assumes fetch_segment:
    "int (length items) < bound \<Longrightarrow> PageSize opts = MaxPageSize \<Longrightarrow>
     n = max 1 (PageNumber opts) \<Longrightarrow> MaxPageSize * (n - 1) \<le> int (length items) \<Longrightarrow>
     \<exists>p. fetch opts = Inr (Some p) \<and>
         Items p = Some (take (nat MaxPageSize) (drop (nat (MaxPageSize * (n - 1))) items)) \<and>
         NextPage (Page_Pagination p) =
           (if n * MaxPageSize < int (length items) then Some (n + 1) else None)"
begin

lemma ListAll_loop_rest:
  assumes "int (length items) < bound" "PageSize opts = MaxPageSize"
    and "n = max 1 (PageNumber opts)" "MaxPageSize * (n - 1) \<le> int (length items)"
    and "lastp \<le> n"
  shows "ListAll_loop fetch opts (take (nat (MaxPageSize * (n - 1))) items) lastp
         = Some (Inr items)"
  using assms
proof (induction "nat (int (length items) - n * MaxPageSize)" arbitrary: n opts lastp
    rule: less_induct)
  case less
  obtain p where p: "fetch opts = Inr (Some p)"
    "Items p = Some (take (nat MaxPageSize) (drop (nat (MaxPageSize * (n - 1))) items))"
    "NextPage (Page_Pagination p) =
       (if n * MaxPageSize < int (length items) then Some (n + 1) else None)"
    using fetch_segment [OF less.prems(1-4)] by blast
  have n: "1 \<le> n" using less.prems(3) by simp
  have seg: "take (nat (MaxPageSize * (n - 1))) items @
      take (nat MaxPageSize) (drop (nat (MaxPageSize * (n - 1))) items) =
      take (nat (MaxPageSize * n)) items"
    using n by (simp add: take_add [symmetric] MaxPageSize_def algebra_simps)
      (rule arg_cong [where f = "\<lambda>k. take k items"], arith)
  show ?case
  proof (cases "n * MaxPageSize < int (length items)")
    case True
    have step: "ListAll_loop fetch (opts\<lparr>PageNumber := n + 1\<rparr>)
        (take (nat (MaxPageSize * ((n + 1) - 1))) items) (n + 1) = Some (Inr items)"
      using True n less.prems
      by (intro less.hyps) (auto simp: MaxPageSize_def algebra_simps)
    have "ListAll_loop fetch opts (take (nat (MaxPageSize * (n - 1))) items) lastp =
        ListAll_loop fetch (opts\<lparr>PageNumber := n + 1\<rparr>) (take (nat (MaxPageSize * n)) items) (n + 1)"
      using True p less.prems(5)
      by (subst ListAll_loop.simps) (simp add: seg)
    with step show ?thesis by simp
  next
    case False
    then have "take (nat (MaxPageSize * n)) items = items"
      by (simp add: MaxPageSize_def algebra_simps)
    with False p show ?thesis
      by (subst ListAll_loop.simps) (simp add: seg)
  qed
qed

lemma ListAll_complete:
  "int (length items) < bound \<Longrightarrow> ListAll fetch = Some (Inr items)"
  using ListAll_loop_rest [of "\<lparr>PageNumber = 0, PageSize = MaxPageSize\<rparr>" 1 0]
  by (simp add: ListAll_def)

end

lemma Normalize_max:
  "PageSize opts = MaxPageSize \<Longrightarrow>
   PageSize (Normalize opts) = MaxPageSize \<and> PageNumber (Normalize opts) = max 1 (PageNumber opts)"
  by (auto simp: Normalize_def Let_def MaxPageSize_def)

text \<open>Paging a full result set in memory, for any result set shorter than \<open>2 ^ 62\<close>.\<close>

interpretation mem: page_source "mem_page xs" xs "2 ^ 62" for xs
proof unfold_locales
  fix opts :: PageOptions and n :: int
  assume h: "int (length xs) < 2 ^ 62" "PageSize opts = MaxPageSize"
    "n = max 1 (PageNumber opts)" "MaxPageSize * (n - 1) \<le> int (length xs)"
  note N = Normalize_max [OF h(2)]
  have b: "PageSize (Normalize opts) * PageNumber (Normalize opts) < 2 ^ 63 - 1"
    using h N by (simp add: MaxPageSize_def)
  show "\<exists>p. mem_page xs opts = Inr (Some p) \<and>
         Items p = Some (take (nat MaxPageSize) (drop (nat (MaxPageSize * (n - 1))) xs)) \<and>
         NextPage (Page_Pagination p) =
           (if n * MaxPageSize < int (length xs) then Some (n + 1) else None)"
    using b h N Normalize_bounds [of opts]
    by (simp add: mem_page_def NewPage_segment NextPage_newPagination mult.commute)
qed

text \<open>Paging in the database; the 32-bit offset bounds the result set by \<open>2 ^ 31\<close> rows.\<close>

interpretation db: page_source "db_page rows" rows "2 ^ 31" for rows
proof unfold_locales
  fix opts :: PageOptions and n :: int
  assume h: "int (length rows) < 2 ^ 31" "PageSize opts = MaxPageSize"
    "n = max 1 (PageNumber opts)" "MaxPageSize * (n - 1) \<le> int (length rows)"
  note N = Normalize_max [OF h(2)]
  have off: "GetOffset opts = MaxPageSize * (n - 1)" "GetLimit opts = MaxPageSize"
    using h N by (simp_all add: GetOffset_def GetLimit_def Let_def i64_id i32_id MaxPageSize_def)
  have b: "PageNumber (Normalize opts) * PageSize (Normalize opts) < 2 ^ 63 - 1"
    using h N by (simp add: MaxPageSize_def)
  have pos: "\<not> MaxPageSize * (n - 1) < 0" using h(3) by (simp add: MaxPageSize_def)
  show "\<exists>p. db_page rows opts = Inr (Some p) \<and>
         Items p = Some (take (nat MaxPageSize) (drop (nat (MaxPageSize * (n - 1))) rows)) \<and>
         NextPage (Page_Pagination p) =
           (if n * MaxPageSize < int (length rows) then Some (n + 1) else None)"
    using b h(1,4) N Normalize_bounds [of opts] unfolding h(3) [symmetric]
    by (simp add: pos h(3) [symmetric] db_page_def NewPage_def Let_def off NextPage_newPagination)
qed

section \<open>Properties\<close>

text \<open>
  identifiers and their strings correspond one to one. \<open>ParseTfeID\<close> accepts exactly the strings
  that \<open>String\<close> prints for a well-formed identifier (kind of at least two characters, non-empty
  suffix, a single hyphen) and returns that identifier.
\<close>

theorem ParseTfeID_iff: "ParseTfeID s = Inr t \<longleftrightarrow> wf_tfe_id t \<and> s = TfeID_String t"
  using ParseTfeID_String String_ParseTfeID by blast

text \<open>
  every identifier that the program generates, of any of its kinds and from any randomness, is
  read back as itself.
\<close>

theorem NewTfeID_roundtrip:
  assumes "k \<in> set all_kinds"
  shows "ParseTfeID (TfeID_String (NewTfeID rnd k)) = Inr (NewTfeID rnd k) \<and>
    length (tfe_id (NewTfeID rnd k)) = 16"
  using ParseTfeID_String [OF NewTfeID_wf [OF assms]] NewTfeID_suffix by simp

lemma NewTfeID_roundtrip_witness:
  "ParseTfeID (TfeID_String (NewTfeID (\<lambda>i. i) RunKind)) = Inr (NewTfeID (\<lambda>i. i) RunKind)"
proof -
  have "RunKind \<in> set all_kinds" by (simp add: all_kinds_def)
  from NewTfeID_roundtrip [OF this, of "\<lambda>i. i"] show ?thesis by simp
qed

text \<open>
  C38: \<open>ListAll\<close> returns, and returns the whole result set in order, when the pages come from the
  database (result sets of fewer than \<open>2 ^ 31\<close> rows, the range of the 32-bit offset) and when they
  come from a list in memory.
\<close>

theorem ListAll_returns_everything:
  "(int (length rows) < 2 ^ 31 \<longrightarrow> ListAll (db_page rows) = Some (Inr rows)) \<and>
   (int (length xs) < 2 ^ 62 \<longrightarrow> ListAll (mem_page xs) = Some (Inr xs))"
  using db.ListAll_complete mem.ListAll_complete by blast

lemma ListAll_returns_everything_witness:
  "ListAll (db_page (replicate 250 True)) = Some (Inr (replicate 250 True)) \<and>
   ListAll (mem_page [1, 2, 3 :: int]) = Some (Inr [1, 2, 3])"
  using ListAll_returns_everything [of "replicate 250 True" "[1, 2, 3 :: int]"] by simp

text \<open>
  a page of a full result set is the requested segment of it, and its pagination names the next
  page exactly when items remain, as long as the product of page number and size fits 64 bits.
\<close>

theorem NewPage_is_segment:
  assumes "PageSize (Normalize opts) * PageNumber (Normalize opts) < 2 ^ 63 - 1"
  shows "\<exists>p. NewPage (Some xs) opts None = Inr p \<and>
    Items p = Some (take (nat (PageSize (Normalize opts)))
                (drop (nat (PageSize (Normalize opts) * (PageNumber (Normalize opts) - 1))) xs)) \<and>
    NextPage (Page_Pagination p) =
      (if PageNumber (Normalize opts) * PageSize (Normalize opts) < int (length xs)
       then Some (PageNumber (Normalize opts) + 1) else None)"
  using assms Normalize_bounds [of opts]
  by (simp add: NewPage_segment NextPage_newPagination mult.commute)

lemma NewPage_is_segment_witness:
  "\<exists>p. NewPage (Some [10, 20, 30 :: int]) \<lparr>PageNumber = 2, PageSize = 2\<rparr> None = Inr p \<and>
       Items p = Some [30] \<and> NextPage (Page_Pagination p) = None"
  using NewPage_is_segment [of "\<lparr>PageNumber = 2, PageSize = 2\<rparr>" "[10, 20, 30 :: int]"]
  by (simp add: Normalize_def Let_def MaxPageSize_def DefaultPageSize_def)


end
