(* ===== verification/Workspace.thy ===== *)
theory Workspace
  imports Resource
begin

text \<open>
  The package \<open>internal/workspace\<close> and \<open>internal/workspace/execution\<close>: execution modes, the engine
  version of a workspace, the workspace record with its factory and its update, and the lock that a
  user or a run holds on it. Whether a regular expression or a glob compiles is asked of the
  regexp and glob libraries, so it is an argument (\<open>regex_ok\<close>, \<open>glob_ok\<close>); semantic version checks
  come from golang.org/x/mod/semver and are arguments too.
\<close>

section \<open>Execution modes (execution/mode.go)\<close>

datatype ExecKind = RemoteKind | LocalKind | AgentKind | OtherExecKind string

record Mode =
  mode_kind :: ExecKind
  mode_agentPoolID :: "TfeID option"

fun ExecKind_String :: "ExecKind \<Rightarrow> string" where
  "ExecKind_String RemoteKind = ''remote''"
| "ExecKind_String LocalKind = ''local''"
| "ExecKind_String AgentKind = ''agent''"
| "ExecKind_String (OtherExecKind s) = s"

definition mode_isValid :: "ExecKind \<Rightarrow> TfeID option \<Rightarrow> unit result" where
  "mode_isValid kind agentPoolID =
     (case kind of
        LocalKind \<Rightarrow>
          if agentPoolID \<noteq> None then Inl ErrNonAgentExecutionModeWithPool else Inr ()
      | RemoteKind \<Rightarrow>
          if agentPoolID \<noteq> None then Inl ErrNonAgentExecutionModeWithPool else Inr ()
      | AgentKind \<Rightarrow>
          if agentPoolID = None then Inl ErrAgentExecutionModeWithoutPool else Inr ()
      | OtherExecKind s \<Rightarrow> Inl (Errorf (''invalid kind: '' @ s)))"

definition NewMode :: "ExecKind \<Rightarrow> TfeID option \<Rightarrow> Mode result" where
  "NewMode kind agentPoolID =
     (case mode_isValid kind agentPoolID of
        Inl err \<Rightarrow> Inl err
      | Inr _ \<Rightarrow> Inr \<lparr>mode_kind = kind, mode_agentPoolID = agentPoolID\<rparr>)"

definition NewModeWithDefaults ::
  "ExecKind option \<Rightarrow> ExecKind \<Rightarrow> TfeID option \<Rightarrow> TfeID option \<Rightarrow> Mode result" where
  "NewModeWithDefaults overrideKind defaultKind overrideAgentPoolID defaultAgentPoolID =
     (let kind = (case overrideKind of None \<Rightarrow> defaultKind | Some k \<Rightarrow> k);
          pool = (if kind = AgentKind \<and> overrideAgentPoolID = None
                  then defaultAgentPoolID else overrideAgentPoolID)
      in NewMode kind pool)"

definition RemoteMode :: Mode where
  "RemoteMode = \<lparr>mode_kind = RemoteKind, mode_agentPoolID = None\<rparr>"

definition LocalMode :: Mode where
  "LocalMode = \<lparr>mode_kind = LocalKind, mode_agentPoolID = None\<rparr>"

definition AgentMode :: "TfeID \<Rightarrow> Mode" where
  "AgentMode poolID = \<lparr>mode_kind = AgentKind, mode_agentPoolID = Some poolID\<rparr>"

definition Mode_Update :: "Mode \<Rightarrow> ExecKind option \<Rightarrow> TfeID option \<Rightarrow> Mode result" where
  "Mode_Update m kind agentPoolID =
     (if kind = None \<and> agentPoolID = None then Inr m
      else let m1 = (case kind of None \<Rightarrow> m | Some k \<Rightarrow> m\<lparr>mode_kind := k\<rparr>);
               m2 = m1\<lparr>mode_agentPoolID := agentPoolID\<rparr>
           in case mode_isValid (mode_kind m2) agentPoolID of
                Inl err \<Rightarrow> Inl err
              | Inr _ \<Rightarrow> Inr m2)"

definition valid_mode :: "Mode \<Rightarrow> bool" where
  "valid_mode m = is_ok (mode_isValid (mode_kind m) (mode_agentPoolID m))"

lemma valid_mode_iff:
  "valid_mode m \<longleftrightarrow>
     mode_kind m = AgentKind \<and> mode_agentPoolID m \<noteq> None \<or>
     mode_kind m \<in> {LocalKind, RemoteKind} \<and> mode_agentPoolID m = None"
  by (cases "mode_kind m") (auto simp: valid_mode_def mode_isValid_def)

lemma NewMode_valid: "NewMode k p = Inr m \<Longrightarrow> valid_mode m"
  by (auto simp: NewMode_def valid_mode_def split: sum.splits)

lemma NewModeWithDefaults_valid: "NewModeWithDefaults ok dk op dp = Inr m \<Longrightarrow> valid_mode m"
  by (auto simp: NewModeWithDefaults_def Let_def dest: NewMode_valid)

lemma Mode_Update_valid: "valid_mode m \<Longrightarrow> Mode_Update m k p = Inr m' \<Longrightarrow> valid_mode m'"
  by (auto simp: Mode_Update_def Let_def valid_mode_def split: if_splits sum.splits)

lemma fixed_modes_valid [simp]: "valid_mode RemoteMode" "valid_mode LocalMode" "valid_mode (AgentMode p)"
  by (simp_all add: valid_mode_iff RemoteMode_def LocalMode_def AgentMode_def)

section \<open>Engine versions (version.go)\<close>

record Version =
  Latest :: bool
  semver :: string

definition Version_String :: "Version \<Rightarrow> string" where
  "Version_String v = (if Latest v then ''latest'' else semver v)"

definition MinEngineVersion :: string where "MinEngineVersion = ''1.2.0''"

definition apiTestTerraformVersions :: "string list" where
  "apiTestTerraformVersions = [''0.10.0'', ''0.11.0'', ''0.11.1'']"

definition Version_set ::
  "(string \<Rightarrow> bool) \<Rightarrow> (string \<Rightarrow> string \<Rightarrow> int) \<Rightarrow> Version \<Rightarrow> string \<Rightarrow> Version result" where
  "Version_set semver_valid semver_compare v val =
     (if val = ''latest'' then Inr (v\<lparr>Latest := True\<rparr>)
      else if val = '''' then Inl (Errorf ''value cannot be an empty string'')
      else if \<not> semver_valid val then Inl ErrInvalidVersion
      else if semver_compare val MinEngineVersion < 0 \<and> val \<notin> set apiTestTerraformVersions
      then Inl ErrUnsupportedTerraformVersion
      else Inr (v\<lparr>semver := val\<rparr>))"

section \<open>The workspace (workspace.go)\<close>

record Repo =
  repo_owner :: string
  repo_name :: string

record Connection =
  con_Branch :: string
  con_TagsRegex :: string
  con_VCSProviderID :: TfeID
  con_Repo :: Repo
  con_AllowCLIApply :: bool

record ConnectOptions =
  co_RepoPath :: "Repo option"
  co_VCSProviderID :: "TfeID option"
  co_Branch :: "string option"
  co_TagsRegex :: "string option"
  co_AllowCLIApply :: "bool option"

text \<open>
  The fields of \<open>Workspace\<close>. An engine is identified by its name; the latest run by its ID (its
  status is a join with the runs table).
\<close>

record Workspace =
  ws_ID :: TfeID
  ws_CreatedAt :: gtime
  ws_UpdatedAt :: gtime
  ws_AllowDestroyPlan :: bool
  ws_AutoApply :: bool
  ws_AutoApplyRunTrigger :: bool
  ws_Description :: string
  ws_GlobalRemoteState :: bool
  ws_Name :: string
  ws_QueueAllRuns :: bool
  ws_SpeculativeEnabled :: bool
  ws_StructuredRunOutputEnabled :: bool
  ws_SourceName :: string
  ws_SourceURL :: string
  ws_WorkingDirectory :: string
  ws_Organization :: string
  ws_LatestRun :: "TfeID option"
  ws_Lock :: "ID option"
  ws_Engine :: string
  ws_EngineVersion :: Version
  ws_Mode :: Mode
  ws_SSHKeyID :: "TfeID option"
  ws_Connection :: "Connection option"
  ws_TriggerPatterns :: "string slice"
  ws_TriggerPrefixes :: "string slice"

record WorkspaceCreateOptions =
  wc_AgentPoolID :: "TfeID option"
  wc_AllowDestroyPlan :: "bool option"
  wc_AutoApply :: "bool option"
  wc_AutoApplyRunTrigger :: "bool option"
  wc_Description :: "string option"
  wc_ExecutionKind :: "ExecKind option"
  wc_GlobalRemoteState :: "bool option"
  wc_Name :: "string option"
  wc_QueueAllRuns :: "bool option"
  wc_SpeculativeEnabled :: "bool option"
  wc_SourceName :: "string option"
  wc_SourceURL :: "string option"
  wc_StructuredRunOutputEnabled :: "bool option"
  wc_Engine :: "string option"
  wc_EngineVersion :: "Version option"
  wc_TriggerPrefixes :: "string slice"
  wc_TriggerPatterns :: "string slice"
  wc_WorkingDirectory :: "string option"
  wc_Organization :: "string option"
  wc_SSHKeyID :: "TfeID option"
  wc_AlwaysTrigger :: "bool option"
  wc_ConnectOptions :: "ConnectOptions option"

record WorkspaceUpdateOptions =
  wu_AgentPoolID :: "TfeID option"
  wu_AllowDestroyPlan :: "bool option"
  wu_AutoApply :: "bool option"
  wu_AutoApplyRunTrigger :: "bool option"
  wu_Name :: "string option"
  wu_Description :: "string option"
  wu_ExecutionKind :: "ExecKind option"
  wu_GlobalRemoteState :: "bool option"
  wu_Operations :: "bool option"
  wu_QueueAllRuns :: "bool option"
  wu_SpeculativeEnabled :: "bool option"
  wu_StructuredRunOutputEnabled :: "bool option"
  wu_EngineVersion :: "Version option"
  wu_TriggerPrefixes :: "string slice"
  wu_TriggerPatterns :: "string slice"
  wu_WorkingDirectory :: "string option"
  wu_Engine :: "string option"
  wu_AlwaysTrigger :: "bool option"
  wu_Disconnect :: bool
  wu_ConnectOptions :: "ConnectOptions option"
  wu_UpdateSSHKeyOptions :: "TfeID option option"

definition is_string_id_char :: "char \<Rightarrow> bool" where
  "is_string_id_char c = (is_name_char c \<or> c = CHR ''.'')"

definition ReStringID :: "string \<Rightarrow> bool" where
  "ReStringID s = (s \<noteq> [] \<and> list_all is_string_id_char s)"

definition setName :: "Workspace \<Rightarrow> string \<Rightarrow> Workspace result" where
  "setName ws name = (if \<not> ReStringID name then Inl ErrInvalidName else Inr (ws\<lparr>ws_Name := name\<rparr>))"

text \<open>\<open>setTagsRegex\<close> writes through \<open>ws.Connection\<close>; with no connection that is a nil dereference.\<close>

definition setTagsRegex :: "(string \<Rightarrow> bool) \<Rightarrow> Workspace \<Rightarrow> string \<Rightarrow> Workspace result" where
  "setTagsRegex regex_ok ws regex =
     (if \<not> regex_ok regex then Inl ErrInvalidTagsRegex
      else case ws_Connection ws of
             None \<Rightarrow> Inl (Panic ''nil pointer dereference'')
           | Some c \<Rightarrow> Inr (ws\<lparr>ws_Connection := Some (c\<lparr>con_TagsRegex := regex\<rparr>)\<rparr>))"

definition setTriggerPatterns ::
  "(string \<Rightarrow> bool) \<Rightarrow> Workspace \<Rightarrow> string slice \<Rightarrow> Workspace result" where
  "setTriggerPatterns glob_ok ws patterns =
     (if list_ex (\<lambda>p. \<not> glob_ok p) (elems patterns) then Inl ErrInvalidTriggerPattern
      else Inr (ws\<lparr>ws_TriggerPatterns := patterns\<rparr>))"

definition addConnection ::
  "(string \<Rightarrow> bool) \<Rightarrow> Workspace \<Rightarrow> ConnectOptions \<Rightarrow> Workspace result" where
  "addConnection regex_ok ws opts =
     (case co_RepoPath opts of
        None \<Rightarrow> Inl (ErrMissingParameter ''repo_path'')
      | Some repo \<Rightarrow>
     (case co_VCSProviderID opts of
        None \<Rightarrow> Inl (ErrMissingParameter ''vcs_provider_id'')
      | Some prov \<Rightarrow>
          let con = \<lparr>con_Branch = [], con_TagsRegex = [], con_VCSProviderID = prov,
                     con_Repo = repo,
                     con_AllowCLIApply = (case co_AllowCLIApply opts of None \<Rightarrow> False | Some b \<Rightarrow> b)\<rparr>;
              ws1 = ws\<lparr>ws_Connection := Some con\<rparr>
          in case (case co_TagsRegex opts of
                     None \<Rightarrow> Inr ws1
                   | Some re \<Rightarrow> setTagsRegex regex_ok ws1 re) of
               Inl err \<Rightarrow> Inl (Wrap ''invalid tags-regex'' err)
             | Inr ws2 \<Rightarrow>
                 Inr (case co_Branch opts of
                        None \<Rightarrow> ws2
                      | Some b \<Rightarrow> ws2\<lparr>ws_Connection := map_option (\<lambda>c. c\<lparr>con_Branch := b\<rparr>)
                                                          (ws_Connection ws2)\<rparr>)))"

definition tags_regex_given :: "ConnectOptions option \<Rightarrow> bool" where
  "tags_regex_given co =
     (case co of None \<Rightarrow> False
      | Some opts \<Rightarrow> (case co_TagsRegex opts of None \<Rightarrow> False | Some re \<Rightarrow> re \<noteq> []))"

text \<open>The three-way mutual exclusivity check shared by \<open>NewWorkspace\<close> and \<open>Update\<close>.\<close>

definition check_triggers ::
  "ConnectOptions option \<Rightarrow> string slice \<Rightarrow> bool option \<Rightarrow> unit result" where
  "check_triggers co patterns always =
     (if tags_regex_given co \<and> patterns \<noteq> None then Inl ErrTagsRegexAndTriggerPatterns
      else if tags_regex_given co \<and> always = Some True then Inl ErrTagsRegexAndAlwaysTrigger
      else if length (elems patterns) > 0 \<and> always = Some True
      then Inl ErrTriggerPatternsAndAlwaysTrigger
      else Inr ())"

text \<open>An optional field of the options overwrites the default.\<close>

definition override :: "'a option \<Rightarrow> 'a \<Rightarrow> 'a" where
  "override x d = (case x of None \<Rightarrow> d | Some v \<Rightarrow> v)"

lemma override_simps [simp]: "override None d = d" "override (Some v) d = v"
  by (simp_all add: override_def)

text \<open>
  \<open>factory.NewWorkspace\<close>. \<open>get_org\<close> stands for \<open>GetOrganization\<close>, reduced to the default execution
  mode of the organization, and \<open>get_latest\<close> for the version service.
\<close>

definition workspace_defaults ::
  "string \<Rightarrow> (nat \<Rightarrow> nat) \<Rightarrow> clock \<Rightarrow> WorkspaceCreateOptions \<Rightarrow> string \<Rightarrow> Mode \<Rightarrow> Workspace" where
  "workspace_defaults defaultEngine rnd clk opts orgname mode =
     \<lparr>ws_ID = NewTfeID rnd ''ws'',
      ws_CreatedAt = CurrentTimestamp None (clk 0),
      ws_UpdatedAt = CurrentTimestamp None (clk 1),
      ws_AllowDestroyPlan = override (wc_AllowDestroyPlan opts) True,
      ws_AutoApply = override (wc_AutoApply opts) False,
      ws_AutoApplyRunTrigger = override (wc_AutoApplyRunTrigger opts) False,
      ws_Description = override (wc_Description opts) [],
      ws_GlobalRemoteState = override (wc_GlobalRemoteState opts) False,
      ws_Name = [],
      ws_QueueAllRuns = override (wc_QueueAllRuns opts) False,
      ws_SpeculativeEnabled = override (wc_SpeculativeEnabled opts) True,
      ws_StructuredRunOutputEnabled =
        override (wc_StructuredRunOutputEnabled opts) False,
      ws_SourceName = override (wc_SourceName opts) [],
      ws_SourceURL = override (wc_SourceURL opts) [],
      ws_WorkingDirectory = override (wc_WorkingDirectory opts) [],
      ws_Organization = orgname,
      ws_LatestRun = None,
      ws_Lock = None,
      ws_Engine = override (wc_Engine opts) defaultEngine,
      ws_EngineVersion = override (wc_EngineVersion opts) \<lparr>Latest = False, semver = []\<rparr>,
      ws_Mode = mode,
      ws_SSHKeyID = wc_SSHKeyID opts,
      ws_Connection = None,
      ws_TriggerPatterns = None,
      ws_TriggerPrefixes = wc_TriggerPrefixes opts\<rparr>"

definition NewWorkspace ::
  "(string \<Rightarrow> bool) \<Rightarrow> (string \<Rightarrow> bool) \<Rightarrow> (string \<Rightarrow> Mode result) \<Rightarrow> (string \<Rightarrow> string result) \<Rightarrow>
   string \<Rightarrow> (nat \<Rightarrow> nat) \<Rightarrow> clock \<Rightarrow> WorkspaceCreateOptions \<Rightarrow> Workspace result" where
  "NewWorkspace regex_ok glob_ok get_org get_latest defaultEngine rnd clk opts =
     (case ValidateName (wc_Name opts) of Inl e \<Rightarrow> Inl e | Inr _ \<Rightarrow>
     (case wc_Organization opts of None \<Rightarrow> Inl ErrRequiredOrg | Some orgname \<Rightarrow>
     (case get_org orgname of Inl e \<Rightarrow> Inl e | Inr defmode \<Rightarrow>
     (case NewModeWithDefaults (wc_ExecutionKind opts) (mode_kind defmode)
             (wc_AgentPoolID opts) (mode_agentPoolID defmode) of Inl e \<Rightarrow> Inl e | Inr mode \<Rightarrow>
      let ws = workspace_defaults defaultEngine rnd clk opts orgname mode
      in case setName ws (override (wc_Name opts) []) of Inl e \<Rightarrow> Inl e | Inr ws1 \<Rightarrow>
     (case (if wc_EngineVersion opts \<noteq> None then Inr ws1
            else case get_latest (ws_Engine ws1) of
                   Inl e \<Rightarrow> Inl (Wrap ''retrieving latest engine version'' e)
                 | Inr v \<Rightarrow> Inr (ws1\<lparr>ws_EngineVersion := \<lparr>Latest = False, semver = v\<rparr>\<rparr>)) of
        Inl e \<Rightarrow> Inl e | Inr ws2 \<Rightarrow>
     (case check_triggers (wc_ConnectOptions opts) (wc_TriggerPatterns opts)
             (wc_AlwaysTrigger opts) of Inl e \<Rightarrow> Inl e | Inr _ \<Rightarrow>
     (case (case wc_ConnectOptions opts of None \<Rightarrow> Inr ws2
            | Some co \<Rightarrow> addConnection regex_ok ws2 co) of Inl e \<Rightarrow> Inl e | Inr ws3 \<Rightarrow>
      if wc_TriggerPatterns opts = None then Inr ws3
      else case setTriggerPatterns glob_ok ws3 (wc_TriggerPatterns opts) of
             Inl e \<Rightarrow> Inl (Wrap ''setting trigger patterns'' e)
           | Inr ws4 \<Rightarrow> Inr ws4)))))))"


text \<open>
  \<open>Workspace.Update\<close>, in the order of the source: the scalar options, the execution mode, the
  trigger options, then the connection. The result is the updated workspace together with the
  answer to \<open>connect, disconnect, or neither\<close>. \<open>ws_updated\<close> is the flag that moves \<open>UpdatedAt\<close>.
\<close>

definition Update_settings :: "Workspace \<Rightarrow> WorkspaceUpdateOptions \<Rightarrow> Workspace result" where
  "Update_settings ws opts =
     (case (case wu_Name opts of None \<Rightarrow> Inr ws | Some n \<Rightarrow> setName ws n) of
        Inl e \<Rightarrow> Inl e
      | Inr ws0 \<Rightarrow>
          let ws1 = ws0\<lparr>ws_AllowDestroyPlan := override (wu_AllowDestroyPlan opts) (ws_AllowDestroyPlan ws0),
                        ws_AutoApply := override (wu_AutoApply opts) (ws_AutoApply ws0),
                        ws_AutoApplyRunTrigger :=
                          override (wu_AutoApplyRunTrigger opts) (ws_AutoApplyRunTrigger ws0),
                        ws_Description := override (wu_Description opts) (ws_Description ws0)\<rparr>
          in case Mode_Update (ws_Mode ws1) (wu_ExecutionKind opts) (wu_AgentPoolID opts) of
               Inl e \<Rightarrow> Inl e
             | Inr m \<Rightarrow>
                 let m' = (case wu_Operations opts of
                             None \<Rightarrow> m | Some True \<Rightarrow> RemoteMode | Some False \<Rightarrow> LocalMode)
                 in Inr (ws1\<lparr>ws_Mode := m',
                       ws_GlobalRemoteState := override (wu_GlobalRemoteState opts) (ws_GlobalRemoteState ws1),
                       ws_QueueAllRuns := override (wu_QueueAllRuns opts) (ws_QueueAllRuns ws1),
                       ws_SpeculativeEnabled :=
                         override (wu_SpeculativeEnabled opts) (ws_SpeculativeEnabled ws1),
                       ws_StructuredRunOutputEnabled :=
                         override (wu_StructuredRunOutputEnabled opts) (ws_StructuredRunOutputEnabled ws1),
                       ws_Engine := override (wu_Engine opts) (ws_Engine ws1),
                       ws_EngineVersion := override (wu_EngineVersion opts) (ws_EngineVersion ws1),
                       ws_WorkingDirectory := override (wu_WorkingDirectory opts) (ws_WorkingDirectory ws1),
                       ws_SSHKeyID := override (wu_UpdateSSHKeyOptions opts) (ws_SSHKeyID ws1),
                       ws_TriggerPrefixes :=
                         (if wu_TriggerPrefixes opts = None then ws_TriggerPrefixes ws1
                          else wu_TriggerPrefixes opts)\<rparr>))"

definition clear_tags_regex :: "Workspace \<Rightarrow> Workspace" where
  "clear_tags_regex ws =
     ws\<lparr>ws_Connection := map_option (\<lambda>c. c\<lparr>con_TagsRegex := []\<rparr>) (ws_Connection ws)\<rparr>"

definition Update_triggers ::
  "(string \<Rightarrow> bool) \<Rightarrow> Workspace \<Rightarrow> WorkspaceUpdateOptions \<Rightarrow> Workspace result" where
  "Update_triggers glob_ok ws opts =
     (case check_triggers (wu_ConnectOptions opts) (wu_TriggerPatterns opts)
             (wu_AlwaysTrigger opts) of
        Inl e \<Rightarrow> Inl e
      | Inr _ \<Rightarrow>
          let ws1 = (if wu_AlwaysTrigger opts = Some True
                     then (clear_tags_regex ws)\<lparr>ws_TriggerPatterns := None\<rparr> else ws)
          in if wu_TriggerPatterns opts = None then Inr ws1
             else case setTriggerPatterns glob_ok ws1 (wu_TriggerPatterns opts) of
                    Inl e \<Rightarrow> Inl (Wrap ''setting trigger patterns'' e)
                  | Inr ws2 \<Rightarrow> Inr (clear_tags_regex ws2))"

definition modify_connection ::
  "(string \<Rightarrow> bool) \<Rightarrow> Workspace \<Rightarrow> ConnectOptions \<Rightarrow> Workspace result" where
  "modify_connection regex_ok ws co =
     (case (case co_TagsRegex co of
              None \<Rightarrow> Inr ws
            | Some re \<Rightarrow>
                if re = [] then Inr ws
                else case setTagsRegex regex_ok ws re of
                       Inl e \<Rightarrow> Inl (Wrap ''invalid tags-regex'' e)
                     | Inr ws1 \<Rightarrow> Inr (ws1\<lparr>ws_TriggerPatterns := None\<rparr>)) of
        Inl e \<Rightarrow> Inl e
      | Inr ws2 \<Rightarrow>
          Inr (ws2\<lparr>ws_Connection :=
                 map_option (\<lambda>c. c\<lparr>con_Branch := override (co_Branch co) (con_Branch c),
                                  con_AllowCLIApply :=
                                    override (co_AllowCLIApply co) (con_AllowCLIApply c)\<rparr>)
                            (ws_Connection ws2)\<rparr>))"

definition Update_connection ::
  "(string \<Rightarrow> bool) \<Rightarrow> Workspace \<Rightarrow> WorkspaceUpdateOptions \<Rightarrow> (Workspace \<times> bool option) result" where
  "Update_connection regex_ok ws opts =
     (if wu_Disconnect opts \<and> wu_ConnectOptions opts \<noteq> None
      then Inl (Errorf ''connect options must be nil if disconnect is true'')
      else if wu_Disconnect opts \<and> ws_Connection ws = None
      then Inl (Errorf ''cannot disconnect an already disconnected workspace'')
      else case wu_ConnectOptions opts of
             None \<Rightarrow> Inr (ws, if wu_Disconnect opts then Some False else None)
           | Some co \<Rightarrow>
               if ws_Connection ws = None
               then (case addConnection regex_ok ws co of
                       Inl e \<Rightarrow> Inl e | Inr ws1 \<Rightarrow> Inr (ws1, Some True))
               else (case modify_connection regex_ok ws co of
                       Inl e \<Rightarrow> Inl e | Inr ws1 \<Rightarrow> Inr (ws1, None)))"

definition ws_updated :: "Workspace \<Rightarrow> WorkspaceUpdateOptions \<Rightarrow> bool" where
  "ws_updated ws opts \<longleftrightarrow>
     wu_Name opts \<noteq> None \<or> wu_AllowDestroyPlan opts \<noteq> None \<or> wu_AutoApply opts \<noteq> None \<or>
     wu_AutoApplyRunTrigger opts \<noteq> None \<or> wu_Description opts \<noteq> None \<or>
     wu_ExecutionKind opts \<noteq> None \<or> wu_AgentPoolID opts \<noteq> None \<or> wu_Operations opts \<noteq> None \<or>
     wu_GlobalRemoteState opts \<noteq> None \<or> wu_QueueAllRuns opts \<noteq> None \<or>
     wu_SpeculativeEnabled opts \<noteq> None \<or> wu_StructuredRunOutputEnabled opts \<noteq> None \<or>
     wu_Engine opts \<noteq> None \<or> wu_EngineVersion opts \<noteq> None \<or> wu_WorkingDirectory opts \<noteq> None \<or>
     wu_UpdateSSHKeyOptions opts \<noteq> None \<or> wu_TriggerPrefixes opts \<noteq> None \<or>
     wu_AlwaysTrigger opts = Some True \<or> wu_TriggerPatterns opts \<noteq> None \<or> wu_Disconnect opts \<or>
     (case wu_ConnectOptions opts of
        None \<Rightarrow> False
      | Some co \<Rightarrow> ws_Connection ws = None \<or> tags_regex_given (Some co) \<or>
                    co_Branch co \<noteq> None \<or> co_AllowCLIApply co \<noteq> None)"

definition Workspace_Update ::
  "(string \<Rightarrow> bool) \<Rightarrow> (string \<Rightarrow> bool) \<Rightarrow> gtime \<Rightarrow> Workspace \<Rightarrow> WorkspaceUpdateOptions \<Rightarrow>
   (Workspace \<times> bool option) result" where
  "Workspace_Update regex_ok glob_ok now ws opts =
     (case Update_settings ws opts of Inl e \<Rightarrow> Inl e | Inr ws1 \<Rightarrow>
     (case Update_triggers glob_ok ws1 opts of Inl e \<Rightarrow> Inl e | Inr ws2 \<Rightarrow>
     (case Update_connection regex_ok ws2 opts of Inl e \<Rightarrow> Inl e | Inr (ws3, connect) \<Rightarrow>
        Inr (if ws_updated ws opts then ws3\<lparr>ws_UpdatedAt := CurrentTimestamp None now\<rparr> else ws3,
             connect))))"

section \<open>The workspace lock (workspace.go, lock\_db.go)\<close>

definition Locked :: "Workspace \<Rightarrow> bool" where
  "Locked ws = (ws_Lock ws \<noteq> None)"

definition Enlock :: "Workspace \<Rightarrow> ID \<Rightarrow> Workspace result" where
  "Enlock ws lid =
     (if ID_Kind lid \<noteq> UserKind \<and> ID_Kind lid \<noteq> RunKind
      then Inl (Errorf ''workspace can only be locked by a user or a run'')
      else case ws_Lock ws of
             None \<Rightarrow> Inr (ws\<lparr>ws_Lock := Some lid\<rparr>)
           | Some cur \<Rightarrow>
               if ID_Kind cur = RunKind \<and> ID_Kind lid = RunKind
               then Inr (ws\<lparr>ws_Lock := Some lid\<rparr>)
               else Inl ErrWorkspaceAlreadyLocked)"

definition Workspace_Unlock :: "Workspace \<Rightarrow> ID \<Rightarrow> bool \<Rightarrow> Workspace result" where
  "Workspace_Unlock ws lid force =
     (if ID_Kind lid \<noteq> UserKind \<and> ID_Kind lid \<noteq> RunKind
      then Inl (Errorf ''workspace can only be unlocked by a user or a run'')
      else case ws_Lock ws of
             None \<Rightarrow> Inl ErrWorkspaceAlreadyUnlocked
           | Some cur \<Rightarrow>
               if cur = lid then Inr (ws\<lparr>ws_Lock := None\<rparr>)
               else if force then Inr (ws\<lparr>ws_Lock := None\<rparr>)
               else if ID_Kind cur = RunKind then Inl ErrWorkspaceLockedByRun
               else Inl ErrWorkspaceLockedByDifferentUser)"

text \<open>The columns that \<open>toggleLock\<close> writes, \<open>(lock_username, lock_run_id)\<close>.\<close>

definition lock_columns :: "Workspace \<Rightarrow> (ID option \<times> ID option) result" where
  "lock_columns ws =
     (case ws_Lock ws of
        None \<Rightarrow> Inr (None, None)
      | Some l \<Rightarrow>
          if ID_Kind l = RunKind then Inr (None, Some l)
          else if ID_Kind l = UserKind then Inr (Some l, None)
          else Inl ErrWorkspaceInvalidLock)"

section \<open>Lemmas\<close>

text \<open>A lock is only ever held by a user or by a run.\<close>

definition lock_inv :: "Workspace \<Rightarrow> bool" where
  "lock_inv ws \<longleftrightarrow> (\<forall>l. ws_Lock ws = Some l \<longrightarrow> ID_Kind l \<in> {UserKind, RunKind})"

lemma Enlock_inv: "Enlock ws l = Inr ws' \<Longrightarrow> lock_inv ws'"
  by (auto simp: Enlock_def lock_inv_def split: if_splits option.splits)

lemma Workspace_Unlock_inv: "Workspace_Unlock ws l f = Inr ws' \<Longrightarrow> lock_inv ws'"
  by (auto simp: Workspace_Unlock_def lock_inv_def split: if_splits option.splits)

lemma lock_columns_ok: "lock_inv ws \<Longrightarrow> is_ok (lock_columns ws)"
  by (auto simp: lock_columns_def lock_inv_def split: option.splits)

lemma UserKind_neq_RunKind [simp]: "UserKind \<noteq> RunKind" "RunKind \<noteq> UserKind"
  by (simp_all add: kind_defs)

lemma Enlock_Unlock:
  "Enlock ws l = Inr ws' \<Longrightarrow> Workspace_Unlock ws' l False = Inr (ws\<lparr>ws_Lock := None\<rparr>)"
  by (auto simp: Enlock_def Workspace_Unlock_def split: if_splits option.splits)

text \<open>
  Tags regex and trigger patterns exclude each other: the invariant that the comment on
  \<open>TriggerPatterns\<close> states.
\<close>

definition trigger_inv :: "Workspace \<Rightarrow> bool" where
  "trigger_inv ws \<longleftrightarrow>
     (\<forall>c. ws_Connection ws = Some c \<longrightarrow> con_TagsRegex c \<noteq> [] \<longrightarrow> ws_TriggerPatterns ws = None)"

lemma setName_frame:
  "setName ws n = Inr ws' \<Longrightarrow>
     ws_Connection ws' = ws_Connection ws \<and> ws_TriggerPatterns ws' = ws_TriggerPatterns ws \<and>
     ws_Mode ws' = ws_Mode ws"
  by (auto simp: setName_def split: if_splits)

lemma Update_settings_frame:
  "Update_settings ws opts = Inr ws' \<Longrightarrow>
     ws_Connection ws' = ws_Connection ws \<and> ws_TriggerPatterns ws' = ws_TriggerPatterns ws"
  by (auto simp: Update_settings_def Let_def dest!: setName_frame split: sum.splits option.splits bool.splits)

lemma Update_settings_mode:
  "valid_mode (ws_Mode ws) \<Longrightarrow> Update_settings ws opts = Inr ws' \<Longrightarrow> valid_mode (ws_Mode ws')"
  by (auto simp: Update_settings_def Let_def dest!: setName_frame
      intro: Mode_Update_valid split: sum.splits option.splits bool.splits)

lemma Update_triggers_inv:
  "trigger_inv ws \<Longrightarrow> Update_triggers g ws opts = Inr ws' \<Longrightarrow>
     trigger_inv ws' \<and> ws_Mode ws' = ws_Mode ws \<and>
     (ws_Connection ws' = None \<longleftrightarrow> ws_Connection ws = None) \<and>
     (tags_regex_given (wu_ConnectOptions opts) \<longrightarrow> ws_TriggerPatterns ws' = ws_TriggerPatterns ws)"
  by (auto simp: Update_triggers_def Let_def trigger_inv_def clear_tags_regex_def
      setTriggerPatterns_def check_triggers_def split: sum.splits if_splits option.splits)

lemma addConnection_spec:
  assumes "addConnection r ws co = Inr ws'"
  shows "ws_TriggerPatterns ws' = ws_TriggerPatterns ws \<and> ws_Mode ws' = ws_Mode ws \<and>
     (\<exists>c. ws_Connection ws' = Some c \<and> con_TagsRegex c = override (co_TagsRegex co) [])"
  using assms
  by (auto simp: addConnection_def setTagsRegex_def Let_def split: sum.splits if_splits option.splits)

lemma modify_connection_inv:
  "trigger_inv ws \<Longrightarrow> ws_Connection ws \<noteq> None \<Longrightarrow> modify_connection r ws co = Inr ws' \<Longrightarrow>
     trigger_inv ws' \<and> ws_Mode ws' = ws_Mode ws"
  by (auto simp: modify_connection_def setTagsRegex_def trigger_inv_def Let_def
      split: sum.splits if_splits option.splits)

lemma Update_connection_inv:
  assumes "trigger_inv ws" "Update_connection r ws opts = Inr (ws', b)"
    and "ws_Connection ws = None \<longrightarrow> tags_regex_given (wu_ConnectOptions opts) \<longrightarrow>
           ws_TriggerPatterns ws = None"
  shows "trigger_inv ws' \<and> ws_Mode ws' = ws_Mode ws"
proof (cases "wu_ConnectOptions opts")
  case None
  with assms show ?thesis by (auto simp: Update_connection_def split: if_splits)
next
  case (Some co)
  show ?thesis
  proof (cases "ws_Connection ws")
    case None
    with Some assms(2) have "addConnection r ws co = Inr ws'"
      by (auto simp: Update_connection_def split: if_splits sum.splits)
    from addConnection_spec [OF this] assms(3) None Some show ?thesis
      by (auto simp: trigger_inv_def tags_regex_given_def split: option.splits)
  next
    case (Some c)
    with \<open>wu_ConnectOptions opts = Some co\<close> assms(2) have "modify_connection r ws co = Inr ws'"
      by (auto simp: Update_connection_def split: if_splits sum.splits)
    with modify_connection_inv [OF assms(1), of r co] Some show ?thesis by simp
  qed
qed

lemma Workspace_Update_steps:
  assumes "Workspace_Update r g now ws opts = Inr (ws', b)"
  obtains ws1 ws2 ws3 where "Update_settings ws opts = Inr ws1" "Update_triggers g ws1 opts = Inr ws2"
    "Update_connection r ws2 opts = Inr (ws3, b)"
    "ws' = (if ws_updated ws opts then ws3\<lparr>ws_UpdatedAt := CurrentTimestamp None now\<rparr> else ws3)"
  using assms by (auto simp: Workspace_Update_def split: sum.splits prod.splits)

lemma Update_triggers_mode: "Update_triggers g ws opts = Inr ws' \<Longrightarrow> ws_Mode ws' = ws_Mode ws"
  by (auto simp: Update_triggers_def Let_def clear_tags_regex_def setTriggerPatterns_def
      split: sum.splits if_splits)

lemma modify_connection_mode: "modify_connection r ws co = Inr ws' \<Longrightarrow> ws_Mode ws' = ws_Mode ws"
  by (auto simp: modify_connection_def setTagsRegex_def Let_def split: sum.splits if_splits option.splits)

lemma Update_connection_mode: "Update_connection r ws opts = Inr (ws', b) \<Longrightarrow> ws_Mode ws' = ws_Mode ws"
  by (auto simp: Update_connection_def dest: modify_connection_mode addConnection_spec
      split: sum.splits if_splits option.splits)

lemma workspace_defaults_mode [simp]: "ws_Mode (workspace_defaults eng rnd clk opts org mode) = mode"
  by (simp add: workspace_defaults_def)

lemma NewWorkspace_mode:
  assumes "NewWorkspace r g get_org get_latest eng rnd clk opts = Inr ws"
  shows "valid_mode (ws_Mode ws)"
  using assms
  by (auto simp: NewWorkspace_def Let_def setTriggerPatterns_def
      dest!: setName_frame addConnection_spec NewModeWithDefaults_valid
      split: sum.splits option.splits if_splits)

section \<open>Example data\<close>

definition example_workspace :: Workspace where
  "example_workspace =
     \<lparr>ws_ID = \<lparr>tfe_kind = WorkspaceKind, tfe_id = ''1''\<rparr>, ws_CreatedAt = 0, ws_UpdatedAt = 0,
      ws_AllowDestroyPlan = True, ws_AutoApply = False, ws_AutoApplyRunTrigger = False,
      ws_Description = [], ws_GlobalRemoteState = False, ws_Name = ''dev'', ws_QueueAllRuns = False,
      ws_SpeculativeEnabled = True, ws_StructuredRunOutputEnabled = False, ws_SourceName = [],
      ws_SourceURL = [], ws_WorkingDirectory = [], ws_Organization = ''acme'', ws_LatestRun = None,
      ws_Lock = None, ws_Engine = ''terraform'',
      ws_EngineVersion = \<lparr>Latest = False, semver = ''1.6.0''\<rparr>, ws_Mode = RemoteMode,
      ws_SSHKeyID = None, ws_Connection = None, ws_TriggerPatterns = None,
      ws_TriggerPrefixes = None\<rparr>"

definition no_update :: WorkspaceUpdateOptions where
  "no_update =
     \<lparr>wu_AgentPoolID = None, wu_AllowDestroyPlan = None, wu_AutoApply = None,
      wu_AutoApplyRunTrigger = None, wu_Name = None, wu_Description = None, wu_ExecutionKind = None,
      wu_GlobalRemoteState = None, wu_Operations = None, wu_QueueAllRuns = None,
      wu_SpeculativeEnabled = None, wu_StructuredRunOutputEnabled = None, wu_EngineVersion = None,
      wu_TriggerPrefixes = None, wu_TriggerPatterns = None, wu_WorkingDirectory = None,
      wu_Engine = None, wu_AlwaysTrigger = None, wu_Disconnect = False, wu_ConnectOptions = None,
      wu_UpdateSSHKeyOptions = None\<rparr>"

definition example_connect :: ConnectOptions where
  "example_connect =
     \<lparr>co_RepoPath = Some \<lparr>repo_owner = ''acme'', repo_name = ''infra''\<rparr>,
      co_VCSProviderID = Some \<lparr>tfe_kind = VCSProviderKind, tfe_id = ''1''\<rparr>, co_Branch = None,
      co_TagsRegex = Some ''v.*'', co_AllowCLIApply = None\<rparr>"

section \<open>Properties\<close>

text \<open>
  the execution mode of a workspace stays consistent. Whatever \<open>NewWorkspace\<close> returns has an
  agent pool exactly when its kind is agent, and \<open>Update\<close> keeps that.
\<close>

theorem workspace_mode_valid:
  "(NewWorkspace r g get_org get_latest eng rnd clk opts = Inr ws \<longrightarrow> valid_mode (ws_Mode ws)) \<and>
   (valid_mode (ws_Mode ws0) \<and> Workspace_Update r g now ws0 uopts = Inr (ws1, b) \<longrightarrow>
      valid_mode (ws_Mode ws1))"
proof (intro conjI impI)
  assume "NewWorkspace r g get_org get_latest eng rnd clk opts = Inr ws"
  then show "valid_mode (ws_Mode ws)" by (rule NewWorkspace_mode)
next
  assume u: "valid_mode (ws_Mode ws0) \<and> Workspace_Update r g now ws0 uopts = Inr (ws1, b)"
  then obtain wa wb wc where w: "Update_settings ws0 uopts = Inr wa" "Update_triggers g wa uopts = Inr wb"
    "Update_connection r wb uopts = Inr (wc, b)"
    "ws1 = (if ws_updated ws0 uopts then wc\<lparr>ws_UpdatedAt := CurrentTimestamp None now\<rparr> else wc)"
    using Workspace_Update_steps by metis
  show "valid_mode (ws_Mode ws1)"
    using Update_settings_mode [OF _ w(1)] Update_triggers_mode [OF w(2)]
      Update_connection_mode [OF w(3)] u by (simp add: w(4))
qed

lemma workspace_mode_valid_witness:
  "\<exists>ws. Workspace_Update (\<lambda>_. True) (\<lambda>_. True) 0 example_workspace
      (no_update\<lparr>wu_ExecutionKind := Some AgentKind,
                 wu_AgentPoolID := Some \<lparr>tfe_kind = AgentPoolKind, tfe_id = ''1''\<rparr>\<rparr>) = Inr (ws, None) \<and>
    valid_mode (ws_Mode ws) \<and> mode_kind (ws_Mode ws) = AgentKind"
proof -
  let ?o = "no_update\<lparr>wu_ExecutionKind := Some AgentKind,
                 wu_AgentPoolID := Some \<lparr>tfe_kind = AgentPoolKind, tfe_id = ''1''\<rparr>\<rparr>"
  have "\<exists>ws. Workspace_Update (\<lambda>_. True) (\<lambda>_. True) 0 example_workspace ?o = Inr (ws, None) \<and>
      mode_kind (ws_Mode ws) = AgentKind"
    by (simp add: Workspace_Update_def Update_settings_def Update_triggers_def Update_connection_def
        check_triggers_def Mode_Update_def mode_isValid_def no_update_def example_workspace_def
        tags_regex_given_def ws_updated_def override_def Let_def)
  moreover have "valid_mode (ws_Mode example_workspace)" by (simp add: example_workspace_def)
  ultimately show ?thesis using workspace_mode_valid by blast
qed

text \<open>
  tags regex and trigger patterns exclude each other, as the comments on both fields demand.
  \<open>Update\<close> keeps the exclusion on every path except one, connecting a workspace that already has
  trigger patterns.
\<close>

theorem Workspace_Update_triggers:
  assumes "trigger_inv ws" "Workspace_Update r g now ws opts = Inr (ws', b)"
    and "ws_Connection ws = None \<longrightarrow> tags_regex_given (wu_ConnectOptions opts) \<longrightarrow>
           ws_TriggerPatterns ws = None"
  shows "trigger_inv ws'"
proof -
  obtain ws1 ws2 ws3 where u: "Update_settings ws opts = Inr ws1" "Update_triggers g ws1 opts = Inr ws2"
    "Update_connection r ws2 opts = Inr (ws3, b)"
    "ws' = (if ws_updated ws opts then ws3\<lparr>ws_UpdatedAt := CurrentTimestamp None now\<rparr> else ws3)"
    using Workspace_Update_steps [OF assms(2)] .
  note f1 = Update_settings_frame [OF u(1)]
  have inv1: "trigger_inv ws1" using assms(1) f1 by (simp add: trigger_inv_def)
  note f2 = Update_triggers_inv [OF inv1 u(2)]
  have "trigger_inv ws3" using Update_connection_inv [OF _ u(3)] f1 f2 assms(3) by auto
  then show ?thesis by (simp add: u(4) trigger_inv_def)
qed

lemma Workspace_Update_triggers_witness:
  "\<exists>ws. Workspace_Update (\<lambda>_. True) (\<lambda>_. True) 0 example_workspace
      (no_update\<lparr>wu_ConnectOptions := Some example_connect\<rparr>) = Inr (ws, Some True) \<and> trigger_inv ws"
proof -
  let ?o = "no_update\<lparr>wu_ConnectOptions := Some example_connect\<rparr>"
  have "\<exists>ws. Workspace_Update (\<lambda>_. True) (\<lambda>_. True) 0 example_workspace ?o = Inr (ws, Some True)"
    by (simp add: Workspace_Update_def Update_settings_def Update_triggers_def Update_connection_def
        check_triggers_def Mode_Update_def no_update_def example_workspace_def addConnection_def
        setTagsRegex_def example_connect_def tags_regex_given_def ws_updated_def override_def Let_def)
  moreover have "trigger_inv example_workspace" "ws_TriggerPatterns example_workspace = None"
    by (simp_all add: trigger_inv_def example_workspace_def)
  ultimately show ?thesis using Workspace_Update_triggers by blast
qed

text \<open>
  the exclusion is lost on the remaining path: connecting a workspace with trigger patterns and
  giving a tags regex leaves both set.
\<close>

theorem connect_keeps_trigger_patterns:
  "\<exists>ws. Workspace_Update (\<lambda>_. True) (\<lambda>_. True) 0
      (example_workspace\<lparr>ws_TriggerPatterns := Some [''modules/**'']\<rparr>)
      (no_update\<lparr>wu_ConnectOptions := Some example_connect\<rparr>) = Inr (ws, Some True) \<and>
    ws_TriggerPatterns ws = Some [''modules/**''] \<and>
    (\<exists>c. ws_Connection ws = Some c \<and> con_TagsRegex c = ''v.*'') \<and> \<not> trigger_inv ws"
  by (simp add: Workspace_Update_def Update_settings_def Update_triggers_def Update_connection_def
      check_triggers_def Mode_Update_def no_update_def example_workspace_def addConnection_def
      setTagsRegex_def example_connect_def tags_regex_given_def ws_updated_def override_def Let_def
      trigger_inv_def)

text \<open>
  the workspace lock. A user's lock can be taken from nobody and is released only by that user or
  by force; a run's lock can be handed over to another run and to nobody else; the holder that took
  the lock can always give it back; and whatever the lock holds can be written to its columns.
\<close>

theorem lock_protocol:
  assumes "Enlock ws l = Inr ws'"
  shows "ws_Lock ws' = Some l \<and> ID_Kind l \<in> {UserKind, RunKind} \<and>
    (ws_Lock ws = None \<or> (\<exists>cur. ws_Lock ws = Some cur \<and> ID_Kind cur = RunKind \<and> ID_Kind l = RunKind)) \<and>
    is_ok (lock_columns ws') \<and>
    Workspace_Unlock ws' l False = Inr (ws\<lparr>ws_Lock := None\<rparr>) \<and>
    (\<forall>l'. l' \<noteq> l \<longrightarrow> \<not> is_ok (Workspace_Unlock ws' l' False)) \<and>
    (\<forall>l'. ID_Kind l' \<in> {UserKind, RunKind} \<longrightarrow> Workspace_Unlock ws' l' True = Inr (ws\<lparr>ws_Lock := None\<rparr>))"
proof (intro conjI)
  show "is_ok (lock_columns ws')" by (rule lock_columns_ok [OF Enlock_inv [OF assms]])
  show "Workspace_Unlock ws' l False = Inr (ws\<lparr>ws_Lock := None\<rparr>)" by (rule Enlock_Unlock [OF assms])
qed (use assms in \<open>auto simp: Enlock_def Workspace_Unlock_def split: if_splits option.splits\<close>)

lemma lock_protocol_witness:
  "Enlock example_workspace (Username_ID ''bob'') = Inr (example_workspace\<lparr>ws_Lock := Some (Username_ID ''bob'')\<rparr>) \<and>
   \<not> is_ok (Workspace_Unlock (example_workspace\<lparr>ws_Lock := Some (Username_ID ''bob'')\<rparr>)
             (Username_ID ''eve'') False)"
proof -
  have e: "Enlock example_workspace (Username_ID ''bob'') =
      Inr (example_workspace\<lparr>ws_Lock := Some (Username_ID ''bob'')\<rparr>)"
    by (simp add: Enlock_def example_workspace_def)
  from lock_protocol [OF e] e show ?thesis by simp
qed

end
