(* ===== verification/Run.thy ===== *)
theory Run
  imports Workspace
begin

text \<open>
  The packages \<open>internal/runstatus\<close> and the core of \<open>internal/run\<close>: run statuses, phases with their
  status timestamps and change reports, the run record, its constructor \<open>NewRun\<close>, and the methods
  that move a run through its life cycle. Each method that mutates a run returns the new run; a
  method that reads the clock takes a \<open>clock\<close> whose successive readings are \<open>clk 0\<close>, \<open>clk 1\<close>, in
  the order of the source.
\<close>

section \<open>Run statuses (runstatus/status.go, status.go)\<close>

datatype Status =
    Applied | ApplyQueued | Applying | Canceled | Confirmed | Discarded | Errored
  | ForceCanceled | Pending | PlanQueued | Planned | PlannedAndFinished | Planning
  | CostEstimated

fun Status_String :: "Status \<Rightarrow> string" where
  "Status_String Applied = ''applied''"
| "Status_String ApplyQueued = ''apply_queued''"
| "Status_String Applying = ''applying''"
| "Status_String Canceled = ''canceled''"
| "Status_String Confirmed = ''confirmed''"
| "Status_String Discarded = ''discarded''"
| "Status_String Errored = ''errored''"
| "Status_String ForceCanceled = ''force_canceled''"
| "Status_String Pending = ''pending''"
| "Status_String PlanQueued = ''plan_queued''"
| "Status_String Planned = ''planned''"
| "Status_String PlannedAndFinished = ''planned_and_finished''"
| "Status_String Planning = ''planning''"
| "Status_String CostEstimated = ''cost_estimated''"

definition runstatus_All :: "Status list" where
  "runstatus_All =
     [Applied, ApplyQueued, Applying, Canceled, Confirmed, Discarded, Errored, ForceCanceled,
      Pending, PlanQueued, Planned, PlannedAndFinished, Planning]"

definition runstatus_Done :: "Status \<Rightarrow> bool" where
  "runstatus_Done s =
     (case s of Applied \<Rightarrow> True | PlannedAndFinished \<Rightarrow> True | Discarded \<Rightarrow> True
      | Canceled \<Rightarrow> True | ForceCanceled \<Rightarrow> True | Errored \<Rightarrow> True | _ \<Rightarrow> False)"

definition runstatus_Queued :: "Status \<Rightarrow> bool" where
  "runstatus_Queued s = (case s of PlanQueued \<Rightarrow> True | ApplyQueued \<Rightarrow> True | _ \<Rightarrow> False)"

definition ActiveRun :: "Status list" where
  "ActiveRun = [ApplyQueued, Applying, Confirmed, PlanQueued, Planned, Planning]"

definition IncompleteRun :: "Status list" where
  "IncompleteRun = ActiveRun @ [Pending]"

lemma Done_iff:
  "runstatus_Done s \<longleftrightarrow>
     s \<in> {Applied, PlannedAndFinished, Discarded, Canceled, ForceCanceled, Errored}"
  by (cases s) (simp_all add: runstatus_Done_def)

lemma Done_simps [simp]:
  "runstatus_Done Applied" "runstatus_Done PlannedAndFinished" "runstatus_Done Discarded"
  "runstatus_Done Canceled" "runstatus_Done ForceCanceled" "runstatus_Done Errored"
  "\<not> runstatus_Done ApplyQueued" "\<not> runstatus_Done Applying" "\<not> runstatus_Done Confirmed"
  "\<not> runstatus_Done Pending" "\<not> runstatus_Done PlanQueued" "\<not> runstatus_Done Planned"
  "\<not> runstatus_Done Planning" "\<not> runstatus_Done CostEstimated"
  by (simp_all add: runstatus_Done_def)

section \<open>Reports and phases (report.go, phase.go)\<close>

record Report =
  Additions :: int
  Changes :: int
  Destructions :: int

definition Report_zero :: Report where
  "Report_zero = \<lparr>Additions = 0, Changes = 0, Destructions = 0\<rparr>"

definition Report_HasChanges :: "Report \<Rightarrow> bool" where
  "Report_HasChanges r = (r \<noteq> Report_zero)"

datatype PhaseStatus =
    PhasePending | PhaseQueued | PhaseRunning | PhaseFinished | PhaseCanceled | PhaseErrored
  | PhaseUnreachable

datatype PhaseType = PendingPhase | PlanPhase | ApplyPhase | FinalPhase | UnknownPhase

record PhaseStatusTimestamp =
  pst_Phase :: PhaseType
  pst_Status :: PhaseStatus
  pst_Timestamp :: gtime

record Phase =
  ph_RunID :: TfeID
  ph_Status :: PhaseStatus
  ph_StatusTimestamps :: "PhaseStatusTimestamp list"
  ph_PhaseType :: PhaseType
  ph_ResourceReport :: "Report option"
  ph_OutputReport :: "Report option"

definition Phase_UpdateStatus :: "gtime \<Rightarrow> Phase \<Rightarrow> PhaseStatus \<Rightarrow> Phase" where
  "Phase_UpdateStatus now p status =
     p\<lparr>ph_Status := status,
       ph_StatusTimestamps := ph_StatusTimestamps p @
         [\<lparr>pst_Phase = ph_PhaseType p, pst_Status = status,
           pst_Timestamp = CurrentTimestamp None now\<rparr>]\<rparr>"

text \<open>
  \<open>newPhase\<close> builds a zero phase, whose status is the empty string, and moves it to pending at
  once; the status that \<open>UpdateStatus\<close> overwrites is immaterial here.
\<close>

definition newPhase :: "gtime \<Rightarrow> TfeID \<Rightarrow> PhaseType \<Rightarrow> Phase" where
  "newPhase now runID t =
     Phase_UpdateStatus now
       \<lparr>ph_RunID = runID, ph_Status = PhasePending, ph_StatusTimestamps = [], ph_PhaseType = t,
        ph_ResourceReport = None, ph_OutputReport = None\<rparr>
       PhasePending"

definition Phase_HasChanges :: "Phase \<Rightarrow> bool" where
  "Phase_HasChanges p =
     (let hasResourceChanges = (case ph_ResourceReport p of None \<Rightarrow> False | Some r \<Rightarrow> Report_HasChanges r);
          hasOutputChanges = (case ph_OutputReport p of None \<Rightarrow> False | Some r \<Rightarrow> Report_HasChanges r)
      in hasResourceChanges \<or> hasOutputChanges)"

definition Phase_StatusTimestamp :: "Phase \<Rightarrow> PhaseStatus \<Rightarrow> gtime result" where
  "Phase_StatusTimestamp p status =
     (case find_first (\<lambda>t. pst_Status t = status) (ph_StatusTimestamps p) of
        Some t \<Rightarrow> Inr (pst_Timestamp t)
      | None \<Rightarrow> Inl ErrStatusTimestampNotFound)"

definition Phase_HasStarted :: "Phase \<Rightarrow> bool" where
  "Phase_HasStarted p = is_ok (Phase_StatusTimestamp p PhaseRunning)"

text \<open>The zero time is \<open>None\<close>.\<close>

definition Phase_StartedAt :: "Phase \<Rightarrow> gtime option" where
  "Phase_StartedAt p =
     (case Phase_StatusTimestamp p PhaseRunning of Inl _ \<Rightarrow> None | Inr start \<Rightarrow> Some start)"

definition Phase_ElapsedTime :: "Phase \<Rightarrow> gtime \<Rightarrow> gduration" where
  "Phase_ElapsedTime p now =
     (case Phase_StatusTimestamp p PhaseRunning of
        Inl _ \<Rightarrow> 0
      | Inr start \<Rightarrow>
          (case find_first (\<lambda>t. pst_Timestamp t > start) (ph_StatusTimestamps p) of
             Some t \<Rightarrow> pst_Timestamp t - start
           | None \<Rightarrow> now - start))"

definition Phase_Done :: "Phase \<Rightarrow> bool" where
  "Phase_Done p =
     (case ph_Status p of PhaseFinished \<Rightarrow> True | PhaseCanceled \<Rightarrow> True | PhaseErrored \<Rightarrow> True
      | PhaseUnreachable \<Rightarrow> True | _ \<Rightarrow> False)"

section \<open>Configuration versions (configversion/configuration\_version.go)\<close>

type_synonym Source = string

definition source_API :: Source where "source_API = ''tfe-api''"
definition source_UI :: Source where "source_UI = ''tfe-ui''"
definition source_Terraform :: Source where "source_Terraform = ''terraform+cloud''"
definition source_Trigger :: Source where "source_Trigger = ''tfe-run-trigger''"

record IngressAttributes =
  ia_Branch :: string
  ia_CommitSHA :: string
  ia_CommitURL :: string
  ia_Repo :: Repo
  ia_IsPullRequest :: bool
  ia_OnDefaultBranch :: bool
  ia_PullRequestNumber :: int
  ia_PullRequestURL :: string
  ia_PullRequestTitle :: string
  ia_Tag :: string
  ia_SenderUsername :: string
  ia_SenderAvatarURL :: string
  ia_SenderHTMLURL :: string

datatype ConfigurationStatus =
  ConfigurationErrored | ConfigurationPending | ConfigurationUploaded

record ConfigurationVersion =
  cv_ID :: TfeID
  cv_CreatedAt :: gtime
  cv_AutoQueueRuns :: bool
  cv_Source :: Source
  cv_Speculative :: bool
  cv_Status :: ConfigurationStatus
  cv_StatusTimestamps :: "(ConfigurationStatus \<times> gtime) list"
  cv_WorkspaceID :: TfeID
  cv_IngressAttributes :: "IngressAttributes option"

record CVCreateOptions =
  cvo_AutoQueueRuns :: "bool option"
  cvo_Speculative :: "bool option"
  cvo_Source :: Source
  cvo_CreatedAt :: "gtime option"
  cvo_IngressAttributes :: "IngressAttributes option"

definition cv_updateStatus ::
  "gtime \<Rightarrow> ConfigurationVersion \<Rightarrow> ConfigurationStatus \<Rightarrow> ConfigurationVersion" where
  "cv_updateStatus now cv status =
     cv\<lparr>cv_Status := status,
        cv_StatusTimestamps := cv_StatusTimestamps cv @ [(status, CurrentTimestamp None now)]\<rparr>"

definition NewConfigurationVersion ::
  "(nat \<Rightarrow> nat) \<Rightarrow> clock \<Rightarrow> TfeID \<Rightarrow> CVCreateOptions \<Rightarrow> ConfigurationVersion" where
  "NewConfigurationVersion rnd clk workspaceID opts =
     (let cv = \<lparr>cv_ID = NewTfeID rnd ConfigVersionKind,
                cv_CreatedAt = CurrentTimestamp None (clk 0),
                cv_AutoQueueRuns = True,
                cv_Source = source_API,
                cv_Speculative = False,
                cv_Status = ConfigurationPending,
                cv_StatusTimestamps = [],
                cv_WorkspaceID = workspaceID,
                cv_IngressAttributes = None\<rparr>;
          cv1 = cv_updateStatus (clk 1) cv ConfigurationPending
      in cv1\<lparr>cv_CreatedAt := override (cvo_CreatedAt opts) (cv_CreatedAt cv1),
             cv_Source := (if cvo_Source opts \<noteq> [] then cvo_Source opts else cv_Source cv1),
             cv_AutoQueueRuns := override (cvo_AutoQueueRuns opts) (cv_AutoQueueRuns cv1),
             cv_Speculative := override (cvo_Speculative opts) (cv_Speculative cv1),
             cv_IngressAttributes := cvo_IngressAttributes opts\<rparr>)"

definition cv_StatusTimestamp :: "ConfigurationVersion \<Rightarrow> ConfigurationStatus \<Rightarrow> gtime result" where
  "cv_StatusTimestamp cv status =
     (case find_first (\<lambda>t. fst t = status) (cv_StatusTimestamps cv) of
        Some t \<Rightarrow> Inr (snd t)
      | None \<Rightarrow> Inl ErrStatusTimestampNotFound)"

section \<open>The run (run.go)\<close>

record Run_Variable =
  rv_Key :: string
  rv_Value :: string

record StatusTimestamp =
  st_Status :: Status
  st_Timestamp :: gtime

record Run =
  run_ID :: TfeID
  run_CreatedAt :: gtime
  run_IsDestroy :: bool
  run_CancelSignaledAt :: "gtime option"
  run_Message :: string
  run_Organization :: string
  run_Refresh :: bool
  run_RefreshOnly :: bool
  run_ReplaceAddrs :: "string list"
  run_TargetAddrs :: "string list"
  run_EngineVersion :: string
  run_Engine :: string
  run_AllowEmptyApply :: bool
  run_AutoApply :: bool
  run_PlanOnly :: bool
  run_Source :: Source
  run_Status :: Status
  run_WorkspaceID :: TfeID
  run_ConfigurationVersionID :: TfeID
  run_ExecutionKind :: ExecKind
  run_Variables :: "Run_Variable list"
  run_Plan :: Phase
  run_Apply :: Phase
  run_StatusTimestamps :: "StatusTimestamp list"
  run_IngressAttributes :: "IngressAttributes option"
  run_CreatedBy :: "string option"
  run_TriggeringRunID :: "TfeID option"
  run_CostEstimationEnabled :: bool

record RunCreateOptions =
  ro_IsDestroy :: "bool option"
  ro_Refresh :: "bool option"
  ro_RefreshOnly :: "bool option"
  ro_Message :: "string option"
  ro_ConfigurationVersionID :: "TfeID option"
  ro_TargetAddrs :: "string list"
  ro_ReplaceAddrs :: "string list"
  ro_AutoApply :: "bool option"
  ro_Source :: Source
  ro_TerraformVersion :: "string option"
  ro_AllowEmptyApply :: "bool option"
  ro_PlanOnly :: "bool option"
  ro_Variables :: "Run_Variable list"
  ro_CreatedBy :: "string option"
  ro_EngineVersion :: string
  ro_TriggeringRunID :: "TfeID option"
  ro_CreatedAt :: "gtime option"
  ro_costEstimationEnabled :: bool
  ro_now :: "gtime option"

definition run_updateStatus :: "gtime option \<Rightarrow> gtime \<Rightarrow> Run \<Rightarrow> Status \<Rightarrow> Run" where
  "run_updateStatus now reading r status =
     r\<lparr>run_Status := status,
       run_StatusTimestamps := run_StatusTimestamps r @
         [\<lparr>st_Status = status, st_Timestamp = CurrentTimestamp now reading\<rparr>]\<rparr>"

text \<open>\<open>NewRun\<close>. Its first composite literal leaves the status empty; \<open>updateStatus\<close> sets it.\<close>

definition NewRun ::
  "(nat \<Rightarrow> nat) \<Rightarrow> clock \<Rightarrow> Workspace \<Rightarrow> ConfigurationVersion \<Rightarrow> RunCreateOptions \<Rightarrow> Run" where
  "NewRun rnd clk ws cv opts =
     (let rid = NewTfeID rnd RunKind;
          run = \<lparr>run_ID = rid,
                 run_CreatedAt = CurrentTimestamp (ro_now opts) (clk 0),
                 run_IsDestroy = False,
                 run_CancelSignaledAt = None,
                 run_Message = [],
                 run_Organization = ws_Organization ws,
                 run_Refresh = True,
                 run_RefreshOnly = False,
                 run_ReplaceAddrs = ro_ReplaceAddrs opts,
                 run_TargetAddrs = ro_TargetAddrs opts,
                 run_EngineVersion = ro_EngineVersion opts,
                 run_Engine = ws_Engine ws,
                 run_AllowEmptyApply = False,
                 run_AutoApply = False,
                 run_PlanOnly = cv_Speculative cv,
                 run_Source = ro_Source opts,
                 run_Status = Pending,
                 run_WorkspaceID = ws_ID ws,
                 run_ConfigurationVersionID = cv_ID cv,
                 run_ExecutionKind = mode_kind (ws_Mode ws),
                 run_Variables = ro_Variables opts,
                 run_Plan = newPhase (clk 1) rid PlanPhase,
                 run_Apply = newPhase (clk 2) rid ApplyPhase,
                 run_StatusTimestamps = [],
                 run_IngressAttributes = cv_IngressAttributes cv,
                 run_CreatedBy = ro_CreatedBy opts,
                 run_TriggeringRunID = ro_TriggeringRunID opts,
                 run_CostEstimationEnabled = ro_costEstimationEnabled opts\<rparr>;
          run1 = run_updateStatus (ro_now opts) (clk 3) run Pending;
          auto = (if ro_TriggeringRunID opts \<noteq> None then ws_AutoApplyRunTrigger ws
                  else ws_AutoApply ws)
      in run1\<lparr>run_Source := (if run_Source run1 = [] then source_API else run_Source run1),
              run_CreatedAt := override (ro_CreatedAt opts) (run_CreatedAt run1),
              run_EngineVersion := override (ro_TerraformVersion opts) (run_EngineVersion run1),
              run_AllowEmptyApply := override (ro_AllowEmptyApply opts) (run_AllowEmptyApply run1),
              run_IsDestroy := override (ro_IsDestroy opts) (run_IsDestroy run1),
              run_Message := override (ro_Message opts) (run_Message run1),
              run_Refresh := override (ro_Refresh opts) (run_Refresh run1),
              run_AutoApply := override (ro_AutoApply opts) auto,
              run_PlanOnly := override (ro_PlanOnly opts) (run_PlanOnly run1)\<rparr>)"

definition Run_Queued :: "Run \<Rightarrow> bool" where
  "Run_Queued r = runstatus_Queued (run_Status r)"

definition Run_HasChanges :: "Run \<Rightarrow> bool" where
  "Run_HasChanges r = Phase_HasChanges (run_Plan r)"

definition Run_Done :: "Run \<Rightarrow> bool" where
  "Run_Done r = runstatus_Done (run_Status r)"

text \<open>Indexing an empty timestamp list is a panic.\<close>

definition Run_ElapsedTime :: "Run \<Rightarrow> gtime \<Rightarrow> gduration result" where
  "Run_ElapsedTime r now =
     (case run_StatusTimestamps r of
        [] \<Rightarrow> Inl (Panic ''index out of range'')
      | pending # _ \<Rightarrow>
          if Run_Done r
          then Inr (st_Timestamp (last (run_StatusTimestamps r)) - st_Timestamp pending)
          else Inr (now - st_Timestamp pending))"

record StatusPeriod =
  sp_Status :: Status
  sp_Period :: gduration

record PeriodReport =
  TotalTime :: gduration
  Periods :: "StatusPeriod list"

text \<open>
  The loop of \<open>PeriodReport\<close> over the timestamps from index \<open>i\<close> on. The slice of periods has
  \<open>n\<close> entries; writing past it, or reading the timestamp after the last one, is a panic. The first
  entry whose status is the current one ends the report of a completed run.
\<close>

fun PeriodReport_loop ::
  "Run \<Rightarrow> gtime \<Rightarrow> nat \<Rightarrow> StatusPeriod list \<Rightarrow> StatusTimestamp list \<Rightarrow> StatusPeriod list result" where
  "PeriodReport_loop r now i ps [] = Inr ps"
| "PeriodReport_loop r now i ps (cur # rest) =
     (if st_Status cur = run_Status r
      then (if Run_Done r then Inr ps
            else if i < length ps
            then PeriodReport_loop r now (Suc i)
                   (ps[i := \<lparr>sp_Status = st_Status cur, sp_Period = now - st_Timestamp cur\<rparr>]) rest
            else Inl (Panic ''index out of range''))
      else case rest of
             [] \<Rightarrow> Inl (Panic ''index out of range'')
           | nxt # _ \<Rightarrow>
               if i < length ps
               then PeriodReport_loop r now (Suc i)
                      (ps[i := \<lparr>sp_Status = st_Status cur,
                                sp_Period = st_Timestamp nxt - st_Timestamp cur\<rparr>]) rest
               else Inl (Panic ''index out of range''))"

text \<open>A fresh slice of periods holds zero values; the zero status, the empty string, is never read.\<close>

definition Run_PeriodReport :: "Run \<Rightarrow> gtime \<Rightarrow> PeriodReport result" where
  "Run_PeriodReport r now =
     (case Run_ElapsedTime r now of
        Inl e \<Rightarrow> Inl e
      | Inr tot \<Rightarrow>
          let n = (if Run_Done r then length (run_StatusTimestamps r) - 1
                   else length (run_StatusTimestamps r));
              zeros = replicate n \<lparr>sp_Status = Pending, sp_Period = 0\<rparr>
          in case PeriodReport_loop r now 0 zeros (run_StatusTimestamps r) of
               Inl e \<Rightarrow> Inl e
             | Inr ps \<Rightarrow> Inr \<lparr>TotalTime = tot, Periods = ps\<rparr>)"

definition Run_Phase :: "Run \<Rightarrow> PhaseType" where
  "Run_Phase r =
     (case run_Status r of
        Pending \<Rightarrow> PendingPhase
      | PlanQueued \<Rightarrow> PlanPhase | Planning \<Rightarrow> PlanPhase | Planned \<Rightarrow> PlanPhase
      | ApplyQueued \<Rightarrow> ApplyPhase | Applying \<Rightarrow> ApplyPhase | Applied \<Rightarrow> ApplyPhase
      | _ \<Rightarrow> UnknownPhase)"

definition InProgress :: "Run \<Rightarrow> bool" where
  "InProgress r = (case run_Status r of Planning \<Rightarrow> True | Applying \<Rightarrow> True | _ \<Rightarrow> False)"

definition Discardable :: "Run \<Rightarrow> bool" where
  "Discardable r =
     (case run_Status r of Pending \<Rightarrow> True | Planned \<Rightarrow> True | CostEstimated \<Rightarrow> True | _ \<Rightarrow> False)"

definition Confirmable :: "Run \<Rightarrow> bool" where
  "Confirmable r = (case run_Status r of Planned \<Rightarrow> True | _ \<Rightarrow> False)"

definition setPlan :: "gtime \<Rightarrow> PhaseStatus \<Rightarrow> Run \<Rightarrow> Run" where
  "setPlan now s r = r\<lparr>run_Plan := Phase_UpdateStatus now (run_Plan r) s\<rparr>"

definition setApply :: "gtime \<Rightarrow> PhaseStatus \<Rightarrow> Run \<Rightarrow> Run" where
  "setApply now s r = r\<lparr>run_Apply := Phase_UpdateStatus now (run_Apply r) s\<rparr>"

abbreviation setStatus :: "gtime \<Rightarrow> Status \<Rightarrow> Run \<Rightarrow> Run" where
  "setStatus now s r \<equiv> run_updateStatus None now r s"

text \<open>
  \<open>Discard\<close>, with the source's order of statements: the status is overwritten before the test
  whether it is pending.
\<close>

definition Discard :: "clock \<Rightarrow> Run \<Rightarrow> Run result" where
  "Discard clk r =
     (if \<not> Discardable r then Inl ErrRunDiscardNotAllowed
      else let r1 = setStatus (clk 0) Discarded r;
               r2 = (if run_Status r1 = Pending then setPlan (clk 1) PhaseUnreachable r1 else r1)
           in Inr (setApply (clk 2) PhaseUnreachable r2))"

definition ForceCancelCoolOff :: gduration where
  "ForceCancelCoolOff = Second * 10"

definition cancelCoolOff :: "Run \<Rightarrow> gtime option" where
  "cancelCoolOff r = map_option (\<lambda>t. t + ForceCancelCoolOff) (run_CancelSignaledAt r)"

definition ForceCancelAvailableAt :: "Run \<Rightarrow> gtime option" where
  "ForceCancelAvailableAt r =
     (if Run_Done r \<or> run_CancelSignaledAt r = None then None else cancelCoolOff r)"

definition ForceCancelable :: "gtime \<Rightarrow> Run \<Rightarrow> bool" where
  "ForceCancelable now r =
     (case ForceCancelAvailableAt r of
        None \<Rightarrow> False
      | Some availableAt \<Rightarrow> \<not> now < availableAt)"

definition Cancelable :: "Run \<Rightarrow> bool" where
  "Cancelable r =
     (if run_CancelSignaledAt r \<noteq> None then False
      else case run_Status r of
             Pending \<Rightarrow> True | PlanQueued \<Rightarrow> True | Planning \<Rightarrow> True | ApplyQueued \<Rightarrow> True
           | Applying \<Rightarrow> True | _ \<Rightarrow> False)"

text \<open>
  \<open>Cancel\<close>: first the guard on force, then the phases according to the status (\<open>Cancel_phases\<close>
  returns whether a signal is to be sent), then the signal or the new status.
\<close>

definition Cancel_phases :: "clock \<Rightarrow> bool \<Rightarrow> bool \<Rightarrow> Run \<Rightarrow> Run \<times> bool" where
  "Cancel_phases clk isUser force r =
     (case run_Status r of
        Pending \<Rightarrow>
          (setApply (clk 2) PhaseUnreachable (setPlan (clk 1) PhaseUnreachable r), False)
      | PlanQueued \<Rightarrow>
          (setApply (clk 2) PhaseUnreachable (setPlan (clk 1) PhaseCanceled r), False)
      | ApplyQueued \<Rightarrow> (setApply (clk 1) PhaseCanceled r, False)
      | Planning \<Rightarrow>
          if isUser \<and> \<not> force then (r, True)
          else (setApply (clk 2) PhaseUnreachable (setPlan (clk 1) PhaseCanceled r), False)
      | Planned \<Rightarrow> (setApply (clk 1) PhaseUnreachable r, False)
      | Applying \<Rightarrow>
          if isUser \<and> \<not> force then (r, True)
          else (setApply (clk 1) PhaseCanceled r, False)
      | _ \<Rightarrow> (r, False))"

definition Cancel :: "clock \<Rightarrow> bool \<Rightarrow> bool \<Rightarrow> Run \<Rightarrow> Run result" where
  "Cancel clk isUser force r =
     (if force \<and> (\<not> isUser \<or> \<not> ForceCancelable (clk 0) r) then Inl ErrRunForceCancelNotAllowed
      else case Cancel_phases clk isUser force r of
             (r1, signal) \<Rightarrow>
               if signal
               then (if run_CancelSignaledAt r1 \<noteq> None then Inl ErrRunCancelNotAllowed
                     else Inr (r1\<lparr>run_CancelSignaledAt := Some (CurrentTimestamp None (clk 3))\<rparr>))
               else Inr (setStatus (clk 3) (if force then ForceCanceled else Canceled) r1))"

definition Run_EnqueuePlan :: "clock \<Rightarrow> Run \<Rightarrow> Run result" where
  "Run_EnqueuePlan clk r =
     (if run_Status r \<noteq> Pending
      then Inl (Errorf (''cannot enqueue run with status '' @ Status_String (run_Status r)))
      else Inr (setPlan (clk 1) PhaseQueued (setStatus (clk 0) PlanQueued r)))"

definition Run_EnqueueApply :: "clock \<Rightarrow> Run \<Rightarrow> Run result" where
  "Run_EnqueueApply clk r =
     (if run_Status r = Planned \<or> run_Status r = CostEstimated
      then Inr (setApply (clk 1) PhaseQueued (setStatus (clk 0) ApplyQueued r))
      else Inl (Errorf (''cannot apply run with status '' @ Status_String (run_Status r))))"

definition Run_StatusTimestamp :: "Run \<Rightarrow> Status \<Rightarrow> gtime result" where
  "Run_StatusTimestamp r status =
     (case find_first (\<lambda>t. st_Status t = status) (run_StatusTimestamps r) of
        Some t \<Rightarrow> Inr (st_Timestamp t)
      | None \<Rightarrow> Inl ErrStatusTimestampNotFound)"

definition Run_Start :: "clock \<Rightarrow> Run \<Rightarrow> Run result" where
  "Run_Start clk r =
     (case run_Status r of
        PlanQueued \<Rightarrow> Inr (setPlan (clk 1) PhaseRunning (setStatus (clk 0) Planning r))
      | ApplyQueued \<Rightarrow> Inr (setApply (clk 1) PhaseRunning (setStatus (clk 0) Applying r))
      | Planning \<Rightarrow> Inl ErrPhaseAlreadyStarted
      | Applying \<Rightarrow> Inl ErrPhaseAlreadyStarted
      | _ \<Rightarrow> Inl ErrInvalidRunStateTransition)"

text \<open>\<open>Finish\<close> returns the run and whether an apply is to be enqueued.\<close>

definition Run_Finish :: "clock \<Rightarrow> PhaseType \<Rightarrow> bool \<Rightarrow> Run \<Rightarrow> (Run \<times> bool) result" where
  "Run_Finish clk phase errored r =
     (if run_Status r = Canceled then Inr (r, False)
      else case phase of
        PlanPhase \<Rightarrow>
          if run_Status r \<noteq> Planning then Inl ErrInvalidRunStateTransition
          else if errored
          then Inr (setApply (clk 2) PhaseUnreachable
                     (setPlan (clk 1) PhaseErrored (setStatus (clk 0) Errored r)), False)
          else let r1 = setStatus (clk 0)
                          (if run_CostEstimationEnabled r then CostEstimated else Planned) r;
                   r2 = setPlan (clk 1) PhaseFinished r1
               in if \<not> Run_HasChanges r2 \<or> run_PlanOnly r2
                  then Inr (setApply (clk 3) PhaseUnreachable
                              (setStatus (clk 2) PlannedAndFinished r2), False)
                  else Inr (r2, run_AutoApply r2)
      | ApplyPhase \<Rightarrow>
          if run_Status r \<noteq> Applying then Inl ErrInvalidRunStateTransition
          else if errored
          then Inr (setApply (clk 1) PhaseErrored (setStatus (clk 0) Errored r), False)
          else Inr (setApply (clk 1) PhaseFinished (setStatus (clk 0) Applied r), False)
      | _ \<Rightarrow> Inl (Errorf ''unknown phase''))"

lemmas [run_defs] =
  Discard_def Cancel_def Cancel_phases_def Run_EnqueuePlan_def Run_EnqueueApply_def
  Run_Start_def Run_Finish_def

section \<open>Example data\<close>

definition example_cv :: ConfigurationVersion where
  "example_cv =
     \<lparr>cv_ID = \<lparr>tfe_kind = ConfigVersionKind, tfe_id = ''1''\<rparr>, cv_CreatedAt = 0,
      cv_AutoQueueRuns = True, cv_Source = source_API, cv_Speculative = False,
      cv_Status = ConfigurationUploaded, cv_StatusTimestamps = [],
      cv_WorkspaceID = ws_ID example_workspace, cv_IngressAttributes = None\<rparr>"

definition no_options :: RunCreateOptions where
  "no_options =
     \<lparr>ro_IsDestroy = None, ro_Refresh = None, ro_RefreshOnly = None, ro_Message = None,
      ro_ConfigurationVersionID = None, ro_TargetAddrs = [], ro_ReplaceAddrs = [],
      ro_AutoApply = None, ro_Source = [], ro_TerraformVersion = None, ro_AllowEmptyApply = None,
      ro_PlanOnly = None, ro_Variables = [], ro_CreatedBy = None, ro_EngineVersion = ''1.6.0'',
      ro_TriggeringRunID = None, ro_CreatedAt = None, ro_costEstimationEnabled = False,
      ro_now = None\<rparr>"

definition example_run :: Run where
  "example_run = NewRun (\<lambda>_. 0) (\<lambda>_. 0) example_workspace example_cv no_options"

lemma example_run_simps [simp]:
  "run_ID example_run = NewTfeID (\<lambda>_. 0) RunKind" "run_Status example_run = Pending"
  "run_WorkspaceID example_run = ws_ID example_workspace"
  "run_Organization example_run = ''acme''" "run_PlanOnly example_run = False"
  "run_AutoApply example_run = False" "run_CostEstimationEnabled example_run = False"
  "run_CancelSignaledAt example_run = None"
  by (simp_all add: example_run_def NewRun_def Let_def run_updateStatus_def example_workspace_def
      no_options_def example_cv_def override_def)

end
