(* ===== verification/Job.thy ===== *)
theory Job
  imports Run
begin

text \<open>
  Jobs (\<open>internal/runner/job.go\<close>): the unit of work for one phase of a run, its status machine,
  and how a job reacts to the cancelation of its run. Every state change goes through
  \<open>updateStatus\<close>; the lemmas show that the machine is acyclic, that the three terminal statuses are
  final, and that a job has a runner from its allocation on.
\<close>

section \<open>Data\<close>

datatype JobStatus =
  JobUnallocated | JobAllocated | JobRunning | JobFinished | JobErrored | JobCanceled

record Job =
  job_ID :: TfeID
  job_RunID :: TfeID
  job_Phase :: PhaseType
  job_Status :: JobStatus
  job_AgentPoolID :: "TfeID option"
  job_Organization :: string
  job_WorkspaceID :: TfeID
  job_RunnerID :: "TfeID option"

section \<open>Operations\<close>

definition newJob :: "(nat \<Rightarrow> nat) \<Rightarrow> Run \<Rightarrow> Job" where
  "newJob rnd run =
     \<lparr>job_ID = NewTfeID rnd JobKind, job_RunID = run_ID run, job_Phase = Run_Phase run,
      job_Status = JobUnallocated, job_AgentPoolID = None,
      job_Organization = run_Organization run, job_WorkspaceID = run_WorkspaceID run,
      job_RunnerID = None\<rparr>"

fun job_transition_valid :: "JobStatus \<Rightarrow> JobStatus \<Rightarrow> bool" where
  "job_transition_valid JobUnallocated to = (to \<in> {JobAllocated, JobCanceled})"
| "job_transition_valid JobAllocated to = (to \<in> {JobRunning, JobCanceled})"
| "job_transition_valid JobRunning to = (to \<in> {JobFinished, JobCanceled, JobErrored})"
| "job_transition_valid _ to = False"

definition job_updateStatus :: "Job \<Rightarrow> JobStatus \<Rightarrow> Job result" where
  "job_updateStatus j to =
     (if job_transition_valid (job_Status j) to then Inr (j\<lparr>job_Status := to\<rparr>)
      else Inl ErrInvalidJobStateTransition)"

definition job_allocate :: "TfeID \<Rightarrow> Job \<Rightarrow> Job result" where
  "job_allocate runnerID j =
     (case job_updateStatus j JobAllocated of
        Inl e \<Rightarrow> Inl e
      | Inr j' \<Rightarrow> Inr (j'\<lparr>job_RunnerID := Some runnerID\<rparr>))"

definition job_reallocate :: "TfeID \<Rightarrow> Job \<Rightarrow> Job result" where
  "job_reallocate runnerID j =
     (if job_Status j \<noteq> JobAllocated
      then Inl (Errorf ''job can only be re-allocated when it is in the allocated state'')
      else Inr (j\<lparr>job_RunnerID := Some runnerID\<rparr>))"

definition startJob :: "Job \<Rightarrow> Job result" where
  "startJob j = job_updateStatus j JobRunning"

definition finishJob :: "JobStatus \<Rightarrow> Job \<Rightarrow> Job result" where
  "finishJob to j = job_updateStatus j to"

text \<open>
  \<open>Job.cancel\<close> returns the job together with \<open>(signal, force)\<close>. A canceled or forcefully canceled
  run cancels the job; a run in progress whose cancelation has been requested only sends a signal.
\<close>

definition job_cancel :: "Run \<Rightarrow> Job \<Rightarrow> (Job \<times> bool \<times> bool) result" where
  "job_cancel run j =
     (case run_Status run of
        Planning \<Rightarrow> Inr (j, run_CancelSignaledAt run \<noteq> None, False)
      | Applying \<Rightarrow> Inr (j, run_CancelSignaledAt run \<noteq> None, False)
      | Canceled \<Rightarrow>
          (case job_updateStatus j JobCanceled of
             Inl e \<Rightarrow> Inl e | Inr j' \<Rightarrow> Inr (j', False, False))
      | ForceCanceled \<Rightarrow>
          (case job_updateStatus j JobCanceled of
             Inl e \<Rightarrow> Inl e | Inr j' \<Rightarrow> Inr (j', True, True))
      | _ \<Rightarrow> Inr (j, False, False))"

lemmas [job_defs] =
  job_updateStatus_def job_allocate_def job_reallocate_def startJob_def finishJob_def job_cancel_def

section \<open>The status machine\<close>

definition job_terminal :: "JobStatus \<Rightarrow> bool" where
  "job_terminal s \<longleftrightarrow> s \<in> {JobFinished, JobErrored, JobCanceled}"

text \<open>The statuses of a job that occupies its runner.\<close>

definition job_active :: "JobStatus \<Rightarrow> bool" where
  "job_active s \<longleftrightarrow> s \<in> {JobAllocated, JobRunning}"

lemma job_active_simps [simp]:
  "job_active JobAllocated" "job_active JobRunning" "\<not> job_active JobUnallocated"
  "\<not> job_active JobFinished" "\<not> job_active JobErrored" "\<not> job_active JobCanceled"
  by (simp_all add: job_active_def)

lemma job_terminal_simps [simp]:
  "job_terminal JobFinished" "job_terminal JobErrored" "job_terminal JobCanceled"
  "\<not> job_terminal JobUnallocated" "\<not> job_terminal JobAllocated" "\<not> job_terminal JobRunning"
  by (simp_all add: job_terminal_def)

fun job_rank :: "JobStatus \<Rightarrow> nat" where
  "job_rank JobUnallocated = 0"
| "job_rank JobAllocated = 1"
| "job_rank JobRunning = 2"
| "job_rank _ = 3"

lemma job_transition_rank: "job_transition_valid s t \<Longrightarrow> job_rank s < job_rank t"
  by (cases s; cases t) simp_all

lemma job_transition_terminal: "job_terminal s \<Longrightarrow> \<not> job_transition_valid s t"
  by (cases s) simp_all

lemma job_updateStatus_ok:
  "job_updateStatus j to = Inr j' \<longleftrightarrow>
     job_transition_valid (job_Status j) to \<and> j' = j\<lparr>job_Status := to\<rparr>"
  by (auto simp: job_updateStatus_def)

text \<open>A job has a runner once it has been allocated, and none before.\<close>

definition job_wf :: "Job \<Rightarrow> bool" where
  "job_wf j \<longleftrightarrow>
     (job_active (job_Status j) \<longrightarrow> job_RunnerID j \<noteq> None) \<and>
     (job_Status j = JobUnallocated \<longrightarrow> job_RunnerID j = None) \<and>
     (job_Status j \<in> {JobFinished, JobErrored} \<longrightarrow> job_RunnerID j \<noteq> None)"

datatype job_op =
  JAllocate TfeID | JReallocate TfeID | JStart | JFinish JobStatus | JCancel Run

fun exec_job :: "job_op \<Rightarrow> Job \<Rightarrow> Job result" where
  "exec_job (JAllocate r) j = job_allocate r j"
| "exec_job (JReallocate r) j = job_reallocate r j"
| "exec_job JStart j = startJob j"
| "exec_job (JFinish s) j = finishJob s j"
| "exec_job (JCancel run) j =
     (case job_cancel run j of Inl e \<Rightarrow> Inl e | Inr (j', _) \<Rightarrow> Inr j')"

text \<open>The operation \<open>finishJob\<close> is only called with a terminal status (\<open>FinishJob\<close>).\<close>

definition job_op_ok :: "job_op \<Rightarrow> bool" where
  "job_op_ok opn = (case opn of JFinish s \<Rightarrow> job_terminal s | _ \<Rightarrow> True)"

inductive reachable_job :: "Job \<Rightarrow> bool" where
  new: "reachable_job (newJob rnd run)"
| step: "reachable_job j \<Longrightarrow> job_op_ok opn \<Longrightarrow> exec_job opn j = Inr j' \<Longrightarrow> reachable_job j'"

lemma job_cancel_ok:
  assumes "job_cancel run j = Inr (j', signal, force)"
  shows "j' = j \<or> job_transition_valid (job_Status j) JobCanceled \<and> j' = j\<lparr>job_Status := JobCanceled\<rparr>"
  using assms
  by (cases "run_Status run") (auto simp: job_cancel_def job_updateStatus_ok split: sum.splits)

lemma exec_job_wf:
  assumes "job_wf j" "job_op_ok opn" "exec_job opn j = Inr j'"
  shows "job_wf j'"
proof (cases opn)
  case (JCancel run)
  with assms(3) obtain s f where "job_cancel run j = Inr (j', s, f)"
    by (auto split: sum.splits prod.splits)
  with assms(1) job_cancel_ok show ?thesis by (fastforce simp: job_wf_def)
next
  case (JFinish s)
  with assms show ?thesis
    by (cases "job_Status j"; cases s) (auto simp: job_defs job_wf_def job_op_ok_def split: if_splits)
next
  case JStart
  with assms show ?thesis
    by (cases "job_Status j") (auto simp: job_defs job_wf_def split: if_splits)
qed (use assms in \<open>auto simp: job_defs job_wf_def split: if_splits sum.splits\<close>)

lemma reachable_job_wf: "reachable_job j \<Longrightarrow> job_wf j"
proof (induction rule: reachable_job.induct)
  case (new rnd run)
  then show ?case by (simp add: job_wf_def newJob_def)
next
  case (step j opn j')
  then show ?case by (blast intro: exec_job_wf)
qed

lemma exec_job_rank:
  assumes "exec_job opn j = Inr j'"
  shows "job_Status j' = job_Status j \<or> job_rank (job_Status j) < job_rank (job_Status j')"
proof (cases opn)
  case (JCancel run)
  with assms obtain s f where "job_cancel run j = Inr (j', s, f)"
    by (auto split: sum.splits prod.splits)
  then show ?thesis using job_cancel_ok job_transition_rank by fastforce
qed (use assms in \<open>auto simp: job_defs split: if_splits sum.splits dest: job_transition_rank\<close>)

text \<open>The identity of a job, its run, phase, workspace and organization never change.\<close>

lemma exec_job_frame:
  assumes "exec_job opn j = Inr j'"
  shows "job_ID j' = job_ID j \<and> job_RunID j' = job_RunID j \<and> job_Phase j' = job_Phase j \<and>
    job_WorkspaceID j' = job_WorkspaceID j \<and> job_Organization j' = job_Organization j \<and>
    job_AgentPoolID j' = job_AgentPoolID j"
proof (cases opn)
  case (JCancel run)
  with assms obtain s f where "job_cancel run j = Inr (j', s, f)"
    by (auto split: sum.splits prod.splits)
  then show ?thesis using job_cancel_ok by fastforce
qed (use assms in \<open>auto simp: job_defs split: if_splits sum.splits\<close>)

section \<open>Properties\<close>

text \<open>
  the status machine of a job. Every operation on a job leaves its status alone or moves it
  strictly forward, a job that has finished, errored or been canceled never changes again, and the
  run, phase, workspace and organization of a job are fixed at its creation.
\<close>

theorem job_moves_forward:
  assumes "exec_job opn j = Inr j'"
  shows "(job_Status j' = job_Status j \<or> job_rank (job_Status j) < job_rank (job_Status j')) \<and>
    (job_terminal (job_Status j) \<longrightarrow> j' = j) \<and>
    job_ID j' = job_ID j \<and> job_RunID j' = job_RunID j \<and> job_Phase j' = job_Phase j \<and>
    job_WorkspaceID j' = job_WorkspaceID j \<and> job_Organization j' = job_Organization j"
proof -
  have "j' = j" if t: "job_terminal (job_Status j)"
  proof (cases opn)
    case (JCancel run)
    with assms obtain x f where "job_cancel run j = Inr (j', x, f)"
      by (auto split: sum.splits prod.splits)
    with job_cancel_ok job_transition_terminal [OF t] show ?thesis by blast
  qed (use assms t in \<open>auto simp: job_defs job_transition_terminal split: if_splits sum.splits\<close>)
  with exec_job_rank [OF assms] exec_job_frame [OF assms] show ?thesis by blast
qed

lemma job_moves_forward_witness:
  "\<exists>j'. exec_job (JAllocate (ws_ID example_workspace)) (newJob (\<lambda>_. 0) example_run) = Inr j' \<and>
        job_rank JobUnallocated < job_rank (job_Status j')"
proof -
  let ?j = "newJob (\<lambda>_. 0) example_run"
  obtain j' where j': "exec_job (JAllocate (ws_ID example_workspace)) ?j = Inr j'"
    "job_Status j' = JobAllocated"
    by (simp add: job_defs newJob_def)
  from job_moves_forward [OF this(1)] j' show ?thesis by (auto simp: newJob_def)
qed

text \<open>
  a job that is allocated, running, finished or errored has a runner, and an unallocated one has
  none, in every job that the operations of the services can produce.
\<close>

theorem reachable_job_has_runner:
  assumes "reachable_job j"
  shows "(job_Status j \<in> {JobAllocated, JobRunning, JobFinished, JobErrored} \<longrightarrow> job_RunnerID j \<noteq> None) \<and>
    (job_Status j = JobUnallocated \<longrightarrow> job_RunnerID j = None)"
  using reachable_job_wf [OF assms] by (auto simp: job_wf_def)

lemma reachable_job_has_runner_witness:
  "\<exists>j. reachable_job j \<and> job_Status j = JobAllocated \<and> job_RunnerID j \<noteq> None"
proof -
  let ?j = "newJob (\<lambda>_. 0) example_run" and ?r = "ws_ID example_workspace"
  obtain j where j: "exec_job (JAllocate ?r) ?j = Inr j" "job_Status j = JobAllocated"
    by (simp add: job_defs newJob_def)
  have "reachable_job j"
    by (rule reachable_job.step [OF reachable_job.new _ j(1)]) (simp add: job_op_ok_def)
  with reachable_job_has_runner [OF this] j(2) show ?thesis by auto
qed

end
