(* ===== verification/Runner.thy ===== *)
theory Runner
  imports Job
begin

text \<open>
  Runners and agent pools (\<open>internal/runner/meta.go\<close>, \<open>status.go\<close>, \<open>manager.go\<close>, \<open>pool.go\<close>): the
  registration and the status machine of a runner, the manager that times out silent runners, and
  the rule that a pool which is not organization-scoped only serves workspaces it allows.
\<close>

section \<open>Agent pools (pool.go)\<close>

record Pool =
  pool_ID :: TfeID
  pool_Name :: string
  pool_CreatedAt :: gtime
  pool_Organization :: string
  pool_OrganizationScoped :: bool
  pool_AllowedWorkspaces :: "TfeID list"
  pool_AssignedWorkspaces :: "TfeID list"

record CreateAgentPoolOptions =
  cpo_Name :: string
  cpo_Organization :: string
  cpo_OrganizationScoped :: "bool option"
  cpo_AllowedWorkspaces :: "TfeID list"

record UpdatePoolOptions =
  upo_Name :: "string option"
  upo_OrganizationScoped :: "bool option"
  upo_AllowedWorkspaces :: "TfeID slice"
  upo_AssignedWorkspaces :: "TfeID slice"

definition newPool :: "(nat \<Rightarrow> nat) \<Rightarrow> gtime \<Rightarrow> CreateAgentPoolOptions \<Rightarrow> Pool result" where
  "newPool rnd now opts =
     (if cpo_Name opts = [] then Inl (Errorf ''name must not be empty'')
      else Inr \<lparr>pool_ID = NewTfeID rnd ''apool'',
                pool_Name = cpo_Name opts,
                pool_CreatedAt = CurrentTimestamp None now,
                pool_Organization = cpo_Organization opts,
                pool_OrganizationScoped = override (cpo_OrganizationScoped opts) True,
                pool_AllowedWorkspaces = cpo_AllowedWorkspaces opts,
                pool_AssignedWorkspaces = []\<rparr>)"

text \<open>
  \<open>Pool.update\<close>. The assigned workspaces among the options are not read: the pool keeps those that
  the database reported.
\<close>

definition Pool_update :: "UpdatePoolOptions \<Rightarrow> Pool \<Rightarrow> Pool result" where
  "Pool_update opts p =
     (case (case upo_Name opts of
              None \<Rightarrow> Inr p
            | Some n \<Rightarrow>
                (case ValidateName (Some n) of Inl e \<Rightarrow> Inl e | Inr _ \<Rightarrow> Inr (p\<lparr>pool_Name := n\<rparr>))) of
        Inl e \<Rightarrow> Inl e
      | Inr p1 \<Rightarrow>
          let p2 = p1\<lparr>pool_OrganizationScoped :=
                        override (upo_OrganizationScoped opts) (pool_OrganizationScoped p1)\<rparr>;
              p3 = (case upo_AllowedWorkspaces opts of
                      None \<Rightarrow> p2 | Some ws \<Rightarrow> p2\<lparr>pool_AllowedWorkspaces := ws\<rparr>)
          in if \<not> pool_OrganizationScoped p3 \<and>
                list_ex (\<lambda>w. w \<notin> set (pool_AllowedWorkspaces p3)) (pool_AssignedWorkspaces p3)
             then Inl ErrPoolAssignedWorkspacesNotAllowed
             else Inr p3)"

text \<open>\<open>checkWorkspacePoolAccess\<close>, run before a workspace is created or updated.\<close>

definition checkWorkspacePoolAccess :: "(TfeID \<Rightarrow> Pool result) \<Rightarrow> Workspace \<Rightarrow> unit result" where
  "checkWorkspacePoolAccess getPool ws =
     (case mode_agentPoolID (ws_Mode ws) of
        None \<Rightarrow> Inr ()
      | Some pid \<Rightarrow>
          (case getPool pid of
             Inl e \<Rightarrow> Inl e
           | Inr pool \<Rightarrow>
               if pool_OrganizationScoped pool then Inr ()
               else if ws_ID ws \<in> set (pool_AllowedWorkspaces pool) then Inr ()
               else Inl ErrWorkspaceNotAllowedToUsePool))"

text \<open>The assigned workspaces of a pool that is not organization-scoped are among those allowed.\<close>

definition pool_inv :: "Pool \<Rightarrow> bool" where
  "pool_inv p \<longleftrightarrow>
     pool_OrganizationScoped p \<or> set (pool_AssignedWorkspaces p) \<subseteq> set (pool_AllowedWorkspaces p)"

lemma newPool_inv: "newPool rnd now opts = Inr p \<Longrightarrow> pool_inv p"
  by (auto simp: newPool_def pool_inv_def split: if_splits)

lemma Pool_update_inv: "Pool_update opts p = Inr p' \<Longrightarrow> pool_inv p'"
  by (auto simp: Pool_update_def pool_inv_def Let_def list_ex_iff split: sum.splits if_splits)

lemma assign_inv:
  "checkWorkspacePoolAccess getPool ws = Inr () \<Longrightarrow> mode_agentPoolID (ws_Mode ws) = Some pid \<Longrightarrow>
   getPool pid = Inr p \<Longrightarrow> pool_inv p \<Longrightarrow>
   pool_inv (p\<lparr>pool_AssignedWorkspaces := ws_ID ws # pool_AssignedWorkspaces p\<rparr>)"
  by (auto simp: checkWorkspacePoolAccess_def pool_inv_def split: if_splits)

section \<open>Runners (status.go, meta.go)\<close>

datatype RunnerStatus =
  RunnerIdle | RunnerBusy | RunnerExited | RunnerErrored | RunnerUnknown

datatype ExecutorKind = ForkExecutorKind | KubeExecutorKind

record RunnerMeta =
  rn_ID :: TfeID
  rn_Name :: string
  rn_Version :: string
  rn_Status :: "RunnerStatus option"
  rn_MaxJobs :: int
  rn_CurrentJobs :: int
  rn_LastPingAt :: gtime
  rn_LastStatusAt :: gtime
  rn_IPAddress :: string
  rn_ExecutorKind :: ExecutorKind
  rn_AgentPool :: "Pool option"

record RegisterRunnerOptions =
  reg_Name :: string
  reg_Version :: string
  reg_Concurrency :: int
  reg_IPAddress :: "string option"
  reg_ExecutorKind :: ExecutorKind

text \<open>
  The zero value of a status, the empty string of a runner under construction, is \<open>None\<close>.
  \<open>setStatus\<close> refuses to leave the two final statuses.
\<close>

definition rn_setStatus :: "gtime \<Rightarrow> RunnerStatus \<Rightarrow> bool \<Rightarrow> RunnerMeta \<Rightarrow> RunnerMeta result" where
  "rn_setStatus reading status ping m =
     (if rn_Status m = Some RunnerErrored \<or> rn_Status m = Some RunnerExited then Inl ErrConflict
      else let now = CurrentTimestamp None reading;
               m1 = m\<lparr>rn_Status := Some status, rn_LastStatusAt := now\<rparr>
           in Inr (if ping then m1\<lparr>rn_LastPingAt := now\<rparr> else m1))"

text \<open>
  \<open>register\<close>: \<open>outbound\<close> is the result of \<open>GetOutboundIP\<close>; when it fails the loopback address is
  taken. The zero time is \<open>0\<close>.
\<close>

definition register ::
  "(nat \<Rightarrow> nat) \<Rightarrow> gtime \<Rightarrow> string result \<Rightarrow> Pool option \<Rightarrow> RegisterRunnerOptions \<Rightarrow> RunnerMeta result" where
  "register rnd now outbound pool opts =
     (let meta = \<lparr>rn_ID = NewTfeID rnd RunnerKind, rn_Name = reg_Name opts,
                  rn_Version = reg_Version opts, rn_Status = None,
                  rn_MaxJobs = reg_Concurrency opts, rn_CurrentJobs = 0,
                  rn_LastPingAt = 0, rn_LastStatusAt = 0, rn_IPAddress = [],
                  rn_ExecutorKind = reg_ExecutorKind opts, rn_AgentPool = pool\<rparr>
      in case rn_setStatus now RunnerIdle True meta of
           Inl e \<Rightarrow> Inl e
         | Inr m \<Rightarrow>
             Inr (m\<lparr>rn_IPAddress :=
                      (case reg_IPAddress opts of
                         Some ip \<Rightarrow> ip
                       | None \<Rightarrow> (case outbound of Inl _ \<Rightarrow> ''::1'' | Inr ip \<Rightarrow> ip))\<rparr>))"

definition IsAgent :: "RunnerMeta \<Rightarrow> bool" where
  "IsAgent m = (rn_AgentPool m \<noteq> None)"

section \<open>The manager (manager.go)\<close>

definition pingTimeout :: gduration where "pingTimeout = 30 * Second"

datatype manager_action = ManagerNone | ManagerUpdateStatus RunnerStatus | ManagerDelete

definition manager_update :: "gtime \<Rightarrow> RunnerMeta \<Rightarrow> manager_action" where
  "manager_update now m =
     (case rn_Status m of
        Some RunnerIdle \<Rightarrow>
          if now - rn_LastPingAt m > pingTimeout then ManagerUpdateStatus RunnerUnknown else ManagerNone
      | Some RunnerBusy \<Rightarrow>
          if now - rn_LastPingAt m > pingTimeout then ManagerUpdateStatus RunnerUnknown else ManagerNone
      | Some RunnerUnknown \<Rightarrow>
          if now - rn_LastStatusAt m > 5 * Minute then ManagerUpdateStatus RunnerErrored else ManagerNone
      | Some RunnerErrored \<Rightarrow>
          if now - rn_LastStatusAt m > Hour then ManagerDelete else ManagerNone
      | Some RunnerExited \<Rightarrow>
          if now - rn_LastStatusAt m > Hour then ManagerDelete else ManagerNone
      | None \<Rightarrow> ManagerNone)"

text \<open>
  The effect of one tick of the manager on the table of runners: every listed runner in turn, the
  action carried out on the row as it is then (\<open>None\<close> after a deletion). \<open>setStatus\<close> with
  \<open>ping = false\<close> is what \<open>UpdateStatus\<close> does for the manager.
\<close>

definition manager_apply :: "gtime \<Rightarrow> RunnerMeta \<Rightarrow> RunnerMeta option result" where
  "manager_apply now m =
     (case manager_update now m of
        ManagerNone \<Rightarrow> Inr (Some m)
      | ManagerUpdateStatus s \<Rightarrow>
          (case rn_setStatus now s False m of Inl e \<Rightarrow> Inl e | Inr m' \<Rightarrow> Inr (Some m'))
      | ManagerDelete \<Rightarrow> Inr None)"

text \<open>A runner that never pings again, checked at the given times.\<close>

fun manager_ticks :: "gtime list \<Rightarrow> RunnerMeta \<Rightarrow> RunnerMeta option result" where
  "manager_ticks [] m = Inr (Some m)"
| "manager_ticks (t # ts) m =
     (case manager_apply t m of
        Inl e \<Rightarrow> Inl e
      | Inr None \<Rightarrow> Inr None
      | Inr (Some m') \<Rightarrow> manager_ticks ts m')"

section \<open>Lemmas\<close>

lemma rn_setStatus_final:
  "rn_Status m \<in> {Some RunnerErrored, Some RunnerExited} \<Longrightarrow> rn_setStatus t s p m = Inl ErrConflict"
  by (auto simp: rn_setStatus_def)

lemma register_ok:
  "\<exists>m. register rnd now ip pool opts = Inr m \<and> rn_Status m = Some RunnerIdle \<and>
       rn_MaxJobs m = reg_Concurrency opts \<and> rn_CurrentJobs m = 0 \<and> rn_AgentPool m = pool"
  by (simp add: register_def rn_setStatus_def Let_def)

lemma manager_apply_ok: "is_ok (manager_apply now m)"
  by (cases "rn_Status m") (auto simp: manager_apply_def manager_update_def rn_setStatus_def Let_def
      split: RunnerStatus.splits)

text \<open>A runner that pinged within the timeout is left alone while idle or busy.\<close>

lemma manager_apply_live:
  "rn_Status m \<in> {Some RunnerIdle, Some RunnerBusy} \<Longrightarrow> now - rn_LastPingAt m \<le> pingTimeout \<Longrightarrow>
   manager_apply now m = Inr (Some m)"
  by (auto simp: manager_apply_def manager_update_def)

definition manager_rank :: "RunnerMeta \<Rightarrow> nat" where
  "manager_rank m =
     (case rn_Status m of
        Some RunnerIdle \<Rightarrow> 3 | Some RunnerBusy \<Rightarrow> 3 | Some RunnerUnknown \<Rightarrow> 2
      | Some RunnerErrored \<Rightarrow> 1 | Some RunnerExited \<Rightarrow> 1 | None \<Rightarrow> 0)"

text \<open>
  Once more than an hour (and half a millisecond, the rounding of timestamps) has passed since the
  last ping and the last change of status, a check moves the runner one rank down or deletes it.
\<close>

lemma manager_apply_step:
  assumes "rn_Status m \<noteq> None" "now - rn_LastPingAt m > Hour" "now - rn_LastStatusAt m > Hour"
  shows "manager_apply now m = Inr None \<or>
    (\<exists>m'. manager_apply now m = Inr (Some m') \<and> rn_Status m' \<noteq> None \<and>
       manager_rank m' < manager_rank m \<and> rn_LastPingAt m' = rn_LastPingAt m \<and>
       rn_LastStatusAt m' \<le> now + Millisecond)"
proof -
  obtain s where s: "rn_Status m = Some s" using assms(1) by auto
  have t: "now - rn_LastPingAt m > pingTimeout" "now - rn_LastStatusAt m > 5 * Minute"
    using assms(2,3) by (auto simp: pingTimeout_def Hour_def Minute_def Second_def Millisecond_def)
  have r: "CurrentTimestamp None now \<le> now + Millisecond"
    using CurrentTimestamp_near [of now] by (simp add: Millisecond_def)
  show ?thesis
    using s t r assms by (cases s)
      (auto simp: manager_apply_def manager_update_def rn_setStatus_def Let_def manager_rank_def)
qed

text \<open>Successive checks that are more than an hour apart remove a silent runner.\<close>

fun spaced :: "gtime \<Rightarrow> gtime list \<Rightarrow> bool" where
  "spaced prev [] = True"
| "spaced prev (t # ts) = (t - prev > Hour + Millisecond \<and> spaced t ts)"

lemma manager_ticks_deletes:
  assumes "rn_Status m \<noteq> None" "rn_LastPingAt m \<le> prev + Millisecond"
    "rn_LastStatusAt m \<le> prev + Millisecond" "spaced prev ts" "manager_rank m \<le> length ts"
  shows "manager_ticks ts m = Inr None"
  using assms
proof (induction ts arbitrary: m prev)
  case Nil
  then show ?case by (auto simp: manager_rank_def split: option.splits RunnerStatus.splits)
next
  case (Cons t ts)
  have "t - rn_LastPingAt m > Hour" "t - rn_LastStatusAt m > Hour"
    using Cons.prems by auto
  from manager_apply_step [OF Cons.prems(1) this] show ?case
  proof (elim disjE exE conjE)
    fix m'
    assume m': "manager_apply t m = Inr (Some m')" "rn_Status m' \<noteq> None"
      "manager_rank m' < manager_rank m" "rn_LastPingAt m' = rn_LastPingAt m"
      "rn_LastStatusAt m' \<le> t + Millisecond"
    have "rn_LastPingAt m \<le> t + Millisecond"
      using Cons.prems by (auto simp: Hour_def Minute_def Second_def Millisecond_def)
    with m' Cons.prems have "manager_ticks ts m' = Inr None"
      by (intro Cons.IH [of m' t]) auto
    with m' show ?thesis by simp
  qed simp
qed

section \<open>Properties\<close>

text \<open>
  a pool that is not scoped to its organization only serves workspaces it allows. The rule holds
  for new pools, every accepted update keeps it (an update that would withdraw access from an
  assigned workspace is refused), and assigning a workspace that passed the access check keeps it.
\<close>

theorem pool_access_invariant:
  "(newPool rnd now copts = Inr pa \<longrightarrow> pool_inv pa) \<and>
   (Pool_update uopts pb = Inr pc \<longrightarrow> pool_inv pc) \<and>
   (\<not> pool_OrganizationScoped pb \<and> w \<in> set (pool_AssignedWorkspaces pb) \<and> w \<notin> set allowed \<longrightarrow>
      Pool_update \<lparr>upo_Name = None, upo_OrganizationScoped = None,
        upo_AllowedWorkspaces = Some allowed, upo_AssignedWorkspaces = None\<rparr> pb =
      Inl ErrPoolAssignedWorkspacesNotAllowed) \<and>
   (checkWorkspacePoolAccess getPool ws = Inr () \<and> mode_agentPoolID (ws_Mode ws) = Some pid \<and>
      getPool pid = Inr pd \<and> pool_inv pd \<longrightarrow>
      pool_inv (pd\<lparr>pool_AssignedWorkspaces := ws_ID ws # pool_AssignedWorkspaces pd\<rparr>))"
  using newPool_inv Pool_update_inv assign_inv
  by (auto simp: Pool_update_def Let_def override_def list_ex_iff)

definition example_pool :: Pool where
  "example_pool = \<lparr>pool_ID = \<lparr>tfe_kind = AgentPoolKind, tfe_id = ''1''\<rparr>, pool_Name = ''p'',
     pool_CreatedAt = 0, pool_Organization = ''acme'', pool_OrganizationScoped = False,
     pool_AllowedWorkspaces = [ws_ID example_workspace],
     pool_AssignedWorkspaces = [ws_ID example_workspace]\<rparr>"

lemma pool_access_invariant_witness:
  "Pool_update \<lparr>upo_Name = None, upo_OrganizationScoped = None, upo_AllowedWorkspaces = Some [],
     upo_AssignedWorkspaces = None\<rparr> example_pool = Inl ErrPoolAssignedWorkspacesNotAllowed"
  using pool_access_invariant [where pb = example_pool and w = "ws_ID example_workspace" and allowed = "[]"]
  by (simp add: example_pool_def)

text \<open>
  a runner that stops pinging is removed. Checked by the manager at least three times, more than
  an hour apart, it is moved to unknown, then errored, then deleted; a runner that pinged within the
  timeout is left as it is.
\<close>

theorem manager_removes_silent_runner:
  "(rn_Status m \<noteq> None \<and> rn_LastPingAt m \<le> prev \<and> rn_LastStatusAt m \<le> prev \<and>
      spaced prev ts \<and> 3 \<le> length ts \<longrightarrow> manager_ticks ts m = Inr None) \<and>
   (rn_Status m \<in> {Some RunnerIdle, Some RunnerBusy} \<and> now - rn_LastPingAt m \<le> pingTimeout \<longrightarrow>
      manager_apply now m = Inr (Some m))"
proof (intro conjI impI)
  assume h: "rn_Status m \<noteq> None \<and> rn_LastPingAt m \<le> prev \<and> rn_LastStatusAt m \<le> prev \<and>
    spaced prev ts \<and> 3 \<le> length ts"
  have "manager_rank m \<le> 3"
    by (auto simp: manager_rank_def split: option.splits RunnerStatus.splits)
  with h show "manager_ticks ts m = Inr None"
    by (intro manager_ticks_deletes [of m prev]) (auto simp: Millisecond_def)
qed (use manager_apply_live in auto)

definition example_runner :: RunnerMeta where
  "example_runner = \<lparr>rn_ID = \<lparr>tfe_kind = RunnerKind, tfe_id = ''1''\<rparr>, rn_Name = [], rn_Version = ''1'',
     rn_Status = Some RunnerBusy, rn_MaxJobs = 5, rn_CurrentJobs = 0, rn_LastPingAt = 0,
     rn_LastStatusAt = 0, rn_IPAddress = ''::1'', rn_ExecutorKind = ForkExecutorKind,
     rn_AgentPool = None\<rparr>"

lemma manager_removes_silent_runner_witness:
  "manager_ticks [2 * Hour, 4 * Hour, 6 * Hour] example_runner = Inr None"
  using manager_removes_silent_runner [of example_runner 0 "[2 * Hour, 4 * Hour, 6 * Hour]" 0]
  by (simp add: example_runner_def Hour_def Minute_def Second_def Millisecond_def)

end
