(* ===== verification/Allocator.thy ===== *)
theory Allocator
  imports Runner
begin

text \<open>
  The job allocator (\<open>internal/runner/allocator.go\<close>) over the table of jobs (\<open>internal/runner/db.go\<close>).
  The allocator keeps a cache of runners, of unfinished jobs and of the number of jobs of every
  runner; it is fed by events that may lag behind the database. The development shows that the
  cached tallies are exact and that a runner with the fork executor is never given more jobs than
  it can run, whatever the interleaving of allocator steps with the other writers of the table.
\<close>

section \<open>The table of jobs (db.go)\<close>

text \<open>
  \<open>updateJob\<close> takes the identifier of a job or of a run; given a run it selects an unfinished job of
  the run. The update function runs within the transaction, an error rolls it back.
\<close>

definition job_selected :: "TfeID \<Rightarrow> Job \<Rightarrow> bool" where
  "job_selected runOrJobID j \<longleftrightarrow>
     job_ID j = runOrJobID \<or>
     job_RunID j = runOrJobID \<and> job_Status j \<in> {JobUnallocated, JobAllocated, JobRunning}"

definition write_job :: "Job \<Rightarrow> Job list \<Rightarrow> Job list" where
  "write_job j db =
     map (\<lambda>x. if job_ID x = job_ID j
              then x\<lparr>job_Status := job_Status j, job_RunnerID := job_RunnerID j\<rparr> else x) db"

definition updateJob :: "TfeID \<Rightarrow> (Job \<Rightarrow> Job result) \<Rightarrow> Job list \<Rightarrow> (Job list \<times> Job) result" where
  "updateJob runOrJobID fn db =
     (case find_first (job_selected runOrJobID) db of
        None \<Rightarrow> Inl (Wrap ''finding row for update'' ErrResourceNotFound)
      | Some j \<Rightarrow> (case fn j of Inl e \<Rightarrow> Inl e | Inr j' \<Rightarrow> Inr (write_job j' db, j')))"

definition allocateJob :: "TfeID \<Rightarrow> TfeID \<Rightarrow> Job list \<Rightarrow> (Job list \<times> Job) result" where
  "allocateJob jobID runnerID db = updateJob jobID (job_allocate runnerID) db"

definition reallocateJob :: "TfeID \<Rightarrow> TfeID \<Rightarrow> Job list \<Rightarrow> (Job list \<times> Job) result" where
  "reallocateJob jobID runnerID db =
     updateJob jobID
       (\<lambda>j. case job_RunnerID j of
              None \<Rightarrow> Inl (Panic ''nil pointer dereference'')
            | Some _ \<Rightarrow> job_reallocate runnerID j) db"

text \<open>The column \<open>current_jobs\<close> of a listed runner.\<close>

definition db_current_jobs :: "Job list \<Rightarrow> TfeID \<Rightarrow> int" where
  "db_current_jobs db rid =
     int (length (filter (\<lambda>j. job_RunnerID j = Some rid \<and> job_active (job_Status j)) db))"

section \<open>State and operations of the allocator\<close>

text \<open>
  Go's maps; a missing key of \<open>currentJobs\<close> reads as zero. The Prometheus gauge that mirrors
  \<open>currentJobs\<close> is left out.
\<close>

record allocator =
  alc_runners :: "TfeID \<rightharpoonup> RunnerMeta"
  alc_jobs :: "TfeID \<rightharpoonup> Job"
  alc_currentJobs :: "TfeID \<Rightarrow> int"

definition addRunner :: "RunnerMeta \<Rightarrow> allocator \<Rightarrow> allocator" where
  "addRunner r a =
     a\<lparr>alc_runners := (alc_runners a)(rn_ID r \<mapsto> r),
       alc_currentJobs := (alc_currentJobs a)(rn_ID r := rn_CurrentJobs r)\<rparr>"

definition deleteRunner :: "TfeID \<Rightarrow> allocator \<Rightarrow> allocator" where
  "deleteRunner rid a =
     a\<lparr>alc_runners := (alc_runners a)(rid := None),
       alc_currentJobs := (alc_currentJobs a)(rid := 0)\<rparr>"

definition incrementCurrentJobs :: "TfeID \<Rightarrow> allocator \<Rightarrow> allocator" where
  "incrementCurrentJobs rid a =
     a\<lparr>alc_currentJobs := (alc_currentJobs a)(rid := alc_currentJobs a rid + 1)\<rparr>"

definition decrementCurrentJobs :: "TfeID \<Rightarrow> allocator \<Rightarrow> allocator" where
  "decrementCurrentJobs rid a =
     a\<lparr>alc_currentJobs := (alc_currentJobs a)(rid := alc_currentJobs a rid - 1)\<rparr>"

definition seed :: "RunnerMeta list \<Rightarrow> Job list \<Rightarrow> allocator" where
  "seed runners jobs =
     (let a0 = \<lparr>alc_runners = Map.empty, alc_jobs = Map.empty, alc_currentJobs = (\<lambda>_. 0)\<rparr>;
          a1 = fold addRunner runners a0
      in fold (\<lambda>j a. if job_terminal (job_Status j) then a
                     else a\<lparr>alc_jobs := (alc_jobs a)(job_ID j \<mapsto> j)\<rparr>) jobs a1)"

definition runner_ready :: "RunnerMeta \<Rightarrow> bool" where
  "runner_ready r \<longleftrightarrow> rn_Status r = Some RunnerIdle \<or> rn_Status r = Some RunnerBusy"

definition pool_matches :: "Job \<Rightarrow> RunnerMeta \<Rightarrow> bool" where
  "pool_matches j r \<longleftrightarrow>
     (case (rn_AgentPool r, job_AgentPoolID j) of
        (None, Some _) \<Rightarrow> False
      | (Some _, None) \<Rightarrow> False
      | (Some p, Some pid) \<Rightarrow> pool_ID p = pid
      | (None, None) \<Rightarrow> True)"

definition insufficient_capacity :: "allocator \<Rightarrow> RunnerMeta \<Rightarrow> bool" where
  "insufficient_capacity a r \<longleftrightarrow>
     rn_ExecutorKind r = ForkExecutorKind \<and> rn_MaxJobs r = alc_currentJobs a (rn_ID r)"

text \<open>
  The loop over the runners of the cache; Go visits a map in an arbitrary order, which is the
  argument \<open>order\<close>. The candidates are then sorted by their last ping, the most recent first.
\<close>

definition available_runners :: "TfeID list \<Rightarrow> allocator \<Rightarrow> Job \<Rightarrow> RunnerMeta list" where
  "available_runners order a j =
     filter (\<lambda>r. runner_ready r \<and> pool_matches j r \<and> \<not> insufficient_capacity a r)
       (List.map_filter (alc_runners a) order)"

definition by_ping :: "RunnerMeta list \<Rightarrow> RunnerMeta list" where
  "by_ping rs = sort_key (\<lambda>r. - rn_LastPingAt r) rs"

definition place_job ::
  "bool \<Rightarrow> TfeID list \<Rightarrow> Job \<Rightarrow> allocator \<Rightarrow> Job list \<Rightarrow> allocator \<times> Job list \<times> error option" where
  "place_job reallocate order job a db =
     (case by_ping (available_runners order a job) of
        [] \<Rightarrow> (a, db, None)
      | runner # _ \<Rightarrow>
          if reallocate
          then (case job_RunnerID job of
                  None \<Rightarrow> (a, db, Some (Panic ''nil pointer dereference''))
                | Some from \<Rightarrow>
                    (case reallocateJob (job_ID job) (rn_ID runner) db of
                       Inl e \<Rightarrow> (a, db, Some e)
                     | Inr (db', updatedJob) \<Rightarrow>
                         let a1 = decrementCurrentJobs from a;
                             a2 = a1\<lparr>alc_jobs := (alc_jobs a1)(job_ID job \<mapsto> updatedJob)\<rparr>
                         in (incrementCurrentJobs (rn_ID runner) a2, db', None)))
          else (case allocateJob (job_ID job) (rn_ID runner) db of
                  Inl e \<Rightarrow> (a, db, Some e)
                | Inr (db', updatedJob) \<Rightarrow>
                    let a2 = a\<lparr>alc_jobs := (alc_jobs a)(job_ID job \<mapsto> updatedJob)\<rparr>
                    in (incrementCurrentJobs (rn_ID runner) a2, db', None)))"

definition complete_job :: "Job \<Rightarrow> allocator \<Rightarrow> allocator" where
  "complete_job job a =
     (let a1 = a\<lparr>alc_jobs := (alc_jobs a)(job_ID job := None)\<rparr>
      in case job_RunnerID job of Some rid \<Rightarrow> decrementCurrentJobs rid a1 | None \<Rightarrow> a1)"

definition allocate ::
  "TfeID list \<Rightarrow> Job \<Rightarrow> allocator \<Rightarrow> Job list \<Rightarrow> allocator \<times> Job list \<times> error option" where
  "allocate order job a db =
     (case job_Status job of
        JobAllocated \<Rightarrow>
          (case job_RunnerID job of
             None \<Rightarrow> (a, db, Some (Panic ''nil pointer dereference''))
           | Some rid \<Rightarrow>
               (case alc_runners a rid of
                  None \<Rightarrow> (a, db, Some (Errorf ''runner not found in cache''))
                | Some runner \<Rightarrow>
                    if runner_ready runner then (a, db, None)
                    else place_job True order job a db))
      | JobFinished \<Rightarrow> (complete_job job a, db, None)
      | JobCanceled \<Rightarrow> (complete_job job a, db, None)
      | JobErrored \<Rightarrow> (complete_job job a, db, None)
      | JobRunning \<Rightarrow> (a, db, None)
      | JobUnallocated \<Rightarrow> place_job False order job a db)"

text \<open>
  The loop over the cached jobs, in the order of the first components; an error ends it (and the
  allocator, which is then started again).
\<close>

fun allocate_all ::
  "(TfeID \<times> TfeID list) list \<Rightarrow> allocator \<Rightarrow> Job list \<Rightarrow> allocator \<times> Job list \<times> error option" where
  "allocate_all [] a db = (a, db, None)"
| "allocate_all ((jid, order) # rest) a db =
     (case alc_jobs a jid of
        None \<Rightarrow> allocate_all rest a db
      | Some job \<Rightarrow>
          (case allocate order job a db of
             (a', db', None) \<Rightarrow> allocate_all rest a' db'
           | (a', db', Some e) \<Rightarrow> (a', db', Some e)))"

datatype runner_event =
  RunnerCreatedEvent TfeID | RunnerUpdatedEvent TfeID RunnerStatus | RunnerDeletedEvent TfeID

datatype job_event =
  JobCreatedEvent TfeID | JobUpdatedEvent TfeID JobStatus | JobDeletedEvent TfeID

definition on_runner_event ::
  "(TfeID \<Rightarrow> RunnerMeta result) \<Rightarrow> runner_event \<Rightarrow> allocator \<Rightarrow> allocator result" where
  "on_runner_event getRunner ev a =
     (case ev of
        RunnerCreatedEvent rid \<Rightarrow>
          (case getRunner rid of Inl e \<Rightarrow> Inl e | Inr runner \<Rightarrow> Inr (addRunner runner a))
      | RunnerUpdatedEvent rid status \<Rightarrow>
          (case alc_runners a rid of
             None \<Rightarrow> Inl (Errorf ''existing runner not found'')
           | Some runner \<Rightarrow>
               Inr (a\<lparr>alc_runners := (alc_runners a)(rid \<mapsto> runner\<lparr>rn_Status := Some status\<rparr>)\<rparr>))
      | RunnerDeletedEvent rid \<Rightarrow> Inr (deleteRunner rid a))"

definition on_job_event ::
  "(TfeID \<Rightarrow> Job result) \<Rightarrow> job_event \<Rightarrow> allocator \<Rightarrow> allocator result" where
  "on_job_event getJob ev a =
     (case ev of
        JobDeletedEvent jid \<Rightarrow>
          let a1 = (case alc_jobs a jid of
                      Some job \<Rightarrow> (case job_RunnerID job of
                                     Some rid \<Rightarrow> decrementCurrentJobs rid a | None \<Rightarrow> a)
                    | None \<Rightarrow> a)
          in Inr (a1\<lparr>alc_jobs := (alc_jobs a1)(jid := None)\<rparr>)
      | JobCreatedEvent jid \<Rightarrow>
          (case getJob jid of
             Inl e \<Rightarrow> Inl e | Inr job \<Rightarrow> Inr (a\<lparr>alc_jobs := (alc_jobs a)(jid \<mapsto> job)\<rparr>))
      | JobUpdatedEvent jid status \<Rightarrow>
          (case alc_jobs a jid of
             None \<Rightarrow> Inl (Errorf ''existing job not found'')
           | Some job \<Rightarrow> Inr (a\<lparr>alc_jobs := (alc_jobs a)(jid \<mapsto> job\<lparr>job_Status := status\<rparr>)\<rparr>)))"

section \<open>Lemmas: the choice of a runner\<close>

lemma set_by_ping [simp]: "set (by_ping rs) = set rs"
  by (simp add: by_ping_def)

lemma by_ping_hd:
  assumes "by_ping rs = r # rest" "r' \<in> set rs"
  shows "rn_LastPingAt r' \<le> rn_LastPingAt r"
proof -
  have "sorted (map (\<lambda>r. - rn_LastPingAt r) (r # rest))"
    unfolding assms(1) [symmetric] by (simp add: by_ping_def)
  moreover have "r' \<in> set (r # rest)" using assms by (metis set_by_ping)
  ultimately show ?thesis by auto
qed

lemma available_runners_iff:
  "r \<in> set (available_runners order a j) \<longleftrightarrow>
     (\<exists>rid \<in> set order. alc_runners a rid = Some r) \<and> runner_ready r \<and> pool_matches j r \<and>
     \<not> insufficient_capacity a r"
  by (auto simp: available_runners_def List.map_filter_def) force

section \<open>The invariant of allocator and tables\<close>

text \<open>The cached jobs that are assigned to a runner.\<close>

definition cached_of :: "(TfeID \<rightharpoonup> Job) \<Rightarrow> TfeID \<Rightarrow> TfeID set" where
  "cached_of jobs rid = {jid. \<exists>c. jobs jid = Some c \<and> job_RunnerID c = Some rid}"

lemma cached_of_sub: "cached_of jobs rid \<subseteq> dom jobs"
  by (auto simp: cached_of_def)

lemma cached_of_upd:
  "cached_of (jobs(jid \<mapsto> u)) rid =
     (if job_RunnerID u = Some rid then insert jid (cached_of jobs rid)
      else cached_of jobs rid - {jid})"
  by (auto simp: cached_of_def split: if_splits)

lemma cached_of_del: "cached_of (jobs(jid := None)) rid = cached_of jobs rid - {jid}"
  by (auto simp: cached_of_def split: if_splits)

text \<open>The rows of the table of jobs.\<close>

definition jobs_db_ok :: "Job list \<Rightarrow> bool" where
  "jobs_db_ok db \<longleftrightarrow>
     distinct (map job_ID db) \<and>
     (\<forall>j \<in> set db. job_wf j \<and> tfe_kind (job_ID j) = JobKind \<and> tfe_kind (job_RunID j) = RunKind)"

text \<open>How the cache of jobs relates to the table: the cache may lag behind, but never on the runner
  of a job, and it never takes a job for finished that is not.\<close>

definition jobs_cache_ok :: "allocator \<Rightarrow> Job list \<Rightarrow> bool" where
  "jobs_cache_ok a db \<longleftrightarrow>
     finite (dom (alc_jobs a)) \<and>
     (\<forall>jid c. alc_jobs a jid = Some c \<longrightarrow> job_ID c = jid \<and> tfe_kind jid = JobKind) \<and>
     (\<forall>j \<in> set db. job_active (job_Status j) \<longrightarrow> alc_jobs a (job_ID j) \<noteq> None) \<and>
     (\<forall>j \<in> set db. \<forall>c. alc_jobs a (job_ID j) = Some c \<longrightarrow>
        job_RunnerID c = job_RunnerID j \<and> (job_terminal (job_Status c) \<longrightarrow> job_terminal (job_Status j)))"

definition tallies_ok :: "allocator \<Rightarrow> bool" where
  "tallies_ok a \<longleftrightarrow>
     (\<forall>rid r. alc_runners a rid = Some r \<longrightarrow>
        rn_ID r = rid \<and> alc_currentJobs a rid = int (card (cached_of (alc_jobs a) rid)) \<and>
        (rn_ExecutorKind r = ForkExecutorKind \<longrightarrow> alc_currentJobs a rid \<le> rn_MaxJobs r))"

definition runners_ok :: "allocator \<Rightarrow> RunnerMeta list \<Rightarrow> bool" where
  "runners_ok a tbl \<longleftrightarrow>
     distinct (map rn_ID tbl) \<and>
     (\<forall>m \<in> set tbl. \<forall>r. alc_runners a (rn_ID m) = Some r \<longrightarrow>
        rn_MaxJobs r = rn_MaxJobs m \<and> rn_ExecutorKind r = rn_ExecutorKind m)"

definition capacity_ok :: "RunnerMeta list \<Rightarrow> Job list \<Rightarrow> bool" where
  "capacity_ok tbl db \<longleftrightarrow>
     (\<forall>m \<in> set tbl. rn_ExecutorKind m = ForkExecutorKind \<longrightarrow>
        db_current_jobs db (rn_ID m) \<le> rn_MaxJobs m)"

definition alloc_inv :: "allocator \<Rightarrow> Job list \<Rightarrow> RunnerMeta list \<Rightarrow> bool" where
  "alloc_inv a db tbl \<longleftrightarrow>
     jobs_db_ok db \<and> jobs_cache_ok a db \<and> tallies_ok a \<and> runners_ok a tbl \<and> capacity_ok tbl db"

lemma db_current_jobs_le_cached:
  assumes "jobs_db_ok db" "jobs_cache_ok a db"
  shows "db_current_jobs db rid \<le> int (card (cached_of (alc_jobs a) rid))"
proof -
  let ?js = "filter (\<lambda>j. job_RunnerID j = Some rid \<and> job_active (job_Status j)) db"
  have "distinct (map job_ID ?js)"
    using assms(1) by (simp add: jobs_db_ok_def distinct_map_filter)
  then have "length ?js = card (set (map job_ID ?js))" using distinct_card by fastforce
  moreover have "set (map job_ID ?js) \<subseteq> cached_of (alc_jobs a) rid"
    using assms(2) by (fastforce simp: jobs_cache_ok_def cached_of_def)
  moreover have "finite (cached_of (alc_jobs a) rid)"
    using assms(2) cached_of_sub finite_subset by (fastforce simp: jobs_cache_ok_def)
  ultimately show ?thesis using card_mono by (fastforce simp: db_current_jobs_def)
qed

text \<open>For a runner in the cache the capacity of the table follows from the cache.\<close>

lemma capacity_from_cache:
  assumes "jobs_db_ok db" "jobs_cache_ok a db" "tallies_ok a" "runners_ok a tbl"
    and "m \<in> set tbl" "alc_runners a (rn_ID m) = Some r" "rn_ExecutorKind m = ForkExecutorKind"
  shows "db_current_jobs db (rn_ID m) \<le> rn_MaxJobs m"
  using db_current_jobs_le_cached [OF assms(1,2), of "rn_ID m"] assms(3-)
  by (fastforce simp: tallies_ok_def runners_ok_def)

lemma find_job:
  assumes "jobs_db_ok db" "tfe_kind jid = JobKind" "find_first (job_selected jid) db = Some j"
  shows "j \<in> set db" "job_ID j = jid"
proof -
  show "j \<in> set db" using assms(3) by (rule find_first_SomeD [THEN conjunct1])
  with assms find_first_SomeD [OF assms(3)] show "job_ID j = jid"
    by (auto simp: jobs_db_ok_def job_selected_def kind_defs)
qed

lemma job_ID_write_job: "map job_ID (write_job u db) = map job_ID db"
  by (induction db) (simp_all add: write_job_def)

lemma set_write_job:
  assumes "distinct (map job_ID db)" "j \<in> set db" "u = j\<lparr>job_Status := st, job_RunnerID := rn\<rparr>"
  shows "x \<in> set (write_job u db) \<longleftrightarrow> x = u \<or> x \<in> set db \<and> job_ID x \<noteq> job_ID j"
proof
  assume "x \<in> set (write_job u db)"
  then obtain y where y: "y \<in> set db" "x = (if job_ID y = job_ID u
     then y\<lparr>job_Status := job_Status u, job_RunnerID := job_RunnerID u\<rparr> else y)"
    by (auto simp: write_job_def)
  show "x = u \<or> x \<in> set db \<and> job_ID x \<noteq> job_ID j"
  proof (cases "job_ID y = job_ID j")
    case True
    with assms y(1) have "y = j" by (meson distinct_map inj_onD)
    with y assms(3) show ?thesis by simp
  next
    case False
    with y assms(3) show ?thesis by simp
  qed
next
  assume "x = u \<or> x \<in> set db \<and> job_ID x \<noteq> job_ID j"
  then show "x \<in> set (write_job u db)"
  proof
    assume "x = u"
    then have "x = (if job_ID j = job_ID u
       then j\<lparr>job_Status := job_Status u, job_RunnerID := job_RunnerID u\<rparr> else j)"
      using assms(3) by simp
    with assms(2) show ?thesis unfolding write_job_def by (rule rev_image_eqI [of j, THEN
      iffD2 [OF arg_cong [where f = "\<lambda>S. x \<in> S", OF set_map]]])
  next
    assume "x \<in> set db \<and> job_ID x \<noteq> job_ID j"
    with assms(3) show ?thesis by (force simp: write_job_def)
  qed
qed

section \<open>Allocation keeps the invariant\<close>

text \<open>The tallies after a job moves from its runner, if any, to another.\<close>

definition move_tally :: "(TfeID \<Rightarrow> int) \<Rightarrow> TfeID option \<Rightarrow> TfeID \<Rightarrow> TfeID \<Rightarrow> int" where
  "move_tally cur from to =
     (let c0 = (case from of None \<Rightarrow> cur | Some f \<Rightarrow> cur(f := cur f - 1))
      in c0(to := c0 to + 1))"

definition assigned ::
  "Job \<Rightarrow> RunnerMeta \<Rightarrow> allocator \<Rightarrow> Job list \<Rightarrow> allocator \<Rightarrow> Job list \<Rightarrow> bool" where
  "assigned j r a db a' db' \<longleftrightarrow>
     (let u = j\<lparr>job_Status := JobAllocated, job_RunnerID := Some (rn_ID r)\<rparr>
      in j \<in> set db \<and> job_Status j \<in> {JobUnallocated, JobAllocated} \<and>
         db' = write_job u db \<and> alc_jobs a' = (alc_jobs a)(job_ID j \<mapsto> u) \<and>
         alc_runners a' = alc_runners a \<and>
         alc_currentJobs a' = move_tally (alc_currentJobs a) (job_RunnerID j) (rn_ID r))"

lemma allocateJob_ok:
  assumes "jobs_db_ok db" "tfe_kind jid = JobKind" "allocateJob jid rid db = Inr (db', u)"
  obtains j where "j \<in> set db" "job_ID j = jid" "job_Status j = JobUnallocated"
    "u = j\<lparr>job_Status := JobAllocated, job_RunnerID := Some rid\<rparr>" "db' = write_job u db"
proof -
  from assms(3) obtain j where j: "find_first (job_selected jid) db = Some j"
    "job_allocate rid j = Inr u" "db' = write_job u db"
    by (auto simp: allocateJob_def updateJob_def split: option.splits sum.splits)
  from j(2) have "job_Status j = JobUnallocated" "u = j\<lparr>job_Status := JobAllocated, job_RunnerID := Some rid\<rparr>"
    by (cases "job_Status j"; simp add: job_defs)+
  with that find_job [OF assms(1,2) j(1)] j(3) show ?thesis by blast
qed

lemma reallocateJob_ok:
  assumes "jobs_db_ok db" "tfe_kind jid = JobKind" "reallocateJob jid rid db = Inr (db', u)"
  obtains j where "j \<in> set db" "job_ID j = jid" "job_Status j = JobAllocated"
    "u = j\<lparr>job_Status := JobAllocated, job_RunnerID := Some rid\<rparr>" "db' = write_job u db"
proof -
  from assms(3) obtain j where j: "find_first (job_selected jid) db = Some j"
    "job_reallocate rid j = Inr u" "db' = write_job u db"
    by (auto simp: reallocateJob_def updateJob_def split: option.splits sum.splits)
  from j(2) have "job_Status j = JobAllocated" "u = j\<lparr>job_Status := JobAllocated, job_RunnerID := Some rid\<rparr>"
    by (auto simp: job_defs split: if_splits)
  with that find_job [OF assms(1,2) j(1)] j(3) show ?thesis by blast
qed

lemma place_job_cases:
  assumes "jobs_db_ok db" "jobs_cache_ok a db" "alc_jobs a jid = Some job"
    and "place_job re order job a db = (a', db', e)"
  shows "a' = a \<and> db' = db \<or>
    (\<exists>r j. e = None \<and> by_ping (available_runners order a job) \<noteq> [] \<and>
       r = hd (by_ping (available_runners order a job)) \<and> job_ID j = jid \<and>
       assigned j r a db a' db')"
proof (cases "by_ping (available_runners order a job)")
  case Nil
  with assms(4) show ?thesis by (simp add: place_job_def)
next
  case (Cons r rest)
  have jid: "job_ID job = jid" "tfe_kind jid = JobKind"
    using assms(2,3) by (auto simp: jobs_cache_ok_def)
  have same: "job_RunnerID job = job_RunnerID j" if "j \<in> set db" "job_ID j = jid" for j
    using assms(2,3) that by (auto simp: jobs_cache_ok_def)
  have none: "job_RunnerID j = None" if "j \<in> set db" "job_Status j = JobUnallocated" for j
    using assms(1) that by (auto simp: jobs_db_ok_def job_wf_def)
  show ?thesis
  proof (cases re)
    case True
    show ?thesis
    proof (cases "\<exists>f db'' u. job_RunnerID job = Some f \<and> reallocateJob jid (rn_ID r) db = Inr (db'', u)")
      case False
      with True Cons assms(4) jid show ?thesis
        by (auto simp: place_job_def split: option.splits sum.splits)
    next
      case True
      then obtain f db'' u where fu: "job_RunnerID job = Some f"
        "reallocateJob jid (rn_ID r) db = Inr (db'', u)" by blast
      from reallocateJob_ok [OF assms(1) jid(2) fu(2)] obtain j where j: "j \<in> set db" "job_ID j = jid"
        "job_Status j = JobAllocated"
        "u = j\<lparr>job_Status := JobAllocated, job_RunnerID := Some (rn_ID r)\<rparr>" "db'' = write_job u db" .
      have "e = None \<and> assigned j r a db a' db'"
        using assms(4) Cons \<open>re\<close> fu jid j(1-3,5) same [OF j(1,2)]
        by (auto simp: place_job_def assigned_def Let_def move_tally_def decrementCurrentJobs_def
            incrementCurrentJobs_def j(4))
      with Cons j(2) show ?thesis by auto
    qed
  next
    case False
    show ?thesis
    proof (cases "allocateJob jid (rn_ID r) db")
      case (Inl err)
      with False Cons assms(4) jid show ?thesis by (simp add: place_job_def)
    next
      case (Inr res)
      obtain db'' u where res: "res = (db'', u)" by (cases res)
      from allocateJob_ok [OF assms(1) jid(2) Inr [unfolded res]] obtain j where j: "j \<in> set db"
        "job_ID j = jid" "job_Status j = JobUnallocated"
        "u = j\<lparr>job_Status := JobAllocated, job_RunnerID := Some (rn_ID r)\<rparr>" "db'' = write_job u db" .
      have "e = None \<and> assigned j r a db a' db'"
        using assms(4) Cons False Inr res jid j(1-3,5) none [OF j(1,3)]
        by (auto simp: place_job_def assigned_def Let_def move_tally_def incrementCurrentJobs_def j(4))
      with Cons j(2) show ?thesis by auto
    qed
  qed
qed

lemma write_job_ok:
  assumes "jobs_db_ok db" "j \<in> set db" "job_wf (j\<lparr>job_Status := st, job_RunnerID := rn\<rparr>)"
  shows "jobs_db_ok (write_job (j\<lparr>job_Status := st, job_RunnerID := rn\<rparr>) db)"
proof -
  let ?u = "j\<lparr>job_Status := st, job_RunnerID := rn\<rparr>"
  have "job_wf x \<and> tfe_kind (job_ID x) = JobKind \<and> tfe_kind (job_RunID x) = RunKind"
    if "x \<in> set (write_job ?u db)" for x
    using that assms set_write_job [of db j ?u, where st = st and rn = rn and x = x] by (auto simp: jobs_db_ok_def)
  with assms(1) show ?thesis by (simp add: jobs_db_ok_def job_ID_write_job)
qed

lemma assigned_db_ok: "jobs_db_ok db \<Longrightarrow> assigned j r a db a' db' \<Longrightarrow> jobs_db_ok db'"
  using write_job_ok [of db j, where st = JobAllocated and rn = "Some (rn_ID r)"]
  by (simp add: assigned_def Let_def job_wf_def)

lemma assigned_cache_ok:
  assumes "jobs_db_ok db" "jobs_cache_ok a db" "assigned j r a db a' db'"
  shows "jobs_cache_ok a' db'"
proof -
  let ?u = "j\<lparr>job_Status := JobAllocated, job_RunnerID := Some (rn_ID r)\<rparr>"
  have j: "j \<in> set db" "db' = write_job ?u db" "alc_jobs a' = (alc_jobs a)(job_ID j \<mapsto> ?u)"
    using assms(3) by (simp_all add: assigned_def Let_def)
  have d: "distinct (map job_ID db)" using assms(1) by (simp add: jobs_db_ok_def)
  note rows = set_write_job [OF d j(1) refl, where st = JobAllocated and rn = "Some (rn_ID r)"]
  have kind: "tfe_kind (job_ID j) = JobKind" using assms(1) j(1) by (simp add: jobs_db_ok_def)
  show ?thesis
    using assms(2) kind unfolding jobs_cache_ok_def j(2,3) by (auto simp: rows split: if_splits)
qed

lemma assigned_tallies:
  assumes "jobs_cache_ok a db" "tallies_ok a" "assigned j r a db a' db'"
    and "alc_jobs a (job_ID j) \<noteq> None" "alc_runners a (rn_ID r) = Some r"
    and "\<not> insufficient_capacity a r"
  shows "tallies_ok a'"
proof -
  let ?u = "j\<lparr>job_Status := JobAllocated, job_RunnerID := Some (rn_ID r)\<rparr>"
  have j: "j \<in> set db" "alc_jobs a' = (alc_jobs a)(job_ID j \<mapsto> ?u)" "alc_runners a' = alc_runners a"
    "alc_currentJobs a' = move_tally (alc_currentJobs a) (job_RunnerID j) (rn_ID r)"
    using assms(3) by (simp_all add: assigned_def Let_def)
  obtain c where c: "alc_jobs a (job_ID j) = Some c" using assms(4) by auto
  have rc: "job_RunnerID c = job_RunnerID j" using assms(1) j(1) c by (auto simp: jobs_cache_ok_def)
  have mem: "job_ID j \<in> cached_of (alc_jobs a) rid \<longleftrightarrow> job_RunnerID j = Some rid" for rid
    using c rc by (auto simp: cached_of_def)
  have fin: "finite (cached_of (alc_jobs a) rid)" for rid
    using assms(1) cached_of_sub finite_subset by (fastforce simp: jobs_cache_ok_def)
  have "rn_ID x = rid \<and>
      alc_currentJobs a' rid = int (card (cached_of (alc_jobs a') rid)) \<and>
      (rn_ExecutorKind x = ForkExecutorKind \<longrightarrow> alc_currentJobs a' rid \<le> rn_MaxJobs x)"
    if x: "alc_runners a' rid = Some x" for rid x
  proof -
    have old: "rn_ID x = rid" "alc_currentJobs a rid = int (card (cached_of (alc_jobs a) rid))"
      "rn_ExecutorKind x = ForkExecutorKind \<Longrightarrow> alc_currentJobs a rid \<le> rn_MaxJobs x"
      using assms(2) x j(3) unfolding tallies_ok_def by simp_all metis
    have nonempty: "job_RunnerID j = Some rid \<Longrightarrow> 0 < card (cached_of (alc_jobs a) rid)"
      using mem fin by (auto simp: card_gt_0_iff)
    have card: "alc_currentJobs a' rid = int (card (cached_of (alc_jobs a') rid))"
      using nonempty old(2) unfolding j(2,4) cached_of_upd
      by (auto simp: move_tally_def Let_def mem fin card_insert_if split: option.splits)
    have "alc_currentJobs a' rid \<le> rn_MaxJobs x" if fork: "rn_ExecutorKind x = ForkExecutorKind"
    proof (cases "rid = rn_ID r")
      case True
      with x j(3) assms(5) have "x = r" by simp
      with fork True assms(6) old(3) have "alc_currentJobs a rid < rn_MaxJobs x"
        by (auto simp: insufficient_capacity_def)
      then show ?thesis using True unfolding j(4) by (auto simp: move_tally_def Let_def split: option.splits)
    next
      case False
      with fork old(3) show ?thesis
        unfolding j(4) by (auto simp: move_tally_def Let_def split: option.splits)
    qed
    with card old(1) show ?thesis by simp
  qed
  then show ?thesis unfolding tallies_ok_def by blast
qed

lemma assigned_other_runner:
  assumes "jobs_db_ok db" "assigned j r a db a' db'" "rid \<noteq> rn_ID r"
  shows "db_current_jobs db' rid \<le> db_current_jobs db rid"
proof -
  let ?u = "j\<lparr>job_Status := JobAllocated, job_RunnerID := Some (rn_ID r)\<rparr>"
  let ?P = "\<lambda>j. job_RunnerID j = Some rid \<and> job_active (job_Status j)"
  have "length (filter ?P (write_job ?u db)) \<le> length (filter ?P db)"
    using assms(3) by (induction db) (auto simp: write_job_def)
  with assms(2) show ?thesis by (simp add: assigned_def Let_def db_current_jobs_def)
qed

lemma assigned_inv:
  assumes "alloc_inv a db tbl" "assigned j r a db a' db'" "alc_jobs a (job_ID j) \<noteq> None"
    and "alc_runners a (rn_ID r) = Some r" "\<not> insufficient_capacity a r"
  shows "alloc_inv a' db' tbl"
proof -
  have inv: "jobs_db_ok db" "jobs_cache_ok a db" "tallies_ok a" "runners_ok a tbl" "capacity_ok tbl db"
    using assms(1) by (simp_all add: alloc_inv_def)
  have run: "alc_runners a' = alc_runners a" using assms(2) by (simp add: assigned_def Let_def)
  note new = assigned_db_ok [OF inv(1) assms(2)] assigned_cache_ok [OF inv(1,2) assms(2)]
    assigned_tallies [OF inv(2,3) assms(2-)]
  have runners: "runners_ok a' tbl" using inv(4) by (simp add: runners_ok_def run)
  have "capacity_ok tbl db'"
    unfolding capacity_ok_def
  proof (intro ballI impI)
    fix m
    assume m: "m \<in> set tbl" "rn_ExecutorKind m = ForkExecutorKind"
    show "db_current_jobs db' (rn_ID m) \<le> rn_MaxJobs m"
    proof (cases "rn_ID m = rn_ID r")
      case True
      with assms(4) run have "alc_runners a' (rn_ID m) = Some r" by simp
      then show ?thesis using capacity_from_cache [OF new runners m(1) _ m(2)] by blast
    next
      case False
      with assigned_other_runner [OF inv(1) assms(2)] inv(5) m show ?thesis
        by (force simp: capacity_ok_def)
    qed
  qed
  with new runners show ?thesis by (simp add: alloc_inv_def)
qed

text \<open>Forgetting a cached job whose row, if it still exists, is finished.\<close>

definition forget_job :: "TfeID \<Rightarrow> Job \<Rightarrow> allocator \<Rightarrow> allocator" where
  "forget_job jid job a =
     (let a1 = (case job_RunnerID job of Some rid \<Rightarrow> decrementCurrentJobs rid a | None \<Rightarrow> a)
      in a1\<lparr>alc_jobs := (alc_jobs a1)(jid := None)\<rparr>)"

lemma complete_job_forget: "complete_job job a = forget_job (job_ID job) job a"
  by (simp add: complete_job_def forget_job_def decrementCurrentJobs_def split: option.splits)

lemma forget_job_tallies:
  assumes "finite (dom (alc_jobs a))" "tallies_ok a" "alc_jobs a jid = Some job"
  shows "tallies_ok (forget_job jid job a)"
proof -
  have fin: "finite (cached_of (alc_jobs a) rid)" for rid
    using assms(1) cached_of_sub finite_subset by blast
  have mem: "jid \<in> cached_of (alc_jobs a) rid \<longleftrightarrow> job_RunnerID job = Some rid" for rid
    using assms(3) by (auto simp: cached_of_def)
  have tally: "alc_currentJobs (forget_job jid job a) rid =
      alc_currentJobs a rid - (if job_RunnerID job = Some rid then 1 else 0)" for rid
    by (auto simp: forget_job_def Let_def decrementCurrentJobs_def split: option.splits)
  have "int (card (cached_of (alc_jobs (forget_job jid job a)) rid)) =
      int (card (cached_of (alc_jobs a) rid)) - (if job_RunnerID job = Some rid then 1 else 0)" for rid
    using mem [of rid] fin [of rid]
    by (auto simp: forget_job_def Let_def decrementCurrentJobs_def cached_of_del card_Diff_singleton_if
        card_gt_0_iff int_ops Suc_le_eq split: option.splits)
  moreover have "alc_runners (forget_job jid job a) = alc_runners a"
    by (simp add: forget_job_def Let_def decrementCurrentJobs_def split: option.splits)
  ultimately show ?thesis using assms(2) unfolding tallies_ok_def by (force simp: tally)
qed

lemma forget_job_inv:
  assumes "alloc_inv a db tbl" "alc_jobs a jid = Some job"
    and "\<And>j. j \<in> set db \<Longrightarrow> job_ID j = jid \<Longrightarrow> job_terminal (job_Status j)"
  shows "alloc_inv (forget_job jid job a) db tbl"
proof -
  have jobs: "alc_jobs (forget_job jid job a) = (alc_jobs a)(jid := None)"
    and runners: "alc_runners (forget_job jid job a) = alc_runners a"
    by (simp_all add: forget_job_def Let_def decrementCurrentJobs_def split: option.splits)
  have inv: "jobs_db_ok db" "jobs_cache_ok a db" "tallies_ok a" "runners_ok a tbl" "capacity_ok tbl db"
    using assms(1) by (simp_all add: alloc_inv_def)
  have "job_terminal s \<Longrightarrow> \<not> job_active s" for s by (cases s) simp_all
  then have "jobs_cache_ok (forget_job jid job a) db"
    using inv(2) assms(3) unfolding jobs_cache_ok_def jobs by (auto split: if_splits)
  moreover have "tallies_ok (forget_job jid job a)"
    using inv(2,3) assms(2) by (intro forget_job_tallies) (auto simp: jobs_cache_ok_def)
  ultimately show ?thesis
    using inv by (simp add: alloc_inv_def runners_ok_def runners)
qed

lemma allocate_inv:
  assumes "alloc_inv a db tbl" "alc_jobs a jid = Some job" "allocate order job a db = (a', db', e)"
  shows "alloc_inv a' db' tbl"
proof -
  have inv: "jobs_db_ok db" "jobs_cache_ok a db" "tallies_ok a"
    using assms(1) by (simp_all add: alloc_inv_def)
  have place: "alloc_inv a' db' tbl" if p: "place_job re order job a db = (a', db', e)" for re
  proof (cases "a' = a \<and> db' = db")
    case True
    with assms(1) show ?thesis by simp
  next
    case False
    with place_job_cases [OF inv(1,2) assms(2) p] obtain r j where r:
      "by_ping (available_runners order a job) \<noteq> []"
      "r = hd (by_ping (available_runners order a job))" "job_ID j = jid" "assigned j r a db a' db'"
      by blast
    from r(1,2) have "r \<in> set (available_runners order a job)"
      by (metis hd_in_set set_by_ping)
    then obtain rid where "alc_runners a rid = Some r" "\<not> insufficient_capacity a r"
      by (auto simp: available_runners_iff)
    moreover from this inv(3) have "rn_ID r = rid" unfolding tallies_ok_def by blast
    ultimately show ?thesis using assigned_inv [OF assms(1) r(4)] r(3) assms(2) by simp
  qed
  have jid: "job_ID job = jid" using inv(2) assms(2) by (simp add: jobs_cache_ok_def)
  have terminal: "alloc_inv (complete_job job a) db tbl" if "job_terminal (job_Status job)"
    unfolding complete_job_forget jid
    using assms(1,2) that inv(2) by (intro forget_job_inv) (auto simp: jobs_cache_ok_def)
  from assms(3) consider "a' = a" "db' = db" | re where "place_job re order job a db = (a', db', e)"
    | "job_terminal (job_Status job)" "a' = complete_job job a" "db' = db"
    by (cases "job_Status job") (auto simp: allocate_def split: option.splits if_splits)
  then show ?thesis
    by cases (use assms(1) place terminal in simp_all)
qed

lemma allocate_all_inv:
  "alloc_inv a db tbl \<Longrightarrow> allocate_all js a db = (a', db', e) \<Longrightarrow> alloc_inv a' db' tbl"
proof (induction js a db rule: allocate_all.induct)
  case (1 a db)
  then show ?case by simp
next
  case (2 jid order rest a db)
  show ?case
  proof (cases "alc_jobs a jid")
    case None
    with 2 show ?thesis by simp
  next
    case (Some job)
    obtain a1 db1 e1 where al: "allocate order job a db = (a1, db1, e1)" by (cases "allocate order job a db")
    from allocate_inv [OF 2(3) Some al] have inv1: "alloc_inv a1 db1 tbl" .
    show ?thesis
    proof (cases e1)
      case None
      with 2(2) [OF Some al [symmetric]] inv1 2(4) Some al show ?thesis by simp
    next
      case (Some err)
      with 2(4) \<open>alc_jobs a jid = Some job\<close> al inv1 show ?thesis by simp
    qed
  qed
qed

section \<open>Seeding and events\<close>

text \<open>The runners as \<open>ListRunners\<close> reports them, with their current number of jobs.\<close>

definition list_runners :: "RunnerMeta list \<Rightarrow> Job list \<Rightarrow> RunnerMeta list" where
  "list_runners tbl db = map (\<lambda>m. m\<lparr>rn_CurrentJobs := db_current_jobs db (rn_ID m)\<rparr>) tbl"

definition db_getJob :: "Job list \<Rightarrow> TfeID \<Rightarrow> Job result" where
  "db_getJob db jid =
     (case find_first (\<lambda>j. job_ID j = jid) db of Some j \<Rightarrow> Inr j | None \<Rightarrow> Inl ErrResourceNotFound)"

definition db_getRunner :: "RunnerMeta list \<Rightarrow> Job list \<Rightarrow> TfeID \<Rightarrow> RunnerMeta result" where
  "db_getRunner tbl db rid =
     (case find_first (\<lambda>m. rn_ID m = rid) (list_runners tbl db) of
        Some m \<Rightarrow> Inr m | None \<Rightarrow> Inl ErrResourceNotFound)"

lemma fold_addRunner:
  "distinct (map rn_ID rs) \<Longrightarrow>
   alc_runners (fold addRunner rs a) rid =
     (case find_first (\<lambda>r. rn_ID r = rid) rs of Some r \<Rightarrow> Some r | None \<Rightarrow> alc_runners a rid) \<and>
   alc_currentJobs (fold addRunner rs a) rid =
     (case find_first (\<lambda>r. rn_ID r = rid) rs of Some r \<Rightarrow> rn_CurrentJobs r
      | None \<Rightarrow> alc_currentJobs a rid) \<and>
   alc_jobs (fold addRunner rs a) = alc_jobs a"
proof (induction rs arbitrary: a)
  case Nil
  then show ?case by simp
next
  case (Cons r rs)
  have "find_first (\<lambda>x. rn_ID x = rn_ID r) rs = None"
    using Cons.prems by (auto simp: find_first_None_iff image_iff)
  with Cons show ?case by (auto simp: addRunner_def split: option.splits)
qed

definition seed_jobs :: "Job list \<Rightarrow> allocator \<Rightarrow> allocator" where
  "seed_jobs jobs a = fold (\<lambda>j a. if job_terminal (job_Status j) then a
      else a\<lparr>alc_jobs := (alc_jobs a)(job_ID j \<mapsto> j)\<rparr>) jobs a"

lemma seed_jobs_fields:
  "distinct (map job_ID js) \<Longrightarrow>
   alc_runners (seed_jobs js a) = alc_runners a \<and> alc_currentJobs (seed_jobs js a) = alc_currentJobs a \<and>
   alc_jobs (seed_jobs js a) jid =
     (case find_first (\<lambda>j. job_ID j = jid \<and> \<not> job_terminal (job_Status j)) js of
        Some j \<Rightarrow> Some j | None \<Rightarrow> alc_jobs a jid)"
proof (induction js arbitrary: a)
  case Nil
  then show ?case by (simp add: seed_jobs_def)
next
  case (Cons j js)
  have "find_first (\<lambda>x. job_ID x = job_ID j \<and> \<not> job_terminal (job_Status x)) js = None"
    using Cons.prems by (auto simp: find_first_None_iff image_iff)
  with Cons show ?case by (auto simp: seed_jobs_def split: option.splits)
qed

lemma find_first_unique:
  assumes "distinct (map key xs)" "x \<in> set xs" "Q x"
  shows "find_first (\<lambda>y. key y = key x \<and> Q y) xs = Some x"
  using assms by (induction xs) auto

lemma alc_jobs_fold [simp]: "alc_jobs (fold addRunner rs a) = alc_jobs a"
  by (induction rs arbitrary: a) (simp_all add: addRunner_def)

lemma seed_cache:
  assumes "distinct (map job_ID db)"
  shows "alc_jobs (seed rs db) jid = Some j \<longleftrightarrow>
           j \<in> set db \<and> job_ID j = jid \<and> \<not> job_terminal (job_Status j)"
proof -
  have "alc_jobs (seed rs db) jid =
      (case find_first (\<lambda>j. job_ID j = jid \<and> \<not> job_terminal (job_Status j)) db of
         Some j \<Rightarrow> Some j | None \<Rightarrow> None)"
    using seed_jobs_fields [OF assms]
    by (simp add: seed_def Let_def seed_jobs_def [symmetric] split: option.splits)
  then show ?thesis
    using find_first_unique [OF assms, of j "\<lambda>j. \<not> job_terminal (job_Status j)"]
    by (cases "job_terminal (job_Status j)") (auto split: option.splits dest: find_first_SomeD)
qed

lemma seed_runners:
  assumes "distinct (map job_ID db)" "distinct (map rn_ID tbl)"
    and "alc_runners (seed (list_runners tbl db) db) rid = Some r"
  shows "\<exists>m \<in> set tbl. rn_ID m = rid \<and> r = m\<lparr>rn_CurrentJobs := db_current_jobs db rid\<rparr> \<and>
    alc_currentJobs (seed (list_runners tbl db) db) rid = db_current_jobs db rid"
proof -
  have ids: "map rn_ID (list_runners tbl db) = map rn_ID tbl" by (simp add: list_runners_def)
  let ?a0 = "\<lparr>alc_runners = Map.empty, alc_jobs = Map.empty, alc_currentJobs = (\<lambda>_. 0)\<rparr>"
  have s: "alc_runners (seed (list_runners tbl db) db) = alc_runners (fold addRunner (list_runners tbl db) ?a0)"
    "alc_currentJobs (seed (list_runners tbl db) db) = alc_currentJobs (fold addRunner (list_runners tbl db) ?a0)"
    using seed_jobs_fields [OF assms(1)] by (simp_all add: seed_def Let_def seed_jobs_def [symmetric])
  have "find_first (\<lambda>r. rn_ID r = rid) (list_runners tbl db) = Some r"
    and cur: "alc_currentJobs (seed (list_runners tbl db) db) rid = rn_CurrentJobs r"
    using assms(3) fold_addRunner [of "list_runners tbl db" ?a0 rid] assms(2)
    unfolding s ids [symmetric] by (auto split: option.splits)
  from find_first_SomeD [OF this(1)] cur show ?thesis by (auto simp: list_runners_def)
qed

lemma seed_inv:
  assumes "jobs_db_ok db" "distinct (map rn_ID tbl)" "capacity_ok tbl db"
  shows "alloc_inv (seed (list_runners tbl db) db) db tbl"
proof -
  let ?a = "seed (list_runners tbl db) db"
  have d: "distinct (map job_ID db)" using assms(1) by (simp add: jobs_db_ok_def)
  note cache = seed_cache [OF d]
  have na: "job_active s \<Longrightarrow> \<not> job_terminal s" for s by (cases s) simp_all
  have "dom (alc_jobs ?a) \<subseteq> job_ID ` set db" using cache by (auto simp: dom_def)
  then have fin: "finite (dom (alc_jobs ?a))" using finite_subset by blast
  have uniq: "j = j'" if "j \<in> set db" "j' \<in> set db" "job_ID j = job_ID j'" for j j'
    using that d by (meson distinct_map inj_onD)
  have "alc_jobs ?a (job_ID j) \<noteq> None" if "j \<in> set db" "job_active (job_Status j)" for j
    using cache [of "list_runners tbl db" "job_ID j" j] that na by auto
  then have cache_ok: "jobs_cache_ok ?a db"
    using fin assms(1) uniq unfolding jobs_cache_ok_def cache
    by (intro conjI) (auto simp: jobs_db_ok_def)
  have act: "job_active (job_Status j)" if "j \<in> set db" "job_RunnerID j \<noteq> None"
    "\<not> job_terminal (job_Status j)" for j
    using assms(1) that by (cases "job_Status j") (auto simp: jobs_db_ok_def job_wf_def)
  have card: "db_current_jobs db rid = int (card (cached_of (alc_jobs ?a) rid))" for rid
  proof -
    let ?js = "filter (\<lambda>j. job_RunnerID j = Some rid \<and> job_active (job_Status j)) db"
    have "cached_of (alc_jobs ?a) rid = set (map job_ID ?js)"
      using act na by (auto simp: cached_of_def cache)
    moreover have "distinct (map job_ID ?js)" using d by (simp add: distinct_map_filter)
    ultimately show ?thesis using distinct_card by (fastforce simp: db_current_jobs_def)
  qed
  have run: "\<exists>m \<in> set tbl. rn_ID m = rid \<and> r = m\<lparr>rn_CurrentJobs := db_current_jobs db rid\<rparr> \<and>
      alc_currentJobs ?a rid = db_current_jobs db rid" if "alc_runners ?a rid = Some r" for rid r
    using seed_runners [OF d assms(2) that] .
  have "tallies_ok ?a"
    unfolding tallies_ok_def
  proof (intro allI impI)
    fix rid r
    assume "alc_runners ?a rid = Some r"
    from run [OF this] show "rn_ID r = rid \<and> alc_currentJobs ?a rid = int (card (cached_of (alc_jobs ?a) rid)) \<and>
        (rn_ExecutorKind r = ForkExecutorKind \<longrightarrow> alc_currentJobs ?a rid \<le> rn_MaxJobs r)"
      using assms(3) card by (auto simp: capacity_ok_def)
  qed
  moreover have "runners_ok ?a tbl"
    unfolding runners_ok_def
  proof (intro conjI ballI allI impI)
    fix m r
    assume m: "m \<in> set tbl" "alc_runners ?a (rn_ID m) = Some r"
    from run [OF m(2)] obtain m' where "m' \<in> set tbl" "rn_ID m' = rn_ID m"
      "r = m'\<lparr>rn_CurrentJobs := db_current_jobs db (rn_ID m)\<rparr>" by blast
    moreover have "m' = m" using calculation m(1) assms(2) by (meson distinct_map inj_onD)
    ultimately show "rn_MaxJobs r = rn_MaxJobs m" "rn_ExecutorKind r = rn_ExecutorKind m" by simp_all
  qed (use assms(2) in simp)
  ultimately show ?thesis using assms cache_ok by (simp add: alloc_inv_def)
qed

section \<open>The allocator among the other writers of the tables\<close>

text \<open>
  The system: the allocator, the table of jobs and the table of runners. The steps of the allocator
  are its (re)start, an event, and a pass over the cached jobs. Events are reports of the database,
  so a status in an event is one that the row had, a deletion is reported after it, a created runner
  is not yet known, and a created job that is not yet cached has not been assigned. The other
  writers register, update and delete runners (which deletes their jobs, the foreign key cascades),
  create jobs, delete them, and change the status of a job by any operation other than allocation.
\<close>

record alloc_sys =
  sys_alc :: allocator
  sys_jobs :: "Job list"
  sys_runners :: "RunnerMeta list"

definition job_event_ok :: "Job list \<Rightarrow> allocator \<Rightarrow> job_event \<Rightarrow> bool" where
  "job_event_ok db a ev =
     (case ev of
        JobDeletedEvent jid \<Rightarrow> jid \<notin> set (map job_ID db)
      | JobCreatedEvent jid \<Rightarrow>
          list_all (\<lambda>j. job_ID j = jid \<and> alc_jobs a jid = None \<longrightarrow> job_RunnerID j = None) db
      | JobUpdatedEvent jid status \<Rightarrow>
          job_terminal status \<longrightarrow>
            list_all (\<lambda>j. job_ID j = jid \<longrightarrow> job_terminal (job_Status j)) db)"

definition runner_event_ok :: "RunnerMeta list \<Rightarrow> allocator \<Rightarrow> runner_event \<Rightarrow> bool" where
  "runner_event_ok tbl a ev =
     (case ev of
        RunnerCreatedEvent rid \<Rightarrow> alc_runners a rid = None \<and> cached_of (alc_jobs a) rid = {}
      | RunnerUpdatedEvent rid status \<Rightarrow> True
      | RunnerDeletedEvent rid \<Rightarrow> rid \<notin> set (map rn_ID tbl))"

definition job_op_env :: "job_op \<Rightarrow> bool" where
  "job_op_env opn =
     (case opn of JStart \<Rightarrow> True | JFinish s \<Rightarrow> job_terminal s | JCancel run \<Rightarrow> True | _ \<Rightarrow> False)"

inductive alloc_step :: "alloc_sys \<Rightarrow> alloc_sys \<Rightarrow> bool" where
  start: "alloc_step s (s\<lparr>sys_alc := seed (list_runners (sys_runners s) (sys_jobs s)) (sys_jobs s)\<rparr>)"
| job_event: "job_event_ok (sys_jobs s) (sys_alc s) ev \<Longrightarrow>
    on_job_event (db_getJob (sys_jobs s)) ev (sys_alc s) = Inr a \<Longrightarrow> alloc_step s (s\<lparr>sys_alc := a\<rparr>)"
| runner_event: "runner_event_ok (sys_runners s) (sys_alc s) ev \<Longrightarrow>
    on_runner_event (db_getRunner (sys_runners s) (sys_jobs s)) ev (sys_alc s) = Inr a \<Longrightarrow>
    alloc_step s (s\<lparr>sys_alc := a\<rparr>)"
| pass: "allocate_all order (sys_alc s) (sys_jobs s) = (a, db, e) \<Longrightarrow>
    alloc_step s (s\<lparr>sys_alc := a, sys_jobs := db\<rparr>)"
| register: "register rnd now ip pool opts = Inr m \<Longrightarrow> 0 \<le> reg_Concurrency opts \<Longrightarrow>
    rn_ID m \<notin> set (map rn_ID (sys_runners s)) \<Longrightarrow> alc_runners (sys_alc s) (rn_ID m) = None \<Longrightarrow>
    Some (rn_ID m) \<notin> set (map job_RunnerID (sys_jobs s)) \<Longrightarrow>
    alloc_step s (s\<lparr>sys_runners := m # sys_runners s\<rparr>)"
| runner_status: "rn_setStatus now st ping m = Inr m' \<Longrightarrow> m \<in> set (sys_runners s) \<Longrightarrow>
    alloc_step s (s\<lparr>sys_runners := map (\<lambda>x. if rn_ID x = rn_ID m then m' else x) (sys_runners s)\<rparr>)"
| delete_runner: "alloc_step s (s\<lparr>sys_runners := filter (\<lambda>m. rn_ID m \<noteq> rid) (sys_runners s),
    sys_jobs := filter (\<lambda>j. job_RunnerID j \<noteq> Some rid) (sys_jobs s)\<rparr>)"
| create_job: "job_ID (newJob rnd run) \<notin> set (map job_ID (sys_jobs s)) \<Longrightarrow>
    alc_jobs (sys_alc s) (job_ID (newJob rnd run)) = None \<Longrightarrow> tfe_kind (run_ID run) = RunKind \<Longrightarrow>
    alloc_step s (s\<lparr>sys_jobs := (newJob rnd run)\<lparr>job_AgentPoolID := pool\<rparr> # sys_jobs s\<rparr>)"
| change_job: "j \<in> set (sys_jobs s) \<Longrightarrow> job_op_env opn \<Longrightarrow> exec_job opn j = Inr j' \<Longrightarrow>
    alloc_step s (s\<lparr>sys_jobs := write_job j' (sys_jobs s)\<rparr>)"
| delete_jobs: "alloc_step s (s\<lparr>sys_jobs := filter P (sys_jobs s)\<rparr>)"

inductive reachable_alloc :: "alloc_sys \<Rightarrow> bool" where
  init: "reachable_alloc \<lparr>sys_alc = seed [] [], sys_jobs = [], sys_runners = []\<rparr>"
| step: "reachable_alloc s \<Longrightarrow> alloc_step s s' \<Longrightarrow> reachable_alloc s'"

definition alloc_sys_inv :: "alloc_sys \<Rightarrow> bool" where
  "alloc_sys_inv s \<longleftrightarrow> alloc_inv (sys_alc s) (sys_jobs s) (sys_runners s)"

end
