(* ===== verification/AllocatorSafety.thy ===== *)
theory AllocatorSafety
  imports Allocator
begin

text \<open>
  Every step of the allocator and of the other writers of its tables keeps the invariant of
  \<open>Allocator\<close>; hence the tallies are exact and no runner is given more jobs than it can run in any
  reachable state.
\<close>

section \<open>Steps of the other writers\<close>

lemma alloc_invD:
  assumes "alloc_inv a db tbl"
  shows "jobs_db_ok db" "jobs_cache_ok a db" "tallies_ok a" "runners_ok a tbl" "capacity_ok tbl db"
  using assms by (simp_all add: alloc_inv_def)

text \<open>Rows may disappear or become inactive at any time.\<close>

lemma db_shrinks:
  assumes "alloc_inv a db tbl" "jobs_db_ok db'"
    and "\<And>j'. j' \<in> set db' \<Longrightarrow> \<exists>j \<in> set db. job_ID j' = job_ID j \<and> job_RunnerID j' = job_RunnerID j \<and>
           (job_active (job_Status j') \<longrightarrow> job_active (job_Status j)) \<and>
           (job_terminal (job_Status j) \<longrightarrow> job_terminal (job_Status j'))"
    and "\<And>rid. db_current_jobs db' rid \<le> db_current_jobs db rid"
  shows "alloc_inv a db' tbl"
proof -
  note inv = alloc_invD [OF assms(1)]
  have "jobs_cache_ok a db'"
    using inv(2) unfolding jobs_cache_ok_def
  proof (elim conjE, intro conjI ballI impI allI)
    fix j'
    assume "j' \<in> set db'" "job_active (job_Status j')"
      "\<forall>j \<in> set db. job_active (job_Status j) \<longrightarrow> alc_jobs a (job_ID j) \<noteq> None"
    then show "alc_jobs a (job_ID j') \<noteq> None" using assms(3) by metis
  next
    fix j' c
    assume c: "j' \<in> set db'" "alc_jobs a (job_ID j') = Some c"
      "\<forall>j \<in> set db. \<forall>c. alc_jobs a (job_ID j) = Some c \<longrightarrow> job_RunnerID c = job_RunnerID j \<and>
         (job_terminal (job_Status c) \<longrightarrow> job_terminal (job_Status j))"
    show "job_RunnerID c = job_RunnerID j'" using c assms(3) by metis
    show "job_terminal (job_Status j')" if "job_terminal (job_Status c)" using that c assms(3) by metis
  qed auto
  moreover have "capacity_ok tbl db'"
    using inv(5) assms(4) unfolding capacity_ok_def by (meson order_trans)
  ultimately show ?thesis using inv assms(2) by (simp add: alloc_inv_def)
qed

lemma filter_db_inv:
  assumes "alloc_inv a db tbl"
  shows "alloc_inv a (filter P db) tbl"
proof (rule db_shrinks [OF assms])
  show "jobs_db_ok (filter P db)"
    using alloc_invD(1) [OF assms] by (auto simp: jobs_db_ok_def distinct_map_filter)
  show "db_current_jobs (filter P db) rid \<le> db_current_jobs db rid" for rid
    by (induction db) (auto simp: db_current_jobs_def)
qed auto

lemma job_op_env_effect:
  assumes "job_op_env opn" "exec_job opn j = Inr j'"
  shows "j' = j\<lparr>job_Status := job_Status j'\<rparr> \<and>
    (job_Status j' = job_Status j \<or> job_transition_valid (job_Status j) (job_Status j') \<and> job_Status j' \<noteq> JobAllocated)"
proof (cases opn)
  case (JCancel run)
  with assms(2) obtain x f where "job_cancel run j = Inr (j', x, f)"
    by (auto split: sum.splits prod.splits)
  from job_cancel_ok [OF this] show ?thesis by auto
qed (use assms in \<open>auto simp: job_op_env_def job_defs split: if_splits\<close>)

lemma change_job_inv:
  assumes "alloc_inv a db tbl" "j \<in> set db" "job_op_env opn" "exec_job opn j = Inr j'"
  shows "alloc_inv a (write_job j' db) tbl"
proof -
  note inv = alloc_invD [OF assms(1)]
  define st where "st = job_Status j'"
  have eff: "j' = j\<lparr>job_Status := st\<rparr>"
    "st = job_Status j \<or> job_transition_valid (job_Status j) st \<and> st \<noteq> JobAllocated"
    using job_op_env_effect [OF assms(3,4)] by (simp_all add: st_def)
  have j': "j' = j\<lparr>job_Status := st, job_RunnerID := job_RunnerID j\<rparr>" using eff(1) by simp
  have act: "job_active st \<Longrightarrow> job_active (job_Status j)"
    "job_terminal (job_Status j) \<Longrightarrow> job_terminal st"
    using eff(2) by (cases "job_Status j"; cases st; simp)+
  have d: "distinct (map job_ID db)" using inv(1) by (simp add: jobs_db_ok_def)
  have wf: "job_wf j'"
    using exec_job_wf [OF _ _ assms(4)] inv(1) assms(2,3)
    by (auto simp: jobs_db_ok_def job_op_ok_def job_op_env_def split: job_op.splits)
  show ?thesis
  proof (rule db_shrinks [OF assms(1)])
    show "jobs_db_ok (write_job j' db)"
      unfolding j' by (rule write_job_ok [OF inv(1) assms(2)]) (use wf j' in simp)
    fix x
    assume "x \<in> set (write_job j' db)"
    then consider "x = j'" | "x \<in> set db" using set_write_job [OF d assms(2) j'] by blast
    then show "\<exists>y \<in> set db. job_ID x = job_ID y \<and> job_RunnerID x = job_RunnerID y \<and>
        (job_active (job_Status x) \<longrightarrow> job_active (job_Status y)) \<and>
        (job_terminal (job_Status y) \<longrightarrow> job_terminal (job_Status x))"
    proof cases
      case 1
      with act assms(2) show ?thesis by (intro bexI [of _ j]) (simp_all add: j')
    next
      case 2
      then show ?thesis by blast
    qed
  next
    fix rid
    let ?P = "\<lambda>j. job_RunnerID j = Some rid \<and> job_active (job_Status j)"
    have same: "x \<in> set db \<Longrightarrow> job_ID x = job_ID j \<Longrightarrow> x = j" for x
      using d assms(2) by (meson distinct_map inj_onD)
    have "length (filter ?P (map (\<lambda>x. if job_ID x = job_ID j' then
        x\<lparr>job_Status := job_Status j', job_RunnerID := job_RunnerID j'\<rparr> else x) xs)) \<le> length (filter ?P xs)"
      if "set xs \<subseteq> set db" for xs
      using that
    proof (induction xs)
      case (Cons x xs)
      with act(1) same [of x] show ?case by (auto simp: j')
    qed simp
    then show "db_current_jobs (write_job j' db) rid \<le> db_current_jobs db rid"
      by (simp add: db_current_jobs_def write_job_def)
  qed
qed

lemma create_job_inv:
  assumes "alloc_inv a db tbl" "job_ID (newJob rnd run) \<notin> set (map job_ID db)"
    and "alc_jobs a (job_ID (newJob rnd run)) = None" "tfe_kind (run_ID run) = RunKind"
  shows "alloc_inv a ((newJob rnd run)\<lparr>job_AgentPoolID := pool\<rparr> # db) tbl"
proof -
  note inv = alloc_invD [OF assms(1)]
  have "jobs_db_ok ((newJob rnd run)\<lparr>job_AgentPoolID := pool\<rparr> # db)"
    using inv(1) assms(2,4) by (simp add: jobs_db_ok_def newJob_def NewTfeID_def job_wf_def)
  moreover have "jobs_cache_ok a ((newJob rnd run)\<lparr>job_AgentPoolID := pool\<rparr> # db)"
    using inv(2) assms(3) by (simp add: jobs_cache_ok_def newJob_def)
  moreover have "capacity_ok tbl ((newJob rnd run)\<lparr>job_AgentPoolID := pool\<rparr> # db)"
    using inv(5) by (simp add: capacity_ok_def db_current_jobs_def newJob_def)
  ultimately show ?thesis using inv by (simp add: alloc_inv_def)
qed

lemma register_inv:
  assumes "alloc_inv a db tbl" "rn_ID m \<notin> set (map rn_ID tbl)" "alc_runners a (rn_ID m) = None"
    and "Some (rn_ID m) \<notin> set (map job_RunnerID db)" "0 \<le> rn_MaxJobs m"
  shows "alloc_inv a db (m # tbl)"
proof -
  note inv = alloc_invD [OF assms(1)]
  have "filter (\<lambda>j. job_RunnerID j = Some (rn_ID m) \<and> job_active (job_Status j)) db = []"
    using assms(4) by (auto simp: filter_empty_conv image_iff)
  then have "db_current_jobs db (rn_ID m) = 0" by (simp add: db_current_jobs_def)
  with inv assms show ?thesis by (simp add: alloc_inv_def runners_ok_def capacity_ok_def)
qed

lemma runner_table_inv:
  assumes "alloc_inv a db tbl" "distinct (map rn_ID tbl')"
    and "\<And>m'. m' \<in> set tbl' \<Longrightarrow> \<exists>m \<in> set tbl. rn_ID m' = rn_ID m \<and> rn_MaxJobs m' = rn_MaxJobs m \<and>
           rn_ExecutorKind m' = rn_ExecutorKind m"
  shows "alloc_inv a db tbl'"
proof -
  note inv = alloc_invD [OF assms(1)]
  have "runners_ok a tbl'" using inv(4) assms(2,3) unfolding runners_ok_def by metis
  moreover have "capacity_ok tbl' db" using inv(5) assms(3) unfolding capacity_ok_def by metis
  ultimately show ?thesis using inv by (simp add: alloc_inv_def)
qed

lemma runner_status_inv:
  assumes "alloc_inv a db tbl" "rn_setStatus now st ping m = Inr m'" "m \<in> set tbl"
  shows "alloc_inv a db (map (\<lambda>x. if rn_ID x = rn_ID m then m' else x) tbl)"
proof -
  have m': "rn_ID m' = rn_ID m" "rn_MaxJobs m' = rn_MaxJobs m" "rn_ExecutorKind m' = rn_ExecutorKind m"
    using assms(2) by (auto simp: rn_setStatus_def Let_def split: if_splits)
  have "map rn_ID (map (\<lambda>x. if rn_ID x = rn_ID m then m' else x) tbl) = map rn_ID tbl"
    using m' by (induction tbl) simp_all
  moreover have "distinct (map rn_ID tbl)" using alloc_invD(4) [OF assms(1)] by (simp add: runners_ok_def)
  ultimately have "distinct (map rn_ID (map (\<lambda>x. if rn_ID x = rn_ID m then m' else x) tbl))"
    by (simp only:)
  then show ?thesis by (rule runner_table_inv [OF assms(1)]) (use assms(3) m' in auto)
qed

lemma delete_runner_inv:
  assumes "alloc_inv a db tbl"
  shows "alloc_inv a (filter (\<lambda>j. job_RunnerID j \<noteq> Some rid) db) (filter (\<lambda>m. rn_ID m \<noteq> rid) tbl)"
proof (rule runner_table_inv [OF filter_db_inv [OF assms]])
  show "distinct (map rn_ID (filter (\<lambda>m. rn_ID m \<noteq> rid) tbl))"
    using alloc_invD(4) [OF assms] by (simp add: runners_ok_def distinct_map_filter)
qed auto

section \<open>Events\<close>

lemma cache_job_inv:
  assumes "alloc_inv a db tbl" "alc_jobs a jid = Some c \<Longrightarrow> job_RunnerID u = job_RunnerID c"
    and "alc_jobs a jid = None \<Longrightarrow> job_RunnerID u = None"
    and "job_ID u = jid" "tfe_kind jid = JobKind"
    and "\<And>j. j \<in> set db \<Longrightarrow> job_ID j = jid \<Longrightarrow> job_RunnerID u = job_RunnerID j \<and>
           (job_terminal (job_Status u) \<longrightarrow> job_terminal (job_Status j))"
    and "\<And>c'. alc_jobs a jid = Some c' \<Longrightarrow> c' = c"
  shows "alloc_inv (a\<lparr>alc_jobs := (alc_jobs a)(jid \<mapsto> u)\<rparr>) db tbl"
proof -
  note inv = alloc_invD [OF assms(1)]
  have "cached_of ((alc_jobs a)(jid \<mapsto> u)) rid = cached_of (alc_jobs a) rid" for rid
    using assms(2,3,7) by (cases "alc_jobs a jid") (auto simp: cached_of_def)
  then have "tallies_ok (a\<lparr>alc_jobs := (alc_jobs a)(jid \<mapsto> u)\<rparr>)"
    using inv(3) unfolding tallies_ok_def by simp metis
  moreover have "jobs_cache_ok (a\<lparr>alc_jobs := (alc_jobs a)(jid \<mapsto> u)\<rparr>) db"
    using inv(2) assms(4-6) unfolding jobs_cache_ok_def by auto
  ultimately show ?thesis using inv by (simp add: alloc_inv_def runners_ok_def)
qed

lemma job_event_inv:
  assumes "alloc_inv a db tbl" "job_event_ok db a ev" "on_job_event (db_getJob db) ev a = Inr a'"
  shows "alloc_inv a' db tbl"
proof (cases ev)
  case (JobDeletedEvent jid)
  show ?thesis
  proof (cases "alc_jobs a jid")
    case None
    with assms JobDeletedEvent have "a' = a" by (auto simp: on_job_event_def fun_upd_idem)
    with assms(1) show ?thesis by simp
  next
    case (Some c)
    have "\<And>j. j \<in> set db \<Longrightarrow> job_ID j = jid \<Longrightarrow> job_terminal (job_Status j)"
      using assms(2) JobDeletedEvent by (auto simp: job_event_ok_def)
    from forget_job_inv [OF assms(1) Some this] assms(3) JobDeletedEvent Some show ?thesis
      by (simp add: on_job_event_def forget_job_def Let_def)
  qed
next
  case (JobCreatedEvent jid)
  with assms(3) obtain j where j: "find_first (\<lambda>j. job_ID j = jid) db = Some j"
    "a' = a\<lparr>alc_jobs := (alc_jobs a)(jid \<mapsto> j)\<rparr>"
    by (auto simp: on_job_event_def db_getJob_def split: option.splits)
  note mem = find_first_SomeD [OF j(1)]
  note inv = alloc_invD [OF assms(1)]
  have uniq: "x = j" if "x \<in> set db" "job_ID x = jid" for x
    using that mem inv(1) by (auto simp: jobs_db_ok_def distinct_map inj_on_def)
  show ?thesis
    unfolding j(2)
    by (rule cache_job_inv [OF assms(1), where c = "the (alc_jobs a jid)"])
      (use mem inv(1,2) uniq assms(2) JobCreatedEvent in
        \<open>auto simp: jobs_db_ok_def jobs_cache_ok_def job_event_ok_def list_all_iff\<close>)
next
  case (JobUpdatedEvent jid st)
  with assms(3) obtain c where c: "alc_jobs a jid = Some c"
    "a' = a\<lparr>alc_jobs := (alc_jobs a)(jid \<mapsto> c\<lparr>job_Status := st\<rparr>)\<rparr>"
    by (auto simp: on_job_event_def split: option.splits)
  note inv = alloc_invD [OF assms(1)]
  show ?thesis
    unfolding c(2)
    by (rule cache_job_inv [OF assms(1), where c = c])
      (use c(1) inv(2) assms(2) JobUpdatedEvent in
        \<open>auto simp: jobs_cache_ok_def job_event_ok_def list_all_iff\<close>)
qed

lemma tallies_runner_upd:
  "tallies_ok a \<Longrightarrow> alc_runners a rid = Some r \<Longrightarrow>
   tallies_ok (a\<lparr>alc_runners := (alc_runners a)(rid \<mapsto> r\<lparr>rn_Status := st\<rparr>)\<rparr>)"
  unfolding tallies_ok_def by simp metis

lemma runner_event_inv:
  assumes "alloc_inv a db tbl" "runner_event_ok tbl a ev"
    and "on_runner_event (db_getRunner tbl db) ev a = Inr a'"
  shows "alloc_inv a' db tbl"
proof -
  note inv = alloc_invD [OF assms(1)]
  show ?thesis
  proof (cases ev)
    case (RunnerCreatedEvent rid)
    with assms(3) obtain r where r: "find_first (\<lambda>m. rn_ID m = rid) (list_runners tbl db) = Some r"
      "a' = addRunner r a"
      by (auto simp: on_runner_event_def db_getRunner_def split: option.splits)
    from find_first_SomeD [OF r(1)] obtain m where m: "m \<in> set tbl" "rn_ID m = rid"
      "r = m\<lparr>rn_CurrentJobs := db_current_jobs db rid\<rparr>" by (auto simp: list_runners_def)
    have empty: "cached_of (alc_jobs a) rid = {}"
      using assms(2) RunnerCreatedEvent by (simp add: runner_event_ok_def)
    have zero: "db_current_jobs db rid = 0"
      using db_current_jobs_le_cached [OF inv(1,2), of rid] empty by (simp add: db_current_jobs_def)
    have cap: "rn_ExecutorKind m = ForkExecutorKind \<Longrightarrow> 0 \<le> rn_MaxJobs m"
      using inv(5) m zero by (auto simp: capacity_ok_def)
    have uniq: "x \<in> set tbl \<Longrightarrow> rn_ID x = rid \<Longrightarrow> x = m" for x
      using inv(4) m by (auto simp: runners_ok_def distinct_map inj_on_def)
    have "tallies_ok a'"
      using inv(3) empty zero cap m unfolding r(2) tallies_ok_def addRunner_def by simp metis
    moreover have "runners_ok a' tbl"
      unfolding runners_ok_def
    proof (intro conjI ballI allI impI)
      fix x y
      assume x: "x \<in> set tbl" "alc_runners a' (rn_ID x) = Some y"
      have "rn_MaxJobs y = rn_MaxJobs x \<and> rn_ExecutorKind y = rn_ExecutorKind x"
      proof (cases "rn_ID x = rid")
        case True
        from uniq [OF x(1) this] have "x = m" .
        with x(2) m(2,3) show ?thesis by (auto simp: r(2) addRunner_def)
      next
        case False
        with x inv(4) m(2,3) show ?thesis by (simp add: r(2) addRunner_def runners_ok_def)
      qed
      then show "rn_MaxJobs y = rn_MaxJobs x" "rn_ExecutorKind y = rn_ExecutorKind x" by simp_all
    qed (use inv(4) in \<open>simp add: runners_ok_def\<close>)
    moreover have "jobs_cache_ok a' db"
      using inv(2) by (simp add: jobs_cache_ok_def r(2) addRunner_def)
    ultimately show ?thesis using inv by (simp add: alloc_inv_def)
  next
    case (RunnerUpdatedEvent rid st)
    with assms(3) obtain r where r: "alc_runners a rid = Some r"
      "a' = a\<lparr>alc_runners := (alc_runners a)(rid \<mapsto> r\<lparr>rn_Status := Some st\<rparr>)\<rparr>"
      by (auto simp: on_runner_event_def split: option.splits)
    have "tallies_ok a'" unfolding r(2) by (rule tallies_runner_upd [OF inv(3) r(1)])
    moreover have "runners_ok a' tbl" using inv(4) r unfolding runners_ok_def by auto
    moreover have "jobs_cache_ok a' db" using inv(2) by (simp add: jobs_cache_ok_def r(2))
    ultimately show ?thesis using inv by (simp add: alloc_inv_def)
  next
    case (RunnerDeletedEvent rid)
    with assms(3) have a': "a' = deleteRunner rid a" by (simp add: on_runner_event_def)
    have "tallies_ok a'" using inv(3) unfolding a' tallies_ok_def deleteRunner_def by simp metis
    moreover have "runners_ok a' tbl"
      using inv(4) unfolding a' runners_ok_def deleteRunner_def by auto
    moreover have "jobs_cache_ok a' db" using inv(2) by (simp add: jobs_cache_ok_def a' deleteRunner_def)
    ultimately show ?thesis using inv by (simp add: alloc_inv_def)
  qed
qed

section \<open>Reachable states\<close>

lemma alloc_step_inv: "alloc_step s s' \<Longrightarrow> alloc_sys_inv s \<Longrightarrow> alloc_sys_inv s'"
proof (induction rule: alloc_step.induct)
  case (start s)
  then show ?case
    using seed_inv [of "sys_jobs s" "sys_runners s"] alloc_invD [of "sys_alc s" "sys_jobs s" "sys_runners s"]
    by (simp add: alloc_sys_inv_def runners_ok_def)
next
  case (job_event s ev a)
  then show ?case by (simp add: alloc_sys_inv_def) (rule job_event_inv)
next
  case (runner_event s ev a)
  then show ?case by (simp add: alloc_sys_inv_def) (rule runner_event_inv)
next
  case (pass order s a db e)
  then show ?case by (simp add: alloc_sys_inv_def) (rule allocate_all_inv)
next
  case (register rnd now ip pool opts m s)
  have "rn_MaxJobs m = reg_Concurrency opts"
    using register(1) register_ok [of rnd now ip pool opts] by auto
  with register show ?case by (auto simp: alloc_sys_inv_def intro!: register_inv)
next
  case (runner_status now st ping m m' s)
  then show ?case by (simp add: alloc_sys_inv_def runner_status_inv)
next
  case (delete_runner s rid)
  then show ?case by (simp add: alloc_sys_inv_def delete_runner_inv)
next
  case (create_job rnd run s pool)
  then show ?case by (simp add: alloc_sys_inv_def create_job_inv)
next
  case (change_job j s opn j')
  then show ?case by (simp add: alloc_sys_inv_def change_job_inv)
next
  case (delete_jobs s P)
  then show ?case by (simp add: alloc_sys_inv_def filter_db_inv)
qed

lemma reachable_alloc_inv: "reachable_alloc s \<Longrightarrow> alloc_sys_inv s"
proof (induction rule: reachable_alloc.induct)
  case init
  have "alloc_inv (seed (list_runners [] []) []) [] []"
    by (rule seed_inv) (simp_all add: jobs_db_ok_def capacity_ok_def)
  then show ?case by (simp add: alloc_sys_inv_def list_runners_def)
next
  case (step s s')
  then show ?case by (blast intro: alloc_step_inv)
qed

section \<open>Properties\<close>


definition demo_runner :: RunnerMeta where
  "demo_runner = projr (register (\<lambda>_. 0) 0 (Inr ''10.0.0.1'') None
     \<lparr>reg_Name = ''a'', reg_Version = ''1'', reg_Concurrency = 2, reg_IPAddress = None,
      reg_ExecutorKind = ForkExecutorKind\<rparr>)"

lemma demo_runner_registered:
  "register (\<lambda>_. 0) 0 (Inr ''10.0.0.1'') None
     \<lparr>reg_Name = ''a'', reg_Version = ''1'', reg_Concurrency = 2, reg_IPAddress = None,
      reg_ExecutorKind = ForkExecutorKind\<rparr> = Inr demo_runner"
  unfolding demo_runner_def
  using register_ok [of "\<lambda>_. 0" 0 "Inr ''10.0.0.1''" None]
  by (metis sum.sel(2))

lemma demo_runner_simps [simp]:
  "rn_ExecutorKind demo_runner = ForkExecutorKind" "rn_MaxJobs demo_runner = 2"
  "rn_Status demo_runner = Some RunnerIdle" "rn_AgentPool demo_runner = None"
  by (simp_all add: demo_runner_def register_def rn_setStatus_def Let_def)

definition demo_job0 :: Job where
  "demo_job0 = (newJob (\<lambda>_. 0) example_run)\<lparr>job_AgentPoolID := None\<rparr>"

lemma demo_job0_simps [simp]:
  "job_Status demo_job0 = JobUnallocated" "job_AgentPoolID demo_job0 = None"
  "job_RunnerID demo_job0 = None" "tfe_kind (job_ID demo_job0) = JobKind"
  by (simp_all add: demo_job0_def newJob_def NewTfeID_def)

text \<open>One idle runner, one unallocated job, the allocator just started.\<close>

definition demo_sys :: alloc_sys where
  "demo_sys = \<lparr>sys_alc = seed (list_runners [demo_runner] [demo_job0]) [demo_job0],
     sys_jobs = [demo_job0], sys_runners = [demo_runner]\<rparr>"

lemma demo_sys_reachable: "reachable_alloc demo_sys"
proof -
  let ?s0 = "\<lparr>sys_alc = seed [] [], sys_jobs = [], sys_runners = []\<rparr>"
  let ?s1 = "?s0\<lparr>sys_runners := [demo_runner]\<rparr>"
  let ?s2 = "?s1\<lparr>sys_jobs := [demo_job0]\<rparr>"
  have "alloc_step ?s0 (?s0\<lparr>sys_runners := demo_runner # sys_runners ?s0\<rparr>)"
    by (rule alloc_step.register [OF demo_runner_registered]) (simp_all add: seed_def)
  then have 1: "reachable_alloc ?s1" using reachable_alloc.step [OF reachable_alloc.init] by simp
  have "alloc_step ?s1 (?s1\<lparr>sys_jobs := demo_job0 # sys_jobs ?s1\<rparr>)"
    unfolding demo_job0_def by (rule alloc_step.create_job) (simp_all add: seed_def NewTfeID_def)
  then have 2: "reachable_alloc ?s2" using reachable_alloc.step [OF 1] by simp
  from reachable_alloc.step [OF 2 alloc_step.start] show ?thesis by (simp add: demo_sys_def)
qed

definition demo_assigned :: Job where
  "demo_assigned = demo_job0\<lparr>job_Status := JobAllocated, job_RunnerID := Some (rn_ID demo_runner)\<rparr>"

lemma demo_cache: "alc_jobs (sys_alc demo_sys) (job_ID demo_job0) = Some demo_job0"
  by (simp add: demo_sys_def seed_def Let_def)

lemma demo_allocate:
  "\<exists>a. allocate [rn_ID demo_runner] demo_job0 (sys_alc demo_sys) (sys_jobs demo_sys) = (a, [demo_assigned], None)"
  by (simp add: allocate_def place_job_def demo_sys_def seed_def Let_def list_runners_def addRunner_def
      available_runners_def List.map_filter_def runner_ready_def pool_matches_def
      insufficient_capacity_def by_ping_def db_current_jobs_def allocateJob_def updateJob_def
      job_selected_def job_defs write_job_def demo_assigned_def)


text \<open>
  the choice of a runner. When the allocator assigns a job, the runner is one of the cache that
  is idle or busy, belongs to the pool that the job asks for (or is a server runner when it asks for
  none), has capacity left, and has pinged no earlier than any other such runner; the row of the job
  and the cached job then both name it.
\<close>

theorem allocate_choice:
  assumes "reachable_alloc s" "alc_jobs (sys_alc s) jid = Some job"
    and "allocate order job (sys_alc s) (sys_jobs s) = (a', db', e)" "db' \<noteq> sys_jobs s"
  shows "\<exists>r j'. (\<exists>rid. alc_runners (sys_alc s) rid = Some r) \<and> runner_ready r \<and> pool_matches job r \<and>
    (rn_ExecutorKind r = ForkExecutorKind \<longrightarrow> alc_currentJobs (sys_alc s) (rn_ID r) < rn_MaxJobs r) \<and>
    (\<forall>r' \<in> set (available_runners order (sys_alc s) job). rn_LastPingAt r' \<le> rn_LastPingAt r) \<and>
    j' \<in> set db' \<and> job_ID j' = jid \<and> job_Status j' = JobAllocated \<and> job_RunnerID j' = Some (rn_ID r) \<and>
    alc_jobs a' jid = Some j'"
proof -
  let ?a = "sys_alc s" and ?db = "sys_jobs s"
  note inv = alloc_invD [OF reachable_alloc_inv [OF assms(1), unfolded alloc_sys_inv_def]]
  obtain re where p: "place_job re order job ?a ?db = (a', db', e)"
    using assms(3,4)
    by (cases "job_Status job") (auto simp: allocate_def split: option.splits if_splits)
  from place_job_cases [OF inv(1,2) assms(2) p] assms(4) obtain r j where r:
    "by_ping (available_runners order ?a job) \<noteq> []"
    "r = hd (by_ping (available_runners order ?a job))" "job_ID j = jid" "assigned j r ?a ?db a' db'"
    by blast
  from r(1,2) obtain rest where bp: "by_ping (available_runners order ?a job) = r # rest"
    by (metis list.collapse)
  then have mem: "r \<in> set (available_runners order ?a job)" by (metis list.set_intros(1) set_by_ping)
  then obtain rid where rid: "alc_runners ?a rid = Some r" "runner_ready r" "pool_matches job r"
    "\<not> insufficient_capacity ?a r" by (auto simp: available_runners_iff)
  have cap: "rn_ExecutorKind r = ForkExecutorKind \<longrightarrow> alc_currentJobs ?a (rn_ID r) < rn_MaxJobs r"
    using inv(3) rid(1,4) unfolding tallies_ok_def insufficient_capacity_def
    by (metis order_le_less)
  let ?u = "j\<lparr>job_Status := JobAllocated, job_RunnerID := Some (rn_ID r)\<rparr>"
  have u: "j \<in> set ?db" "db' = write_job ?u ?db" "alc_jobs a' = (alc_jobs ?a)(jid \<mapsto> ?u)"
    using r(3,4) by (simp_all add: assigned_def Let_def)
  have "distinct (map job_ID ?db)" using inv(1) by (simp add: jobs_db_ok_def)
  from set_write_job [OF this u(1) refl] have "?u \<in> set db'" unfolding u(2) by blast
  moreover have "\<forall>r' \<in> set (available_runners order ?a job). rn_LastPingAt r' \<le> rn_LastPingAt r"
    using by_ping_hd [OF bp] by blast
  ultimately show ?thesis
    using rid cap r(3) u(3) by (intro exI [of _ r] exI [of _ ?u]) auto
qed

lemma allocate_choice_witness:
  "\<exists>a' r. allocate [rn_ID demo_runner] demo_job0 (sys_alc demo_sys) (sys_jobs demo_sys) = (a', [demo_assigned], None) \<and>
    runner_ready r \<and> pool_matches demo_job0 r \<and> job_RunnerID demo_assigned = Some (rn_ID r)"
proof -
  obtain a where al: "allocate [rn_ID demo_runner] demo_job0 (sys_alc demo_sys) (sys_jobs demo_sys) =
      (a, [demo_assigned], None)" using demo_allocate by blast
  have "[demo_assigned] \<noteq> sys_jobs demo_sys"
    by (auto simp: demo_sys_def demo_assigned_def dest: arg_cong [where f = job_Status])
  from allocate_choice [OF demo_sys_reachable demo_cache al this] al show ?thesis by auto
qed

end
