(* ===== verification/Authz.thy ===== *)
theory Authz
  imports Runner
begin

text \<open>
  Access control: roles and their inheritance (\<open>internal/authz/role.go\<close>), access requests with the
  lineage of the requested resource (\<open>request.go\<close>, \<open>authorizer.go\<close>), workspace policies
  (\<open>internal/workspace/policy.go\<close>), and the access check of every kind of subject: teams, users,
  organization tokens, runners, jobs, the runner manager and the superuser. The lemmas bound what
  each subject can reach.
\<close>

section \<open>Roles (role.go)\<close>

text \<open>
  A role lists for every kind the actions it permits (the keys of the Go maps, which all map to
  \<open>true\<close>) and may inherit from another role.
\<close>

datatype Role = Role
  (role_name: string)
  (permissions: "(Kind \<times> Action list) list")
  (inherits: "Role option")

fun IsAllowed :: "Role \<Rightarrow> Action \<Rightarrow> Kind \<Rightarrow> bool" where
  "IsAllowed (Role n perms parent) action kind =
     ((case map_of perms kind of Some actions \<Rightarrow> action \<in> set actions | None \<Rightarrow> False) \<or>
      (case parent of Some p \<Rightarrow> IsAllowed p action kind | None \<Rightarrow> False))"

definition OrganizationMinPermissions :: Role where
  "OrganizationMinPermissions = Role ''minimum''
     [(OrganizationKind, [GetAction]),
      (UserKind, [GetAction, ListAction]),
      (ModuleKind, [GetAction, ListAction]),
      (TeamKind, [GetAction, ListAction]),
      (VCSProviderKind, [GetAction, ListAction]),
      (VariableSetKind, [GetAction, ListAction]),
      (SSHKeyKind, [GetAction, ListAction]),
      (RunTriggerKind, [GetAction, ListAction]),
      (RunnerKind, [GetAction, ListAction, WatchAction]),
      (EntitlementKind, [GetAction]),
      (TagKind, [ListAction])] None"

definition WorkspaceReadRole :: Role where
  "WorkspaceReadRole = Role ''read''
     [(RunKind, [GetAction, ListAction, WatchAction]),
      (PlanFileKind, [GetAction]),
      (WorkspaceKind, [GetAction]),
      (StateVersionKind, [GetAction, DownloadAction]),
      (StateVersionOutputKind, [GetAction]),
      (ConfigVersionKind, [DownloadAction, GetAction]),
      (NotificationConfigurationKind, [GetAction, ListAction]),
      (VariableKind, [GetAction, ListAction]),
      (ChunkKind, [TailAction])] None"

definition WorkspacePlanRole :: Role where
  "WorkspacePlanRole = Role ''plan''
     [(RunKind, [CreateAction]),
      (ConfigVersionKind, [CreateAction])] (Some WorkspaceReadRole)"

definition WorkspaceWriteRole :: Role where
  "WorkspaceWriteRole = Role ''write''
     [(RunKind, [ApplyAction, CancelAction]),
      (WorkspaceKind, [LockAction, UnlockAction]),
      (NotificationConfigurationKind, [CreateAction, UpdateAction, DeleteAction]),
      (VariableKind, [CreateAction, UpdateAction, DeleteAction])] (Some WorkspacePlanRole)"

definition WorkspaceAdminRole :: Role where
  "WorkspaceAdminRole = Role ''admin''
     [(WorkspaceKind, [UpdateAction, DeleteAction, ForceUnlockAction, SetPermissionAction,
                       UnsetPermissionAction]),
      (RunTriggerKind, [CreateAction, DeleteAction])] (Some WorkspaceWriteRole)"

definition WorkspaceManagerRole :: Role where
  "WorkspaceManagerRole = Role ''workspace-manager''
     [(WorkspaceKind, [CreateAction, ListAction, UpdateAction]),
      (TagKind, [AddAction, RemoveAction])] (Some WorkspaceAdminRole)"

definition VCSManagerRole :: Role where
  "VCSManagerRole = Role ''vcs-manager''
     [(VCSProviderKind, [CreateAction, DeleteAction])] None"

definition RegistryManagerRole :: Role where
  "RegistryManagerRole = Role ''registry-manager''
     [(ModuleKind, [CreateAction, UpdateAction, DeleteAction]),
      (ModuleVersionKind, [CreateAction])] None"

definition WorkspaceRoleFromString :: "string \<Rightarrow> Role result" where
  "WorkspaceRoleFromString role =
     (if role = ''read'' then Inr WorkspaceReadRole
      else if role = ''plan'' then Inr WorkspacePlanRole
      else if role = ''write'' then Inr WorkspaceWriteRole
      else if role = ''admin'' then Inr WorkspaceAdminRole
      else Inl (Errorf (''unknown role: '' @ role)))"

section \<open>Workspace policies (workspace/policy.go)\<close>

record Permission =
  perm_TeamID :: TfeID
  perm_Role :: Role

record Policy =
  pol_Permissions :: "Permission list"
  pol_globalRemoteState :: bool

definition Policy_Check :: "Policy \<Rightarrow> ID \<Rightarrow> Action \<Rightarrow> Kind \<Rightarrow> bool" where
  "Policy_Check p subject action kind =
     (if ID_Kind subject = TeamKind
      then (case find_first (\<lambda>perm. subject = TfeID_ID (perm_TeamID perm)) (pol_Permissions p) of
              Some perm \<Rightarrow> IsAllowed (perm_Role perm) action kind
            | None \<Rightarrow> False)
      else if ID_Kind subject = JobKind
      then (kind = StateVersionKind \<and> action \<in> {DownloadAction, GetAction} \<or>
            kind = WorkspaceKind \<and> action = GetAction) \<and> pol_globalRemoteState p
      else False)"

section \<open>Requests (request.go) and their construction (authorizer.go)\<close>

record Request =
  req_ID :: ID
  req_WorkspacePolicy :: "Policy option"
  req_lineage :: "ID list"

definition req_ancestor :: "Kind \<Rightarrow> Request \<Rightarrow> ID option" where
  "req_ancestor k r =
     (if ID_Kind (req_ID r) = k then Some (req_ID r)
      else find_first (\<lambda>i. ID_Kind i = k) (req_lineage r))"

definition req_Organization :: "Request \<Rightarrow> ID option" where
  "req_Organization r = req_ancestor OrganizationKind r"

definition req_Workspace :: "Request \<Rightarrow> ID option" where
  "req_Workspace r = req_ancestor WorkspaceKind r"

text \<open>
  The resolvers are a map from kinds to look-ups. The loop that follows parents ends when a kind
  has no resolver; as nothing in the loop bounds it, it is a \<open>partial_function\<close>.
\<close>

type_synonym resolvers = "Kind \<rightharpoonup> (ID \<Rightarrow> ID result)"

partial_function (option) lineage_loop :: "resolvers \<Rightarrow> ID \<Rightarrow> ID list \<Rightarrow> ID list result option" where
  "lineage_loop res rid acc =
     (case res (ID_Kind rid) of
        None \<Rightarrow> Some (Inr acc)
      | Some parent \<Rightarrow>
          (case parent rid of
             Inl e \<Rightarrow> Some (Inl (Wrap ''resolving ID'' e))
           | Inr pid \<Rightarrow> lineage_loop res pid (acc @ [pid])))"

definition generateRequest ::
  "resolvers \<Rightarrow> (ID \<Rightarrow> Policy result) \<Rightarrow> ID \<Rightarrow> Request result option" where
  "generateRequest res getPolicy rid =
     (if rid = SiteID
      then Some (Inr \<lparr>req_ID = rid, req_WorkspacePolicy = None, req_lineage = []\<rparr>)
      else case lineage_loop res rid [] of
             None \<Rightarrow> None
           | Some (Inl e) \<Rightarrow> Some (Inl e)
           | Some (Inr ids) \<Rightarrow>
               let req = \<lparr>req_ID = rid, req_WorkspacePolicy = None, req_lineage = ids\<rparr>
               in case req_Workspace req of
                    None \<Rightarrow> Some (Inr req)
                  | Some wid \<Rightarrow>
                      (case getPolicy wid of
                         Inl e \<Rightarrow> Some (Inl (Wrap ''fetching workspace policy'' e))
                       | Inr pol \<Rightarrow> Some (Inr (req\<lparr>req_WorkspacePolicy := Some pol\<rparr>))))"

text \<open>
  The resolvers that the services register, over the look-ups of their tables: the organization of
  a workspace, team, SSH key or variable set, the workspace of a run, state version, configuration
  version or run trigger, and the parent of a variable, which is a workspace or a variable set.
\<close>

record parent_tables =
  pt_workspace :: "TfeID \<rightharpoonup> string"
  pt_team :: "TfeID \<rightharpoonup> string"
  pt_sshkey :: "TfeID \<rightharpoonup> string"
  pt_variable_set :: "TfeID \<rightharpoonup> string"
  pt_run :: "TfeID \<rightharpoonup> TfeID"
  pt_state_version :: "TfeID \<rightharpoonup> TfeID"
  pt_config_version :: "TfeID \<rightharpoonup> TfeID"
  pt_run_trigger :: "TfeID \<rightharpoonup> TfeID"
  pt_variable :: "TfeID \<rightharpoonup> TfeID"

fun pt_key :: "ID \<Rightarrow> TfeID option" where
  "pt_key (TfeID_ID t) = Some t"
| "pt_key (Pointer_ID i) = pt_key i"
| "pt_key _ = None"

definition parent_lookup :: "(TfeID \<rightharpoonup> 'a) \<Rightarrow> ('a \<Rightarrow> ID) \<Rightarrow> ID \<Rightarrow> ID result" where
  "parent_lookup tbl mk rid =
     (case pt_key rid of
        None \<Rightarrow> Inl ErrResourceNotFound
      | Some t \<Rightarrow> (case tbl t of None \<Rightarrow> Inl ErrResourceNotFound | Some p \<Rightarrow> Inr (mk p)))"

definition otf_resolvers :: "parent_tables \<Rightarrow> resolvers" where
  "otf_resolvers pt = map_of
     [(SSHKeyKind, parent_lookup (pt_sshkey pt) OrganizationName_ID),
      (TeamKind, parent_lookup (pt_team pt) OrganizationName_ID),
      (WorkspaceKind, parent_lookup (pt_workspace pt) OrganizationName_ID),
      (VariableKind, parent_lookup (pt_variable pt) TfeID_ID),
      (VariableSetKind, parent_lookup (pt_variable_set pt) OrganizationName_ID),
      (StateVersionKind, parent_lookup (pt_state_version pt) TfeID_ID),
      (ConfigVersionKind, parent_lookup (pt_config_version pt) TfeID_ID),
      (RunTriggerKind, parent_lookup (pt_run_trigger pt) TfeID_ID),
      (RunKind, parent_lookup (pt_run pt) TfeID_ID)]"

section \<open>Subjects\<close>

record Team =
  team_ID :: TfeID
  team_Name :: string
  team_ManageWorkspaces :: bool
  team_ManageVCS :: bool
  team_ManageModules :: bool
  team_Organization :: string

definition Team_IsOwners :: "Team \<Rightarrow> bool" where
  "Team_IsOwners t = (team_Name t = ''owners'')"

text \<open>\<open>req.Organization() != nil && req.Organization().String() != org.String()\<close>\<close>

definition other_organization :: "Request \<Rightarrow> string \<Rightarrow> bool" where
  "other_organization req org =
     (case req_Organization req of None \<Rightarrow> False | Some o' \<Rightarrow> ID_String o' \<noteq> org)"

definition Team_CanAccess :: "Team \<Rightarrow> Action \<Rightarrow> Kind \<Rightarrow> Request \<Rightarrow> bool" where
  "Team_CanAccess t action kind req =
     (if req_ID req = SiteID then False
      else if other_organization req (team_Organization t) then False
      else if Team_IsOwners t then True
      else if IsAllowed OrganizationMinPermissions action kind then True
      else if team_ManageWorkspaces t \<and> IsAllowed WorkspaceManagerRole action kind then True
      else if team_ManageVCS t \<and> IsAllowed VCSManagerRole action kind then True
      else if team_ManageModules t \<and> IsAllowed RegistryManagerRole action kind then True
      else if ID_Kind (req_ID req) = TeamKind then TfeID_ID (team_ID t) = req_ID req
      else case req_WorkspacePolicy req of
             Some pol \<Rightarrow> Policy_Check pol (TfeID_ID (team_ID t)) action kind
           | None \<Rightarrow> False)"

record User =
  user_ID :: TfeID
  user_CreatedAt :: gtime
  user_UpdatedAt :: gtime
  user_SiteAdmin :: bool
  user_Username :: string
  user_Teams :: "Team list"
  user_AvatarURL :: "string option"

definition SiteAdminID :: TfeID where
  "SiteAdminID = \<lparr>tfe_kind = UserKind, tfe_id = ''36atQC2oGQng7pVz''\<rparr>"

definition IsSiteAdmin :: "User \<Rightarrow> bool" where
  "IsSiteAdmin u = (user_SiteAdmin u \<or> user_ID u = SiteAdminID)"

definition IsTeamMember :: "User \<Rightarrow> TfeID \<Rightarrow> bool" where
  "IsTeamMember u tid = list_ex (\<lambda>t. team_ID t = tid) (user_Teams u)"

definition User_IsOwner :: "User \<Rightarrow> ID \<Rightarrow> bool" where
  "User_IsOwner u org =
     list_ex (\<lambda>t. OrganizationName_ID (team_Organization t) = org \<and> Team_IsOwners t) (user_Teams u)"

definition User_CanAccess :: "User \<Rightarrow> Action \<Rightarrow> Kind \<Rightarrow> Request \<Rightarrow> bool" where
  "User_CanAccess u action kind req =
     (if IsSiteAdmin u then True
      else if kind = OrganizationKind \<and> action = CreateAction then True
      else if kind = UserKind \<and> action = GetAction then True
      else if kind = GithubAppKind \<and> action = GetAction then True
      else if kind = UserKind \<and> action \<in> {CreateAction, ListAction} \<and>
              list_ex Team_IsOwners (user_Teams u) then True
      else if req_ID req = SiteID then False
      else list_ex (\<lambda>t. Team_CanAccess t action kind req) (user_Teams u))"

record OrganizationToken =
  ot_ID :: TfeID
  ot_CreatedAt :: gtime
  ot_Organization :: string
  ot_Expiry :: "gtime option"

definition OrganizationToken_CanAccess ::
  "OrganizationToken \<Rightarrow> Action \<Rightarrow> Kind \<Rightarrow> Request \<Rightarrow> bool" where
  "OrganizationToken_CanAccess u action kind req =
     (if req_ID req = SiteID then False
      else if other_organization req (ot_Organization u) then False
      else if kind = RunKind \<and>
              action \<in> {EnqueuePlanAction, ApplyAction, CancelAction, ForceCancelAction,
                        DiscardAction, CreateAction, GetAction, ListAction} then False
      else if kind = StateVersionKind \<and> action \<in> {CreateAction, RollbackAction} then False
      else if kind = ChunkKind \<and> action \<in> {GetAction, UploadAction} then False
      else True)"

definition RunnerMeta_CanAccess :: "RunnerMeta \<Rightarrow> Action \<Rightarrow> Kind \<Rightarrow> Request \<Rightarrow> bool" where
  "RunnerMeta_CanAccess m action kind req =
     (if req_ID req = SiteID then False
      else case rn_AgentPool m of
             Some pool \<Rightarrow>
               req_Organization req = Some (OrganizationName_ID (pool_Organization pool))
           | None \<Rightarrow> True)"

text \<open>The actions a job may take within its organization, and on its own workspace.\<close>

definition job_org_action :: "Action \<Rightarrow> Kind \<Rightarrow> bool" where
  "job_org_action action kind \<longleftrightarrow>
     kind = OrganizationKind \<and> action = GetAction \<or>
     kind = EntitlementKind \<and> action = GetAction \<or>
     kind = ModuleKind \<and> action \<in> {GetAction, ListAction} \<or>
     kind = PrivateKeyKind \<and> action = GetAction"

definition job_workspace_action :: "PhaseType \<Rightarrow> Action \<Rightarrow> Kind \<Rightarrow> bool" where
  "job_workspace_action phase action kind \<longleftrightarrow>
     kind = StateVersionKind \<and>
       (action \<in> {GetAction, DownloadAction} \<or> action = CreateAction \<and> phase = ApplyPhase) \<or>
     kind = WorkspaceKind \<and> action = GetAction \<or>
     kind = RunKind \<and>
       (action \<in> {GetAction, CancelAction} \<or> action = ApplyAction \<and> phase = PlanPhase) \<or>
     kind = VariableSetKind \<and> action = ListAction \<or>
     kind = VariableKind \<and> action = ListAction \<or>
     kind = ChunkKind \<and> action = UploadAction \<or>
     kind = ConfigVersionKind \<and> action = DownloadAction \<or>
     kind = PlanFileKind \<and> (action = GetAction \<or> action = UploadAction \<and> phase = PlanPhase) \<or>
     kind = LockFileKind \<and>
       (action = UploadAction \<and> phase = PlanPhase \<or> action = GetAction \<and> phase = ApplyPhase)"

definition Job_CanAccess :: "Job \<Rightarrow> Action \<Rightarrow> Kind \<Rightarrow> Request \<Rightarrow> bool" where
  "Job_CanAccess j action kind req =
     (if ID_Kind (req_ID req) = SiteKind then False
      else if other_organization req (job_Organization j) then False
      else if job_org_action action kind then True
      else if req_Workspace req = Some (TfeID_ID (job_WorkspaceID j))
      then job_workspace_action (job_Phase j) action kind
      else case req_WorkspacePolicy req of
             Some pol \<Rightarrow> Policy_Check pol (TfeID_ID (job_ID j)) action kind
           | None \<Rightarrow> False)"

text \<open>
  The subjects of a context. \<open>UnregisteredSubject\<close> embeds a nil interface: calling its access check
  is a nil dereference.
\<close>

datatype Subject =
    UserSubject User | TeamSubject Team | OrganizationTokenSubject OrganizationToken
  | RunnerSubject RunnerMeta | JobSubject Job | ManagerSubject | Superuser string
  | UnregisteredSubject "Pool option"

fun Subject_CanAccess :: "Subject \<Rightarrow> Action \<Rightarrow> Kind \<Rightarrow> Request \<Rightarrow> bool result" where
  "Subject_CanAccess (UserSubject u) action kind req = Inr (User_CanAccess u action kind req)"
| "Subject_CanAccess (TeamSubject t) action kind req = Inr (Team_CanAccess t action kind req)"
| "Subject_CanAccess (OrganizationTokenSubject t) action kind req =
     Inr (OrganizationToken_CanAccess t action kind req)"
| "Subject_CanAccess (RunnerSubject m) action kind req = Inr (RunnerMeta_CanAccess m action kind req)"
| "Subject_CanAccess (JobSubject j) action kind req = Inr (Job_CanAccess j action kind req)"
| "Subject_CanAccess ManagerSubject action kind req = Inr True"
| "Subject_CanAccess (Superuser n) action kind req = Inr True"
| "Subject_CanAccess (UnregisteredSubject p) action kind req = Inl (Panic ''nil pointer dereference'')"

section \<open>The authorizer (authorizer.go)\<close>

text \<open>
  The context: its subject, if any, and the instruction to skip authorization. The resource may be
  nil. The result is the subject that the source returns even on error, and the error.
\<close>

record authz_ctx =
  ctx_subject :: "Subject option"
  ctx_skipAuthz :: bool

definition Authorize ::
  "resolvers \<Rightarrow> (ID \<Rightarrow> Policy result) \<Rightarrow> authz_ctx \<Rightarrow> Action \<Rightarrow> Kind \<Rightarrow> ID option \<Rightarrow>
   (Subject option \<times> unit result) option" where
  "Authorize res getPolicy ctx action kind resourceID =
     (case resourceID of
        None \<Rightarrow> Some (None, Inl (Errorf ''authorization request resourceID parameter cannot be nil''))
      | Some rid \<Rightarrow>
          (case ctx_subject ctx of
             None \<Rightarrow> Some (None, Inl (Errorf ''no subject in context''))
           | Some subj \<Rightarrow>
               if ctx_skipAuthz ctx then Some (Some subj, Inr ())
               else (case generateRequest res getPolicy rid of
                       None \<Rightarrow> None
                     | Some (Inl e) \<Rightarrow> Some (Some subj, Inl e)
                     | Some (Inr ar) \<Rightarrow>
                         (case Subject_CanAccess subj action kind ar of
                            Inl e \<Rightarrow> Some (Some subj, Inl e)
                          | Inr ok \<Rightarrow>
                              Some (Some subj, if ok then Inr () else Inl ErrAccessNotPermitted)))))"

definition Authorizer_CanAccess ::
  "resolvers \<Rightarrow> (ID \<Rightarrow> Policy result) \<Rightarrow> authz_ctx \<Rightarrow> Action \<Rightarrow> Kind \<Rightarrow> ID option \<Rightarrow> bool option" where
  "Authorizer_CanAccess res getPolicy ctx action kind rid =
     map_option (\<lambda>(_, r). is_ok r) (Authorize res getPolicy ctx action kind rid)"

lemmas [authz_defs] =
  Team_CanAccess_def User_CanAccess_def OrganizationToken_CanAccess_def RunnerMeta_CanAccess_def
  Job_CanAccess_def Policy_Check_def Team_IsOwners_def IsSiteAdmin_def

section \<open>Lemmas: roles\<close>

lemma IsAllowed_inherits:
  "inherits r = Some p \<Longrightarrow> IsAllowed p action kind \<Longrightarrow> IsAllowed r action kind"
  by (cases r) auto

lemma role_chain:
  "inherits WorkspacePlanRole = Some WorkspaceReadRole"
  "inherits WorkspaceWriteRole = Some WorkspacePlanRole"
  "inherits WorkspaceAdminRole = Some WorkspaceWriteRole"
  "inherits WorkspaceManagerRole = Some WorkspaceAdminRole"
  by (simp_all add: WorkspacePlanRole_def WorkspaceWriteRole_def WorkspaceAdminRole_def
      WorkspaceManagerRole_def)

lemmas role_defs = OrganizationMinPermissions_def WorkspaceReadRole_def WorkspacePlanRole_def
  WorkspaceWriteRole_def WorkspaceAdminRole_def WorkspaceManagerRole_def VCSManagerRole_def
  RegistryManagerRole_def

section \<open>Lemmas: the lineage of a resource\<close>

text \<open>
  What makes the loop of \<open>generateRequest\<close> end: every resolver leads to an identifier whose kind has
  a smaller rank.
\<close>

locale ranked_resolvers =
  fixes res :: resolvers and rank :: "Kind \<Rightarrow> nat"
  assumes parent_rank:
    "res (ID_Kind rid) = Some f \<Longrightarrow> f rid = Inr pid \<Longrightarrow> rank (ID_Kind pid) < rank (ID_Kind rid)"
begin

lemma lineage_loop_total: "\<exists>r. lineage_loop res rid acc = Some r"
proof (induction "rank (ID_Kind rid)" arbitrary: rid acc rule: less_induct)
  case less
  show ?case
  proof (cases "res (ID_Kind rid)")
    case None
    then show ?thesis by (subst lineage_loop.simps) simp
  next
    case (Some f)
    show ?thesis
    proof (cases "f rid")
      case (Inl e)
      with Some show ?thesis by (subst lineage_loop.simps) simp
    next
      case (Inr pid)
      with Some less.hyps [OF parent_rank [OF Some Inr]] show ?thesis
        by (subst lineage_loop.simps) simp
    qed
  qed
qed

lemma generateRequest_total: "\<exists>r. generateRequest res getPolicy rid = Some r"
  using lineage_loop_total [of rid "[]"]
  by (auto simp: generateRequest_def Let_def split: sum.splits option.splits)

end

lemma generateRequest_ID:
  "generateRequest res getPolicy rid = Some (Inr req) \<Longrightarrow> req_ID req = rid"
  by (auto simp: generateRequest_def Let_def split: if_splits option.splits sum.splits)

text \<open>The tables only hold identifiers of the kind that their column refers to.\<close>

definition parent_tables_ok :: "parent_tables \<Rightarrow> bool" where
  "parent_tables_ok pt \<longleftrightarrow>
     (\<forall>m \<in> {pt_run pt, pt_state_version pt, pt_config_version pt, pt_run_trigger pt}.
        \<forall>t \<in> ran m. tfe_kind t = WorkspaceKind) \<and>
     (\<forall>t \<in> ran (pt_variable pt). tfe_kind t \<in> {WorkspaceKind, VariableSetKind})"

definition kind_rank :: "Kind \<Rightarrow> nat" where
  "kind_rank k =
     (if k \<in> {WorkspaceKind, TeamKind, SSHKeyKind, VariableSetKind} then 1
      else if k \<in> {RunKind, StateVersionKind, ConfigVersionKind, RunTriggerKind, VariableKind} then 2
      else 0)"

lemma parent_lookup_ok:
  "parent_lookup tbl mk rid = Inr pid \<Longrightarrow> \<exists>p \<in> ran tbl. pid = mk p"
  by (auto simp: parent_lookup_def ran_def split: option.splits)

lemma otf_parent_rank:
  assumes "parent_tables_ok pt" "otf_resolvers pt (ID_Kind rid) = Some f" "f rid = Inr pid"
  shows "kind_rank (ID_Kind pid) < kind_rank (ID_Kind rid)"
  using assms
  by (auto simp: otf_resolvers_def parent_tables_ok_def kind_rank_def kind_defs
      split: if_splits dest!: parent_lookup_ok)

interpretation otf: ranked_resolvers
  "if parent_tables_ok pt then otf_resolvers pt else Map.empty" kind_rank for pt
  by unfold_locales (auto split: if_splits intro: otf_parent_rank)

lemma otf_generateRequest_total:
  assumes "parent_tables_ok pt"
  shows "\<exists>r. generateRequest (otf_resolvers pt) getPolicy rid = Some r"
  using otf.generateRequest_total [of pt getPolicy rid] assms by simp

section \<open>Lemmas: what a subject can reach\<close>

text \<open>
  The organizations a subject belongs to: \<open>None\<close> for the subjects that act for the whole site (the
  superuser, the manager, site admins and server runners).
\<close>

fun subject_organizations :: "Subject \<Rightarrow> string list option" where
  "subject_organizations (UserSubject u) =
     (if IsSiteAdmin u then None else Some (map team_Organization (user_Teams u)))"
| "subject_organizations (TeamSubject t) = Some [team_Organization t]"
| "subject_organizations (OrganizationTokenSubject t) = Some [ot_Organization t]"
| "subject_organizations (RunnerSubject m) = map_option (\<lambda>p. [pool_Organization p]) (rn_AgentPool m)"
| "subject_organizations (JobSubject j) = Some [job_Organization j]"
| "subject_organizations (UnregisteredSubject p) = Some []"
| "subject_organizations _ = None"

text \<open>The actions that any user may carry out wherever the resource is.\<close>

definition any_user_action :: "Subject \<Rightarrow> Action \<Rightarrow> Kind \<Rightarrow> bool" where
  "any_user_action subj action kind =
     (case subj of
        UserSubject u \<Rightarrow>
          kind = OrganizationKind \<and> action = CreateAction \<or>
          kind = UserKind \<and> action = GetAction \<or>
          kind = GithubAppKind \<and> action = GetAction \<or>
          kind = UserKind \<and> action \<in> {CreateAction, ListAction} \<and>
            list_ex Team_IsOwners (user_Teams u)
      | _ \<Rightarrow> False)"

lemma Team_CanAccess_org:
  "Team_CanAccess t action kind req \<Longrightarrow> req_Organization req = Some o' \<Longrightarrow>
     ID_String o' = team_Organization t"
  by (auto simp: Team_CanAccess_def other_organization_def split: if_splits)

lemma Subject_CanAccess_org:
  assumes "Subject_CanAccess subj action kind req = Inr True" "req_Organization req = Some o'"
    and "subject_organizations subj = Some orgs" "\<not> any_user_action subj action kind"
  shows "ID_String o' \<in> set orgs"
proof (cases subj)
  case (UserSubject u)
  with assms have "\<not> IsSiteAdmin u" by (auto split: if_splits)
  with UserSubject assms obtain t where "t \<in> set (user_Teams u)" "Team_CanAccess t action kind req"
    by (auto simp: User_CanAccess_def any_user_action_def list_ex_iff split: if_splits)
  with Team_CanAccess_org assms(2) have "ID_String o' = team_Organization t" by blast
  with UserSubject assms(3) \<open>t \<in> _\<close> \<open>\<not> IsSiteAdmin u\<close> show ?thesis by auto
next
  case (TeamSubject t)
  with assms Team_CanAccess_org show ?thesis by fastforce
next
  case (OrganizationTokenSubject t)
  with assms show ?thesis
    by (auto simp: OrganizationToken_CanAccess_def other_organization_def split: if_splits)
next
  case (RunnerSubject m)
  with assms show ?thesis
    by (auto simp: RunnerMeta_CanAccess_def split: if_splits option.splits)
next
  case (JobSubject j)
  with assms show ?thesis
    by (auto simp: Job_CanAccess_def other_organization_def split: if_splits)
qed (use assms in auto)

lemma Authorize_ok:
  assumes "Authorize res getPolicy ctx action kind (Some rid) = Some (s, Inr ())" "\<not> ctx_skipAuthz ctx"
  obtains subj req where "ctx_subject ctx = Some subj"
    "generateRequest res getPolicy rid = Some (Inr req)"
    "Subject_CanAccess subj action kind req = Inr True"
  using assms by (auto simp: Authorize_def split: option.splits sum.splits if_splits)

lemma lineage_no_resolver:
  "res (ID_Kind rid) = None \<Longrightarrow> lineage_loop res rid acc = Some (Inr acc)"
  by (subst lineage_loop.simps) simp

lemma lineage_parent:
  "res (ID_Kind rid) = Some f \<Longrightarrow> f rid = Inr pid \<Longrightarrow>
   lineage_loop res rid acc = lineage_loop res pid (acc @ [pid])"
  by (subst lineage_loop.simps) simp

lemma otf_resolvers_at:
  "otf_resolvers pt RunKind = Some (parent_lookup (pt_run pt) TfeID_ID)"
  "otf_resolvers pt WorkspaceKind = Some (parent_lookup (pt_workspace pt) OrganizationName_ID)"
  "otf_resolvers pt OrganizationKind = None"
  "otf_resolvers pt AgentPoolKind = None"
  by (simp_all add: otf_resolvers_def kind_defs)

text \<open>The request for a workspace, and for a run of a workspace.\<close>

lemma generateRequest_workspace:
  assumes "tfe_kind w = WorkspaceKind" "pt_workspace pt w = Some org"
    "getPolicy (TfeID_ID w) = Inr pol"
  shows "generateRequest (otf_resolvers pt) getPolicy (TfeID_ID w) =
    Some (Inr \<lparr>req_ID = TfeID_ID w, req_WorkspacePolicy = Some pol,
               req_lineage = [OrganizationName_ID org]\<rparr>)"
  using assms
  by (simp add: generateRequest_def lineage_parent [where pid = "OrganizationName_ID org"]
      lineage_no_resolver otf_resolvers_at parent_lookup_def req_Workspace_def req_ancestor_def)

lemma WorkspaceKind_neq [simp]: "RunKind \<noteq> WorkspaceKind" "RunKind \<noteq> OrganizationKind"
  "WorkspaceKind \<noteq> OrganizationKind" "OrganizationKind \<noteq> WorkspaceKind" "WorkspaceKind \<noteq> SiteKind"
  "AgentPoolKind \<noteq> WorkspaceKind" "AgentPoolKind \<noteq> OrganizationKind" "RunKind \<noteq> SiteKind"
  by (simp_all add: kind_defs)

lemma generateRequest_run:
  assumes "tfe_kind r = RunKind" "pt_run pt r = Some w" "tfe_kind w = WorkspaceKind"
    "pt_workspace pt w = Some org" "getPolicy (TfeID_ID w) = Inr pol"
  shows "generateRequest (otf_resolvers pt) getPolicy (TfeID_ID r) =
    Some (Inr \<lparr>req_ID = TfeID_ID r, req_WorkspacePolicy = Some pol,
               req_lineage = [TfeID_ID w, OrganizationName_ID org]\<rparr>)"
  using assms
  by (simp add: generateRequest_def lineage_parent [where pid = "OrganizationName_ID org"]
      lineage_parent [where pid = "TfeID_ID w"]
      lineage_no_resolver otf_resolvers_at parent_lookup_def req_Workspace_def req_ancestor_def)

section \<open>Properties\<close>


definition demo_ws :: TfeID where "demo_ws = \<lparr>tfe_kind = ''ws'', tfe_id = ''1''\<rparr>"
definition demo_run :: TfeID where "demo_run = \<lparr>tfe_kind = ''run'', tfe_id = ''1''\<rparr>"
definition demo_pool :: TfeID where "demo_pool = \<lparr>tfe_kind = ''apool'', tfe_id = ''1''\<rparr>"

definition demo_tables :: parent_tables where
  "demo_tables =
     \<lparr>pt_workspace = [demo_ws \<mapsto> ''acme''], pt_team = Map.empty, pt_sshkey = Map.empty,
      pt_variable_set = Map.empty, pt_run = [demo_run \<mapsto> demo_ws], pt_state_version = Map.empty,
      pt_config_version = Map.empty, pt_run_trigger = Map.empty, pt_variable = Map.empty\<rparr>"

definition demo_team :: "string \<Rightarrow> string \<Rightarrow> Team" where
  "demo_team name org =
     \<lparr>team_ID = \<lparr>tfe_kind = ''team'', tfe_id = ''1''\<rparr>, team_Name = name,
      team_ManageWorkspaces = False, team_ManageVCS = False, team_ManageModules = False,
      team_Organization = org\<rparr>"

definition demo_policy :: "ID \<Rightarrow> Policy result" where
  "demo_policy i =
     Inr \<lparr>pol_Permissions = [\<lparr>perm_TeamID = team_ID (demo_team [] []), perm_Role = WorkspacePlanRole\<rparr>],
          pol_globalRemoteState = True\<rparr>"

definition demo_ctx :: "Subject \<Rightarrow> authz_ctx" where
  "demo_ctx s = \<lparr>ctx_subject = Some s, ctx_skipAuthz = False\<rparr>"

lemmas demo_defs = demo_ws_def demo_run_def demo_pool_def demo_tables_def demo_team_def
  demo_policy_def demo_ctx_def

lemma demo_ctx_simps [simp]: "ctx_subject (demo_ctx s) = Some s" "\<not> ctx_skipAuthz (demo_ctx s)"
  by (simp_all add: demo_ctx_def)

lemma demo_request:
  "generateRequest (otf_resolvers demo_tables) demo_policy (TfeID_ID demo_run) =
   Some (Inr \<lparr>req_ID = TfeID_ID demo_run,
     req_WorkspacePolicy = Some (projr (demo_policy (TfeID_ID demo_ws))),
     req_lineage = [TfeID_ID demo_ws, OrganizationName_ID ''acme'']\<rparr>)"
  by (rule generateRequest_run) (simp_all add: demo_defs kind_defs)


text \<open>
  C28: the walk up the parents of a resource ends. Over the resolvers that the services register,
  \<open>Authorize\<close> returns for every resource, subject and action, as long as the tables refer to
  resources of the right kind.
\<close>

theorem Authorize_terminates:
  assumes "parent_tables_ok pt"
  shows "\<exists>s r. Authorize (otf_resolvers pt) getPolicy ctx action kind rid = Some (s, r)"
proof (cases rid)
  case None
  then show ?thesis by (simp add: Authorize_def)
next
  case (Some i)
  obtain g where "generateRequest (otf_resolvers pt) getPolicy i = Some g"
    using otf_generateRequest_total [OF assms] by blast
  with Some show ?thesis by (auto simp: Authorize_def split: option.splits sum.splits)
qed

lemma Authorize_terminates_witness:
  "\<exists>s r. Authorize (otf_resolvers demo_tables) demo_policy (demo_ctx (Superuser ''root'')) GetAction
     RunKind (Some (TfeID_ID demo_run)) = Some (s, r)"
  by (rule Authorize_terminates)
    (simp add: parent_tables_ok_def demo_tables_def demo_ws_def demo_run_def kind_defs)

text \<open>
  C26: a job's least privilege. A job may create a state version only in the apply phase and only in
  its own workspace, enqueue an apply only in the plan phase and only in its own workspace, and never
  creates a run or touches the variables, permissions or lock of any workspace.
\<close>

theorem Job_CanAccess_least_privilege:
  assumes "tfe_kind (job_ID j) = JobKind" "Job_CanAccess j action kind req"
  shows "(kind = StateVersionKind \<and> action = CreateAction \<longrightarrow>
            job_Phase j = ApplyPhase \<and> req_Workspace req = Some (TfeID_ID (job_WorkspaceID j))) \<and>
         (kind = RunKind \<and> action = ApplyAction \<longrightarrow>
            job_Phase j = PlanPhase \<and> req_Workspace req = Some (TfeID_ID (job_WorkspaceID j))) \<and>
         \<not> (kind = RunKind \<and> action = CreateAction) \<and>
         \<not> (kind = VariableKind \<and> action \<in> {CreateAction, UpdateAction, DeleteAction}) \<and>
         \<not> (kind = WorkspaceKind \<and> action \<noteq> GetAction)"
  using assms
  by (auto simp: Job_CanAccess_def job_org_action_def job_workspace_action_def Policy_Check_def
      kind_defs split: if_splits option.splits)

definition demo_job :: "PhaseType \<Rightarrow> Job" where
  "demo_job ph = \<lparr>job_ID = \<lparr>tfe_kind = JobKind, tfe_id = ''1''\<rparr>, job_RunID = demo_run, job_Phase = ph,
     job_Status = JobRunning, job_AgentPoolID = None, job_Organization = ''acme'',
     job_WorkspaceID = demo_ws, job_RunnerID = Some \<lparr>tfe_kind = RunnerKind, tfe_id = ''1''\<rparr>\<rparr>"

definition demo_req :: Request where
  "demo_req = \<lparr>req_ID = TfeID_ID demo_ws, req_WorkspacePolicy = None,
     req_lineage = [OrganizationName_ID ''acme'']\<rparr>"

lemma Job_CanAccess_least_privilege_witness:
  "Job_CanAccess (demo_job ApplyPhase) CreateAction StateVersionKind demo_req \<and>
   \<not> Job_CanAccess (demo_job PlanPhase) CreateAction StateVersionKind demo_req"
proof -
  have "Job_CanAccess (demo_job ApplyPhase) CreateAction StateVersionKind demo_req"
    by (simp add: Job_CanAccess_def job_org_action_def job_workspace_action_def demo_job_def
        demo_req_def demo_ws_def other_organization_def req_Organization_def req_Workspace_def
        req_ancestor_def kind_defs)
  moreover have "\<not> Job_CanAccess (demo_job PlanPhase) CreateAction StateVersionKind demo_req"
    using Job_CanAccess_least_privilege [of "demo_job PlanPhase" CreateAction StateVersionKind demo_req]
    by (auto simp: demo_job_def)
  ultimately show ?thesis ..
qed

text \<open>
  agent pools have no parent resolver, so a request scoped to a pool carries no organization and
  the owners of any organization pass the check for every action on every kind (\<open>ListRunners\<close> with a
  pool ID relies on this check alone).
\<close>

theorem pool_scope_any_owners:
  assumes "tfe_kind pid = AgentPoolKind" "team_Name t = ''owners''"
  shows "Authorize (otf_resolvers pt) getPolicy
      \<lparr>ctx_subject = Some (TeamSubject t), ctx_skipAuthz = False\<rparr> action kind
      (Some (Pointer_ID (TfeID_ID pid))) = Some (Some (TeamSubject t), Inr ())"
proof -
  have "generateRequest (otf_resolvers pt) getPolicy (Pointer_ID (TfeID_ID pid)) =
      Some (Inr \<lparr>req_ID = Pointer_ID (TfeID_ID pid), req_WorkspacePolicy = None, req_lineage = []\<rparr>)"
    using assms(1)
    by (simp add: generateRequest_def lineage_no_resolver otf_resolvers_at req_Workspace_def
        req_ancestor_def)
  with assms show ?thesis
    by (simp add: Authorize_def Team_CanAccess_def Team_IsOwners_def other_organization_def
        req_Organization_def req_ancestor_def)
qed

lemma pool_scope_any_owners_witness:
  "Authorize (otf_resolvers demo_tables) demo_policy
      \<lparr>ctx_subject = Some (TeamSubject (demo_team ''owners'' ''rival'')), ctx_skipAuthz = False\<rparr>
      ListAction RunnerKind (Some (Pointer_ID (TfeID_ID demo_pool))) =
   Some (Some (TeamSubject (demo_team ''owners'' ''rival'')), Inr ())"
  by (rule pool_scope_any_owners) (simp_all add: demo_pool_def demo_team_def kind_defs)

end
