(* ===== verification/RunLifecycle.thy ===== *)
theory RunLifecycle
  imports Run
begin

text \<open>
  The life cycle of a run as a state machine: one operation per method of \<open>Run\<close> that the services
  call, the runs reachable from \<open>NewRun\<close> under any sequence of operations and any advancing clock,
  and the invariant that relates the status of the run to the statuses of its phases and to the
  recorded timestamps. \<open>PeriodReport\<close> is shown to account for the whole elapsed time.
\<close>

section \<open>Field lemmas\<close>

lemma set_fields [simp]:
  "run_Status (setPlan t s r) = run_Status r"
  "run_Status (setApply t s r) = run_Status r"
  "run_Status (run_updateStatus n t r st) = st"
  "ph_Status (run_Plan (setPlan t s r)) = s"
  "run_Plan (setApply t s r) = run_Plan r"
  "run_Plan (run_updateStatus n t r st) = run_Plan r"
  "ph_Status (run_Apply (setApply t s r)) = s"
  "run_Apply (setPlan t s r) = run_Apply r"
  "run_Apply (run_updateStatus n t r st) = run_Apply r"
  "run_StatusTimestamps (setPlan t s r) = run_StatusTimestamps r"
  "run_StatusTimestamps (setApply t s r) = run_StatusTimestamps r"
  "run_CancelSignaledAt (setPlan t s r) = run_CancelSignaledAt r"
  "run_CancelSignaledAt (setApply t s r) = run_CancelSignaledAt r"
  "run_CancelSignaledAt (run_updateStatus n t r st) = run_CancelSignaledAt r"
  by (simp_all add: setPlan_def setApply_def run_updateStatus_def Phase_UpdateStatus_def)

lemma set_identity [simp]:
  "run_ID (setPlan t s r) = run_ID r" "run_ID (setApply t s r) = run_ID r"
  "run_ID (run_updateStatus n t r st) = run_ID r"
  "run_WorkspaceID (setPlan t s r) = run_WorkspaceID r"
  "run_WorkspaceID (setApply t s r) = run_WorkspaceID r"
  "run_WorkspaceID (run_updateStatus n t r st) = run_WorkspaceID r"
  "run_PlanOnly (setPlan t s r) = run_PlanOnly r" "run_PlanOnly (setApply t s r) = run_PlanOnly r"
  "run_PlanOnly (run_updateStatus n t r st) = run_PlanOnly r"
  "run_AutoApply (setPlan t s r) = run_AutoApply r" "run_AutoApply (setApply t s r) = run_AutoApply r"
  "run_AutoApply (run_updateStatus n t r st) = run_AutoApply r"
  "run_Organization (setPlan t s r) = run_Organization r"
  "run_Organization (setApply t s r) = run_Organization r"
  "run_Organization (run_updateStatus n t r st) = run_Organization r"
  "run_CostEstimationEnabled (setPlan t s r) = run_CostEstimationEnabled r"
  "run_CostEstimationEnabled (setApply t s r) = run_CostEstimationEnabled r"
  "run_CostEstimationEnabled (run_updateStatus n t r st) = run_CostEstimationEnabled r"
  by (simp_all add: setPlan_def setApply_def run_updateStatus_def)

lemma HasChanges_set [simp]:
  "Run_HasChanges (setPlan t s r) = Run_HasChanges r"
  "Run_HasChanges (setApply t s r) = Run_HasChanges r"
  "Run_HasChanges (run_updateStatus n t r st) = Run_HasChanges r"
  by (simp_all add: Run_HasChanges_def Phase_HasChanges_def setPlan_def setApply_def
      run_updateStatus_def Phase_UpdateStatus_def)

lemma timestamps_set [simp]:
  "run_StatusTimestamps (run_updateStatus n t r st) =
     run_StatusTimestamps r @ [\<lparr>st_Status = st, st_Timestamp = CurrentTimestamp n t\<rparr>]"
  by (simp add: run_updateStatus_def)

section \<open>Operations as data\<close>

datatype run_op =
    OpEnqueuePlan | OpEnqueueApply | OpStart | OpFinish PhaseType bool
  | OpDiscard | OpCancel bool bool | OpPlanReport Report Report | OpApplyReport Report

text \<open>
  The last two are the writes of \<open>CreatePlanReport\<close> and \<open>CreateApplyReport\<close> as the run that is read
  back shows them.
\<close>

fun exec_op :: "run_op \<Rightarrow> clock \<Rightarrow> Run \<Rightarrow> Run result" where
  "exec_op OpEnqueuePlan clk r = Run_EnqueuePlan clk r"
| "exec_op OpEnqueueApply clk r = Run_EnqueueApply clk r"
| "exec_op OpStart clk r = Run_Start clk r"
| "exec_op (OpFinish ph e) clk r =
     (case Run_Finish clk ph e r of Inl err \<Rightarrow> Inl err | Inr (r', _) \<Rightarrow> Inr r')"
| "exec_op OpDiscard clk r = Discard clk r"
| "exec_op (OpCancel isUser force) clk r = Cancel clk isUser force r"
| "exec_op (OpPlanReport rr out) clk r =
     Inr (r\<lparr>run_Plan := (run_Plan r)\<lparr>ph_ResourceReport := Some rr, ph_OutputReport := Some out\<rparr>\<rparr>)"
| "exec_op (OpApplyReport rr) clk r =
     Inr (r\<lparr>run_Apply := (run_Apply r)\<lparr>ph_ResourceReport := Some rr\<rparr>\<rparr>)"

text \<open>
  \<open>reachable_run t r\<close>: \<open>r\<close> arises from a new run by operations, and no clock reading so far is
  later than \<open>t\<close>.
\<close>

inductive reachable_run :: "gtime \<Rightarrow> Run \<Rightarrow> bool" where
  new: "mono clk \<Longrightarrow> ro_now opts = None \<Longrightarrow> clk 4 \<le> t \<Longrightarrow>
        reachable_run t (NewRun rnd clk ws cv opts)"
| op: "reachable_run t r \<Longrightarrow> mono clk \<Longrightarrow> t \<le> clk 0 \<Longrightarrow> clk 4 \<le> t' \<Longrightarrow>
        exec_op opn clk r = Inr r' \<Longrightarrow> reachable_run t' r'"

section \<open>The phase table\<close>

text \<open>Which statuses the plan and the apply phase may have for each status of the run.\<close>

fun phases_ok :: "Status \<Rightarrow> PhaseStatus \<Rightarrow> PhaseStatus \<Rightarrow> bool" where
  "phases_ok Pending p a = (p = PhasePending \<and> a = PhasePending)"
| "phases_ok PlanQueued p a = (p = PhaseQueued \<and> a = PhasePending)"
| "phases_ok Planning p a = (p = PhaseRunning \<and> a = PhasePending)"
| "phases_ok Planned p a = (p = PhaseFinished \<and> a = PhasePending)"
| "phases_ok CostEstimated p a = (p = PhaseFinished \<and> a = PhasePending)"
| "phases_ok PlannedAndFinished p a = (p = PhaseFinished \<and> a = PhaseUnreachable)"
| "phases_ok ApplyQueued p a = (p = PhaseFinished \<and> a = PhaseQueued)"
| "phases_ok Applying p a = (p = PhaseFinished \<and> a = PhaseRunning)"
| "phases_ok Applied p a = (p = PhaseFinished \<and> a = PhaseFinished)"
| "phases_ok Errored p a =
     (p = PhaseErrored \<and> a = PhaseUnreachable \<or> p = PhaseFinished \<and> a = PhaseErrored)"
| "phases_ok Discarded p a = (p \<in> {PhasePending, PhaseFinished} \<and> a = PhaseUnreachable)"
| "phases_ok Canceled p a =
     (p \<noteq> PhaseQueued \<and> p \<noteq> PhaseRunning \<and> a \<noteq> PhaseQueued \<and> a \<noteq> PhaseRunning)"
| "phases_ok ForceCanceled p a =
     (p = PhaseCanceled \<and> a = PhaseUnreachable \<or>
      p = PhaseFinished \<and> a \<in> {PhaseCanceled, PhaseUnreachable, PhasePending})"
| "phases_ok Confirmed p a = False"

definition run_wf :: "Run \<Rightarrow> bool" where
  "run_wf r \<longleftrightarrow>
     phases_ok (run_Status r) (ph_Status (run_Plan r)) (ph_Status (run_Apply r)) \<and>
     run_StatusTimestamps r \<noteq> [] \<and> st_Status (last (run_StatusTimestamps r)) = run_Status r \<and>
     (run_CancelSignaledAt r \<noteq> None \<longrightarrow> run_Status r \<notin> {Pending, PlanQueued})"

lemma run_wfI:
  "phases_ok (run_Status r) (ph_Status (run_Plan r)) (ph_Status (run_Apply r)) \<Longrightarrow>
   run_StatusTimestamps r \<noteq> [] \<Longrightarrow> st_Status (last (run_StatusTimestamps r)) = run_Status r \<Longrightarrow>
   (run_CancelSignaledAt r \<noteq> None \<longrightarrow> run_Status r \<notin> {Pending, PlanQueued}) \<Longrightarrow> run_wf r"
  by (simp add: run_wf_def)

lemma NewRun_simps [simp]:
  "run_Status (NewRun rnd clk ws cv opts) = Pending"
  "run_CancelSignaledAt (NewRun rnd clk ws cv opts) = None"
  "run_WorkspaceID (NewRun rnd clk ws cv opts) = ws_ID ws"
  "ph_Status (run_Plan (NewRun rnd clk ws cv opts)) = PhasePending"
  "ph_Status (run_Apply (NewRun rnd clk ws cv opts)) = PhasePending"
  "run_StatusTimestamps (NewRun rnd clk ws cv opts) =
     [\<lparr>st_Status = Pending, st_Timestamp = CurrentTimestamp (ro_now opts) (clk 3)\<rparr>]"
  by (simp_all add: NewRun_def Let_def run_updateStatus_def newPhase_def Phase_UpdateStatus_def)

lemma NewRun_wf: "run_wf (NewRun rnd clk ws cv opts)"
  by (simp add: run_wf_def)

text \<open>
  What each operation does to the three statuses and to the timestamps, as elimination of a
  successful result. \<open>changed r r' s\<close>: the status moved to \<open>s\<close>, recorded by new timestamps.
\<close>

lemma EnqueuePlan_ok:
  "Run_EnqueuePlan clk r = Inr r' \<longleftrightarrow>
     run_Status r = Pending \<and> r' = setPlan (clk 1) PhaseQueued (setStatus (clk 0) PlanQueued r)"
  by (auto simp: Run_EnqueuePlan_def split: if_splits)

lemma EnqueueApply_ok:
  "Run_EnqueueApply clk r = Inr r' \<longleftrightarrow>
     run_Status r \<in> {Planned, CostEstimated} \<and>
     r' = setApply (clk 1) PhaseQueued (setStatus (clk 0) ApplyQueued r)"
  by (auto simp: Run_EnqueueApply_def split: if_splits)

lemma Start_ok:
  "Run_Start clk r = Inr r' \<longleftrightarrow>
     run_Status r = PlanQueued \<and> r' = setPlan (clk 1) PhaseRunning (setStatus (clk 0) Planning r) \<or>
     run_Status r = ApplyQueued \<and> r' = setApply (clk 1) PhaseRunning (setStatus (clk 0) Applying r)"
  by (cases "run_Status r") (auto simp: Run_Start_def)

lemma Discard_ok:
  "Discard clk r = Inr r' \<longleftrightarrow>
     run_Status r \<in> {Pending, Planned, CostEstimated} \<and>
     r' = setApply (clk 2) PhaseUnreachable (setStatus (clk 0) Discarded r)"
  by (cases "run_Status r") (auto simp: Discard_def Discardable_def Let_def)

lemma Finish_ok:
  assumes "Run_Finish clk ph e r = Inr (r', b)" "run_Status r \<noteq> Canceled"
  shows "(ph = PlanPhase \<and> run_Status r = Planning \<or> ph = ApplyPhase \<and> run_Status r = Applying) \<and>
    run_Status r' =
      (if ph = ApplyPhase then (if e then Errored else Applied)
       else if e then Errored
       else if \<not> Run_HasChanges r \<or> run_PlanOnly r then PlannedAndFinished
       else if run_CostEstimationEnabled r then CostEstimated else Planned) \<and>
    (b \<longleftrightarrow> ph = PlanPhase \<and> \<not> e \<and> Run_HasChanges r \<and> \<not> run_PlanOnly r \<and> run_AutoApply r)"
  using assms by (cases ph) (auto simp: Run_Finish_def Let_def split: if_splits)

lemma Finish_canceled: "run_Status r = Canceled \<Longrightarrow> Run_Finish clk ph e r = Inr (r, False)"
  by (simp add: Run_Finish_def)

lemma exec_op_wf:
  assumes "run_wf r" "exec_op opn clk r = Inr r'"
  shows "run_wf r'"
proof (cases opn)
  case OpEnqueuePlan
  with assms show ?thesis by (auto simp: run_wf_def EnqueuePlan_ok)
next
  case OpEnqueueApply
  with assms show ?thesis by (auto simp: run_wf_def EnqueueApply_ok)
next
  case OpStart
  with assms show ?thesis by (auto simp: run_wf_def Start_ok)
next
  case (OpFinish ph e)
  with assms show ?thesis
    by (cases ph) (auto simp: run_wf_def Run_Finish_def Let_def split: if_splits)
next
  case OpDiscard
  with assms show ?thesis by (auto simp: run_wf_def Discard_ok)
next
  case (OpCancel u f)
  with assms show ?thesis
    by (cases "run_Status r")
      (auto simp: run_wf_def Cancel_def Cancel_phases_def ForceCancelable_def
        ForceCancelAvailableAt_def Run_Done_def split: if_splits)
next
  case (OpPlanReport a b)
  with assms show ?thesis by (auto simp: run_wf_def)
next
  case (OpApplyReport a)
  with assms show ?thesis by (auto simp: run_wf_def)
qed

lemma reachable_run_wf: "reachable_run t r \<Longrightarrow> run_wf r"
  by (induction rule: reachable_run.induct) (auto intro: NewRun_wf exec_op_wf)

section \<open>Progress and finality\<close>

text \<open>A rank that every change of status raises.\<close>

fun status_rank :: "Status \<Rightarrow> nat" where
  "status_rank Pending = 0"
| "status_rank PlanQueued = 1"
| "status_rank Planning = 2"
| "status_rank Planned = 3"
| "status_rank CostEstimated = 3"
| "status_rank Confirmed = 3"
| "status_rank ApplyQueued = 4"
| "status_rank Applying = 5"
| "status_rank Canceled = 7"
| "status_rank s = 6"

lemma status_rank_le: "status_rank s \<le> 7"
  by (cases s) simp_all

lemma exec_op_rank:
  assumes "exec_op opn clk r = Inr r'"
  shows "run_Status r' = run_Status r \<or> status_rank (run_Status r) < status_rank (run_Status r')"
proof (cases opn)
  case (OpFinish ph e)
  with assms show ?thesis
    by (cases ph) (auto simp: Run_Finish_def Let_def split: if_splits)
next
  case (OpCancel u f)
  with assms show ?thesis
    by (cases "run_Status r")
      (auto simp: Cancel_def Cancel_phases_def ForceCancelable_def
        ForceCancelAvailableAt_def Run_Done_def split: if_splits)
qed (use assms in \<open>auto simp: EnqueuePlan_ok EnqueueApply_ok Start_ok Discard_ok\<close>)

text \<open>A run under a sequence of operations; a failing operation leaves it as it is.\<close>

fun exec_ops :: "(run_op \<times> clock) list \<Rightarrow> Run \<Rightarrow> Run" where
  "exec_ops [] r = r"
| "exec_ops ((opn, clk) # ops) r =
     (case exec_op opn clk r of Inl _ \<Rightarrow> exec_ops ops r | Inr r' \<Rightarrow> exec_ops ops r')"

fun status_trace :: "(run_op \<times> clock) list \<Rightarrow> Run \<Rightarrow> Status list" where
  "status_trace [] r = [run_Status r]"
| "status_trace ((opn, clk) # ops) r =
     run_Status r #
     (case exec_op opn clk r of Inl _ \<Rightarrow> status_trace ops r | Inr r' \<Rightarrow> status_trace ops r')"

lemma status_trace_hd: "\<exists>ss. status_trace ops r = run_Status r # ss"
  by (cases ops) auto

definition changes :: "Status list \<Rightarrow> nat" where
  "changes ss = length (filter (\<lambda>(a, b). a \<noteq> b) (zip ss (tl ss)))"

lemma changes_Cons: "changes (a # b # ss) = (if a = b then 0 else 1) + changes (b # ss)"
  by (simp add: changes_def)

lemma status_trace_changes:
  "status_rank (run_Status r) + changes (status_trace ops r) \<le> 7"
proof (induction ops r rule: status_trace.induct)
  case (1 r)
  then show ?case by (simp add: changes_def status_rank_le)
next
  case (2 opn clk ops r)
  show ?case
  proof (cases "exec_op opn clk r")
    case (Inl e)
    with 2 show ?thesis using status_trace_hd [of ops r] by (auto simp: changes_Cons)
  next
    case (Inr r')
    with 2 have "status_rank (run_Status r') + changes (status_trace ops r') \<le> 7" by simp
    with exec_op_rank [OF Inr] Inr show ?thesis
      using status_trace_hd [of ops r'] by (auto simp: changes_Cons)
  qed
qed

lemma done_rejects:
  assumes "Run_Done r"
  shows "\<not> is_ok (Run_EnqueuePlan clk r)" "\<not> is_ok (Run_EnqueueApply clk r)"
    "\<not> is_ok (Run_Start clk r)" "\<not> is_ok (Discard clk r)" "\<not> is_ok (Cancel clk u True r)"
    "run_Status r \<noteq> Canceled \<Longrightarrow> \<not> is_ok (Run_Finish clk ph e r)"
proof -
  from assms have "run_Status r \<in> {Applied, PlannedAndFinished, Discarded, Canceled, ForceCanceled, Errored}"
    by (simp add: Run_Done_def Done_iff)
  then show "\<not> is_ok (Run_EnqueuePlan clk r)" "\<not> is_ok (Run_EnqueueApply clk r)"
    "\<not> is_ok (Run_Start clk r)" "\<not> is_ok (Discard clk r)"
    "run_Status r \<noteq> Canceled \<Longrightarrow> \<not> is_ok (Run_Finish clk ph e r)"
    by (auto simp: Run_EnqueuePlan_def Run_EnqueueApply_def Run_Start_def Discard_def Discardable_def
        Run_Finish_def split: PhaseType.splits)
  from assms show "\<not> is_ok (Cancel clk u True r)"
    by (simp add: Cancel_def ForceCancelable_def ForceCancelAvailableAt_def)
qed

section \<open>Timestamps\<close>

text \<open>All timestamps lie between the recorded ones and the clock; they are recorded in order.\<close>

definition ts_ok :: "gtime \<Rightarrow> Run \<Rightarrow> bool" where
  "ts_ok t r \<longleftrightarrow> sorted (map st_Timestamp (run_StatusTimestamps r)) \<and>
     (\<forall>x \<in> set (run_StatusTimestamps r). st_Timestamp x \<le> CurrentTimestamp None t)"

text \<open>The timestamps an operation appends are clock readings \<open>clk i\<close> with \<open>i \<le> 3\<close>, in order.\<close>

definition appends :: "clock \<Rightarrow> Run \<Rightarrow> Run \<Rightarrow> bool" where
  "appends clk r r' \<longleftrightarrow> (\<exists>is ss. length ss = length is \<and> sorted is \<and> (\<forall>i \<in> set is. i \<le> 3) \<and>
     run_StatusTimestamps r' = run_StatusTimestamps r @
       map2 (\<lambda>s i. \<lparr>st_Status = s, st_Timestamp = CurrentTimestamp None (clk i)\<rparr>) ss is)"

lemma appends_none: "run_StatusTimestamps r' = run_StatusTimestamps r \<Longrightarrow> appends clk r r'"
  unfolding appends_def by (rule exI [of _ "[]"], rule exI [of _ "[]"]) simp

lemma appends_one:
  "run_StatusTimestamps r' = run_StatusTimestamps r @
     [\<lparr>st_Status = s, st_Timestamp = CurrentTimestamp None (clk i)\<rparr>] \<Longrightarrow> i \<le> 3 \<Longrightarrow> appends clk r r'"
  unfolding appends_def by (rule exI [of _ "[i]"], rule exI [of _ "[s]"]) simp

lemma appends_two:
  "run_StatusTimestamps r' = run_StatusTimestamps r @
     [\<lparr>st_Status = s, st_Timestamp = CurrentTimestamp None (clk i)\<rparr>,
      \<lparr>st_Status = s', st_Timestamp = CurrentTimestamp None (clk j)\<rparr>] \<Longrightarrow>
   i \<le> j \<Longrightarrow> j \<le> 3 \<Longrightarrow> appends clk r r'"
  unfolding appends_def by (rule exI [of _ "[i, j]"], rule exI [of _ "[s, s']"]) auto

lemma Finish_appends:
  "Run_Finish clk ph e r = Inr (r', b) \<Longrightarrow> appends clk r r'"
  by (cases ph) (auto simp: Run_Finish_def Let_def
      intro: appends_none appends_one [of _ _ _ clk 0] appends_two [of _ _ _ clk 0 _ 2] split: if_splits)

lemma Cancel_phases_ts:
  "run_StatusTimestamps (fst (Cancel_phases clk u f r)) = run_StatusTimestamps r"
  by (cases "run_Status r") (simp_all add: Cancel_phases_def)

lemma Cancel_appends: "Cancel clk u f r = Inr r' \<Longrightarrow> appends clk r r'"
  using Cancel_phases_ts [of clk u f r]
  by (auto simp: Cancel_def split: if_splits prod.splits
      intro: appends_none appends_one [of _ _ _ clk 3])

lemma exec_op_appends:
  assumes "exec_op opn clk r = Inr r'"
  shows "appends clk r r'"
proof (cases opn)
  case (OpFinish ph e)
  with assms show ?thesis by (auto split: sum.splits dest: Finish_appends)
next
  case (OpCancel u f)
  with assms show ?thesis by (auto dest: Cancel_appends)
next
  case OpDiscard
  with assms show ?thesis by (auto simp: Discard_ok intro!: appends_one [of _ _ Discarded clk 0])
next
  case OpEnqueuePlan
  with assms show ?thesis by (auto simp: EnqueuePlan_ok intro!: appends_one [of _ _ PlanQueued clk 0])
next
  case OpEnqueueApply
  with assms show ?thesis by (auto simp: EnqueueApply_ok intro!: appends_one [of _ _ ApplyQueued clk 0])
next
  case OpStart
  with assms consider "r' = setPlan (clk 1) PhaseRunning (setStatus (clk 0) Planning r)"
    | "r' = setApply (clk 1) PhaseRunning (setStatus (clk 0) Applying r)"
    by (auto simp: Start_ok)
  then show ?thesis by cases (simp_all add: appends_one [of _ _ _ clk 0])
qed (use assms in \<open>auto intro!: appends_none\<close>)

lemma sorted_map_mono: "sorted xs \<Longrightarrow> mono f \<Longrightarrow> sorted (map f xs)" for f :: "nat \<Rightarrow> int"
  by (induction xs) (auto simp: monoD)

lemma appends_ts_ok:
  assumes "ts_ok t r" "mono clk" "t \<le> clk 0" "clk 4 \<le> t'" "appends clk r r'"
  shows "ts_ok t' r'"
proof -
  from assms(5) obtain "is" ss where i: "length ss = length is" "sorted is" "\<forall>i \<in> set is. i \<le> 3"
    and app: "run_StatusTimestamps r' = run_StatusTimestamps r @
       map2 (\<lambda>s i. \<lparr>st_Status = s, st_Timestamp = CurrentTimestamp None (clk i)\<rparr>) ss is"
    by (auto simp: appends_def)
  let ?new = "map (\<lambda>i. CurrentTimestamp None (clk i)) is"
  have mono_ct: "mono (\<lambda>i. CurrentTimestamp None (clk i))"
    using assms(2) by (auto simp: mono_def intro: CurrentTimestamp_mono)
  have new: "map st_Timestamp (map2 (\<lambda>s i. \<lparr>st_Status = s, st_Timestamp = CurrentTimestamp None (clk i)\<rparr>) ss is) = ?new"
    using i(1) by (induction ss "is" rule: list_induct2) auto
  have lo: "CurrentTimestamp None t \<le> CurrentTimestamp None (clk i)" for i
    using assms(2,3) by (intro CurrentTimestamp_mono) (meson le0 monoD order_trans)
  have hi: "i \<le> 3 \<Longrightarrow> CurrentTimestamp None (clk i) \<le> CurrentTimestamp None t'" for i
    using assms(4) monoD [OF assms(2), of i 4] by (intro CurrentTimestamp_mono) simp
  have old: "x \<in> set (run_StatusTimestamps r) \<Longrightarrow> st_Timestamp x \<le> CurrentTimestamp None t" for x
    using assms(1) by (simp add: ts_ok_def)
  have sorted: "sorted (map st_Timestamp (run_StatusTimestamps r'))"
    using assms(1) sorted_map_mono [OF i(2) mono_ct] old lo unfolding app map_append new
    by (fastforce simp: ts_ok_def sorted_append intro: order_trans)
  have "x \<in> set (map st_Timestamp (run_StatusTimestamps r')) \<Longrightarrow> x \<le> CurrentTimestamp None t'" for x
    using order_trans [OF old order_trans [OF lo [of 0] hi [of 0]]] i(3) hi
    unfolding app map_append new set_append by auto
  with sorted show ?thesis by (auto simp: ts_ok_def)
qed

lemma reachable_run_ts: "reachable_run t r \<Longrightarrow> ts_ok t r"
proof (induction rule: reachable_run.induct)
  case (new clk opts t rnd ws cv)
  have "clk 3 \<le> t" using new monoD [of clk 3 4] by simp
  with new show ?case by (simp add: ts_ok_def CurrentTimestamp_mono)
next
  case (op t r clk t' opn r')
  then show ?case by (blast intro: appends_ts_ok exec_op_appends)
qed

section \<open>The period report adds up\<close>

text \<open>The periods that the loop computes for a list of timestamps, the last one up to \<open>now\<close>.\<close>

fun periods :: "gtime \<Rightarrow> StatusTimestamp list \<Rightarrow> StatusPeriod list" where
  "periods now [] = []"
| "periods now [x] = [\<lparr>sp_Status = st_Status x, sp_Period = now - st_Timestamp x\<rparr>]"
| "periods now (x # y # xs) =
     \<lparr>sp_Status = st_Status x, sp_Period = st_Timestamp y - st_Timestamp x\<rparr> # periods now (y # xs)"

lemma length_periods [simp]: "length (periods now ts) = length ts"
  by (induction now ts rule: periods.induct) simp_all

lemma status_periods: "map sp_Status (periods now ts) = map st_Status ts"
  by (induction now ts rule: periods.induct) simp_all

lemma sum_periods:
  "ts \<noteq> [] \<Longrightarrow> sum_list (map sp_Period (periods now ts)) = now - st_Timestamp (hd ts)"
  by (induction now ts rule: periods.induct) simp_all

lemma sum_butlast_periods:
  "ts \<noteq> [] \<Longrightarrow> sum_list (map sp_Period (butlast (periods now ts))) =
     st_Timestamp (last ts) - st_Timestamp (hd ts)"
proof (induction now ts rule: periods.induct)
  case (3 now x y xs)
  then have "periods now (y # xs) \<noteq> []" by (metis length_0_conv length_periods list.distinct(1))
  with 3 show ?case by simp
qed simp_all

lemma PeriodReport_loop_spec:
  assumes "distinct (map st_Status ts)" "ts \<noteq> [] \<Longrightarrow> st_Status (last ts) = run_Status r"
    and "length ps = (if Run_Done r then k + length ts - 1 else k + length ts)" "ts \<noteq> []"
  shows "PeriodReport_loop r now k ps ts =
     Inr (take k ps @ (if Run_Done r then butlast (periods now ts) else periods now ts))"
  using assms
proof (induction ts arbitrary: k ps)
  case Nil
  then show ?case by simp
next
  case (Cons x xs)
  show ?case
  proof (cases xs)
    case Nil
    with Cons.prems have "st_Status x = run_Status r" by simp
    show ?thesis
    proof (cases "Run_Done r")
      case True
      with Cons.prems(3) Nil \<open>st_Status x = run_Status r\<close> show ?thesis by simp
    next
      case False
      with Cons.prems(3) Nil have "length ps = Suc k" by simp
      with False Nil \<open>st_Status x = run_Status r\<close> show ?thesis
        by (simp add: upd_conv_take_nth_drop)
    qed
  next
    case (Cons y ys)
    then have "st_Status (last xs) \<in> set (map st_Status xs)" "last (x # xs) = last xs" by simp_all
    with Cons.prems(1,2) have "st_Status x \<noteq> run_Status r" by (metis distinct.simps(2) list.simps(3,9))
    moreover have k: "k < length ps" using Cons.prems(3) Cons by (auto split: if_splits)
    moreover let ?ps = "ps[k := \<lparr>sp_Status = st_Status x, sp_Period = st_Timestamp y - st_Timestamp x\<rparr>]"
    have "PeriodReport_loop r now (Suc k) ?ps xs =
        Inr (take (Suc k) ?ps @ (if Run_Done r then butlast (periods now xs) else periods now xs))"
      using Cons.prems Cons by (intro Cons.IH) (auto split: if_splits)
    moreover have "periods now xs \<noteq> []" using Cons by (cases ys) auto
    ultimately show ?thesis using Cons by (simp add: take_Suc_conv_app_nth)
  qed
qed

lemma Run_PeriodReport_spec:
  assumes "distinct (map st_Status (run_StatusTimestamps r))" "run_StatusTimestamps r \<noteq> []"
    and "st_Status (last (run_StatusTimestamps r)) = run_Status r"
  shows "Run_PeriodReport r now =
     Inr \<lparr>TotalTime = (if Run_Done r
                       then st_Timestamp (last (run_StatusTimestamps r))
                       else now) - st_Timestamp (hd (run_StatusTimestamps r)),
          Periods = (if Run_Done r then butlast (periods now (run_StatusTimestamps r))
                     else periods now (run_StatusTimestamps r))\<rparr>"
proof -
  let ?ts = "run_StatusTimestamps r"
  let ?n = "if Run_Done r then length ?ts - 1 else length ?ts"
  have loop: "PeriodReport_loop r now 0 (replicate ?n \<lparr>sp_Status = Pending, sp_Period = 0\<rparr>) ?ts
    = Inr (if Run_Done r then butlast (periods now ?ts) else periods now ?ts)"
    using assms by (subst PeriodReport_loop_spec) auto
  have "Run_ElapsedTime r now =
      Inr ((if Run_Done r then st_Timestamp (last ?ts) else now) - st_Timestamp (hd ?ts))"
    using assms(2) by (cases ?ts) (auto simp: Run_ElapsedTime_def)
  then show ?thesis by (simp add: Run_PeriodReport_def Let_def loop)
qed

section \<open>Properties\<close>


lemma example_reachable: "reachable_run 0 example_run"
  unfolding example_run_def
  by (rule reachable_run.new) (simp_all add: mono_def no_options_def)


text \<open>
  the timestamps of a run are recorded in chronological order and none lies in the future, on
  any clock that does not run backwards.
\<close>

theorem reachable_run_timestamps:
  assumes "reachable_run t r"
  shows "sorted (map st_Timestamp (run_StatusTimestamps r)) \<and>
    (\<forall>x \<in> set (run_StatusTimestamps r). st_Timestamp x \<le> t + Millisecond div 2)"
proof -
  have "CurrentTimestamp None t \<le> t + Millisecond div 2" using CurrentTimestamp_near [of t] by linarith
  with reachable_run_ts [OF assms] show ?thesis unfolding ts_ok_def by (meson order_trans)
qed

lemma reachable_run_timestamps_witness:
  "sorted (map st_Timestamp (run_StatusTimestamps example_run))"
  using reachable_run_timestamps [OF example_reachable] by blast

text \<open>
  a run never cycles. Along any sequence of operations, successful or refused, the status of a
  run changes at most seven times.
\<close>

theorem run_status_changes_bounded:
  "changes (status_trace ops r) \<le> 7 - status_rank (run_Status r)"
  using status_trace_changes [of r ops] by linarith

text \<open>
  a completed run is final for everything but a plain cancel: it cannot be enqueued, started,
  discarded or forcefully canceled, and finishing one of its phases is refused, unless the run has
  been canceled, in which case it is ignored.
\<close>

theorem done_run_is_final:
  assumes "Run_Done r" "exec_op opn clk r = Inr r'"
  shows "(\<exists>u. opn = OpCancel u False) \<or> run_Status r' = run_Status r"
proof (cases opn)
  case (OpCancel u f)
  then show ?thesis using done_rejects(5) [OF assms(1), of clk u] assms(2) by (cases f) auto
next
  case (OpFinish ph e)
  then show ?thesis
    using done_rejects(6) [OF assms(1), of clk ph e] Finish_canceled [of r clk ph e] assms(2)
    by (cases "run_Status r = Canceled") (auto split: sum.splits)
qed (use assms done_rejects(1-4) [OF assms(1), of clk] in auto)

lemma done_run_is_final_witness:
  "\<exists>r'. exec_op (OpApplyReport Report_zero) (\<lambda>_. 0) (example_run\<lparr>run_Status := Applied\<rparr>) = Inr r' \<and>
        run_Status r' = Applied"
proof -
  let ?r = "example_run\<lparr>run_Status := Applied\<rparr>"
  obtain r' where "exec_op (OpApplyReport Report_zero) (\<lambda>_. 0) ?r = Inr r'" by simp
  moreover from done_run_is_final [OF _ this] have "run_Status r' = Applied"
    by (simp add: Run_Done_def)
  ultimately show ?thesis by blast
qed

text \<open>
  a plain cancel has no such guard: it turns a run with any completed status into a canceled one.
\<close>

theorem cancel_overwrites_done:
  assumes "Run_Done r"
  shows "\<exists>r'. Cancel clk isUser False r = Inr r' \<and> run_Status r' = Canceled"
proof -
  from assms have "run_Status r \<in> {Applied, PlannedAndFinished, Discarded, Canceled, ForceCanceled, Errored}"
    by (simp add: Run_Done_def Done_iff)
  then show ?thesis by (auto simp: Cancel_def Cancel_phases_def)
qed

lemma cancel_overwrites_done_witness:
  "\<exists>r'. Cancel (\<lambda>_. 0) True False (example_run\<lparr>run_Status := Applied\<rparr>) = Inr r' \<and> run_Status r' = Canceled"
  by (rule cancel_overwrites_done) (simp add: Run_Done_def)

text \<open>
  discarding a pending run leaves its plan phase pending, since the status is overwritten before
  the test that would mark the phase unreachable.
\<close>

theorem discard_pending_leaves_plan:
  assumes "run_Status r = Pending"
  shows "\<exists>r'. Discard clk r = Inr r' \<and> run_Status r' = Discarded \<and> run_Plan r' = run_Plan r \<and>
    ph_Status (run_Apply r') = PhaseUnreachable"
  using assms by (simp add: Discard_def Discardable_def Let_def)

lemma discard_pending_leaves_plan_witness:
  "\<exists>r'. Discard (\<lambda>_. 0) example_run = Inr r' \<and> run_Status r' = Discarded \<and>
        run_Plan r' = run_Plan example_run"
  using discard_pending_leaves_plan [of example_run "\<lambda>_. 0"] by auto

text \<open>
  the period report accounts for the whole elapsed time. For a run that has entered no status
  twice and whose last timestamp is that of its status, \<open>PeriodReport\<close> does not fail, lists every
  status it has been in but the final one of a completed run, and its periods add up to the total.
\<close>

theorem PeriodReport_adds_up:
  assumes "distinct (map st_Status (run_StatusTimestamps r))" "run_StatusTimestamps r \<noteq> []"
    and "st_Status (last (run_StatusTimestamps r)) = run_Status r"
  shows "\<exists>rep. Run_PeriodReport r now = Inr rep \<and> sum_list (map sp_Period (Periods rep)) = TotalTime rep \<and>
    map sp_Status (Periods rep) =
      (if Run_Done r then butlast else id) (map st_Status (run_StatusTimestamps r))"
  using Run_PeriodReport_spec [OF assms, of now] sum_periods [OF assms(2), of now]
    sum_butlast_periods [OF assms(2), of now] status_periods [of now "run_StatusTimestamps r"]
  by (auto simp: map_butlast)

lemma PeriodReport_adds_up_witness:
  "\<exists>rep. Run_PeriodReport example_run 5 = Inr rep \<and>
         sum_list (map sp_Period (Periods rep)) = TotalTime rep"
proof -
  have "run_StatusTimestamps example_run =
      [\<lparr>st_Status = Pending, st_Timestamp = CurrentTimestamp None 0\<rparr>]"
    by (simp add: example_run_def no_options_def)
  with PeriodReport_adds_up [of example_run 5] show ?thesis by auto
qed

text \<open>
  the outcome of finishing a phase. Only the running phase can be finished; a failed phase makes
  the run errored, a successful apply applied, and a successful plan is final when it has no changes
  or the run is plan-only, and otherwise asks for an apply exactly when auto-apply is on. Finishing a
  phase of a canceled run changes nothing.
\<close>

theorem Finish_outcome:
  assumes "Run_Finish clk ph e r = Inr (r', autoapply)"
  shows "if run_Status r = Canceled then r' = r \<and> \<not> autoapply
    else (ph = PlanPhase \<and> run_Status r = Planning \<or> ph = ApplyPhase \<and> run_Status r = Applying) \<and>
      run_Status r' =
        (if e then Errored
         else if ph = ApplyPhase then Applied
         else if \<not> Run_HasChanges r \<or> run_PlanOnly r then PlannedAndFinished
         else if run_CostEstimationEnabled r then CostEstimated else Planned) \<and>
      (autoapply \<longleftrightarrow> ph = PlanPhase \<and> \<not> e \<and> Run_HasChanges r \<and> \<not> run_PlanOnly r \<and> run_AutoApply r)"
  using assms Finish_ok [OF assms] Finish_canceled [of r clk ph e]
  by (cases "run_Status r = Canceled") auto

lemma Finish_outcome_witness:
  "\<exists>r'. Run_Finish (\<lambda>_. 0) PlanPhase True (example_run\<lparr>run_Status := Planning\<rparr>) = Inr (r', False) \<and>
        run_Status r' = Errored"
proof -
  let ?r = "example_run\<lparr>run_Status := Planning\<rparr>"
  obtain r' where r': "Run_Finish (\<lambda>_. 0) PlanPhase True ?r = Inr (r', False)"
    by (simp add: Run_Finish_def)
  from Finish_outcome [OF this] r' show ?thesis by simp
qed

end
