(* ===== verification/RunService.thy ===== *)
theory RunService
  imports Authz Allocator RunLifecycle
begin

text \<open>
  The services that change runs, jobs and workspace locks (\<open>internal/run/service.go\<close>,
  \<open>internal/run/db.go\<close>, \<open>internal/runner/service.go\<close>, \<open>internal/workspace/lock_service.go\<close>) over a
  database of runs, jobs and workspaces. A transaction that fails leaves the database as it was, so
  an operation maps the database to an error or to the new database. The runner service hooks into
  the run service: enqueuing a plan or an apply creates a job, canceling a run cancels its job.
\<close>

section \<open>The database\<close>

record otf_db =
  db_runs :: "TfeID \<rightharpoonup> Run"
  db_jobs :: "Job list"
  db_workspaces :: "TfeID \<rightharpoonup> Workspace"
  db_signals :: "(TfeID \<times> bool) list"

text \<open>
  What an operation takes from its surroundings: the context with its subject, the workspace
  policies, randomness and clock, the outcome of reading the plan file or apply log and compiling
  its reports, and the token service.
\<close>

record svc_env =
  env_ctx :: authz_ctx
  env_policies :: "ID \<Rightarrow> Policy result"
  env_rnd :: "nat \<Rightarrow> nat"
  env_clk :: clock
  env_reports :: "TfeID \<Rightarrow> PhaseType \<Rightarrow> (Report \<times> Report) result"
  env_token :: "TfeID \<Rightarrow> string result"

section \<open>Persistence of runs (run/db.go)\<close>

text \<open>
  \<open>UpdateStatus\<close> writes back what changed: the status with its timestamp, the status of each phase
  with its timestamp, and the time of the cancelation signal. Only the timestamp of the final status
  is inserted; the primary keys of the timestamp tables forbid a second row for a status.
\<close>

definition persist_phase :: "Phase \<Rightarrow> Phase \<Rightarrow> Phase result" where
  "persist_phase old new =
     (if ph_Status new = ph_Status old then Inr old
      else case Phase_StatusTimestamp new (ph_Status new) of
             Inl e \<Rightarrow> Inl (Wrap ''updating row'' e)
           | Inr ts \<Rightarrow>
               if ph_Status new \<in> set (map pst_Status (ph_StatusTimestamps old))
               then Inl ErrResourceAlreadyExists
               else Inr (old\<lparr>ph_Status := ph_Status new,
                             ph_StatusTimestamps := ph_StatusTimestamps old @
                               [\<lparr>pst_Phase = ph_PhaseType new, pst_Status = ph_Status new,
                                 pst_Timestamp = ts\<rparr>]\<rparr>))"

definition persist_status :: "Run \<Rightarrow> Run \<Rightarrow> Run result" where
  "persist_status old new =
     (if run_Status new = run_Status old then Inr old
      else case Run_StatusTimestamp new (run_Status new) of
             Inl e \<Rightarrow> Inl (Wrap ''updating row'' e)
           | Inr ts \<Rightarrow>
               if run_Status new \<in> set (map st_Status (run_StatusTimestamps old))
               then Inl ErrResourceAlreadyExists
               else Inr (old\<lparr>run_Status := run_Status new,
                             run_StatusTimestamps := run_StatusTimestamps old @
                               [\<lparr>st_Status = run_Status new, st_Timestamp = ts\<rparr>]\<rparr>))"

definition persist_run :: "Run \<Rightarrow> Run \<Rightarrow> Run result" where
  "persist_run old new =
     (case persist_status old new of Inl e \<Rightarrow> Inl e | Inr r1 \<Rightarrow>
     (case persist_phase (run_Plan old) (run_Plan new) of Inl e \<Rightarrow> Inl e | Inr plan \<Rightarrow>
     (case persist_phase (run_Apply old) (run_Apply new) of Inl e \<Rightarrow> Inl e | Inr apply \<Rightarrow>
        Inr (r1\<lparr>run_Plan := plan, run_Apply := apply,
                run_CancelSignaledAt :=
                  (if run_CancelSignaledAt new \<noteq> None then run_CancelSignaledAt new
                   else run_CancelSignaledAt old)\<rparr>))))"

definition UpdateStatus :: "TfeID \<Rightarrow> (Run \<Rightarrow> Run result) \<Rightarrow> otf_db \<Rightarrow> (otf_db \<times> Run) result" where
  "UpdateStatus runID fn db =
     (case db_runs db runID of
        None \<Rightarrow> Inl (Wrap ''finding row for update'' ErrResourceNotFound)
      | Some old \<Rightarrow>
          (case fn old of Inl e \<Rightarrow> Inl e | Inr new \<Rightarrow>
          (case persist_run old new of Inl e \<Rightarrow> Inl e | Inr row \<Rightarrow>
             Inr (db\<lparr>db_runs := (db_runs db)(runID \<mapsto> row)\<rparr>, new))))"

text \<open>
  \<open>CreateRun\<close> inserts the run; its foreign key refers to the workspace. Deleting a run deletes its
  jobs.
\<close>

definition db_CreateRun :: "Run \<Rightarrow> otf_db \<Rightarrow> otf_db result" where
  "db_CreateRun run db =
     (if db_runs db (run_ID run) \<noteq> None then Inl ErrResourceAlreadyExists
      else if db_workspaces db (run_WorkspaceID run) = None
      then Inl (Errorf ''foreign key violation'')
      else Inr (db\<lparr>db_runs := (db_runs db)(run_ID run \<mapsto> run)\<rparr>))"

definition db_DeleteRun :: "TfeID \<Rightarrow> otf_db \<Rightarrow> otf_db result" where
  "db_DeleteRun runID db =
     (if db_runs db runID = None then Inl ErrResourceNotFound
      else Inr (db\<lparr>db_runs := (db_runs db)(runID := None),
                   db_jobs := filter (\<lambda>j. job_RunID j \<noteq> runID) (db_jobs db)\<rparr>))"

definition CreatePlanReport :: "TfeID \<Rightarrow> Report \<Rightarrow> Report \<Rightarrow> otf_db \<Rightarrow> otf_db" where
  "CreatePlanReport runID resource output db =
     (case db_runs db runID of
        None \<Rightarrow> db
      | Some r \<Rightarrow>
          db\<lparr>db_runs := (db_runs db)(runID \<mapsto>
               r\<lparr>run_Plan := (run_Plan r)\<lparr>ph_ResourceReport := Some resource,
                                        ph_OutputReport := Some output\<rparr>\<rparr>)\<rparr>)"

definition CreateApplyReport :: "TfeID \<Rightarrow> Report \<Rightarrow> otf_db \<Rightarrow> otf_db" where
  "CreateApplyReport runID report db =
     (case db_runs db runID of
        None \<Rightarrow> db
      | Some r \<Rightarrow>
          db\<lparr>db_runs := (db_runs db)(runID \<mapsto>
               r\<lparr>run_Apply := (run_Apply r)\<lparr>ph_ResourceReport := Some report\<rparr>\<rparr>)\<rparr>)"

section \<open>Authorization in the services\<close>

text \<open>The parents of runs and workspaces as the database has them.\<close>

definition db_tables :: "otf_db \<Rightarrow> parent_tables" where
  "db_tables db =
     \<lparr>pt_workspace = (\<lambda>w. map_option ws_Organization (db_workspaces db w)),
      pt_team = Map.empty, pt_sshkey = Map.empty, pt_variable_set = Map.empty,
      pt_run = (\<lambda>r. map_option run_WorkspaceID (db_runs db r)),
      pt_state_version = Map.empty, pt_config_version = Map.empty, pt_run_trigger = Map.empty,
      pt_variable = Map.empty\<rparr>"

definition svc_authorize :: "svc_env \<Rightarrow> Action \<Rightarrow> Kind \<Rightarrow> TfeID \<Rightarrow> otf_db \<Rightarrow> Subject result" where
  "svc_authorize env action kind rid db =
     (case Authorize (otf_resolvers (db_tables db)) (env_policies env) (env_ctx env) action kind
             (Some (TfeID_ID rid)) of
        Some (Some subj, Inr _) \<Rightarrow> Inr subj
      | Some (_, Inl e) \<Rightarrow> Inl e
      | _ \<Rightarrow> Inl (Errorf ''authorization does not return''))"

section \<open>Workspace locks (workspace/lock\_db.go, lock\_service.go)\<close>

definition toggleLock :: "TfeID \<Rightarrow> (Workspace \<Rightarrow> Workspace result) \<Rightarrow> otf_db \<Rightarrow> otf_db result" where
  "toggleLock workspaceID togglefn db =
     (case db_workspaces db workspaceID of
        None \<Rightarrow> Inl (Wrap ''finding row for update'' ErrResourceNotFound)
      | Some ws \<Rightarrow>
          (case togglefn ws of Inl e \<Rightarrow> Inl e | Inr ws' \<Rightarrow>
          (case lock_columns ws' of
             Inl e \<Rightarrow> Inl (Wrap ''updating row'' e)
           | Inr _ \<Rightarrow>
               Inr (db\<lparr>db_workspaces := (db_workspaces db)(workspaceID \<mapsto> ws\<lparr>ws_Lock := ws_Lock ws'\<rparr>)\<rparr>))))"

definition user_lock_id :: "Subject \<Rightarrow> ID result" where
  "user_lock_id subj =
     (case subj of
        UserSubject u \<Rightarrow> Inr (Username_ID (user_Username u))
      | _ \<Rightarrow> Inl (Errorf ''only a run or a user can lock a workspace''))"

definition Service_Lock :: "svc_env \<Rightarrow> TfeID \<Rightarrow> TfeID option \<Rightarrow> otf_db \<Rightarrow> otf_db result" where
  "Service_Lock env workspaceID runID db =
     (case (case runID of
              Some r \<Rightarrow> Inr (TfeID_ID r)
            | None \<Rightarrow>
                (case svc_authorize env LockAction WorkspaceKind workspaceID db of
                   Inl e \<Rightarrow> Inl e | Inr subj \<Rightarrow> user_lock_id subj)) of
        Inl e \<Rightarrow> Inl e
      | Inr lid \<Rightarrow> toggleLock workspaceID (\<lambda>ws. Enlock ws lid) db)"

definition Service_Unlock ::
  "svc_env \<Rightarrow> TfeID \<Rightarrow> TfeID option \<Rightarrow> bool \<Rightarrow> otf_db \<Rightarrow> otf_db result" where
  "Service_Unlock env workspaceID runID force db =
     (case (case runID of
              Some r \<Rightarrow> Inr (TfeID_ID r)
            | None \<Rightarrow>
                (case svc_authorize env (if force then ForceUnlockAction else UnlockAction)
                        WorkspaceKind workspaceID db of
                   Inl e \<Rightarrow> Inl e | Inr subj \<Rightarrow> user_lock_id subj)) of
        Inl e \<Rightarrow> Inl e
      | Inr lid \<Rightarrow> toggleLock workspaceID (\<lambda>ws. Workspace_Unlock ws lid force) db)"

definition SetWorkspaceLatestRun :: "TfeID \<Rightarrow> TfeID \<Rightarrow> otf_db \<Rightarrow> otf_db result" where
  "SetWorkspaceLatestRun workspaceID runID db =
     (case db_workspaces db workspaceID of
        None \<Rightarrow> Inl ErrResourceNotFound
      | Some ws \<Rightarrow>
          Inr (db\<lparr>db_workspaces := (db_workspaces db)(workspaceID \<mapsto> ws\<lparr>ws_LatestRun := Some runID\<rparr>)\<rparr>))"

section \<open>Jobs of runs (runner/service.go)\<close>

text \<open>
  A job row is joined with the agent pool of its workspace; a run has at most one job per phase
  (the unique index on run and phase).
\<close>

definition createJob :: "(nat \<Rightarrow> nat) \<Rightarrow> Run \<Rightarrow> otf_db \<Rightarrow> otf_db result" where
  "createJob rnd run db =
     (let job = (newJob rnd run)\<lparr>job_AgentPoolID :=
                   (case db_workspaces db (run_WorkspaceID run) of
                      Some ws \<Rightarrow> mode_agentPoolID (ws_Mode ws) | None \<Rightarrow> None)\<rparr>
      in if list_ex (\<lambda>j. job_ID j = job_ID job \<or>
                         job_RunID j = job_RunID job \<and> job_Phase j = job_Phase job) (db_jobs db)
         then Inl ErrResourceAlreadyExists
         else Inr (db\<lparr>db_jobs := db_jobs db @ [job]\<rparr>))"

definition cancelJob :: "Run \<Rightarrow> otf_db \<Rightarrow> otf_db result" where
  "cancelJob run db =
     (case find_first (job_selected (run_ID run)) (db_jobs db) of
        None \<Rightarrow> Inr db
      | Some job \<Rightarrow>
          (case job_cancel run job of
             Inl e \<Rightarrow> if errors_is e ErrResourceNotFound then Inr db else Inl e
           | Inr (job', signal, force) \<Rightarrow>
               Inr (db\<lparr>db_jobs := write_job job' (db_jobs db),
                       db_signals := (if signal then db_signals db @ [(job_ID job', force)]
                                      else db_signals db)\<rparr>)))"

section \<open>Runs (run/service.go)\<close>

definition Service_CreateRun :: "svc_env \<Rightarrow> Run \<Rightarrow> otf_db \<Rightarrow> otf_db result" where
  "Service_CreateRun env run db =
     (case svc_authorize env CreateAction RunKind (run_WorkspaceID run) db of
        Inl e \<Rightarrow> Inl e | Inr _ \<Rightarrow> db_CreateRun run db)"

definition Service_EnqueuePlan :: "svc_env \<Rightarrow> TfeID \<Rightarrow> otf_db \<Rightarrow> otf_db result" where
  "Service_EnqueuePlan env runID db =
     (case UpdateStatus runID (Run_EnqueuePlan (env_clk env)) db of Inl e \<Rightarrow> Inl e | Inr (db1, run) \<Rightarrow>
     (case (if run_PlanOnly run then Inr db1
            else case Service_Lock env (run_WorkspaceID run) (Some (run_ID run)) db1 of
                   Inl e \<Rightarrow> Inl e
                 | Inr db2 \<Rightarrow> SetWorkspaceLatestRun (run_WorkspaceID run) (run_ID run) db2) of
        Inl e \<Rightarrow> Inl e
      | Inr db3 \<Rightarrow> createJob (env_rnd env) run db3))"

definition Service_DeleteRun :: "svc_env \<Rightarrow> TfeID \<Rightarrow> otf_db \<Rightarrow> otf_db result" where
  "Service_DeleteRun env runID db =
     (case svc_authorize env DeleteAction RunKind runID db of
        Inl e \<Rightarrow> Inl e | Inr _ \<Rightarrow> db_DeleteRun runID db)"

definition StartPhase :: "svc_env \<Rightarrow> TfeID \<Rightarrow> otf_db \<Rightarrow> otf_db result" where
  "StartPhase env runID db =
     (case UpdateStatus runID (Run_Start (env_clk env)) db of Inl e \<Rightarrow> Inl e | Inr (db', _) \<Rightarrow> Inr db')"

definition ApplyRun :: "svc_env \<Rightarrow> TfeID \<Rightarrow> otf_db \<Rightarrow> otf_db result" where
  "ApplyRun env runID db =
     (case svc_authorize env ApplyAction RunKind runID db of Inl e \<Rightarrow> Inl e | Inr _ \<Rightarrow>
     (case UpdateStatus runID (Run_EnqueueApply (env_clk env)) db of Inl e \<Rightarrow> Inl e | Inr (db1, run) \<Rightarrow>
        createJob (env_rnd env) run db1))"

text \<open>
  \<open>createReports\<close>: a report that cannot be compiled turns the phase into an errored one. The result
  is the database with the report and whether the phase counts as errored.
\<close>

definition createReports :: "svc_env \<Rightarrow> TfeID \<Rightarrow> PhaseType \<Rightarrow> otf_db \<Rightarrow> otf_db result" where
  "createReports env runID phase db =
     (case phase of
        PlanPhase \<Rightarrow>
          (case env_reports env runID PlanPhase of
             Inl e \<Rightarrow> Inl e | Inr (res, out) \<Rightarrow> Inr (CreatePlanReport runID res out db))
      | ApplyPhase \<Rightarrow>
          (case env_reports env runID ApplyPhase of
             Inl e \<Rightarrow> Inl e | Inr (res, _) \<Rightarrow> Inr (CreateApplyReport runID res db))
      | _ \<Rightarrow> Inl (Errorf ''unknown supported phase for creating report''))"

definition FinishPhase :: "svc_env \<Rightarrow> TfeID \<Rightarrow> PhaseType \<Rightarrow> bool \<Rightarrow> otf_db \<Rightarrow> otf_db result" where
  "FinishPhase env runID phase errored db =
     (let (db0, errored') =
            (if errored then (db, True)
             else case createReports env runID phase db of
                    Inl _ \<Rightarrow> (db, True) | Inr db' \<Rightarrow> (db', False))
      in case db_runs db0 runID of
           None \<Rightarrow> Inl (Wrap ''finding row for update'' ErrResourceNotFound)
         | Some run \<Rightarrow>
             (case Run_Finish (env_clk env) phase errored' run of
                Inl e \<Rightarrow> Inl e
              | Inr (_, autoapply) \<Rightarrow>
                  (case UpdateStatus runID
                          (\<lambda>r. map_sum id fst (Run_Finish (env_clk env) phase errored' r)) db0 of
                     Inl e \<Rightarrow> Inl e
                   | Inr (db1, _) \<Rightarrow>
                       if autoapply
                       then ApplyRun (env\<lparr>env_clk := (\<lambda>n. env_clk env (n + 5))\<rparr>) runID db1
                       else Inr db1)))"

definition DiscardRun :: "svc_env \<Rightarrow> TfeID \<Rightarrow> otf_db \<Rightarrow> otf_db result" where
  "DiscardRun env runID db =
     (case svc_authorize env DiscardAction RunKind runID db of Inl e \<Rightarrow> Inl e | Inr _ \<Rightarrow>
     (case UpdateStatus runID (Discard (env_clk env)) db of Inl e \<Rightarrow> Inl e | Inr (db', _) \<Rightarrow> Inr db'))"

text \<open>
  \<open>CancelRun\<close> logs an error of its transaction and still reports success; without a row to
  update it dereferences a nil run.
\<close>

definition is_user :: "Subject \<Rightarrow> bool" where
  "is_user subj = (case subj of UserSubject _ \<Rightarrow> True | _ \<Rightarrow> False)"

definition CancelRun_tx :: "svc_env \<Rightarrow> bool \<Rightarrow> bool \<Rightarrow> TfeID \<Rightarrow> otf_db \<Rightarrow> otf_db result" where
  "CancelRun_tx env isUser force runID db =
     (case UpdateStatus runID (Cancel (env_clk env) isUser force) db of Inl e \<Rightarrow> Inl e | Inr (db1, run) \<Rightarrow>
        cancelJob run db1)"

definition CancelRun :: "svc_env \<Rightarrow> TfeID \<Rightarrow> otf_db \<Rightarrow> otf_db result" where
  "CancelRun env runID db =
     (case svc_authorize env CancelAction RunKind runID db of Inl e \<Rightarrow> Inl e | Inr subj \<Rightarrow>
        if db_runs db runID = None then Inl (Panic ''nil pointer dereference'')
        else case CancelRun_tx env (is_user subj) False runID db of
               Inl _ \<Rightarrow> Inr db | Inr db' \<Rightarrow> Inr db')"

definition ForceCancelRun :: "svc_env \<Rightarrow> TfeID \<Rightarrow> otf_db \<Rightarrow> otf_db result" where
  "ForceCancelRun env runID db =
     (case svc_authorize env ForceCancelAction RunKind runID db of Inl e \<Rightarrow> Inl e | Inr _ \<Rightarrow>
        CancelRun_tx env True True runID db)"

section \<open>Jobs (runner/service.go)\<close>

text \<open>Only the runner that a job is allocated to may start it; the run phase starts with it.\<close>

definition StartJob :: "svc_env \<Rightarrow> TfeID \<Rightarrow> otf_db \<Rightarrow> (otf_db \<times> string) result" where
  "StartJob env jobID db =
     (case ctx_subject (env_ctx env) of
        Some (RunnerSubject runner) \<Rightarrow>
          (case find_first (job_selected jobID) (db_jobs db) of
             None \<Rightarrow> Inl (Wrap ''finding row for update'' ErrResourceNotFound)
           | Some job \<Rightarrow>
               if job_RunnerID job \<noteq> Some (rn_ID runner) then Inl ErrAccessNotPermitted
               else (case startJob job of Inl e \<Rightarrow> Inl e | Inr job' \<Rightarrow>
                    (case StartPhase env (job_RunID job) db of Inl e \<Rightarrow> Inl e | Inr db1 \<Rightarrow>
                    (case env_token env jobID of Inl e \<Rightarrow> Inl e | Inr token \<Rightarrow>
                       Inr (db1\<lparr>db_jobs := write_job job' (db_jobs db1)\<rparr>, token)))))
      | _ \<Rightarrow> Inl ErrAccessNotPermitted)"

text \<open>The subject has to be a job; that it is this job is not checked.\<close>

definition FinishJob :: "svc_env \<Rightarrow> TfeID \<Rightarrow> JobStatus \<Rightarrow> otf_db \<Rightarrow> otf_db result" where
  "FinishJob env jobID status db =
     (case ctx_subject (env_ctx env) of
        Some (JobSubject _) \<Rightarrow>
          (case find_first (job_selected jobID) (db_jobs db) of
             None \<Rightarrow> Inl (Wrap ''finding row for update'' ErrResourceNotFound)
           | Some job \<Rightarrow>
               (case (case status of
                        JobFinished \<Rightarrow> FinishPhase env (job_RunID job) (job_Phase job) False db
                      | JobErrored \<Rightarrow> FinishPhase env (job_RunID job) (job_Phase job) True db
                      | JobCanceled \<Rightarrow> CancelRun env (job_RunID job) db
                      | _ \<Rightarrow> Inr db) of
                  Inl e \<Rightarrow> Inl e
                | Inr db1 \<Rightarrow>
                    (case finishJob status job of
                       Inl e \<Rightarrow> Inl e
                     | Inr job' \<Rightarrow> Inr (db1\<lparr>db_jobs := write_job job' (db_jobs db1)\<rparr>))))
      | _ \<Rightarrow> Inl ErrAccessNotPermitted)"

lemmas [sys_defs] =
  UpdateStatus_def db_CreateRun_def db_DeleteRun_def CreatePlanReport_def CreateApplyReport_def
  createJob_def cancelJob_def Service_CreateRun_def Service_EnqueuePlan_def Service_DeleteRun_def
  StartPhase_def ApplyRun_def createReports_def FinishPhase_def DiscardRun_def CancelRun_tx_def
  CancelRun_def ForceCancelRun_def StartJob_def FinishJob_def

end
