(* ===== verification/RunJobs.thy ===== *)
theory RunJobs
  imports RunService
begin

text \<open>
  Runs and jobs move together. The invariant relates the status of every persisted run to its jobs:
  a queued phase has one unfinished job that is not yet running, a phase in progress has one that is
  running, and in every other status the run has no unfinished job. Each operation of the services
  keeps it.
\<close>

section \<open>What persistence keeps\<close>

lemma persist_phase_ok:
  "persist_phase old new = Inr p \<Longrightarrow>
     ph_Status p = ph_Status new \<and> ph_ResourceReport p = ph_ResourceReport old \<and>
     ph_OutputReport p = ph_OutputReport old"
  by (auto simp: persist_phase_def split: if_splits sum.splits)

lemma persist_status_ok:
  "persist_status old new = Inr r \<Longrightarrow>
     run_Status r = run_Status new \<and> run_ID r = run_ID old \<and> run_WorkspaceID r = run_WorkspaceID old \<and>
     run_PlanOnly r = run_PlanOnly old \<and> run_Organization r = run_Organization old \<and>
     run_AutoApply r = run_AutoApply old \<and>
     (run_StatusTimestamps old \<noteq> [] \<and> st_Status (last (run_StatusTimestamps old)) = run_Status old \<longrightarrow>
        run_StatusTimestamps r \<noteq> [] \<and> st_Status (last (run_StatusTimestamps r)) = run_Status r)"
  by (auto simp: persist_status_def split: if_splits sum.splits)

lemma persist_run_ok:
  assumes "persist_run old new = Inr row"
  shows "run_Status row = run_Status new \<and> run_ID row = run_ID old \<and>
     run_WorkspaceID row = run_WorkspaceID old \<and> run_PlanOnly row = run_PlanOnly old \<and>
     run_Organization row = run_Organization old \<and> run_AutoApply row = run_AutoApply old \<and>
     ph_Status (run_Plan row) = ph_Status (run_Plan new) \<and>
     ph_Status (run_Apply row) = ph_Status (run_Apply new)"
  using assms by (auto simp: persist_run_def split: sum.splits dest!: persist_status_ok persist_phase_ok)

lemma exec_op_signal:
  assumes "exec_op opn clk r = Inr r'"
  shows "run_CancelSignaledAt r' \<noteq> None \<or> run_CancelSignaledAt r' = run_CancelSignaledAt r"
proof (cases opn)
  case (OpFinish ph e)
  with assms show ?thesis by (cases ph) (auto simp: Run_Finish_def Let_def split: if_splits)
next
  case (OpCancel u f)
  with assms show ?thesis
    by (cases "run_Status r") (auto simp: Cancel_def Cancel_phases_def split: if_splits)
qed (use assms in \<open>auto simp: EnqueuePlan_ok EnqueueApply_ok Start_ok Discard_ok\<close>)

lemma persist_run_parts:
  assumes "persist_run old new = Inr row"
  obtains r1 where "persist_status old new = Inr r1"
    "persist_phase (run_Plan old) (run_Plan new) = Inr (run_Plan row)"
    "persist_phase (run_Apply old) (run_Apply new) = Inr (run_Apply row)"
    "run_StatusTimestamps row = run_StatusTimestamps r1" "run_Status row = run_Status r1"
    "run_CancelSignaledAt row = (if run_CancelSignaledAt new \<noteq> None then run_CancelSignaledAt new
        else run_CancelSignaledAt old)"
  using assms by (auto simp: persist_run_def split: sum.splits)

lemma persist_run_wf:
  assumes "run_wf old" "exec_op opn clk old = Inr new" "persist_run old new = Inr row"
  shows "run_wf row"
proof -
  note new = exec_op_wf [OF assms(1,2)]
  note row = persist_run_ok [OF assms(3)]
  obtain r1 where r1: "persist_status old new = Inr r1"
    "run_StatusTimestamps row = run_StatusTimestamps r1" "run_Status row = run_Status r1"
    "run_CancelSignaledAt row = (if run_CancelSignaledAt new \<noteq> None then run_CancelSignaledAt new
        else run_CancelSignaledAt old)"
    using persist_run_parts [OF assms(3)] .
  from exec_op_signal [OF assms(2)] have "run_CancelSignaledAt row = run_CancelSignaledAt new"
    using r1(4) by auto
  with new row persist_status_ok [OF r1(1)] r1(2,3) assms(1) show ?thesis
    by (auto simp: run_wf_def)
qed

text \<open>
  The recorded statuses of a persisted run and of its phases have strictly increasing ranks, the
  last one being the current status: no operation makes a run or a phase return to a status it has
  been in, so that the primary keys of the timestamp tables are never violated.
\<close>

fun phase_rank :: "PhaseStatus \<Rightarrow> nat" where
  "phase_rank PhasePending = 0"
| "phase_rank PhaseQueued = 1"
| "phase_rank PhaseRunning = 2"
| "phase_rank _ = 3"

definition ranked :: "('a \<Rightarrow> nat) \<Rightarrow> 'a list \<Rightarrow> 'a \<Rightarrow> bool" where
  "ranked rk xs cur \<longleftrightarrow> xs \<noteq> [] \<and> last xs = cur \<and> sorted_wrt (\<lambda>a b. rk a < rk b) xs"

lemma ranked_snoc: "ranked rk xs cur \<Longrightarrow> rk cur < rk new \<Longrightarrow> ranked rk (xs @ [new]) new"
proof -
  assume r: "ranked rk xs cur" "rk cur < rk new"
  have "rk x \<le> rk cur" if "x \<in> set xs" for x
  proof (cases xs rule: rev_cases)
    case (snoc ys y)
    with r(1) that show ?thesis by (auto simp: ranked_def sorted_wrt_append less_imp_le)
  qed (use that in simp)
  with r show ?thesis by (force simp: ranked_def sorted_wrt_append)
qed

lemma ranked_fresh: "ranked rk xs cur \<Longrightarrow> rk cur < rk new \<Longrightarrow> new \<notin> set xs"
  using ranked_snoc [of rk xs cur new] by (auto simp: ranked_def sorted_wrt_append)

lemma ranked_distinct: "ranked rk xs cur \<Longrightarrow> distinct xs"
  by (auto simp: ranked_def strict_sorted_iff sorted_wrt_map [symmetric] distinct_map
      dest: strict_sorted_imp_sorted)

definition run_row_ok :: "Run \<Rightarrow> bool" where
  "run_row_ok r \<longleftrightarrow>
     run_wf r \<and> ranked status_rank (map st_Status (run_StatusTimestamps r)) (run_Status r) \<and>
     ranked phase_rank (map pst_Status (ph_StatusTimestamps (run_Plan r))) (ph_Status (run_Plan r)) \<and>
     ranked phase_rank (map pst_Status (ph_StatusTimestamps (run_Apply r))) (ph_Status (run_Apply r))"

text \<open>The phase that an operation leaves behind: unchanged, or moved up with a new timestamp.\<close>

definition phase_moves :: "Phase \<Rightarrow> Phase \<Rightarrow> bool" where
  "phase_moves p p' \<longleftrightarrow>
     ph_Status p' = ph_Status p \<or>
     phase_rank (ph_Status p) < phase_rank (ph_Status p') \<and>
     (\<exists>x \<in> set (ph_StatusTimestamps p'). pst_Status x = ph_Status p')"

lemma phase_moves_refl [simp]: "phase_moves p p"
  by (simp add: phase_moves_def)

lemma phase_moves_set:
  "phase_rank (ph_Status p) < phase_rank s \<Longrightarrow> phase_moves p (Phase_UpdateStatus t p s)"
  by (simp add: phase_moves_def Phase_UpdateStatus_def)

lemma Plan_set: "run_Plan (setPlan t s r) = Phase_UpdateStatus t (run_Plan r) s"
  "run_Apply (setApply t s r) = Phase_UpdateStatus t (run_Apply r) s"
  by (simp_all add: setPlan_def setApply_def)

lemma exec_op_phases:
  assumes "run_wf r" "exec_op opn clk r = Inr r'"
  shows "phase_moves (run_Plan r) (run_Plan r') \<and> phase_moves (run_Apply r) (run_Apply r')"
proof (cases opn)
  case (OpFinish ph e)
  with assms show ?thesis
    by (cases ph)
      (auto simp: run_wf_def Run_Finish_def Let_def Plan_set phase_moves_set split: if_splits)
next
  case (OpCancel u f)
  with assms show ?thesis
    by (cases "run_Status r")
      (auto simp: run_wf_def Cancel_def Cancel_phases_def Plan_set phase_moves_set split: if_splits)
next
  case OpDiscard
  with assms show ?thesis by (auto simp: run_wf_def Discard_ok Plan_set phase_moves_set)
next
  case OpEnqueuePlan
  with assms show ?thesis by (auto simp: run_wf_def EnqueuePlan_ok Plan_set phase_moves_set)
next
  case OpEnqueueApply
  with assms show ?thesis by (auto simp: run_wf_def EnqueueApply_ok Plan_set phase_moves_set)
next
  case OpStart
  with assms show ?thesis by (auto simp: run_wf_def Start_ok Plan_set phase_moves_set)
next
  case (OpPlanReport a b)
  with assms show ?thesis by (auto simp: phase_moves_def)
next
  case (OpApplyReport a)
  with assms show ?thesis by (auto simp: phase_moves_def)
qed

lemma find_first_ex: "x \<in> set xs \<Longrightarrow> P x \<Longrightarrow> \<exists>y. find_first P xs = Some y \<and> P y"
  by (induction xs) auto

lemma persist_phase_total:
  assumes "ranked phase_rank (map pst_Status (ph_StatusTimestamps p)) (ph_Status p)" "phase_moves p p'"
  shows "\<exists>q. persist_phase p p' = Inr q \<and> ranked phase_rank (map pst_Status (ph_StatusTimestamps q)) (ph_Status q)"
proof (cases "ph_Status p' = ph_Status p")
  case True
  with assms(1) show ?thesis by (simp add: persist_phase_def)
next
  case False
  with assms(2) obtain x where x: "phase_rank (ph_Status p) < phase_rank (ph_Status p')"
    "x \<in> set (ph_StatusTimestamps p')" "pst_Status x = ph_Status p'" by (auto simp: phase_moves_def)
  from find_first_ex [OF x(2), of "\<lambda>t. pst_Status t = ph_Status p'"] x(3)
  have "\<exists>ts. Phase_StatusTimestamp p' (ph_Status p') = Inr ts"
    by (auto simp: Phase_StatusTimestamp_def)
  with False ranked_fresh [OF assms(1) x(1)] ranked_snoc [OF assms(1) x(1)] show ?thesis
    by (auto simp: persist_phase_def)
qed

lemma persist_run_total:
  assumes "run_row_ok old" "exec_op opn clk old = Inr new"
  shows "\<exists>row. persist_run old new = Inr row \<and> run_row_ok row"
proof -
  have old: "run_wf old" "ranked status_rank (map st_Status (run_StatusTimestamps old)) (run_Status old)"
    using assms(1) by (simp_all add: run_row_ok_def)
  have new: "run_wf new" using exec_op_wf [OF old(1) assms(2)] .
  then have "last (run_StatusTimestamps new) \<in> set (run_StatusTimestamps new)"
    "st_Status (last (run_StatusTimestamps new)) = run_Status new" by (simp_all add: run_wf_def)
  from find_first_ex [OF this(1), of "\<lambda>t. st_Status t = run_Status new"] this(2)
  have ts: "\<exists>ts. Run_StatusTimestamp new (run_Status new) = Inr ts"
    by (auto simp: Run_StatusTimestamp_def)
  have "\<exists>r1. persist_status old new = Inr r1 \<and>
      ranked status_rank (map st_Status (run_StatusTimestamps r1)) (run_Status r1)"
  proof (cases "run_Status new = run_Status old")
    case True
    with old(2) show ?thesis by (simp add: persist_status_def)
  next
    case False
    with exec_op_rank [OF assms(2)] have up: "status_rank (run_Status old) < status_rank (run_Status new)"
      by simp
    from False ts ranked_fresh [OF old(2) up] ranked_snoc [OF old(2) up] show ?thesis
      by (auto simp: persist_status_def)
  qed
  then obtain r1 where r1: "persist_status old new = Inr r1"
    "ranked status_rank (map st_Status (run_StatusTimestamps r1)) (run_Status r1)" by blast
  note ph = exec_op_phases [OF old(1) assms(2)]
  obtain p a where p: "persist_phase (run_Plan old) (run_Plan new) = Inr p"
    "ranked phase_rank (map pst_Status (ph_StatusTimestamps p)) (ph_Status p)"
    and a: "persist_phase (run_Apply old) (run_Apply new) = Inr a"
    "ranked phase_rank (map pst_Status (ph_StatusTimestamps a)) (ph_Status a)"
    using persist_phase_total assms(1) ph unfolding run_row_ok_def by metis
  let ?row = "r1\<lparr>run_Plan := p, run_Apply := a, run_CancelSignaledAt :=
     (if run_CancelSignaledAt new \<noteq> None then run_CancelSignaledAt new else run_CancelSignaledAt old)\<rparr>"
  have row: "persist_run old new = Inr ?row" by (simp add: persist_run_def r1(1) p(1) a(1))
  from persist_run_wf [OF old(1) assms(2) row] r1(2) p(2) a(2) row show ?thesis
    by (auto simp: run_row_ok_def)
qed

lemma UpdateStatus_ok:
  assumes "UpdateStatus rid fn db = Inr (db', new)"
  obtains old row where "db_runs db rid = Some old" "fn old = Inr new" "persist_run old new = Inr row"
    "db' = db\<lparr>db_runs := (db_runs db)(rid \<mapsto> row)\<rparr>"
  using assms by (auto simp: UpdateStatus_def split: option.splits sum.splits)

section \<open>The invariant\<close>

definition jobs_of :: "TfeID \<Rightarrow> Job list \<Rightarrow> Job list" where
  "jobs_of rid jobs = filter (\<lambda>j. job_RunID j = rid) jobs"

definition unfinished :: "Job list \<Rightarrow> Job list" where
  "unfinished js = filter (\<lambda>j. \<not> job_terminal (job_Status j)) js"

definition one_job :: "PhaseType \<Rightarrow> JobStatus list \<Rightarrow> Job list \<Rightarrow> bool" where
  "one_job ph sts js =
     (case js of [j] \<Rightarrow> job_Phase j = ph \<and> job_Status j \<in> set sts | _ \<Rightarrow> False)"

definition run_job_ok :: "Status \<Rightarrow> Job list \<Rightarrow> bool" where
  "run_job_ok st js =
     (case st of
        PlanQueued \<Rightarrow> one_job PlanPhase [JobUnallocated, JobAllocated] js
      | Planning \<Rightarrow> one_job PlanPhase [JobRunning] js
      | ApplyQueued \<Rightarrow> one_job ApplyPhase [JobUnallocated, JobAllocated] js
      | Applying \<Rightarrow> one_job ApplyPhase [JobRunning] js
      | _ \<Rightarrow> js = [])"

text \<open>A run that has not reached its apply has no apply job, a pending one has no job at all.\<close>

definition run_jobs_ok :: "Status \<Rightarrow> Job list \<Rightarrow> bool" where
  "run_jobs_ok st js \<longleftrightarrow>
     run_job_ok st (unfinished js) \<and> (st = Pending \<longrightarrow> js = []) \<and>
     (st \<in> {PlanQueued, Planning, Planned, CostEstimated} \<longrightarrow> (\<forall>j \<in> set js. job_Phase j = PlanPhase))"

definition joint_inv :: "otf_db \<Rightarrow> bool" where
  "joint_inv db \<longleftrightarrow>
     jobs_db_ok (db_jobs db) \<and>
     (\<forall>rid r. db_runs db rid = Some r \<longrightarrow>
        run_ID r = rid \<and> tfe_kind rid = RunKind \<and> run_row_ok r \<and>
        run_jobs_ok (run_Status r) (jobs_of rid (db_jobs db))) \<and>
     (\<forall>j \<in> set (db_jobs db). db_runs db (job_RunID j) \<noteq> None)"

lemma joint_invD:
  assumes "joint_inv db" "db_runs db rid = Some r"
  shows "run_ID r = rid" "tfe_kind rid = RunKind" "run_row_ok r"
    "run_jobs_ok (run_Status r) (jobs_of rid (db_jobs db))" "jobs_db_ok (db_jobs db)"
  using assms by (auto simp: joint_inv_def)

lemma unfinished_Nil [simp]: "unfinished [] = []"
  by (simp add: unfinished_def)

lemma unfinished_append [simp]: "unfinished (xs @ ys) = unfinished xs @ unfinished ys"
  by (simp add: unfinished_def)

lemma jobs_of_append [simp]: "jobs_of rid (xs @ ys) = jobs_of rid xs @ jobs_of rid ys"
  by (simp add: jobs_of_def)

lemma write_job_Nil [simp]: "write_job u [] = []"
  by (simp add: write_job_def)

lemma write_job_Cons:
  "write_job u (x # xs) =
     (if job_ID x = job_ID u then x\<lparr>job_Status := job_Status u, job_RunnerID := job_RunnerID u\<rparr> else x) #
     write_job u xs"
  by (simp add: write_job_def)

lemma jobs_of_write: "jobs_of rid (write_job u jobs) = write_job u (jobs_of rid jobs)"
  by (induction jobs) (simp_all add: jobs_of_def write_job_Cons)

text \<open>Replacing the row of one run and changing only its jobs.\<close>

lemma joint_update:
  assumes "joint_inv db" "db_runs db rid = Some old" "run_ID row = rid" "run_row_ok row"
    and "jobs_db_ok jobs'" "run_jobs_ok (run_Status row) (jobs_of rid jobs')"
    and "\<And>r. r \<noteq> rid \<Longrightarrow> jobs_of r jobs' = jobs_of r (db_jobs db)"
    and "job_RunID ` set jobs' \<subseteq> insert rid (job_RunID ` set (db_jobs db))"
    and "db_runs db' = (db_runs db)(rid \<mapsto> row)" "db_jobs db' = jobs'"
  shows "joint_inv db'"
  unfolding joint_inv_def assms(9,10)
proof (intro conjI allI impI ballI)
  fix r x
  assume x: "((db_runs db)(rid \<mapsto> row)) r = Some x"
  show "run_ID x = r" "tfe_kind r = RunKind" "run_row_ok x"
    using x assms(1-4) joint_invD [OF assms(1)] by (auto split: if_splits)
  show "run_jobs_ok (run_Status x) (jobs_of r jobs')"
    using x assms(6,7) joint_invD(4) [OF assms(1)] by (auto split: if_splits)
next
  fix j
  assume "j \<in> set jobs'"
  with assms(8) consider "job_RunID j = rid" | "job_RunID j \<in> job_RunID ` set (db_jobs db)" by blast
  then show "((db_runs db)(rid \<mapsto> row)) (job_RunID j) \<noteq> None"
    using assms(1) by cases (auto simp: joint_inv_def)
qed (use assms(5) in simp)

lemma jobs_of_other_write:
  assumes "jobs_db_ok jobs" "j \<in> set jobs" "job_ID u = job_ID j" "r \<noteq> job_RunID j"
  shows "jobs_of r (write_job u jobs) = jobs_of r jobs"
proof -
  have "x \<in> set (jobs_of r jobs) \<Longrightarrow> job_ID x \<noteq> job_ID u" for x
    using assms by (auto simp: jobs_of_def jobs_db_ok_def distinct_map inj_on_def)
  then have "write_job u (jobs_of r jobs) = jobs_of r jobs"
    by (auto simp: write_job_def intro: map_idI)
  then show ?thesis by (simp add: jobs_of_write)
qed

lemma RunIDs_write_job: "job_RunID ` set (write_job u jobs) = job_RunID ` set jobs"
  by (induction jobs) (simp_all add: write_job_Cons)

section \<open>Updating the row of a run\<close>

text \<open>A successful \<open>UpdateStatus\<close> with one of the operations on runs.\<close>

lemma UpdateStatus_row:
  assumes "joint_inv db" "UpdateStatus rid fn db = Inr (db', new)" "\<And>r. fn r = exec_op opn clk r"
  shows "\<exists>old row. db_runs db rid = Some old \<and> exec_op opn clk old = Inr new \<and> run_row_ok row \<and>
    run_ID row = rid \<and> run_Status row = run_Status new \<and>
    run_WorkspaceID row = run_WorkspaceID old \<and> run_PlanOnly row = run_PlanOnly old \<and>
    db_runs db' = (db_runs db)(rid \<mapsto> row) \<and> db_jobs db' = db_jobs db \<and>
    db_workspaces db' = db_workspaces db \<and> db_signals db' = db_signals db"
proof -
  obtain old row where u: "db_runs db rid = Some old" "fn old = Inr new"
    "persist_run old new = Inr row" "db' = db\<lparr>db_runs := (db_runs db)(rid \<mapsto> row)\<rparr>"
    using UpdateStatus_ok [OF assms(2)] .
  note inv = joint_invD [OF assms(1) u(1)]
  have ex: "exec_op opn clk old = Inr new" using u(2) assms(3) by simp
  from persist_run_total [OF inv(3) ex] u(3) have "run_row_ok row" by auto
  with u ex persist_run_ok [OF u(3)] inv(1) show ?thesis
    by (intro exI [of _ old] exI [of _ row]) simp
qed

lemma UpdateStatus_total:
  assumes "joint_inv db" "db_runs db rid = Some old" "exec_op opn clk old = Inr new"
    and "\<And>r. fn r = exec_op opn clk r"
  shows "\<exists>db'. UpdateStatus rid fn db = Inr (db', new)"
  using persist_run_total [OF joint_invD(3) [OF assms(1,2)] assms(3)] assms(2-4)
  by (auto simp: UpdateStatus_def)

lemma exec_op_same_ID: "exec_op opn clk r = Inr r' \<Longrightarrow> run_ID r' = run_ID r"
proof (cases opn)
  case (OpFinish ph e)
  assume "exec_op opn clk r = Inr r'"
  with OpFinish show ?thesis by (cases ph) (auto simp: Run_Finish_def Let_def split: if_splits)
next
  case (OpCancel u f)
  assume "exec_op opn clk r = Inr r'"
  with OpCancel show ?thesis
    by (cases "run_Status r") (auto simp: Cancel_def Cancel_phases_def split: if_splits)
qed (auto simp: EnqueuePlan_ok EnqueueApply_ok Start_ok Discard_ok)

section \<open>Creating jobs\<close>

lemma createJob_ok:
  assumes "createJob rnd run db = Inr db'"
  obtains job where "db' = db\<lparr>db_jobs := db_jobs db @ [job]\<rparr>"
    "job_ID job = NewTfeID rnd JobKind" "job_RunID job = run_ID run" "job_Phase job = Run_Phase run"
    "job_Status job = JobUnallocated" "job_RunnerID job = None"
    "job_ID job \<notin> job_ID ` set (db_jobs db)"
  using assms by (force simp: createJob_def Let_def newJob_def list_ex_iff split: if_splits)

lemma queue_job_inv:
  assumes "joint_inv db" "db_runs db rid = Some old" "run_row_ok row" "run_ID row = rid"
    and "run_Status row \<in> {PlanQueued, ApplyQueued}" "unfinished (jobs_of rid (db_jobs db)) = []"
    and "run_Status row = PlanQueued \<Longrightarrow> jobs_of rid (db_jobs db) = []"
    and "db_runs dba = (db_runs db)(rid \<mapsto> row)" "db_jobs dba = db_jobs db"
    and "run_ID new = rid" "run_Status new = run_Status row" "createJob rnd new dba = Inr dbb"
  shows "joint_inv dbb"
proof -
  obtain job where job: "dbb = dba\<lparr>db_jobs := db_jobs dba @ [job]\<rparr>"
    "job_ID job = NewTfeID rnd JobKind" "job_RunID job = run_ID new" "job_Phase job = Run_Phase new"
    "job_Status job = JobUnallocated" "job_RunnerID job = None" "job_ID job \<notin> job_ID ` set (db_jobs dba)"
    using createJob_ok [OF assms(12)] .
  have rid: "tfe_kind rid = RunKind" and ok: "jobs_db_ok (db_jobs db)"
    using joint_invD [OF assms(1,2)] by simp_all
  have jobs: "jobs_of rid (db_jobs db @ [job]) = jobs_of rid (db_jobs db) @ [job]"
    using job(3) assms(10) by (simp add: jobs_of_def)
  show ?thesis
  proof (rule joint_update [OF assms(1,2,4,3)])
    show "jobs_db_ok (db_jobs db @ [job])"
      using ok job assms(9,10) rid by (simp add: jobs_db_ok_def job_wf_def NewTfeID_def)
    show "run_jobs_ok (run_Status row) (jobs_of rid (db_jobs db @ [job]))"
      unfolding jobs run_jobs_ok_def
      using assms(5-7,11) job(4,5)
      by (auto simp: run_job_ok_def one_job_def Run_Phase_def unfinished_def)
    show "jobs_of r (db_jobs db @ [job]) = jobs_of r (db_jobs db)" if "r \<noteq> rid" for r
      using that job(3) assms(10) by (simp add: jobs_of_def)
    show "job_RunID ` set (db_jobs db @ [job]) \<subseteq> insert rid (job_RunID ` set (db_jobs db))"
      using job(3) assms(10) by auto
  qed (use job(1) assms(8,9) in simp_all)
qed

lemma no_unfinished:
  assumes "run_jobs_ok st js" "st \<notin> {PlanQueued, Planning, ApplyQueued, Applying}"
  shows "unfinished js = []"
  using assms by (cases st) (auto simp: run_jobs_ok_def run_job_ok_def)

lemma toggleLock_frame:
  "toggleLock w f db = Inr db' \<Longrightarrow>
     db_runs db' = db_runs db \<and> db_jobs db' = db_jobs db \<and> db_signals db' = db_signals db"
  by (auto simp: toggleLock_def split: option.splits sum.splits)

lemma Service_Lock_frame:
  "Service_Lock env w r db = Inr db' \<Longrightarrow>
     db_runs db' = db_runs db \<and> db_jobs db' = db_jobs db \<and> db_signals db' = db_signals db"
  by (auto simp: Service_Lock_def split: option.splits sum.splits dest: toggleLock_frame)

lemma Service_Unlock_frame:
  "Service_Unlock env w r f db = Inr db' \<Longrightarrow>
     db_runs db' = db_runs db \<and> db_jobs db' = db_jobs db \<and> db_signals db' = db_signals db"
  by (auto simp: Service_Unlock_def split: option.splits sum.splits dest: toggleLock_frame)

lemma SetWorkspaceLatestRun_frame:
  "SetWorkspaceLatestRun w r db = Inr db' \<Longrightarrow>
     db_runs db' = db_runs db \<and> db_jobs db' = db_jobs db \<and> db_signals db' = db_signals db"
  by (auto simp: SetWorkspaceLatestRun_def split: option.splits)

lemma joint_inv_cong:
  "joint_inv db \<Longrightarrow> db_runs db' = db_runs db \<Longrightarrow> db_jobs db' = db_jobs db \<Longrightarrow> joint_inv db'"
  by (simp add: joint_inv_def)

lemma EnqueuePlan_inv:
  assumes "joint_inv db" "Service_EnqueuePlan env rid db = Inr db'"
  shows "joint_inv db'"
proof -
  from assms(2) obtain db1 run db3 where e: "UpdateStatus rid (Run_EnqueuePlan (env_clk env)) db = Inr (db1, run)"
    "db_runs db3 = db_runs db1" "db_jobs db3 = db_jobs db1" "createJob (env_rnd env) run db3 = Inr db'"
    by (auto simp: Service_EnqueuePlan_def split: sum.splits if_splits prod.splits
        dest!: Service_Lock_frame SetWorkspaceLatestRun_frame)
  obtain old row where u: "db_runs db rid = Some old" "exec_op OpEnqueuePlan (env_clk env) old = Inr run"
    "run_row_ok row" "run_ID row = rid" "run_Status row = run_Status run"
    "db_runs db1 = (db_runs db)(rid \<mapsto> row)" "db_jobs db1 = db_jobs db"
    using UpdateStatus_row [OF assms(1) e(1), of OpEnqueuePlan "env_clk env"] by (simp, blast)
  have st: "run_Status old = Pending" "run_Status run = PlanQueued"
    using u(2) by (auto simp: EnqueuePlan_ok)
  note inv = joint_invD [OF assms(1) u(1)]
  have none: "jobs_of rid (db_jobs db) = []" using inv(4) st(1) by (simp add: run_jobs_ok_def)
  show ?thesis
    by (rule queue_job_inv [OF assms(1) u(1,3,4), where new = run and dba = db3])
      (use e u st none exec_op_same_ID [OF u(2)] inv(1) in simp_all)
qed

lemma ApplyRun_inv:
  assumes "joint_inv db" "ApplyRun env rid db = Inr db'"
  shows "joint_inv db'"
proof -
  from assms(2) obtain db1 run where e: "UpdateStatus rid (Run_EnqueueApply (env_clk env)) db = Inr (db1, run)"
    "createJob (env_rnd env) run db1 = Inr db'"
    by (auto simp: ApplyRun_def split: sum.splits prod.splits)
  obtain old row where u: "db_runs db rid = Some old" "exec_op OpEnqueueApply (env_clk env) old = Inr run"
    "run_row_ok row" "run_ID row = rid" "run_Status row = run_Status run"
    "db_runs db1 = (db_runs db)(rid \<mapsto> row)" "db_jobs db1 = db_jobs db"
    using UpdateStatus_row [OF assms(1) e(1), of OpEnqueueApply "env_clk env"] by (simp, blast)
  have st: "run_Status old \<in> {Planned, CostEstimated}" "run_Status run = ApplyQueued"
    using u(2) by (auto simp: EnqueueApply_ok)
  note inv = joint_invD [OF assms(1) u(1)]
  have none: "unfinished (jobs_of rid (db_jobs db)) = []" using no_unfinished [OF inv(4)] st(1) by auto
  show ?thesis
    by (rule queue_job_inv [OF assms(1) u(1,3,4), where new = run and dba = db1])
      (use e u st none exec_op_same_ID [OF u(2)] inv(1) in simp_all)
qed

section \<open>Changing the one unfinished job of a run\<close>

lemma unfinished_write:
  assumes "distinct (map job_ID js)" "unfinished js = [j]" "u = j\<lparr>job_Status := st, job_RunnerID := rn\<rparr>"
  shows "unfinished (write_job u js) = (if job_terminal st then [] else [u])"
  using assms
proof (induction js)
  case Nil
  then show ?case by simp
next
  case (Cons x xs)
  show ?case
  proof (cases "job_terminal (job_Status x)")
    case True
    with Cons.prems have un: "unfinished xs = [j]" by (simp add: unfinished_def)
    then have "j \<in> set xs" by (metis filter_is_subset list.set_intros(1) subsetD unfinished_def)
    with Cons.prems(1,3) have "job_ID x \<noteq> job_ID u" by auto
    with True Cons un show ?thesis by (simp add: write_job_Cons unfinished_def)
  next
    case False
    with Cons.prems have x: "x = j" "unfinished xs = []" by (simp_all add: unfinished_def)
    have "job_ID y \<noteq> job_ID u" if "y \<in> set xs" for y
      using that Cons.prems(1,3) x(1) by (auto simp: image_iff)
    then have "write_job u xs = xs" by (auto simp: write_job_def intro: map_idI)
    with x Cons.prems(3) show ?thesis by (simp add: write_job_Cons unfinished_def)
  qed
qed

lemma jobs_of_distinct: "jobs_db_ok jobs \<Longrightarrow> distinct (map job_ID (jobs_of rid jobs))"
  by (simp add: jobs_db_ok_def jobs_of_def distinct_map_filter)

text \<open>A job that is not finished is the one that its run is waiting for.\<close>

lemma unfinished_job:
  assumes "joint_inv db" "j \<in> set (db_jobs db)" "\<not> job_terminal (job_Status j)"
  obtains r where "db_runs db (job_RunID j) = Some r"
    "unfinished (jobs_of (job_RunID j) (db_jobs db)) = [j]"
    "job_Phase j = PlanPhase \<and> (run_Status r = PlanQueued \<and> job_Status j \<in> {JobUnallocated, JobAllocated} \<or>
        run_Status r = Planning \<and> job_Status j = JobRunning) \<or>
     job_Phase j = ApplyPhase \<and> (run_Status r = ApplyQueued \<and> job_Status j \<in> {JobUnallocated, JobAllocated} \<or>
        run_Status r = Applying \<and> job_Status j = JobRunning)"
proof -
  obtain r where r: "db_runs db (job_RunID j) = Some r" using assms(1,2) by (auto simp: joint_inv_def)
  have "j \<in> set (unfinished (jobs_of (job_RunID j) (db_jobs db)))"
    using assms(2,3) by (simp add: unfinished_def jobs_of_def)
  with joint_invD(4) [OF assms(1) r] that [OF r] show ?thesis
    by (cases "run_Status r")
      (auto simp: run_jobs_ok_def run_job_ok_def one_job_def split: list.splits)
qed

lemma job_change_inv:
  assumes "joint_inv db" "j \<in> set (db_jobs db)" "\<not> job_terminal (job_Status j)"
    and "u = j\<lparr>job_Status := st, job_RunnerID := rn\<rparr>" "job_wf u"
    and "run_row_ok row" "run_ID row = job_RunID j"
    and "run_job_ok (run_Status row) (if job_terminal st then [] else [u])" "run_Status row \<noteq> Pending"
    and "run_Status row \<in> {PlanQueued, Planning, Planned, CostEstimated} \<Longrightarrow> job_Phase j = PlanPhase"
    and "db_runs db' = (db_runs db)(job_RunID j \<mapsto> row)" "db_jobs db' = write_job u (db_jobs db)"
  shows "joint_inv db'"
proof -
  obtain r where r: "db_runs db (job_RunID j) = Some r"
    "unfinished (jobs_of (job_RunID j) (db_jobs db)) = [j]"
    "job_Phase j = PlanPhase \<and> run_Status r \<in> {PlanQueued, Planning} \<or>
     job_Phase j = ApplyPhase \<and> run_Status r \<in> {ApplyQueued, Applying}"
    using unfinished_job [OF assms(1-3)] by blast
  note inv = joint_invD [OF assms(1) r(1)]
  have id: "job_ID u = job_ID j" using assms(4) by simp
  show ?thesis
  proof (rule joint_update [OF assms(1) r(1) assms(7,6)])
    show "jobs_db_ok (write_job u (db_jobs db))"
      unfolding assms(4) by (rule write_job_ok [OF inv(5) assms(2)]) (use assms(4,5) in simp)
    have un: "unfinished (jobs_of (job_RunID j) (write_job u (db_jobs db))) = (if job_terminal st then [] else [u])"
      unfolding jobs_of_write by (rule unfinished_write [OF jobs_of_distinct [OF inv(5)] r(2) assms(4)])
    have "job_Phase ` set (write_job u js) = job_Phase ` set js" for js
      by (induction js) (simp_all add: write_job_Cons)
    then have ph: "(\<forall>x \<in> set (jobs_of (job_RunID j) (write_job u (db_jobs db))). job_Phase x = PlanPhase) \<longleftrightarrow>
        (\<forall>x \<in> set (jobs_of (job_RunID j) (db_jobs db)). job_Phase x = PlanPhase)"
      unfolding jobs_of_write by (metis (no_types, lifting) imageE imageI)
    have "\<forall>x \<in> set (jobs_of (job_RunID j) (db_jobs db)). job_Phase x = PlanPhase"
      if "run_Status row \<in> {PlanQueued, Planning, Planned, CostEstimated}"
      using assms(10) [OF that] r(3) inv(4) by (auto simp: run_jobs_ok_def)
    with un ph assms(8,9)
    show "run_jobs_ok (run_Status row) (jobs_of (job_RunID j) (write_job u (db_jobs db)))"
      by (simp add: run_jobs_ok_def)
    show "jobs_of r' (write_job u (db_jobs db)) = jobs_of r' (db_jobs db)" if "r' \<noteq> job_RunID j" for r'
      by (rule jobs_of_other_write [OF inv(5) assms(2) id that])
    show "job_RunID ` set (write_job u (db_jobs db)) \<subseteq> insert (job_RunID j) (job_RunID ` set (db_jobs db))"
      by (simp add: RunIDs_write_job subset_insertI)
  qed (use assms(11,12) in simp_all)
qed

section \<open>The other operations\<close>

text \<open>A run without an unfinished job moves to a status that needs none.\<close>

lemma quiet_run_inv:
  assumes "joint_inv db" "db_runs db rid = Some old" "run_row_ok row" "run_ID row = rid"
    and "unfinished (jobs_of rid (db_jobs db)) = []"
    and "run_Status row \<notin> {Pending, PlanQueued, Planning, Planned, CostEstimated, ApplyQueued, Applying} \<or>
         run_Status row = run_Status old"
    and "db_runs db' = (db_runs db)(rid \<mapsto> row)" "db_jobs db' = db_jobs db"
  shows "joint_inv db'"
proof (rule joint_update [OF assms(1,2,4,3)])
  note inv = joint_invD [OF assms(1,2)]
  show "jobs_db_ok (db_jobs db)" by (rule inv(5))
  show "run_jobs_ok (run_Status row) (jobs_of rid (db_jobs db))"
    using assms(5,6) inv(4) by (cases "run_Status row") (auto simp: run_jobs_ok_def run_job_ok_def)
qed (use assms(7,8) in auto)

lemma DiscardRun_inv:
  assumes "joint_inv db" "DiscardRun env rid db = Inr db'"
  shows "joint_inv db'"
proof -
  from assms(2) obtain run where e: "UpdateStatus rid (Discard (env_clk env)) db = Inr (db', run)"
    by (auto simp: DiscardRun_def split: sum.splits prod.splits)
  obtain old row where u: "db_runs db rid = Some old" "exec_op OpDiscard (env_clk env) old = Inr run"
    "run_row_ok row" "run_ID row = rid" "run_Status row = run_Status run"
    "db_runs db' = (db_runs db)(rid \<mapsto> row)" "db_jobs db' = db_jobs db"
    using UpdateStatus_row [OF assms(1) e, of OpDiscard "env_clk env"] by (simp, blast)
  have st: "run_Status old \<in> {Pending, Planned, CostEstimated}" "run_Status run = Discarded"
    using u(2) by (auto simp: Discard_ok)
  show ?thesis
    by (rule quiet_run_inv [OF assms(1) u(1,3,4)])
      (use u st no_unfinished [OF joint_invD(4) [OF assms(1) u(1)]] in auto)
qed

lemma createReports_row:
  assumes "createReports env rid ph db = Inr db'" "db_runs db rid = Some r"
  shows "\<exists>r'. db' = db\<lparr>db_runs := (db_runs db)(rid \<mapsto> r')\<rparr> \<and> run_ID r' = run_ID r \<and>
    run_Status r' = run_Status r \<and> run_WorkspaceID r' = run_WorkspaceID r \<and>
    run_PlanOnly r' = run_PlanOnly r \<and> (run_row_ok r \<longrightarrow> run_row_ok r')"
proof -
  have plan: "run_row_ok r \<longrightarrow> run_row_ok (r\<lparr>run_Plan := (run_Plan r)\<lparr>ph_ResourceReport := x, ph_OutputReport := y\<rparr>\<rparr>)"
    and apply': "run_row_ok r \<longrightarrow> run_row_ok (r\<lparr>run_Apply := (run_Apply r)\<lparr>ph_ResourceReport := x\<rparr>\<rparr>)" for x y
    by (auto simp: run_row_ok_def run_wf_def)
  show ?thesis
  proof (cases ph)
    case PlanPhase
    with assms obtain x y where "db' = db\<lparr>db_runs := (db_runs db)(rid \<mapsto>
        r\<lparr>run_Plan := (run_Plan r)\<lparr>ph_ResourceReport := Some x, ph_OutputReport := Some y\<rparr>\<rparr>)\<rparr>"
      by (auto simp: createReports_def CreatePlanReport_def split: sum.splits)
    with plan show ?thesis
      by (intro exI [of _ "r\<lparr>run_Plan := (run_Plan r)\<lparr>ph_ResourceReport := Some x, ph_OutputReport := Some y\<rparr>\<rparr>"]) simp
  next
    case ApplyPhase
    with assms obtain x where "db' = db\<lparr>db_runs := (db_runs db)(rid \<mapsto>
        r\<lparr>run_Apply := (run_Apply r)\<lparr>ph_ResourceReport := Some x\<rparr>\<rparr>)\<rparr>"
      by (auto simp: createReports_def CreateApplyReport_def split: sum.splits)
    with apply' show ?thesis
      by (intro exI [of _ "r\<lparr>run_Apply := (run_Apply r)\<lparr>ph_ResourceReport := Some x\<rparr>\<rparr>"]) simp
  qed (use assms in \<open>simp_all add: createReports_def\<close>)
qed

lemma createReports_none:
  "createReports env rid ph db = Inr db' \<Longrightarrow> db_runs db rid = None \<Longrightarrow> db' = db"
  by (cases ph) (auto simp: createReports_def CreatePlanReport_def CreateApplyReport_def split: sum.splits)

lemma report_inv:
  assumes "joint_inv db" "createReports env rid ph db = Inr db'"
  shows "joint_inv db'"
proof (cases "db_runs db rid")
  case None
  with createReports_none [OF assms(2)] assms(1) show ?thesis by simp
next
  case (Some r)
  from createReports_row [OF assms(2) Some] obtain r' where
    r': "db' = db\<lparr>db_runs := (db_runs db)(rid \<mapsto> r')\<rparr>" "run_ID r' = run_ID r"
    "run_Status r' = run_Status r" "run_row_ok r \<longrightarrow> run_row_ok r'" by blast
  note inv = joint_invD [OF assms(1) Some]
  show ?thesis
    by (rule joint_update [OF assms(1) Some, where row = r' and jobs' = "db_jobs db"])
      (use r' inv in auto)
qed

lemma CreateRun_inv:
  assumes "joint_inv db" "db_CreateRun run db = Inr db'" "run_row_ok run" "run_Status run = Pending"
    and "tfe_kind (run_ID run) = RunKind"
  shows "joint_inv db'"
proof -
  have db': "db' = db\<lparr>db_runs := (db_runs db)(run_ID run \<mapsto> run)\<rparr>" "db_runs db (run_ID run) = None"
    using assms(2) by (auto simp: db_CreateRun_def split: if_splits)
  have none: "jobs_of (run_ID run) (db_jobs db) = []"
    using assms(1) db'(2) by (auto simp: joint_inv_def jobs_of_def filter_empty_conv)
  with assms db' show ?thesis
    by (auto simp: joint_inv_def run_jobs_ok_def run_job_ok_def split: if_splits)
qed

lemma DeleteRun_inv:
  assumes "joint_inv db" "db_DeleteRun rid db = Inr db'"
  shows "joint_inv db'"
proof -
  have db': "db' = db\<lparr>db_runs := (db_runs db)(rid := None),
      db_jobs := filter (\<lambda>j. job_RunID j \<noteq> rid) (db_jobs db)\<rparr>"
    using assms(2) by (auto simp: db_DeleteRun_def split: if_splits)
  have "jobs_of r (filter (\<lambda>j. job_RunID j \<noteq> rid) jobs) = jobs_of r jobs" if "r \<noteq> rid" for r jobs
    using that by (induction jobs) (auto simp: jobs_of_def)
  with assms(1) show ?thesis
    unfolding joint_inv_def db' by (auto simp: jobs_db_ok_def distinct_map_filter split: if_splits)
qed

lemma allocate_job_inv:
  assumes "joint_inv db" "j \<in> set (db_jobs db)" "job_Status j \<in> {JobUnallocated, JobAllocated}"
    and "u = j\<lparr>job_Status := JobAllocated, job_RunnerID := Some runner\<rparr>"
  shows "joint_inv (db\<lparr>db_jobs := write_job u (db_jobs db)\<rparr>)"
proof -
  have nt: "\<not> job_terminal (job_Status j)" using assms(3) by auto
  obtain r where r: "db_runs db (job_RunID j) = Some r"
    "job_Phase j = PlanPhase \<and> run_Status r = PlanQueued \<or> job_Phase j = ApplyPhase \<and> run_Status r = ApplyQueued"
    using unfinished_job [OF assms(1,2) nt] assms(3) by (metis JobStatus.distinct insertE singletonD)
  note inv = joint_invD [OF assms(1) r(1)]
  show ?thesis
    by (rule job_change_inv [OF assms(1,2) nt assms(4) _ inv(3)])
      (use r inv(1) assms(4) in \<open>auto simp: job_wf_def run_job_ok_def one_job_def fun_upd_idem\<close>)
qed

lemma StartJob_inv:
  assumes "joint_inv db" "StartJob env jid db = Inr (db', token)"
  shows "joint_inv db'"
proof -
  from assms(2) obtain j u db1 where s: "find_first (job_selected jid) (db_jobs db) = Some j"
    "startJob j = Inr u" "StartPhase env (job_RunID j) db = Inr db1"
    "db' = db1\<lparr>db_jobs := write_job u (db_jobs db1)\<rparr>" "job_RunnerID j \<noteq> None"
    by (auto simp: StartJob_def split: option.splits Subject.splits sum.splits if_splits)
  have j: "j \<in> set (db_jobs db)" using find_first_SomeD [OF s(1)] by simp
  have js: "job_Status j = JobAllocated" "u = j\<lparr>job_Status := JobRunning\<rparr>"
    using s(2) by (cases "job_Status j"; auto simp: job_defs)+
  then have nt: "\<not> job_terminal (job_Status j)" by simp
  have u: "u = j\<lparr>job_Status := JobRunning, job_RunnerID := job_RunnerID j\<rparr>" using js(2) by simp
  from s(3) obtain run where e: "UpdateStatus (job_RunID j) (Run_Start (env_clk env)) db = Inr (db1, run)"
    by (auto simp: StartPhase_def split: sum.splits prod.splits)
  obtain old row where w: "db_runs db (job_RunID j) = Some old" "exec_op OpStart (env_clk env) old = Inr run"
    "run_row_ok row" "run_ID row = job_RunID j" "run_Status row = run_Status run"
    "db_runs db1 = (db_runs db)(job_RunID j \<mapsto> row)" "db_jobs db1 = db_jobs db"
    using UpdateStatus_row [OF assms(1) e, of OpStart "env_clk env"] by (simp, blast)
  obtain r where r: "db_runs db (job_RunID j) = Some r"
    "job_Phase j = PlanPhase \<and> run_Status r = PlanQueued \<or> job_Phase j = ApplyPhase \<and> run_Status r = ApplyQueued"
    using unfinished_job [OF assms(1) j nt] js(1) by (metis JobStatus.distinct)
  have st: "job_Phase j = PlanPhase \<and> run_Status row = Planning \<or> job_Phase j = ApplyPhase \<and> run_Status row = Applying"
    using r w(1,2,5) by (auto simp: Start_ok)
  show ?thesis
    by (rule job_change_inv [OF assms(1) j nt u _ w(3,4)])
      (use st s(4,5) w(6,7) js in \<open>auto simp: job_wf_def run_job_ok_def one_job_def\<close>)
qed

end
