(* ===== verification/RunJobsSafety.thy ===== *)
theory RunJobsSafety
  imports RunJobs
begin

text \<open>
  Cancelation and completion of runs and jobs keep the joint invariant, and with them every
  operation of the services. The properties state the correspondence of runs and jobs in every
  reachable database, what cancelation achieves, and the two ways around it: a job token that
  finishes another job, and the purge of a runner.
\<close>

lemma running_job:
  assumes "joint_inv db" "j \<in> set (db_jobs db)" "job_Status j = JobRunning"
    and "db_runs db (job_RunID j) = Some r"
  shows "job_Phase j = PlanPhase \<and> run_Status r = Planning \<or> job_Phase j = ApplyPhase \<and> run_Status r = Applying"
  by (rule unfinished_job [OF assms(1,2)]) (use assms(3,4) in auto)

lemma write_job_same:
  assumes "jobs_db_ok jobs" "j \<in> set jobs"
  shows "write_job j jobs = jobs"
proof -
  have "job_ID x = job_ID j \<longrightarrow> x = j" if "x \<in> set jobs" for x
    using that assms by (auto simp: jobs_db_ok_def distinct_map inj_on_def)
  then have "(if job_ID x = job_ID j then x\<lparr>job_Status := job_Status j, job_RunnerID := job_RunnerID j\<rparr> else x) = x"
    if "x \<in> set jobs" for x
    using that by fastforce
  then show ?thesis unfolding write_job_def by (rule map_idI)
qed

section \<open>Cancelation\<close>

lemma find_run_job:
  assumes "joint_inv db" "db_runs db rid = Some r"
  shows "find_first (job_selected rid) (db_jobs db) =
    (case unfinished (jobs_of rid (db_jobs db)) of [] \<Rightarrow> None | j # _ \<Rightarrow> Some j)"
proof -
  note inv = joint_invD [OF assms]
  have sel: "job_selected rid j \<longleftrightarrow> job_RunID j = rid \<and> \<not> job_terminal (job_Status j)"
    if "j \<in> set (db_jobs db)" for j
  proof -
    have "job_ID j \<noteq> rid" using inv(2,5) that by (auto simp: jobs_db_ok_def kind_defs)
    then show ?thesis by (cases "job_Status j") (auto simp: job_selected_def)
  qed
  have "find_first P xs = (case filter Q xs of [] \<Rightarrow> None | j # _ \<Rightarrow> Some j)"
    if "\<And>x. x \<in> set xs \<Longrightarrow> P x = Q x" for P Q and xs :: "Job list"
    using that by (induction xs) auto
  from this [of "db_jobs db" "job_selected rid" "\<lambda>j. job_RunID j = rid \<and> \<not> job_terminal (job_Status j)"] sel
  show ?thesis by (simp add: unfinished_def jobs_of_def conj_commute)
qed

lemma Cancel_status:
  assumes "Cancel clk u f r = Inr r'"
  shows "run_Status r' = (if f then ForceCanceled else Canceled) \<or>
    run_Status r' = run_Status r \<and> run_Status r \<in> {Planning, Applying} \<and> u \<and> \<not> f \<and>
    run_CancelSignaledAt r = None \<and> run_CancelSignaledAt r' \<noteq> None"
  using assms
  by (cases "run_Status r") (auto simp: Cancel_def Cancel_phases_def split: if_splits)

lemma Cancel_nonuser:
  "\<exists>r'. Cancel clk False False r = Inr r' \<and> run_Status r' = Canceled"
  by (cases "run_Status r") (auto simp: Cancel_def Cancel_phases_def)

text \<open>
  The transaction of a cancelation: the row of the run, and its unfinished job if there is one. The
  job is canceled when the run is, and otherwise only signaled.
\<close>

lemma CancelRun_tx_inv:
  assumes "joint_inv db" "CancelRun_tx env u f rid db = Inr db'"
  shows "joint_inv db' \<and> (\<exists>old row. db_runs db rid = Some old \<and> db_runs db' = (db_runs db)(rid \<mapsto> row) \<and>
    (run_Status row = (if f then ForceCanceled else Canceled) \<and> unfinished (jobs_of rid (db_jobs db')) = [] \<or>
     run_Status row = run_Status old \<and> u \<and> \<not> f \<and> run_Status old \<in> {Planning, Applying} \<and>
       (\<exists>j. unfinished (jobs_of rid (db_jobs db')) = [j] \<and> db_signals db' = db_signals db @ [(job_ID j, False)])))"
proof -
  from assms(2) obtain db1 run where e: "UpdateStatus rid (Cancel (env_clk env) u f) db = Inr (db1, run)"
    "cancelJob run db1 = Inr db'"
    by (auto simp: CancelRun_tx_def split: sum.splits prod.splits)
  obtain old row where w: "db_runs db rid = Some old" "exec_op (OpCancel u f) (env_clk env) old = Inr run"
    "run_row_ok row" "run_ID row = rid" "run_Status row = run_Status run"
    "db_runs db1 = (db_runs db)(rid \<mapsto> row)" "db_jobs db1 = db_jobs db" "db_signals db1 = db_signals db"
    using UpdateStatus_row [OF assms(1) e(1), of "OpCancel u f" "env_clk env"] by (simp, blast)
  note inv = joint_invD [OF assms(1) w(1)]
  have rid: "run_ID run = rid" using exec_op_same_ID [OF w(2)] inv(1) by simp
  have cancel: "Cancel (env_clk env) u f old = Inr run" using w(2) by simp
  note find = find_run_job [OF assms(1) w(1)]
  show ?thesis
  proof (cases "unfinished (jobs_of rid (db_jobs db))")
    case Nil
    then have "db' = db1" using e(2) find by (simp add: cancelJob_def rid w(7))
    moreover have "run_Status old \<notin> {Planning, Applying}"
      using Nil inv(4) by (auto simp: run_jobs_ok_def run_job_ok_def one_job_def)
    with Cancel_status [OF cancel] have "run_Status run = (if f then ForceCanceled else Canceled)" by blast
    moreover from this have "joint_inv db1"
      by (intro quiet_run_inv [OF assms(1) w(1,3,4) Nil]) (use w in auto)
    ultimately show ?thesis using w Nil by auto
  next
    case (Cons j rest)
    then have "j \<in> set (unfinished (jobs_of rid (db_jobs db)))" by simp
    then have j: "j \<in> set (db_jobs db)" "job_RunID j = rid" "\<not> job_terminal (job_Status j)"
      by (auto simp: unfinished_def jobs_of_def)
    obtain r where r: "db_runs db (job_RunID j) = Some r"
      "unfinished (jobs_of (job_RunID j) (db_jobs db)) = [j]"
      "run_Status r \<in> {PlanQueued, Planning, ApplyQueued, Applying}"
      "run_Status r \<in> {Planning, Applying} \<longleftrightarrow> job_Status j = JobRunning"
      using unfinished_job [OF assms(1) j(1,3)] by (metis (no_types, lifting) JobStatus.distinct
          Status.distinct insertCI insertE singletonD)
    have old: "old = r" using r(1) w(1) j(2) by simp
    have found: "find_first (job_selected (run_ID run)) (db_jobs db1) = Some j"
      using find Cons w(7) by (simp add: rid)
    have to_canceled: "job_updateStatus j JobCanceled = Inr (j\<lparr>job_Status := JobCanceled\<rparr>)"
      using j(3) by (cases "job_Status j") (simp_all add: job_updateStatus_def)
    consider (fin) "run_Status run = (if f then ForceCanceled else Canceled)"
      | (signal) "run_Status run = run_Status old" "run_Status old \<in> {Planning, Applying}" "u" "\<not> f"
        "run_CancelSignaledAt run \<noteq> None"
      using Cancel_status [OF cancel] by blast
    then show ?thesis
    proof cases
      case fin
      let ?u = "j\<lparr>job_Status := JobCanceled, job_RunnerID := job_RunnerID j\<rparr>"
      have jobs: "db_jobs db' = write_job ?u (db_jobs db)" and runs: "db_runs db' = db_runs db1"
        using e(2) fin found to_canceled w(7) by (auto simp: cancelJob_def job_cancel_def split: if_splits)
      have "job_wf ?u" by (simp add: job_wf_def)
      then have "joint_inv db'"
        by (intro job_change_inv [OF assms(1) j(1,3), where u = ?u and st = JobCanceled and rn = "job_RunnerID j" and row = row])
          (use w(3-6) j(2) fin jobs runs in \<open>auto simp: run_job_ok_def split: if_splits\<close>)
      moreover have "unfinished (jobs_of rid (db_jobs db')) = []"
        unfolding jobs jobs_of_write
        using unfinished_write [OF jobs_of_distinct [OF inv(5)] r(2) refl, of "job_RunnerID j" JobCanceled] j(2)
        by simp
      ultimately show ?thesis using w runs fin by auto
    next
      case signal
      have "job_cancel run j = Inr (j, True, False)"
        using signal by (auto simp: job_cancel_def)
      then have db': "db' = db1\<lparr>db_jobs := write_job j (db_jobs db1), db_signals := db_signals db1 @ [(job_ID j, False)]\<rparr>"
        using e(2) found by (simp add: cancelJob_def)
      have same: "write_job j (db_jobs db) = db_jobs db"
        using inv(5) j(1) by (rule write_job_same)
      have "joint_inv db'"
        by (rule joint_update [OF assms(1) w(1,4,3), where jobs' = "db_jobs db"])
          (use inv w signal db' same in auto)
      with w db' same r(2) j(2) signal show ?thesis by auto
    qed
  qed
qed

lemma CancelRun_inv:
  assumes "joint_inv db" "CancelRun env rid db = Inr db'"
  shows "joint_inv db'"
  using assms CancelRun_tx_inv [OF assms(1)]
  by (auto simp: CancelRun_def split: sum.splits if_splits)

lemma ForceCancelRun_inv:
  assumes "joint_inv db" "ForceCancelRun env rid db = Inr db'"
  shows "joint_inv db'"
  using assms CancelRun_tx_inv [OF assms(1)]
  by (auto simp: ForceCancelRun_def split: sum.splits)

section \<open>Finishing a job\<close>

text \<open>
  Finishing a job writes the job last, after the run and, with auto-apply, after the job of the
  apply has been created. The order does not matter, because the new job has an ID of its own.
\<close>

lemma job_IDs_write: "job_ID ` set (write_job u jobs) = job_ID ` set jobs"
  by (induction jobs) (simp_all add: write_job_Cons)

lemma write_job_append: "write_job u (xs @ ys) = write_job u xs @ write_job u ys"
  by (simp add: write_job_def)

lemma list_ex_write:
  "list_ex (\<lambda>j. job_ID j = i \<or> job_RunID j = r \<and> job_Phase j = p) (write_job u jobs) \<longleftrightarrow>
   list_ex (\<lambda>j. job_ID j = i \<or> job_RunID j = r \<and> job_Phase j = p) jobs"
  by (induction jobs) (auto simp: write_job_Cons)

lemma createJob_write:
  assumes "createJob rnd run db = Inr db'" "job_ID u \<in> job_ID ` set (db_jobs db)"
  shows "createJob rnd run (db\<lparr>db_jobs := write_job u (db_jobs db)\<rparr>) =
    Inr (db'\<lparr>db_jobs := write_job u (db_jobs db')\<rparr>)"
proof -
  define job where "job = (newJob rnd run)\<lparr>job_AgentPoolID :=
    (case db_workspaces db (run_WorkspaceID run) of Some ws \<Rightarrow> mode_agentPoolID (ws_Mode ws) | None \<Rightarrow> None)\<rparr>"
  have job: "db' = db\<lparr>db_jobs := db_jobs db @ [job]\<rparr>" "job_ID job \<notin> job_ID ` set (db_jobs db)"
    using assms(1) by (auto simp: createJob_def Let_def job_def list_ex_iff split: if_splits)
  with assms(2) have "write_job u (db_jobs db @ [job]) = write_job u (db_jobs db) @ [job]"
    by (auto simp: write_job_append write_job_Cons)
  with assms(1) job(1) show ?thesis
    by (simp add: createJob_def Let_def list_ex_write job_def split: if_splits)
qed

lemma UpdateStatus_write:
  assumes "UpdateStatus rid fn db = Inr (db', run)"
  shows "UpdateStatus rid fn (db\<lparr>db_jobs := jobs\<rparr>) = Inr (db'\<lparr>db_jobs := jobs\<rparr>, run)"
  using assms by (auto simp: UpdateStatus_def split: option.splits sum.splits)

lemma svc_authorize_jobs: "svc_authorize env a k rid (db\<lparr>db_jobs := jobs\<rparr>) = svc_authorize env a k rid db"
  by (simp add: svc_authorize_def db_tables_def)

lemma ApplyRun_write:
  assumes "ApplyRun env rid db = Inr db'" "job_ID u \<in> job_ID ` set (db_jobs db)"
  shows "ApplyRun env rid (db\<lparr>db_jobs := write_job u (db_jobs db)\<rparr>) =
    Inr (db'\<lparr>db_jobs := write_job u (db_jobs db')\<rparr>)"
proof -
  from assms(1) obtain subj db1 run where e: "svc_authorize env ApplyAction RunKind rid db = Inr subj"
    "UpdateStatus rid (Run_EnqueueApply (env_clk env)) db = Inr (db1, run)"
    "createJob (env_rnd env) run db1 = Inr db'"
    by (auto simp: ApplyRun_def split: sum.splits prod.splits)
  have jobs: "db_jobs db1 = db_jobs db" using e(2) by (auto elim: UpdateStatus_ok)
  show ?thesis
    using UpdateStatus_write [OF e(2)] createJob_write [OF e(3)] assms(2)
    by (simp add: ApplyRun_def svc_authorize_jobs e(1) jobs)
qed

text \<open>A phase of the run of a running job, finished together with the job.\<close>

lemma Finish_job_ok:
  assumes "exec_op (OpFinish (job_Phase j) e) clk old = Inr run"
    and "job_Phase j = PlanPhase \<and> run_Status old = Planning \<or> job_Phase j = ApplyPhase \<and> run_Status old = Applying"
  shows "run_job_ok (run_Status run) [] \<and> run_Status run \<noteq> Pending \<and>
    (run_Status run \<in> {PlanQueued, Planning, Planned, CostEstimated} \<longrightarrow> job_Phase j = PlanPhase)"
  using assms by (auto simp: run_job_ok_def Run_Finish_def Let_def split: if_splits)

lemma FinishPhase_parts:
  assumes "FinishPhase env rid ph e db = Inr db'"
  obtains db0 e' db1 run where
    "db0 = db \<or> createReports env rid ph db = Inr db0"
    "UpdateStatus rid (exec_op (OpFinish ph e') (env_clk env)) db0 = Inr (db1, run)"
    "db' = db1 \<or> (\<exists>env'. ApplyRun env' rid db1 = Inr db')"
proof -
  have fn: "(\<lambda>r. map_sum id fst (Run_Finish clk ph e' r)) = exec_op (OpFinish ph e') clk" for clk e'
    by (auto simp: fun_eq_iff split: sum.splits)
  obtain db0 e' where p: "(if e then (db, True) else case createReports env rid ph db of
      Inl _ \<Rightarrow> (db, True) | Inr db' \<Rightarrow> (db', False)) = (db0, e')"
    by (meson surj_pair)
  then have "db0 = db \<or> createReports env rid ph db = Inr db0"
    by (auto split: if_splits sum.splits)
  moreover obtain db1 run where "UpdateStatus rid (exec_op (OpFinish ph e') (env_clk env)) db0 = Inr (db1, run)"
    "db' = db1 \<or> (\<exists>env'. ApplyRun env' rid db1 = Inr db')"
    using assms unfolding FinishPhase_def fn p
    by (simp split: option.splits sum.splits prod.splits if_splits) blast+
  ultimately show ?thesis by (rule that)
qed

lemma FinishPhase_inv:
  assumes "joint_inv db" "j \<in> set (db_jobs db)" "job_Status j = JobRunning"
    and "FinishPhase env (job_RunID j) (job_Phase j) e db = Inr db'"
    and "u = j\<lparr>job_Status := st\<rparr>" "job_terminal st"
  shows "joint_inv (db'\<lparr>db_jobs := write_job u (db_jobs db')\<rparr>)"
proof -
  obtain db0 e' db1 run where p: "db0 = db \<or> createReports env (job_RunID j) (job_Phase j) db = Inr db0"
    "UpdateStatus (job_RunID j) (exec_op (OpFinish (job_Phase j) e') (env_clk env)) db0 = Inr (db1, run)"
    "db' = db1 \<or> (\<exists>env'. ApplyRun env' (job_RunID j) db1 = Inr db')"
    using FinishPhase_parts [OF assms(4)] .
  have nt: "\<not> job_terminal (job_Status j)" using assms(3) by simp
  obtain r0 where r0: "db_runs db (job_RunID j) = Some r0" using unfinished_job [OF assms(1,2) nt] .
  have inv0: "joint_inv db0" using p(1) report_inv [OF assms(1)] assms(1) by blast
  have jobs0: "db_jobs db0 = db_jobs db"
    using p(1) by (auto dest: createReports_row [OF _ r0])
  obtain old row where w: "db_runs db0 (job_RunID j) = Some old"
    "exec_op (OpFinish (job_Phase j) e') (env_clk env) old = Inr run"
    "run_row_ok row" "run_ID row = job_RunID j" "run_Status row = run_Status run"
    "db_runs db1 = (db_runs db0)(job_RunID j \<mapsto> row)" "db_jobs db1 = db_jobs db0"
    using UpdateStatus_row [OF inv0 p(2) refl] by blast
  have "job_Phase j = PlanPhase \<and> run_Status old = Planning \<or> job_Phase j = ApplyPhase \<and> run_Status old = Applying"
    by (rule running_job [OF inv0 _ assms(3) w(1)]) (use assms(2) jobs0 in simp)
  note ok = Finish_job_ok [OF w(2) this]
  have j0: "j \<in> set (db_jobs db0)" using assms(2) jobs0 by simp
  have wf: "job_wf j" using inv0 j0 by (auto simp: joint_inv_def jobs_db_ok_def)
  have inv1: "joint_inv (db1\<lparr>db_jobs := write_job u (db_jobs db1)\<rparr>)"
    by (rule job_change_inv [OF inv0 j0 nt, where u = u and st = st and rn = "job_RunnerID j" and row = row])
      (use assms(3,5,6) w ok wf in \<open>auto simp: job_wf_def job_terminal_def\<close>)
  have "job_ID u \<in> job_ID ` set (db_jobs db1)" using j0 w(7) assms(5) by auto
  with p(3) inv1 ApplyRun_write ApplyRun_inv [OF inv1] show ?thesis by blast
qed

lemma Authorize_subject:
  "Authorize res pol ctx a k (Some rid) = Some (Some subj, r) \<Longrightarrow> ctx_subject ctx = Some subj"
  by (simp add: Authorize_def split: option.splits sum.splits if_splits)

lemma svc_authorize_Authorize:
  "svc_authorize env a k rid db = Inr subj \<Longrightarrow>
   Authorize (otf_resolvers (db_tables db)) (env_policies env) (env_ctx env) a k (Some (TfeID_ID rid)) =
     Some (Some subj, Inr ())"
  unfolding svc_authorize_def by (simp split: option.splits sum.splits prod.splits)

lemma svc_authorize_subject: "svc_authorize env a k rid db = Inr subj \<Longrightarrow> ctx_subject (env_ctx env) = Some subj"
  by (drule svc_authorize_Authorize) (rule Authorize_subject)

text \<open>
  A job that finishes as canceled cancels its run. The transaction always succeeds, so that the
  error which \<open>CancelRun\<close> drops cannot leave the run behind.
\<close>

lemma CancelRun_tx_total:
  assumes "joint_inv db" "db_runs db rid = Some old"
  shows "\<exists>db'. CancelRun_tx env False False rid db = Inr db'"
proof -
  obtain r' where r': "Cancel (env_clk env) False False old = Inr r'" "run_Status r' = Canceled"
    using Cancel_nonuser by blast
  then obtain db1 where up: "UpdateStatus rid (Cancel (env_clk env) False False) db = Inr (db1, r')"
    using UpdateStatus_total [OF assms, of "OpCancel False False" "env_clk env"] by auto
  have jobs: "db_jobs db1 = db_jobs db" using up by (auto elim: UpdateStatus_ok)
  have id: "run_ID r' = rid"
    using exec_op_same_ID [of "OpCancel False False" "env_clk env" old r'] r'(1) joint_invD(1) [OF assms] by simp
  have "\<exists>db'. cancelJob r' db1 = Inr db'"
  proof (cases "find_first (job_selected rid) (db_jobs db)")
    case (Some j)
    then have "j \<in> set (unfinished (jobs_of rid (db_jobs db)))"
      using find_run_job [OF assms] by (auto split: list.splits)
    then have "\<not> job_terminal (job_Status j)" by (simp add: unfinished_def)
    then have "job_updateStatus j JobCanceled = Inr (j\<lparr>job_Status := JobCanceled\<rparr>)"
      by (cases "job_Status j") (simp_all add: job_updateStatus_def)
    with Some r'(2) show ?thesis by (simp add: cancelJob_def job_cancel_def id jobs)
  qed (simp add: cancelJob_def id jobs)
  with up show ?thesis by (simp add: CancelRun_tx_def)
qed

lemma CancelRun_tx_job:
  assumes "joint_inv db" "CancelRun_tx env False False (job_RunID j) db = Inr db'"
    and "j \<in> set (db_jobs db)" "\<not> job_terminal (job_Status j)"
  shows "db_jobs db' = write_job (j\<lparr>job_Status := JobCanceled\<rparr>) (db_jobs db)"
proof -
  obtain old where old: "db_runs db (job_RunID j) = Some old"
    "unfinished (jobs_of (job_RunID j) (db_jobs db)) = [j]" using unfinished_job [OF assms(1,3,4)] .
  obtain db1 run where up: "UpdateStatus (job_RunID j) (Cancel (env_clk env) False False) db = Inr (db1, run)"
    "cancelJob run db1 = Inr db'"
    using assms(2) by (auto simp: CancelRun_tx_def split: sum.splits prod.splits)
  then have run: "Cancel (env_clk env) False False old = Inr run" "db_jobs db1 = db_jobs db"
    using old(1) by (auto elim: UpdateStatus_ok)
  have id: "run_ID run = job_RunID j"
    using exec_op_same_ID [of "OpCancel False False"] run(1) joint_invD(1) [OF assms(1) old(1)] by simp
  have "run_Status run = Canceled" using Cancel_status [OF run(1)] by simp
  moreover have "job_updateStatus j JobCanceled = Inr (j\<lparr>job_Status := JobCanceled\<rparr>)"
    using assms(4) by (cases "job_Status j") (simp_all add: job_updateStatus_def)
  ultimately show ?thesis
    using up(2) find_run_job [OF assms(1) old(1)] old(2)
    by (auto simp: cancelJob_def job_cancel_def id run(2))
qed

lemma write_job_idem: "write_job u (write_job u jobs) = write_job u jobs"
  by (induction jobs) (simp_all add: write_job_Cons)

lemma FinishJob_inv:
  assumes "joint_inv db" "FinishJob env jid st db = Inr db'" "job_terminal st"
  shows "joint_inv db'"
proof -
  from assms(2) obtain subj j u db1 where f: "ctx_subject (env_ctx env) = Some (JobSubject subj)"
    "find_first (job_selected jid) (db_jobs db) = Some j" "finishJob st j = Inr u"
    "db' = db1\<lparr>db_jobs := write_job u (db_jobs db1)\<rparr>"
    "(case st of JobFinished \<Rightarrow> FinishPhase env (job_RunID j) (job_Phase j) False db
        | JobErrored \<Rightarrow> FinishPhase env (job_RunID j) (job_Phase j) True db
        | JobCanceled \<Rightarrow> CancelRun env (job_RunID j) db | _ \<Rightarrow> Inr db) = Inr db1"
    by (auto simp: FinishJob_def split: option.splits Subject.splits sum.splits)
  have j: "j \<in> set (db_jobs db)" using find_first_SomeD [OF f(2)] by simp
  have u: "u = j\<lparr>job_Status := st\<rparr>" and tr: "job_transition_valid (job_Status j) st"
    using f(3) by (simp_all add: finishJob_def job_updateStatus_ok)
  then have nt: "\<not> job_terminal (job_Status j)" by (cases "job_Status j") auto
  show ?thesis
  proof (cases "st = JobCanceled")
    case False
    with assms(3) have st: "st \<in> {JobFinished, JobErrored}" by (auto simp: job_terminal_def)
    with tr have "job_Status j = JobRunning" by (cases "job_Status j") auto
    from FinishPhase_inv [OF assms(1) j this _ u assms(3)] f(4,5) st show ?thesis by auto
  next
    case True
    then have c: "CancelRun env (job_RunID j) db = Inr db1" using f(5) by simp
    obtain old where old: "db_runs db (job_RunID j) = Some old" using unfinished_job [OF assms(1) j nt] .
    obtain db2 where tx: "CancelRun_tx env False False (job_RunID j) db = Inr db2"
      using CancelRun_tx_total [OF assms(1) old] by blast
    with c f(1) have db1: "CancelRun_tx env False False (job_RunID j) db = Inr db1"
      by (auto simp: CancelRun_def is_user_def split: sum.splits if_splits dest!: svc_authorize_subject)
    have "joint_inv db1" using CancelRun_tx_inv [OF assms(1) db1] by blast
    moreover have "db_jobs db1 = write_job u (db_jobs db)"
      using CancelRun_tx_job [OF assms(1) db1 j nt] u True by simp
    ultimately show ?thesis
      by (rule_tac joint_inv_cong [of db1]) (simp_all add: f(4) write_job_idem)
  qed
qed

end
