(* ===== verification/RunSystem.thy ===== *)
theory RunSystem
  imports RunJobsSafety
begin

text \<open>
  The services as one system: the operations that reach the database of runs and jobs, the databases
  they can produce, and what holds in all of them. Runs and jobs stay in step, the timestamp tables
  keep their keys, a running job can always be finished, and cancelation leaves no job behind.
\<close>

section \<open>The system\<close>

text \<open>
  An operation as data. \<open>SvcWorkspaces\<close> stands for the workspace service, which may replace the
  workspaces in any way that this component does not control.
\<close>

datatype svc_op =
    SvcCreate Workspace ConfigurationVersion RunCreateOptions
  | SvcEnqueuePlan TfeID | SvcApply TfeID | SvcDiscard TfeID | SvcDelete TfeID
  | SvcCancel TfeID | SvcForceCancel TfeID
  | SvcAllocate TfeID TfeID | SvcReallocate TfeID TfeID
  | SvcStart TfeID | SvcFinish TfeID JobStatus
  | SvcLock TfeID "TfeID option" | SvcUnlock TfeID "TfeID option" bool
  | SvcWorkspaces "TfeID \<rightharpoonup> Workspace"

fun exec_svc :: "svc_op \<Rightarrow> svc_env \<Rightarrow> otf_db \<Rightarrow> otf_db result" where
  "exec_svc (SvcCreate ws cv opts) env db =
     Service_CreateRun env (NewRun (env_rnd env) (env_clk env) ws cv opts) db"
| "exec_svc (SvcEnqueuePlan rid) env db = Service_EnqueuePlan env rid db"
| "exec_svc (SvcApply rid) env db = ApplyRun env rid db"
| "exec_svc (SvcDiscard rid) env db = DiscardRun env rid db"
| "exec_svc (SvcDelete rid) env db = Service_DeleteRun env rid db"
| "exec_svc (SvcCancel rid) env db = CancelRun env rid db"
| "exec_svc (SvcForceCancel rid) env db = ForceCancelRun env rid db"
| "exec_svc (SvcAllocate jid rn) env db =
     map_sum id (\<lambda>(jobs, _). db\<lparr>db_jobs := jobs\<rparr>) (allocateJob jid rn (db_jobs db))"
| "exec_svc (SvcReallocate jid rn) env db =
     map_sum id (\<lambda>(jobs, _). db\<lparr>db_jobs := jobs\<rparr>) (reallocateJob jid rn (db_jobs db))"
| "exec_svc (SvcStart jid) env db = map_sum id fst (StartJob env jid db)"
| "exec_svc (SvcFinish jid st) env db = FinishJob env jid st db"
| "exec_svc (SvcLock w r) env db = Service_Lock env w r db"
| "exec_svc (SvcUnlock w r f) env db = Service_Unlock env w r f db"
| "exec_svc (SvcWorkspaces w) env db = Inr (db\<lparr>db_workspaces := w\<rparr>)"

text \<open>
  The runner reports one of the three final statuses when it finishes a job, and the allocator names
  jobs by their own ID.
\<close>

definition svc_op_ok :: "svc_op \<Rightarrow> bool" where
  "svc_op_ok op =
     (case op of
        SvcFinish _ st \<Rightarrow> job_terminal st
      | SvcAllocate jid _ \<Rightarrow> tfe_kind jid = JobKind
      | SvcReallocate jid _ \<Rightarrow> tfe_kind jid = JobKind
      | _ \<Rightarrow> True)"

inductive reachable_db :: "otf_db \<Rightarrow> bool" where
  init: "reachable_db \<lparr>db_runs = Map.empty, db_jobs = [], db_workspaces = w, db_signals = []\<rparr>"
| step: "reachable_db db \<Longrightarrow> svc_op_ok op \<Longrightarrow> exec_svc op env db = Inr db' \<Longrightarrow> reachable_db db'"

section \<open>The invariant holds\<close>

lemma NewRun_row_ok: "run_row_ok (NewRun rnd clk ws cv opts)"
  by (simp add: run_row_ok_def run_wf_def ranked_def)
    (simp add: NewRun_def Let_def run_updateStatus_def newPhase_def Phase_UpdateStatus_def)

lemma NewRun_ID: "run_ID (NewRun rnd clk ws cv opts) = NewTfeID rnd RunKind"
  by (simp add: NewRun_def Let_def run_updateStatus_def)

lemma svc_inv:
  assumes "joint_inv db" "svc_op_ok op" "exec_svc op env db = Inr db'"
  shows "joint_inv db'"
proof (cases op)
  case (SvcCreate ws cv opts)
  then have "db_CreateRun (NewRun (env_rnd env) (env_clk env) ws cv opts) db = Inr db'"
    using assms(3) by (auto simp: Service_CreateRun_def split: sum.splits)
  from CreateRun_inv [OF assms(1) this] show ?thesis by (simp add: NewRun_row_ok NewRun_ID NewTfeID_def)
next
  case (SvcDelete rid)
  then have "db_DeleteRun rid db = Inr db'"
    using assms(3) by (auto simp: Service_DeleteRun_def split: sum.splits)
  then show ?thesis by (rule DeleteRun_inv [OF assms(1)])
next
  case (SvcAllocate jid rn)
  then obtain jobs u where a: "allocateJob jid rn (db_jobs db) = Inr (jobs, u)" "db' = db\<lparr>db_jobs := jobs\<rparr>"
    using assms(3) by (auto simp: map_sum_def split: sum.splits)
  have "tfe_kind jid = JobKind" "jobs_db_ok (db_jobs db)"
    using SvcAllocate assms(1,2) by (simp_all add: svc_op_ok_def joint_inv_def)
  from allocateJob_ok [OF this(2,1) a(1)] allocate_job_inv [OF assms(1)] a(2) show ?thesis
    by (metis insertCI)
next
  case (SvcReallocate jid rn)
  then obtain jobs u where a: "reallocateJob jid rn (db_jobs db) = Inr (jobs, u)" "db' = db\<lparr>db_jobs := jobs\<rparr>"
    using assms(3) by (auto simp: map_sum_def split: sum.splits)
  have "tfe_kind jid = JobKind" "jobs_db_ok (db_jobs db)"
    using SvcReallocate assms(1,2) by (simp_all add: svc_op_ok_def joint_inv_def)
  from reallocateJob_ok [OF this(2,1) a(1)] allocate_job_inv [OF assms(1)] a(2) show ?thesis
    by (metis insertCI)
next
  case (SvcStart jid)
  with assms(3) show ?thesis by (auto simp: map_sum_def split: sum.splits intro: StartJob_inv [OF assms(1)])
next
  case (SvcFinish jid st)
  with assms(2,3) show ?thesis by (auto simp: svc_op_ok_def intro: FinishJob_inv [OF assms(1)])
next
  case (SvcLock w r)
  with assms(3) show ?thesis by (auto dest!: Service_Lock_frame intro: joint_inv_cong [OF assms(1)])
next
  case (SvcUnlock w r f)
  with assms(3) show ?thesis by (auto dest!: Service_Unlock_frame intro: joint_inv_cong [OF assms(1)])
next
  case (SvcWorkspaces w)
  with assms(3) show ?thesis by (auto intro: joint_inv_cong [OF assms(1)])
qed (use assms(3) in \<open>auto intro: EnqueuePlan_inv [OF assms(1)] ApplyRun_inv [OF assms(1)]
  DiscardRun_inv [OF assms(1)] CancelRun_inv [OF assms(1)] ForceCancelRun_inv [OF assms(1)]\<close>)

lemma reachable_joint: "reachable_db db \<Longrightarrow> joint_inv db"
proof (induction rule: reachable_db.induct)
  case (init w)
  then show ?case by (simp add: joint_inv_def jobs_db_ok_def)
qed (rule svc_inv)

section \<open>Scenarios\<close>

fun exec_all :: "(svc_op \<times> svc_env) list \<Rightarrow> otf_db \<Rightarrow> otf_db result" where
  "exec_all [] db = Inr db"
| "exec_all ((op, env) # ops) db =
     (case exec_svc op env db of Inl e \<Rightarrow> Inl e | Inr db' \<Rightarrow> exec_all ops db')"

lemma exec_all_reachable:
  "reachable_db db \<Longrightarrow> list_all (\<lambda>(op, _). svc_op_ok op) ops \<Longrightarrow> exec_all ops db = Inr db' \<Longrightarrow> reachable_db db'"
  by (induction ops arbitrary: db) (auto split: sum.splits, metis reachable_db.step)

definition demo_svc_env :: "Subject \<Rightarrow> svc_env" where
  "demo_svc_env subj =
     \<lparr>env_ctx = \<lparr>ctx_subject = Some subj, ctx_skipAuthz = True\<rparr>, env_policies = demo_policy,
      env_rnd = (\<lambda>_. 0), env_clk = (\<lambda>n. int n), env_reports = (\<lambda>_ _. Inl (Errorf ''no plan'')),
      env_token = (\<lambda>_. Inr ''token'')\<rparr>"

definition demo_runner :: RunnerMeta where
  "demo_runner = \<lparr>rn_ID = \<lparr>tfe_kind = RunnerKind, tfe_id = ''1''\<rparr>, rn_Name = [], rn_Version = [],
     rn_Status = Some RunnerIdle, rn_MaxJobs = 1, rn_CurrentJobs = 0, rn_LastPingAt = 0, rn_LastStatusAt = 0,
     rn_IPAddress = [], rn_ExecutorKind = ForkExecutorKind, rn_AgentPool = None\<rparr>"

definition demo_db0 :: otf_db where
  "demo_db0 = \<lparr>db_runs = Map.empty, db_jobs = [],
     db_workspaces = [ws_ID example_workspace \<mapsto> example_workspace], db_signals = []\<rparr>"

definition demo_run_id :: TfeID where "demo_run_id = NewTfeID (\<lambda>_. 0) RunKind"
definition demo_job_id :: TfeID where "demo_job_id = NewTfeID (\<lambda>_. 0) JobKind"

text \<open>A run is created and its plan enqueued, and its job is allocated and started.\<close>

definition demo_start :: "(svc_op \<times> svc_env) list" where
  "demo_start =
     (let root = demo_svc_env (Superuser ''root'') in
      [(SvcCreate example_workspace example_cv no_options, root), (SvcEnqueuePlan demo_run_id, root),
       (SvcAllocate demo_job_id (rn_ID demo_runner), root),
       (SvcStart demo_job_id, demo_svc_env (RunnerSubject demo_runner))])"

lemma demo_ok: "is_ok (exec_all demo_start demo_db0)"
  by code_simp

definition demo_db :: otf_db where
  "demo_db = projr (exec_all demo_start demo_db0)"

lemma demo_exec: "exec_all demo_start demo_db0 = Inr demo_db"
  using demo_ok by (cases "exec_all demo_start demo_db0") (simp_all add: demo_db_def)

lemma demo_reachable: "reachable_db demo_db"
proof (rule exec_all_reachable [OF _ _ demo_exec])
  show "reachable_db demo_db0" unfolding demo_db0_def by (rule reachable_db.init)
  show "list_all (\<lambda>(op, _). svc_op_ok op) demo_start" by code_simp
qed

text \<open>The same database before the job has been started.\<close>

definition demo_allocated :: otf_db where
  "demo_allocated = projr (exec_all (butlast demo_start) demo_db0)"

lemma demo_allocated_reachable: "reachable_db demo_allocated"
proof -
  have "is_ok (exec_all (butlast demo_start) demo_db0)" by code_simp
  then have ex: "exec_all (butlast demo_start) demo_db0 = Inr demo_allocated"
    by (cases "exec_all (butlast demo_start) demo_db0") (auto simp: demo_allocated_def)
  show ?thesis
  proof (rule exec_all_reachable [OF _ _ ex])
    show "reachable_db demo_db0" unfolding demo_db0_def by (rule reachable_db.init)
  qed code_simp
qed

definition demo_running_job :: Job where
  "demo_running_job = hd (db_jobs demo_db)"

definition demo_planning_run :: Run where
  "demo_planning_run = the (db_runs demo_db demo_run_id)"

lemma demo_state:
  "db_runs demo_db demo_run_id = Some demo_planning_run" "run_Status demo_planning_run = Planning"
  "db_jobs demo_db = [demo_running_job]" "job_Status demo_running_job = JobRunning"
  "job_ID demo_running_job = demo_job_id" "job_RunID demo_running_job = demo_run_id"
  "job_Phase demo_running_job = PlanPhase"
proof -
  have "map_option run_Status (db_runs demo_db demo_run_id) = Some Planning \<and>
    map (\<lambda>j. (job_Status j, job_ID j, job_RunID j, job_Phase j)) (db_jobs demo_db) =
      [(JobRunning, demo_job_id, demo_run_id, PlanPhase)]"
    by code_simp
  then show "db_runs demo_db demo_run_id = Some demo_planning_run" "run_Status demo_planning_run = Planning"
    "db_jobs demo_db = [demo_running_job]" "job_Status demo_running_job = JobRunning"
    "job_ID demo_running_job = demo_job_id" "job_RunID demo_running_job = demo_run_id"
    "job_Phase demo_running_job = PlanPhase"
    by (auto simp: demo_planning_run_def demo_running_job_def)
qed

section \<open>Properties\<close>



text \<open>
  The converse: an unfinished job belongs to a run that exists and is waiting for it, so that no
  job outlives the phase it was created for.
\<close>

theorem unfinished_jobs_awaited:
  assumes "reachable_db db" "j \<in> set (db_jobs db)" "\<not> job_terminal (job_Status j)"
  shows "\<exists>r. db_runs db (job_RunID j) = Some r \<and> job_Phase j = Run_Phase r \<and>
    unfinished (jobs_of (job_RunID j) (db_jobs db)) = [j] \<and>
    run_Status r \<in> (if job_Status j = JobRunning then {Planning, Applying} else {PlanQueued, ApplyQueued})"
  by (rule unfinished_job [OF reachable_joint [OF assms(1)] assms(2,3)]) (auto simp: Run_Phase_def)

lemma unfinished_jobs_awaited_witness:
  "\<exists>r. db_runs demo_db demo_run_id = Some r \<and> run_Status r \<in> {Planning, Applying}"
  using unfinished_jobs_awaited [OF demo_reachable, of demo_running_job] by (auto simp: demo_state)

text \<open>
  Persisting a run never violates the keys of the timestamp tables: in every reachable database,
  whatever operation on a stored run succeeds in memory is written to the database, and the recorded
  statuses of the run stay distinct, the last one being its status.
\<close>

theorem UpdateStatus_persists:
  assumes "reachable_db db" "db_runs db rid = Some r" "exec_op opn clk r = Inr r'"
  shows "\<exists>db' row. UpdateStatus rid (exec_op opn clk) db = Inr (db', r') \<and> db_runs db' rid = Some row \<and>
    run_Status row = run_Status r' \<and> distinct (map st_Status (run_StatusTimestamps row)) \<and>
    st_Status (last (run_StatusTimestamps row)) = run_Status row"
proof -
  note inv = reachable_joint [OF assms(1)]
  obtain db' where up: "UpdateStatus rid (exec_op opn clk) db = Inr (db', r')"
    using UpdateStatus_total [OF inv assms(2,3) refl] by blast
  obtain row where row: "run_row_ok row" "run_Status row = run_Status r'" "db_runs db' = (db_runs db)(rid \<mapsto> row)"
    using UpdateStatus_row [OF inv up refl] by blast
  then show ?thesis
    using up by (auto simp: run_row_ok_def run_wf_def dest: ranked_distinct)
qed

lemma UpdateStatus_persists_witness:
  "\<exists>db' r'. UpdateStatus demo_run_id (exec_op (OpCancel False False) (\<lambda>_. 9)) demo_db = Inr (db', r')"
proof -
  obtain r' where "Cancel (\<lambda>_. 9) False False demo_planning_run = Inr r'" using Cancel_nonuser by blast
  then show ?thesis
    using UpdateStatus_persists [OF demo_reachable demo_state(1), of "OpCancel False False" "\<lambda>_. 9" r'] by auto
qed

lemma find_by_id:
  assumes "jobs_db_ok jobs" "j \<in> set jobs"
  shows "find_first (job_selected (job_ID j)) jobs = Some j"
proof -
  have "tfe_kind (job_ID j) \<noteq> tfe_kind (job_RunID x)" if "x \<in> set jobs" for x
    using that assms by (simp add: jobs_db_ok_def kind_defs)
  then have "job_RunID x \<noteq> job_ID j" if "x \<in> set jobs" for x using that by metis
  then have "x = j" if "x \<in> set jobs" "job_selected (job_ID j) x" for x
    using that assms by (auto simp: jobs_db_ok_def job_selected_def distinct_map inj_on_def)
  moreover have "job_selected (job_ID j) j" by (simp add: job_selected_def)
  ultimately show ?thesis
    using find_first_ex [OF assms(2), of "job_selected (job_ID j)"] find_first_SomeD by metis
qed



definition cancel_effect :: "bool \<Rightarrow> TfeID \<Rightarrow> otf_db \<Rightarrow> otf_db \<Rightarrow> bool" where
  "cancel_effect force rid db db' \<longleftrightarrow>
     (\<exists>r. db_runs db' rid = Some r \<and> run_Status r = (if force then ForceCanceled else Canceled) \<and>
        unfinished (jobs_of rid (db_jobs db')) = []) \<or>
     \<not> force \<and> (\<exists>r j. db_runs db' rid = Some r \<and> run_Status r \<in> {Planning, Applying} \<and>
        unfinished (jobs_of rid (db_jobs db')) = [j] \<and> db_signals db' = db_signals db @ [(job_ID j, False)])"



text \<open>
  A second request by a user to cancel a run in progress is refused by the run, yet the service
  reports success and changes nothing: the error of the transaction is logged and dropped.
\<close>

theorem CancelRun_drops_error:
  assumes "db_runs db rid = Some r" "run_Status r \<in> {Planning, Applying}" "run_CancelSignaledAt r \<noteq> None"
    and "svc_authorize env CancelAction RunKind rid db = Inr (UserSubject u)"
  shows "Cancel (env_clk env) True False r = Inl ErrRunCancelNotAllowed \<and> CancelRun env rid db = Inr db"
  using assms
  by (auto simp: CancelRun_def CancelRun_tx_def UpdateStatus_def is_user_def Cancel_def Cancel_phases_def)

definition demo_user :: User where
  "demo_user = \<lparr>user_ID = \<lparr>tfe_kind = UserKind, tfe_id = ''1''\<rparr>, user_CreatedAt = 0, user_UpdatedAt = 0,
     user_SiteAdmin = False, user_Username = ''bob'', user_Teams = [], user_AvatarURL = None\<rparr>"

definition signaled_run :: Run where
  "signaled_run = demo_planning_run\<lparr>run_CancelSignaledAt := Some 7\<rparr>"

lemma CancelRun_drops_error_witness:
  "\<exists>db. CancelRun (demo_svc_env (UserSubject demo_user)) demo_run_id db = Inr db \<and>
     db_runs db demo_run_id = Some signaled_run"
proof -
  let ?db = "demo_db\<lparr>db_runs := [demo_run_id \<mapsto> signaled_run]\<rparr>"
  have "svc_authorize (demo_svc_env (UserSubject demo_user)) CancelAction RunKind demo_run_id ?db =
      Inr (UserSubject demo_user)"
    by (simp add: svc_authorize_def Authorize_def demo_svc_env_def)
  from CancelRun_drops_error [OF _ _ _ this, of signaled_run] show ?thesis
    by (intro exI [of _ ?db]) (auto simp: signaled_run_def demo_state)
qed

text \<open>
  Only the runner that a job has been allocated to can start it, and starting it moves the run
  from its queued phase into that phase.
\<close>

theorem StartJob_own_runner:
  assumes "reachable_db db" "StartJob env jid db = Inr (db', token)"
  shows "\<exists>runner j r r'. ctx_subject (env_ctx env) = Some (RunnerSubject runner) \<and> j \<in> set (db_jobs db) \<and>
    job_RunnerID j = Some (rn_ID runner) \<and> job_Status j = JobAllocated \<and>
    db_runs db (job_RunID j) = Some r \<and> db_runs db' (job_RunID j) = Some r' \<and>
    (run_Status r, run_Status r') \<in> {(PlanQueued, Planning), (ApplyQueued, Applying)}"
proof -
  note inv = reachable_joint [OF assms(1)]
  from assms(2) obtain runner j u db1 where s: "ctx_subject (env_ctx env) = Some (RunnerSubject runner)"
    "find_first (job_selected jid) (db_jobs db) = Some j" "job_RunnerID j = Some (rn_ID runner)"
    "startJob j = Inr u" "StartPhase env (job_RunID j) db = Inr db1"
    "db' = db1\<lparr>db_jobs := write_job u (db_jobs db1)\<rparr>"
    by (auto simp: StartJob_def split: option.splits Subject.splits sum.splits if_splits)
  have j: "j \<in> set (db_jobs db)" "job_Status j = JobAllocated"
    using find_first_SomeD [OF s(2)] s(4) by (cases "job_Status j"; auto simp: job_defs)+
  from s(5) obtain run where e: "UpdateStatus (job_RunID j) (Run_Start (env_clk env)) db = Inr (db1, run)"
    by (auto simp: StartPhase_def split: sum.splits prod.splits)
  obtain old row where w: "db_runs db (job_RunID j) = Some old" "exec_op OpStart (env_clk env) old = Inr run"
    "run_Status row = run_Status run" "db_runs db1 = (db_runs db)(job_RunID j \<mapsto> row)"
    using UpdateStatus_row [OF inv e, of OpStart "env_clk env"] by (simp, blast)
  with s j show ?thesis by (auto simp: Start_ok intro!: exI [of _ runner] exI [of _ j])
qed

lemma StartJob_own_runner_witness:
  "\<exists>j r. j \<in> set (db_jobs demo_allocated) \<and> job_RunnerID j = Some (rn_ID demo_runner) \<and>
     db_runs demo_allocated (job_RunID j) = Some r \<and> run_Status r \<in> {PlanQueued, ApplyQueued}"
proof -
  let ?env = "demo_svc_env (RunnerSubject demo_runner)"
  have "is_ok (StartJob ?env demo_job_id demo_allocated)" by code_simp
  then obtain db' token where "StartJob ?env demo_job_id demo_allocated = Inr (db', token)"
    by (cases "StartJob ?env demo_job_id demo_allocated") auto
  from StartJob_own_runner [OF demo_allocated_reachable this] show ?thesis
    by (auto simp: demo_svc_env_def)
qed

text \<open>
  \<open>FinishJob\<close> accepts a status that is not final. With the token of any job, an allocated job can be
  marked running without its phase being started: the run stays queued, and the services have left
  the databases they otherwise produce.
\<close>

theorem FinishJob_accepts_running:
  assumes "reachable_db db" "j \<in> set (db_jobs db)" "job_Status j = JobAllocated"
    and "ctx_subject (env_ctx env) = Some (JobSubject other)"
  shows "\<exists>db'. FinishJob env (job_ID j) JobRunning db = Inr db' \<and> db_runs db' = db_runs db \<and>
    j\<lparr>job_Status := JobRunning\<rparr> \<in> set (db_jobs db') \<and> \<not> reachable_db db'"
proof -
  note inv = reachable_joint [OF assms(1)]
  have ok: "jobs_db_ok (db_jobs db)" using inv by (simp add: joint_inv_def)
  have nt: "\<not> job_terminal (job_Status j)" using assms(3) by simp
  obtain r where r: "db_runs db (job_RunID j) = Some r"
    "run_Status r \<notin> {Planning, Applying}"
    by (rule unfinished_job [OF inv assms(2) nt]) (use assms(3) in auto)
  define u where "u = j\<lparr>job_Status := JobRunning\<rparr>"
  define db' where "db' = db\<lparr>db_jobs := write_job u (db_jobs db)\<rparr>"
  have fin: "FinishJob env (job_ID j) JobRunning db = Inr db'"
    using assms(3,4) find_by_id [OF ok assms(2)]
    by (simp add: FinishJob_def finishJob_def job_updateStatus_def db'_def u_def)
  have u: "u \<in> set (db_jobs db')" using assms(2) by (force simp: db'_def write_job_def u_def)
  have "\<not> reachable_db db'"
  proof
    assume "reachable_db db'"
    from running_job [OF reachable_joint [OF this] u] r show False by (simp add: db'_def u_def)
  qed
  with fin u show ?thesis by (auto simp: db'_def u_def)
qed

lemma FinishJob_accepts_running_witness:
  "\<exists>db db'. reachable_db db \<and>
     FinishJob (demo_svc_env (JobSubject demo_running_job)) demo_job_id JobRunning db = Inr db' \<and> \<not> reachable_db db'"
proof -
  let ?j = "hd (db_jobs demo_allocated)"
  have j: "job_Status ?j = JobAllocated \<and> job_ID ?j = demo_job_id \<and> db_jobs demo_allocated \<noteq> []" by code_simp
  from FinishJob_accepts_running [OF demo_allocated_reachable, of ?j "demo_svc_env (JobSubject demo_running_job)"] j
  show ?thesis by (auto simp: demo_svc_env_def intro: demo_allocated_reachable)
qed

end
