(* ===== verification/Scheduler.thy ===== *)
theory Scheduler
  imports RunSystem
begin

text \<open>
  The scheduler (\<open>internal/run/scheduler.go\<close>): one queue of runs per workspace with a current run and
  a backlog. The two clients that it calls, the run service and the workspace service, are arguments
  of the definitions, as they are interfaces in the source. The queue refines a plain list of runs,
  and the locale states what the scheduler needs of its clients.
\<close>

section \<open>Queues\<close>

record queue =
  q_current :: "TfeID option"
  q_backlog :: "TfeID list"

record schedulerRun =
  sr_id :: TfeID
  sr_status :: Status
  sr_planOnly :: bool

type_synonym queues = "TfeID \<rightharpoonup> queue"

text \<open>Looking up a missing key of a map yields the zero value.\<close>

definition empty_queue :: queue where
  "empty_queue = \<lparr>q_current = None, q_backlog = []\<rparr>"

definition get_queue :: "queues \<Rightarrow> TfeID \<Rightarrow> queue" where
  "get_queue qs w = (case qs w of Some q \<Rightarrow> q | None \<Rightarrow> empty_queue)"

text \<open>The end of \<open>process\<close>: without a current run, the head of the backlog is promoted.\<close>

definition promote :: "queue \<Rightarrow> bool \<Rightarrow> queue \<times> bool \<times> bool" where
  "promote q unlock =
     (case (q_current q, q_backlog q) of
        (None, r # rest) \<Rightarrow> (\<lparr>q_current = Some r, q_backlog = rest\<rparr>, True, False)
      | _ \<Rightarrow> (q, False, unlock))"

definition process :: "queue \<Rightarrow> schedulerRun option \<Rightarrow> queue \<times> bool \<times> bool" where
  "process q run =
     (case run of
        None \<Rightarrow> promote q False
      | Some r \<Rightarrow>
          if q_current q = Some (sr_id r)
          then if runstatus_Done (sr_status r) then promote (q\<lparr>q_current := None\<rparr>) True
               else promote q False
          else if q_current q = None \<and> sr_status r \<noteq> Pending \<and> \<not> runstatus_Done (sr_status r)
          then (q\<lparr>q_current := Some (sr_id r)\<rparr>, False, False)
          else if sr_id r \<in> set (q_backlog q)
          then if runstatus_Done (sr_status r)
               then (q\<lparr>q_backlog := remove1 (sr_id r) (q_backlog q)\<rparr>, False, False)
               else promote q False
          else promote (q\<lparr>q_backlog := q_backlog q @ [sr_id r]\<rparr>) False)"

text \<open>
  \<open>schedule\<close> calls the clients \<open>EnqueuePlan\<close> and \<open>Unlock\<close>. A workspace that a user has locked puts the
  run back to the front of the backlog; a workspace that is gone has nothing to unlock, and the
  queue is not stored. Any other error ends the scheduler, which is then started again.
\<close>

definition schedule_queue ::
  "(TfeID \<Rightarrow> 'db \<Rightarrow> 'db result) \<Rightarrow> (TfeID \<Rightarrow> TfeID \<Rightarrow> 'db \<Rightarrow> 'db result) \<Rightarrow> TfeID \<Rightarrow> schedulerRun option \<Rightarrow>
   queues \<times> 'db \<Rightarrow> (queues \<times> 'db) result" where
  "schedule_queue enqueuePlan unlockWs workspaceID runEvent s =
     (let (q, enqueue, unlock) = process (get_queue (fst s) workspaceID) runEvent in
      if enqueue
      then case q_current q of
             None \<Rightarrow> Inl (Panic ''nil pointer dereference'')
           | Some cur \<Rightarrow>
               (case enqueuePlan cur (snd s) of
                  Inr db' \<Rightarrow> Inr ((fst s)(workspaceID \<mapsto> q), db')
                | Inl e \<Rightarrow>
                    if errors_is e ErrWorkspaceAlreadyLocked
                    then Inr ((fst s)(workspaceID \<mapsto> \<lparr>q_current = None, q_backlog = cur # q_backlog q\<rparr>), snd s)
                    else Inl e)
      else if unlock
      then case runEvent of
             None \<Rightarrow> Inl (Panic ''nil pointer dereference'')
           | Some r \<Rightarrow>
               (case unlockWs workspaceID (sr_id r) (snd s) of
                  Inr db' \<Rightarrow> Inr ((fst s)(workspaceID \<mapsto> q), db')
                | Inl e \<Rightarrow> if errors_is e ErrResourceNotFound then Inr s else Inl e)
      else Inr ((fst s)(workspaceID \<mapsto> q), snd s))"

definition schedule ::
  "(TfeID \<Rightarrow> 'db \<Rightarrow> 'db result) \<Rightarrow> (TfeID \<Rightarrow> TfeID \<Rightarrow> 'db \<Rightarrow> 'db result) \<Rightarrow> TfeID \<Rightarrow> schedulerRun option \<Rightarrow>
   queues \<times> 'db \<Rightarrow> (queues \<times> 'db) result" where
  "schedule enqueuePlan unlockWs workspaceID runEvent s =
     (case runEvent of
        Some r \<Rightarrow>
          if sr_planOnly r
          then if sr_status r = Pending
               then map_sum id (\<lambda>db'. (fst s, db')) (enqueuePlan (sr_id r) (snd s))
               else Inr s
          else schedule_queue enqueuePlan unlockWs workspaceID runEvent s
      | None \<Rightarrow> schedule_queue enqueuePlan unlockWs workspaceID None s)"

text \<open>
  \<open>Start\<close> populates the queues from the incomplete runs, which \<open>ListRuns\<close> returns newest first, and
  then handles events.
\<close>

definition summary :: "Run \<Rightarrow> schedulerRun" where
  "summary r = \<lparr>sr_id = run_ID r, sr_status = run_Status r, sr_planOnly = run_PlanOnly r\<rparr>"

fun schedule_all ::
  "(TfeID \<Rightarrow> 'db \<Rightarrow> 'db result) \<Rightarrow> (TfeID \<Rightarrow> TfeID \<Rightarrow> 'db \<Rightarrow> 'db result) \<Rightarrow> Run list \<Rightarrow>
   queues \<times> 'db \<Rightarrow> (queues \<times> 'db) result" where
  "schedule_all enqueuePlan unlockWs [] s = Inr s"
| "schedule_all enqueuePlan unlockWs (r # rs) s =
     (case schedule enqueuePlan unlockWs (run_WorkspaceID r) (Some (summary r)) s of
        Inl e \<Rightarrow> Inl e | Inr s' \<Rightarrow> schedule_all enqueuePlan unlockWs rs s')"

definition populate ::
  "(TfeID \<Rightarrow> 'db \<Rightarrow> 'db result) \<Rightarrow> (TfeID \<Rightarrow> TfeID \<Rightarrow> 'db \<Rightarrow> 'db result) \<Rightarrow> Run list \<Rightarrow> 'db \<Rightarrow>
   (queues \<times> 'db) result" where
  "populate enqueuePlan unlockWs listed db = schedule_all enqueuePlan unlockWs (rev listed) (Map.empty, db)"

datatype sched_event =
    RunEvent TfeID schedulerRun | RunDeleted
  | WorkspaceEvent TfeID bool | WorkspaceDeleted TfeID

fun handle_event ::
  "(TfeID \<Rightarrow> 'db \<Rightarrow> 'db result) \<Rightarrow> (TfeID \<Rightarrow> TfeID \<Rightarrow> 'db \<Rightarrow> 'db result) \<Rightarrow> sched_event \<Rightarrow>
   queues \<times> 'db \<Rightarrow> (queues \<times> 'db) result" where
  "handle_event enqueuePlan unlockWs (RunEvent w r) s = schedule enqueuePlan unlockWs w (Some r) s"
| "handle_event enqueuePlan unlockWs RunDeleted s = Inr s"
| "handle_event enqueuePlan unlockWs (WorkspaceEvent w locked) s =
     (if locked then Inr s else schedule enqueuePlan unlockWs w None s)"
| "handle_event enqueuePlan unlockWs (WorkspaceDeleted w) s = Inr ((fst s)(w := None), snd s)"

section \<open>The queue as a list\<close>

text \<open>
  The abstract queue is the list of the runs that wait for or hold the workspace, oldest first. The
  concrete queue also says whether the head holds the workspace.
\<close>

definition queue_abs :: "queue \<Rightarrow> TfeID list" where
  "queue_abs q = (case q_current q of None \<Rightarrow> [] | Some c \<Rightarrow> [c]) @ q_backlog q"

definition list_process :: "TfeID list \<Rightarrow> schedulerRun option \<Rightarrow> TfeID list" where
  "list_process rs run =
     (case run of
        None \<Rightarrow> rs
      | Some r \<Rightarrow>
          if sr_id r \<in> set rs
          then if runstatus_Done (sr_status r) then remove1 (sr_id r) rs else rs
          else rs @ [sr_id r])"

lemma promote_abs [simp]: "queue_abs (fst (promote q u)) = queue_abs q"
  by (auto simp: promote_def queue_abs_def split: option.splits list.splits)

lemma queue_abs_simps [simp]:
  "queue_abs \<lparr>q_current = c, q_backlog = b\<rparr> = (case c of None \<Rightarrow> b | Some x \<Rightarrow> x # b)"
  "queue_abs (q\<lparr>q_current := None\<rparr>) = q_backlog q"
  "queue_abs (q\<lparr>q_current := Some x\<rparr>) = x # q_backlog q"
  "queue_abs empty_queue = []"
  by (auto simp: queue_abs_def empty_queue_def split: option.splits)

text \<open>
  The one case that is not a queue: a run found in progress while no run is current goes to the
  front. It happens when the queues are populated.
\<close>

definition takeover :: "queue \<Rightarrow> schedulerRun option \<Rightarrow> bool" where
  "takeover q run =
     (case run of None \<Rightarrow> False
      | Some r \<Rightarrow> q_current q = None \<and> sr_status r \<noteq> Pending \<and> \<not> runstatus_Done (sr_status r))"

lemma process_abs:
  "queue_abs (fst (process q run)) =
     (if takeover q run then sr_id (the run) # q_backlog q else list_process (queue_abs q) run)"
proof (cases run)
  case (Some r)
  show ?thesis
  proof (cases "q_current q")
    case None
    with Some show ?thesis
      by (auto simp: process_def takeover_def list_process_def) (auto simp: queue_abs_def)
  next
    case (Some c)
    with \<open>run = Some r\<close> show ?thesis
      by (auto simp: process_def takeover_def list_process_def) (auto simp: queue_abs_def)
  qed
qed (simp add: process_def takeover_def list_process_def)

text \<open>
  When a plan is to be enqueued, it is that of the new head, and no run was current before; when the
  workspace is to be unlocked, the queue is empty.
\<close>

lemma promote_flags:
  "promote q u = (q', e, ul) \<Longrightarrow>
     (e \<longleftrightarrow> q_current q = None \<and> q_backlog q \<noteq> []) \<and> (ul \<longleftrightarrow> u \<and> \<not> e) \<and>
     (e \<longrightarrow> q_current q' = Some (hd (q_backlog q)) \<and> q_backlog q' = tl (q_backlog q)) \<and>
     (\<not> e \<longrightarrow> q' = q)"
  by (auto simp: promote_def split: option.splits list.splits)

lemma process_enqueue:
  assumes "process q run = (q', True, ul)"
  shows "\<not> ul \<and> (\<exists>c. q_current q' = Some c \<and>
    (c \<in> set (q_backlog q) \<or> run \<noteq> None \<and> c = sr_id (the run))) \<and>
    (q_current q = None \<or> run \<noteq> None \<and> q_current q = Some (sr_id (the run)) \<and> runstatus_Done (sr_status (the run)))"
proof -
  have hd_in: "hd (xs @ [x]) \<in> set xs \<or> hd (xs @ [x]) = x" for xs and x :: TfeID by (cases xs) auto
  show ?thesis
    using assms hd_in
    by (auto simp: process_def split: option.splits if_splits dest!: promote_flags)
qed

lemma process_unlock:
  assumes "process q run = (q', e, True)"
  shows "\<not> e \<and> (\<exists>r. run = Some r \<and> q_current q = Some (sr_id r) \<and> runstatus_Done (sr_status r)) \<and>
    queue_abs q' = []"
proof -
  have "\<not> e \<and> (\<exists>r. run = Some r \<and> q_current q = Some (sr_id r) \<and> runstatus_Done (sr_status r)) \<and>
    q' = q\<lparr>q_current := None\<rparr> \<and> q_backlog q = []"
    using assms by (auto simp: process_def split: option.splits if_splits dest!: promote_flags)
  then show ?thesis by (auto simp: queue_abs_def)
qed

lemma process_keep:
  assumes "process q run = (q', False, False)"
  shows "q_current q' = q_current q \<or>
    (\<exists>r. run = Some r \<and> takeover q run \<and> q_current q' = Some (sr_id r))"
  using assms by (auto simp: process_def takeover_def split: option.splits if_splits dest!: promote_flags)

lemma process_members:
  "set (queue_abs (fst (process q run))) \<subseteq> set (queue_abs q) \<union> (case run of None \<Rightarrow> {} | Some r \<Rightarrow> {sr_id r})"
proof -
  have "set (q_backlog q) \<subseteq> set (queue_abs q)" by (auto simp: queue_abs_def)
  then show ?thesis
    by (auto simp: process_abs takeover_def list_process_def split: option.splits if_splits
        dest: set_remove1_subset [THEN subsetD])
qed

section \<open>What the scheduler relies on\<close>

text \<open>
  \<open>active db w\<close> are the runs of a workspace that are under way, \<open>home db r\<close> is the workspace whose
  queue a run belongs to. The scheduler keeps every active run current, given that enqueuing a plan
  activates no other run, that unlocking activates none, and that runs do not move.
\<close>

definition sched_inv ::
  "('db \<Rightarrow> TfeID \<Rightarrow> TfeID set) \<Rightarrow> ('db \<Rightarrow> TfeID \<rightharpoonup> TfeID) \<Rightarrow> queues \<times> 'db \<Rightarrow> bool" where
  "sched_inv active home s \<longleftrightarrow>
     (\<forall>w. active (snd s) w \<subseteq> set_option (q_current (get_queue (fst s) w)) \<and>
        (\<forall>r \<in> set (queue_abs (get_queue (fst s) w)). home (snd s) r \<in> {None, Some w}))"

definition event_ok ::
  "('db \<Rightarrow> TfeID \<Rightarrow> TfeID set) \<Rightarrow> ('db \<Rightarrow> TfeID \<rightharpoonup> TfeID) \<Rightarrow> 'db \<Rightarrow> TfeID \<Rightarrow> schedulerRun option \<Rightarrow> bool" where
  "event_ok active home db w run =
     (case run of
        None \<Rightarrow> True
      | Some r \<Rightarrow>
          home db (sr_id r) \<in> {None, Some w} \<and> (sr_planOnly r \<longrightarrow> home db (sr_id r) = None) \<and>
          (runstatus_Done (sr_status r) \<longrightarrow> sr_id r \<notin> active db w))"

text \<open>
  While the queues are populated: a workspace whose oldest listed run is under way and has not been
  handled yet has an empty queue.
\<close>

definition run_under_way :: "Run \<Rightarrow> bool" where
  "run_under_way r \<longleftrightarrow> run_Status r \<noteq> Pending \<and> \<not> runstatus_Done (run_Status r)"

definition first_of :: "TfeID \<Rightarrow> Run list \<Rightarrow> TfeID set" where
  "first_of w rs =
     (case filter (\<lambda>r. \<not> run_PlanOnly r \<and> run_WorkspaceID r = w) rs of
        [] \<Rightarrow> {} | r # _ \<Rightarrow> if run_under_way r then {run_ID r} else {})"

definition startup_inv ::
  "('db \<Rightarrow> TfeID \<Rightarrow> TfeID set) \<Rightarrow> ('db \<Rightarrow> TfeID \<rightharpoonup> TfeID) \<Rightarrow> Run list \<Rightarrow> queues \<times> 'db \<Rightarrow> bool" where
  "startup_inv active home rest s \<longleftrightarrow>
     (\<forall>w. (active (snd s) w \<subseteq> set_option (q_current (get_queue (fst s) w)) \<or>
           get_queue (fst s) w = empty_queue \<and> active (snd s) w \<subseteq> first_of w rest) \<and>
        (\<forall>r \<in> set (queue_abs (get_queue (fst s) w)). home (snd s) r \<in> {None, Some w}))"

locale scheduler_client =
  fixes enq :: "TfeID \<Rightarrow> 'db \<Rightarrow> 'db result"
    and unl :: "TfeID \<Rightarrow> TfeID \<Rightarrow> 'db \<Rightarrow> 'db result"
    and good :: "'db \<Rightarrow> bool"
    and active :: "'db \<Rightarrow> TfeID \<Rightarrow> TfeID set"
    and home :: "'db \<Rightarrow> TfeID \<rightharpoonup> TfeID"
  assumes enq_good: "good db \<Longrightarrow> enq r db = Inr db' \<Longrightarrow> good db'"
    and enq_home: "good db \<Longrightarrow> enq r db = Inr db' \<Longrightarrow> home db' = home db"
    and enq_active: "good db \<Longrightarrow> enq r db = Inr db' \<Longrightarrow>
      active db' w \<subseteq> active db w \<union> (if home db r = Some w then {r} else {})"
    and unl_good: "good db \<Longrightarrow> unl w r db = Inr db' \<Longrightarrow> good db'"
    and unl_home: "good db \<Longrightarrow> unl w r db = Inr db' \<Longrightarrow> home db' = home db"
    and unl_active: "good db \<Longrightarrow> unl w r db = Inr db' \<Longrightarrow> active db' v = active db v"
begin

text \<open>What scheduling does to the workspace it is called for, and that it leaves the others alone.\<close>

lemma schedule_queue_local:
  assumes "good db" "event_ok active home db w run"
    and act: "active db w \<subseteq> set_option (q_current (get_queue qs w))"
    and bel: "\<And>r. r \<in> set (queue_abs (get_queue qs w)) \<Longrightarrow> home db r \<in> {None, Some w}"
    and "schedule_queue enq unl w run (qs, db) = Inr (qs', db')"
  shows "good db' \<and> home db' = home db \<and> (\<forall>v. v \<noteq> w \<longrightarrow> active db' v \<subseteq> active db v \<and> get_queue qs' v = get_queue qs v) \<and>
    active db' w \<subseteq> set_option (q_current (get_queue qs' w)) \<and>
    (\<forall>r \<in> set (queue_abs (get_queue qs' w)). home db r \<in> {None, Some w})"
proof -
  let ?q = "get_queue qs w"
  obtain q e ul where p: "process ?q run = (q, e, ul)" by (cases "process ?q run") auto
  have mem: "home db r \<in> {None, Some w}" if "r \<in> set (queue_abs q)" for r
    using that process_members [of ?q run] p bel assms(2) by (auto simp: event_ok_def split: option.splits)
  have stored: ?thesis
    if "qs' = qs(w \<mapsto> q')" "good db'" "home db' = home db" "active db' w \<subseteq> set_option (q_current q')"
      "\<And>v. v \<noteq> w \<Longrightarrow> active db' v \<subseteq> active db v" "set (queue_abs q') \<subseteq> set (queue_abs q)" for q'
  proof -
    have "\<forall>r \<in> set (queue_abs q'). home db r \<in> {None, Some w}" using that(6) mem by blast
    with that(1-5) show ?thesis by (simp add: get_queue_def)
  qed
  consider (enqueue) "e" | (unlock) "\<not> e" "ul" | (keep) "\<not> e" "\<not> ul" by blast
  then show ?thesis
  proof cases
    case enqueue
    with p have p1: "process ?q run = (q, True, ul)" by simp
    obtain c where c: "q_current q = Some c" using process_enqueue [OF p1] by blast
    have idle: "active db w = {}"
      using process_enqueue [OF p1] act assms(2) by (auto simp: event_ok_def split: option.splits)
    have home_c: "home db c \<in> {None, Some w}" using mem [of c] c by (simp add: queue_abs_def)
    show ?thesis
    proof (cases "enq c db")
      case (Inr d)
      then have s': "qs' = qs(w \<mapsto> q)" "db' = d" using assms(5) p enqueue c by (auto simp: schedule_queue_def)
      show ?thesis
      proof (rule stored [OF s'(1)])
        show "active db' w \<subseteq> set_option (q_current q)"
          using enq_active [OF assms(1) Inr, of w] idle c s'(2) by (auto split: if_splits)
        show "active db' v \<subseteq> active db v" if "v \<noteq> w" for v
          using enq_active [OF assms(1) Inr, of v] home_c that s'(2) by auto
      qed (use enq_good [OF assms(1) Inr] enq_home [OF assms(1) Inr] s' in auto)
    next
      case (Inl er)
      then have s': "qs' = qs(w \<mapsto> \<lparr>q_current = None, q_backlog = c # q_backlog q\<rparr>)" "db' = db"
        using assms(5) p enqueue c by (auto simp: schedule_queue_def split: if_splits)
      show ?thesis
        by (rule stored [OF s'(1)]) (use assms(1) s'(2) idle c in \<open>auto simp: queue_abs_def\<close>)
    qed
  next
    case unlock
    with p have p1: "process ?q run = (q, e, True)" by simp
    obtain r where r: "run = Some r" "q_current ?q = Some (sr_id r)" "runstatus_Done (sr_status r)"
      using process_unlock [OF p1] by blast
    have idle: "active db w = {}" using act r assms(2) by (auto simp: event_ok_def)
    show ?thesis
    proof (cases "unl w (sr_id r) db")
      case (Inr d)
      then have s': "qs' = qs(w \<mapsto> q)" "db' = d" using assms(5) p unlock r by (auto simp: schedule_queue_def)
      show ?thesis
        by (rule stored [OF s'(1)])
          (use s'(2) unl_active [OF assms(1) Inr] unl_good [OF assms(1) Inr] unl_home [OF assms(1) Inr] idle in auto)
    next
      case (Inl er)
      then show ?thesis using assms(1,3-5) p unlock r by (auto simp: schedule_queue_def split: if_splits)
    qed
  next
    case keep
    with p have p1: "process ?q run = (q, False, False)" by simp
    have s': "qs' = qs(w \<mapsto> q)" "db' = db" using assms(5) p keep by (auto simp: schedule_queue_def)
    show ?thesis
      by (rule stored [OF s'(1)])
        (use s'(2) assms(1) process_keep [OF p1] act in \<open>auto simp: takeover_def split: option.splits\<close>)
  qed
qed

lemma schedule_queue_inv:
  assumes "good db" "sched_inv active home (qs, db)" "event_ok active home db w run"
    and "schedule_queue enq unl w run (qs, db) = Inr (qs', db')"
  shows "good db' \<and> home db' = home db \<and> sched_inv active home (qs', db')"
proof -
  have inv: "active db v \<subseteq> set_option (q_current (get_queue qs v)) \<and>
    (\<forall>r \<in> set (queue_abs (get_queue qs v)). home db r \<in> {None, Some v})" for v
    using assms(2) by (simp add: sched_inv_def)
  note loc = schedule_queue_local [OF assms(1,3) _ _ assms(4)]
  have loc: "good db' \<and> home db' = home db \<and> (\<forall>v. v \<noteq> w \<longrightarrow> active db' v \<subseteq> active db v \<and> get_queue qs' v = get_queue qs v) \<and>
    active db' w \<subseteq> set_option (q_current (get_queue qs' w)) \<and>
    (\<forall>r \<in> set (queue_abs (get_queue qs' w)). home db r \<in> {None, Some w})"
    by (rule loc) (use inv [of w] in blast)+
  have "active db' v \<subseteq> set_option (q_current (get_queue qs' v)) \<and>
    (\<forall>r \<in> set (queue_abs (get_queue qs' v)). home db' r \<in> {None, Some v})" for v
    using loc inv [of v] by (cases "v = w") auto
  with loc show ?thesis by (simp add: sched_inv_def)
qed

lemma schedule_inv:
  assumes "good db" "sched_inv active home (qs, db)" "event_ok active home db w run"
    and "schedule enq unl w run (qs, db) = Inr (qs', db')"
  shows "good db' \<and> home db' = home db \<and> sched_inv active home (qs', db')"
proof (cases "\<exists>r. run = Some r \<and> sr_planOnly r")
  case False
  with assms(4) have "schedule_queue enq unl w run (qs, db) = Inr (qs', db')"
    by (auto simp: schedule_def split: option.splits)
  then show ?thesis by (rule schedule_queue_inv [OF assms(1-3)])
next
  case True
  then obtain r where r: "run = Some r" "sr_planOnly r" by blast
  then have home: "home db (sr_id r) = None" using assms(3) by (simp add: event_ok_def)
  show ?thesis
  proof (cases "sr_status r = Pending")
    case True
    with assms(4) r have e: "enq (sr_id r) db = Inr db'" "qs' = qs"
      by (auto simp: schedule_def map_sum_def split: sum.splits)
    have "sched_inv active home (qs, db')"
      using assms(2) enq_active [OF assms(1) e(1)] enq_home [OF assms(1) e(1)] home
      unfolding sched_inv_def by fastforce
    with enq_good [OF assms(1) e(1)] enq_home [OF assms(1) e(1)] e(2) show ?thesis by simp
  next
    case False
    with assms r show ?thesis by (simp add: schedule_def)
  qed
qed

text \<open>Populating the queues of a fresh scheduler, run by run.\<close>

lemma startup_step:
  assumes "good db" "startup_inv active home (r # rs) (qs, db)"
    and "event_ok active home db (run_WorkspaceID r) (Some (summary r))"
    and "schedule enq unl (run_WorkspaceID r) (Some (summary r)) (qs, db) = Inr (qs', db')"
  shows "good db' \<and> home db' = home db \<and> startup_inv active home rs (qs', db')"
proof -
  let ?w = "run_WorkspaceID r"
  have inv: "(active db v \<subseteq> set_option (q_current (get_queue qs v)) \<or>
      get_queue qs v = empty_queue \<and> active db v \<subseteq> first_of v (r # rs)) \<and>
    (\<forall>x \<in> set (queue_abs (get_queue qs v)). home db x \<in> {None, Some v})" for v
    using assms(2) by (simp add: startup_inv_def)
  show ?thesis
  proof (cases "run_PlanOnly r")
    case True
    then have home: "home db (run_ID r) = None" using assms(3) by (simp add: event_ok_def summary_def)
    have s': "qs' = qs \<and> (db' = db \<or> enq (run_ID r) db = Inr db')"
      using assms(4) True
      by (auto simp: schedule_def summary_def map_sum_def split: sum.splits if_splits)
    have db': "good db'" "home db' = home db" "\<And>v. active db' v \<subseteq> active db v"
      using s' assms(1) enq_good [OF assms(1)] enq_home [OF assms(1)] enq_active [OF assms(1)] home by fastforce+
    have "first_of v (r # rs) = first_of v rs" for v using True by (simp add: first_of_def)
    with inv db' s' show ?thesis unfolding startup_inv_def by fastforce
  next
    case False
    then have sq: "schedule_queue enq unl ?w (Some (summary r)) (qs, db) = Inr (qs', db')"
      using assms(4) by (simp add: schedule_def summary_def)
    have others: "first_of v (r # rs) = first_of v rs" if "v \<noteq> ?w" for v
      using that by (simp add: first_of_def)
    have loc: "good db' \<and> home db' = home db \<and> (\<forall>v. v \<noteq> ?w \<longrightarrow> active db' v \<subseteq> active db v \<and> get_queue qs' v = get_queue qs v) \<and>
      active db' ?w \<subseteq> set_option (q_current (get_queue qs' ?w)) \<and>
      (\<forall>x \<in> set (queue_abs (get_queue qs' ?w)). home db x \<in> {None, Some ?w})"
    proof (cases "active db ?w \<subseteq> set_option (q_current (get_queue qs ?w))")
      case True
      then show ?thesis
        by (rule schedule_queue_local [OF assms(1,3) _ _ sq]) (use inv [of ?w] in blast)
    next
      case not_act: False
      then have q: "get_queue qs ?w = empty_queue" "active db ?w \<subseteq> first_of ?w (r # rs)" using inv [of ?w] by blast+
      then have st: "run_under_way r" "active db ?w \<subseteq> {run_ID r}" using not_act \<open>\<not> run_PlanOnly r\<close>
        by (auto simp: first_of_def split: if_splits)
      have "process empty_queue (Some (summary r)) = (\<lparr>q_current = Some (run_ID r), q_backlog = []\<rparr>, False, False)"
        using st(1) by (simp add: process_def empty_queue_def summary_def run_under_way_def)
      then have "qs' = qs(?w \<mapsto> \<lparr>q_current = Some (run_ID r), q_backlog = []\<rparr>)" "db' = db"
        using sq q(1) by (simp_all add: schedule_queue_def)
      with st(2) assms(1,3) show ?thesis by (auto simp: get_queue_def event_ok_def summary_def)
    qed
    have "(active db' v \<subseteq> set_option (q_current (get_queue qs' v)) \<or>
        get_queue qs' v = empty_queue \<and> active db' v \<subseteq> first_of v rs) \<and>
      (\<forall>x \<in> set (queue_abs (get_queue qs' v)). home db' x \<in> {None, Some v})" for v
    proof (cases "v = ?w")
      case True
      with loc show ?thesis by simp
    next
      case False
      then have "active db' v \<subseteq> active db v" "get_queue qs' v = get_queue qs v" "home db' = home db"
        using loc by blast+
      with inv [of v] others [OF False] show ?thesis by (simp, blast)
    qed
    with loc show ?thesis by (simp add: startup_inv_def)
  qed
qed

lemma startup_inv_all:
  assumes "good db" "startup_inv active home rs (qs, db)"
    and "\<And>d r. home d = home db \<Longrightarrow> r \<in> set rs \<Longrightarrow> event_ok active home d (run_WorkspaceID r) (Some (summary r))"
    and "schedule_all enq unl rs (qs, db) = Inr (qs', db')"
  shows "good db' \<and> sched_inv active home (qs', db')"
  using assms
proof (induction rs arbitrary: qs db)
  case Nil
  then show ?case by (auto simp: startup_inv_def sched_inv_def first_of_def)
next
  case (Cons r rs)
  from Cons.prems(4) obtain q1 d1 where s1: "schedule enq unl (run_WorkspaceID r) (Some (summary r)) (qs, db) = Inr (q1, d1)"
    "schedule_all enq unl rs (q1, d1) = Inr (qs', db')"
    by (auto split: sum.splits)
  have ev: "event_ok active home db (run_WorkspaceID r) (Some (summary r))" using Cons.prems(3) by simp
  note st = startup_step [OF Cons.prems(1,2) ev s1(1)]
  show ?case
    by (rule Cons.IH [OF _ _ _ s1(2)]) (use st Cons.prems(3) in auto)
qed

lemma populate_inv:
  assumes "good db" "\<And>w. active db w \<subseteq> first_of w (rev listed)"
    and "\<And>d r. home d = home db \<Longrightarrow> r \<in> set listed \<Longrightarrow> event_ok active home d (run_WorkspaceID r) (Some (summary r))"
    and "populate enq unl listed db = Inr (qs', db')"
  shows "good db' \<and> sched_inv active home (qs', db')"
proof (rule startup_inv_all [OF assms(1)])
  show "startup_inv active home (rev listed) (Map.empty, db)"
    using assms(2) by (auto simp: startup_inv_def get_queue_def)
  show "schedule_all enq unl (rev listed) (Map.empty, db) = Inr (qs', db')" using assms(4) by (simp add: populate_def)
qed (use assms(3) in auto)

end

end
