(* ===== verification/SchedulerSafety.thy ===== *)
theory SchedulerSafety
  imports Scheduler
begin

text \<open>
  The scheduler on top of the run and workspace services. The services meet what the scheduler relies
  on, so that a workspace never has two runs under way, whatever events arrive, however late or often;
  the exceptions are the restart of the scheduler and runs it has already finished with.
\<close>

section \<open>Runs under way\<close>

definition active_runs :: "otf_db \<Rightarrow> TfeID \<Rightarrow> TfeID set" where
  "active_runs db w =
     {rid. \<exists>r. db_runs db rid = Some r \<and> \<not> run_PlanOnly r \<and> run_WorkspaceID r = w \<and> run_under_way r}"

definition run_home :: "otf_db \<Rightarrow> TfeID \<rightharpoonup> TfeID" where
  "run_home db rid =
     (case db_runs db rid of
        None \<Rightarrow> None | Some r \<Rightarrow> if run_PlanOnly r then None else Some (run_WorkspaceID r))"

text \<open>A change of the database that starts no run and moves none.\<close>

definition starts_none :: "otf_db \<Rightarrow> otf_db \<Rightarrow> bool" where
  "starts_none db db' \<longleftrightarrow>
     (\<forall>rid r'. db_runs db' rid = Some r' \<longrightarrow>
        (\<exists>r. db_runs db rid = Some r \<and> run_WorkspaceID r' = run_WorkspaceID r \<and>
           run_PlanOnly r' = run_PlanOnly r \<and> (run_under_way r' \<longrightarrow> run_under_way r)))"

lemma starts_none_refl: "db_runs db' = db_runs db \<Longrightarrow> starts_none db db'"
  by (simp add: starts_none_def)

lemma starts_none_trans: "starts_none a b \<Longrightarrow> starts_none b c \<Longrightarrow> starts_none a c"
  unfolding starts_none_def by metis

lemma starts_none_upd:
  "db_runs db rid = Some r \<Longrightarrow> db_runs db' = (db_runs db)(rid \<mapsto> r') \<Longrightarrow>
   run_WorkspaceID r' = run_WorkspaceID r \<Longrightarrow> run_PlanOnly r' = run_PlanOnly r \<Longrightarrow>
   (run_under_way r' \<Longrightarrow> run_under_way r) \<Longrightarrow> starts_none db db'"
  by (auto simp: starts_none_def)

lemma starts_none_active: "starts_none db db' \<Longrightarrow> active_runs db' w \<subseteq> active_runs db w"
  unfolding starts_none_def active_runs_def by fastforce

lemma starts_none_home: "starts_none db db' \<Longrightarrow> run_home db' r \<in> {None, run_home db r}"
  unfolding starts_none_def run_home_def by (fastforce split: option.splits)

lemma exec_op_under_way:
  assumes "exec_op opn clk r = Inr r'" "opn \<noteq> OpEnqueuePlan" "run_under_way r'"
  shows "run_under_way r"
proof (cases opn)
  case (OpFinish ph e)
  with assms show ?thesis
    by (cases ph) (auto simp: run_under_way_def Run_Finish_def Let_def split: if_splits)
next
  case (OpCancel u f)
  with assms Cancel_status [of clk u f r r'] show ?thesis
    by (auto simp: run_under_way_def runstatus_Done_def split: if_splits)
qed (use assms in \<open>auto simp: run_under_way_def EnqueueApply_ok Start_ok Discard_ok runstatus_Done_def\<close>)

lemma UpdateStatus_starts_none:
  assumes "UpdateStatus rid fn db = Inr (db', new)" "\<And>r. fn r = exec_op opn clk r" "opn \<noteq> OpEnqueuePlan"
  shows "starts_none db db'"
proof -
  obtain old row where w: "db_runs db rid = Some old" "fn old = Inr new" "persist_run old new = Inr row"
    "db' = db\<lparr>db_runs := (db_runs db)(rid \<mapsto> row)\<rparr>"
    using UpdateStatus_ok [OF assms(1)] .
  have "run_under_way row \<Longrightarrow> run_under_way old"
    using exec_op_under_way [of opn clk old new] w(2) assms(2,3) persist_run_ok [OF w(3)]
    by (simp add: run_under_way_def)
  with w persist_run_ok [OF w(3)] show ?thesis by (intro starts_none_upd [OF w(1), where r' = row]) simp_all
qed

section \<open>The services start no run by themselves\<close>

lemma createJob_runs: "createJob rnd run db = Inr db' \<Longrightarrow> db_runs db' = db_runs db"
  by (auto simp: createJob_def Let_def split: if_splits)

lemma cancelJob_runs: "cancelJob run db = Inr db' \<Longrightarrow> db_runs db' = db_runs db"
  by (auto simp: cancelJob_def split: option.splits sum.splits if_splits prod.splits)

lemma ApplyRun_starts_none:
  assumes "ApplyRun env rid db = Inr db'"
  shows "starts_none db db'"
proof -
  from assms obtain db1 run where e: "UpdateStatus rid (Run_EnqueueApply (env_clk env)) db = Inr (db1, run)"
    "createJob (env_rnd env) run db1 = Inr db'"
    by (auto simp: ApplyRun_def split: sum.splits prod.splits)
  have "starts_none db db1"
    by (rule UpdateStatus_starts_none [OF e(1), of OpEnqueueApply "env_clk env"]) simp_all
  then show ?thesis by (rule starts_none_trans) (simp add: starts_none_refl createJob_runs [OF e(2)])
qed

lemma CancelRun_tx_starts_none:
  assumes "CancelRun_tx env u f rid db = Inr db'"
  shows "starts_none db db'"
proof -
  from assms obtain db1 run where e: "UpdateStatus rid (Cancel (env_clk env) u f) db = Inr (db1, run)"
    "cancelJob run db1 = Inr db'"
    by (auto simp: CancelRun_tx_def split: sum.splits prod.splits)
  have "starts_none db db1"
    by (rule UpdateStatus_starts_none [OF e(1), of "OpCancel u f" "env_clk env"]) simp_all
  then show ?thesis by (rule starts_none_trans) (simp add: starts_none_refl cancelJob_runs [OF e(2)])
qed

lemma CancelRun_starts_none:
  "CancelRun env rid db = Inr db' \<Longrightarrow> starts_none db db'"
  by (auto simp: CancelRun_def starts_none_refl split: sum.splits if_splits intro: CancelRun_tx_starts_none)

lemma FinishPhase_starts_none:
  assumes "FinishPhase env rid ph e db = Inr db'"
  shows "starts_none db db'"
proof -
  obtain db0 e' db1 run where p: "db0 = db \<or> createReports env rid ph db = Inr db0"
    "UpdateStatus rid (exec_op (OpFinish ph e') (env_clk env)) db0 = Inr (db1, run)"
    "db' = db1 \<or> (\<exists>env'. ApplyRun env' rid db1 = Inr db')"
    using FinishPhase_parts [OF assms] .
  have "starts_none db db0"
  proof (cases "db_runs db rid")
    case None
    with p(1) createReports_none [of env rid ph db db0] show ?thesis by (auto intro: starts_none_refl)
  next
    case (Some r)
    from p(1) show ?thesis
    proof
      assume "createReports env rid ph db = Inr db0"
      from createReports_row [OF this Some] obtain r' where "db0 = db\<lparr>db_runs := (db_runs db)(rid \<mapsto> r')\<rparr>"
        "run_Status r' = run_Status r" "run_WorkspaceID r' = run_WorkspaceID r" "run_PlanOnly r' = run_PlanOnly r"
        by blast
      then show ?thesis by (intro starts_none_upd [OF Some, where r' = r']) (simp_all add: run_under_way_def)
    qed (simp add: starts_none_refl)
  qed
  moreover have "starts_none db0 db1" by (rule UpdateStatus_starts_none [OF p(2) refl]) simp
  moreover have "starts_none db1 db'" using p(3) ApplyRun_starts_none by (auto intro: starts_none_refl)
  ultimately show ?thesis by (blast intro: starts_none_trans)
qed

lemma FinishJob_starts_none:
  assumes "FinishJob env jid st db = Inr db'"
  shows "starts_none db db'"
proof -
  from assms obtain j u db1 where "find_first (job_selected jid) (db_jobs db) = Some j"
    "finishJob st j = Inr u" and f: "db' = db1\<lparr>db_jobs := write_job u (db_jobs db1)\<rparr>"
    "(case st of JobFinished \<Rightarrow> FinishPhase env (job_RunID j) (job_Phase j) False db
        | JobErrored \<Rightarrow> FinishPhase env (job_RunID j) (job_Phase j) True db
        | JobCanceled \<Rightarrow> CancelRun env (job_RunID j) db | _ \<Rightarrow> Inr db) = Inr db1"
    by (auto simp: FinishJob_def split: option.splits Subject.splits sum.splits)
  have "starts_none db db1"
    using f(2) by (cases st) (auto intro: FinishPhase_starts_none CancelRun_starts_none starts_none_refl)
  then show ?thesis by (rule starts_none_trans) (simp add: starts_none_refl f(1))
qed

lemma StartJob_starts_none:
  assumes "StartJob env jid db = Inr (db', tok)"
  shows "starts_none db db'"
proof -
  from assms obtain j u db1 where "find_first (job_selected jid) (db_jobs db) = Some j" "startJob j = Inr u"
    and s: "StartPhase env (job_RunID j) db = Inr db1" "db' = db1\<lparr>db_jobs := write_job u (db_jobs db1)\<rparr>"
    by (auto simp: StartJob_def split: option.splits Subject.splits sum.splits if_splits)
  from s(1) obtain run where e: "UpdateStatus (job_RunID j) (Run_Start (env_clk env)) db = Inr (db1, run)"
    by (auto simp: StartPhase_def split: sum.splits prod.splits)
  have "starts_none db db1"
    by (rule UpdateStatus_starts_none [OF e, of OpStart "env_clk env"]) simp_all
  then show ?thesis by (rule starts_none_trans) (simp add: starts_none_refl s(2))
qed

lemma DiscardRun_starts_none:
  assumes "DiscardRun env rid db = Inr db'"
  shows "starts_none db db'"
proof -
  from assms obtain run where e: "UpdateStatus rid (Discard (env_clk env)) db = Inr (db', run)"
    by (auto simp: DiscardRun_def split: sum.splits prod.splits)
  show ?thesis by (rule UpdateStatus_starts_none [OF e, of OpDiscard "env_clk env"]) simp_all
qed

text \<open>
  Apart from creating a run, which then is pending, and from enqueuing its plan, no operation of the
  services starts a run.
\<close>

definition other_op :: "svc_op \<Rightarrow> bool" where
  "other_op op = (case op of SvcCreate _ _ _ \<Rightarrow> False | SvcEnqueuePlan _ \<Rightarrow> False | _ \<Rightarrow> True)"

lemma svc_starts_none:
  assumes "other_op op" "exec_svc op env db = Inr db'"
  shows "starts_none db db'"
proof (cases op)
  case (SvcDelete rid)
  with assms(2) show ?thesis
    by (auto simp: Service_DeleteRun_def db_DeleteRun_def starts_none_def split: sum.splits if_splits)
next
  case (SvcStart jid)
  with assms(2) show ?thesis by (auto simp: map_sum_def split: sum.splits intro: StartJob_starts_none)
next
  case (SvcForceCancel rid)
  with assms(2) show ?thesis
    by (auto simp: ForceCancelRun_def split: sum.splits intro: CancelRun_tx_starts_none)
next
  case (SvcLock w r)
  with assms(2) show ?thesis by (auto dest: Service_Lock_frame intro: starts_none_refl)
next
  case (SvcUnlock w r f)
  with assms(2) show ?thesis by (auto dest: Service_Unlock_frame intro: starts_none_refl)
qed (use assms in \<open>auto simp: other_op_def map_sum_def starts_none_refl split: sum.splits
  intro: ApplyRun_starts_none DiscardRun_starts_none CancelRun_starts_none FinishJob_starts_none\<close>)

section \<open>The services as clients of the scheduler\<close>

lemma EnqueuePlan_runs:
  assumes "Service_EnqueuePlan env rid db = Inr db'"
  obtains old row where "db_runs db rid = Some old" "run_Status old = Pending"
    "db_runs db' = (db_runs db)(rid \<mapsto> row)" "run_Status row = PlanQueued"
    "run_WorkspaceID row = run_WorkspaceID old" "run_PlanOnly row = run_PlanOnly old"
proof -
  from assms obtain db1 run db3 where e: "UpdateStatus rid (Run_EnqueuePlan (env_clk env)) db = Inr (db1, run)"
    "db_runs db3 = db_runs db1" "createJob (env_rnd env) run db3 = Inr db'"
    by (auto simp: Service_EnqueuePlan_def split: sum.splits if_splits prod.splits
        dest!: Service_Lock_frame SetWorkspaceLatestRun_frame)
  obtain old row where w: "db_runs db rid = Some old" "Run_EnqueuePlan (env_clk env) old = Inr run"
    "persist_run old run = Inr row" "db1 = db\<lparr>db_runs := (db_runs db)(rid \<mapsto> row)\<rparr>"
    using UpdateStatus_ok [OF e(1)] .
  have "exec_op OpEnqueuePlan (env_clk env) old = Inr run" using w(2) by simp
  then have "run_Status old = Pending" "run_Status run = PlanQueued" by (auto simp: EnqueuePlan_ok)
  with that [OF w(1), of row] w(4) e(2) createJob_runs [OF e(3)] persist_run_ok [OF w(3)] show ?thesis by simp
qed

lemma Unlock_runs: "Service_Unlock env w (Some r) f db = Inr db' \<Longrightarrow> db_runs db' = db_runs db"
  by (auto dest: Service_Unlock_frame)

interpretation svc: scheduler_client "Service_EnqueuePlan env" "\<lambda>w r. Service_Unlock env w (Some r) False"
    reachable_db active_runs run_home
  for env
proof
  fix db r db' w
  assume db: "reachable_db db" and e: "Service_EnqueuePlan env r db = Inr db'"
  obtain old row where o: "db_runs db r = Some old" "run_Status old = Pending"
    "db_runs db' = (db_runs db)(r \<mapsto> row)" "run_Status row = PlanQueued"
    "run_WorkspaceID row = run_WorkspaceID old" "run_PlanOnly row = run_PlanOnly old"
    using EnqueuePlan_runs [OF e] .
  show "reachable_db db'"
    by (rule reachable_db.step [OF db, of "SvcEnqueuePlan r" env]) (use e in \<open>simp_all add: svc_op_ok_def\<close>)
  show "run_home db' = run_home db"
    using o by (auto simp: run_home_def fun_eq_iff)
  show "active_runs db' w \<subseteq> active_runs db w \<union> (if run_home db r = Some w then {r} else {})"
    using o by (auto simp: active_runs_def run_home_def split: if_splits)
next
  fix db w r db' v
  assume db: "reachable_db db" and u: "Service_Unlock env w (Some r) False db = Inr db'"
  show "reachable_db db'"
    by (rule reachable_db.step [OF db, of "SvcUnlock w (Some r) False" env]) (use u in \<open>simp_all add: svc_op_ok_def\<close>)
  show "run_home db' = run_home db" "active_runs db' v = active_runs db v"
    using Unlock_runs [OF u] by (simp_all add: run_home_def active_runs_def fun_eq_iff)
qed

section \<open>The scheduled system\<close>

text \<open>
  The queues and the database. A run event carries a status that the run has had at some time: events
  may be late, repeated or out of order. An event of a run that is gone can carry
  anything. The ID of a new run is in no queue.
  The queue of a workspace is dropped when the workspace and its runs are gone. A scheduler that
  fails is started again on the runs that are incomplete.
\<close>

abbreviation sched_handle :: "svc_env \<Rightarrow> sched_event \<Rightarrow> queues \<times> otf_db \<Rightarrow> (queues \<times> otf_db) result" where
  "sched_handle env \<equiv> handle_event (Service_EnqueuePlan env) (\<lambda>w r. Service_Unlock env w (Some r) False)"

abbreviation sched_populate :: "svc_env \<Rightarrow> Run list \<Rightarrow> otf_db \<Rightarrow> (queues \<times> otf_db) result" where
  "sched_populate env \<equiv> populate (Service_EnqueuePlan env) (\<lambda>w r. Service_Unlock env w (Some r) False)"

definition event_of :: "otf_db \<Rightarrow> sched_event \<Rightarrow> bool" where
  "event_of db ev =
     (case ev of
        RunEvent w sr \<Rightarrow>
          (case db_runs db (sr_id sr) of
             None \<Rightarrow> True
           | Some r \<Rightarrow> w = run_WorkspaceID r \<and> sr_planOnly sr = run_PlanOnly r \<and>
               sr_status sr \<in> set (map st_Status (run_StatusTimestamps r)))
      | WorkspaceDeleted w \<Rightarrow> active_runs db w = {}
      | _ \<Rightarrow> True)"

text \<open>The query for incomplete runs, newest first.\<close>

definition incomplete_listing :: "otf_db \<Rightarrow> Run list \<Rightarrow> bool" where
  "incomplete_listing db listed \<longleftrightarrow>
     distinct (map run_ID listed) \<and> sorted_wrt (\<lambda>a b. run_CreatedAt b \<le> run_CreatedAt a) listed \<and>
     set listed = {r. db_runs db (run_ID r) = Some r \<and> run_Status r \<in> set IncompleteRun}"

text \<open>
  What a restart needs: the run that is under way in a workspace is the oldest incomplete run of the
  workspace. It fails for runs in the status \<open>CostEstimated\<close>, which the query leaves out.
\<close>

definition restart_ok :: "otf_db \<Rightarrow> Run list \<Rightarrow> bool" where
  "restart_ok db listed \<longleftrightarrow> (\<forall>w. active_runs db w \<subseteq> first_of w (rev listed))"

definition fresh_for :: "queues \<Rightarrow> svc_op \<Rightarrow> svc_env \<Rightarrow> bool" where
  "fresh_for qs op env =
     (case op of
        SvcCreate _ _ _ \<Rightarrow> (\<forall>w. NewTfeID (env_rnd env) RunKind \<notin> set (queue_abs (get_queue qs w)))
      | SvcEnqueuePlan _ \<Rightarrow> False
      | _ \<Rightarrow> True)"

inductive scheduled :: "queues \<times> otf_db \<Rightarrow> bool" where
  start: "reachable_db db \<Longrightarrow> (\<And>w. active_runs db w = {}) \<Longrightarrow> scheduled (Map.empty, db)"
| service: "scheduled (qs, db) \<Longrightarrow> svc_op_ok op \<Longrightarrow> fresh_for qs op env \<Longrightarrow>
    exec_svc op env db = Inr db' \<Longrightarrow> scheduled (qs, db')"
| event: "scheduled (qs, db) \<Longrightarrow> event_of db ev \<Longrightarrow> sched_handle env ev (qs, db) = Inr s' \<Longrightarrow> scheduled s'"
| restart: "scheduled (qs, db) \<Longrightarrow> incomplete_listing db listed \<Longrightarrow> restart_ok db listed \<Longrightarrow>
    sched_populate env listed db = Inr s' \<Longrightarrow> scheduled s'"

text \<open>A status that a run has had and that is final means that the run is not under way.\<close>

lemma done_is_over:
  assumes "run_row_ok r" "st \<in> set (map st_Status (run_StatusTimestamps r))" "runstatus_Done st"
  shows "\<not> run_under_way r"
proof -
  have "ranked status_rank (map st_Status (run_StatusTimestamps r)) (run_Status r)"
    using assms(1) by (simp add: run_row_ok_def)
  then have "st = run_Status r \<or> status_rank st < status_rank (run_Status r)"
    using assms(2) by (cases "run_StatusTimestamps r" rule: rev_cases) (auto simp: ranked_def sorted_wrt_append)
  with assms(3) show ?thesis
    by (cases st; cases "run_Status r") (auto simp: run_under_way_def runstatus_Done_def)
qed

lemma service_sched_inv:
  assumes "reachable_db db" "sched_inv active_runs run_home (qs, db)" "svc_op_ok op" "fresh_for qs op env"
    and "exec_svc op env db = Inr db'"
  shows "sched_inv active_runs run_home (qs, db')"
proof (cases "other_op op")
  case True
  note none = svc_starts_none [OF this assms(5)]
  have old: "active_runs db w \<subseteq> set_option (q_current (get_queue qs w))"
    "\<forall>r \<in> set (queue_abs (get_queue qs w)). run_home db r \<in> {None, Some w}" for w
    using assms(2) by (simp_all add: sched_inv_def)
  have "run_home db' r \<in> {None, Some w}" if "r \<in> set (queue_abs (get_queue qs w))" for r w
    using starts_none_home [OF none, of r] old(2) [of w] that by auto
  with starts_none_active [OF none] old(1) show ?thesis
    unfolding sched_inv_def fst_conv snd_conv by blast
next
  case False
  then obtain ws cv opts where op: "op = SvcCreate ws cv opts"
    using assms(4) by (auto simp: other_op_def fresh_for_def split: svc_op.splits)
  let ?r = "NewRun (env_rnd env) (env_clk env) ws cv opts"
  have db': "db_runs db' = (db_runs db)(run_ID ?r \<mapsto> ?r)" "db_runs db (run_ID ?r) = None"
    using assms(5) op by (auto simp: Service_CreateRun_def db_CreateRun_def split: sum.splits if_splits)
  have act: "active_runs db' w = active_runs db w" for w
    using db' by (auto simp: active_runs_def run_under_way_def)
  have home: "run_home db' r = run_home db r" if "r \<noteq> run_ID ?r" for r
    using db' that by (simp add: run_home_def)
  have fresh: "run_ID ?r \<notin> set (queue_abs (get_queue qs w))" for w
    using assms(4) op by (simp add: fresh_for_def NewRun_ID)
  have "run_home db' r \<in> {None, Some w}" if "r \<in> set (queue_abs (get_queue qs w))" for r w
    using home [of r] fresh [of w] that assms(2) unfolding sched_inv_def by (metis fst_conv snd_conv)
  with act assms(2) show ?thesis by (simp add: sched_inv_def)
qed

lemma run_event_ok:
  assumes "reachable_db db" "event_of db (RunEvent w sr)"
  shows "event_ok active_runs run_home db w (Some sr)"
proof (cases "db_runs db (sr_id sr)")
  case None
  then show ?thesis by (simp add: event_ok_def run_home_def active_runs_def)
next
  case (Some r)
  note row = joint_invD(3) [OF reachable_joint [OF assms(1)] Some]
  have ev: "w = run_WorkspaceID r" "sr_planOnly sr = run_PlanOnly r"
    "sr_status sr \<in> set (map st_Status (run_StatusTimestamps r))"
    using assms(2) Some by (auto simp: event_of_def)
  then show ?thesis
    using done_is_over [OF row ev(3)] Some
    by (auto simp: event_ok_def run_home_def active_runs_def)
qed

lemma listed_event_ok:
  assumes "incomplete_listing db listed" "r \<in> set listed" "run_home d = run_home db"
  shows "event_ok active_runs run_home d (run_WorkspaceID r) (Some (summary r))"
proof -
  have r: "db_runs db (run_ID r) = Some r" "run_Status r \<in> set IncompleteRun"
    using assms(1,2) by (auto simp: incomplete_listing_def)
  have "\<not> runstatus_Done (run_Status r)"
    using r(2) by (auto simp: IncompleteRun_def ActiveRun_def runstatus_Done_def)
  with r(1) assms(3) show ?thesis by (auto simp: event_ok_def summary_def run_home_def)
qed

lemma delete_queue_inv:
  assumes "sched_inv active_runs run_home (qs, db)" "active_runs db w = {}"
  shows "sched_inv active_runs run_home (qs(w := None), db)"
  unfolding sched_inv_def fst_conv snd_conv
proof (rule allI)
  fix v
  have new: "get_queue (qs(w := None)) v = (if v = w then empty_queue else get_queue qs v)"
    by (simp add: get_queue_def)
  show "active_runs db v \<subseteq> set_option (q_current (get_queue (qs(w := None)) v)) \<and>
      (\<forall>r \<in> set (queue_abs (get_queue (qs(w := None)) v)). run_home db r \<in> {None, Some v})"
    using assms unfolding new sched_inv_def by simp
qed

lemma event_sched_inv:
  assumes "reachable_db db" "sched_inv active_runs run_home (qs, db)" "event_of db ev"
    and "sched_handle env ev (qs, db) = Inr (qs', db')"
  shows "reachable_db db' \<and> sched_inv active_runs run_home (qs', db')"
proof (cases ev)
  case (RunEvent w sr)
  with svc.schedule_inv [OF assms(1,2) run_event_ok [OF assms(1)], of w sr env qs' db'] assms(3,4) show ?thesis
    by simp
next
  case (WorkspaceEvent w locked)
  with svc.schedule_inv [OF assms(1,2), of w None env qs' db'] assms show ?thesis
    by (auto simp: event_ok_def split: if_splits)
next
  case (WorkspaceDeleted w)
  with assms delete_queue_inv [OF assms(2), of w] show ?thesis by (auto simp: event_of_def)
qed (use assms in simp)

lemma scheduled_inv: "scheduled s \<Longrightarrow> reachable_db (snd s) \<and> sched_inv active_runs run_home s"
proof (induction rule: scheduled.induct)
  case (start db)
  then show ?case by (simp add: sched_inv_def get_queue_def)
next
  case (service qs db op env db')
  then have "reachable_db db" "sched_inv active_runs run_home (qs, db)" by simp_all
  with service.hyps service_sched_inv [of db qs op env db'] show ?case
    by (auto intro: reachable_db.step)
next
  case (event qs db ev env s')
  then show ?case using event_sched_inv [of db qs ev env "fst s'" "snd s'"] by simp
next
  case (restart qs db listed env s')
  have db: "reachable_db db" using restart.IH by simp
  have "reachable_db (snd s') \<and> sched_inv active_runs run_home (fst s', snd s')"
    by (rule svc.populate_inv [OF db])
      (use restart.hyps listed_event_ok [OF restart.hyps(2)] in \<open>auto simp: restart_ok_def\<close>)
  then show ?case by simp
qed

section \<open>Properties\<close>


text \<open>A run has been created and its event has reached the scheduler.\<close>

definition demo_created :: otf_db where
  "demo_created = projr (exec_all (take 1 demo_start) demo_db0)"

definition demo_event :: sched_event where
  "demo_event = RunEvent (ws_ID example_workspace) \<lparr>sr_id = demo_run_id, sr_status = Pending, sr_planOnly = False\<rparr>"

definition demo_sched :: "queues \<times> otf_db" where
  "demo_sched = projr (sched_handle (demo_svc_env (Superuser ''root'')) demo_event (Map.empty, demo_created))"

lemma demo_created_run: "db_runs demo_created = [demo_run_id \<mapsto> NewRun (\<lambda>_. 0) (\<lambda>n. int n) example_workspace example_cv no_options]"
  by (simp add: demo_created_def demo_start_def Let_def Service_CreateRun_def db_CreateRun_def demo_db0_def
      demo_svc_env_def svc_authorize_def Authorize_def NewRun_ID demo_run_id_def)

lemma demo_scheduled: "scheduled demo_sched"
proof -
  have ok: "is_ok (exec_all (take 1 demo_start) demo_db0)"
    "is_ok (sched_handle (demo_svc_env (Superuser ''root'')) demo_event (Map.empty, demo_created))" by code_simp+
  then have ex: "exec_all (take 1 demo_start) demo_db0 = Inr demo_created"
    by (cases "exec_all (take 1 demo_start) demo_db0") (simp_all add: demo_created_def)
  have "reachable_db demo_created"
  proof (rule exec_all_reachable [OF _ _ ex])
    show "reachable_db demo_db0" unfolding demo_db0_def by (rule reachable_db.init)
  qed code_simp
  then have "scheduled (Map.empty, demo_created)"
    by (rule scheduled.start) (auto simp: active_runs_def demo_created_run run_under_way_def)
  moreover have "event_of demo_created demo_event"
    by (simp add: event_of_def demo_event_def demo_created_run) (simp add: NewRun_def Let_def run_updateStatus_def no_options_def example_cv_def override_def)
  moreover have "sched_handle (demo_svc_env (Superuser ''root'')) demo_event (Map.empty, demo_created) = Inr demo_sched"
    using ok(2) by (cases "sched_handle (demo_svc_env (Superuser ''root'')) demo_event (Map.empty, demo_created)")
      (simp_all add: demo_sched_def)
  ultimately show ?thesis by (rule scheduled.event)
qed


text \<open>
  C6: The queue of a workspace, a current run and a backlog, refines a first-in-first-out list: an
  event appends an unknown run, drops a finished one and otherwise leaves the order alone. A plan is
  enqueued only for the head, and only when no run was current before or the current one has just
  finished; the workspace is unlocked only when its list has become empty. The one exception is a run
  found under way while none is current, which goes first.
\<close>

theorem queue_refines_list:
  assumes "process q run = (q', enqueue, unlock)"
  shows "queue_abs q' = (if takeover q run then sr_id (the run) # q_backlog q else list_process (queue_abs q) run) \<and>
    (enqueue \<longrightarrow> \<not> unlock \<and> q_current q' = Some (hd (queue_abs q')) \<and>
       (q_current q = None \<or> run \<noteq> None \<and> q_current q = Some (sr_id (the run)) \<and> runstatus_Done (sr_status (the run)))) \<and>
    (unlock \<longrightarrow> queue_abs q' = [] \<and> queue_abs q \<noteq> []) \<and>
    (distinct (queue_abs q) \<and> \<not> takeover q run \<longrightarrow> distinct (queue_abs q'))"
proof -
  have abs: "queue_abs q' = (if takeover q run then sr_id (the run) # q_backlog q else list_process (queue_abs q) run)"
    using process_abs [of q run] assms by simp
  moreover have "\<not> unlock \<and> q_current q' = Some (hd (queue_abs q')) \<and>
       (q_current q = None \<or> run \<noteq> None \<and> q_current q = Some (sr_id (the run)) \<and> runstatus_Done (sr_status (the run)))"
    if enqueue using process_enqueue [of q run q' unlock] assms that by (auto simp: queue_abs_def)
  moreover have "queue_abs q' = [] \<and> queue_abs q \<noteq> []" if unlock
    using process_unlock [of q run q' enqueue] assms that by (auto simp: queue_abs_def)
  moreover have "distinct (queue_abs q')" if "distinct (queue_abs q)" "\<not> takeover q run"
    using that abs by (auto simp: list_process_def distinct_remove1 split: option.splits)
  ultimately show ?thesis by blast
qed

lemma queue_refines_list_witness:
  "queue_abs (fst (process \<lparr>q_current = Some demo_run_id, q_backlog = [demo_job_id]\<rparr>
     (Some \<lparr>sr_id = demo_run_id, sr_status = Applied, sr_planOnly = False\<rparr>))) = [demo_job_id]"
proof -
  let ?q = "\<lparr>q_current = Some demo_run_id, q_backlog = [demo_job_id]\<rparr>"
  let ?e = "Some \<lparr>sr_id = demo_run_id, sr_status = Applied, sr_planOnly = False\<rparr>"
  obtain q' a b where "process ?q ?e = (q', a, b)" by (cases "process ?q ?e") auto
  with queue_refines_list [OF this] show ?thesis
    by (simp add: takeover_def list_process_def runstatus_Done_def)
qed

text \<open>
  A scheduler that is restarted while the run of a workspace is in the status \<open>CostEstimated\<close>
  starts a second run: the query for incomplete runs leaves the first one out, so that a pending run
  of the workspace is taken to be first in line and its plan is enqueued.
\<close>

theorem restart_starts_second_run:
  assumes "incomplete_listing db [rb]" "db_runs db a = Some ra" "run_Status ra = CostEstimated"
    and "run_Status rb = Pending" "\<not> run_PlanOnly ra" "\<not> run_PlanOnly rb" "run_WorkspaceID ra = run_WorkspaceID rb"
    and "Service_EnqueuePlan env (run_ID rb) db = Inr db'"
  shows "(\<exists>qs'. sched_populate env [rb] db = Inr (qs', db')) \<and> a \<noteq> run_ID rb \<and>
    {a, run_ID rb} \<subseteq> active_runs db' (run_WorkspaceID rb)"
proof -
  have b: "db_runs db (run_ID rb) = Some rb" using assms(1) by (auto simp: incomplete_listing_def)
  obtain row where r: "db_runs db' = (db_runs db)(run_ID rb \<mapsto> row)" "run_Status row = PlanQueued"
    "run_WorkspaceID row = run_WorkspaceID rb" "run_PlanOnly row = run_PlanOnly rb"
    using EnqueuePlan_runs [OF assms(8)] b by (metis option.inject)
  have ab: "a \<noteq> run_ID rb" using assms(2-4) b by auto
  have "sched_populate env [rb] db = Inr ([run_WorkspaceID rb \<mapsto> \<lparr>q_current = Some (run_ID rb), q_backlog = []\<rparr>], db')"
    using assms(4,6,8)
    by (simp add: populate_def schedule_def schedule_queue_def summary_def process_def promote_def
        get_queue_def empty_queue_def runstatus_Done_def)
  with ab r assms(2,3,5,6,7) show ?thesis
    by (auto simp: active_runs_def run_under_way_def runstatus_Done_def)
qed

definition estimated_run :: Run where
  "estimated_run = (NewRun (\<lambda>_. 1) (\<lambda>_. 0) example_workspace example_cv no_options)\<lparr>run_Status := CostEstimated\<rparr>"

definition demo_restart :: otf_db where
  "demo_restart = demo_db0\<lparr>db_runs := [run_ID estimated_run \<mapsto> estimated_run, run_ID example_run \<mapsto> example_run]\<rparr>"

lemma restart_starts_second_run_witness:
  "\<exists>db'. Service_EnqueuePlan (demo_svc_env (Superuser ''root'')) (run_ID example_run) demo_restart = Inr db' \<and>
     {run_ID estimated_run, run_ID example_run} \<subseteq> active_runs db' (ws_ID example_workspace)"
proof -
  let ?env = "demo_svc_env (Superuser ''root'')"
  have ne: "run_ID estimated_run \<noteq> run_ID example_run" by code_simp
  have "is_ok (Service_EnqueuePlan ?env (run_ID example_run) demo_restart)" by code_simp
  then obtain db' where e: "Service_EnqueuePlan ?env (run_ID example_run) demo_restart = Inr db'"
    by (cases "Service_EnqueuePlan ?env (run_ID example_run) demo_restart") auto
  have est: "run_Status estimated_run = CostEstimated" "run_WorkspaceID estimated_run = ws_ID example_workspace"
    "\<not> run_PlanOnly estimated_run"
    by (simp_all add: estimated_run_def) (simp add: NewRun_def Let_def run_updateStatus_def no_options_def
        example_cv_def override_def)
  have "incomplete_listing demo_restart [example_run]"
    using ne est by (auto simp: incomplete_listing_def demo_restart_def IncompleteRun_def ActiveRun_def split: if_splits)
  from restart_starts_second_run [OF this _ est(1) _ _ _ _ e, of "run_ID estimated_run"] e ne est show ?thesis
    by (auto simp: demo_restart_def)
qed

text \<open>
  An event of a run that has finished and that is in no queue brings the scheduler down when the
  queue of the workspace is empty: the run is put into the backlog, promoted, and enqueuing its plan
  is refused. Canceling a run that has been applied produces such an event.
\<close>

theorem finished_run_stops_scheduler:
  assumes "db_runs db rid = Some r" "run_ID r = rid" "runstatus_Done (run_Status r)" "\<not> run_PlanOnly r"
    and "get_queue qs (run_WorkspaceID r) = empty_queue"
  shows "\<exists>m. sched_handle env (RunEvent (run_WorkspaceID r) (summary r)) (qs, db) = Inl (Errorf m)"
proof -
  have "run_Status r \<noteq> Pending" using assms(3) by (auto simp: runstatus_Done_def)
  then have "Service_EnqueuePlan env rid db =
      Inl (Errorf (''cannot enqueue run with status '' @ Status_String (run_Status r)))"
    using assms(1) by (simp add: Service_EnqueuePlan_def UpdateStatus_def Run_EnqueuePlan_def)
  then show ?thesis
    using assms by (simp add: schedule_def schedule_queue_def summary_def process_def promote_def empty_queue_def)
qed

lemma finished_run_stops_scheduler_witness:
  "\<exists>m. sched_handle (demo_svc_env (Superuser ''root''))
     (RunEvent (ws_ID example_workspace) (summary (example_run\<lparr>run_Status := Applied\<rparr>)))
     (Map.empty, demo_created\<lparr>db_runs := [run_ID example_run \<mapsto> example_run\<lparr>run_Status := Applied\<rparr>]\<rparr>) = Inl (Errorf m)"
  using finished_run_stops_scheduler
    [of "demo_created\<lparr>db_runs := [run_ID example_run \<mapsto> example_run\<lparr>run_Status := Applied\<rparr>]\<rparr>" "run_ID example_run"
        "example_run\<lparr>run_Status := Applied\<rparr>" Map.empty "demo_svc_env (Superuser ''root'')"]
  by (simp add: runstatus_Done_def get_queue_def)

end
