(* ===== verification/RunLogs.thy ===== *)
theory RunLogs
  imports Run "HOL-Library.Word"
begin

text \<open>
  The logs of run phases (\<open>internal/run/chunk.go\<close>, \<open>phase_writer.go\<close>, \<open>tailer.go\<close> and the queries of
  \<open>internal/run/db.go\<close>): a runner writes a phase's log as a stream of chunks, the database keeps them
  until the last one arrives and then coalesces them into one row, and clients read a section or tail
  the log. The two tables refine one byte string per phase, and what a client tails is the rest of
  that string.
\<close>

section \<open>Chunks (chunk.go)\<close>

type_synonym byte = "8 word"

definition STX :: byte where "STX = 2"
definition ETX :: byte where "ETX = 3"

text \<open>The phase of a zero chunk is the empty string, here \<open>None\<close>.\<close>

record Chunk =
  ch_ID :: TfeID
  ch_RunID :: TfeID
  ch_Phase :: "PhaseType option"
  ch_Offset :: int
  ch_Data :: "byte list"

record PutChunkOptions =
  pc_RunID :: TfeID
  pc_Phase :: PhaseType
  pc_Offset :: int
  pc_Data :: "byte list"

record GetChunkOptions =
  gc_RunID :: TfeID
  gc_Phase :: PhaseType
  gc_Limit :: int
  gc_Offset :: int

definition zero_id :: TfeID where
  "zero_id = \<lparr>tfe_kind = [], tfe_id = []\<rparr>"

text \<open>Hexadecimal digits in either case; \<open>hex.Decode\<close> fails on any other byte and on odd lengths.\<close>

definition hex_val :: "char \<Rightarrow> byte option" where
  "hex_val c =
     (let n = of_char c :: nat in
      if 48 \<le> n \<and> n \<le> 57 then Some (of_nat (n - 48))
      else if 97 \<le> n \<and> n \<le> 102 then Some (of_nat (n - 87))
      else if 65 \<le> n \<and> n \<le> 70 then Some (of_nat (n - 55))
      else None)"

fun hex_Decode :: "string \<Rightarrow> byte list result" where
  "hex_Decode [] = Inr []"
| "hex_Decode [c] = Inl (Errorf ''encoding/hex: odd length or invalid byte'')"
| "hex_Decode (a # b # rest) =
     (case (hex_val a, hex_val b) of
        (Some x, Some y) \<Rightarrow>
          (case hex_Decode rest of Inl e \<Rightarrow> Inl e | Inr bs \<Rightarrow> Inr ((16 * x + y) # bs))
      | _ \<Rightarrow> Inl (Errorf ''encoding/hex: invalid byte''))"

definition trim_quotes :: "string \<Rightarrow> string" where
  "trim_quotes s =
     (let q = (\<lambda>c. c = CHR 0x22) in rev (dropWhile q (rev (dropWhile q s))))"

definition hex_escape :: string where
  "hex_escape = [CHR 0x5C, CHR 0x5C, CHR ''x'']"

definition UnmarshalJSON :: "string \<Rightarrow> byte list result" where
  "UnmarshalJSON data =
     (let t = trim_quotes data;
          h = (if take 3 t = hex_escape then drop 3 t else t)
      in hex_Decode h)"

definition newChunk :: "(nat \<Rightarrow> nat) \<Rightarrow> PutChunkOptions \<Rightarrow> Chunk result" where
  "newChunk rnd opts =
     (if pc_Data opts = [] then Inl (Errorf ''cowardly refusing to create empty log chunk'')
      else Inr \<lparr>ch_ID = NewTfeID rnd ChunkKind, ch_RunID = pc_RunID opts, ch_Phase = Some (pc_Phase opts),
                ch_Offset = pc_Offset opts, ch_Data = pc_Data opts\<rparr>)"

definition NextOffset :: "Chunk \<Rightarrow> int" where
  "NextOffset c = ch_Offset c + int (length (ch_Data c))"

definition IsStart :: "Chunk \<Rightarrow> bool" where
  "IsStart c \<longleftrightarrow> ch_Data c \<noteq> [] \<and> hd (ch_Data c) = STX"

definition IsEnd :: "Chunk \<Rightarrow> bool" where
  "IsEnd c \<longleftrightarrow> ch_Data c \<noteq> [] \<and> last (ch_Data c) = ETX"

text \<open>\<open>Cut\<close> slices the data; bounds that are out of order are a panic.\<close>

definition Cut :: "int \<Rightarrow> int \<Rightarrow> Chunk \<Rightarrow> Chunk result" where
  "Cut offset limit c =
     (if offset > NextOffset c
      then Inr \<lparr>ch_ID = zero_id, ch_RunID = zero_id, ch_Phase = None, ch_Offset = NextOffset c, ch_Data = []\<rparr>
      else let limit' = (if offset + limit > NextOffset c \<or> limit = 0 then NextOffset c - offset else limit);
               lo = offset - ch_Offset c
           in if lo < 0 \<or> limit' < 0 then Inl (Panic ''slice bounds out of range'')
              else Inr (c\<lparr>ch_Data := take (nat limit') (drop (nat lo) (ch_Data c)), ch_Offset := offset\<rparr>))"

section \<open>The tables (run/db.go)\<close>

text \<open>
  The table \<open>chunks\<close> has one row per chunk, the table \<open>logs\<close> one row per phase of a run. Offsets are
  \<open>int4\<close> columns. That a run exists is a foreign key that is left out here.
\<close>

record log_db =
  ld_chunks :: "Chunk list"
  ld_logs :: "TfeID \<times> PhaseType \<rightharpoonup> byte list"

definition chunk_of :: "TfeID \<times> PhaseType \<Rightarrow> Chunk \<Rightarrow> bool" where
  "chunk_of k c \<longleftrightarrow> ch_RunID c = fst k \<and> ch_Phase c = Some (snd k)"

definition string_agg :: "TfeID \<times> PhaseType \<Rightarrow> Chunk list \<Rightarrow> byte list" where
  "string_agg k chunks = concat (map ch_Data (sort_key ch_Offset (filter (chunk_of k) chunks)))"

definition int4 :: "int \<Rightarrow> bool" where
  "int4 x \<longleftrightarrow> - 2147483648 \<le> x \<and> x \<le> 2147483647"

definition putChunk :: "TfeID \<times> PhaseType \<Rightarrow> Chunk \<Rightarrow> log_db \<Rightarrow> log_db result" where
  "putChunk k c db =
     (if \<not> int4 (ch_Offset c) then Inl (Errorf ''integer out of range'')
      else if ch_ID c \<in> set (map ch_ID (ld_chunks db)) then Inl ErrResourceAlreadyExists
      else let chunks = ld_chunks db @ [c] in
        if \<not> IsEnd c then Inr (db\<lparr>ld_chunks := chunks\<rparr>)
        else if ld_logs db k \<noteq> None then Inl ErrResourceAlreadyExists
        else Inr \<lparr>ld_chunks = filter (\<lambda>x. \<not> chunk_of k x) chunks,
                  ld_logs = (ld_logs db)(k \<mapsto> string_agg k chunks)\<rparr>)"

text \<open>SQL's \<open>substring(s from f for n)\<close>.\<close>

definition pg_substring :: "byte list \<Rightarrow> int \<Rightarrow> int \<Rightarrow> byte list" where
  "pg_substring s f n =
     (let start = max 1 f in take (nat (f + n - start)) (drop (nat (start - 1)) s))"

text \<open>
  The query is a union of the chunks and of the coalesced log, of which the first row is taken; the
  order of a union is not specified, so that results about it assume that only one of them exists.
\<close>

definition log_rows :: "TfeID \<times> PhaseType \<Rightarrow> log_db \<Rightarrow> byte list list" where
  "log_rows k db =
     (if filter (chunk_of k) (ld_chunks db) = [] then [] else [string_agg k (ld_chunks db)]) @
     (case ld_logs db k of None \<Rightarrow> [] | Some l \<Rightarrow> [l])"

definition getChunk :: "GetChunkOptions \<Rightarrow> log_db \<Rightarrow> Chunk result" where
  "getChunk opts db =
     (let limit = (if gc_Limit opts = 0 then 2147483647 else gc_Limit opts);
          empty = \<lparr>ch_ID = zero_id, ch_RunID = gc_RunID opts, ch_Phase = Some (gc_Phase opts),
                   ch_Offset = gc_Offset opts, ch_Data = []\<rparr>
      in if \<not> int4 (gc_Offset opts + 1) \<or> \<not> int4 limit then Inl (Errorf ''integer out of range'')
         else case log_rows (gc_RunID opts, gc_Phase opts) db of
                [] \<Rightarrow> Inr empty
              | row # _ \<Rightarrow>
                  if limit < 0 then Inl (Errorf ''negative substring length not allowed'')
                  else Inr (empty\<lparr>ch_Data := pg_substring row (gc_Offset opts + 1) limit\<rparr>))"

definition Service_PutChunk :: "(nat \<Rightarrow> nat) \<Rightarrow> PutChunkOptions \<Rightarrow> log_db \<Rightarrow> log_db result" where
  "Service_PutChunk rnd opts db =
     (case newChunk rnd opts of Inl e \<Rightarrow> Inl e
      | Inr c \<Rightarrow> putChunk (pc_RunID opts, pc_Phase opts) c db)"

section \<open>The writer (phase\_writer.go)\<close>

record PhaseWriter =
  pw_started :: bool
  pw_runID :: TfeID
  pw_phase :: PhaseType
  pw_offset :: int

definition NewPhaseWriter :: "TfeID \<Rightarrow> PhaseType \<Rightarrow> PhaseWriter" where
  "NewPhaseWriter runID phase = \<lparr>pw_started = False, pw_runID = runID, pw_phase = phase, pw_offset = 0\<rparr>"

text \<open>The writer has moved on even when the upload fails.\<close>

definition Writer_Write ::
  "(PutChunkOptions \<Rightarrow> log_db \<Rightarrow> log_db result) \<Rightarrow> byte list \<Rightarrow> PhaseWriter \<Rightarrow> log_db \<Rightarrow>
   PhaseWriter \<times> log_db \<times> nat result" where
  "Writer_Write put p w db =
     (let data = (if pw_started w then p else STX # p);
          opts = \<lparr>pc_RunID = pw_runID w, pc_Phase = pw_phase w, pc_Offset = pw_offset w, pc_Data = data\<rparr>;
          w' = w\<lparr>pw_started := True, pw_offset := pw_offset w + int (length data)\<rparr>
      in case put opts db of
           Inl e \<Rightarrow> (w', db, Inl (Wrap ''writing log stream'' e))
         | Inr db' \<Rightarrow> (w', db', Inr (length p)))"

definition Writer_Close ::
  "(PutChunkOptions \<Rightarrow> log_db \<Rightarrow> log_db result) \<Rightarrow> PhaseWriter \<Rightarrow> log_db \<Rightarrow> log_db result" where
  "Writer_Close put w db =
     put \<lparr>pc_RunID = pw_runID w, pc_Phase = pw_phase w, pc_Offset = pw_offset w,
          pc_Data = (if pw_started w then [ETX] else [STX, ETX])\<rparr> db"

section \<open>The tailer (tailer.go)\<close>

text \<open>
  The goroutine of \<open>Tail\<close> as a function from the chunk events that it receives to the chunks that it
  relays: the section read from the database, then the events behind it.
\<close>

fun relay_events :: "TfeID \<Rightarrow> PhaseType \<Rightarrow> int \<Rightarrow> Chunk list \<Rightarrow> Chunk list result" where
  "relay_events runID phase offset [] = Inr []"
| "relay_events runID phase offset (c # evs) =
     (if runID \<noteq> ch_RunID c \<or> Some phase \<noteq> ch_Phase c then relay_events runID phase offset evs
      else if ch_Offset c < offset \<and> NextOffset c \<le> offset then relay_events runID phase offset evs
      else case (if ch_Offset c < offset then Cut offset 0 c else Inr c) of
             Inl e \<Rightarrow> Inl e
           | Inr c' \<Rightarrow>
               if ch_Data c' = [] then relay_events runID phase offset evs
               else if IsEnd c' then Inr [c']
               else (case relay_events runID phase offset evs of Inl e \<Rightarrow> Inl e | Inr cs \<Rightarrow> Inr (c' # cs)))"

definition Tail :: "TfeID \<Rightarrow> PhaseType \<Rightarrow> int \<Rightarrow> log_db \<Rightarrow> Chunk list \<Rightarrow> Chunk list result" where
  "Tail runID phase offset db evs =
     (case getChunk \<lparr>gc_RunID = runID, gc_Phase = phase, gc_Limit = 0, gc_Offset = offset\<rparr> db of
        Inl e \<Rightarrow> Inl e
      | Inr c \<Rightarrow>
          (case relay_events runID phase (offset + int (length (ch_Data c))) evs of
             Inl e \<Rightarrow> Inl e
           | Inr cs \<Rightarrow> Inr ((if ch_Data c = [] then [] else [c]) @ cs)))"

section \<open>One byte string per phase\<close>

definition log_of :: "TfeID \<times> PhaseType \<Rightarrow> log_db \<Rightarrow> byte list" where
  "log_of k db = (case ld_logs db k of Some l \<Rightarrow> l | None \<Rightarrow> string_agg k (ld_chunks db))"

fun contiguous :: "int \<Rightarrow> Chunk list \<Rightarrow> bool" where
  "contiguous n [] = True"
| "contiguous n (c # cs) = (ch_Offset c = n \<and> ch_Data c \<noteq> [] \<and> contiguous (NextOffset c) cs)"

definition log_open :: "TfeID \<times> PhaseType \<Rightarrow> log_db \<Rightarrow> bool" where
  "log_open k db \<longleftrightarrow> ld_logs db k = None \<and> contiguous 0 (filter (chunk_of k) (ld_chunks db))"

definition log_closed :: "TfeID \<times> PhaseType \<Rightarrow> log_db \<Rightarrow> bool" where
  "log_closed k db \<longleftrightarrow> ld_logs db k \<noteq> None \<and> filter (chunk_of k) (ld_chunks db) = []"

definition data_of :: "Chunk list \<Rightarrow> byte list" where
  "data_of cs = concat (map ch_Data cs)"

lemma data_of_simps [simp]:
  "data_of [] = []" "data_of (c # cs) = ch_Data c @ data_of cs" "data_of (xs @ ys) = data_of xs @ data_of ys"
  by (simp_all add: data_of_def)

lemma contiguous_ge: "contiguous n cs \<Longrightarrow> c \<in> set cs \<Longrightarrow> n \<le> ch_Offset c"
  by (induction cs arbitrary: n) (force simp: NextOffset_def)+

lemma contiguous_sorted: "contiguous n cs \<Longrightarrow> sorted (map ch_Offset cs)"
proof (induction cs arbitrary: n)
  case (Cons c cs)
  then have "n \<le> NextOffset c" by (simp add: NextOffset_def)
  with Cons contiguous_ge [of "NextOffset c" cs] show ?case by (fastforce simp: NextOffset_def)
qed simp

lemma contiguous_append:
  "contiguous n (xs @ ys) \<longleftrightarrow> contiguous n xs \<and> contiguous (n + int (length (data_of xs))) ys"
  by (induction xs arbitrary: n) (auto simp: NextOffset_def algebra_simps)

lemma string_agg_contiguous:
  "contiguous n (filter (chunk_of k) chunks) \<Longrightarrow> string_agg k chunks = data_of (filter (chunk_of k) chunks)"
  by (simp add: string_agg_def data_of_def sort_key_id_if_sorted contiguous_sorted)

lemma log_of_open: "log_open k db \<Longrightarrow> log_of k db = data_of (filter (chunk_of k) (ld_chunks db))"
  by (simp add: log_open_def log_of_def string_agg_contiguous [of 0])

text \<open>Putting the next chunk of a phase appends to its log, whether or not it coalesces the chunks.\<close>

lemma putChunk_appends:
  assumes "log_open k db" "chunk_of k c" "ch_Data c \<noteq> []" "ch_Offset c = int (length (log_of k db))"
    and "int4 (ch_Offset c)" "ch_ID c \<notin> set (map ch_ID (ld_chunks db))"
  shows "\<exists>db'. putChunk k c db = Inr db' \<and> log_of k db' = log_of k db @ ch_Data c \<and>
    (if IsEnd c then log_closed k db' else log_open k db') \<and>
    set (map ch_ID (ld_chunks db')) \<subseteq> insert (ch_ID c) (set (map ch_ID (ld_chunks db))) \<and>
    (\<forall>k'. k' \<noteq> k \<longrightarrow> log_of k' db' = log_of k' db)"
proof -
  let ?cs = "filter (chunk_of k) (ld_chunks db)"
  have cs: "contiguous 0 (?cs @ [c])"
    using assms(1,3,4) by (simp add: contiguous_append log_open_def log_of_open [OF assms(1)])
  have "filter (chunk_of k) (ld_chunks db @ [c]) = ?cs @ [c]" using assms(2) by simp
  then have agg: "string_agg k (ld_chunks db @ [c]) = log_of k db @ ch_Data c"
    using string_agg_contiguous [of 0 k "ld_chunks db @ [c]"] cs log_of_open [OF assms(1)] by simp
  have other: "\<not> chunk_of k' c" if "k' \<noteq> k" for k' using that assms(2) by (auto simp: chunk_of_def prod_eq_iff)
  have same: "string_agg k' (filter (\<lambda>x. \<not> chunk_of k x) (ld_chunks db @ [c])) = string_agg k' (ld_chunks db)"
    "string_agg k' (ld_chunks db @ [c]) = string_agg k' (ld_chunks db)" if "k' \<noteq> k" for k'
  proof -
    have "chunk_of k' x \<Longrightarrow> \<not> chunk_of k x" for x using that by (auto simp: chunk_of_def prod_eq_iff)
    then have "filter (chunk_of k') (filter (\<lambda>x. \<not> chunk_of k x) (ld_chunks db)) = filter (chunk_of k') (ld_chunks db)"
      by (auto simp: filter_filter intro: filter_cong)
    with other [OF that] assms(2) show
      "string_agg k' (filter (\<lambda>x. \<not> chunk_of k x) (ld_chunks db @ [c])) = string_agg k' (ld_chunks db)"
      "string_agg k' (ld_chunks db @ [c]) = string_agg k' (ld_chunks db)"
      by (simp_all add: string_agg_def)
  qed
  show ?thesis
  proof (cases "IsEnd c")
    case True
    then show ?thesis
      using assms agg same
      by (auto simp: putChunk_def Let_def log_open_def log_of_def log_closed_def split: option.splits)
  next
    case False
    then show ?thesis
      using assms agg same cs
      by (auto simp: putChunk_def Let_def log_open_def log_of_def split: option.splits)
  qed
qed

lemma log_rows_single:
  "log_open k db \<or> log_closed k db \<Longrightarrow> log_rows k db = [] \<and> log_of k db = [] \<or> log_rows k db = [log_of k db]"
  by (auto simp: log_rows_def log_open_def log_closed_def log_of_def string_agg_def split: option.splits)

text \<open>Reading a section of a log.\<close>

lemma getChunk_section:
  assumes "log_open (gc_RunID opts, gc_Phase opts) db \<or> log_closed (gc_RunID opts, gc_Phase opts) db"
    and "0 \<le> gc_Offset opts" "gc_Offset opts < 2147483647" "0 \<le> gc_Limit opts" "gc_Limit opts \<le> 2147483647"
  shows "\<exists>c. getChunk opts db = Inr c \<and> ch_Offset c = gc_Offset opts \<and>
    ch_Data c = take (nat (if gc_Limit opts = 0 then 2147483647 else gc_Limit opts))
      (drop (nat (gc_Offset opts)) (log_of (gc_RunID opts, gc_Phase opts) db))"
  using log_rows_single [OF assms(1)] assms(2-5)
  by (auto simp: getChunk_def Let_def int4_def pg_substring_def)

section \<open>Writing a stream\<close>

text \<open>A runner writes sections and closes the writer; every upload draws its own random ID.\<close>

fun write_all :: "((nat \<Rightarrow> nat) \<times> byte list) list \<Rightarrow> PhaseWriter \<Rightarrow> log_db \<Rightarrow> (PhaseWriter \<times> log_db) result" where
  "write_all [] w db = Inr (w, db)"
| "write_all ((rnd, p) # ps) w db =
     (case Writer_Write (Service_PutChunk rnd) p w db of
        (w', db', Inl e) \<Rightarrow> Inl e
      | (w', db', Inr _) \<Rightarrow> write_all ps w' db')"

definition write_stream ::
  "TfeID \<Rightarrow> PhaseType \<Rightarrow> ((nat \<Rightarrow> nat) \<times> byte list) list \<Rightarrow> (nat \<Rightarrow> nat) \<Rightarrow> log_db \<Rightarrow> log_db result" where
  "write_stream runID phase ps rnd db =
     (case write_all ps (NewPhaseWriter runID phase) db of Inl e \<Rightarrow> Inl e
      | Inr (w, db') \<Rightarrow> Writer_Close (Service_PutChunk rnd) w db')"

definition chunk_ids :: "((nat \<Rightarrow> nat) \<times> byte list) list \<Rightarrow> TfeID list" where
  "chunk_ids ps = map (\<lambda>(rnd, _). NewTfeID rnd ChunkKind) ps"

definition payload :: "((nat \<Rightarrow> nat) \<times> byte list) list \<Rightarrow> byte list" where
  "payload ps = concat (map snd ps)"

text \<open>A section that can be written: not empty, and not ending in the end marker.\<close>

definition section_ok :: "byte list \<Rightarrow> bool" where
  "section_ok p \<longleftrightarrow> p \<noteq> [] \<and> last p \<noteq> ETX"

definition writer_at :: "TfeID \<times> PhaseType \<Rightarrow> PhaseWriter \<Rightarrow> log_db \<Rightarrow> bool" where
  "writer_at k w db \<longleftrightarrow> pw_runID w = fst k \<and> pw_phase w = snd k \<and> log_open k db \<and>
     pw_offset w = int (length (log_of k db)) \<and> (pw_started w \<longleftrightarrow> log_of k db \<noteq> [])"

lemma Service_PutChunk_appends:
  assumes "log_open k db" "pc_RunID opts = fst k" "pc_Phase opts = snd k" "pc_Data opts \<noteq> []"
    and "pc_Offset opts = int (length (log_of k db))" "length (log_of k db) < 2147483648"
    and "NewTfeID rnd ChunkKind \<notin> set (map ch_ID (ld_chunks db))"
  shows "\<exists>db'. Service_PutChunk rnd opts db = Inr db' \<and> log_of k db' = log_of k db @ pc_Data opts \<and>
    (if last (pc_Data opts) = ETX then log_closed k db' else log_open k db') \<and>
    set (map ch_ID (ld_chunks db')) \<subseteq> insert (NewTfeID rnd ChunkKind) (set (map ch_ID (ld_chunks db))) \<and>
    (\<forall>k'. k' \<noteq> k \<longrightarrow> log_of k' db' = log_of k' db)"
proof -
  let ?c = "\<lparr>ch_ID = NewTfeID rnd ChunkKind, ch_RunID = pc_RunID opts, ch_Phase = Some (pc_Phase opts),
    ch_Offset = pc_Offset opts, ch_Data = pc_Data opts\<rparr>"
  have "newChunk rnd opts = Inr ?c" using assms(4) by (simp add: newChunk_def)
  moreover have k: "(pc_RunID opts, pc_Phase opts) = k" using assms(2,3) by simp
  moreover have "IsEnd ?c \<longleftrightarrow> last (pc_Data opts) = ETX" using assms(4) by (simp add: IsEnd_def)
  moreover have "\<exists>db'. putChunk k ?c db = Inr db' \<and> log_of k db' = log_of k db @ ch_Data ?c \<and>
    (if IsEnd ?c then log_closed k db' else log_open k db') \<and>
    set (map ch_ID (ld_chunks db')) \<subseteq> insert (ch_ID ?c) (set (map ch_ID (ld_chunks db))) \<and>
    (\<forall>k'. k' \<noteq> k \<longrightarrow> log_of k' db' = log_of k' db)"
    by (rule putChunk_appends) (use assms in \<open>auto simp: chunk_of_def int4_def\<close>)
  ultimately show ?thesis by (simp add: Service_PutChunk_def)
qed

lemma write_all_ok:
  assumes "writer_at k w db" "\<forall>(_, p) \<in> set ps. section_ok p"
    and "length (log_of k db) + length (payload ps) + (if pw_started w then 0 else 1) < 2147483648"
    and "distinct (chunk_ids ps @ ids)" "set (chunk_ids ps @ ids) \<inter> set (map ch_ID (ld_chunks db)) = {}"
  shows "\<exists>w' db'. write_all ps w db = Inr (w', db') \<and> writer_at k w' db' \<and>
    log_of k db' = log_of k db @ (if pw_started w \<or> ps = [] then payload ps else STX # payload ps) \<and>
    set ids \<inter> set (map ch_ID (ld_chunks db')) = {} \<and> (\<forall>k'. k' \<noteq> k \<longrightarrow> log_of k' db' = log_of k' db)"
  using assms
proof (induction ps arbitrary: w db)
  case Nil
  then show ?case by (simp add: payload_def chunk_ids_def)
next
  case (Cons a ps)
  obtain rnd p where a: "a = (rnd, p)" by (cases a)
  have p: "p \<noteq> []" "last p \<noteq> ETX" using Cons.prems(2) a by (auto simp: section_ok_def)
  define data where "data = (if pw_started w then p else STX # p)"
  let ?opts = "\<lparr>pc_RunID = pw_runID w, pc_Phase = pw_phase w, pc_Offset = pw_offset w, pc_Data = data\<rparr>"
  have at: "pw_runID w = fst k" "pw_phase w = snd k" "log_open k db" "pw_offset w = int (length (log_of k db))"
    using Cons.prems(1) by (simp_all add: writer_at_def)
  have d: "data \<noteq> []" "last data \<noteq> ETX" using p by (simp_all add: data_def)
  have "NewTfeID rnd ChunkKind \<notin> set (map ch_ID (ld_chunks db))"
    using Cons.prems(5) a by (auto simp: chunk_ids_def)
  from Service_PutChunk_appends [of k db ?opts rnd, OF _ _ _ _ _ _ this] at d Cons.prems(3)
  obtain db1 where put: "Service_PutChunk rnd ?opts db = Inr db1" "log_of k db1 = log_of k db @ data"
    "log_open k db1" "set (map ch_ID (ld_chunks db1)) \<subseteq> insert (NewTfeID rnd ChunkKind) (set (map ch_ID (ld_chunks db)))"
    "\<forall>k'. k' \<noteq> k \<longrightarrow> log_of k' db1 = log_of k' db"
    by auto
  define w1 where "w1 = w\<lparr>pw_started := True, pw_offset := pw_offset w + int (length data)\<rparr>"
  have w1: "writer_at k w1 db1" using at put(2,3) d by (auto simp: writer_at_def w1_def)
  have wr: "Writer_Write (Service_PutChunk rnd) p w db = (w1, db1, Inr (length p))"
    using put(1) by (simp add: Writer_Write_def w1_def data_def)
  have "\<exists>w' db'. write_all ps w1 db1 = Inr (w', db') \<and> writer_at k w' db' \<and>
    log_of k db' = log_of k db1 @ (if pw_started w1 \<or> ps = [] then payload ps else STX # payload ps) \<and>
    set ids \<inter> set (map ch_ID (ld_chunks db')) = {} \<and> (\<forall>k'. k' \<noteq> k \<longrightarrow> log_of k' db' = log_of k' db1)"
  proof (rule Cons.IH [OF w1])
    show "\<forall>(_, p) \<in> set ps. section_ok p" using Cons.prems(2) by simp
    show "length (log_of k db1) + length (payload ps) + (if pw_started w1 then 0 else 1) < 2147483648"
      using Cons.prems(1,3) put(2) a by (auto simp: payload_def data_def w1_def split: if_splits)
    show "distinct (chunk_ids ps @ ids)" using Cons.prems(4) by (auto simp: chunk_ids_def)
    show "set (chunk_ids ps @ ids) \<inter> set (map ch_ID (ld_chunks db1)) = {}"
    proof -
      have "NewTfeID rnd ChunkKind \<notin> set (chunk_ids ps @ ids)"
        using Cons.prems(4) a by (simp add: chunk_ids_def)
      moreover have "set (chunk_ids ps @ ids) \<inter> set (map ch_ID (ld_chunks db)) = {}"
        using Cons.prems(5) a by (auto simp: chunk_ids_def)
      ultimately show ?thesis using put(4) by blast
    qed
  qed
  then show ?case using wr put(2,5) a by (auto simp: payload_def w1_def data_def)
qed

lemma write_stream_ok:
  assumes "filter (chunk_of k) (ld_chunks db) = []" "ld_logs db k = None"
    and "\<forall>(_, p) \<in> set ps. section_ok p" "length (payload ps) < 2147483647"
    and "distinct (chunk_ids ps @ [NewTfeID rnd ChunkKind])"
    and "set (chunk_ids ps @ [NewTfeID rnd ChunkKind]) \<inter> set (map ch_ID (ld_chunks db)) = {}"
  shows "\<exists>db'. write_stream (fst k) (snd k) ps rnd db = Inr db' \<and> log_closed k db' \<and>
    log_of k db' = STX # payload ps @ [ETX] \<and> (\<forall>k'. k' \<noteq> k \<longrightarrow> log_of k' db' = log_of k' db)"
proof -
  have empty: "log_of k db = []" using assms(1,2) by (simp add: log_of_def string_agg_def)
  have "writer_at k (NewPhaseWriter (fst k) (snd k)) db"
    using assms(1,2) empty by (simp add: writer_at_def NewPhaseWriter_def log_open_def)
  from write_all_ok [OF this assms(3) _ assms(5,6)] assms(4) empty
  obtain w db1 where w: "write_all ps (NewPhaseWriter (fst k) (snd k)) db = Inr (w, db1)" "writer_at k w db1"
    "log_of k db1 = (if ps = [] then [] else STX # payload ps)"
    "NewTfeID rnd ChunkKind \<notin> set (map ch_ID (ld_chunks db1))" "\<forall>k'. k' \<noteq> k \<longrightarrow> log_of k' db1 = log_of k' db"
    by (auto simp: NewPhaseWriter_def payload_def)
  let ?opts = "\<lparr>pc_RunID = pw_runID w, pc_Phase = pw_phase w, pc_Offset = pw_offset w,
    pc_Data = (if pw_started w then [ETX] else [STX, ETX])\<rparr>"
  have at: "pw_runID w = fst k" "pw_phase w = snd k" "log_open k db1" "pw_offset w = int (length (log_of k db1))"
    "pw_started w \<longleftrightarrow> ps \<noteq> []"
    using w(2,3) by (auto simp: writer_at_def)
  have "length (log_of k db1) < 2147483648" using w(3) assms(4) by simp
  from Service_PutChunk_appends [of k db1 ?opts rnd, OF _ _ _ _ _ this w(4)] at obtain db2 where
    "Service_PutChunk rnd ?opts db1 = Inr db2" "log_of k db2 = log_of k db1 @ pc_Data ?opts" "log_closed k db2"
    "\<forall>k'. k' \<noteq> k \<longrightarrow> log_of k' db2 = log_of k' db1"
    by auto
  with w(1,3,5) at(5) show ?thesis
    by (auto simp: write_stream_def Writer_Close_def payload_def)
qed

section \<open>Tailing\<close>

lemma Cut_rest:
  assumes "ch_Offset c < offset" "offset < NextOffset c"
  shows "Cut offset 0 c = Inr (c\<lparr>ch_Data := drop (nat (offset - ch_Offset c)) (ch_Data c), ch_Offset := offset\<rparr>)"
  using assms by (auto simp: Cut_def NextOffset_def Let_def)

text \<open>
  Of contiguous chunks, none but the last of which ends the log, exactly the bytes from the offset on
  are relayed.
\<close>

lemma relay_contiguous:
  assumes "contiguous n cs" "\<forall>c \<in> set cs. ch_RunID c = rid \<and> ch_Phase c = Some ph"
    and "\<forall>c \<in> set (butlast cs). \<not> IsEnd c"
  shows "\<exists>out. relay_events rid ph offset cs = Inr out \<and> data_of out = drop (nat (offset - n)) (data_of cs)"
  using assms
proof (induction cs arbitrary: n)
  case Nil
  then show ?case by simp
next
  case (Cons c cs)
  have c: "ch_Offset c = n" "ch_Data c \<noteq> []" "contiguous (NextOffset c) cs" "ch_RunID c = rid" "ch_Phase c = Some ph"
    using Cons.prems by auto
  obtain out where out: "relay_events rid ph offset cs = Inr out"
    "data_of out = drop (nat (offset - NextOffset c)) (data_of cs)"
    using Cons.IH [OF c(3)] Cons.prems(2,3) by (auto split: if_splits)
  have next_off: "NextOffset c = n + int (length (ch_Data c))" using c(1) by (simp add: NextOffset_def)
  consider (skip) "NextOffset c \<le> offset" | (cut) "n < offset" "offset < NextOffset c" | (whole) "offset \<le> n" by linarith
  then show ?case
  proof cases
    case skip
    moreover have "n < offset" using skip next_off c(2) length_greater_0_conv [of "ch_Data c"] by linarith
    moreover have "nat (offset - n) = length (ch_Data c) + nat (offset - NextOffset c)" using skip next_off by simp
    ultimately show ?thesis using out c by simp
  next
    case cut
    let ?d = "drop (nat (offset - n)) (ch_Data c)"
    let ?c = "c\<lparr>ch_Data := ?d, ch_Offset := offset\<rparr>"
    have d: "?d \<noteq> []" "last ?d = last (ch_Data c)" using cut next_off by auto
    have "IsEnd ?c \<longleftrightarrow> IsEnd c" using d c(2) by (simp add: IsEnd_def)
    moreover have "nat (offset - n) \<le> length (ch_Data c)" using cut next_off by simp
    moreover have "IsEnd c \<Longrightarrow> cs = []" using Cons.prems(3) by (auto split: if_splits)
    ultimately show ?thesis
      using out c cut d Cut_rest [of c offset] by (auto simp: next_off)
  next
    case whole
    moreover have "IsEnd c \<Longrightarrow> cs = []" using Cons.prems(3) by (auto split: if_splits)
    moreover have "offset \<le> NextOffset c" using whole next_off by simp
    ultimately show ?thesis using out c by auto
  qed
qed

section \<open>Chunks as Postgres sends them\<close>

definition hex_digit :: "nat \<Rightarrow> char" where
  "hex_digit n = (if n < 10 then char_of (48 + n) else char_of (87 + n))"

definition hex_byte :: "byte \<Rightarrow> string" where
  "hex_byte b = [hex_digit (unat b div 16), hex_digit (unat b mod 16)]"

text \<open>A \<open>bytea\<close> value inside the JSON payload of an event.\<close>

definition postgres_json :: "byte list \<Rightarrow> string" where
  "postgres_json bs = CHR 0x22 # hex_escape @ concat (map hex_byte bs) @ [CHR 0x22]"

lemma hex_digit_code: "n < 16 \<Longrightarrow> of_char (hex_digit n) = (if n < 10 then 48 + n else 87 + n)"
  by (simp add: hex_digit_def)

lemma hex_digit_ok:
  assumes "n < 16"
  shows "hex_val (hex_digit n) = Some (of_nat n) \<and> hex_digit n \<noteq> CHR 0x22"
proof -
  have "(of_char (hex_digit n) :: nat) \<noteq> of_char (CHR 0x22)" using hex_digit_code [OF assms] by simp
  moreover have "hex_val (hex_digit n) = Some (of_nat n)"
    using assms by (simp add: hex_val_def Let_def hex_digit_code)
  ultimately show ?thesis by metis
qed

lemma hex_byte_ok:
  obtains x y where "hex_byte b = [x, y]" "hex_val x = Some (of_nat (unat b div 16))"
    "hex_val y = Some (of_nat (unat b mod 16))" "x \<noteq> CHR 0x22" "y \<noteq> CHR 0x22"
proof -
  have "unat b < 256" using unsigned_less [of b, where 'a = nat] by simp
  then have "unat b div 16 < 16" "unat b mod 16 < 16" by auto
  with hex_digit_ok that show ?thesis by (simp add: hex_byte_def)
qed

lemma hex_Decode_bytes: "hex_Decode (concat (map hex_byte bs)) = Inr bs"
proof (induction bs)
  case (Cons b bs)
  obtain x y where x: "hex_byte b = [x, y]" "hex_val x = Some (of_nat (unat b div 16))"
    "hex_val y = Some (of_nat (unat b mod 16))" by (rule hex_byte_ok [of b])
  have "16 * of_nat (unat b div 16) + of_nat (unat b mod 16) = (of_nat (16 * (unat b div 16) + unat b mod 16) :: byte)"
    by (simp only: of_nat_add of_nat_mult of_nat_numeral)
  also have "\<dots> = b" by simp
  finally show ?case using x Cons by simp
qed simp

lemma hex_no_quote: "CHR 0x22 \<notin> set (concat (map hex_byte bs))"
proof (induction bs)
  case (Cons b bs)
  then show ?case using hex_byte_ok [of b] by (metis UnE concat.simps(2) empty_iff empty_set list.simps(9) set_ConsD set_append)
qed simp

lemma trim_quotes_inside:
  assumes "CHR 0x22 \<notin> set s" "s \<noteq> []"
  shows "trim_quotes (CHR 0x22 # s @ [CHR 0x22]) = s"
proof -
  have d: "dropWhile (\<lambda>c. c = CHR 0x22) t = t" if "CHR 0x22 \<notin> set t" for t :: string
    using that by (cases t) auto
  have "dropWhile (\<lambda>c. c = CHR 0x22) (s @ [CHR 0x22]) = s @ [CHR 0x22]" using assms by (cases s) auto
  with d [of "rev s"] assms(1) show ?thesis by (simp add: trim_quotes_def Let_def)
qed

section \<open>Properties\<close>


definition demo_sections :: "((nat \<Rightarrow> nat) \<times> byte list) list" where
  "demo_sections = [(\<lambda>_. 1, [104, 105]), (\<lambda>_. 2, [33])]"



definition demo_chunk :: "int \<Rightarrow> byte list \<Rightarrow> Chunk" where
  "demo_chunk off d = \<lparr>ch_ID = zero_id, ch_RunID = zero_id, ch_Phase = Some PlanPhase, ch_Offset = off, ch_Data = d\<rparr>"


text \<open>
  Log data in an event is decoded to the bytes that were stored: the JSON form of a \<open>bytea\<close> value is
  read back as itself, also when it is empty.
\<close>

theorem UnmarshalJSON_postgres: "UnmarshalJSON (postgres_json bs) = Inr bs"
proof -
  have q: "CHR 0x22 \<notin> set (hex_escape @ concat (map hex_byte bs))"
    using hex_no_quote by (auto simp: hex_escape_def)
  have "trim_quotes (postgres_json bs) = hex_escape @ concat (map hex_byte bs)"
    using trim_quotes_inside [OF q] by (simp add: postgres_json_def hex_escape_def)
  then show ?thesis by (simp add: UnmarshalJSON_def Let_def hex_escape_def hex_Decode_bytes)
qed

text \<open>
  Output whose last byte is the end marker ends the log: the chunks are coalesced although the
  writer has not been closed, and closing it fails, because the phase already has a log.
\<close>

theorem end_marker_in_output:
  assumes "writer_at k w db" "p \<noteq> []" "last p = ETX" "length (log_of k db) < 2147483648"
    and "NewTfeID rnd ChunkKind \<notin> set (map ch_ID (ld_chunks db))"
  shows "\<exists>w' db'. Writer_Write (Service_PutChunk rnd) p w db = (w', db', Inr (length p)) \<and> log_closed k db' \<and>
    (\<forall>rnd'. \<not> is_ok (Writer_Close (Service_PutChunk rnd') w' db'))"
proof -
  define data where "data = (if pw_started w then p else STX # p)"
  let ?opts = "\<lparr>pc_RunID = pw_runID w, pc_Phase = pw_phase w, pc_Offset = pw_offset w, pc_Data = data\<rparr>"
  have at: "pw_runID w = fst k" "pw_phase w = snd k" "log_open k db" "pw_offset w = int (length (log_of k db))"
    using assms(1) by (simp_all add: writer_at_def)
  have "data \<noteq> []" "last data = ETX" using assms(2,3) by (simp_all add: data_def)
  with Service_PutChunk_appends [of k db ?opts rnd] at assms(4,5) obtain db' where
    put: "Service_PutChunk rnd ?opts db = Inr db'" "log_closed k db'" by auto
  define w' where "w' = w\<lparr>pw_started := True, pw_offset := pw_offset w + int (length data)\<rparr>"
  have "Writer_Write (Service_PutChunk rnd) p w db = (w', db', Inr (length p))"
    using put(1) by (simp add: Writer_Write_def w'_def data_def)
  moreover have "\<not> is_ok (Writer_Close (Service_PutChunk rnd') w' db')" for rnd'
    using put(2) at(1,2)
    by (simp add: Writer_Close_def w'_def Service_PutChunk_def newChunk_def putChunk_def Let_def IsEnd_def log_closed_def)
  ultimately show ?thesis using put(2) by blast
qed

lemma end_marker_in_output_witness:
  "\<exists>w' db'. Writer_Write (Service_PutChunk (\<lambda>_. 1)) [3] (NewPhaseWriter zero_id PlanPhase)
     \<lparr>ld_chunks = [], ld_logs = Map.empty\<rparr> = (w', db', Inr 1) \<and>
     \<not> is_ok (Writer_Close (Service_PutChunk (\<lambda>_. 2)) w' db')"
proof -
  let ?db = "\<lparr>ld_chunks = [], ld_logs = Map.empty\<rparr> :: log_db"
  have "writer_at (zero_id, PlanPhase) (NewPhaseWriter zero_id PlanPhase) ?db"
    by (simp add: writer_at_def NewPhaseWriter_def log_open_def log_of_def string_agg_def)
  from end_marker_in_output [OF this, of "[3]" "\<lambda>_. 1"] show ?thesis
    by (auto simp: ETX_def log_of_def string_agg_def)
qed

end
