(* ===== verification/Reports.thy ===== *)
theory Reports
  imports Run "HOL-Library.Multiset"
begin

text \<open>
  Reports of changes: tallying the actions of a plan file (\<open>internal/run/plan_file.go\<close>) and reading the
  summary line of an apply log (\<open>internal/run/parse_apply_output.go\<close>).
\<close>

section \<open>Plan files (plan\_file.go)\<close>

text \<open>A change action is any string; three of them count.\<close>

type_synonym ChangeAction = string

definition act_create :: ChangeAction where "act_create = ''create''"
definition act_update :: ChangeAction where "act_update = ''update''"
definition act_delete :: ChangeAction where "act_delete = ''delete''"

record Change =
  chg_Actions :: "ChangeAction list"

text \<open>The outputs are a map, iterated in any order: a list of its entries.\<close>

record PlanFile =
  pf_ResourceChanges :: "Change list"
  pf_OutputChanges :: "(string \<times> Change) list"

definition count_action :: "ChangeAction \<Rightarrow> Report \<Rightarrow> Report" where
  "count_action a r =
     (if a = act_create then r\<lparr>Additions := Additions r + 1\<rparr>
      else if a = act_update then r\<lparr>Changes := Changes r + 1\<rparr>
      else if a = act_delete then r\<lparr>Destructions := Destructions r + 1\<rparr>
      else r)"

definition tally :: "Change list \<Rightarrow> Report \<Rightarrow> Report" where
  "tally cs r = fold (\<lambda>c. fold count_action (chg_Actions c)) cs r"

definition Summarize :: "PlanFile \<Rightarrow> Report \<times> Report" where
  "Summarize pf = (tally (pf_ResourceChanges pf) Report_zero, tally (map snd (pf_OutputChanges pf)) Report_zero)"

text \<open>Decoding the JSON is the argument \<open>decode\<close>.\<close>

definition CompilePlanReports :: "('json \<Rightarrow> PlanFile result) \<Rightarrow> 'json \<Rightarrow> (Report \<times> Report) result" where
  "CompilePlanReports decode planJSON =
     (case decode planJSON of Inl e \<Rightarrow> Inl e | Inr pf \<Rightarrow> Inr (Summarize pf))"

section \<open>Apply logs (parse\_apply\_output.go)\<close>

definition is_digit :: "char \<Rightarrow> bool" where
  "is_digit c \<longleftrightarrow> (48 \<le> (of_char c :: nat) \<and> (of_char c :: nat) \<le> 57)"

definition digit_val :: "char \<Rightarrow> nat" where
  "digit_val c = of_char c - 48"

definition nat_of_digits :: "string \<Rightarrow> nat" where
  "nat_of_digits ds = foldl (\<lambda>n c. 10 * n + digit_val c) 0 ds"

text \<open>\<open>strconv.ParseInt(s, 10, 0)\<close> on a string of digits.\<close>

definition ParseInt :: "string \<Rightarrow> int result" where
  "ParseInt ds =
     (if int (nat_of_digits ds) > 2 ^ 63 - 1 then Inl (Errorf ''strconv.ParseInt: value out of range'')
      else Inr (int (nat_of_digits ds)))"

text \<open>
  The pieces of the regular expression: a literal, and one or more digits. No digit can be part of
  what follows, so that greedy matching needs no backtracking.
\<close>

definition match_lit :: "string \<Rightarrow> string \<Rightarrow> string option" where
  "match_lit lit s = (if take (length lit) s = lit then Some (drop (length lit) s) else None)"

definition match_digits :: "string \<Rightarrow> (string \<times> string) option" where
  "match_digits s =
     (let ds = takeWhile is_digit s in if ds = [] then None else Some (ds, dropWhile is_digit s))"

definition summary_lit :: string where "summary_lit = ''Apply complete! Resources: ''"

definition match_summary :: "string \<Rightarrow> (string \<times> string \<times> string) option" where
  "match_summary s =
     (case match_lit summary_lit s of None \<Rightarrow> None | Some s1 \<Rightarrow>
     (case match_digits s1 of None \<Rightarrow> None | Some (a, s2) \<Rightarrow>
     (case match_lit '' added, '' s2 of None \<Rightarrow> None | Some s3 \<Rightarrow>
     (case match_digits s3 of None \<Rightarrow> None | Some (c, s4) \<Rightarrow>
     (case match_lit '' changed, '' s4 of None \<Rightarrow> None | Some s5 \<Rightarrow>
     (case match_digits s5 of None \<Rightarrow> None | Some (d, s6) \<Rightarrow>
     (case match_lit '' destroyed'' s6 of None \<Rightarrow> None | Some s7 \<Rightarrow>
        (case s7 of [] \<Rightarrow> None | x # _ \<Rightarrow> if x = CHR 0x0A then None else Some (a, c, d)))))))))"

text \<open>The leftmost match at the beginning of a line.\<close>

fun find_summary :: "bool \<Rightarrow> string \<Rightarrow> (string \<times> string \<times> string) option" where
  "find_summary bol [] = None"
| "find_summary bol (x # xs) =
     (case (if bol then match_summary (x # xs) else None) of
        Some m \<Rightarrow> Some m
      | None \<Rightarrow> find_summary (x = CHR 0x0A) xs)"

definition ParseApplyOutput :: "string \<Rightarrow> Report result" where
  "ParseApplyOutput output =
     (case find_summary True output of
        None \<Rightarrow> Inl (Errorf ''regexes unexpectedly did not match apply output'')
      | Some (a, c, d) \<Rightarrow>
          (case ParseInt a of Inl e \<Rightarrow> Inl e | Inr adds \<Rightarrow>
          (case ParseInt c of Inl e \<Rightarrow> Inl e | Inr changes \<Rightarrow>
          (case ParseInt d of Inl e \<Rightarrow> Inl e | Inr deletions \<Rightarrow>
             Inr \<lparr>Additions = adds, Changes = changes, Destructions = deletions\<rparr>))))"

section \<open>Tallies\<close>

definition actions_of :: "Change list \<Rightarrow> ChangeAction multiset" where
  "actions_of cs = mset (concat (map chg_Actions cs))"

definition report_of :: "ChangeAction multiset \<Rightarrow> Report" where
  "report_of as = \<lparr>Additions = int (count as act_create), Changes = int (count as act_update),
     Destructions = int (count as act_delete)\<rparr>"

lemma act_distinct [simp]:
  "act_create \<noteq> act_update" "act_update \<noteq> act_create" "act_create \<noteq> act_delete"
  "act_delete \<noteq> act_create" "act_update \<noteq> act_delete" "act_delete \<noteq> act_update"
  by (simp_all add: act_create_def act_update_def act_delete_def)

lemma fold_count_action:
  "fold count_action as (report_of m) = report_of (m + mset as)"
proof (induction as arbitrary: m)
  case (Cons a as)
  have "count_action a (report_of m) = report_of (add_mset a m)"
    by (auto simp: count_action_def report_of_def)
  with Cons show ?case by simp
qed simp

lemma tally_report_of: "tally cs (report_of m) = report_of (m + actions_of cs)"
  by (induction cs arbitrary: m) (simp_all add: tally_def fold_count_action actions_of_def ac_simps)

lemma report_of_empty: "report_of {#} = Report_zero"
  by (simp add: report_of_def Report_zero_def)

lemma tally_zero: "tally cs Report_zero = report_of (actions_of cs)"
  using tally_report_of [of cs "{#}"] by (simp add: report_of_empty)

lemma in_actions_of: "a \<in># actions_of cs \<longleftrightarrow> (\<exists>c \<in> set cs. a \<in> set (chg_Actions c))"
  by (simp add: actions_of_def)

lemma HasChanges_report_of:
  "Report_HasChanges (report_of m) \<longleftrightarrow> act_create \<in># m \<or> act_update \<in># m \<or> act_delete \<in># m"
  unfolding Report_HasChanges_def report_of_def Report_zero_def by (simp add: not_in_iff [symmetric])

lemma actions_of_perm:
  fixes xs ys :: "(string \<times> Change) list"
  assumes "mset xs = mset ys"
  shows "actions_of (map snd xs) = actions_of (map snd ys)"
proof -
  have "actions_of (map snd zs) = \<Sum>\<^sub># (image_mset (\<lambda>p. mset (chg_Actions (snd p))) (mset zs))"
    for zs :: "(string \<times> Change) list"
    by (induction zs) (simp_all add: actions_of_def)
  with assms show ?thesis by simp
qed

section \<open>Decimal numbers\<close>

fun dec :: "nat \<Rightarrow> string" where
  "dec n = (if n < 10 then [char_of (48 + n)] else dec (n div 10) @ [char_of (48 + n mod 10)])"

declare dec.simps [simp del]

lemma digit_char: "n < 10 \<Longrightarrow> is_digit (char_of (48 + n)) \<and> digit_val (char_of (48 + n)) = n"
  by (simp add: is_digit_def digit_val_def)

lemma dec_digits: "\<forall>c \<in> set (dec n). is_digit c"
proof (induction n rule: dec.induct)
  case (1 n)
  then show ?case using digit_char [of n] digit_char [of "n mod 10"] by (subst dec.simps) auto
qed

lemma dec_not_Nil [simp]: "dec n \<noteq> []"
  by (subst dec.simps) simp

lemma nat_of_dec [simp]: "nat_of_digits (dec n) = n"
proof (induction n rule: dec.induct)
  case (1 n)
  then show ?case
    using digit_char [of n] digit_char [of "n mod 10"] by (subst dec.simps) (auto simp: nat_of_digits_def)
qed

section \<open>Matching\<close>

lemma match_lit_app [simp]: "match_lit lit (lit @ s) = Some s"
  by (simp add: match_lit_def)

lemma match_digits_dec: "s = [] \<or> \<not> is_digit (hd s) \<Longrightarrow> match_digits (dec n @ s) = Some (dec n, s)"
proof -
  assume s: "s = [] \<or> \<not> is_digit (hd s)"
  have "takeWhile is_digit s = []" "dropWhile is_digit s = s" using s by (cases s; simp)+
  then show ?thesis using dec_digits [of n] by (simp add: match_digits_def Let_def takeWhile_append2 dropWhile_append2)
qed

definition summary_line :: "nat \<Rightarrow> nat \<Rightarrow> nat \<Rightarrow> string" where
  "summary_line a c d =
     summary_lit @ dec a @ '' added, '' @ dec c @ '' changed, '' @ dec d @ '' destroyed.''"

lemma match_summary_line: "match_summary (summary_line a c d @ s) = Some (dec a, dec c, dec d)"
proof -
  have d: "\<not> is_digit (CHR '' '')" by (simp add: is_digit_def)
  have m: "match_digits (dec n @ CHR '' '' # t) = Some (dec n, CHR '' '' # t)" for n t
    by (rule match_digits_dec) (simp add: d)
  have "match_lit '' added, '' (CHR '' '' # ''added, '' @ t) = Some t"
    "match_lit '' changed, '' (CHR '' '' # ''changed, '' @ t) = Some t"
    "match_lit '' destroyed'' (CHR '' '' # ''destroyed'' @ t) = Some t" for t
    by (simp_all add: match_lit_def)
  note l = this
  show ?thesis
    using m [of a "''added, '' @ dec c @ '' changed, '' @ dec d @ '' destroyed.'' @ s"]
      m [of c "''changed, '' @ dec d @ '' destroyed.'' @ s"] m [of d "''destroyed.'' @ s"]
      l(1) [of "dec c @ '' changed, '' @ dec d @ '' destroyed.'' @ s"] l(2) [of "dec d @ '' destroyed.'' @ s"]
      l(3) [of "CHR ''.'' # s"]
    by (simp add: match_summary_def summary_line_def)
qed

text \<open>Lines before the summary that do not begin like it.\<close>

definition plain_line :: "string \<Rightarrow> bool" where
  "plain_line l \<longleftrightarrow> CHR 0x0A \<notin> set l \<and> take (length summary_lit) l \<noteq> summary_lit"

lemma plain_no_match:
  assumes "plain_line l"
  shows "match_summary (l @ CHR 0x0A # s) = None"
proof -
  have nl: "CHR 0x0A \<notin> set summary_lit" by (simp add: summary_lit_def)
  have "take (length summary_lit) (l @ CHR 0x0A # s) \<noteq> summary_lit"
  proof (cases "length summary_lit \<le> length l")
    case True
    with assms show ?thesis by (simp add: plain_line_def)
  next
    case False
    then have "CHR 0x0A \<in> set (take (length summary_lit) (l @ CHR 0x0A # s))" by (simp add: take_Cons')
    with nl show ?thesis by metis
  qed
  then show ?thesis by (simp add: match_summary_def match_lit_def)
qed

lemma find_summary_rest: "CHR 0x0A \<notin> set l \<Longrightarrow> find_summary False (l @ CHR 0x0A # s) = find_summary True s"
  by (induction l) auto

lemma find_summary_skip: "plain_line l \<Longrightarrow> find_summary True (l @ CHR 0x0A # s) = find_summary True s"
proof (cases l)
  case Nil
  assume "plain_line l"
  with Nil plain_no_match [of l s] show ?thesis by simp
next
  case (Cons x xs)
  assume "plain_line l"
  then have "x \<noteq> CHR 0x0A" "CHR 0x0A \<notin> set xs" "match_summary (l @ CHR 0x0A # s) = None"
    using Cons plain_no_match [of l s] by (auto simp: plain_line_def)
  with Cons find_summary_rest [of xs s] show ?thesis by simp
qed

lemma find_summary_lines:
  "\<forall>l \<in> set ls. plain_line l \<Longrightarrow> find_summary True (concat (map (\<lambda>l. l @ [CHR 0x0A]) ls) @ s) = find_summary True s"
  by (induction ls) (simp_all add: find_summary_skip)

section \<open>Properties\<close>

text \<open>
  The report of a plan is the count of its create, update and delete actions, a replacement counting
  as both of its actions, and does not depend on the order in which the map of outputs is iterated. A
  report says that there are changes exactly when one of these actions occurs.
\<close>

theorem Summarize_counts:
  "Summarize pf = (report_of (actions_of (pf_ResourceChanges pf)), report_of (actions_of (map snd (pf_OutputChanges pf)))) \<and>
   (mset (pf_OutputChanges pf') = mset (pf_OutputChanges pf) \<and> pf_ResourceChanges pf' = pf_ResourceChanges pf \<longrightarrow>
      Summarize pf' = Summarize pf) \<and>
   (Report_HasChanges (fst (Summarize pf)) \<longleftrightarrow>
      (\<exists>c \<in> set (pf_ResourceChanges pf). \<exists>a \<in> set (chg_Actions c). a \<in> {act_create, act_update, act_delete}))"
proof -
  have sum: "Summarize q = (report_of (actions_of (pf_ResourceChanges q)), report_of (actions_of (map snd (pf_OutputChanges q))))" for q
    by (simp add: Summarize_def tally_zero)
  moreover have "Summarize pf' = Summarize pf"
    if "mset (pf_OutputChanges pf') = mset (pf_OutputChanges pf)" "pf_ResourceChanges pf' = pf_ResourceChanges pf"
    using actions_of_perm [OF that(1)] that(2) by (simp add: sum)
  moreover have "Report_HasChanges (fst (Summarize pf)) \<longleftrightarrow>
      (\<exists>c \<in> set (pf_ResourceChanges pf). \<exists>a \<in> set (chg_Actions c). a \<in> {act_create, act_update, act_delete})"
    by (simp only: sum fst_conv HasChanges_report_of in_actions_of) blast
  ultimately show ?thesis by blast
qed

definition demo_plan :: "(string \<times> Change) list \<Rightarrow> PlanFile" where
  "demo_plan outs = \<lparr>pf_ResourceChanges = [\<lparr>chg_Actions = [act_delete, act_create]\<rparr>, \<lparr>chg_Actions = [''no-op'']\<rparr>],
     pf_OutputChanges = outs\<rparr>"

lemma Summarize_counts_witness:
  "Summarize (demo_plan [(''a'', \<lparr>chg_Actions = [act_create]\<rparr>), (''b'', \<lparr>chg_Actions = []\<rparr>)]) =
   Summarize (demo_plan [(''b'', \<lparr>chg_Actions = []\<rparr>), (''a'', \<lparr>chg_Actions = [act_create]\<rparr>)])"
  using Summarize_counts [of "demo_plan [(''b'', \<lparr>chg_Actions = []\<rparr>), (''a'', \<lparr>chg_Actions = [act_create]\<rparr>)]"
      "demo_plan [(''a'', \<lparr>chg_Actions = [act_create]\<rparr>), (''b'', \<lparr>chg_Actions = []\<rparr>)]"]
  by (simp add: demo_plan_def)

text \<open>
  The summary line of an apply is read back: whatever the numbers up to the limit of 64-bit integers,
  whatever lines come before it that do not begin like it, and whatever comes after.
\<close>

theorem ParseApplyOutput_summary:
  assumes "\<forall>l \<in> set ls. plain_line l" "a < 2 ^ 63" "c < 2 ^ 63" "d < 2 ^ 63"
  shows "ParseApplyOutput (concat (map (\<lambda>l. l @ [CHR 0x0A]) ls) @ summary_line a c d @ rest) =
    Inr \<lparr>Additions = int a, Changes = int c, Destructions = int d\<rparr>"
proof -
  have "find_summary True (summary_line a c d @ rest) = Some (dec a, dec c, dec d)"
    using match_summary_line [of a c d rest] by (cases "summary_line a c d @ rest") (simp_all add: match_summary_def match_lit_def summary_lit_def)
  then show ?thesis
    using assms by (simp add: ParseApplyOutput_def find_summary_lines ParseInt_def)
qed

lemma ParseApplyOutput_summary_witness:
  "ParseApplyOutput (concat (map (\<lambda>l. l @ [CHR 0x0A]) [''aws: creating'']) @ summary_line 3 0 12 @ '' Done'') =
    Inr \<lparr>Additions = 3, Changes = 0, Destructions = 12\<rparr>"
  using ParseApplyOutput_summary [of "[''aws: creating'']" 3 0 12 "'' Done''"]
  by (simp add: plain_line_def summary_lit_def)

end
