(* ===== verification/Variable.thy ===== *)
theory Variable
  imports Run RunLogs "HOL-Library.AList" "HOL-Library.Sublist" "HOL-Library.List_Lexorder" "HOL-Library.Char_ord"
begin

text \<open>
  Variables and variable sets (\<open>internal/variable/variable.go\<close>, \<open>set.go\<close>, \<open>category.go\<close>): construction
  and update of a variable, the merge of the variables of a run by precedence, and the file
  terraform.tfvars that is written for a run. Strings are byte strings, so that \<open>length\<close> is Go's \<open>len\<close>.
\<close>

section \<open>Data\<close>

type_synonym VariableCategory = string

definition CategoryTerraform :: VariableCategory where "CategoryTerraform = ''terraform''"
definition CategoryEnv :: VariableCategory where "CategoryEnv = ''env''"

record Variable =
  var_ID :: TfeID
  var_Key :: string
  var_Value :: string
  var_Description :: string
  var_Category :: VariableCategory
  var_Sensitive :: bool
  var_HCL :: bool
  var_ParentID :: TfeID
  var_VersionID :: string

text \<open>The options of creation and of update have the same fields; \<open>vo_generateVersion\<close> is what the given generator returns.\<close>

record CreateVariableOptions =
  vo_Key :: "string option"
  vo_Value :: "string option"
  vo_Description :: "string option"
  vo_Category :: "VariableCategory option"
  vo_Sensitive :: "bool option"
  vo_HCL :: "bool option"
  vo_generateVersion :: "string option"

type_synonym UpdateVariableOptions = CreateVariableOptions

record VariableSet =
  vs_ID :: TfeID
  vs_Name :: string
  vs_Description :: string
  vs_Global :: bool
  vs_Workspaces :: "TfeID list"
  vs_Organization :: string
  vs_Variables :: "Variable list"

section \<open>Trimming white space\<close>

text \<open>
  \<open>strings.TrimSpace\<close> on UTF-8: the encodings of the white space code points. An encoding starts with
  a byte that is no continuation byte, so that decoding at either end is matching a prefix or a suffix.
\<close>

definition space_runes :: "string list" where
  "space_runes =
     map (\<lambda>c. [c]) [CHR 0x09, CHR 0x0A, CHR 0x0B, CHR 0x0C, CHR 0x0D, CHR 0x20] @
     [[CHR 0xC2, CHR 0x85], [CHR 0xC2, CHR 0xA0], [CHR 0xE1, CHR 0x9A, CHR 0x80],
      [CHR 0xE2, CHR 0x80, CHR 0xA8], [CHR 0xE2, CHR 0x80, CHR 0xA9], [CHR 0xE2, CHR 0x80, CHR 0xAF],
      [CHR 0xE2, CHR 0x81, CHR 0x9F], [CHR 0xE3, CHR 0x80, CHR 0x80]] @
     map (\<lambda>c. [CHR 0xE2, CHR 0x80, c])
       [CHR 0x80, CHR 0x81, CHR 0x82, CHR 0x83, CHR 0x84, CHR 0x85, CHR 0x86, CHR 0x87, CHR 0x88,
        CHR 0x89, CHR 0x8A]"

lemma space_runes_nonempty: "w \<in> set space_runes \<Longrightarrow> w \<noteq> []"
  by (auto simp: space_runes_def)

lemma find_space_prefix:
  "find_first (\<lambda>w. prefix w s) space_runes = Some w \<Longrightarrow> w \<in> set space_runes \<and> prefix w s \<and> w \<noteq> [] \<and> length w \<le> length s"
  by (drule find_first_SomeD) (simp add: space_runes_nonempty prefix_length_le)

lemma find_space_suffix:
  "find_first (\<lambda>w. suffix w s) space_runes = Some w \<Longrightarrow> w \<in> set space_runes \<and> suffix w s \<and> w \<noteq> [] \<and> length w \<le> length s"
  by (drule find_first_SomeD) (simp add: space_runes_nonempty suffix_length_le)

function trim_left :: "string \<Rightarrow> string" where
  "trim_left s =
     (case find_first (\<lambda>w. prefix w s) space_runes of
        None \<Rightarrow> s | Some w \<Rightarrow> trim_left (drop (length w) s))"
  by pat_completeness auto
termination
  by (relation "measure length") (auto dest!: find_space_prefix intro!: diff_less)

function trim_right :: "string \<Rightarrow> string" where
  "trim_right s =
     (case find_first (\<lambda>w. suffix w s) space_runes of
        None \<Rightarrow> s | Some w \<Rightarrow> trim_right (take (length s - length w) s))"
  by pat_completeness auto
termination
  by (relation "measure length") (auto dest!: find_space_suffix intro!: diff_less)

declare trim_left.simps [simp del] trim_right.simps [simp del]

definition TrimSpace :: "string \<Rightarrow> string" where
  "TrimSpace s = trim_right (trim_left s)"

section \<open>Construction and update\<close>

definition VariableDescriptionMaxChars :: nat where "VariableDescriptionMaxChars = 512"
definition VariableKeyMaxChars :: nat where "VariableKeyMaxChars = 128"
definition VariableValueMaxKB :: nat where "VariableValueMaxKB = 256"

definition setKey :: "string \<Rightarrow> Variable \<Rightarrow> Variable result" where
  "setKey key v =
     (if length key > VariableKeyMaxChars then Inl (Errorf ''maximum variable key size exceeded'')
      else Inr (v\<lparr>var_Key := TrimSpace key\<rparr>))"

definition setValue :: "string \<Rightarrow> Variable \<Rightarrow> Variable result" where
  "setValue value v =
     (if length value > VariableValueMaxKB * 1024 then Inl (Errorf ''maximum variable value size exceeded'')
      else Inr (v\<lparr>var_Value := TrimSpace value\<rparr>))"

definition setDescription :: "string \<Rightarrow> Variable \<Rightarrow> Variable result" where
  "setDescription desc v =
     (if length desc > VariableDescriptionMaxChars
      then Inl (Errorf ''maximum variable description size exceeded'')
      else Inr (v\<lparr>var_Description := desc\<rparr>))"

definition setCategory :: "VariableCategory \<Rightarrow> Variable \<Rightarrow> Variable result" where
  "setCategory cat v =
     (if cat \<noteq> CategoryEnv \<and> cat \<noteq> CategoryTerraform then Inl (Errorf ''invalid variable category'')
      else Inr (v\<lparr>var_Category := cat\<rparr>))"

definition setSensitive :: "bool \<Rightarrow> Variable \<Rightarrow> Variable result" where
  "setSensitive sensitive v =
     (if var_Sensitive v \<and> \<not> sensitive
      then Inl (Errorf ''cannot change a sensitive variable to a non-sensitive variable'')
      else Inr (v\<lparr>var_Sensitive := sensitive\<rparr>))"

text \<open>An optional field is set when it is given.\<close>

definition when_given :: "'a option \<Rightarrow> ('a \<Rightarrow> 'b \<Rightarrow> 'b result) \<Rightarrow> 'b \<Rightarrow> 'b result" where
  "when_given x f v = (case x of None \<Rightarrow> Inr v | Some y \<Rightarrow> f y v)"

definition versionGenerator :: "(nat \<Rightarrow> byte) \<Rightarrow> string" where
  "versionGenerator rnd = concat (map (\<lambda>i. hex_byte (rnd i)) [0..<32])"

definition newVersion :: "(nat \<Rightarrow> byte) \<Rightarrow> string option \<Rightarrow> string" where
  "newVersion rnd given = (case given of None \<Rightarrow> versionGenerator rnd | Some version \<Rightarrow> version)"

definition newVariable ::
  "(nat \<Rightarrow> nat) \<Rightarrow> (nat \<Rightarrow> byte) \<Rightarrow> TfeID \<Rightarrow> CreateVariableOptions \<Rightarrow> Variable result" where
  "newVariable rnd vrnd parentID opts =
     (let v0 = \<lparr>var_ID = NewTfeID rnd VariableKind, var_Key = [], var_Value = [], var_Description = [],
                var_Category = [], var_Sensitive = False, var_HCL = False, var_ParentID = parentID,
                var_VersionID = newVersion vrnd (vo_generateVersion opts)\<rparr>
      in case vo_Key opts of None \<Rightarrow> Inl (Errorf ''missing key'') | Some key \<Rightarrow>
        (case setKey key v0 of Inl e \<Rightarrow> Inl e | Inr v1 \<Rightarrow>
        (case vo_Category opts of None \<Rightarrow> Inl (Errorf ''missing category'') | Some cat \<Rightarrow>
        (case setCategory cat v1 of Inl e \<Rightarrow> Inl e | Inr v2 \<Rightarrow>
        (case when_given (vo_Value opts) setValue v2 of Inl e \<Rightarrow> Inl e | Inr v3 \<Rightarrow>
        (case when_given (vo_Description opts) setDescription v3 of Inl e \<Rightarrow> Inl e | Inr v4 \<Rightarrow>
           Inr (v4\<lparr>var_Sensitive := (case vo_Sensitive opts of None \<Rightarrow> var_Sensitive v4 | Some b \<Rightarrow> b),
                    var_HCL := (case vo_HCL opts of None \<Rightarrow> var_HCL v4 | Some b \<Rightarrow> b)\<rparr>)))))))"

definition update_key :: "string \<Rightarrow> Variable \<Rightarrow> Variable result" where
  "update_key key v =
     (if var_Sensitive v then Inl (Errorf ''changing the key of a sensitive variable is not allowed'')
      else setKey key v)"

definition update_hcl :: "bool \<Rightarrow> Variable \<Rightarrow> Variable result" where
  "update_hcl hcl v =
     (if var_HCL v \<noteq> hcl \<and> var_Sensitive v
      then Inl (Errorf ''changing HCL mode on a sensitive variable is not allowed'')
      else Inr (v\<lparr>var_HCL := hcl\<rparr>))"

definition Variable_update :: "(nat \<Rightarrow> byte) \<Rightarrow> UpdateVariableOptions \<Rightarrow> Variable \<Rightarrow> Variable result" where
  "Variable_update vrnd opts v =
     (case when_given (vo_Key opts) update_key v of Inl e \<Rightarrow> Inl e | Inr v1 \<Rightarrow>
     (case when_given (vo_Value opts) setValue v1 of Inl e \<Rightarrow> Inl e | Inr v2 \<Rightarrow>
     (case when_given (vo_Description opts) setDescription v2 of Inl e \<Rightarrow> Inl e | Inr v3 \<Rightarrow>
     (case when_given (vo_Category opts) setCategory v3 of Inl e \<Rightarrow> Inl e | Inr v4 \<Rightarrow>
     (case when_given (vo_HCL opts) update_hcl v4 of Inl e \<Rightarrow> Inl e | Inr v5 \<Rightarrow>
     (case when_given (vo_Sensitive opts) setSensitive v5 of Inl e \<Rightarrow> Inl e | Inr v6 \<Rightarrow>
        Inr (v6\<lparr>var_VersionID := newVersion vrnd (vo_generateVersion opts)\<rparr>)))))))"

definition Matches :: "Variable \<Rightarrow> Variable list \<Rightarrow> bool" where
  "Matches v vars = list_ex (\<lambda>v2. var_ID v = var_ID v2) vars"

section \<open>The file terraform.tfvars\<close>

text \<open>\<open>strings.Contains\<close> is \<open>sublist\<close>. The loop lengthens the delimiter until it does not occur.\<close>

lemma sublist_longer: "length s < length d \<Longrightarrow> \<not> sublist d s"
  using sublist_length_le by fastforce

function delimiter_loop :: "string \<Rightarrow> string \<Rightarrow> string" where
  "delimiter_loop value delimiter =
     (if sublist delimiter value then delimiter_loop value (delimiter @ ''T'') else delimiter)"
  by pat_completeness auto
termination
  by (relation "measure (\<lambda>(v, d). Suc (length v) - length d)") (auto dest: sublist_length_le)

declare delimiter_loop.simps [simp del]

definition tfvars_value :: "Variable \<Rightarrow> string" where
  "tfvars_value v =
     (if var_HCL v then var_Value v
      else if CHR 0x0A \<in> set (var_Value v)
      then let delimiter = delimiter_loop (var_Value v) ''EOT''
           in ''<<'' @ delimiter @ [CHR 0x0A] @ var_Value v @ [CHR 0x0A] @ delimiter
      else [CHR 0x22] @ var_Value v @ [CHR 0x22])"

definition tfvars_line :: "Variable \<Rightarrow> string" where
  "tfvars_line v =
     (if var_Category v = CategoryTerraform
      then var_Key v @ '' = '' @ tfvars_value v @ [CHR 0x0A] else [])"

text \<open>The content of the file after the call, given its content before (empty when it is created).\<close>

definition WriteTerraformVars :: "string \<Rightarrow> Variable list \<Rightarrow> string" where
  "WriteTerraformVars content vars = content @ [CHR 0x0A] @ concat (map tfvars_line vars)"

section \<open>Precedence\<close>

text \<open>
  The two maps of \<open>Merge\<close> are association lists; Go returns their values in an arbitrary order, for
  which the order of insertion stands, and its sort of sets with equal names is arbitrary too, for
  which the stable sort stands.
\<close>

type_synonym var_maps = "(string \<times> Variable) list \<times> (string \<times> Variable) list"

definition add_variable :: "Variable \<Rightarrow> var_maps \<Rightarrow> var_maps" where
  "add_variable v m =
     (if var_Category v = CategoryTerraform then (AList.update (var_Key v) v (fst m), snd m)
      else if var_Category v = CategoryEnv then (fst m, AList.update (var_Key v) v (snd m))
      else m)"

definition add_sets :: "VariableSet list \<Rightarrow> var_maps \<Rightarrow> var_maps" where
  "add_sets sets m = fold (\<lambda>s. fold add_variable (vs_Variables s)) sets m"

definition run_variable :: "Run_Variable \<Rightarrow> Variable" where
  "run_variable rv =
     \<lparr>var_ID = zero_id, var_Key = rv_Key rv, var_Value = rv_Value rv, var_Description = [],
      var_Category = CategoryTerraform, var_Sensitive = False, var_HCL = True, var_ParentID = zero_id,
      var_VersionID = []\<rparr>"

definition Merge :: "VariableSet list \<Rightarrow> Variable list \<Rightarrow> Run option \<Rightarrow> Variable list" where
  "Merge workspaceSets workspaceVariables run =
     (let m1 = add_sets (filter vs_Global workspaceSets) ([], []);
          sorted = rev (sort_key vs_Name workspaceSets);
          m2 = add_sets (filter (\<lambda>s. \<not> vs_Global s) sorted) m1;
          m3 = fold add_variable workspaceVariables m2;
          m4 = (case run of None \<Rightarrow> m3
                | Some r \<Rightarrow> (fold (\<lambda>rv. AList.update (rv_Key rv) (run_variable rv)) (run_Variables r) (fst m3), snd m3))
      in map snd (fst m4) @ map snd (snd m4))"

section \<open>Lemmas: trimming\<close>

lemma trim_left_no_space: "w \<in> set space_runes \<Longrightarrow> \<not> prefix w (trim_left s)"
proof (induction s rule: trim_left.induct)
  case (1 s)
  then show ?case
    by (subst trim_left.simps) (auto split: option.splits simp: find_first_None_iff)
qed

lemma trim_right_no_space: "w \<in> set space_runes \<Longrightarrow> \<not> suffix w (trim_right s)"
proof (induction s rule: trim_right.induct)
  case (1 s)
  then show ?case
    by (subst trim_right.simps) (auto split: option.splits simp: find_first_None_iff)
qed

lemma trim_left_suffix: "suffix (trim_left s) s"
proof (induction s rule: trim_left.induct)
  case (1 s)
  then show ?case
    by (subst trim_left.simps) (auto split: option.splits intro: suffix_order.trans suffix_drop)
qed

lemma trim_right_prefix: "prefix (trim_right s) s"
proof (induction s rule: trim_right.induct)
  case (1 s)
  then show ?case
    by (subst trim_right.simps) (auto split: option.splits intro: prefix_order.trans take_is_prefix)
qed

lemma trim_left_id: "(\<And>w. w \<in> set space_runes \<Longrightarrow> \<not> prefix w s) \<Longrightarrow> trim_left s = s"
  by (subst trim_left.simps) (auto split: option.splits dest: find_first_SomeD)

lemma trim_right_id: "(\<And>w. w \<in> set space_runes \<Longrightarrow> \<not> suffix w s) \<Longrightarrow> trim_right s = s"
  by (subst trim_right.simps) (auto split: option.splits dest: find_first_SomeD)

lemma TrimSpace_no_space:
  assumes "w \<in> set space_runes"
  shows "\<not> prefix w (TrimSpace s)" "\<not> suffix w (TrimSpace s)"
  using trim_left_no_space [OF assms, of s] prefix_order.trans [OF _ trim_right_prefix [of "trim_left s"], of w]
    trim_right_no_space [OF assms]
  by (auto simp: TrimSpace_def)

lemma TrimSpace_idem [simp]: "TrimSpace (TrimSpace s) = TrimSpace s"
  using TrimSpace_no_space [of _ s]
  by (subst (1) TrimSpace_def) (simp add: trim_left_id trim_right_id)

lemma TrimSpace_Nil [simp]: "TrimSpace [] = []"
  by (simp add: TrimSpace_def trim_left_id trim_right_id space_runes_nonempty)

lemma length_TrimSpace: "length (TrimSpace s) \<le> length s"
  unfolding TrimSpace_def
  using prefix_length_le [OF trim_right_prefix] suffix_length_le [OF trim_left_suffix] by (rule le_trans)

section \<open>Lemmas: well-formed variables\<close>

text \<open>What every stored variable satisfies.\<close>

definition variable_wf :: "Variable \<Rightarrow> bool" where
  "variable_wf v \<longleftrightarrow>
     length (var_Key v) \<le> 128 \<and> TrimSpace (var_Key v) = var_Key v \<and>
     length (var_Value v) \<le> 262144 \<and> TrimSpace (var_Value v) = var_Value v \<and>
     length (var_Description v) \<le> 512 \<and> var_Category v \<in> {CategoryTerraform, CategoryEnv}"

lemmas setter_defs =
  setKey_def setValue_def setDescription_def setCategory_def setSensitive_def update_key_def
  update_hcl_def VariableDescriptionMaxChars_def VariableKeyMaxChars_def VariableValueMaxKB_def

lemma setters_wf:
  assumes "variable_wf v"
  shows "setKey x v = Inr v' \<Longrightarrow> variable_wf v'" "setValue x v = Inr v' \<Longrightarrow> variable_wf v'"
    "setDescription x v = Inr v' \<Longrightarrow> variable_wf v'" "setCategory x v = Inr v' \<Longrightarrow> variable_wf v'"
    "setSensitive b v = Inr v' \<Longrightarrow> variable_wf v'" "update_key x v = Inr v' \<Longrightarrow> variable_wf v'"
    "update_hcl b v = Inr v' \<Longrightarrow> variable_wf v'"
  using assms length_TrimSpace [of x]
  by (auto simp: setter_defs variable_wf_def split: if_splits)

lemma when_given_keeps:
  "when_given x f v = Inr v' \<Longrightarrow> P v \<Longrightarrow> (\<And>y u u'. f y u = Inr u' \<Longrightarrow> P u \<Longrightarrow> P u') \<Longrightarrow> P v'"
  by (auto simp: when_given_def split: option.splits)

lemma newVariable_wf: "newVariable rnd vrnd pid opts = Inr v \<Longrightarrow> variable_wf v"
proof -
  assume new: "newVariable rnd vrnd pid opts = Inr v"
  then obtain key cat v0 v1 v2 v3 v4 where steps:
      "setKey key v0 = Inr v1" "setCategory cat v1 = Inr v2"
      "when_given (vo_Value opts) setValue v2 = Inr v3"
      "when_given (vo_Description opts) setDescription v3 = Inr v4"
      "var_Value v0 = []" "var_Description v0 = []"
      "v = v4\<lparr>var_Sensitive := var_Sensitive v, var_HCL := var_HCL v\<rparr>"
    by (auto simp: newVariable_def Let_def split: option.splits sum.splits)
  then have "variable_wf v2"
    using length_TrimSpace [of key] by (auto simp: setter_defs variable_wf_def split: if_splits)
  then have "variable_wf v4"
    using when_given_keeps [OF steps(3), of variable_wf] when_given_keeps [OF steps(4), of variable_wf]
      setters_wf(2,3) by blast
  then have "variable_wf (v4\<lparr>var_Sensitive := var_Sensitive v, var_HCL := var_HCL v\<rparr>)"
    by (simp add: variable_wf_def)
  with steps(7) show ?thesis by simp
qed

lemma newVariable_parent: "newVariable rnd vrnd pid opts = Inr v \<Longrightarrow> var_ParentID v = pid"
  by (auto simp: newVariable_def Let_def when_given_def setter_defs split: option.splits sum.splits if_splits)

lemma Variable_update_steps:
  assumes "Variable_update vrnd opts v = Inr v'"
  obtains v1 v2 v3 v4 v5 v6 where
    "when_given (vo_Key opts) update_key v = Inr v1" "when_given (vo_Value opts) setValue v1 = Inr v2"
    "when_given (vo_Description opts) setDescription v2 = Inr v3"
    "when_given (vo_Category opts) setCategory v3 = Inr v4"
    "when_given (vo_HCL opts) update_hcl v4 = Inr v5"
    "when_given (vo_Sensitive opts) setSensitive v5 = Inr v6"
    "v' = v6\<lparr>var_VersionID := newVersion vrnd (vo_generateVersion opts)\<rparr>"
  using assms by (auto simp: Variable_update_def split: sum.splits)

text \<open>A property that every setter keeps, and that does not depend on the version, is kept by an update.\<close>

lemma Variable_update_keeps:
  assumes "Variable_update vrnd opts v = Inr v'" "P v"
    and "\<And>x u u'. P u \<Longrightarrow> update_key x u = Inr u' \<or> setValue x u = Inr u' \<or> setDescription x u = Inr u' \<or>
      setCategory x u = Inr u' \<Longrightarrow> P u'"
    and "\<And>b u u'. P u \<Longrightarrow> update_hcl b u = Inr u' \<or> setSensitive b u = Inr u' \<Longrightarrow> P u'"
    and "\<And>u x. P u \<Longrightarrow> P (u\<lparr>var_VersionID := x\<rparr>)"
  shows "P v'"
proof -
  obtain v1 v2 v3 v4 v5 v6 where steps:
    "when_given (vo_Key opts) update_key v = Inr v1" "when_given (vo_Value opts) setValue v1 = Inr v2"
    "when_given (vo_Description opts) setDescription v2 = Inr v3"
    "when_given (vo_Category opts) setCategory v3 = Inr v4"
    "when_given (vo_HCL opts) update_hcl v4 = Inr v5"
    "when_given (vo_Sensitive opts) setSensitive v5 = Inr v6"
    "v' = v6\<lparr>var_VersionID := newVersion vrnd (vo_generateVersion opts)\<rparr>"
    using Variable_update_steps [OF assms(1)] by metis
  note keep = when_given_keeps [where P = P]
  have "P v1" using keep [OF steps(1) assms(2)] assms(3) by blast
  then have "P v2" using keep [OF steps(2)] assms(3) by blast
  then have "P v3" using keep [OF steps(3)] assms(3) by blast
  then have "P v4" using keep [OF steps(4)] assms(3) by blast
  then have "P v5" using keep [OF steps(5)] assms(4) by blast
  then have "P v6" using keep [OF steps(6)] assms(4) by blast
  with steps(7) assms(5) show ?thesis by blast
qed

lemma Variable_update_wf:
  assumes "Variable_update vrnd opts v = Inr v'" "variable_wf v"
  shows "variable_wf v'"
proof (rule Variable_update_keeps [OF assms(1), where P = variable_wf, OF assms(2)])
  fix x u u'
  assume "variable_wf u" "update_key x u = Inr u' \<or> setValue x u = Inr u' \<or> setDescription x u = Inr u' \<or>
    setCategory x u = Inr u'"
  then show "variable_wf u'" using setters_wf(2,3,4,6) [of u x u'] by auto
next
  fix b u u'
  assume "variable_wf u" "update_hcl b u = Inr u' \<or> setSensitive b u = Inr u'"
  then show "variable_wf u'" using setters_wf(5,7) [of u b u'] by auto
qed (simp add: variable_wf_def)

lemma Variable_update_frame:
  assumes "Variable_update vrnd opts v = Inr v'"
  shows "var_ID v' = var_ID v \<and> var_ParentID v' = var_ParentID v"
  by (rule Variable_update_keeps [OF assms, where P = "\<lambda>u. var_ID u = var_ID v \<and> var_ParentID u = var_ParentID v"])
    (auto simp: setter_defs split: if_splits)

lemma Variable_update_sensitive:
  assumes "Variable_update vrnd opts v = Inr v'" "var_Sensitive v"
  shows "var_Sensitive v' \<and> var_Key v' = var_Key v \<and> var_HCL v' = var_HCL v"
  by (rule Variable_update_keeps [OF assms(1),
        where P = "\<lambda>u. var_Sensitive u \<and> var_Key u = var_Key v \<and> var_HCL u = var_HCL v"])
    (auto simp: setter_defs assms(2) split: if_splits)

section \<open>Lemmas: heredocs\<close>

lemma delimiter_loop_spec:
  "\<exists>n. delimiter_loop value d = d @ replicate n CHR ''T'' \<and>
     \<not> sublist (d @ replicate n CHR ''T'') value \<and> (\<forall>m < n. sublist (d @ replicate m CHR ''T'') value)"
proof (induction "value" d rule: delimiter_loop.induct)
  case (1 "value" d)
  show ?case
  proof (cases "sublist d value")
    case True
    with 1 obtain n where n: "delimiter_loop value (d @ ''T'') = d @ replicate (Suc n) CHR ''T''"
        "\<not> sublist (d @ replicate (Suc n) CHR ''T'') value"
        "\<forall>m < n. sublist (d @ replicate (Suc m) CHR ''T'') value"
      by auto
    with True have "\<forall>m < Suc n. sublist (d @ replicate m CHR ''T'') value"
      by (auto simp: less_Suc_eq_0_disj)
    with n True show ?thesis
      by (subst delimiter_loop.simps) (intro exI [of _ "Suc n"], simp)
  next
    case False
    then show ?thesis
      by (subst delimiter_loop.simps) (intro exI [of _ 0], simp)
  qed
qed

text \<open>
  A heredoc as HCL reads it: the body is the lines up to the first line that, leading blanks aside,
  is the delimiter.
\<close>

definition skip_blanks :: "string \<Rightarrow> string" where
  "skip_blanks l = dropWhile (\<lambda>c. c = CHR 0x20 \<or> c = CHR 0x09) l"

fun read_heredoc :: "string \<Rightarrow> string list \<Rightarrow> (string list \<times> string list) option" where
  "read_heredoc d [] = None"
| "read_heredoc d (l # ls) =
     (if skip_blanks l = d then Some ([], ls)
      else map_option (\<lambda>(body, rest). (l # body, rest)) (read_heredoc d ls))"

lemma split_on_app: "split_on c (xs @ c # ys) = split_on c xs @ split_on c ys"
  by (induction xs) (auto split: list.splits)

lemma split_on_sublist: "l \<in> set (split_on c xs) \<Longrightarrow> sublist l xs"
proof (induction xs arbitrary: l)
  case Nil
  then show ?case by simp
next
  case (Cons x xs)
  obtain p ps where eq: "split_on c xs = p # ps"
    by (cases "split_on c xs") auto
  have pre: "prefix p xs"
    using eq
  proof (induction xs arbitrary: p ps)
    case (Cons y ys)
    then show ?case by (auto split: if_splits list.splits)
  qed simp
  show ?case
    using Cons eq pre by (auto split: if_splits intro: sublist_Cons_right [THEN iffD2])
qed

lemma read_heredoc_body:
  "\<forall>l \<in> set body. skip_blanks l \<noteq> d \<Longrightarrow> skip_blanks d = d \<Longrightarrow>
     read_heredoc d (body @ d # rest) = Some (body, rest)"
  by (induction body) auto

lemma skip_blanks_sublist: "sublist (skip_blanks l) l"
  unfolding skip_blanks_def by (intro suffix_imp_sublist suffix_dropWhile)

section \<open>Lemmas: merging\<close>

definition sets_var :: "VariableCategory \<Rightarrow> string \<Rightarrow> Variable \<Rightarrow> bool" where
  "sets_var c k v \<longleftrightarrow> var_Category v = c \<and> var_Key v = k"

definition map_ok :: "VariableCategory \<Rightarrow> (string \<times> Variable) list \<Rightarrow> bool" where
  "map_ok c al \<longleftrightarrow> distinct (map fst al) \<and> (\<forall>p \<in> set al. sets_var c (fst p) (snd p))"

definition maps_ok :: "var_maps \<Rightarrow> bool" where
  "maps_ok m \<longleftrightarrow> map_ok CategoryTerraform (fst m) \<and> map_ok CategoryEnv (snd m)"

definition maps_lookup :: "VariableCategory \<Rightarrow> var_maps \<Rightarrow> string \<Rightarrow> Variable option" where
  "maps_lookup c m = map_of (if c = CategoryTerraform then fst m else snd m)"

lemma category_distinct [simp]: "CategoryTerraform \<noteq> CategoryEnv" "CategoryEnv \<noteq> CategoryTerraform"
  by (simp_all add: CategoryTerraform_def CategoryEnv_def)

lemma set_update: "p \<in> set (AList.update k v al) \<Longrightarrow> p = (k, v) \<or> p \<in> set al"
  by (induction al) (auto split: if_splits)

lemma map_ok_update: "map_ok c al \<Longrightarrow> sets_var c k v \<Longrightarrow> map_ok c (AList.update k v al)"
  unfolding map_ok_def by (auto simp: distinct_update dest!: set_update)

lemma add_variable_ok: "maps_ok m \<Longrightarrow> maps_ok (add_variable v m)"
  by (auto simp: maps_ok_def add_variable_def sets_var_def intro!: map_ok_update)

lemma add_variable_lookup:
  "c \<in> {CategoryTerraform, CategoryEnv} \<Longrightarrow>
     maps_lookup c (add_variable v m) k = (if sets_var c k v then Some v else maps_lookup c m k)"
  by (auto simp: maps_lookup_def add_variable_def sets_var_def update_conv')

lemma fold_add_ok: "maps_ok m \<Longrightarrow> maps_ok (fold add_variable vs m)"
  by (induction vs arbitrary: m) (simp_all add: add_variable_ok)

lemma fold_add_lookup:
  assumes "c \<in> {CategoryTerraform, CategoryEnv}"
  shows "maps_lookup c (fold add_variable vs m) k =
    (case find_first (sets_var c k) (rev vs) of None \<Rightarrow> maps_lookup c m k | Some v \<Rightarrow> Some v)"
  by (induction vs arbitrary: m)
    (simp_all add: add_variable_lookup [OF assms] find_first_append split: option.splits)

text \<open>The order in which \<open>Merge\<close> adds variables, each overriding the ones before it.\<close>

definition merge_order :: "VariableSet list \<Rightarrow> Variable list \<Rightarrow> Run_Variable list \<Rightarrow> Variable list" where
  "merge_order sets vars rvs =
     concat (map vs_Variables (filter vs_Global sets)) @
     concat (map vs_Variables (rev (sort_key vs_Name (filter (\<lambda>s. \<not> vs_Global s) sets)))) @
     vars @ map run_variable rvs"

lemma add_sets_fold: "add_sets sets m = fold add_variable (concat (map vs_Variables sets)) m"
  by (induction sets arbitrary: m) (simp_all add: add_sets_def)

lemma add_run_variables:
  "(fold (\<lambda>rv. AList.update (rv_Key rv) (run_variable rv)) rvs (fst m), snd m) =
     fold add_variable (map run_variable rvs) m"
proof (induction rvs arbitrary: m)
  case (Cons rv rvs)
  show ?case
    using Cons [of "add_variable (run_variable rv) m"]
    by (simp add: add_variable_def run_variable_def)
qed simp

definition run_vars :: "Run option \<Rightarrow> Run_Variable list" where
  "run_vars run = (case run of None \<Rightarrow> [] | Some r \<Rightarrow> run_Variables r)"

lemma Merge_fold:
  "Merge sets vars run =
     (let m = fold add_variable (merge_order sets vars (run_vars run)) ([], [])
      in map snd (fst m) @ map snd (snd m))"
proof (cases run)
  case None
  then show ?thesis
    by (simp add: Merge_def Let_def add_sets_fold merge_order_def filter_sort run_vars_def
        flip: rev_filter)
next
  case (Some r)
  then show ?thesis
    by (simp add: Merge_def Let_def add_sets_fold merge_order_def filter_sort run_vars_def
        add_run_variables flip: rev_filter)
qed

lemma map_ok_values:
  assumes "map_ok c al"
  shows "v \<in> snd ` set al \<longleftrightarrow> map_of al (var_Key v) = Some v"
    and "v \<in> snd ` set al \<Longrightarrow> var_Category v = c"
  using assms by (force simp: map_ok_def sets_var_def map_of_eq_Some_iff)+

lemma maps_values:
  assumes "maps_ok m" "c \<in> {CategoryTerraform, CategoryEnv}"
  shows "v \<in> set (map snd (fst m) @ map snd (snd m)) \<and> sets_var c k v \<longleftrightarrow>
    maps_lookup c m k = Some v"
proof -
  have tf: "map_ok CategoryTerraform (fst m)" and env: "map_ok CategoryEnv (snd m)"
    using assms(1) by (auto simp: maps_ok_def)
  have "sets_var CategoryTerraform k v" if "map_of (fst m) k = Some v" for k
    using tf map_of_SomeD [OF that] by (auto simp: map_ok_def)
  moreover have "sets_var CategoryEnv k v" if "map_of (snd m) k = Some v" for k
    using env map_of_SomeD [OF that] by (auto simp: map_ok_def)
  moreover note tfv = map_ok_values [OF tf, of v] and envv = map_ok_values [OF env, of v]
  ultimately show ?thesis
  proof (cases "c = CategoryTerraform")
    case True
    then have "v \<in> snd ` set (snd m) \<Longrightarrow> \<not> sets_var c k v"
      using envv(2) by (auto simp: sets_var_def)
    then show ?thesis
      using True tfv(1) \<open>\<And>k. map_of (fst m) k = Some v \<Longrightarrow> _\<close> by (auto simp: maps_lookup_def sets_var_def)
  next
    case False
    then have "v \<in> snd ` set (fst m) \<Longrightarrow> \<not> sets_var c k v" and c: "c = CategoryEnv"
      using tfv(2) assms(2) by (auto simp: sets_var_def)
    then show ?thesis
      using envv(1) \<open>\<And>k. map_of (snd m) k = Some v \<Longrightarrow> _\<close> by (auto simp: maps_lookup_def sets_var_def)
  qed
qed

lemma map_ok_distinct:
  assumes "map_ok c al"
  shows "distinct (map var_Key (map snd al)) \<and> (\<forall>v \<in> set (map snd al). var_Category v = c)"
proof -
  have "map (var_Key \<circ> snd) al = map fst al"
    using assms by (auto simp: map_ok_def sets_var_def)
  moreover have "\<forall>v \<in> set (map snd al). var_Category v = c"
    using assms by (auto simp: map_ok_def sets_var_def)
  ultimately show ?thesis using assms by (metis map_map map_ok_def)
qed

definition unique_vars :: "Variable list \<Rightarrow> bool" where
  "unique_vars vs \<longleftrightarrow> distinct (map (\<lambda>v. (var_Category v, var_Key v)) vs)"

lemma unique_find:
  assumes "unique_vars vs"
  shows "find_first (sets_var c k) (rev vs) = Some v \<longleftrightarrow> v \<in> set vs \<and> sets_var c k v"
proof
  assume "find_first (sets_var c k) (rev vs) = Some v"
  then show "v \<in> set vs \<and> sets_var c k v" by (auto dest: find_first_SomeD)
next
  assume v: "v \<in> set vs \<and> sets_var c k v"
  then obtain w where w: "find_first (sets_var c k) (rev vs) = Some w"
    by (cases "find_first (sets_var c k) (rev vs)") (auto simp: find_first_None_iff)
  with v assms have "w = v"
    by (auto simp: unique_vars_def distinct_map inj_on_def sets_var_def dest: find_first_SomeD)
  with w show "find_first (sets_var c k) (rev vs) = Some v" by simp
qed

lemma find_first_concat:
  "find_first P (concat xss) =
     (case find_first (\<lambda>xs. list_ex P xs) xss of None \<Rightarrow> None | Some xs \<Rightarrow> find_first P xs)"
proof (induction xss)
  case (Cons xs xss)
  have "find_first P xs = None \<longleftrightarrow> \<not> list_ex P xs"
    by (auto simp: find_first_None_iff list_ex_iff)
  with Cons show ?case by (auto simp: find_first_append split: option.splits)
qed simp

lemma sorted_find_first:
  assumes "sorted (map f xs)" "find_first Q xs = Some x" "y \<in> set xs" "Q y"
  shows "f x \<le> f y"
  using assms by (induction xs) (auto split: if_splits)

text \<open>
  The documented precedence: run variables, then workspace variables, then the workspace's sets, of
  which the one with the lexically least name wins, then global sets.
\<close>

definition set_has :: "VariableCategory \<Rightarrow> string \<Rightarrow> VariableSet \<Rightarrow> bool" where
  "set_has c k s \<longleftrightarrow> (\<exists>v \<in> set (vs_Variables s). sets_var c k v)"

definition takes_effect ::
  "VariableSet list \<Rightarrow> Variable list \<Rightarrow> Run_Variable list \<Rightarrow> VariableCategory \<Rightarrow> string \<Rightarrow> Variable \<Rightarrow> bool" where
  "takes_effect sets vars rvs c k v \<longleftrightarrow>
     (if c = CategoryTerraform \<and> filter (\<lambda>r. rv_Key r = k) rvs \<noteq> []
      then v = run_variable (last (filter (\<lambda>r. rv_Key r = k) rvs))
      else sets_var c k v \<and>
        (if \<exists>w \<in> set vars. sets_var c k w then v \<in> set vars
         else if \<exists>s \<in> set sets. \<not> vs_Global s \<and> set_has c k s
         then \<exists>s \<in> set sets. \<not> vs_Global s \<and> v \<in> set (vs_Variables s) \<and>
                (\<forall>s' \<in> set sets. \<not> vs_Global s' \<and> set_has c k s' \<longrightarrow> vs_Name s \<le> vs_Name s')
         else \<exists>s \<in> set sets. vs_Global s \<and> v \<in> set (vs_Variables s)))"

lemma find_last_run_variable:
  "find_first (sets_var c k) (rev (map run_variable rvs)) =
     (if c = CategoryTerraform \<and> filter (\<lambda>r. rv_Key r = k) rvs \<noteq> []
      then Some (run_variable (last (filter (\<lambda>r. rv_Key r = k) rvs))) else None)"
proof (induction rvs rule: rev_induct)
  case (snoc rv rvs)
  have "sets_var c k (run_variable rv) \<longleftrightarrow> c = CategoryTerraform \<and> rv_Key rv = k"
    by (auto simp: sets_var_def run_variable_def)
  with snoc show ?case by auto
qed simp

lemma find_in_named_sets:
  assumes "\<forall>s \<in> set ss. unique_vars (vs_Variables s)" "distinct (map vs_Name ss)"
  shows "find_first (sets_var c k) (rev (concat (map vs_Variables (rev (sort_key vs_Name ss))))) = Some v \<longleftrightarrow>
    sets_var c k v \<and> (\<exists>s \<in> set ss. v \<in> set (vs_Variables s) \<and>
      (\<forall>s' \<in> set ss. set_has c k s' \<longrightarrow> vs_Name s \<le> vs_Name s'))"
    (is "?find = Some v \<longleftrightarrow> ?spec")
proof -
  let ?sorted = "sort_key vs_Name ss"
  have has: "list_ex (sets_var c k) (vs_Variables s) = set_has c k s" for s
    by (auto simp: set_has_def list_ex_iff)
  have find: "?find = (case find_first (set_has c k) ?sorted of
      None \<Rightarrow> None | Some s \<Rightarrow> find_first (sets_var c k) (rev (vs_Variables s)))"
    by (simp add: rev_concat rev_map comp_def find_first_concat find_first_map has split: option.splits)
  have inj: "s = s'" if "s \<in> set ss" "s' \<in> set ss" "vs_Name s = vs_Name s'" for s s'
    using that assms(2) by (auto simp: distinct_map inj_on_def)
  show ?thesis
  proof (cases "find_first (set_has c k) ?sorted")
    case None
    then have "\<forall>s \<in> set ss. \<not> set_has c k s" by (simp add: find_first_None_iff)
    then show ?thesis using find None by (auto simp: set_has_def)
  next
    case (Some s)
    then have s: "s \<in> set ss" "set_has c k s" by (auto dest: find_first_SomeD)
    have least: "vs_Name s \<le> vs_Name s'" if "s' \<in> set ss" "set_has c k s'" for s'
      using sorted_find_first [of vs_Name ?sorted "set_has c k" s s'] Some that by simp
    have "?find = Some v \<longleftrightarrow> v \<in> set (vs_Variables s) \<and> sets_var c k v"
      using find Some unique_find assms(1) s(1) by simp
    moreover have "s' = s" if "s' \<in> set ss" "v \<in> set (vs_Variables s')" "sets_var c k v"
        "\<forall>s'' \<in> set ss. set_has c k s'' \<longrightarrow> vs_Name s' \<le> vs_Name s''" for s'
      using that s least [of s'] inj [of s' s] by (auto simp: set_has_def intro: antisym)
    ultimately show ?thesis using s(1) least by blast
  qed
qed

lemma find_merge_order:
  assumes "unique_vars vars" "unique_vars (concat (map vs_Variables (filter vs_Global sets)))"
    and "\<forall>s \<in> set sets. unique_vars (vs_Variables s)"
    and "distinct (map vs_Name (filter (\<lambda>s. \<not> vs_Global s) sets))"
    and "c \<in> {CategoryTerraform, CategoryEnv}"
  shows "find_first (sets_var c k) (rev (merge_order sets vars rvs)) = Some v \<longleftrightarrow>
    takes_effect sets vars rvs c k v"
proof -
  let ?named = "filter (\<lambda>s. \<not> vs_Global s) sets"
  note named = find_in_named_sets [of ?named c k, OF _ assms(4)]
  have nonamed: "find_first (sets_var c k) (rev (concat (map vs_Variables (rev (sort_key vs_Name ?named))))) = None
      \<longleftrightarrow> \<not> (\<exists>s \<in> set sets. \<not> vs_Global s \<and> set_has c k s)"
    by (auto simp: find_first_None_iff set_has_def)
  have novars: "find_first (sets_var c k) (rev vars) = None \<longleftrightarrow> \<not> (\<exists>w \<in> set vars. sets_var c k w)"
    by (auto simp: find_first_None_iff)
  show ?thesis
  proof (cases "c = CategoryTerraform \<and> filter (\<lambda>r. rv_Key r = k) rvs \<noteq> []")
    case True
    then show ?thesis
      by (auto simp: merge_order_def find_first_append find_last_run_variable takes_effect_def)
  next
    case norun: False
    have find: "find_first (sets_var c k) (rev (merge_order sets vars rvs)) =
        (case find_first (sets_var c k) (rev vars) of Some v \<Rightarrow> Some v
         | None \<Rightarrow> (case find_first (sets_var c k) (rev (concat (map vs_Variables (rev (sort_key vs_Name ?named))))) of
             Some v \<Rightarrow> Some v
           | None \<Rightarrow> find_first (sets_var c k) (rev (concat (map vs_Variables (filter vs_Global sets))))))"
      unfolding merge_order_def rev_append find_first_append find_last_run_variable if_not_P [OF norun]
      by (simp split: option.splits)
    note eff = takes_effect_def [of sets vars rvs c k v, unfolded if_not_P [OF norun]]
    show ?thesis
    proof (cases "find_first (sets_var c k) (rev vars)")
      case (Some w)
      then have "\<exists>w \<in> set vars. sets_var c k w" using novars by auto
      then show ?thesis
        unfolding find eff using unique_find [OF assms(1), of c k v] Some by auto
    next
      case novar: None
      then have nv: "\<not> (\<exists>w \<in> set vars. sets_var c k w)" using novars by simp
      show ?thesis
      proof (cases "\<exists>s \<in> set sets. \<not> vs_Global s \<and> set_has c k s")
        case True
        then obtain w where w: "find_first (sets_var c k) (rev (concat (map vs_Variables (rev (sort_key vs_Name ?named))))) = Some w"
          using nonamed by auto
        have "Some w = Some v \<longleftrightarrow> sets_var c k v \<and> (\<exists>s \<in> set ?named. v \<in> set (vs_Variables s) \<and>
            (\<forall>s' \<in> set ?named. set_has c k s' \<longrightarrow> vs_Name s \<le> vs_Name s'))"
          unfolding w [symmetric] by (rule named) (use assms(3) in auto)
        then show ?thesis
          unfolding find eff if_not_P [OF nv] if_P [OF True] novar w by auto
      next
        case False
        then show ?thesis
          unfolding find eff if_not_P [OF nv] if_not_P [OF False] novar nonamed [THEN iffD2, OF False]
          using unique_find [OF assms(2), of c k v] by auto
      qed
    qed
  qed
qed

lemma map_ok_unique: "map_ok c al \<Longrightarrow> unique_vars (map snd al) \<and> (\<forall>v \<in> set (map snd al). var_Category v = c)"
  using map_ok_distinct [of c al] unfolding unique_vars_def
  by (auto simp: distinct_map inj_on_def)

lemma unique_vars_append:
  "unique_vars xs \<Longrightarrow> unique_vars ys \<Longrightarrow> \<forall>v \<in> set xs. var_Category v = c \<Longrightarrow>
     \<forall>v \<in> set ys. var_Category v = c' \<Longrightarrow> c \<noteq> c' \<Longrightarrow> unique_vars (xs @ ys)"
  by (fastforce simp: unique_vars_def)

lemma Merge_conditions:
  assumes "unique_vars vars" "unique_vars (concat (map vs_Variables (filter vs_Global sets)))"
    and "\<forall>s \<in> set sets. unique_vars (vs_Variables s)"
    and "distinct (map vs_Name (filter (\<lambda>s. \<not> vs_Global s) sets))"
  shows "unique_vars (Merge sets vars run) \<and>
    (\<forall>c \<in> {CategoryTerraform, CategoryEnv}. \<forall>k v.
       v \<in> set (Merge sets vars run) \<and> sets_var c k v \<longleftrightarrow> takes_effect sets vars (run_vars run) c k v)"
proof -
  let ?m = "fold add_variable (merge_order sets vars (run_vars run)) ([], [])"
  have ok: "maps_ok ?m" by (rule fold_add_ok) (simp add: maps_ok_def map_ok_def)
  have "v \<in> set (Merge sets vars run) \<and> sets_var c k v \<longleftrightarrow> takes_effect sets vars (run_vars run) c k v"
    if c: "c \<in> {CategoryTerraform, CategoryEnv}" for c k v
    using maps_values [OF ok c, of v k] find_merge_order [OF assms c, of k "run_vars run" v]
    by (simp only: Merge_fold Let_def fold_add_lookup [OF c]) (auto simp: maps_lookup_def split: option.splits)
  moreover have "unique_vars (Merge sets vars run)"
    unfolding Merge_fold Let_def
    using ok map_ok_unique unique_vars_append [where c = CategoryTerraform and c' = CategoryEnv]
    by (auto simp: maps_ok_def)
  ultimately show ?thesis by blast
qed

section \<open>Properties\<close>

text \<open>
  The constraints on a variable: whatever options are given, a new or updated variable has a trimmed
  key of at most 128 bytes, a trimmed value of at most 256 KB, a description of at most 512 bytes and
  one of the two categories; an update keeps identity and parent, and a sensitive variable stays
  sensitive with its key and HCL mode.
\<close>

theorem variable_constraints:
  "(newVariable rnd vrnd pid opts = Inr v \<longrightarrow> variable_wf v \<and> var_ParentID v = pid) \<and>
   (Variable_update vrnd opts v = Inr v' \<longrightarrow>
      (variable_wf v \<longrightarrow> variable_wf v') \<and> var_ID v' = var_ID v \<and> var_ParentID v' = var_ParentID v \<and>
      (var_Sensitive v \<longrightarrow> var_Sensitive v' \<and> var_Key v' = var_Key v \<and> var_HCL v' = var_HCL v))"
  using newVariable_wf [of rnd vrnd pid opts v] newVariable_parent [of rnd vrnd pid opts v]
    Variable_update_wf [of vrnd opts v v'] Variable_update_frame [of vrnd opts v v']
    Variable_update_sensitive [of vrnd opts v v'] by simp

definition demo_var_opts :: CreateVariableOptions where
  "demo_var_opts = \<lparr>vo_Key = Some ''region '', vo_Value = Some ''eu'', vo_Description = None,
     vo_Category = Some CategoryTerraform, vo_Sensitive = Some True, vo_HCL = None,
     vo_generateVersion = Some ''1''\<rparr>"

lemma variable_constraints_witness:
  "\<exists>v v'. newVariable (\<lambda>_. 0) (\<lambda>_. 0) zero_id demo_var_opts = Inr v \<and>
     Variable_update (\<lambda>_. 0) (demo_var_opts\<lparr>vo_Key := None\<rparr>) v = Inr v' \<and> variable_wf v' \<and> var_Sensitive v'"
proof -
  obtain v where v: "newVariable (\<lambda>_. 0) (\<lambda>_. 0) zero_id demo_var_opts = Inr v" "var_Sensitive v"
    by (simp add: newVariable_def demo_var_opts_def setter_defs when_given_def)
  obtain v' where v': "Variable_update (\<lambda>_. 0) (demo_var_opts\<lparr>vo_Key := None\<rparr>) v = Inr v'"
    using v(2) by (simp add: Variable_update_def demo_var_opts_def setter_defs when_given_def)
  show ?thesis
    using v v' variable_constraints [of "\<lambda>_. 0" "\<lambda>_. 0" zero_id demo_var_opts v v']
      variable_constraints [of "\<lambda>_. 0" "\<lambda>_. 0" zero_id "demo_var_opts\<lparr>vo_Key := None\<rparr>" v v'] by blast
qed

text \<open>
  Precedence of variables: when keys are unique within the workspace, within each set and among the
  global sets, and names are unique among the workspace's sets, then the variables of a run are
  exactly the ones that take effect by the documented precedence, each key and category once. The
  order in which sets and variables are listed plays no role.
\<close>

theorem Merge_precedence:
  assumes "unique_vars vars" "unique_vars (concat (map vs_Variables (filter vs_Global sets)))"
    and "\<forall>s \<in> set sets. unique_vars (vs_Variables s)"
    and "distinct (map vs_Name (filter (\<lambda>s. \<not> vs_Global s) sets))"
  shows "unique_vars (Merge sets vars run) \<and>
    (\<forall>c \<in> {CategoryTerraform, CategoryEnv}. \<forall>k v.
       v \<in> set (Merge sets vars run) \<and> sets_var c k v \<longleftrightarrow> takes_effect sets vars (run_vars run) c k v)"
  by (rule Merge_conditions [OF assms])

definition demo_variable :: "string \<Rightarrow> string \<Rightarrow> Variable" where
  "demo_variable key val = (run_variable \<lparr>rv_Key = key, rv_Value = val\<rparr>)\<lparr>var_HCL := False\<rparr>"

definition demo_set :: "string \<Rightarrow> bool \<Rightarrow> Variable list \<Rightarrow> VariableSet" where
  "demo_set name global vars = \<lparr>vs_ID = zero_id, vs_Name = name, vs_Description = [], vs_Global = global,
     vs_Workspaces = [], vs_Organization = ''acme'', vs_Variables = vars\<rparr>"

lemma Merge_precedence_witness:
  "takes_effect [demo_set ''b'' False [demo_variable ''k'' ''1''], demo_set ''a'' False [demo_variable ''k'' ''2''],
      demo_set ''c'' True [demo_variable ''k'' ''3'', demo_variable ''g'' ''4'']]
     [demo_variable ''w'' ''5''] [] CategoryTerraform ''k'' (demo_variable ''k'' ''2'')"
proof -
  let ?sets = "[demo_set ''b'' False [demo_variable ''k'' ''1''], demo_set ''a'' False [demo_variable ''k'' ''2''],
      demo_set ''c'' True [demo_variable ''k'' ''3'', demo_variable ''g'' ''4'']]"
  let ?vars = "[demo_variable ''w'' ''5'']"
  note defs = demo_set_def demo_variable_def run_variable_def unique_vars_def
  have "demo_variable ''k'' ''2'' \<in> set (Merge ?sets ?vars None)"
    by (simp add: Merge_def add_sets_def add_variable_def defs)
  moreover have "sets_var CategoryTerraform ''k'' (demo_variable ''k'' ''2'')"
    by (simp add: sets_var_def defs)
  moreover have "unique_vars ?vars" "unique_vars (concat (map vs_Variables (filter vs_Global ?sets)))"
    "\<forall>s \<in> set ?sets. unique_vars (vs_Variables s)"
    "distinct (map vs_Name (filter (\<lambda>s. \<not> vs_Global s) ?sets))"
    by (simp_all add: defs)
  ultimately show ?thesis
    using Merge_precedence [of ?vars ?sets None] by (auto simp: run_vars_def)
qed

text \<open>
  A value of several lines survives terraform.tfvars: the delimiter that the loop settles on is the
  shortest one of its form that does not occur in the value, and reading the heredoc up to the
  delimiter returns the lines of the value, whatever follows it in the file.
\<close>

theorem tfvars_heredoc:
  assumes "\<not> var_HCL v" "CHR 0x0A \<in> set (var_Value v)"
  shows "\<exists>n. let d = ''EO'' @ replicate (Suc n) CHR ''T'' in
    \<not> sublist d (var_Value v) \<and> (\<forall>m < n. sublist (''EO'' @ replicate (Suc m) CHR ''T'') (var_Value v)) \<and>
    (\<exists>body. tfvars_value v = ''<<'' @ d @ [CHR 0x0A] @ body \<and>
       (\<forall>rest. read_heredoc d (split_on CHR 0x0A (body @ [CHR 0x0A] @ rest)) =
          Some (split_on CHR 0x0A (var_Value v), split_on CHR 0x0A rest)))"
proof -
  obtain n where n: "delimiter_loop (var_Value v) ''EOT'' = ''EO'' @ replicate (Suc n) CHR ''T''"
      "\<not> sublist (''EO'' @ replicate (Suc n) CHR ''T'') (var_Value v)"
      "\<forall>m < n. sublist (''EO'' @ replicate (Suc m) CHR ''T'') (var_Value v)"
    using delimiter_loop_spec [of "var_Value v" "''EOT''"] by auto
  define d where "d = ''EO'' @ replicate (Suc n) CHR ''T''"
  have d: "CHR 0x0A \<notin> set d" "skip_blanks d = d" by (auto simp: d_def skip_blanks_def)
  have "skip_blanks l \<noteq> d" if "l \<in> set (split_on CHR 0x0A (var_Value v))" for l
    using that n(2) skip_blanks_sublist [of l] split_on_sublist d_def sublist_order.order_trans by metis
  then have "read_heredoc d (split_on CHR 0x0A ((var_Value v @ CHR 0x0A # d) @ [CHR 0x0A] @ rest)) =
      Some (split_on CHR 0x0A (var_Value v), split_on CHR 0x0A rest)" for rest
    using read_heredoc_body [OF _ d(2)] d(1) by (simp add: split_on_app split_on_absent)
  moreover have "tfvars_value v = ''<<'' @ d @ [CHR 0x0A] @ (var_Value v @ CHR 0x0A # d)"
    using assms n(1) by (simp add: tfvars_value_def d_def)
  ultimately show ?thesis
    using n unfolding Let_def d_def by (intro exI [of _ n] conjI) blast+
qed

lemma tfvars_heredoc_witness:
  "\<exists>n. let d = ''EO'' @ replicate (Suc n) CHR ''T'' in
    \<not> sublist d (''EOT'' @ [CHR 0x0A] @ ''EOTT'') \<and>
    (\<exists>body. tfvars_value (demo_variable ''k'' (''EOT'' @ [CHR 0x0A] @ ''EOTT'')) = ''<<'' @ d @ [CHR 0x0A] @ body)"
  using tfvars_heredoc [of "demo_variable ''k'' (''EOT'' @ [CHR 0x0A] @ ''EOTT'')"]
  by (auto simp: demo_variable_def run_variable_def Let_def)

end
