(* ===== verification/VariableService.thy ===== *)
theory VariableService
  imports Variable Authz
begin

text \<open>
  The service of variables and variable sets (\<open>internal/variable/service.go\<close>, \<open>db.go\<close>,
  \<open>conflict_checker.go\<close>) over the tables of variables, variable sets and their workspaces. Every write
  happens in a transaction that locks the table of variables, so that an operation maps the database
  to an error or to the new database.
\<close>

section \<open>The tables\<close>

record set_row =
  row_ID :: TfeID
  row_Name :: string
  row_Description :: string
  row_Global :: bool
  row_Organization :: string

record var_db =
  vdb_variables :: "Variable list"
  vdb_sets :: "set_row list"
  vdb_set_workspaces :: "(TfeID \<times> TfeID) list"
  vdb_workspaces :: "(TfeID \<times> string) list"
  vdb_organizations :: "string list"

definition foreign_key_error :: error where
  "foreign_key_error = Errorf ''foreign key violation''"

section \<open>Queries (db.go)\<close>

text \<open>
  The parent of a variable is in one of two columns with a foreign key each; it is one identifier
  here, whose kind tells the column.
\<close>

definition db_createVariable :: "TfeID \<Rightarrow> Variable \<Rightarrow> var_db \<Rightarrow> var_db result" where
  "db_createVariable parentID v db =
     (if tfe_kind parentID \<noteq> WorkspaceKind \<and> tfe_kind parentID \<noteq> VariableSetKind
      then Inl (Errorf ''unsupported variable parent kind'')
      else if var_ID v \<in> set (map var_ID (vdb_variables db)) then Inl ErrResourceAlreadyExists
      else if tfe_kind parentID = WorkspaceKind \<and> parentID \<notin> set (map fst (vdb_workspaces db)) \<or>
              tfe_kind parentID = VariableSetKind \<and> parentID \<notin> set (map row_ID (vdb_sets db)) \<or>
              var_Category v \<notin> {CategoryTerraform, CategoryEnv}
      then Inl foreign_key_error
      else Inr (db\<lparr>vdb_variables := vdb_variables db @ [v\<lparr>var_ParentID := parentID\<rparr>]\<rparr>))"

definition db_listVariables :: "TfeID \<Rightarrow> var_db \<Rightarrow> Variable list result" where
  "db_listVariables parentID db =
     (if tfe_kind parentID = WorkspaceKind \<or> tfe_kind parentID = VariableSetKind
      then Inr (filter (\<lambda>v. var_ParentID v = parentID) (vdb_variables db))
      else Inl (Errorf ''invalid variable parent kind''))"

definition db_listGlobalVariables :: "string \<Rightarrow> var_db \<Rightarrow> Variable list" where
  "db_listGlobalVariables organization db =
     filter (\<lambda>v. list_ex (\<lambda>row. row_ID row = var_ParentID v \<and> row_Global row \<and>
                                row_Organization row = organization) (vdb_sets db)) (vdb_variables db)"

definition db_getVariable :: "TfeID \<Rightarrow> var_db \<Rightarrow> Variable result" where
  "db_getVariable variableID db =
     (case find_first (\<lambda>v. var_ID v = variableID) (vdb_variables db) of
        None \<Rightarrow> Inl ErrResourceNotFound | Some v \<Rightarrow> Inr v)"

definition db_deleteVariable :: "TfeID \<Rightarrow> var_db \<Rightarrow> (var_db \<times> Variable) result" where
  "db_deleteVariable variableID db =
     (case db_getVariable variableID db of Inl e \<Rightarrow> Inl e | Inr v \<Rightarrow>
        Inr (db\<lparr>vdb_variables := filter (\<lambda>v. var_ID v \<noteq> variableID) (vdb_variables db)\<rparr>, v))"

definition db_updateVariable :: "Variable \<Rightarrow> var_db \<Rightarrow> var_db result" where
  "db_updateVariable v db =
     (if var_ID v \<notin> set (map var_ID (vdb_variables db)) then Inl ErrResourceNotFound
      else if var_Category v \<notin> {CategoryTerraform, CategoryEnv} then Inl foreign_key_error
      else Inr (db\<lparr>vdb_variables :=
             map (\<lambda>old. if var_ID old = var_ID v then v\<lparr>var_ParentID := var_ParentID old\<rparr> else old)
               (vdb_variables db)\<rparr>))"

definition db_createVariableSet :: "VariableSet \<Rightarrow> var_db \<Rightarrow> var_db result" where
  "db_createVariableSet s db =
     (if vs_ID s \<in> set (map row_ID (vdb_sets db)) \<or>
         (vs_Organization s, vs_Name s) \<in> set (map (\<lambda>r. (row_Organization r, row_Name r)) (vdb_sets db))
      then Inl ErrResourceAlreadyExists
      else if vs_Organization s \<notin> set (vdb_organizations db) then Inl foreign_key_error
      else Inr (db\<lparr>vdb_sets := vdb_sets db @
             [\<lparr>row_ID = vs_ID s, row_Name = vs_Name s, row_Description = vs_Description s,
               row_Global = vs_Global s, row_Organization = vs_Organization s\<rparr>]\<rparr>))"

text \<open>The scan of a set row leaves the version of its variables out.\<close>

definition scanVariableSet :: "var_db \<Rightarrow> set_row \<Rightarrow> VariableSet" where
  "scanVariableSet db row =
     \<lparr>vs_ID = row_ID row, vs_Name = row_Name row, vs_Description = row_Description row,
      vs_Global = row_Global row,
      vs_Workspaces = map snd (filter (\<lambda>p. fst p = row_ID row) (vdb_set_workspaces db)),
      vs_Organization = row_Organization row,
      vs_Variables = map (\<lambda>v. v\<lparr>var_VersionID := []\<rparr>)
        (filter (\<lambda>v. var_ParentID v = row_ID row) (vdb_variables db))\<rparr>"

definition db_getVariableSet :: "TfeID \<Rightarrow> var_db \<Rightarrow> VariableSet result" where
  "db_getVariableSet setID db =
     (case find_first (\<lambda>row. row_ID row = setID) (vdb_sets db) of
        None \<Rightarrow> Inl ErrResourceNotFound | Some row \<Rightarrow> Inr (scanVariableSet db row))"

definition db_listVariableSets :: "string \<Rightarrow> var_db \<Rightarrow> VariableSet list" where
  "db_listVariableSets organization db =
     map (scanVariableSet db) (filter (\<lambda>row. row_Organization row = organization) (vdb_sets db))"

text \<open>The union of the sets that are applied to the workspace and of the global sets of its organization.\<close>

definition workspace_set :: "TfeID \<Rightarrow> var_db \<Rightarrow> set_row \<Rightarrow> bool" where
  "workspace_set workspaceID db row \<longleftrightarrow>
     (row_ID row, workspaceID) \<in> set (vdb_set_workspaces db) \<or>
     row_Global row \<and> map_of (vdb_workspaces db) workspaceID = Some (row_Organization row)"

definition db_listVariableSetsByWorkspace :: "TfeID \<Rightarrow> var_db \<Rightarrow> VariableSet list" where
  "db_listVariableSetsByWorkspace workspaceID db =
     map (scanVariableSet db) (filter (workspace_set workspaceID db) (vdb_sets db))"

definition db_deleteVariableSet :: "TfeID \<Rightarrow> var_db \<Rightarrow> var_db result" where
  "db_deleteVariableSet setID db =
     (if setID \<notin> set (map row_ID (vdb_sets db)) then Inl ErrResourceNotFound
      else Inr (db\<lparr>vdb_sets := filter (\<lambda>row. row_ID row \<noteq> setID) (vdb_sets db),
                   vdb_variables := filter (\<lambda>v. var_ParentID v \<noteq> setID) (vdb_variables db),
                   vdb_set_workspaces := filter (\<lambda>p. fst p \<noteq> setID) (vdb_set_workspaces db)\<rparr>))"

fun db_createVariableSetWorkspaces :: "TfeID \<Rightarrow> TfeID list \<Rightarrow> var_db \<Rightarrow> var_db result" where
  "db_createVariableSetWorkspaces setID [] db = Inr db"
| "db_createVariableSetWorkspaces setID (wid # wids) db =
     (if (setID, wid) \<in> set (vdb_set_workspaces db) then Inl ErrResourceAlreadyExists
      else if setID \<notin> set (map row_ID (vdb_sets db)) \<or> wid \<notin> set (map fst (vdb_workspaces db))
      then Inl foreign_key_error
      else db_createVariableSetWorkspaces setID wids
             (db\<lparr>vdb_set_workspaces := vdb_set_workspaces db @ [(setID, wid)]\<rparr>))"

fun db_deleteVariableSetWorkspaces :: "TfeID \<Rightarrow> TfeID list \<Rightarrow> var_db \<Rightarrow> var_db result" where
  "db_deleteVariableSetWorkspaces setID [] db = Inr db"
| "db_deleteVariableSetWorkspaces setID (wid # wids) db =
     (if (setID, wid) \<notin> set (vdb_set_workspaces db) then Inl ErrResourceNotFound
      else db_deleteVariableSetWorkspaces setID wids
             (db\<lparr>vdb_set_workspaces := filter (\<lambda>p. p \<noteq> (setID, wid)) (vdb_set_workspaces db)\<rparr>))"

definition db_deleteAllVariableSetWorkspaces :: "TfeID \<Rightarrow> var_db \<Rightarrow> var_db result" where
  "db_deleteAllVariableSetWorkspaces setID db =
     (if list_ex (\<lambda>p. fst p = setID) (vdb_set_workspaces db)
      then Inr (db\<lparr>vdb_set_workspaces := filter (\<lambda>p. fst p \<noteq> setID) (vdb_set_workspaces db)\<rparr>)
      else Inl ErrResourceNotFound)"

definition db_updateVariableSet :: "VariableSet \<Rightarrow> var_db \<Rightarrow> var_db result" where
  "db_updateVariableSet s db =
     (case find_first (\<lambda>row. row_ID row = vs_ID s) (vdb_sets db) of
        None \<Rightarrow> Inl (Wrap ''updating variable set'' ErrResourceNotFound)
      | Some row \<Rightarrow>
          if list_ex (\<lambda>r. row_ID r \<noteq> vs_ID s \<and> row_Organization r = row_Organization row \<and>
                          row_Name r = vs_Name s) (vdb_sets db)
          then Inl (Wrap ''updating variable set'' ErrResourceAlreadyExists)
          else let db1 = db\<lparr>vdb_sets := map (\<lambda>r. if row_ID r = vs_ID s
                       then r\<lparr>row_Global := vs_Global s, row_Name := vs_Name s,
                              row_Description := vs_Description s\<rparr> else r) (vdb_sets db)\<rparr>
               in case (case db_deleteAllVariableSetWorkspaces (vs_ID s) db1 of
                          Inl e \<Rightarrow> if errors_is e ErrResourceNotFound then Inr db1 else Inl e
                        | Inr db2 \<Rightarrow> Inr db2) of
                    Inl e \<Rightarrow> Inl e
                  | Inr db2 \<Rightarrow> db_createVariableSetWorkspaces (vs_ID s) (vs_Workspaces s) db2)"

section \<open>Conflicts (conflict\_checker.go)\<close>

definition checkConflicts :: "Variable \<Rightarrow> Variable list \<Rightarrow> unit result" where
  "checkConflicts v collection =
     (if list_ex (\<lambda>v2. var_ID v \<noteq> var_ID v2 \<and> var_Key v = var_Key v2 \<and>
                       var_Category v = var_Category v2) collection
      then Inl (Errorf ''variable conflicts with another variable with the same name and type'')
      else Inr ())"

definition checkVariable :: "Variable \<Rightarrow> var_db \<Rightarrow> unit result" where
  "checkVariable v db =
     (case (if tfe_kind (var_ParentID v) = VariableSetKind
            then map_sum (Wrap ''retrieving variable set'') Some (db_getVariableSet (var_ParentID v) db)
            else Inr None) of
        Inl e \<Rightarrow> Inl e
      | Inr s \<Rightarrow>
          (case (case s of
                   Some s' \<Rightarrow> if vs_Global s' then Inr (db_listGlobalVariables (vs_Organization s') db)
                              else map_sum (Wrap ''listing variables'') id (db_listVariables (var_ParentID v) db)
                 | None \<Rightarrow> map_sum (Wrap ''listing variables'') id (db_listVariables (var_ParentID v) db)) of
             Inl e \<Rightarrow> Inl e
           | Inr scoped \<Rightarrow> checkConflicts v scoped))"

fun checkAll :: "Variable list \<Rightarrow> Variable list \<Rightarrow> unit result" where
  "checkAll [] scoped = Inr ()"
| "checkAll (v # vs) scoped =
     (case checkConflicts v scoped of Inl e \<Rightarrow> Inl e | Inr _ \<Rightarrow> checkAll vs scoped)"

definition checkSet :: "VariableSet \<Rightarrow> var_db \<Rightarrow> unit result" where
  "checkSet s db =
     (if \<not> vs_Global s then Inr ()
      else case db_listVariables (vs_ID s) db of
             Inl e \<Rightarrow> Inl e
           | Inr setVariables \<Rightarrow>
               checkAll setVariables (db_listGlobalVariables (vs_Organization s) db))"

section \<open>Variable sets (set.go)\<close>

record CreateVariableSetOptions =
  cso_Name :: string
  cso_Description :: string
  cso_Global :: bool
  cso_Workspaces :: "TfeID list"

record UpdateVariableSetOptions =
  uso_Name :: "string option"
  uso_Description :: "string option"
  uso_Global :: "bool option"
  uso_Workspaces :: "TfeID list option"

definition newSet :: "(nat \<Rightarrow> nat) \<Rightarrow> string \<Rightarrow> CreateVariableSetOptions \<Rightarrow> VariableSet result" where
  "newSet rnd organization opts =
     Inr \<lparr>vs_ID = NewTfeID rnd VariableSetKind, vs_Name = cso_Name opts, vs_Description = cso_Description opts,
          vs_Global = cso_Global opts, vs_Workspaces = [], vs_Organization = organization, vs_Variables = []\<rparr>"

definition given :: "'a option \<Rightarrow> 'a \<Rightarrow> 'a" where
  "given x old = (case x of None \<Rightarrow> old | Some y \<Rightarrow> y)"

definition VariableSet_update :: "UpdateVariableSetOptions \<Rightarrow> VariableSet \<Rightarrow> VariableSet" where
  "VariableSet_update opts s =
     s\<lparr>vs_Name := given (uso_Name opts) (vs_Name s),
       vs_Description := given (uso_Description opts) (vs_Description s),
       vs_Global := given (uso_Global opts) (vs_Global s),
       vs_Workspaces := given (uso_Workspaces opts) (vs_Workspaces s)\<rparr>"

section \<open>The service (service.go)\<close>

text \<open>What an operation takes from its surroundings: context, policies, randomness and the run service.\<close>

record var_env =
  ve_ctx :: authz_ctx
  ve_policies :: "ID \<Rightarrow> Policy result"
  ve_rnd :: "nat \<Rightarrow> nat"
  ve_vrnd :: "nat \<Rightarrow> byte"
  ve_getRun :: "TfeID \<Rightarrow> Run result"

text \<open>The two parent resolvers that the service registers, beside the one of workspaces.\<close>

definition var_tables :: "var_db \<Rightarrow> parent_tables" where
  "var_tables db =
     \<lparr>pt_workspace = map_of (vdb_workspaces db), pt_team = Map.empty, pt_sshkey = Map.empty,
      pt_variable_set = map_of (map (\<lambda>r. (row_ID r, row_Organization r)) (vdb_sets db)),
      pt_run = Map.empty, pt_state_version = Map.empty, pt_config_version = Map.empty,
      pt_run_trigger = Map.empty,
      pt_variable = map_of (map (\<lambda>v. (var_ID v, var_ParentID v)) (vdb_variables db))\<rparr>"

definition var_authorize :: "var_env \<Rightarrow> Action \<Rightarrow> Kind \<Rightarrow> ID \<Rightarrow> var_db \<Rightarrow> Subject result" where
  "var_authorize env action kind rid db =
     (case Authorize (otf_resolvers (var_tables db)) (ve_policies env) (ve_ctx env) action kind (Some rid) of
        Some (Some subj, Inr _) \<Rightarrow> Inr subj
      | Some (_, Inl e) \<Rightarrow> Inl e
      | _ \<Rightarrow> Inl (Errorf ''authorization does not return''))"

definition svc_createVariable ::
  "var_env \<Rightarrow> TfeID \<Rightarrow> CreateVariableOptions \<Rightarrow> var_db \<Rightarrow> (var_db \<times> Variable) result" where
  "svc_createVariable env parentID opts db =
     (case newVariable (ve_rnd env) (ve_vrnd env) parentID opts of Inl e \<Rightarrow> Inl e | Inr v \<Rightarrow>
     (case checkVariable v db of Inl e \<Rightarrow> Inl (Wrap ''checking for conflicts'' e) | Inr _ \<Rightarrow>
     (case db_createVariable parentID v db of Inl e \<Rightarrow> Inl e | Inr db' \<Rightarrow> Inr (db', v))))"

definition CreateVariable ::
  "var_env \<Rightarrow> TfeID \<Rightarrow> CreateVariableOptions \<Rightarrow> var_db \<Rightarrow> (var_db \<times> Variable) result" where
  "CreateVariable env parentID opts db =
     (case var_authorize env CreateAction VariableKind (TfeID_ID parentID) db of Inl e \<Rightarrow> Inl e | Inr _ \<Rightarrow>
        map_sum (Wrap ''creating variable'') id (svc_createVariable env parentID opts db))"

definition svc_updateVariable ::
  "var_env \<Rightarrow> TfeID \<Rightarrow> UpdateVariableOptions \<Rightarrow> var_db \<Rightarrow> (var_db \<times> Variable \<times> Variable) result" where
  "svc_updateVariable env variableID opts db =
     (case db_getVariable variableID db of Inl e \<Rightarrow> Inl e | Inr before \<Rightarrow>
     (case Variable_update (ve_vrnd env) opts before of Inl e \<Rightarrow> Inl e | Inr after \<Rightarrow>
     (case checkVariable after db of Inl e \<Rightarrow> Inl e | Inr _ \<Rightarrow>
     (case db_updateVariable after db of Inl e \<Rightarrow> Inl e | Inr db' \<Rightarrow> Inr (db', before, after)))))"

definition UpdateVariable ::
  "var_env \<Rightarrow> TfeID \<Rightarrow> UpdateVariableOptions \<Rightarrow> var_db \<Rightarrow> (var_db \<times> Variable) result" where
  "UpdateVariable env variableID opts db =
     (case var_authorize env UpdateAction VariableKind (TfeID_ID variableID) db of Inl e \<Rightarrow> Inl e | Inr _ \<Rightarrow>
     (case svc_updateVariable env variableID opts db of Inl e \<Rightarrow> Inl e | Inr (db', _, after) \<Rightarrow> Inr (db', after)))"

definition ListVariables :: "var_env \<Rightarrow> TfeID \<Rightarrow> var_db \<Rightarrow> Variable list result" where
  "ListVariables env parentID db =
     (case var_authorize env ListAction VariableKind (TfeID_ID parentID) db of
        Inl e \<Rightarrow> Inl e | Inr _ \<Rightarrow> db_listVariables parentID db)"

definition GetVariable :: "var_env \<Rightarrow> TfeID \<Rightarrow> var_db \<Rightarrow> Variable result" where
  "GetVariable env variableID db =
     (case var_authorize env GetAction VariableKind (TfeID_ID variableID) db of
        Inl e \<Rightarrow> Inl e | Inr _ \<Rightarrow> db_getVariable variableID db)"

definition DeleteVariable :: "var_env \<Rightarrow> TfeID \<Rightarrow> var_db \<Rightarrow> (var_db \<times> Variable) result" where
  "DeleteVariable env variableID db =
     (case var_authorize env DeleteAction VariableKind (TfeID_ID variableID) db of
        Inl e \<Rightarrow> Inl e | Inr _ \<Rightarrow> db_deleteVariable variableID db)"

definition CreateVariableSet ::
  "var_env \<Rightarrow> string \<Rightarrow> CreateVariableSetOptions \<Rightarrow> var_db \<Rightarrow> (var_db \<times> VariableSet) result" where
  "CreateVariableSet env organization opts db =
     (case var_authorize env CreateAction VariableSetKind (OrganizationName_ID organization) db of
        Inl e \<Rightarrow> Inl e | Inr _ \<Rightarrow>
     (case newSet (ve_rnd env) organization opts of Inl e \<Rightarrow> Inl e | Inr s \<Rightarrow>
     (case db_createVariableSet s db of Inl e \<Rightarrow> Inl e | Inr db1 \<Rightarrow>
     (case db_createVariableSetWorkspaces (vs_ID s) (cso_Workspaces opts) db1 of
        Inl e \<Rightarrow> Inl e | Inr db2 \<Rightarrow> Inr (db2, s)))))"

definition UpdateVariableSet ::
  "var_env \<Rightarrow> TfeID \<Rightarrow> UpdateVariableSetOptions \<Rightarrow> var_db \<Rightarrow> (var_db \<times> VariableSet) result" where
  "UpdateVariableSet env setID opts db =
     (case var_authorize env UpdateAction VariableSetKind (TfeID_ID setID) db of Inl e \<Rightarrow> Inl e | Inr _ \<Rightarrow>
     (case db_getVariableSet setID db of Inl e \<Rightarrow> Inl (Wrap ''retrieving variable set'' e) | Inr before \<Rightarrow>
      let after = VariableSet_update opts before in
     (case checkSet after db of Inl e \<Rightarrow> Inl e | Inr _ \<Rightarrow>
     (case db_updateVariableSet after db of Inl e \<Rightarrow> Inl e | Inr db' \<Rightarrow> Inr (db', after)))))"

definition ListVariableSets :: "var_env \<Rightarrow> string \<Rightarrow> var_db \<Rightarrow> VariableSet list result" where
  "ListVariableSets env organization db =
     (case var_authorize env ListAction VariableSetKind (OrganizationName_ID organization) db of
        Inl e \<Rightarrow> Inl e | Inr _ \<Rightarrow> Inr (db_listVariableSets organization db))"

definition ListWorkspaceVariableSets :: "var_env \<Rightarrow> TfeID \<Rightarrow> var_db \<Rightarrow> VariableSet list result" where
  "ListWorkspaceVariableSets env workspaceID db =
     (case var_authorize env ListAction VariableSetKind (TfeID_ID workspaceID) db of
        Inl e \<Rightarrow> Inl e | Inr _ \<Rightarrow> Inr (db_listVariableSetsByWorkspace workspaceID db))"

text \<open>The remaining operations look the set up first and authorize against its organization.\<close>

definition with_set :: "var_env \<Rightarrow> Action \<Rightarrow> TfeID \<Rightarrow> var_db \<Rightarrow> VariableSet result" where
  "with_set env action setID db =
     (case db_getVariableSet setID db of Inl e \<Rightarrow> Inl e | Inr s \<Rightarrow>
     (case var_authorize env action VariableSetKind (Pointer_ID (OrganizationName_ID (vs_Organization s))) db of
        Inl e \<Rightarrow> Inl e | Inr _ \<Rightarrow> Inr s))"

definition GetVariableSet :: "var_env \<Rightarrow> TfeID \<Rightarrow> var_db \<Rightarrow> VariableSet result" where
  "GetVariableSet env setID db = with_set env GetAction setID db"

definition DeleteVariableSet :: "var_env \<Rightarrow> TfeID \<Rightarrow> var_db \<Rightarrow> (var_db \<times> VariableSet) result" where
  "DeleteVariableSet env setID db =
     (case with_set env DeleteAction setID db of Inl e \<Rightarrow> Inl e | Inr s \<Rightarrow>
     (case db_deleteVariableSet setID db of Inl e \<Rightarrow> Inl e | Inr db' \<Rightarrow> Inr (db', s)))"

definition ApplySetToWorkspaces :: "var_env \<Rightarrow> TfeID \<Rightarrow> TfeID list \<Rightarrow> var_db \<Rightarrow> var_db result" where
  "ApplySetToWorkspaces env setID workspaceIDs db =
     (case with_set env AddAction setID db of
        Inl e \<Rightarrow> Inl e | Inr _ \<Rightarrow> db_createVariableSetWorkspaces setID workspaceIDs db)"

definition DeleteSetFromWorkspaces :: "var_env \<Rightarrow> TfeID \<Rightarrow> TfeID list \<Rightarrow> var_db \<Rightarrow> var_db result" where
  "DeleteSetFromWorkspaces env setID workspaceIDs db =
     (case with_set env RemoveAction setID db of
        Inl e \<Rightarrow> Inl e | Inr _ \<Rightarrow> db_deleteVariableSetWorkspaces setID workspaceIDs db)"

definition ListEffectiveVariables :: "var_env \<Rightarrow> TfeID \<Rightarrow> var_db \<Rightarrow> Variable list result" where
  "ListEffectiveVariables env runID db =
     (case ve_getRun env runID of Inl e \<Rightarrow> Inl e | Inr run \<Rightarrow>
     (case ListWorkspaceVariableSets env (run_WorkspaceID run) db of Inl e \<Rightarrow> Inl e | Inr sets \<Rightarrow>
     (case ListVariables env (run_WorkspaceID run) db of Inl e \<Rightarrow> Inl e | Inr vars \<Rightarrow>
        Inr (Merge sets vars (Some run)))))"

section \<open>Reachable tables\<close>

text \<open>The operations that write, and the databases they produce from one without variables and sets.\<close>

datatype var_op =
    OpCreateVariable TfeID CreateVariableOptions | OpUpdateVariable TfeID UpdateVariableOptions
  | OpDeleteVariable TfeID | OpCreateSet string CreateVariableSetOptions
  | OpUpdateSet TfeID UpdateVariableSetOptions | OpDeleteSet TfeID
  | OpApplySet TfeID "TfeID list" | OpRemoveSet TfeID "TfeID list"

fun exec_var :: "var_env \<Rightarrow> var_op \<Rightarrow> var_db \<Rightarrow> var_db result" where
  "exec_var env (OpCreateVariable pid opts) db = map_sum id fst (CreateVariable env pid opts db)"
| "exec_var env (OpUpdateVariable vid opts) db = map_sum id fst (UpdateVariable env vid opts db)"
| "exec_var env (OpDeleteVariable vid) db = map_sum id fst (DeleteVariable env vid db)"
| "exec_var env (OpCreateSet org opts) db = map_sum id fst (CreateVariableSet env org opts db)"
| "exec_var env (OpUpdateSet sid opts) db = map_sum id fst (UpdateVariableSet env sid opts db)"
| "exec_var env (OpDeleteSet sid) db = map_sum id fst (DeleteVariableSet env sid db)"
| "exec_var env (OpApplySet sid wids) db = ApplySetToWorkspaces env sid wids db"
| "exec_var env (OpRemoveSet sid wids) db = DeleteSetFromWorkspaces env sid wids db"

definition initial_vars :: "var_db \<Rightarrow> bool" where
  "initial_vars db \<longleftrightarrow> vdb_variables db = [] \<and> vdb_sets db = [] \<and> vdb_set_workspaces db = [] \<and>
     (\<forall>w \<in> set (vdb_workspaces db). tfe_kind (fst w) = WorkspaceKind)"

inductive reachable_vars :: "var_db \<Rightarrow> bool" where
  init: "initial_vars db \<Longrightarrow> reachable_vars db"
| step: "reachable_vars db \<Longrightarrow> exec_var env opn db = Inr db' \<Longrightarrow> reachable_vars db'"

section \<open>Lemmas: the invariant\<close>

definition global_in :: "var_db \<Rightarrow> string \<Rightarrow> Variable \<Rightarrow> bool" where
  "global_in db org v \<longleftrightarrow>
     (\<exists>row \<in> set (vdb_sets db). row_ID row = var_ParentID v \<and> row_Global row \<and> row_Organization row = org)"

definition same_scope :: "var_db \<Rightarrow> Variable \<Rightarrow> Variable \<Rightarrow> bool" where
  "same_scope db v w \<longleftrightarrow>
     var_ParentID v = var_ParentID w \<or> (\<exists>org. global_in db org v \<and> global_in db org w)"

definition clash :: "Variable \<Rightarrow> Variable \<Rightarrow> bool" where
  "clash v w \<longleftrightarrow> var_ID v \<noteq> var_ID w \<and> var_Key v = var_Key w \<and> var_Category v = var_Category w"

definition no_conflicts :: "var_db \<Rightarrow> bool" where
  "no_conflicts db \<longleftrightarrow>
     (\<forall>v \<in> set (vdb_variables db). \<forall>w \<in> set (vdb_variables db). same_scope db v w \<longrightarrow> \<not> clash v w)"

definition parent_exists :: "var_db \<Rightarrow> Variable \<Rightarrow> bool" where
  "parent_exists db v \<longleftrightarrow>
     var_ParentID v \<in> set (map fst (vdb_workspaces db)) \<or> var_ParentID v \<in> set (map row_ID (vdb_sets db))"

definition tables_ok :: "var_db \<Rightarrow> bool" where
  "tables_ok db \<longleftrightarrow>
     distinct (map var_ID (vdb_variables db)) \<and> distinct (map row_ID (vdb_sets db)) \<and>
     distinct (map (\<lambda>r. (row_Organization r, row_Name r)) (vdb_sets db)) \<and>
     (\<forall>r \<in> set (vdb_sets db). tfe_kind (row_ID r) = VariableSetKind) \<and>
     (\<forall>w \<in> set (vdb_workspaces db). tfe_kind (fst w) = WorkspaceKind) \<and>
     (\<forall>v \<in> set (vdb_variables db). variable_wf v \<and> parent_exists db v)"

definition var_inv :: "var_db \<Rightarrow> bool" where
  "var_inv db \<longleftrightarrow> tables_ok db \<and> no_conflicts db"

lemma clash_sym: "clash v w \<Longrightarrow> clash w v"
  by (auto simp: clash_def)

lemma same_scope_sym: "same_scope db v w \<Longrightarrow> same_scope db w v"
  by (auto simp: same_scope_def)

lemma VariableSet_not_Workspace [simp]: "VariableSetKind \<noteq> WorkspaceKind" "WorkspaceKind \<noteq> VariableSetKind"
  by (simp_all add: kind_defs)

lemma checkConflicts_ok: "checkConflicts v ws = Inr u \<longleftrightarrow> (\<forall>w \<in> set ws. \<not> clash v w)"
  by (cases u) (auto simp: checkConflicts_def clash_def list_ex_iff)

lemma checkAll_ok: "checkAll vs ws = Inr u \<longleftrightarrow> (\<forall>v \<in> set vs. \<forall>w \<in> set ws. \<not> clash v w)"
proof (induction vs)
  case (Cons v vs)
  then show ?case using checkConflicts_ok [of v ws "()"] by (auto split: sum.splits)
qed (simp add: unit_eq)

lemma set_listGlobal: "w \<in> set (db_listGlobalVariables org db) \<longleftrightarrow> w \<in> set (vdb_variables db) \<and> global_in db org w"
  by (auto simp: db_listGlobalVariables_def global_in_def list_ex_iff)

lemma row_unique:
  "tables_ok db \<Longrightarrow> r \<in> set (vdb_sets db) \<Longrightarrow> r' \<in> set (vdb_sets db) \<Longrightarrow> row_ID r = row_ID r' \<Longrightarrow> r = r'"
  by (auto simp: tables_ok_def distinct_map inj_on_def)

lemma getVariableSet_row:
  assumes "db_getVariableSet sid db = Inr s"
  obtains row where "row \<in> set (vdb_sets db)" "row_ID row = sid" "s = scanVariableSet db row"
  using assms by (auto simp: db_getVariableSet_def split: option.splits dest: find_first_SomeD)

lemma scan_simps [simp]:
  "vs_ID (scanVariableSet db row) = row_ID row" "vs_Global (scanVariableSet db row) = row_Global row"
  "vs_Organization (scanVariableSet db row) = row_Organization row"
  "vs_Name (scanVariableSet db row) = row_Name row"
  by (simp_all add: scanVariableSet_def)

text \<open>A variable that the checker accepts clashes with none in its scope.\<close>

lemma checkVariable_ok:
  assumes "tables_ok db" "checkVariable v db = Inr u" "w \<in> set (vdb_variables db)" "same_scope db v w"
  shows "\<not> clash v w"
proof -
  have in_scope: "\<not> clash v w" if "\<And>org. \<not> global_in db org v"
      "checkConflicts v (filter (\<lambda>x. var_ParentID x = var_ParentID v) (vdb_variables db)) = Inr u"
    using that assms(3,4) by (auto simp: checkConflicts_ok same_scope_def)
  show ?thesis
  proof (cases "tfe_kind (var_ParentID v) = VariableSetKind")
    case True
    with assms(2) obtain s where s: "db_getVariableSet (var_ParentID v) db = Inr s"
      by (cases "db_getVariableSet (var_ParentID v) db") (auto simp: checkVariable_def)
    then obtain row where row: "row \<in> set (vdb_sets db)" "row_ID row = var_ParentID v" "s = scanVariableSet db row"
      by (rule getVariableSet_row)
    show ?thesis
    proof (cases "row_Global row")
      case glob: True
      have "checkConflicts v (db_listGlobalVariables (row_Organization row) db) = Inr u"
        using assms(2) True s row glob by (simp add: checkVariable_def)
      moreover have "org = row_Organization row" if "global_in db org v" for org
      proof -
        from that obtain r where "r \<in> set (vdb_sets db)" "row_ID r = var_ParentID v" "row_Organization r = org"
          by (auto simp: global_in_def)
        then show ?thesis using row_unique [OF assms(1) _ row(1), of r] row(2) by simp
      qed
      moreover have "global_in db (row_Organization row) w" if "var_ParentID v = var_ParentID w"
        using row glob that by (auto simp: global_in_def)
      ultimately show ?thesis
        using assms(3,4) by (auto simp: checkConflicts_ok set_listGlobal same_scope_def)
    next
      case False
      have "\<not> global_in db org v" for org
        unfolding global_in_def using False row_unique [OF assms(1) _ row(1)] row(2) by metis
      moreover have "checkConflicts v (filter (\<lambda>x. var_ParentID x = var_ParentID v) (vdb_variables db)) = Inr u"
        using assms(2) True s row False by (simp add: checkVariable_def db_listVariables_def)
      ultimately show ?thesis by (rule in_scope)
    qed
  next
    case False
    then have "\<not> global_in db org v" for org
      using assms(1) by (auto simp: global_in_def tables_ok_def)
    moreover have "checkConflicts v (filter (\<lambda>x. var_ParentID x = var_ParentID v) (vdb_variables db)) = Inr u"
      using assms(2) False by (auto simp: checkVariable_def db_listVariables_def split: if_splits)
    ultimately show ?thesis by (rule in_scope)
  qed
qed

text \<open>Adding or replacing a variable that has been checked keeps the invariant.\<close>

lemma global_in_sets [simp]: "global_in (db\<lparr>vdb_variables := vs\<rparr>) = global_in db"
  by (simp add: global_in_def fun_eq_iff)

lemma same_scope_sets [simp]: "same_scope (db\<lparr>vdb_variables := vs\<rparr>) = same_scope db"
  by (simp add: same_scope_def fun_eq_iff)

lemma parent_exists_sets [simp]: "parent_exists (db\<lparr>vdb_variables := vs\<rparr>) = parent_exists db"
  by (simp add: parent_exists_def fun_eq_iff)

lemma var_unique:
  "tables_ok db \<Longrightarrow> v \<in> set (vdb_variables db) \<Longrightarrow> w \<in> set (vdb_variables db) \<Longrightarrow> var_ID v = var_ID w \<Longrightarrow> v = w"
  by (auto simp: tables_ok_def distinct_map inj_on_def)

lemma parent_kind:
  assumes "tables_ok db" "v \<in> set (vdb_variables db)"
  shows "var_ParentID v \<in> set (map row_ID (vdb_sets db)) \<or> tfe_kind (var_ParentID v) \<noteq> VariableSetKind"
proof -
  have "parent_exists db v" using assms by (simp add: tables_ok_def)
  then show ?thesis using assms(1) by (auto simp: parent_exists_def tables_ok_def)
qed

lemma var_inv_variables:
  assumes inv: "var_inv db" and "distinct (map var_ID vs)" "set vs \<subseteq> insert v (set (vdb_variables db))"
    and v: "v \<in> set vs \<Longrightarrow> variable_wf v \<and> parent_exists db v"
      "\<And>w. v \<in> set vs \<Longrightarrow> w \<in> set (vdb_variables db) \<Longrightarrow> same_scope db v w \<Longrightarrow> \<not> clash v w"
  shows "var_inv (db\<lparr>vdb_variables := vs\<rparr>)"
proof -
  have "\<not> clash x y" if xy: "x \<in> set vs" "y \<in> set vs" "same_scope db x y" for x y
  proof -
    consider "x \<in> set (vdb_variables db)" "y \<in> set (vdb_variables db)" | "x = v" "y \<in> set (vdb_variables db)"
      | "y = v" "x \<in> set (vdb_variables db)" | "x = v" "y = v"
      using xy assms(3) by blast
    then show ?thesis
    proof cases
      case 1
      then show ?thesis using inv xy(3) by (auto simp: var_inv_def no_conflicts_def)
    next
      case 3
      then show ?thesis using v(2) [of x] xy clash_sym same_scope_sym by metis
    qed (use v(2) xy in \<open>auto simp: clash_def\<close>)
  qed
  moreover have "variable_wf x \<and> parent_exists db x" if "x \<in> set vs" for x
    using that assms(3) v(1) inv by (auto simp: var_inv_def tables_ok_def)
  ultimately show ?thesis
    using inv assms(2) by (simp add: var_inv_def tables_ok_def no_conflicts_def)
qed

lemma createVariable_inv:
  assumes inv: "var_inv db" and chk: "checkVariable v db = Inr u" and new: "db_createVariable (var_ParentID v) v db = Inr db'"
    and wf: "variable_wf v"
  shows "var_inv db'"
proof -
  have db': "db' = db\<lparr>vdb_variables := vdb_variables db @ [v]\<rparr>" "var_ID v \<notin> set (map var_ID (vdb_variables db))"
      "parent_exists db v"
    using new by (auto simp: db_createVariable_def parent_exists_def split: if_splits)
  have ok: "tables_ok db" using inv by (simp add: var_inv_def)
  then have "distinct (map var_ID (vdb_variables db @ [v]))"
    using db'(2) by (simp add: tables_ok_def)
  then show ?thesis
    unfolding db'(1) using db'(3) wf checkVariable_ok [OF ok chk]
    by (intro var_inv_variables [OF inv, where v = v]) auto
qed

lemma updateVariable_inv:
  assumes inv: "var_inv db" and chk: "checkVariable v db = Inr u" and upd: "db_updateVariable v db = Inr db'"
    and wf: "variable_wf v" and old: "old \<in> set (vdb_variables db)" "var_ID old = var_ID v" "var_ParentID old = var_ParentID v"
  shows "var_inv db'"
proof -
  let ?f = "\<lambda>x. if var_ID x = var_ID v then v else x"
  have ok: "tables_ok db" using inv by (simp add: var_inv_def)
  have "v\<lparr>var_ParentID := var_ParentID x\<rparr> = v" if "x \<in> set (vdb_variables db)" "var_ID x = var_ID v" for x
    using var_unique [OF ok that(1) old(1)] that(2) old by simp
  then have eq: "map (\<lambda>x. if var_ID x = var_ID v then v\<lparr>var_ParentID := var_ParentID x\<rparr> else x) (vdb_variables db)
      = map ?f (vdb_variables db)"
    by (intro map_cong refl) simp
  have db': "db' = db\<lparr>vdb_variables := map ?f (vdb_variables db)\<rparr>"
    using upd unfolding db_updateVariable_def eq by (simp split: if_splits)
  have "map var_ID (map ?f (vdb_variables db)) = map var_ID (vdb_variables db)" by simp
  then have "distinct (map var_ID (map ?f (vdb_variables db)))"
    using ok unfolding tables_ok_def by metis
  moreover have "parent_exists db old" using ok old(1) by (simp add: tables_ok_def)
  then have "parent_exists db v" by (simp add: parent_exists_def old(3))
  moreover have "set (map ?f (vdb_variables db)) \<subseteq> insert v (set (vdb_variables db))" by auto
  ultimately show ?thesis
    unfolding db' using wf checkVariable_ok [OF ok chk]
    by (intro var_inv_variables [OF inv, where v = v]) auto
qed

lemma deleteVariable_inv:
  assumes "var_inv db" "db_deleteVariable vid db = Inr (db', v)"
  shows "var_inv db'"
proof -
  have "db' = db\<lparr>vdb_variables := filter (\<lambda>x. var_ID x \<noteq> vid) (vdb_variables db)\<rparr>"
    using assms(2) by (auto simp: db_deleteVariable_def split: sum.splits)
  moreover have "distinct (map var_ID (filter (\<lambda>x. var_ID x \<noteq> vid) (vdb_variables db)))"
    using assms(1) by (simp add: var_inv_def tables_ok_def distinct_map_filter)
  ultimately show ?thesis
    using assms(1) by (auto intro!: var_inv_variables [OF assms(1), where v = v]
        simp: var_inv_def tables_ok_def no_conflicts_def)
qed

text \<open>The sets and their workspaces.\<close>

lemma createSetWorkspaces_frame:
  "db_createVariableSetWorkspaces sid wids db = Inr db' \<Longrightarrow>
     \<exists>sw. db' = db\<lparr>vdb_set_workspaces := sw\<rparr> \<and> set sw = set (vdb_set_workspaces db) \<union> Pair sid ` set wids"
proof (induction wids arbitrary: db)
  case Nil
  then show ?case by (intro exI [of _ "vdb_set_workspaces db"]) simp
next
  case (Cons wid wids)
  from Cons.prems show ?case
    by (auto split: if_splits dest!: Cons.IH)
qed

lemma deleteSetWorkspaces_frame:
  "db_deleteVariableSetWorkspaces sid wids db = Inr db' \<Longrightarrow> \<exists>sw. db' = db\<lparr>vdb_set_workspaces := sw\<rparr>"
proof (induction wids arbitrary: db)
  case Nil
  then show ?case by (intro exI [of _ "vdb_set_workspaces db"]) simp
next
  case (Cons wid wids)
  from Cons.prems show ?case
    by (auto split: if_splits dest!: Cons.IH)
qed

lemma var_inv_set_workspaces: "var_inv (db\<lparr>vdb_set_workspaces := sw\<rparr>) = var_inv db"
  by (simp add: var_inv_def tables_ok_def no_conflicts_def same_scope_def global_in_def parent_exists_def)

lemma createSet_inv:
  assumes inv: "var_inv db" and new: "db_createVariableSet s db = Inr db'" and kind: "tfe_kind (vs_ID s) = VariableSetKind"
  shows "var_inv db'"
proof -
  let ?row = "\<lparr>row_ID = vs_ID s, row_Name = vs_Name s, row_Description = vs_Description s,
               row_Global = vs_Global s, row_Organization = vs_Organization s\<rparr>"
  have db': "db' = db\<lparr>vdb_sets := vdb_sets db @ [?row]\<rparr>" "vs_ID s \<notin> set (map row_ID (vdb_sets db))"
      "(vs_Organization s, vs_Name s) \<notin> set (map (\<lambda>r. (row_Organization r, row_Name r)) (vdb_sets db))"
    using new by (auto simp: db_createVariableSet_def split: if_splits)
  have ok: "tables_ok db" using inv by (simp add: var_inv_def)
  have par: "var_ParentID v \<noteq> vs_ID s" if "v \<in> set (vdb_variables db)" for v
    using parent_kind [OF ok that] db'(2) kind by metis
  then have "global_in db' org v = global_in db org v" if "v \<in> set (vdb_variables db)" for v org
    using that by (force simp: db'(1) global_in_def)
  then have "no_conflicts db'"
    using inv unfolding var_inv_def no_conflicts_def same_scope_def by (simp add: db'(1))
  moreover have "tables_ok db'"
    using ok db'(2,3) kind unfolding tables_ok_def db'(1) by (simp add: parent_exists_def) blast
  ultimately show ?thesis by (simp add: var_inv_def)
qed

text \<open>An update of a set: the checker compares its variables with those of the other global sets.\<close>

definition set_update_row :: "VariableSet \<Rightarrow> set_row \<Rightarrow> set_row" where
  "set_update_row s r =
     (if row_ID r = vs_ID s
      then r\<lparr>row_Global := vs_Global s, row_Name := vs_Name s, row_Description := vs_Description s\<rparr> else r)"

lemma set_update_row_simps [simp]:
  "row_ID (set_update_row s r) = row_ID r" "row_Organization (set_update_row s r) = row_Organization r"
  "row_ID r \<noteq> vs_ID s \<Longrightarrow> set_update_row s r = r"
  "row_ID r = vs_ID s \<Longrightarrow> row_Global (set_update_row s r) = vs_Global s"
  "row_Name (set_update_row s r) = (if row_ID r = vs_ID s then vs_Name s else row_Name r)"
  by (simp_all add: set_update_row_def)

lemma updateSet_frame:
  assumes "db_updateVariableSet s db = Inr db'"
  obtains row sw where "row \<in> set (vdb_sets db)" "row_ID row = vs_ID s"
    "db' = db\<lparr>vdb_sets := map (set_update_row s) (vdb_sets db), vdb_set_workspaces := sw\<rparr>"
    "\<And>r. r \<in> set (vdb_sets db) \<Longrightarrow> row_ID r \<noteq> vs_ID s \<Longrightarrow> row_Organization r = row_Organization row \<Longrightarrow>
       row_Name r \<noteq> vs_Name s"
proof -
  have f: "(\<lambda>r. if row_ID r = vs_ID s then r\<lparr>row_Global := vs_Global s, row_Name := vs_Name s,
      row_Description := vs_Description s\<rparr> else r) = set_update_row s"
    by (simp add: fun_eq_iff set_update_row_def)
  from assms obtain row where row: "find_first (\<lambda>row. row_ID row = vs_ID s) (vdb_sets db) = Some row"
      "\<not> list_ex (\<lambda>r. row_ID r \<noteq> vs_ID s \<and> row_Organization r = row_Organization row \<and>
                          row_Name r = vs_Name s) (vdb_sets db)"
    by (auto simp: db_updateVariableSet_def split: option.splits if_splits)
  let ?db1 = "db\<lparr>vdb_sets := map (set_update_row s) (vdb_sets db)\<rparr>"
  obtain sw where "db_createVariableSetWorkspaces (vs_ID s) (vs_Workspaces s) (?db1\<lparr>vdb_set_workspaces := sw\<rparr>) = Inr db'"
  proof (cases "db_deleteAllVariableSetWorkspaces (vs_ID s) ?db1")
    case (Inl e)
    then have "db_createVariableSetWorkspaces (vs_ID s) (vs_Workspaces s) ?db1 = Inr db'"
      using assms row unfolding db_updateVariableSet_def f
      by (auto simp: db_deleteAllVariableSetWorkspaces_def split: if_splits)
    then show ?thesis using that [of "vdb_set_workspaces ?db1"] by simp
  next
    case (Inr db2)
    then have "db_createVariableSetWorkspaces (vs_ID s) (vs_Workspaces s) db2 = Inr db'"
      using assms row unfolding db_updateVariableSet_def f by simp
    with Inr show ?thesis
      using that by (auto simp: db_deleteAllVariableSetWorkspaces_def split: if_splits)
  qed
  then have "\<exists>sw. db' = ?db1\<lparr>vdb_set_workspaces := sw\<rparr>"
    by (auto dest!: createSetWorkspaces_frame)
  with row that show ?thesis by (auto simp: list_ex_iff dest!: find_first_SomeD)
qed

lemma updateSet_global:
  assumes "tables_ok db" "row \<in> set (vdb_sets db)" "row_ID row = vs_ID s"
  shows "global_in (db\<lparr>vdb_sets := map (set_update_row s) (vdb_sets db)\<rparr>) org v \<longleftrightarrow>
    (if var_ParentID v = vs_ID s then vs_Global s \<and> org = row_Organization row else global_in db org v)"
proof (cases "var_ParentID v = vs_ID s")
  case True
  have uniq: "r = row" if "r \<in> set (vdb_sets db)" "row_ID r = vs_ID s" for r
    using row_unique [OF assms(1) that(1) assms(2)] that(2) assms(3) by simp
  have "global_in (db\<lparr>vdb_sets := map (set_update_row s) (vdb_sets db)\<rparr>) org v \<longleftrightarrow>
      (\<exists>r \<in> set (vdb_sets db). row_ID r = vs_ID s \<and> vs_Global s \<and> row_Organization r = org)"
    using True by (auto simp: global_in_def)
  also have "\<dots> \<longleftrightarrow> vs_Global s \<and> org = row_Organization row"
    using uniq assms(2,3) by metis
  finally show ?thesis using True by simp
next
  case False
  then show ?thesis by (force simp: global_in_def)
qed

lemma updateSet_inv:
  assumes inv: "var_inv db" and chk: "checkSet s db = Inr u" and upd: "db_updateVariableSet s db = Inr db'"
    and row0: "row0 \<in> set (vdb_sets db)" "row_ID row0 = vs_ID s" "row_Organization row0 = vs_Organization s"
  shows "var_inv db'"
proof -
  obtain row sw where row: "row \<in> set (vdb_sets db)" "row_ID row = vs_ID s"
      and db': "db' = db\<lparr>vdb_sets := map (set_update_row s) (vdb_sets db), vdb_set_workspaces := sw\<rparr>"
      and names: "\<And>r. r \<in> set (vdb_sets db) \<Longrightarrow> row_ID r \<noteq> vs_ID s \<Longrightarrow> row_Organization r = row_Organization row \<Longrightarrow>
        row_Name r \<noteq> vs_Name s"
    using updateSet_frame [OF upd] by metis
  let ?db = "db\<lparr>vdb_sets := map (set_update_row s) (vdb_sets db)\<rparr>"
  have ok: "tables_ok db" using inv by (simp add: var_inv_def)
  have org: "row_Organization row = vs_Organization s"
    using row_unique [OF ok row(1) row0(1)] row(2) row0 by simp
  note glob = updateSet_global [OF ok row]
  have kind: "tfe_kind (vs_ID s) = VariableSetKind" using ok row by (auto simp: tables_ok_def)
  have new: "\<not> clash v w" if "vs_Global s" "v \<in> set (vdb_variables db)" "w \<in> set (vdb_variables db)"
      "var_ParentID v = vs_ID s" "global_in db (vs_Organization s) w" for v w
    using chk that kind by (auto simp: checkSet_def db_listVariables_def checkAll_ok set_listGlobal)
  have "\<not> clash v w" if vw: "v \<in> set (vdb_variables db)" "w \<in> set (vdb_variables db)" "same_scope ?db v w" for v w
  proof -
    consider "same_scope db v w" | "var_ParentID v = vs_ID s" "vs_Global s" "global_in db (vs_Organization s) w"
      | "var_ParentID w = vs_ID s" "vs_Global s" "global_in db (vs_Organization s) v"
      using vw(3) org unfolding same_scope_def glob by (auto split: if_splits)
    then show ?thesis
    proof cases
      case 1
      then show ?thesis using inv vw by (auto simp: var_inv_def no_conflicts_def)
    next
      case 2
      then show ?thesis using new vw by blast
    next
      case 3
      then show ?thesis using new [of w v] vw clash_sym by blast
    qed
  qed
  then have "no_conflicts ?db" by (simp add: no_conflicts_def)
  moreover have "tables_ok ?db"
  proof -
    have same: "r = r'" if r: "r \<in> set (vdb_sets db)" "r' \<in> set (vdb_sets db)"
        "row_Organization r = row_Organization r'" "row_Name (set_update_row s r) = row_Name (set_update_row s r')" for r r'
    proof (cases "row_ID r = vs_ID s \<or> row_ID r' = vs_ID s")
      case True
      then have "r = row \<or> r' = row"
        using row_unique [OF ok r(1) row(1)] row_unique [OF ok r(2) row(1)] row(2) by auto
      then show ?thesis
        using names [OF r(1)] names [OF r(2)] r(3,4) row(2) row_unique [OF ok r(1,2)]
        by (auto split: if_splits)
    next
      case False
      have "inj_on (\<lambda>r. (row_Organization r, row_Name r)) (set (vdb_sets db))"
        using ok by (simp add: tables_ok_def distinct_map)
      then show ?thesis using False r by (auto simp: inj_on_def)
    qed
    have "distinct (vdb_sets db)" using ok by (auto simp: tables_ok_def distinct_map)
    then have "distinct (map (\<lambda>r. (row_Organization r, row_Name r)) (map (set_update_row s) (vdb_sets db)))"
      unfolding map_map comp_def distinct_map set_update_row_simps(2) using same
      by (intro conjI inj_onI) simp_all
    moreover have ids: "row_ID \<circ> set_update_row s = row_ID" by (simp add: fun_eq_iff)
    moreover have "parent_exists ?db v = parent_exists db v" for v
      by (simp add: parent_exists_def image_image)
    ultimately show ?thesis
      using ok by (simp add: tables_ok_def)
  qed
  ultimately have "var_inv ?db" by (simp add: var_inv_def)
  then show ?thesis unfolding db' using var_inv_set_workspaces [of sw ?db] by simp
qed

lemma deleteSet_inv:
  assumes inv: "var_inv db" and del: "db_deleteVariableSet sid db = Inr db'"
  shows "var_inv db'"
proof -
  let ?vs = "filter (\<lambda>v. var_ParentID v \<noteq> sid) (vdb_variables db)"
  let ?db = "db\<lparr>vdb_variables := ?vs\<rparr>"
  have ok: "tables_ok db" using inv by (simp add: var_inv_def)
  have "var_inv ?db"
    using ok inv by (intro var_inv_variables [OF inv, where v = undefined])
      (auto simp: tables_ok_def distinct_map_filter var_inv_def no_conflicts_def)
  moreover have "global_in db' org v \<Longrightarrow> global_in ?db org v" for org v
    using del by (auto simp: db_deleteVariableSet_def global_in_def split: if_splits)
  moreover have "vdb_variables db' = ?vs"
    using del by (auto simp: db_deleteVariableSet_def split: if_splits)
  moreover from calculation have "same_scope db' v w \<Longrightarrow> same_scope ?db v w" for v w
    unfolding same_scope_def by blast
  ultimately have "no_conflicts db'"
    by (simp add: var_inv_def no_conflicts_def)
  moreover have "parent_exists db' v" if "v \<in> set ?vs" for v
  proof -
    have "parent_exists db v" "var_ParentID v \<noteq> sid" using that ok by (auto simp: tables_ok_def)
    then show ?thesis
      using del by (auto simp: db_deleteVariableSet_def parent_exists_def split: if_splits)
  qed
  then have "tables_ok db'"
    using ok del by (auto simp: db_deleteVariableSet_def tables_ok_def distinct_map_filter split: if_splits)
  ultimately show ?thesis by (simp add: var_inv_def)
qed

lemma exec_var_inv:
  assumes inv: "var_inv db" and ex: "exec_var env opn db = Inr db'"
  shows "var_inv db'"
proof (cases opn)
  case (OpCreateVariable pid opts)
  with ex obtain v u where v: "newVariable (ve_rnd env) (ve_vrnd env) pid opts = Inr v" "checkVariable v db = Inr u"
      "db_createVariable pid v db = Inr db'"
    by (auto simp: CreateVariable_def svc_createVariable_def split: sum.splits)
  then have "var_ParentID v = pid" "variable_wf v"
    using newVariable_wf by (auto simp: newVariable_parent)
  with v show ?thesis using createVariable_inv [OF inv] by blast
next
  case (OpUpdateVariable vid opts)
  with ex obtain b v u where v: "db_getVariable vid db = Inr b" "Variable_update (ve_vrnd env) opts b = Inr v"
      "checkVariable v db = Inr u" "db_updateVariable v db = Inr db'"
    by (auto simp: UpdateVariable_def svc_updateVariable_def split: sum.splits)
  have b: "b \<in> set (vdb_variables db)"
    using v(1) by (auto simp: db_getVariable_def split: option.splits dest: find_first_SomeD)
  moreover from this have "variable_wf v"
    using inv Variable_update_wf [OF v(2)] by (auto simp: var_inv_def tables_ok_def)
  ultimately show ?thesis
    using updateVariable_inv [OF inv v(3,4)] Variable_update_frame [OF v(2)] by metis
next
  case (OpDeleteVariable vid)
  with ex show ?thesis
    using deleteVariable_inv [OF inv]
    by (cases "db_deleteVariable vid db") (auto simp: DeleteVariable_def split: sum.splits)
next
  case (OpCreateSet org opts)
  with ex obtain s db1 where s: "newSet (ve_rnd env) org opts = Inr s" "db_createVariableSet s db = Inr db1"
      "db_createVariableSetWorkspaces (vs_ID s) (cso_Workspaces opts) db1 = Inr db'"
    by (auto simp: CreateVariableSet_def split: sum.splits)
  then have "tfe_kind (vs_ID s) = VariableSetKind" by (auto simp: newSet_def NewTfeID_def)
  with s show ?thesis
    using createSet_inv [OF inv s(2)] createSetWorkspaces_frame [OF s(3)] var_inv_set_workspaces by metis
next
  case (OpUpdateSet sid opts)
  with ex obtain s0 u where s0: "db_getVariableSet sid db = Inr s0" "checkSet (VariableSet_update opts s0) db = Inr u"
      "db_updateVariableSet (VariableSet_update opts s0) db = Inr db'"
    by (auto simp: UpdateVariableSet_def Let_def split: sum.splits)
  obtain row where "row \<in> set (vdb_sets db)" "row_ID row = sid" "s0 = scanVariableSet db row"
    using getVariableSet_row [OF s0(1)] .
  then show ?thesis
    using updateSet_inv [OF inv s0(2,3)] by (auto simp: VariableSet_update_def)
next
  case (OpDeleteSet sid)
  with ex show ?thesis
    using deleteSet_inv [OF inv] by (auto simp: DeleteVariableSet_def split: sum.splits)
next
  case (OpApplySet sid wids)
  with ex show ?thesis
    using createSetWorkspaces_frame inv var_inv_set_workspaces
    by (auto simp: ApplySetToWorkspaces_def split: sum.splits) metis
next
  case (OpRemoveSet sid wids)
  with ex show ?thesis
    using deleteSetWorkspaces_frame inv var_inv_set_workspaces
    by (auto simp: DeleteSetFromWorkspaces_def split: sum.splits) metis
qed

lemma reachable_var_inv: "reachable_vars db \<Longrightarrow> var_inv db"
proof (induction rule: reachable_vars.induct)
  case (init db)
  then show ?case by (auto simp: initial_vars_def var_inv_def tables_ok_def no_conflicts_def)
next
  case (step db env opn db')
  then show ?case using exec_var_inv by blast
qed

section \<open>Lemmas: what a run sees\<close>

text \<open>Every set that is applied to a workspace is of the organization of the workspace.\<close>

definition applied_within :: "TfeID \<Rightarrow> var_db \<Rightarrow> bool" where
  "applied_within ws db \<longleftrightarrow>
     (\<forall>row \<in> set (vdb_sets db). (row_ID row, ws) \<in> set (vdb_set_workspaces db) \<longrightarrow>
        map_of (vdb_workspaces db) ws = Some (row_Organization row))"

lemma unique_of_no_clash:
  assumes "distinct (map var_ID vs)" "\<forall>v \<in> set vs. \<forall>w \<in> set vs. \<not> clash v w"
  shows "unique_vars vs"
proof -
  have "v = w" if "v \<in> set vs" "w \<in> set vs" "var_Category v = var_Category w" "var_Key v = var_Key w" for v w
    using assms that by (auto simp: clash_def distinct_map inj_on_def)
  moreover have "distinct vs" using assms(1) by (simp add: distinct_map)
  ultimately show ?thesis by (auto simp: unique_vars_def distinct_map inj_on_def)
qed

lemma unique_scope:
  assumes "var_inv db"
  shows "unique_vars (filter (\<lambda>v. var_ParentID v = p) (vdb_variables db))"
  using assms
  by (intro unique_of_no_clash) (auto simp: var_inv_def tables_ok_def no_conflicts_def same_scope_def distinct_map_filter)

lemma unique_scan: "var_inv db \<Longrightarrow> unique_vars (vs_Variables (scanVariableSet db row))"
  using unique_scope [of db "row_ID row"] by (simp add: unique_vars_def scanVariableSet_def comp_def)

lemma unique_concat:
  assumes "\<forall>r \<in> set rows. unique_vars (f r)" "distinct rows"
    and "\<And>r r' v w. r \<in> set rows \<Longrightarrow> r' \<in> set rows \<Longrightarrow> r \<noteq> r' \<Longrightarrow> v \<in> set (f r) \<Longrightarrow> w \<in> set (f r') \<Longrightarrow>
      (var_Category v, var_Key v) \<noteq> (var_Category w, var_Key w)"
  shows "unique_vars (concat (map f rows))"
  using assms
proof (induction rows)
  case (Cons r rows)
  have "unique_vars (concat (map f rows))"
    using Cons.prems by (intro Cons.IH) auto
  moreover have "(var_Category v, var_Key v) \<noteq> (var_Category w, var_Key w)"
    if "v \<in> set (f r)" "w \<in> set (concat (map f rows))" for v w
    using that Cons.prems(2,3) by (auto dest!: Cons.prems(3) [of r, rotated 3])
  ultimately show ?case
    using Cons.prems(1) by (auto simp: unique_vars_def)
qed (simp add: unique_vars_def)

lemma scan_member:
  assumes "v \<in> set (vs_Variables (scanVariableSet db row))"
  obtains x where "x \<in> set (vdb_variables db)" "var_ParentID x = row_ID row" "var_Key x = var_Key v"
    "var_Category x = var_Category v"
  using assms by (auto simp: scanVariableSet_def)

lemma workspace_row_org:
  "applied_within ws db \<Longrightarrow> row \<in> set (vdb_sets db) \<Longrightarrow> workspace_set ws db row \<Longrightarrow>
     map_of (vdb_workspaces db) ws = Some (row_Organization row)"
  by (auto simp: applied_within_def workspace_set_def)

lemma unique_globals:
  assumes inv: "var_inv db" and app: "applied_within ws db"
  shows "unique_vars (concat (map vs_Variables (filter vs_Global (db_listVariableSetsByWorkspace ws db))))"
proof -
  let ?rows = "filter (\<lambda>r. workspace_set ws db r \<and> row_Global r) (vdb_sets db)"
  have ok: "tables_ok db" using inv by (simp add: var_inv_def)
  have "unique_vars (concat (map (\<lambda>r. vs_Variables (scanVariableSet db r)) ?rows))"
  proof (rule unique_concat)
    show "distinct ?rows" using ok by (auto simp: tables_ok_def distinct_map)
    fix r r' v w
    assume r: "r \<in> set ?rows" "r' \<in> set ?rows" "r \<noteq> r'"
      and vw: "v \<in> set (vs_Variables (scanVariableSet db r))" "w \<in> set (vs_Variables (scanVariableSet db r'))"
    obtain x where x: "x \<in> set (vdb_variables db)" "var_ParentID x = row_ID r" "var_Key x = var_Key v"
        "var_Category x = var_Category v"
      using scan_member [OF vw(1)] .
    obtain y where y: "y \<in> set (vdb_variables db)" "var_ParentID y = row_ID r'" "var_Key y = var_Key w"
        "var_Category y = var_Category w"
      using scan_member [OF vw(2)] .
    have "row_Organization r = row_Organization r'"
      using workspace_row_org [OF app, of r] workspace_row_org [OF app, of r'] r by simp
    then have "same_scope db x y"
      using r x y by (auto simp: same_scope_def global_in_def)
    then have "\<not> clash x y" using inv x y by (auto simp: var_inv_def no_conflicts_def)
    moreover have "row_ID r \<noteq> row_ID r'" using row_unique [OF ok] r by auto
    then have "var_ID x \<noteq> var_ID y" using var_unique [OF ok x(1) y(1)] x y by auto
    ultimately show "(var_Category v, var_Key v) \<noteq> (var_Category w, var_Key w)"
      using x y by (auto simp: clash_def)
  qed (use unique_scan [OF inv] in blast)
  then show ?thesis
    by (simp add: db_listVariableSetsByWorkspace_def filter_map comp_def)
qed

lemma names_distinct:
  assumes inv: "var_inv db" and app: "applied_within ws db"
  shows "distinct (map vs_Name (filter (\<lambda>s. \<not> vs_Global s) (db_listVariableSetsByWorkspace ws db)))"
proof -
  let ?rows = "filter (\<lambda>r. workspace_set ws db r \<and> \<not> row_Global r) (vdb_sets db)"
  have ok: "tables_ok db" using inv by (simp add: var_inv_def)
  have "r = r'" if "r \<in> set ?rows" "r' \<in> set ?rows" "row_Name r = row_Name r'" for r r'
  proof -
    have "row_Organization r = row_Organization r'"
      using workspace_row_org [OF app, of r] workspace_row_org [OF app, of r'] that by simp
    then show ?thesis using that ok by (auto simp: tables_ok_def distinct_map inj_on_def)
  qed
  then have "distinct (map row_Name ?rows)"
    using ok by (auto simp: tables_ok_def distinct_map inj_on_def)
  then show ?thesis
    by (simp add: db_listVariableSetsByWorkspace_def filter_map comp_def)
qed

section \<open>Properties\<close>

text \<open>
  C34: No conflicts, ever: whatever sequence of operations has been performed, on behalf of whomever, two
  different variables of one workspace or set, or of two global sets of one organization, differ in
  key or category, and every stored variable satisfies its constraints and has a parent.
\<close>

theorem variables_never_conflict:
  assumes "reachable_vars db" "v \<in> set (vdb_variables db)" "w \<in> set (vdb_variables db)"
  shows "variable_wf v \<and> parent_exists db v \<and>
    (v \<noteq> w \<and> same_scope db v w \<longrightarrow> (var_Key v, var_Category v) \<noteq> (var_Key w, var_Category w))"
proof -
  have inv: "var_inv db" by (rule reachable_var_inv [OF assms(1)])
  then have ok: "tables_ok db" by (simp add: var_inv_def)
  then have "v \<noteq> w \<Longrightarrow> var_ID v \<noteq> var_ID w" using var_unique assms(2,3) by blast
  moreover have "same_scope db v w \<Longrightarrow> \<not> clash v w"
    using inv assms(2,3) by (simp add: var_inv_def no_conflicts_def)
  ultimately show ?thesis
    using ok assms(2) by (auto simp: clash_def tables_ok_def)
qed

definition vars_ws :: TfeID where "vars_ws = \<lparr>tfe_kind = WorkspaceKind, tfe_id = ''1''\<rparr>"

definition vars_other_ws :: TfeID where "vars_other_ws = \<lparr>tfe_kind = WorkspaceKind, tfe_id = ''2''\<rparr>"

definition demo_vars0 :: var_db where
  "demo_vars0 = \<lparr>vdb_variables = [], vdb_sets = [], vdb_set_workspaces = [],
     vdb_workspaces = [(vars_ws, ''acme''), (vars_other_ws, ''other'')], vdb_organizations = [''acme'', ''other'']\<rparr>"

definition demo_var_run :: Run where
  "demo_var_run = example_run\<lparr>run_WorkspaceID := vars_ws, run_Variables := []\<rparr>"

definition demo_var_env :: "nat \<Rightarrow> var_env" where
  "demo_var_env n = \<lparr>ve_ctx = \<lparr>ctx_subject = Some ManagerSubject, ctx_skipAuthz = True\<rparr>,
     ve_policies = (\<lambda>_. Inl ErrResourceNotFound), ve_rnd = (\<lambda>_. n), ve_vrnd = (\<lambda>_. 0),
     ve_getRun = (\<lambda>_. Inr demo_var_run)\<rparr>"

text \<open>A workspace with a variable, and a set of its organization that is applied to it, with another.\<close>

definition demo_var1 :: Variable where
  "demo_var1 = \<lparr>var_ID = NewTfeID (\<lambda>_. 0) VariableKind, var_Key = TrimSpace ''region '', var_Value = TrimSpace ''eu'',
     var_Description = [], var_Category = CategoryTerraform, var_Sensitive = True, var_HCL = False,
     var_ParentID = vars_ws, var_VersionID = ''1''\<rparr>"

definition demo_set_row :: set_row where
  "demo_set_row = \<lparr>row_ID = NewTfeID (\<lambda>_. 1) VariableSetKind, row_Name = ''s'', row_Description = [],
     row_Global = False, row_Organization = ''acme''\<rparr>"

definition demo_var2 :: Variable where
  "demo_var2 = demo_var1\<lparr>var_ID := NewTfeID (\<lambda>_. 2) VariableKind, var_ParentID := row_ID demo_set_row\<rparr>"

definition demo_vars :: var_db where
  "demo_vars = demo_vars0\<lparr>vdb_variables := [demo_var1, demo_var2], vdb_sets := [demo_set_row],
     vdb_set_workspaces := [(row_ID demo_set_row, vars_ws)]\<rparr>"

lemma demo_authorize [simp]: "var_authorize (demo_var_env n) action kind rid db = Inr ManagerSubject"
  by (simp add: var_authorize_def Authorize_def demo_var_env_def)

lemma demo_kinds [simp]: "tfe_kind vars_ws = WorkspaceKind" "tfe_kind (row_ID demo_set_row) = VariableSetKind"
  "tfe_kind (NewTfeID rnd k) = k"
  by (simp_all add: vars_ws_def demo_set_row_def NewTfeID_def)

lemma demo_env_simps [simp]: "ve_rnd (demo_var_env n) = (\<lambda>_. n)" "ve_getRun (demo_var_env n) rid = Inr demo_var_run"
  by (simp_all add: demo_var_env_def)

lemma demo_new_ids: "NewTfeID (\<lambda>_. 2) VariableKind \<noteq> NewTfeID (\<lambda>_. 0) VariableKind"
  by (simp add: NewTfeID_def GenerateRandomStringFromAlphabet_def base58_def) (rule exI [of _ 0], simp)

lemma demo_newVariable:
  "newVariable (\<lambda>_. n) vrnd pid demo_var_opts =
     Inr (demo_var1\<lparr>var_ID := NewTfeID (\<lambda>_. n) VariableKind, var_ParentID := pid\<rparr>)"
  by (simp add: newVariable_def demo_var_opts_def demo_var1_def setter_defs when_given_def newVersion_def)

lemma demo_var1_simps [simp]: "var_ParentID demo_var1 = vars_ws" "var_ID demo_var1 = NewTfeID (\<lambda>_. 0) VariableKind"
  "var_Category demo_var1 = CategoryTerraform"
  by (simp_all add: demo_var1_def)

lemma demo_vars_reachable: "reachable_vars demo_vars"
proof -
  let ?db1 = "demo_vars0\<lparr>vdb_variables := [demo_var1]\<rparr>"
  let ?db2 = "?db1\<lparr>vdb_sets := [demo_set_row], vdb_set_workspaces := [(row_ID demo_set_row, vars_ws)]\<rparr>"
  have "reachable_vars demo_vars0"
    by (rule reachable_vars.init) (simp add: initial_vars_def demo_vars0_def vars_ws_def vars_other_ws_def)
  moreover have "demo_var1\<lparr>var_ID := NewTfeID (\<lambda>_. 0) VariableKind, var_ParentID := vars_ws\<rparr> = demo_var1"
    by (simp add: demo_var1_def)
  then have "exec_var (demo_var_env 0) (OpCreateVariable vars_ws demo_var_opts) demo_vars0 = Inr ?db1"
    by (simp add: CreateVariable_def svc_createVariable_def demo_newVariable checkVariable_def db_listVariables_def
        checkConflicts_def db_createVariable_def demo_vars0_def)
  ultimately have 1: "reachable_vars ?db1" by (rule reachable_vars.step)
  have "exec_var (demo_var_env 1) (OpCreateSet ''acme'' \<lparr>cso_Name = ''s'', cso_Description = [], cso_Global = False,
      cso_Workspaces = [vars_ws]\<rparr>) ?db1 = Inr ?db2"
    by (simp add: CreateVariableSet_def newSet_def db_createVariableSet_def demo_vars0_def demo_set_row_def)
  with 1 have 2: "reachable_vars ?db2" by (rule reachable_vars.step)
  have "exec_var (demo_var_env 2) (OpCreateVariable (row_ID demo_set_row) demo_var_opts) ?db2 = Inr demo_vars"
    using demo_new_ids
    by (simp add: CreateVariable_def svc_createVariable_def demo_newVariable checkVariable_def db_getVariableSet_def
        scanVariableSet_def db_listVariables_def checkConflicts_def db_createVariable_def demo_vars_def demo_vars0_def
        demo_var2_def demo_set_row_def vars_ws_def NewTfeID_def)
  with 2 show ?thesis by (rule reachable_vars.step)
qed

lemma variables_never_conflict_witness:
  "variable_wf demo_var1 \<and> parent_exists demo_vars demo_var1 \<and> demo_var2 \<in> set (vdb_variables demo_vars)"
  using variables_never_conflict [OF demo_vars_reachable, of demo_var1 demo_var2] by (simp add: demo_vars_def)

text \<open>
  C35: The variables of a run: in every reachable database in which the sets applied to the workspace are
  of its organization, a run is given exactly the variables that take effect by precedence, each key
  and category once.
\<close>

theorem effective_variables:
  assumes "reachable_vars db" "ve_getRun env runID = Inr run" "applied_within (run_WorkspaceID run) db"
    and "ListEffectiveVariables env runID db = Inr vs"
  shows "unique_vars vs \<and> (\<forall>c \<in> {CategoryTerraform, CategoryEnv}. \<forall>k v.
    v \<in> set vs \<and> sets_var c k v \<longleftrightarrow>
      takes_effect (db_listVariableSetsByWorkspace (run_WorkspaceID run) db)
        (filter (\<lambda>v. var_ParentID v = run_WorkspaceID run) (vdb_variables db)) (run_Variables run) c k v)"
proof -
  let ?ws = "run_WorkspaceID run"
  let ?sets = "db_listVariableSetsByWorkspace ?ws db"
  let ?vars = "filter (\<lambda>v. var_ParentID v = ?ws) (vdb_variables db)"
  have inv: "var_inv db" by (rule reachable_var_inv [OF assms(1)])
  have vs: "vs = Merge ?sets ?vars (Some run)"
    using assms(2,4)
    by (auto simp: ListEffectiveVariables_def ListWorkspaceVariableSets_def ListVariables_def db_listVariables_def
        split: sum.splits if_splits)
  have "\<forall>s \<in> set ?sets. unique_vars (vs_Variables s)"
    using unique_scan [OF inv] by (auto simp: db_listVariableSetsByWorkspace_def)
  from Merge_conditions [OF unique_scope [OF inv] unique_globals [OF inv assms(3)] this names_distinct [OF inv assms(3)],
      of ?ws "Some run"]
  show ?thesis unfolding vs run_vars_def option.case .
qed

lemma effective_variables_witness:
  "\<exists>vs. ListEffectiveVariables (demo_var_env 0) zero_id demo_vars = Inr vs \<and> unique_vars vs \<and>
     demo_var1 \<in> set vs"
proof -
  have run: "run_WorkspaceID demo_var_run = vars_ws" "run_Variables demo_var_run = []"
    by (simp_all add: demo_var_run_def)
  have app: "applied_within vars_ws demo_vars"
    by (auto simp: applied_within_def demo_vars_def demo_vars0_def demo_set_row_def)
  obtain vs where vs: "ListEffectiveVariables (demo_var_env 0) zero_id demo_vars = Inr vs"
    by (simp add: ListEffectiveVariables_def ListWorkspaceVariableSets_def ListVariables_def db_listVariables_def run)
  have "takes_effect (db_listVariableSetsByWorkspace vars_ws demo_vars)
      (filter (\<lambda>v. var_ParentID v = vars_ws) (vdb_variables demo_vars)) [] CategoryTerraform (var_Key demo_var1) demo_var1"
    by (auto simp: takes_effect_def sets_var_def demo_vars_def)
  then show ?thesis
    using effective_variables [OF demo_vars_reachable demo_env_simps(2) _ vs] app vs run by auto
qed

lemma owners_authorized:
  assumes "Team_IsOwners t" "ve_ctx env = \<lparr>ctx_subject = Some (TeamSubject t), ctx_skipAuthz = False\<rparr>"
  shows "var_authorize env action kind (Pointer_ID (OrganizationName_ID (team_Organization t))) db = Inr (TeamSubject t)"
proof -
  have "lineage_loop (otf_resolvers (var_tables db)) (Pointer_ID (OrganizationName_ID (team_Organization t))) [] = Some (Inr [])"
    by (subst lineage_loop.simps) (simp add: otf_resolvers_def kind_defs)
  then show ?thesis
    using assms
    by (simp add: var_authorize_def Authorize_def generateRequest_def Team_CanAccess_def other_organization_def
        req_Organization_def req_Workspace_def req_ancestor_def kind_defs)
qed

text \<open>
  A set can be applied to any workspace: only the organization of the set is authorized, so that the
  owners of an organization can put the variables of their sets into the runs of a workspace of any
  other organization.
\<close>

theorem set_applied_across_organizations:
  assumes "db_getVariableSet setID db = Inr s" "Team_IsOwners t" "team_Organization t = vs_Organization s"
    and "ve_ctx env = \<lparr>ctx_subject = Some (TeamSubject t), ctx_skipAuthz = False\<rparr>"
    and "map_of (vdb_workspaces db) wid = Some org" "(setID, wid) \<notin> set (vdb_set_workspaces db)"
  shows "\<exists>db'. ApplySetToWorkspaces env setID [wid] db = Inr db' \<and>
    (\<exists>s' \<in> set (db_listVariableSetsByWorkspace wid db').
       vs_ID s' = setID \<and> vs_Organization s' = vs_Organization s \<and> vs_Variables s' = vs_Variables s)"
proof -
  obtain row where row: "row \<in> set (vdb_sets db)" "row_ID row = setID" "s = scanVariableSet db row"
    using getVariableSet_row [OF assms(1)] .
  let ?db = "db\<lparr>vdb_set_workspaces := vdb_set_workspaces db @ [(setID, wid)]\<rparr>"
  have "wid \<in> fst ` set (vdb_workspaces db)" using map_of_SomeD [OF assms(5)] by force
  then have "ApplySetToWorkspaces env setID [wid] db = Inr ?db"
    using owners_authorized [OF assms(2,4)] assms(1,3,6) row
    by (auto simp: ApplySetToWorkspaces_def with_set_def)
  moreover have "scanVariableSet ?db row \<in> set (db_listVariableSetsByWorkspace wid ?db)"
    using row by (auto simp: db_listVariableSetsByWorkspace_def workspace_set_def)
  ultimately show ?thesis
    using row by (intro exI [of _ ?db] conjI bexI [of _ "scanVariableSet ?db row"]) (simp_all add: scanVariableSet_def)
qed

lemma set_applied_across_organizations_witness:
  "\<exists>db'. ApplySetToWorkspaces ((demo_var_env 0)\<lparr>ve_ctx := \<lparr>ctx_subject = Some (TeamSubject (demo_team ''owners'' ''acme'')),
      ctx_skipAuthz = False\<rparr>\<rparr>) (row_ID demo_set_row) [vars_other_ws] demo_vars = Inr db' \<and>
    (\<exists>s' \<in> set (db_listVariableSetsByWorkspace vars_other_ws db'). vs_Organization s' = ''acme'') \<and>
    map_of (vdb_workspaces demo_vars) vars_other_ws = Some ''other''"
proof -
  have other: "map_of (vdb_workspaces demo_vars) vars_other_ws = Some ''other''" "vars_other_ws \<noteq> vars_ws"
    by (simp_all add: demo_vars_def demo_vars0_def vars_ws_def vars_other_ws_def)
  have "db_getVariableSet (row_ID demo_set_row) demo_vars = Inr (scanVariableSet demo_vars demo_set_row)"
    by (simp add: db_getVariableSet_def demo_vars_def)
  from set_applied_across_organizations [OF this, of "demo_team ''owners'' ''acme''"
      "(demo_var_env 0)\<lparr>ve_ctx := \<lparr>ctx_subject = Some (TeamSubject (demo_team ''owners'' ''acme'')), ctx_skipAuthz = False\<rparr>\<rparr>"
      vars_other_ws "''other''"]
  show ?thesis
    using other by (auto simp: demo_team_def Team_IsOwners_def demo_set_row_def demo_vars_def)
qed

end
