(* ===== verification/State.thy ===== *)
theory State
  imports Authz RunLogs "HOL-Library.AList" "HOL-Library.List_Lexorder" "HOL-Library.Char_ord" "HOL-Library.Multiset"
begin

text \<open>
  Terraform state (\<open>internal/state\<close>): state versions with their serial numbers, the factory that
  creates them, upload, rollback and deletion over the tables of versions and outputs, and the
  difference between two state files. JSON decoding and the MD5 hash are parameters of the
  environment.
\<close>

section \<open>State files (file.go)\<close>

record FileOutput =
  fo_Value :: "byte list"
  fo_Sensitive :: bool

record state_Resource =
  sr_Name :: string
  sr_ProviderURI :: string
  sr_Type :: string
  sr_Module :: string

text \<open>A Go map with its keys is an association list with distinct keys.\<close>

record state_File =
  sf_Version :: int
  sf_TerraformVersion :: string
  sf_Serial :: int
  sf_Lineage :: string
  sf_Outputs :: "(string \<times> FileOutput) list"
  sf_Resources :: "state_Resource list"

text \<open>What \<open>json.Unmarshal\<close> puts into a variable of type \<open>any\<close>.\<close>

datatype json_any = JsonBool bool | JsonNumber | JsonString | JsonArray | JsonObject | JsonNull

definition json_type :: "json_any \<Rightarrow> string" where
  "json_type x =
     (case x of JsonBool _ \<Rightarrow> ''bool'' | JsonNumber \<Rightarrow> ''number'' | JsonString \<Rightarrow> ''string''
      | JsonArray \<Rightarrow> ''tuple'' | JsonObject \<Rightarrow> ''object'' | JsonNull \<Rightarrow> ''null'')"

definition FileOutput_Type :: "(byte list \<Rightarrow> json_any result) \<Rightarrow> FileOutput \<Rightarrow> string result" where
  "FileOutput_Type unmarshal r = map_sum id json_type (unmarshal (fo_Value r))"

definition ModuleName :: "state_Resource \<Rightarrow> string" where
  "ModuleName r =
     (if sr_Module r = [] then ''root''
      else if take 7 (sr_Module r) = ''module.'' then drop 7 (sr_Module r) else sr_Module r)"

section \<open>State versions (version.go)\<close>

datatype StateStatus = SVPending | SVFinalized | SVDiscarded

record StateOutput =
  so_ID :: TfeID
  so_Name :: string
  so_Type :: string
  so_Value :: "byte list"
  so_Sensitive :: bool
  so_StateVersionID :: TfeID

record StateVersion =
  sv_ID :: TfeID
  sv_CreatedAt :: gtime
  sv_Serial :: int
  sv_State :: "byte list option"
  sv_Status :: StateStatus
  sv_Outputs :: "(string \<times> StateOutput) list"
  sv_WorkspaceID :: TfeID

record CreateStateVersionOptions =
  cso_State :: "byte list option"
  cso_WorkspaceID :: TfeID
  cso_Serial :: "int option"

text \<open>
  The tables: versions (whose rows have no outputs of their own), outputs, workspaces with their
  organization, and the column of workspaces that refers to the current version.
\<close>

record state_db =
  sdb_versions :: "StateVersion list"
  sdb_outputs :: "StateOutput list"
  sdb_workspaces :: "(TfeID \<times> string) list"
  sdb_current :: "TfeID \<rightharpoonup> TfeID"

text \<open>
  What an operation takes from its surroundings; \<open>se_rnd i\<close> is the randomness of the \<open>i\<close>-th
  identifier it makes.
\<close>

record state_env =
  se_ctx :: authz_ctx
  se_policies :: "ID \<Rightarrow> Policy result"
  se_rnd :: "nat \<Rightarrow> nat \<Rightarrow> nat"
  se_clk :: clock
  se_md5 :: "byte list \<Rightarrow> byte list"
  se_unmarshal :: "byte list \<Rightarrow> state_File result"
  se_unmarshal_any :: "byte list \<Rightarrow> json_any result"

section \<open>Queries (db.go, output\_db.go)\<close>

definition db_createVersion :: "StateVersion \<Rightarrow> state_db \<Rightarrow> state_db result" where
  "db_createVersion v db =
     (if \<not> int4 (sv_Serial v) then Inl (Errorf ''integer out of range'')
      else if sv_ID v \<in> set (map sv_ID (sdb_versions db)) then Inl ErrResourceAlreadyExists
      else if sv_WorkspaceID v \<notin> set (map fst (sdb_workspaces db)) then Inl (Errorf ''foreign key violation'')
      else Inr (db\<lparr>sdb_versions := sdb_versions db @ [v\<lparr>sv_Outputs := []\<rparr>]\<rparr>))"

fun db_createOutputs :: "StateOutput list \<Rightarrow> state_db \<Rightarrow> state_db result" where
  "db_createOutputs [] db = Inr db"
| "db_createOutputs (svo # outputs) db =
     (if so_ID svo \<in> set (map so_ID (sdb_outputs db)) then Inl ErrResourceAlreadyExists
      else if so_StateVersionID svo \<notin> set (map sv_ID (sdb_versions db)) then Inl (Errorf ''foreign key violation'')
      else db_createOutputs outputs (db\<lparr>sdb_outputs := sdb_outputs db @ [svo]\<rparr>))"

definition db_uploadStateAndFinalize :: "TfeID \<Rightarrow> byte list \<Rightarrow> state_db \<Rightarrow> state_db result" where
  "db_uploadStateAndFinalize svID state db =
     (if svID \<notin> set (map sv_ID (sdb_versions db)) then Inl ErrResourceNotFound
      else Inr (db\<lparr>sdb_versions := map (\<lambda>v. if sv_ID v = svID
                  then v\<lparr>sv_State := Some state, sv_Status := SVFinalized\<rparr> else v) (sdb_versions db)\<rparr>))"

definition db_discardAnyPending :: "TfeID \<Rightarrow> state_db \<Rightarrow> state_db" where
  "db_discardAnyPending workspaceID db =
     db\<lparr>sdb_versions := map (\<lambda>v. if sv_WorkspaceID v = workspaceID \<and> sv_Status v = SVPending
          then v\<lparr>sv_Status := SVDiscarded\<rparr> else v) (sdb_versions db)\<rparr>"

definition db_updateCurrentVersion :: "TfeID \<Rightarrow> TfeID \<Rightarrow> state_db \<Rightarrow> state_db result" where
  "db_updateCurrentVersion workspaceID svID db =
     (if workspaceID \<notin> set (map fst (sdb_workspaces db)) then Inl ErrResourceNotFound
      else if svID \<notin> set (map sv_ID (sdb_versions db)) then Inl (Errorf ''foreign key violation'')
      else Inr (db\<lparr>sdb_current := (sdb_current db)(workspaceID \<mapsto> svID)\<rparr>))"

definition scanVersion :: "state_db \<Rightarrow> StateVersion \<Rightarrow> StateVersion" where
  "scanVersion db row =
     row\<lparr>sv_Outputs := map (\<lambda>svo. (so_Name svo, svo))
          (filter (\<lambda>svo. so_StateVersionID svo = sv_ID row) (sdb_outputs db))\<rparr>"

definition db_getVersion :: "TfeID \<Rightarrow> state_db \<Rightarrow> StateVersion result" where
  "db_getVersion svID db =
     (case find_first (\<lambda>v. sv_ID v = svID) (sdb_versions db) of
        None \<Rightarrow> Inl ErrResourceNotFound | Some row \<Rightarrow> Inr (scanVersion db row))"

definition db_getCurrentVersion :: "TfeID \<Rightarrow> state_db \<Rightarrow> StateVersion result" where
  "db_getCurrentVersion workspaceID db =
     (case find_first (\<lambda>v. sdb_current db workspaceID = Some (sv_ID v)) (sdb_versions db) of
        None \<Rightarrow> Inl ErrResourceNotFound | Some row \<Rightarrow> Inr (scanVersion db row))"

definition db_getState :: "TfeID \<Rightarrow> state_db \<Rightarrow> byte list option result" where
  "db_getState svID db =
     (case find_first (\<lambda>v. sv_ID v = svID) (sdb_versions db) of
        None \<Rightarrow> Inl ErrResourceNotFound | Some row \<Rightarrow> Inr (sv_State row))"

definition db_getPreviousVersion :: "StateVersion \<Rightarrow> state_db \<Rightarrow> StateVersion result" where
  "db_getPreviousVersion sv db =
     (case sort_key (\<lambda>v. - sv_Serial v)
             (filter (\<lambda>v. sv_WorkspaceID v = sv_WorkspaceID sv \<and> sv_Serial v < sv_Serial sv \<and>
                          sv_Status v = SVFinalized) (sdb_versions db)) of
        [] \<Rightarrow> Inl ErrResourceNotFound | row # _ \<Rightarrow> Inr (scanVersion db row))"

definition db_listVersions :: "TfeID \<Rightarrow> PageOptions \<Rightarrow> state_db \<Rightarrow> StateVersion Page option result" where
  "db_listVersions workspaceID opts db =
     db_page (map (scanVersion db) (sort_key (\<lambda>v. - sv_CreatedAt v)
       (filter (\<lambda>v. sv_WorkspaceID v = workspaceID \<and> sv_Status v = SVFinalized) (sdb_versions db)))) opts"

text \<open>A version that a workspace refers to as its current one cannot be deleted; its outputs go with it.\<close>

definition db_deleteVersion :: "TfeID \<Rightarrow> state_db \<Rightarrow> state_db result" where
  "db_deleteVersion svID db =
     (if svID \<notin> set (map sv_ID (sdb_versions db)) then Inl ErrResourceNotFound
      else if list_ex (\<lambda>w. sdb_current db (fst w) = Some svID) (sdb_workspaces db)
      then Inl (Errorf ''deleting the current state version is not allowed'')
      else Inr (db\<lparr>sdb_versions := filter (\<lambda>v. sv_ID v \<noteq> svID) (sdb_versions db),
                   sdb_outputs := filter (\<lambda>svo. so_StateVersionID svo \<noteq> svID) (sdb_outputs db)\<rparr>))"

definition db_getOutput :: "TfeID \<Rightarrow> state_db \<Rightarrow> StateOutput result" where
  "db_getOutput outputID db =
     (case find_first (\<lambda>svo. so_ID svo = outputID) (sdb_outputs db) of
        None \<Rightarrow> Inl ErrResourceNotFound | Some svo \<Rightarrow> Inr svo)"

section \<open>The factory (version.go)\<close>

text \<open>The loop over the outputs of the file; the \<open>i\<close>-th one takes the \<open>i\<close>-th identifier.\<close>

fun file_outputs :: "state_env \<Rightarrow> TfeID \<Rightarrow> nat \<Rightarrow> (string \<times> FileOutput) list \<Rightarrow> StateOutput list result" where
  "file_outputs env svID i [] = Inr []"
| "file_outputs env svID i ((k, v) # outs) =
     (case FileOutput_Type (se_unmarshal_any env) v of Inl e \<Rightarrow> Inl e | Inr typ \<Rightarrow>
     (case file_outputs env svID (Suc i) outs of Inl e \<Rightarrow> Inl e | Inr os \<Rightarrow>
        Inr (\<lparr>so_ID = NewTfeID (se_rnd env i) StateVersionOutputKind, so_Name = k, so_Type = typ,
              so_Value = fo_Value v, so_Sensitive = fo_Sensitive v, so_StateVersionID = svID\<rparr> # os)))"

definition uploadStateAndOutputs ::
  "state_env \<Rightarrow> StateVersion \<Rightarrow> byte list \<Rightarrow> state_db \<Rightarrow> (state_db \<times> StateVersion) result" where
  "uploadStateAndOutputs env sv state db =
     (case se_unmarshal env state of Inl e \<Rightarrow> Inl e | Inr file \<Rightarrow>
     (case file_outputs env (sv_ID sv) 1 (sf_Outputs file) of Inl e \<Rightarrow> Inl e | Inr outputs \<Rightarrow>
      if sv_Status sv \<noteq> SVPending
      then Inl (Errorf ''cannot upload state to a state version with a non-pending status'')
      else case db_createOutputs outputs db of Inl e \<Rightarrow> Inl (Wrap ''creating outputs'' e) | Inr db1 \<Rightarrow>
     (case db_uploadStateAndFinalize (sv_ID sv) state db1 of Inl e \<Rightarrow> Inl (Wrap ''uploading state'' e) | Inr db2 \<Rightarrow>
      let db3 = db_discardAnyPending (sv_WorkspaceID sv) db2 in
     (case db_updateCurrentVersion (sv_WorkspaceID sv) (sv_ID sv) db3 of
        Inl e \<Rightarrow> Inl (Wrap ''updating current version'' e)
      | Inr db4 \<Rightarrow> Inr (db4, sv\<lparr>sv_Status := SVFinalized, sv_Outputs := map (\<lambda>svo. (so_Name svo, svo)) outputs\<rparr>)))))"

definition newWithoutValidation ::
  "state_env \<Rightarrow> int \<Rightarrow> CreateStateVersionOptions \<Rightarrow> state_db \<Rightarrow> (state_db \<times> StateVersion) result" where
  "newWithoutValidation env serial opts db =
     (let sv = \<lparr>sv_ID = NewTfeID (se_rnd env 0) StateVersionKind, sv_CreatedAt = CurrentTimestamp None (se_clk env 0),
                sv_Serial = serial, sv_State = cso_State opts, sv_Status = SVPending, sv_Outputs = [],
                sv_WorkspaceID = cso_WorkspaceID opts\<rparr>
      in case db_createVersion sv db of Inl e \<Rightarrow> Inl (Wrap ''creating version in database'' e) | Inr db1 \<Rightarrow>
        (case cso_State opts of
           None \<Rightarrow> Inr (db1, sv)
         | Some state \<Rightarrow> map_sum (Wrap ''uploading state to database'') id (uploadStateAndOutputs env sv state db1)))"

text \<open>Without a current version, the serial to compare with is -1.\<close>

definition factory_new ::
  "state_env \<Rightarrow> CreateStateVersionOptions \<Rightarrow> state_db \<Rightarrow> (state_db \<times> StateVersion) result" where
  "factory_new env opts db =
     (case cso_Serial opts of None \<Rightarrow> Inl (ErrMissingParameter ''serial'') | Some serial \<Rightarrow>
      (let (curSerial, curState) =
             (case db_getCurrentVersion (cso_WorkspaceID opts) db of
                Inl _ \<Rightarrow> (-1, None) | Inr current \<Rightarrow> (sv_Serial current, sv_State current))
       in if curSerial > serial then Inl (Errorf ''serial not greater than current'')
          else if curSerial = serial \<and> cso_State opts = None then Inl (Errorf ''serial not greater than current'')
          else if curSerial = serial \<and>
                  se_md5 env (case curState of None \<Rightarrow> [] | Some s \<Rightarrow> s) \<noteq>
                  se_md5 env (case cso_State opts of None \<Rightarrow> [] | Some s \<Rightarrow> s)
          then Inl (Errorf ''MD5 mismatch for the same serial'')
          else newWithoutValidation env serial opts db))"

definition factory_rollback :: "state_env \<Rightarrow> TfeID \<Rightarrow> state_db \<Rightarrow> (state_db \<times> StateVersion) result" where
  "factory_rollback env svID db =
     (case db_getVersion svID db of Inl e \<Rightarrow> Inl e | Inr sv \<Rightarrow>
        newWithoutValidation env (sv_Serial sv)
          \<lparr>cso_State = sv_State sv, cso_WorkspaceID = sv_WorkspaceID sv, cso_Serial = Some (sv_Serial sv)\<rparr> db)"

section \<open>The service (service.go)\<close>

definition state_tables :: "state_db \<Rightarrow> parent_tables" where
  "state_tables db =
     \<lparr>pt_workspace = map_of (sdb_workspaces db), pt_team = Map.empty, pt_sshkey = Map.empty,
      pt_variable_set = Map.empty, pt_run = Map.empty,
      pt_state_version = map_of (map (\<lambda>v. (sv_ID v, sv_WorkspaceID v)) (sdb_versions db)),
      pt_config_version = Map.empty, pt_run_trigger = Map.empty, pt_variable = Map.empty\<rparr>"

definition state_authorize :: "state_env \<Rightarrow> Action \<Rightarrow> Kind \<Rightarrow> TfeID \<Rightarrow> state_db \<Rightarrow> Subject result" where
  "state_authorize env action kind rid db =
     (case Authorize (otf_resolvers (state_tables db)) (se_policies env) (se_ctx env) action kind
             (Some (TfeID_ID rid)) of
        Some (Some subj, Inr _) \<Rightarrow> Inr subj
      | Some (_, Inl e) \<Rightarrow> Inl e
      | _ \<Rightarrow> Inl (Errorf ''authorization does not return''))"

definition CreateStateVersion ::
  "state_env \<Rightarrow> CreateStateVersionOptions \<Rightarrow> state_db \<Rightarrow> (state_db \<times> StateVersion) result" where
  "CreateStateVersion env opts db =
     (case state_authorize env CreateAction StateVersionKind (cso_WorkspaceID opts) db of
        Inl e \<Rightarrow> Inl e | Inr _ \<Rightarrow> factory_new env opts db)"

definition ListStateVersions :: "state_env \<Rightarrow> TfeID \<Rightarrow> PageOptions \<Rightarrow> state_db \<Rightarrow> StateVersion Page option result" where
  "ListStateVersions env workspaceID opts db =
     (case state_authorize env ListAction StateVersionKind workspaceID db of
        Inl e \<Rightarrow> Inl e | Inr _ \<Rightarrow> db_listVersions workspaceID opts db)"

definition GetCurrentStateVersion :: "state_env \<Rightarrow> TfeID \<Rightarrow> state_db \<Rightarrow> StateVersion result" where
  "GetCurrentStateVersion env workspaceID db =
     (case state_authorize env GetAction StateVersionKind workspaceID db of
        Inl e \<Rightarrow> Inl e | Inr _ \<Rightarrow> db_getCurrentVersion workspaceID db)"

definition GetPreviousStateVersion :: "state_env \<Rightarrow> StateVersion \<Rightarrow> state_db \<Rightarrow> StateVersion result" where
  "GetPreviousStateVersion env sv db =
     (case state_authorize env GetAction StateVersionKind (sv_WorkspaceID sv) db of
        Inl e \<Rightarrow> Inl e | Inr _ \<Rightarrow> db_getPreviousVersion sv db)"

definition GetStateVersion :: "state_env \<Rightarrow> TfeID \<Rightarrow> state_db \<Rightarrow> StateVersion result" where
  "GetStateVersion env versionID db =
     (case state_authorize env GetAction StateVersionKind versionID db of
        Inl e \<Rightarrow> Inl e | Inr _ \<Rightarrow> db_getVersion versionID db)"

definition DeleteStateVersion :: "state_env \<Rightarrow> TfeID \<Rightarrow> state_db \<Rightarrow> state_db result" where
  "DeleteStateVersion env versionID db =
     (case state_authorize env DeleteAction StateVersionKind versionID db of
        Inl e \<Rightarrow> Inl e | Inr _ \<Rightarrow> db_deleteVersion versionID db)"

definition RollbackStateVersion :: "state_env \<Rightarrow> TfeID \<Rightarrow> state_db \<Rightarrow> (state_db \<times> StateVersion) result" where
  "RollbackStateVersion env versionID db =
     (case state_authorize env RollbackAction StateVersionKind versionID db of
        Inl e \<Rightarrow> Inl e | Inr _ \<Rightarrow> factory_rollback env versionID db)"

text \<open>The upload is authorized by the signature of its address, not by the service.\<close>

definition UploadState :: "state_env \<Rightarrow> TfeID \<Rightarrow> byte list \<Rightarrow> state_db \<Rightarrow> state_db result" where
  "UploadState env svID state db =
     (case db_getVersion svID db of Inl e \<Rightarrow> Inl e | Inr sv \<Rightarrow>
        map_sum id fst (uploadStateAndOutputs env sv state db))"

definition DownloadState :: "state_env \<Rightarrow> TfeID \<Rightarrow> state_db \<Rightarrow> byte list option result" where
  "DownloadState env svID db =
     (case state_authorize env DownloadAction StateVersionKind svID db of
        Inl e \<Rightarrow> Inl e | Inr _ \<Rightarrow> db_getState svID db)"

definition DownloadCurrentState :: "state_env \<Rightarrow> TfeID \<Rightarrow> state_db \<Rightarrow> byte list option result" where
  "DownloadCurrentState env workspaceID db =
     (case GetCurrentStateVersion env workspaceID db of
        Inl e \<Rightarrow> Inl e | Inr v \<Rightarrow> DownloadState env (sv_ID v) db)"

definition GetStateOutput :: "state_env \<Rightarrow> TfeID \<Rightarrow> state_db \<Rightarrow> StateOutput result" where
  "GetStateOutput env outputID db =
     (case db_getOutput outputID db of Inl e \<Rightarrow> Inl e | Inr out \<Rightarrow>
     (case state_authorize env GetAction StateVersionOutputKind (so_StateVersionID out) db of
        Inl e \<Rightarrow> Inl e | Inr _ \<Rightarrow> Inr out))"

section \<open>Reachable tables\<close>

datatype state_op =
    OpCreateSV CreateStateVersionOptions | OpUploadSV TfeID "byte list" | OpDeleteSV TfeID | OpRollbackSV TfeID

fun exec_state :: "state_env \<Rightarrow> state_op \<Rightarrow> state_db \<Rightarrow> state_db result" where
  "exec_state env (OpCreateSV opts) db = map_sum id fst (CreateStateVersion env opts db)"
| "exec_state env (OpUploadSV svID state) db = UploadState env svID state db"
| "exec_state env (OpDeleteSV svID) db = DeleteStateVersion env svID db"
| "exec_state env (OpRollbackSV svID) db = map_sum id fst (RollbackStateVersion env svID db)"

definition initial_state_db :: "state_db \<Rightarrow> bool" where
  "initial_state_db db \<longleftrightarrow> sdb_versions db = [] \<and> sdb_outputs db = [] \<and> sdb_current db = Map.empty"

text \<open>
  The databases that sequences of permitted operations produce, under one JSON decoder; \<open>permit\<close>
  restricts the operations that are considered.
\<close>

inductive reachable_state ::
  "(byte list \<Rightarrow> state_File result) \<Rightarrow> (state_db \<Rightarrow> state_op \<Rightarrow> bool) \<Rightarrow> state_db \<Rightarrow> bool"
  for unm permit where
  init: "initial_state_db db \<Longrightarrow> reachable_state unm permit db"
| step: "reachable_state unm permit db \<Longrightarrow> permit db opn \<Longrightarrow> se_unmarshal env = unm \<Longrightarrow>
    exec_state env opn db = Inr db' \<Longrightarrow> reachable_state unm permit db'"

section \<open>Lemmas: the effect of an upload\<close>

lemma createOutputs_frame:
  "db_createOutputs outs db = Inr db' \<Longrightarrow> db' = db\<lparr>sdb_outputs := sdb_outputs db @ outs\<rparr>"
proof (induction outs arbitrary: db)
  case (Cons svo outs)
  from Cons.prems have "db_createOutputs outs (db\<lparr>sdb_outputs := sdb_outputs db @ [svo]\<rparr>) = Inr db'"
    by (simp split: if_splits)
  from Cons.IH [OF this] show ?case by simp
qed simp

definition finalize_row :: "TfeID \<Rightarrow> TfeID \<Rightarrow> byte list \<Rightarrow> StateVersion \<Rightarrow> StateVersion" where
  "finalize_row ws svID state v =
     (if sv_ID v = svID then v\<lparr>sv_State := Some state, sv_Status := SVFinalized\<rparr>
      else if sv_WorkspaceID v = ws \<and> sv_Status v = SVPending then v\<lparr>sv_Status := SVDiscarded\<rparr> else v)"

lemma finalize_row_simps [simp]:
  "sv_ID (finalize_row ws i s v) = sv_ID v" "sv_WorkspaceID (finalize_row ws i s v) = sv_WorkspaceID v"
  "sv_Serial (finalize_row ws i s v) = sv_Serial v"
  "sv_ID v = i \<Longrightarrow> sv_Status (finalize_row ws i s v) = SVFinalized"
  "sv_ID v = i \<Longrightarrow> sv_State (finalize_row ws i s v) = Some s"
  "sv_ID v \<noteq> i \<Longrightarrow> sv_State (finalize_row ws i s v) = sv_State v"
  by (simp_all add: finalize_row_def)

definition uploaded :: "TfeID \<Rightarrow> TfeID \<Rightarrow> byte list \<Rightarrow> StateOutput list \<Rightarrow> state_db \<Rightarrow> state_db" where
  "uploaded ws svID state outs db =
     db\<lparr>sdb_versions := map (finalize_row ws svID state) (sdb_versions db),
        sdb_outputs := sdb_outputs db @ outs, sdb_current := (sdb_current db)(ws \<mapsto> svID)\<rparr>"

lemma finalize_discard:
  "db_uploadStateAndFinalize i s db = Inr db2 \<Longrightarrow>
     db_discardAnyPending ws db2 = db\<lparr>sdb_versions := map (finalize_row ws i s) (sdb_versions db)\<rparr>"
  by (auto simp: db_uploadStateAndFinalize_def db_discardAnyPending_def finalize_row_def split: if_splits)

lemma upload_effect:
  assumes "uploadStateAndOutputs env sv state db = Inr (db', sv')"
  obtains fl outs where "se_unmarshal env state = Inr fl"
    "file_outputs env (sv_ID sv) 1 (sf_Outputs fl) = Inr outs" "sv_Status sv = SVPending"
    "db' = uploaded (sv_WorkspaceID sv) (sv_ID sv) state outs db"
    "sv_ID sv \<in> set (map sv_ID (sdb_versions db))" "sv_WorkspaceID sv \<in> set (map fst (sdb_workspaces db))"
proof -
  from assms obtain fl outs db1 where
      fl: "se_unmarshal env state = Inr fl" "file_outputs env (sv_ID sv) 1 (sf_Outputs fl) = Inr outs"
      "sv_Status sv = SVPending" "db_createOutputs outs db = Inr db1"
    by (auto simp: uploadStateAndOutputs_def split: sum.splits if_splits)
  have db1: "db1 = db\<lparr>sdb_outputs := sdb_outputs db @ outs\<rparr>" by (rule createOutputs_frame [OF fl(4)])
  from assms fl have id: "sv_ID sv \<in> set (map sv_ID (sdb_versions db))"
    by (simp add: uploadStateAndOutputs_def db1 db_uploadStateAndFinalize_def split: if_splits)
  then obtain db2 where db2: "db_uploadStateAndFinalize (sv_ID sv) state db1 = Inr db2"
    by (simp add: db1 db_uploadStateAndFinalize_def)
  note db3 = finalize_discard [OF db2, of "sv_WorkspaceID sv"]
  from assms fl db2 have up: "db_updateCurrentVersion (sv_WorkspaceID sv) (sv_ID sv)
      (db_discardAnyPending (sv_WorkspaceID sv) db2) = Inr db'"
    by (auto simp: uploadStateAndOutputs_def Let_def split: sum.splits)
  then have ws: "sv_WorkspaceID sv \<in> set (map fst (sdb_workspaces db))"
    and "db' = uploaded (sv_WorkspaceID sv) (sv_ID sv) state outs db"
    by (auto simp: db3 db1 db_updateCurrentVersion_def uploaded_def split: if_splits)
  with that fl id ws show ?thesis by blast
qed

lemma file_outputs_content:
  "file_outputs env i n fos = Inr outs \<Longrightarrow>
     map (\<lambda>svo. (so_Name svo, so_Value svo, so_Sensitive svo)) outs =
       map (\<lambda>(k, fo). (k, fo_Value fo, fo_Sensitive fo)) fos \<and> (\<forall>svo \<in> set outs. so_StateVersionID svo = i)"
  by (induction env i n fos arbitrary: outs rule: file_outputs.induct) (auto split: sum.splits)

section \<open>Lemmas: the invariant\<close>

definition outputs_of :: "state_db \<Rightarrow> TfeID \<Rightarrow> StateOutput list" where
  "outputs_of db svID = filter (\<lambda>svo. so_StateVersionID svo = svID) (sdb_outputs db)"

text \<open>
  A finalized version has a state that decodes, and its outputs are those of the state; any other
  version has neither state nor outputs.
\<close>

definition version_ok :: "(byte list \<Rightarrow> state_File result) \<Rightarrow> state_db \<Rightarrow> StateVersion \<Rightarrow> bool" where
  "version_ok unm db v \<longleftrightarrow>
     (if sv_Status v = SVFinalized
      then \<exists>state file. sv_State v = Some state \<and> unm state = Inr file \<and>
             map (\<lambda>svo. (so_Name svo, so_Value svo, so_Sensitive svo)) (outputs_of db (sv_ID v)) =
             map (\<lambda>(k, fo). (k, fo_Value fo, fo_Sensitive fo)) (sf_Outputs file)
      else sv_State v = None \<and> outputs_of db (sv_ID v) = [])"

definition current_ok :: "state_db \<Rightarrow> bool" where
  "current_ok db \<longleftrightarrow>
     (\<forall>ws svID. sdb_current db ws = Some svID \<longrightarrow> ws \<in> set (map fst (sdb_workspaces db)) \<and>
        (\<exists>v \<in> set (sdb_versions db). sv_ID v = svID \<and> sv_WorkspaceID v = ws \<and> sv_Status v = SVFinalized))"

definition state_inv :: "(byte list \<Rightarrow> state_File result) \<Rightarrow> state_db \<Rightarrow> bool" where
  "state_inv unm db \<longleftrightarrow>
     distinct (map sv_ID (sdb_versions db)) \<and> current_ok db \<and>
     (\<forall>svo \<in> set (sdb_outputs db). so_StateVersionID svo \<in> set (map sv_ID (sdb_versions db))) \<and>
     (\<forall>v \<in> set (sdb_versions db). version_ok unm db v)"

text \<open>The same but for one version, that an upload is about to finalize.\<close>

definition state_inv_but :: "(byte list \<Rightarrow> state_File result) \<Rightarrow> StateVersion \<Rightarrow> state_db \<Rightarrow> bool" where
  "state_inv_but unm r db \<longleftrightarrow>
     distinct (map sv_ID (sdb_versions db)) \<and> current_ok db \<and>
     (\<forall>svo \<in> set (sdb_outputs db). so_StateVersionID svo \<in> set (map sv_ID (sdb_versions db))) \<and>
     (\<forall>v \<in> set (sdb_versions db). sv_ID v \<noteq> sv_ID r \<longrightarrow> version_ok unm db v) \<and>
     r \<in> set (sdb_versions db) \<and> sv_Status r = SVPending \<and> outputs_of db (sv_ID r) = []"

lemma version_unique:
  "distinct (map sv_ID vs) \<Longrightarrow> v \<in> set vs \<Longrightarrow> w \<in> set vs \<Longrightarrow> sv_ID v = sv_ID w \<Longrightarrow> v = w"
  by (auto simp: distinct_map inj_on_def)

lemma find_version:
  "distinct (map sv_ID vs) \<Longrightarrow> v \<in> set vs \<Longrightarrow> find_first (\<lambda>x. sv_ID x = sv_ID v) vs = Some v"
  by (induction vs) (auto simp: image_iff)

lemma state_inv_but_pending:
  "state_inv unm db \<Longrightarrow> r \<in> set (sdb_versions db) \<Longrightarrow> sv_Status r = SVPending \<Longrightarrow> state_inv_but unm r db"
  by (auto simp: state_inv_def state_inv_but_def version_ok_def)

lemma outputs_of_uploaded:
  assumes "\<forall>svo \<in> set outs. so_StateVersionID svo = i"
  shows "outputs_of (uploaded ws i s outs db) j = (if j = i then outputs_of db i @ outs else outputs_of db j)"
proof -
  have "filter (\<lambda>svo. so_StateVersionID svo = j) outs = (if j = i then outs else [])"
    using assms by (auto simp: filter_id_conv filter_empty_conv)
  then show ?thesis by (simp add: outputs_of_def uploaded_def)
qed

lemma uploaded_inv:
  assumes inv: "state_inv_but unm r db"
    and fl: "unm s = Inr fl" "file_outputs env (sv_ID r) n (sf_Outputs fl) = Inr outs"
    and ws: "sv_WorkspaceID r \<in> set (map fst (sdb_workspaces db))"
  shows "state_inv unm (uploaded (sv_WorkspaceID r) (sv_ID r) s outs db)" (is "state_inv unm ?db")
proof -
  note outs = file_outputs_content [OF fl(2)]
  note new = outputs_of_uploaded [of outs "sv_ID r" "sv_WorkspaceID r" s db]
  have ids: "map sv_ID (sdb_versions ?db) = map sv_ID (sdb_versions db)" by (simp add: uploaded_def)
  have "version_ok unm ?db (finalize_row (sv_WorkspaceID r) (sv_ID r) s v)" if v: "v \<in> set (sdb_versions db)" for v
  proof (cases "sv_ID v = sv_ID r")
    case True
    then show ?thesis
      using inv outs new fl(1) by (simp add: version_ok_def state_inv_but_def)
  next
    case False
    then have ok: "version_ok unm db v" using inv v by (simp add: state_inv_but_def)
    show ?thesis
      using ok False new outs by (auto simp: version_ok_def finalize_row_def split: if_splits)
  qed
  moreover have "current_ok ?db"
    unfolding current_ok_def
  proof (intro allI impI)
    fix w i assume cur: "sdb_current ?db w = Some i"
    show "w \<in> set (map fst (sdb_workspaces ?db)) \<and> (\<exists>v \<in> set (sdb_versions ?db). sv_ID v = i \<and>
        sv_WorkspaceID v = w \<and> sv_Status v = SVFinalized)"
    proof (cases "w = sv_WorkspaceID r")
      case True
      then show ?thesis
        using cur inv ws by (auto simp: uploaded_def state_inv_but_def intro!: bexI [of _ r])
    next
      case False
      then have "sdb_current db w = Some i" using cur by (simp add: uploaded_def)
      then obtain v where v: "v \<in> set (sdb_versions db)" "sv_ID v = i" "sv_WorkspaceID v = w" "sv_Status v = SVFinalized"
          "w \<in> set (map fst (sdb_workspaces db))"
        using inv unfolding state_inv_but_def current_ok_def by blast
      then have "sv_Status (finalize_row (sv_WorkspaceID r) (sv_ID r) s v) = SVFinalized"
        by (simp add: finalize_row_def)
      with v show ?thesis by (auto simp: uploaded_def intro!: bexI [of _ v])
    qed
  qed
  moreover have "so_StateVersionID svo \<in> set (map sv_ID (sdb_versions ?db))" if "svo \<in> set (sdb_outputs ?db)" for svo
    unfolding ids using that outs inv by (auto simp: uploaded_def state_inv_but_def)
  moreover have "distinct (map sv_ID (sdb_versions ?db))" unfolding ids using inv by (simp add: state_inv_but_def)
  ultimately show ?thesis by (auto simp: state_inv_def uploaded_def)
qed

lemma getVersion_row:
  assumes "db_getVersion i db = Inr sv"
  obtains row where "row \<in> set (sdb_versions db)" "sv_ID row = i" "sv = scanVersion db row"
  using assms by (auto simp: db_getVersion_def split: option.splits dest: find_first_SomeD)

lemma scanVersion_simps [simp]:
  "sv_ID (scanVersion db r) = sv_ID r" "sv_Serial (scanVersion db r) = sv_Serial r"
  "sv_State (scanVersion db r) = sv_State r" "sv_Status (scanVersion db r) = sv_Status r"
  "sv_WorkspaceID (scanVersion db r) = sv_WorkspaceID r"
  by (simp_all add: scanVersion_def)

text \<open>What a new version does to the tables, with and without a state.\<close>

definition new_row :: "state_env \<Rightarrow> int \<Rightarrow> CreateStateVersionOptions \<Rightarrow> StateVersion" where
  "new_row env serial opts =
     \<lparr>sv_ID = NewTfeID (se_rnd env 0) StateVersionKind, sv_CreatedAt = CurrentTimestamp None (se_clk env 0),
      sv_Serial = serial, sv_State = cso_State opts, sv_Status = SVPending, sv_Outputs = [],
      sv_WorkspaceID = cso_WorkspaceID opts\<rparr>"

lemma new_row_simps [simp]:
  "sv_Serial (new_row env n opts) = n" "sv_State (new_row env n opts) = cso_State opts"
  "sv_Status (new_row env n opts) = SVPending" "sv_WorkspaceID (new_row env n opts) = cso_WorkspaceID opts"
  by (simp_all add: new_row_def)

definition with_row :: "StateVersion \<Rightarrow> state_db \<Rightarrow> state_db" where
  "with_row r db = db\<lparr>sdb_versions := sdb_versions db @ [r]\<rparr>"

lemma with_row_simps [simp]:
  "sdb_versions (with_row r db) = sdb_versions db @ [r]" "sdb_outputs (with_row r db) = sdb_outputs db"
  "sdb_current (with_row r db) = sdb_current db" "sdb_workspaces (with_row r db) = sdb_workspaces db"
  "outputs_of (with_row r db) i = outputs_of db i"
  by (simp_all add: with_row_def outputs_of_def)

lemma newWithoutValidation_effect:
  assumes "newWithoutValidation env serial opts db = Inr (db', sv)"
  shows "sv_ID (new_row env serial opts) \<notin> set (map sv_ID (sdb_versions db)) \<and>
    cso_WorkspaceID opts \<in> set (map fst (sdb_workspaces db)) \<and>
    (case cso_State opts of
       None \<Rightarrow> db' = with_row (new_row env serial opts) db
     | Some s \<Rightarrow> \<exists>sv'. uploadStateAndOutputs env (new_row env serial opts) s (with_row (new_row env serial opts) db)
                        = Inr (db', sv'))"
proof -
  have row: "new_row env serial opts\<lparr>sv_Outputs := []\<rparr> = new_row env serial opts" by (simp add: new_row_def)
  show ?thesis
    using assms unfolding newWithoutValidation_def new_row_def [symmetric] Let_def
    by (auto simp: db_createVersion_def row with_row_def [symmetric] split: if_splits option.splits sum.splits
        simp: map_sum_def)
qed

lemma with_row_inv:
  assumes inv: "state_inv unm db" and fresh: "sv_ID r \<notin> set (map sv_ID (sdb_versions db))"
    and r: "sv_Status r = SVPending"
  shows "state_inv_but unm r (with_row r db)" and "sv_State r = None \<Longrightarrow> state_inv unm (with_row r db)"
proof -
  have none: "outputs_of db (sv_ID r) = []"
    using inv fresh unfolding state_inv_def outputs_of_def filter_empty_conv by metis
  have cur: "current_ok (with_row r db)"
    using inv by (auto simp: state_inv_def current_ok_def)
  have vok: "version_ok unm (with_row r db) v = version_ok unm db v" for v
    by (simp add: version_ok_def)
  show but: "state_inv_but unm r (with_row r db)"
    using inv fresh r none cur by (auto simp: state_inv_def state_inv_but_def vok)
  show "state_inv unm (with_row r db)" if "sv_State r = None"
  proof -
    have "version_ok unm (with_row r db) r" using that r none by (simp add: version_ok_def)
    with but show ?thesis
      using inv fresh cur by (auto simp: state_inv_def vok)
  qed
qed

lemma newWithoutValidation_inv:
  assumes inv: "state_inv unm db" and unm: "se_unmarshal env = unm"
    and new: "newWithoutValidation env serial opts db = Inr (db', sv)"
  shows "state_inv unm db'"
proof (cases "cso_State opts")
  case None
  with newWithoutValidation_effect [OF new] with_row_inv(2) [OF inv, of "new_row env serial opts"]
  show ?thesis by simp
next
  case (Some s)
  let ?r = "new_row env serial opts"
  from Some newWithoutValidation_effect [OF new] obtain sv' where
      up: "uploadStateAndOutputs env ?r s (with_row ?r db) = Inr (db', sv')"
      and fresh: "sv_ID ?r \<notin> set (map sv_ID (sdb_versions db))" by auto
  note but = with_row_inv(1) [OF inv fresh new_row_simps(3)]
  from up obtain fl outs where fl: "se_unmarshal env s = Inr fl" "file_outputs env (sv_ID ?r) 1 (sf_Outputs fl) = Inr outs"
      "db' = uploaded (sv_WorkspaceID ?r) (sv_ID ?r) s outs (with_row ?r db)"
      "sv_WorkspaceID ?r \<in> set (map fst (sdb_workspaces (with_row ?r db)))"
    by (rule upload_effect)
  show ?thesis unfolding fl(3) by (rule uploaded_inv [OF but _ fl(2,4)]) (use unm fl(1) in simp)
qed

lemma UploadState_effect:
  assumes "UploadState env i s db = Inr db'"
  obtains r fl outs where "r \<in> set (sdb_versions db)" "sv_ID r = i" "sv_Status r = SVPending" "se_unmarshal env s = Inr fl"
    "file_outputs env i 1 (sf_Outputs fl) = Inr outs" "db' = uploaded (sv_WorkspaceID r) i s outs db"
    "sv_WorkspaceID r \<in> set (map fst (sdb_workspaces db))"
proof -
  from assms obtain sv sv' where sv: "db_getVersion i db = Inr sv" "uploadStateAndOutputs env sv s db = Inr (db', sv')"
    by (auto simp: UploadState_def map_sum_def split: sum.splits)
  obtain r where r: "r \<in> set (sdb_versions db)" "sv_ID r = i" "sv = scanVersion db r"
    using getVersion_row [OF sv(1)] .
  from sv(2) obtain fl outs where "se_unmarshal env s = Inr fl"
      "file_outputs env (sv_ID sv) 1 (sf_Outputs fl) = Inr outs" "sv_Status sv = SVPending"
      "db' = uploaded (sv_WorkspaceID sv) (sv_ID sv) s outs db" "sv_WorkspaceID sv \<in> set (map fst (sdb_workspaces db))"
    by (rule upload_effect)
  with that [OF r(1,2)] r show ?thesis by simp
qed

lemma deleteVersion_inv:
  assumes inv: "state_inv unm db" and del: "db_deleteVersion i db = Inr db'"
  shows "state_inv unm db'"
proof -
  have db': "db' = db\<lparr>sdb_versions := filter (\<lambda>v. sv_ID v \<noteq> i) (sdb_versions db),
      sdb_outputs := filter (\<lambda>svo. so_StateVersionID svo \<noteq> i) (sdb_outputs db)\<rparr>"
    and nocur: "\<forall>w \<in> set (sdb_workspaces db). sdb_current db (fst w) \<noteq> Some i"
    using del by (auto simp: db_deleteVersion_def list_ex_iff split: if_splits)
  have outs: "outputs_of db' j = outputs_of db j" if "j \<noteq> i" for j
    using that by (auto simp: outputs_of_def db' intro: filter_cong)
  have "version_ok unm db' v" if "v \<in> set (sdb_versions db')" for v
    using that inv outs [of "sv_ID v"] by (auto simp: db' state_inv_def version_ok_def)
  moreover have "current_ok db'"
    unfolding current_ok_def
  proof (intro allI impI)
    fix ws j assume "sdb_current db' ws = Some j"
    then have j: "sdb_current db ws = Some j" by (simp add: db')
    then obtain v where v: "ws \<in> set (map fst (sdb_workspaces db))" "v \<in> set (sdb_versions db)" "sv_ID v = j"
        "sv_WorkspaceID v = ws" "sv_Status v = SVFinalized"
      using inv unfolding state_inv_def current_ok_def by blast
    then have "j \<noteq> i" using nocur j by auto
    with v show "ws \<in> set (map fst (sdb_workspaces db')) \<and> (\<exists>v \<in> set (sdb_versions db'). sv_ID v = j \<and>
        sv_WorkspaceID v = ws \<and> sv_Status v = SVFinalized)"
      by (auto simp: db' intro!: bexI [of _ v])
  qed
  ultimately show ?thesis
    using inv by (auto simp: state_inv_def db' distinct_map_filter)
qed

lemma exec_state_inv:
  assumes inv: "state_inv unm db" and unm: "se_unmarshal env = unm" and ex: "exec_state env opn db = Inr db'"
  shows "state_inv unm db'"
proof (cases opn)
  case (OpCreateSV opts)
  with ex obtain serial sv where "newWithoutValidation env serial opts db = Inr (db', sv)"
    by (auto simp: CreateStateVersion_def factory_new_def map_sum_def Let_def split: sum.splits option.splits if_splits prod.splits)
  then show ?thesis by (rule newWithoutValidation_inv [OF inv unm])
next
  case (OpUploadSV i s)
  then have "UploadState env i s db = Inr db'" using ex by simp
  then obtain r fl outs where r: "r \<in> set (sdb_versions db)" "sv_ID r = i" "sv_Status r = SVPending" "se_unmarshal env s = Inr fl"
    "file_outputs env i 1 (sf_Outputs fl) = Inr outs" "db' = uploaded (sv_WorkspaceID r) i s outs db"
    "sv_WorkspaceID r \<in> set (map fst (sdb_workspaces db))"
    by (rule UploadState_effect)
  then show ?thesis
    using uploaded_inv [OF state_inv_but_pending [OF inv r(1,3)], of s fl env 1 outs] unm by simp
next
  case (OpDeleteSV i)
  with ex show ?thesis using deleteVersion_inv [OF inv] by (auto simp: DeleteStateVersion_def split: sum.splits)
next
  case (OpRollbackSV i)
  with ex obtain serial opts sv where "newWithoutValidation env serial opts db = Inr (db', sv)"
    by (auto simp: RollbackStateVersion_def factory_rollback_def map_sum_def split: sum.splits)
  then show ?thesis by (rule newWithoutValidation_inv [OF inv unm])
qed

lemma reachable_state_inv: "reachable_state unm permit db \<Longrightarrow> state_inv unm db"
proof (induction rule: reachable_state.induct)
  case (init db)
  then show ?case by (simp add: initial_state_db_def state_inv_def current_ok_def)
next
  case (step db opn env db')
  then show ?case using exec_state_inv by blast
qed

section \<open>Lemmas: serials\<close>

text \<open>The current version of a workspace, and its serial and state as the factory sees them.\<close>

definition current_version :: "state_db \<Rightarrow> TfeID \<Rightarrow> StateVersion option" where
  "current_version db ws = find_first (\<lambda>v. sdb_current db ws = Some (sv_ID v)) (sdb_versions db)"

definition current_serial :: "state_db \<Rightarrow> TfeID \<Rightarrow> int" where
  "current_serial db ws = (case current_version db ws of None \<Rightarrow> -1 | Some v \<Rightarrow> sv_Serial v)"

definition current_state :: "state_db \<Rightarrow> TfeID \<Rightarrow> byte list" where
  "current_state db ws =
     (case current_version db ws of None \<Rightarrow> [] | Some v \<Rightarrow> (case sv_State v of None \<Rightarrow> [] | Some s \<Rightarrow> s))"

text \<open>Every pending version is ahead of the current one.\<close>

definition pending_ahead :: "state_db \<Rightarrow> bool" where
  "pending_ahead db \<longleftrightarrow>
     (\<forall>v \<in> set (sdb_versions db). sv_Status v = SVPending \<longrightarrow> current_serial db (sv_WorkspaceID v) < sv_Serial v)"

lemma current_version_eq:
  assumes "distinct (map sv_ID (sdb_versions db))" "v \<in> set (sdb_versions db)" "sdb_current db ws = Some (sv_ID v)"
  shows "current_version db ws = Some v"
proof -
  have "(\<lambda>x. sdb_current db ws = Some (sv_ID x)) = (\<lambda>x. sv_ID x = sv_ID v)"
    using assms(3) by auto
  then have "current_version db ws = find_first (\<lambda>x. sv_ID x = sv_ID v) (sdb_versions db)"
    unfolding current_version_def by (rule arg_cong [where f = "\<lambda>P. find_first P (sdb_versions db)"])
  then show ?thesis by (simp add: find_version [OF assms(1,2)])
qed

lemma current_version_None: "sdb_current db ws = None \<Longrightarrow> current_version db ws = None"
  by (simp add: current_version_def find_first_None_iff)

lemma current_cases:
  assumes "state_inv unm db"
  obtains "sdb_current db ws = None" "current_version db ws = None"
  | v where "v \<in> set (sdb_versions db)" "sv_WorkspaceID v = ws" "sdb_current db ws = Some (sv_ID v)"
      "current_version db ws = Some v" "sv_Status v = SVFinalized"
proof (cases "sdb_current db ws")
  case None
  then show ?thesis using that(1) current_version_None [OF None] by simp
next
  case (Some i)
  then obtain v where "v \<in> set (sdb_versions db)" "sv_ID v = i" "sv_WorkspaceID v = ws" "sv_Status v = SVFinalized"
    using assms unfolding state_inv_def current_ok_def by blast
  then show ?thesis using that(2) Some current_version_eq assms by (auto simp: state_inv_def)
qed

lemma find_first_append_None:
  "\<forall>x \<in> set ys. \<not> P x \<Longrightarrow> find_first P (xs @ ys) = find_first P xs"
  by (induction xs) (auto simp: find_first_None_iff)

lemma current_with_row:
  assumes "state_inv unm db" "sv_ID r \<notin> set (map sv_ID (sdb_versions db))"
  shows "current_version (with_row r db) ws = current_version db ws"
proof -
  have "sdb_current db ws \<noteq> Some (sv_ID r)"
  proof
    assume "sdb_current db ws = Some (sv_ID r)"
    then obtain v where "v \<in> set (sdb_versions db)" "sv_ID v = sv_ID r"
      using assms(1) unfolding state_inv_def current_ok_def by blast
    then show False using assms(2) by (auto simp: image_iff)
  qed
  then show ?thesis by (simp add: current_version_def find_first_append_None)
qed

lemma current_uploaded:
  assumes inv: "state_inv_but unm r db"
  shows "current_version (uploaded (sv_WorkspaceID r) (sv_ID r) s outs db) ws =
    (if ws = sv_WorkspaceID r then Some (finalize_row (sv_WorkspaceID r) (sv_ID r) s r)
     else map_option (finalize_row (sv_WorkspaceID r) (sv_ID r) s) (current_version db ws))"
    (is "current_version ?db ws = _")
proof (cases "ws = sv_WorkspaceID r")
  case True
  let ?v = "finalize_row (sv_WorkspaceID r) (sv_ID r) s r"
  have "map sv_ID (sdb_versions ?db) = map sv_ID (sdb_versions db)" by (simp add: uploaded_def)
  then have "distinct (map sv_ID (sdb_versions ?db))" using inv unfolding state_inv_but_def by metis
  then have "current_version ?db ws = Some ?v"
    using inv True by (intro current_version_eq) (auto simp: state_inv_but_def uploaded_def)
  with True show ?thesis by simp
next
  case False
  then show ?thesis by (simp add: current_version_def uploaded_def find_first_map comp_def)
qed

lemma finalize_current:
  assumes "state_inv_but unm r db" "current_version db ws = Some v"
  shows "finalize_row (sv_WorkspaceID r) (sv_ID r) s v = v"
proof -
  have v: "v \<in> set (sdb_versions db)" "sdb_current db ws = Some (sv_ID v)"
    using assms(2) by (auto simp: current_version_def dest: find_first_SomeD)
  then obtain w where "w \<in> set (sdb_versions db)" "sv_ID w = sv_ID v" "sv_Status w = SVFinalized"
    using assms(1) unfolding state_inv_but_def current_ok_def by blast
  then have fin: "sv_Status v = SVFinalized"
    using v assms(1) version_unique unfolding state_inv_but_def by metis
  then have "sv_ID v \<noteq> sv_ID r"
    using v assms(1) version_unique [of "sdb_versions db" v r] by (auto simp: state_inv_but_def)
  with fin show ?thesis by (simp add: finalize_row_def)
qed

lemma serial_uploaded:
  assumes "state_inv_but unm r db"
  shows "current_serial (uploaded (sv_WorkspaceID r) (sv_ID r) s outs db) ws =
      (if ws = sv_WorkspaceID r then sv_Serial r else current_serial db ws)"
    and "current_state (uploaded (sv_WorkspaceID r) (sv_ID r) s outs db) ws =
      (if ws = sv_WorkspaceID r then s else current_state db ws)"
  using current_uploaded [OF assms, of s outs ws] finalize_current [OF assms, of ws _ s]
  by (auto simp: current_serial_def current_state_def split: option.splits)

lemma ahead_uploaded:
  assumes inv: "state_inv_but unm r db" and ahead: "\<And>v. v \<in> set (sdb_versions db) \<Longrightarrow>
      sv_WorkspaceID v \<noteq> sv_WorkspaceID r \<Longrightarrow> sv_Status v = SVPending \<Longrightarrow> current_serial db (sv_WorkspaceID v) < sv_Serial v"
  shows "pending_ahead (uploaded (sv_WorkspaceID r) (sv_ID r) s outs db)"
proof -
  have "sv_WorkspaceID v \<noteq> sv_WorkspaceID r \<and> sv_Status v = SVPending"
    if "sv_Status (finalize_row (sv_WorkspaceID r) (sv_ID r) s v) = SVPending" "v \<in> set (sdb_versions db)" for v
    using that by (auto simp: finalize_row_def split: if_splits)
  with ahead show ?thesis
    unfolding pending_ahead_def serial_uploaded(1) [OF inv] by (auto simp: uploaded_def)
qed

text \<open>
  What an accepted new version means for the serials: with a state it becomes current, without one it
  stays pending.
\<close>

lemma new_serials:
  assumes inv: "state_inv unm db" and unm: "se_unmarshal env = unm" and ahead: "pending_ahead db"
    and new: "newWithoutValidation env serial opts db = Inr (db', sv)"
  shows "case cso_State opts of
      None \<Rightarrow> current_serial db' = current_serial db \<and> current_state db' = current_state db \<and>
        (current_serial db (cso_WorkspaceID opts) < serial \<longrightarrow> pending_ahead db')
    | Some s \<Rightarrow> current_serial db' = (current_serial db)(cso_WorkspaceID opts := serial) \<and>
        current_state db' = (current_state db)(cso_WorkspaceID opts := s) \<and> pending_ahead db'"
proof -
  let ?r = "new_row env serial opts"
  have fresh: "sv_ID ?r \<notin> set (map sv_ID (sdb_versions db))" using newWithoutValidation_effect [OF new] by simp
  have same: "current_serial (with_row ?r db) = current_serial db" "current_state (with_row ?r db) = current_state db"
    using current_with_row [OF inv fresh] by (simp_all add: current_serial_def current_state_def fun_eq_iff)
  show ?thesis
  proof (cases "cso_State opts")
    case None
    then have "db' = with_row ?r db" using newWithoutValidation_effect [OF new] by simp
    then show ?thesis using None same ahead by (auto simp: pending_ahead_def)
  next
    case (Some s)
    then obtain sv' where up: "uploadStateAndOutputs env ?r s (with_row ?r db) = Inr (db', sv')"
      using newWithoutValidation_effect [OF new] by auto
    obtain fl outs where db': "db' = uploaded (sv_WorkspaceID ?r) (sv_ID ?r) s outs (with_row ?r db)"
      using upload_effect [OF up] by metis
    note but = with_row_inv(1) [OF inv fresh new_row_simps(3)]
    have "pending_ahead db'"
      unfolding db' by (rule ahead_uploaded [OF but]) (use ahead same in \<open>auto simp: pending_ahead_def\<close>)
    moreover have "current_serial db' ws = ((current_serial db)(cso_WorkspaceID opts := serial)) ws"
      "current_state db' ws = ((current_state db)(cso_WorkspaceID opts := s)) ws" for ws
      using serial_uploaded [OF but, of s outs ws] same unfolding db' by simp_all
    ultimately show ?thesis using Some by (simp add: fun_eq_iff)
  qed
qed

text \<open>Only finalized versions are rolled back.\<close>

definition rollback_finalized :: "state_db \<Rightarrow> state_op \<Rightarrow> bool" where
  "rollback_finalized db opn =
     (case opn of
        OpRollbackSV i \<Rightarrow> list_ex (\<lambda>v. sv_ID v = i \<and> sv_Status v = SVFinalized) (sdb_versions db)
      | _ \<Rightarrow> True)"

lemma getCurrentVersion_eq:
  "db_getCurrentVersion ws db =
     (case current_version db ws of None \<Rightarrow> Inl ErrResourceNotFound | Some row \<Rightarrow> Inr (scanVersion db row))"
  by (simp add: db_getCurrentVersion_def current_version_def)

lemma factory_new_ok:
  assumes "factory_new env opts db = Inr (db', sv)"
  shows "\<exists>serial. newWithoutValidation env serial opts db = Inr (db', sv) \<and>
    current_serial db (cso_WorkspaceID opts) \<le> serial \<and>
    (cso_State opts = None \<longrightarrow> current_serial db (cso_WorkspaceID opts) < serial) \<and>
    (\<forall>s. cso_State opts = Some s \<and> current_serial db (cso_WorkspaceID opts) = serial \<longrightarrow>
       se_md5 env (current_state db (cso_WorkspaceID opts)) = se_md5 env s)"
  using assms
  by (auto simp: factory_new_def getCurrentVersion_eq current_serial_def current_state_def Let_def
      split: option.splits if_splits)

lemma current_deleted:
  assumes inv: "state_inv unm db" and del: "db_deleteVersion i db = Inr db'"
  shows "current_version db' = current_version db"
proof
  fix ws
  have db': "sdb_versions db' = filter (\<lambda>v. sv_ID v \<noteq> i) (sdb_versions db)" "sdb_current db' = sdb_current db"
    and nocur: "\<forall>w \<in> set (sdb_workspaces db). sdb_current db (fst w) \<noteq> Some i"
    using del by (auto simp: db_deleteVersion_def list_ex_iff split: if_splits)
  have inv': "state_inv unm db'" by (rule deleteVersion_inv [OF inv del])
  from inv show "current_version db' ws = current_version db ws"
  proof (cases rule: current_cases [where ws = ws])
    case 1
    then show ?thesis using current_version_None [of db' ws] db'(2) by simp
  next
    case (2 v)
    then have "ws \<in> set (map fst (sdb_workspaces db))"
      using inv unfolding state_inv_def current_ok_def by blast
    then have "sv_ID v \<noteq> i" using nocur 2 by auto
    then have "current_version db' ws = Some v"
      using 2 db' inv' by (intro current_version_eq) (auto simp: state_inv_def)
    with 2 show ?thesis by simp
  qed
qed

text \<open>The effect of an operation on the current version of a workspace.\<close>

lemma exec_state_serials:
  assumes inv: "state_inv unm db" and unm: "se_unmarshal env = unm" and ahead: "pending_ahead db"
    and ex: "exec_state env opn db = Inr db'" and permit: "rollback_finalized db opn"
  shows "pending_ahead db' \<and> ((\<forall>i. opn \<noteq> OpRollbackSV i) \<longrightarrow>
    current_serial db ws \<le> current_serial db' ws \<and>
    (current_serial db' ws = current_serial db ws \<longrightarrow>
       se_md5 env (current_state db' ws) = se_md5 env (current_state db ws)))"
proof (cases opn)
  case (OpCreateSV opts)
  with ex obtain sv where "factory_new env opts db = Inr (db', sv)"
    by (auto simp: CreateStateVersion_def map_sum_def split: sum.splits)
  from factory_new_ok [OF this] obtain serial where serial: "newWithoutValidation env serial opts db = Inr (db', sv) \<and>
    current_serial db (cso_WorkspaceID opts) \<le> serial \<and>
    (cso_State opts = None \<longrightarrow> current_serial db (cso_WorkspaceID opts) < serial) \<and>
    (\<forall>s. cso_State opts = Some s \<and> current_serial db (cso_WorkspaceID opts) = serial \<longrightarrow>
       se_md5 env (current_state db (cso_WorkspaceID opts)) = se_md5 env s)" ..
  then show ?thesis
    using new_serials [OF inv unm ahead serial [THEN conjunct1]] by (cases "cso_State opts") auto
next
  case (OpUploadSV i s)
  then have "UploadState env i s db = Inr db'" using ex by simp
  then obtain r outs where r: "r \<in> set (sdb_versions db)" "sv_ID r = i" "sv_Status r = SVPending"
      "db' = uploaded (sv_WorkspaceID r) (sv_ID r) s outs db"
    using UploadState_effect [of env i s db db'] by metis
  note but = state_inv_but_pending [OF inv r(1,3)]
  have "pending_ahead db'"
    unfolding r(4) by (rule ahead_uploaded [OF but]) (use ahead in \<open>auto simp: pending_ahead_def\<close>)
  moreover have "current_serial db (sv_WorkspaceID r) < sv_Serial r" using ahead r by (auto simp: pending_ahead_def)
  ultimately show ?thesis
    using serial_uploaded [OF but, of s outs ws] unfolding r(4) by auto
next
  case (OpDeleteSV i)
  with ex have del: "db_deleteVersion i db = Inr db'" by (auto simp: DeleteStateVersion_def split: sum.splits)
  then have vs: "set (sdb_versions db') \<subseteq> set (sdb_versions db)"
    by (auto simp: db_deleteVersion_def split: if_splits)
  note cur = current_deleted [OF inv del]
  then have "current_serial db' = current_serial db" "current_state db' = current_state db"
    by (simp_all add: current_serial_def current_state_def fun_eq_iff)
  then show ?thesis using ahead vs by (auto simp: pending_ahead_def)
next
  case (OpRollbackSV i)
  with ex obtain sv sv' where sv: "db_getVersion i db = Inr sv"
      "newWithoutValidation env (sv_Serial sv) \<lparr>cso_State = sv_State sv, cso_WorkspaceID = sv_WorkspaceID sv,
         cso_Serial = Some (sv_Serial sv)\<rparr> db = Inr (db', sv')"
    by (auto simp: RollbackStateVersion_def factory_rollback_def map_sum_def split: sum.splits)
  obtain row where row: "row \<in> set (sdb_versions db)" "sv_ID row = i" "sv = scanVersion db row"
    using getVersion_row [OF sv(1)] .
  from permit OpRollbackSV obtain v where "v \<in> set (sdb_versions db)" "sv_ID v = i" "sv_Status v = SVFinalized"
    by (auto simp: rollback_finalized_def list_ex_iff)
  then have "sv_Status row = SVFinalized"
    using row inv version_unique unfolding state_inv_def by metis
  moreover have "version_ok unm db row" using row inv by (simp add: state_inv_def)
  ultimately obtain s where "sv_State sv = Some s"
    using row by (auto simp: version_ok_def)
  then show ?thesis using new_serials [OF inv unm ahead sv(2)] OpRollbackSV by simp
qed

lemma reachable_ahead: "reachable_state unm rollback_finalized db \<Longrightarrow> pending_ahead db"
proof (induction rule: reachable_state.induct)
  case (init db)
  then show ?case by (simp add: initial_state_db_def pending_ahead_def)
next
  case (step db opn env db')
  then show ?case using exec_state_serials [OF reachable_state_inv [OF step.hyps(1)]] by blast
qed

section \<open>The difference of two state files (diff.go)\<close>

datatype DiffAction = ActionAdd | ActionRemove | ActionChange

record ResourceChange =
  rc_Action :: DiffAction
  rc_Resource :: state_Resource

record OutputChange =
  oc_Action :: DiffAction
  oc_Name :: string
  oc_Old :: "FileOutput option"
  oc_New :: "FileOutput option"

record StateDiff =
  sd_Resources :: "ResourceChange list"
  sd_Outputs :: "OutputChange list"

definition StateDiff_HasChanges :: "StateDiff \<Rightarrow> bool" where
  "StateDiff_HasChanges d \<longleftrightarrow> length (sd_Resources d) > 0 \<or> length (sd_Outputs d) > 0"

definition resourceKey :: "state_Resource \<Rightarrow> string" where
  "resourceKey r = sr_Module r @ ''/'' @ sr_Type r @ ''/'' @ sr_Name r"

definition resource_map :: "state_Resource list \<Rightarrow> (string \<times> state_Resource) list" where
  "resource_map rs = fold (\<lambda>r. AList.update (resourceKey r) r) rs []"

definition diff_resources :: "(string \<times> state_Resource) list \<Rightarrow> (string \<times> state_Resource) list \<Rightarrow> ResourceChange list" where
  "diff_resources fromRes toRes =
     sort_key (\<lambda>c. resourceKey (rc_Resource c))
       (map (\<lambda>p. \<lparr>rc_Action = ActionRemove, rc_Resource = snd p\<rparr>) (filter (\<lambda>p. map_of toRes (fst p) = None) fromRes) @
        map (\<lambda>p. \<lparr>rc_Action = ActionAdd, rc_Resource = snd p\<rparr>) (filter (\<lambda>p. map_of fromRes (fst p) = None) toRes))"

definition output_change :: "FileOutput option \<Rightarrow> FileOutput option \<Rightarrow> string \<Rightarrow> OutputChange list" where
  "output_change old new name =
     (case (old, new) of
        (None, Some n) \<Rightarrow> [\<lparr>oc_Action = ActionAdd, oc_Name = name, oc_Old = None, oc_New = Some n\<rparr>]
      | (Some ov, None) \<Rightarrow> [\<lparr>oc_Action = ActionRemove, oc_Name = name, oc_Old = Some ov, oc_New = None\<rparr>]
      | (Some ov, Some n) \<Rightarrow>
          if fo_Value ov \<noteq> fo_Value n \<or> fo_Sensitive ov \<noteq> fo_Sensitive n
          then [\<lparr>oc_Action = ActionChange, oc_Name = name, oc_Old = Some ov, oc_New = Some n\<rparr>] else []
      | (None, None) \<Rightarrow> [])"

definition state_Diff :: "state_File option \<Rightarrow> state_File \<Rightarrow> StateDiff" where
  "state_Diff from to =
     (let fromRes = (case from of None \<Rightarrow> [] | Some f \<Rightarrow> resource_map (sf_Resources f));
          toRes = resource_map (sf_Resources to);
          fromOut = (case from of None \<Rightarrow> [] | Some f \<Rightarrow> sf_Outputs f);
          toOut = sf_Outputs to;
          names = sort (remdups (map fst fromOut @ map fst toOut))
      in \<lparr>sd_Resources = diff_resources fromRes toRes,
          sd_Outputs = concat (map (\<lambda>name. output_change (map_of fromOut name) (map_of toOut name) name) names)\<rparr>)"

section \<open>Lemmas: differences\<close>

definition resource_keys :: "state_File option \<Rightarrow> string set" where
  "resource_keys f = (case f of None \<Rightarrow> {} | Some f' \<Rightarrow> resourceKey ` set (sf_Resources f'))"

definition file_outputs_map :: "state_File option \<Rightarrow> string \<rightharpoonup> FileOutput" where
  "file_outputs_map f = (case f of None \<Rightarrow> Map.empty | Some f' \<Rightarrow> map_of (sf_Outputs f'))"

text \<open>Reading a difference as a patch: each output change sets or removes its name.\<close>

definition patch_outputs :: "OutputChange list \<Rightarrow> (string \<rightharpoonup> FileOutput) \<Rightarrow> string \<rightharpoonup> FileOutput" where
  "patch_outputs cs m = fold (\<lambda>c m. m(oc_Name c := oc_New c)) cs m"

lemma resource_map_keys:
  "distinct (map fst (resource_map rs)) \<and> fst ` set (resource_map rs) = resourceKey ` set rs \<and>
   (\<forall>p \<in> set (resource_map rs). resourceKey (snd p) = fst p)"
proof -
  have "distinct (map fst al) \<Longrightarrow> \<forall>p \<in> set al. resourceKey (snd p) = fst p \<Longrightarrow>
      distinct (map fst (fold (\<lambda>r. AList.update (resourceKey r) r) rs al)) \<and>
      fst ` set (fold (\<lambda>r. AList.update (resourceKey r) r) rs al) = fst ` set al \<union> resourceKey ` set rs \<and>
      (\<forall>p \<in> set (fold (\<lambda>r. AList.update (resourceKey r) r) rs al). resourceKey (snd p) = fst p)" for al
  proof (induction rs arbitrary: al)
    case (Cons r rs)
    have "p = (resourceKey r, r) \<or> p \<in> set al" if "p \<in> set (AList.update (resourceKey r) r al)" for p
      using that by (induction al) (auto split: if_splits)
    then have "\<forall>p \<in> set (AList.update (resourceKey r) r al). resourceKey (snd p) = fst p"
      using Cons.prems(2) by (metis fst_conv snd_conv)
    from Cons.IH [OF distinct_update [OF Cons.prems(1)] this] show ?case
      by (simp add: dom_update)
  qed simp
  from this [of "[]"] show ?thesis
    by (simp add: resource_map_def)
qed

definition changed_keys :: "DiffAction \<Rightarrow> ResourceChange list \<Rightarrow> string set" where
  "changed_keys a cs = (\<lambda>c. resourceKey (rc_Resource c)) ` {c \<in> set cs. rc_Action c = a}"

lemma diff_resources_keys:
  assumes "\<forall>p \<in> set f. resourceKey (snd p) = fst p" "\<forall>p \<in> set t. resourceKey (snd p) = fst p"
  shows "changed_keys ActionRemove (diff_resources f t) = fst ` set f - fst ` set t"
    and "changed_keys ActionAdd (diff_resources f t) = fst ` set t - fst ` set f"
proof -
  have keys: "(\<lambda>p. resourceKey (snd p)) ` {p \<in> set al. map_of bl (fst p) = None} = fst ` set al - fst ` set bl"
    if "\<forall>p \<in> set al. resourceKey (snd p) = fst p" for al bl :: "(string \<times> state_Resource) list"
  proof -
    have "(\<lambda>p. resourceKey (snd p)) ` {p \<in> set al. map_of bl (fst p) = None} = fst ` {p \<in> set al. map_of bl (fst p) = None}"
      by (rule image_cong) (use that in auto)
    also have "\<dots> = fst ` set al - fst ` set bl" by (force simp: map_of_eq_None_iff)
    finally show ?thesis .
  qed
  have "{c \<in> set (diff_resources f t). rc_Action c = ActionRemove} =
      (\<lambda>p. \<lparr>rc_Action = ActionRemove, rc_Resource = snd p\<rparr>) ` {p \<in> set f. map_of t (fst p) = None}"
    "{c \<in> set (diff_resources f t). rc_Action c = ActionAdd} =
      (\<lambda>p. \<lparr>rc_Action = ActionAdd, rc_Resource = snd p\<rparr>) ` {p \<in> set t. map_of f (fst p) = None}"
    by (auto simp: diff_resources_def)
  then show "changed_keys ActionRemove (diff_resources f t) = fst ` set f - fst ` set t"
    "changed_keys ActionAdd (diff_resources f t) = fst ` set t - fst ` set f"
    using keys [OF assms(1), of t] keys [OF assms(2), of f] by (simp_all add: changed_keys_def image_image)
qed

lemma diff_resources_sorted:
  assumes "distinct (map fst f)" "distinct (map fst t)"
    and "\<forall>p \<in> set f. resourceKey (snd p) = fst p" "\<forall>p \<in> set t. resourceKey (snd p) = fst p"
  shows "sorted (map (\<lambda>c. resourceKey (rc_Resource c)) (diff_resources f t))"
    and "distinct (map (\<lambda>c. resourceKey (rc_Resource c)) (diff_resources f t))"
proof -
  let ?f = "filter (\<lambda>p. map_of t (fst p) = None) f" and ?t = "filter (\<lambda>p. map_of f (fst p) = None) t"
  have "map (\<lambda>c. resourceKey (rc_Resource c)) (map (\<lambda>p. \<lparr>rc_Action = ActionRemove, rc_Resource = snd p\<rparr>) ?f @
      map (\<lambda>p. \<lparr>rc_Action = ActionAdd, rc_Resource = snd p\<rparr>) ?t) = map fst ?f @ map fst ?t"
    using assms(3,4) by auto
  moreover have "distinct (map fst ?f @ map fst ?t)"
    using assms(1,2) by (auto simp: distinct_map_filter map_of_eq_None_iff)
  ultimately have "distinct (map (\<lambda>c. resourceKey (rc_Resource c))
      (map (\<lambda>p. \<lparr>rc_Action = ActionRemove, rc_Resource = snd p\<rparr>) ?f @ map (\<lambda>p. \<lparr>rc_Action = ActionAdd, rc_Resource = snd p\<rparr>) ?t))"
    by (simp only:)
  then show "distinct (map (\<lambda>c. resourceKey (rc_Resource c)) (diff_resources f t))"
    unfolding diff_resources_def by (simp only: distinct_map distinct_sort set_sort)
qed (simp add: diff_resources_def)

lemma output_change_cases:
  "output_change old new name = [] \<longleftrightarrow> old = new"
  "c \<in> set (output_change old new name) \<Longrightarrow> oc_Name c = name \<and> oc_New c = new"
  by (auto simp: output_change_def split: option.splits if_splits intro: FileOutput.equality)

lemma patch_outputs_diff:
  assumes "distinct names"
  shows "patch_outputs (concat (map (\<lambda>n. output_change (from n) (to n) n) names)) from k =
    (if k \<in> set names then to k else from k)"
proof -
  have "patch_outputs (concat (map (\<lambda>n. output_change (from n) (to n) n) names)) m k =
      (if k \<in> set names then to k else m k)" if "\<forall>n \<in> set names. m n = from n" for m
    using assms that
  proof (induction names arbitrary: m)
    case Nil
    then show ?case by (simp add: patch_outputs_def)
  next
    case (Cons n names)
    have step: "patch_outputs (output_change (from n) (to n) n) m = m(n := to n)"
      using Cons.prems(2)
      by (auto simp: patch_outputs_def output_change_def fun_eq_iff split: option.splits intro: FileOutput.equality)
    have "patch_outputs (xs @ ys) m' = patch_outputs ys (patch_outputs xs m')" for xs ys m'
      by (simp add: patch_outputs_def)
    moreover have "\<forall>n' \<in> set names. (m(n := to n)) n' = from n'" using Cons.prems by auto
    with Cons.IH [of "m(n := to n)"] Cons.prems(1)
    have "patch_outputs (concat (map (\<lambda>n. output_change (from n) (to n) n) names)) (m(n := to n)) k =
        (if k \<in> set names then to k else (m(n := to n)) k)" by (meson distinct.simps(2))
    ultimately show ?case using step by simp
  qed
  then show ?thesis by blast
qed

lemma outputs_diff_empty:
  assumes "\<forall>k. k \<notin> set names \<longrightarrow> from k = to k"
  shows "concat (map (\<lambda>n. output_change (from n) (to n) n) names) = [] \<longleftrightarrow> from = to"
  using assms output_change_cases(1) by (auto simp: fun_eq_iff)

section \<open>Properties\<close>

text \<open>
  The tables of state versions are consistent after any sequence of operations: the current version
  of a workspace exists, belongs to it and is finalized; a finalized version has a state that decodes
  and exactly the outputs of that state; a pending or discarded version has neither.
\<close>

theorem state_versions_consistent:
  assumes "reachable_state unm permit db"
  shows "(\<forall>ws svID. sdb_current db ws = Some svID \<longrightarrow>
      (\<exists>v \<in> set (sdb_versions db). sv_ID v = svID \<and> sv_WorkspaceID v = ws \<and> sv_Status v = SVFinalized)) \<and>
    (\<forall>v \<in> set (sdb_versions db). version_ok unm db v)"
  using reachable_state_inv [OF assms] unfolding state_inv_def current_ok_def by blast


text \<open>A scenario: a workspace, a pending version, then one with a state that overtakes it.\<close>

definition sdemo_ws :: TfeID where "sdemo_ws = \<lparr>tfe_kind = WorkspaceKind, tfe_id = ''1''\<rparr>"

definition sdemo_file :: state_File where
  "sdemo_file = \<lparr>sf_Version = 4, sf_TerraformVersion = [], sf_Serial = 0, sf_Lineage = [], sf_Outputs = [], sf_Resources = []\<rparr>"

definition sdemo_env :: "nat \<Rightarrow> state_env" where
  "sdemo_env n = \<lparr>se_ctx = \<lparr>ctx_subject = Some ManagerSubject, ctx_skipAuthz = True\<rparr>,
     se_policies = (\<lambda>_. Inl ErrResourceNotFound), se_rnd = (\<lambda>_ _. n), se_clk = (\<lambda>_. 0), se_md5 = id,
     se_unmarshal = (\<lambda>_. Inr sdemo_file), se_unmarshal_any = (\<lambda>_. Inr JsonNull)\<rparr>"

definition sdemo_opts :: "int \<Rightarrow> byte list option \<Rightarrow> CreateStateVersionOptions" where
  "sdemo_opts n s = \<lparr>cso_State = s, cso_WorkspaceID = sdemo_ws, cso_Serial = Some n\<rparr>"

definition sdemo_db0 :: state_db where
  "sdemo_db0 = \<lparr>sdb_versions = [], sdb_outputs = [], sdb_workspaces = [(sdemo_ws, ''acme'')], sdb_current = Map.empty\<rparr>"

definition sdemo_row :: "nat \<Rightarrow> int \<Rightarrow> byte list option \<Rightarrow> StateStatus \<Rightarrow> StateVersion" where
  "sdemo_row n serial s st = \<lparr>sv_ID = NewTfeID (\<lambda>_. n) StateVersionKind, sv_CreatedAt = CurrentTimestamp None 0,
     sv_Serial = serial, sv_State = s, sv_Status = st, sv_Outputs = [], sv_WorkspaceID = sdemo_ws\<rparr>"

definition sdemo_db1 :: state_db where
  "sdemo_db1 = sdemo_db0\<lparr>sdb_versions := [sdemo_row 0 1 None SVPending]\<rparr>"

definition sdemo_db2 :: state_db where
  "sdemo_db2 = sdemo_db0\<lparr>sdb_versions := [sdemo_row 0 1 None SVDiscarded, sdemo_row 1 2 (Some [7]) SVFinalized],
     sdb_current := [sdemo_ws \<mapsto> NewTfeID (\<lambda>_. 1) StateVersionKind]\<rparr>"

definition sdemo_db3 :: state_db where
  "sdemo_db3 = sdemo_db2\<lparr>sdb_versions := sdb_versions sdemo_db2 @ [sdemo_row 2 1 None SVPending]\<rparr>"

definition sdemo_db4 :: state_db where
  "sdemo_db4 = sdemo_db2\<lparr>sdb_versions := sdb_versions sdemo_db2 @ [sdemo_row 2 1 (Some [8]) SVFinalized],
     sdb_current := [sdemo_ws \<mapsto> NewTfeID (\<lambda>_. 2) StateVersionKind]\<rparr>"

lemma sdemo_authorize [simp]: "state_authorize (sdemo_env n) action kind rid db = Inr ManagerSubject"
  by (simp add: state_authorize_def Authorize_def sdemo_env_def)

lemma sdemo_ids [simp]: "NewTfeID (\<lambda>_. a) StateVersionKind = NewTfeID (\<lambda>_. b) StateVersionKind \<longleftrightarrow> a mod 58 = b mod 58"
  if "a < 3" "b < 3" for a b
proof -
  have "a \<in> {0, 1, 2}" "b \<in> {0, 1, 2}" using that by auto
  then show ?thesis
    by (auto simp: NewTfeID_def GenerateRandomStringFromAlphabet_def base58_def list_eq_iff_nth_eq
        intro!: exI [of _ 0])
qed

lemma sdemo_env_simps [simp]:
  "se_rnd (sdemo_env n) i = (\<lambda>_. n)" "se_clk (sdemo_env n) i = 0" "se_md5 (sdemo_env n) = id"
  "se_unmarshal (sdemo_env n) = (\<lambda>_. Inr sdemo_file)"
  by (simp_all add: sdemo_env_def)

lemmas sdemo_defs = CreateStateVersion_def factory_new_def newWithoutValidation_def db_createVersion_def
  db_getCurrentVersion_def uploadStateAndOutputs_def db_uploadStateAndFinalize_def db_discardAnyPending_def
  db_updateCurrentVersion_def RollbackStateVersion_def factory_rollback_def db_getVersion_def scanVersion_def
  UploadState_def sdemo_opts_def sdemo_db0_def sdemo_db1_def sdemo_db2_def sdemo_db3_def sdemo_db4_def sdemo_row_def
  sdemo_file_def int4_def Let_def

lemma sdemo_steps:
  "exec_state (sdemo_env 0) (OpCreateSV (sdemo_opts 1 None)) sdemo_db0 = Inr sdemo_db1"
  "exec_state (sdemo_env 1) (OpCreateSV (sdemo_opts 2 (Some [7]))) sdemo_db1 = Inr sdemo_db2"
  "exec_state (sdemo_env 2) (OpRollbackSV (NewTfeID (\<lambda>_. 0) StateVersionKind)) sdemo_db2 = Inr sdemo_db3"
  "exec_state (sdemo_env 2) (OpUploadSV (NewTfeID (\<lambda>_. 2) StateVersionKind) [8]) sdemo_db3 = Inr sdemo_db4"
  by (simp_all add: sdemo_defs)

lemma sdemo_reachable: "reachable_state (\<lambda>_. Inr sdemo_file) rollback_finalized sdemo_db2"
proof -
  have "reachable_state (\<lambda>_. Inr sdemo_file) rollback_finalized sdemo_db0"
    by (rule reachable_state.init) (simp add: initial_state_db_def sdemo_db0_def)
  then have "reachable_state (\<lambda>_. Inr sdemo_file) rollback_finalized sdemo_db1"
    by (rule reachable_state.step [OF _ _ _ sdemo_steps(1)]) (simp_all add: rollback_finalized_def)
  then show ?thesis
    by (rule reachable_state.step [OF _ _ _ sdemo_steps(2)]) (simp_all add: rollback_finalized_def)
qed

lemma state_versions_consistent_witness:
  "version_ok (\<lambda>_. Inr sdemo_file) sdemo_db2 (sdemo_row 1 2 (Some [7]) SVFinalized)"
  using state_versions_consistent [OF sdemo_reachable] by (simp add: sdemo_db2_def)


text \<open>
  C32: What is uploaded is what is downloaded: after a state has been accepted, with its version or as the
  upload to a pending version, it is the current state of the workspace.
\<close>

theorem state_roundtrip:
  assumes "reachable_state unm permit db" "se_unmarshal env = unm" "exec_state env opn db = Inr db'"
    and "opn = OpCreateSV opts \<and> cso_State opts = Some s \<and> cso_WorkspaceID opts = ws \<or>
      opn = OpUploadSV i s \<and> (\<exists>v \<in> set (sdb_versions db). sv_ID v = i \<and> sv_WorkspaceID v = ws)"
    and "is_ok (state_authorize env GetAction StateVersionKind ws db')"
    and "\<forall>j. is_ok (state_authorize env DownloadAction StateVersionKind j db')"
  shows "DownloadCurrentState env ws db' = Inr (Some s)"
proof -
  have inv: "state_inv unm db" by (rule reachable_state_inv [OF assms(1)])
  have inv': "state_inv unm db'" by (rule exec_state_inv [OF inv assms(2,3)])
  have "\<exists>r db1 outs. state_inv_but unm r db1 \<and> db' = uploaded (sv_WorkspaceID r) (sv_ID r) s outs db1 \<and> sv_WorkspaceID r = ws"
    using assms(4)
  proof
    assume c: "opn = OpCreateSV opts \<and> cso_State opts = Some s \<and> cso_WorkspaceID opts = ws"
    with assms(3) obtain sv where "factory_new env opts db = Inr (db', sv)"
      by (auto simp: CreateStateVersion_def map_sum_def split: sum.splits)
    from factory_new_ok [OF this] obtain serial where "newWithoutValidation env serial opts db = Inr (db', sv)" by blast
    note eff = newWithoutValidation_effect [OF this]
    then obtain sv' where up: "uploadStateAndOutputs env (new_row env serial opts) s (with_row (new_row env serial opts) db) = Inr (db', sv')"
      using c by auto
    obtain outs where "db' = uploaded (sv_WorkspaceID (new_row env serial opts)) (sv_ID (new_row env serial opts)) s outs
        (with_row (new_row env serial opts) db)"
      using upload_effect [OF up] by metis
    then show ?thesis using with_row_inv(1) [OF inv _ new_row_simps(3)] eff c new_row_simps(4) by blast
  next
    assume u: "opn = OpUploadSV i s \<and> (\<exists>v \<in> set (sdb_versions db). sv_ID v = i \<and> sv_WorkspaceID v = ws)"
    then have "UploadState env i s db = Inr db'" using assms(3) by simp
    then obtain r outs where r: "r \<in> set (sdb_versions db)" "sv_ID r = i" "sv_Status r = SVPending"
        "db' = uploaded (sv_WorkspaceID r) (sv_ID r) s outs db"
      using UploadState_effect [of env i s db db'] by metis
    moreover have "sv_WorkspaceID r = ws"
      using u r(1,2) inv version_unique unfolding state_inv_def by metis
    ultimately show ?thesis using state_inv_but_pending [OF inv r(1,3)] by blast
  qed
  then obtain r where cur: "current_version db' ws = Some (finalize_row (sv_WorkspaceID r) (sv_ID r) s r)"
    using current_uploaded by metis
  let ?v = "finalize_row (sv_WorkspaceID r) (sv_ID r) s r"
  have "?v \<in> set (sdb_versions db')" using cur by (auto simp: current_version_def dest: find_first_SomeD)
  then have "find_first (\<lambda>x. sv_ID x = sv_ID ?v) (sdb_versions db') = Some ?v"
    by (rule find_version [rotated]) (use inv' in \<open>simp add: state_inv_def\<close>)
  then have "db_getState (sv_ID ?v) db' = Inr (Some s)" by (simp add: db_getState_def)
  then show ?thesis
    using assms(5,6) cur
    by (auto simp: DownloadCurrentState_def GetCurrentStateVersion_def DownloadState_def getCurrentVersion_eq
        is_ok_def split: sum.splits)
qed

lemma state_roundtrip_witness:
  "\<exists>db'. exec_state (sdemo_env 2) (OpCreateSV (sdemo_opts 3 (Some [9]))) sdemo_db2 = Inr db' \<and>
     DownloadCurrentState (sdemo_env 2) sdemo_ws db' = Inr (Some [9])"
proof -
  obtain db' where db': "exec_state (sdemo_env 2) (OpCreateSV (sdemo_opts 3 (Some [9]))) sdemo_db2 = Inr db'"
    by (simp add: sdemo_defs)
  with state_roundtrip [OF sdemo_reachable _ db', of "sdemo_opts 3 (Some [9])" "[9]" sdemo_ws] show ?thesis
    by (auto simp: sdemo_opts_def)
qed

text \<open>
  Rolling back to a version that was discarded before it had a state lets the serial go back without
  a rollback of state: the new version is pending with the old serial, and uploading to it replaces
  the current state by one with a lower serial.
\<close>

theorem rollback_discarded_lowers_serial:
  "\<exists>unm env db db1 db2 i j. reachable_state unm rollback_finalized db \<and> se_unmarshal env = unm \<and>
     exec_state env (OpRollbackSV i) db = Inr db1 \<and> current_serial db1 sdemo_ws = current_serial db sdemo_ws \<and>
     exec_state env (OpUploadSV j [8]) db1 = Inr db2 \<and> current_serial db2 sdemo_ws < current_serial db sdemo_ws"
proof -
  have "current_serial sdemo_db3 sdemo_ws = 2" "current_serial sdemo_db2 sdemo_ws = 2" "current_serial sdemo_db4 sdemo_ws = 1"
    by (simp_all add: current_serial_def current_version_def sdemo_defs)
  then show ?thesis
    using sdemo_reachable sdemo_steps(3,4) sdemo_env_simps(4) [of 2] by fastforce
qed


end
