(* ===== verification/Orgs.thy ===== *)
theory Orgs
  imports Authz
begin

text \<open>
  Organizations, their teams and the users that are members of the teams
  (\<open>internal/organization\<close>, \<open>internal/team\<close>, \<open>internal/user\<close>): the records, their constructors and
  updates, the tables with their keys and cascades, and the services. The team service hooks into the
  creation of an organization to create its owners team, and the user service into the creation of an
  owners team to add its creator as a member. A transaction that fails leaves the database as it was.
\<close>

section \<open>Names (organization/name.go, user/username.go)\<close>

definition Organization_NewName :: "string \<Rightarrow> string result" where
  "Organization_NewName name =
     (if name \<noteq> [] \<and> list_all is_name_char name then Inr name else Inl ErrInvalidName)"

definition NewUsername :: "string \<Rightarrow> string result" where
  "NewUsername name =
     (if name = [] then Inl (Wrap ''username must be non-empty'' ErrInvalidName) else Inr name)"

text \<open>
  SQL's \<open>LIKE\<close>: an underscore matches any character, a percent sign any string, a backslash makes the
  next character literal (at the end of a pattern it is an error, taken as no match).
\<close>

fun sql_like :: "string \<Rightarrow> string \<Rightarrow> bool" where
  "sql_like [] s = (s = [])"
| "sql_like (p # ps) [] = (p = CHR ''%'' \<and> sql_like ps [])"
| "sql_like (p # ps) (c # s) =
     (if p = CHR ''%'' then sql_like ps (c # s) \<or> sql_like (p # ps) s
      else if p = CHR ''_'' then sql_like ps s
      else if p = CHR 0x5C then (case ps of [] \<Rightarrow> False | q # qs \<Rightarrow> q = c \<and> sql_like qs s)
      else p = c \<and> sql_like ps s)"

section \<open>Organizations (organization/organization.go)\<close>

record Organization =
  org_ID :: TfeID
  org_CreatedAt :: gtime
  org_UpdatedAt :: gtime
  org_Name :: string
  org_Email :: "string option"
  org_CollaboratorAuthPolicy :: "string option"
  org_SessionRemember :: "int option"
  org_SessionTimeout :: "int option"
  org_AllowForceDeleteWorkspaces :: bool
  org_CostEstimationEnabled :: bool
  org_DefaultMode :: Mode

record OrganizationOptions =
  oo_Name :: "string option"
  oo_Email :: "string option"
  oo_CollaboratorAuthPolicy :: "string option"
  oo_CostEstimationEnabled :: "bool option"
  oo_SessionRemember :: "int option"
  oo_SessionTimeout :: "int option"
  oo_AllowForceDeleteWorkspaces :: "bool option"
  oo_DefaultExecutionMode :: "ExecKind option"
  oo_DefaultAgentPoolID :: "TfeID option"

definition override_option :: "'a option \<Rightarrow> 'a option \<Rightarrow> 'a option" where
  "override_option x d = (if x \<noteq> None then x else d)"

text \<open>
  \<open>NewOrganization\<close> does not check the error of \<open>NewModeWithDefaults\<close>: the organization then gets
  the zero mode, whose kind is the empty string.
\<close>

definition zero_mode :: Mode where
  "zero_mode = \<lparr>mode_kind = OtherExecKind [], mode_agentPoolID = None\<rparr>"

definition NewOrganization :: "(nat \<Rightarrow> nat) \<Rightarrow> clock \<Rightarrow> OrganizationOptions \<Rightarrow> Organization result" where
  "NewOrganization rnd clk opts =
     (case oo_Name opts of
        None \<Rightarrow> Inl ErrRequiredName
      | Some n \<Rightarrow>
          (case Organization_NewName n of Inl e \<Rightarrow> Inl e | Inr name \<Rightarrow>
             Inr \<lparr>org_ID = NewTfeID rnd OrganizationKind,
                  org_CreatedAt = CurrentTimestamp None (clk 0),
                  org_UpdatedAt = CurrentTimestamp None (clk 1),
                  org_Name = name,
                  org_Email = oo_Email opts,
                  org_CollaboratorAuthPolicy = oo_CollaboratorAuthPolicy opts,
                  org_SessionRemember = oo_SessionRemember opts,
                  org_SessionTimeout = oo_SessionTimeout opts,
                  org_AllowForceDeleteWorkspaces = override (oo_AllowForceDeleteWorkspaces opts) False,
                  org_CostEstimationEnabled = override (oo_CostEstimationEnabled opts) False,
                  org_DefaultMode =
                    (case NewModeWithDefaults (oo_DefaultExecutionMode opts) RemoteKind
                            (oo_DefaultAgentPoolID opts) None of
                       Inl _ \<Rightarrow> zero_mode | Inr m \<Rightarrow> m)\<rparr>))"

definition Organization_Update ::
  "gtime \<Rightarrow> OrganizationOptions \<Rightarrow> Organization \<Rightarrow> Organization result" where
  "Organization_Update now opts org =
     (case (case oo_Name opts of None \<Rightarrow> Inr (org_Name org) | Some n \<Rightarrow> Organization_NewName n) of
        Inl e \<Rightarrow> Inl e
      | Inr name \<Rightarrow>
          (case Mode_Update (org_DefaultMode org) (oo_DefaultExecutionMode opts)
                  (oo_DefaultAgentPoolID opts) of
             Inl e \<Rightarrow> Inl e
           | Inr mode \<Rightarrow>
               Inr (org\<lparr>org_Name := name,
                        org_Email := override_option (oo_Email opts) (org_Email org),
                        org_CollaboratorAuthPolicy :=
                          override_option (oo_CollaboratorAuthPolicy opts) (org_CollaboratorAuthPolicy org),
                        org_CostEstimationEnabled :=
                          override (oo_CostEstimationEnabled opts) (org_CostEstimationEnabled org),
                        org_SessionTimeout :=
                          override_option (oo_SessionTimeout opts) (org_SessionTimeout org),
                        org_SessionRemember :=
                          override_option (oo_SessionRemember opts) (org_SessionRemember org),
                        org_AllowForceDeleteWorkspaces :=
                          override (oo_AllowForceDeleteWorkspaces opts) (org_AllowForceDeleteWorkspaces org),
                        org_DefaultMode := mode,
                        org_UpdatedAt := CurrentTimestamp None now\<rparr>)))"

section \<open>Teams (team/team.go, token.go)\<close>

record FullTeam = Team +
  team_CreatedAt :: gtime
  team_SSOTeamID :: "string option"
  team_Visibility :: string
  team_ManagePolicies :: bool
  team_ManagePolicyOverrides :: bool
  team_ManageProviders :: bool

record TeamOptions =
  to_Name :: "string option"
  to_ManageWorkspaces :: "bool option"
  to_ManageVCS :: "bool option"
  to_ManageModules :: "bool option"
  to_ManageProviders :: "bool option"
  to_ManagePolicies :: "bool option"
  to_ManagePolicyOverrides :: "bool option"
  to_SSOTeamID :: "string option"
  to_Visibility :: "string option"

definition NewTeam :: "(nat \<Rightarrow> nat) \<Rightarrow> gtime \<Rightarrow> string \<Rightarrow> TeamOptions \<Rightarrow> FullTeam result" where
  "NewTeam rnd now organization opts =
     (case to_Name opts of
        None \<Rightarrow> Inl (ErrMissingParameter ''name'')
      | Some name \<Rightarrow>
          Inr \<lparr>team_ID = NewTfeID rnd TeamKind,
               team_Name = name,
               team_ManageWorkspaces = override (to_ManageWorkspaces opts) False,
               team_ManageVCS = override (to_ManageVCS opts) False,
               team_ManageModules = override (to_ManageModules opts) False,
               team_Organization = organization,
               team_CreatedAt = CurrentTimestamp None now,
               team_SSOTeamID = to_SSOTeamID opts,
               team_Visibility = override (to_Visibility opts) ''secret'',
               team_ManagePolicies = override (to_ManagePolicies opts) False,
               team_ManagePolicyOverrides = override (to_ManagePolicyOverrides opts) False,
               team_ManageProviders = override (to_ManageProviders opts) False\<rparr>)"

definition Team_Update :: "TeamOptions \<Rightarrow> FullTeam \<Rightarrow> FullTeam" where
  "Team_Update opts t =
     t\<lparr>team_Name := override (to_Name opts) (team_Name t),
       team_SSOTeamID := override_option (to_SSOTeamID opts) (team_SSOTeamID t),
       team_Visibility := override (to_Visibility opts) (team_Visibility t),
       team_ManageWorkspaces := override (to_ManageWorkspaces opts) (team_ManageWorkspaces t),
       team_ManageVCS := override (to_ManageVCS opts) (team_ManageVCS t),
       team_ManageModules := override (to_ManageModules opts) (team_ManageModules t),
       team_ManageProviders := override (to_ManageProviders opts) (team_ManageProviders t),
       team_ManagePolicies := override (to_ManagePolicies opts) (team_ManagePolicies t),
       team_ManagePolicyOverrides :=
         override (to_ManagePolicyOverrides opts) (team_ManagePolicyOverrides t)\<rparr>"

record TeamToken =
  tt_ID :: TfeID
  tt_CreatedAt :: gtime
  tt_TeamID :: TfeID
  tt_Expiry :: "gtime option"

section \<open>Users (user/user.go, token.go)\<close>

record UserToken =
  ut_ID :: TfeID
  ut_CreatedAt :: gtime
  ut_Description :: string
  ut_Username :: string

datatype UserSpec = ByUserID TfeID | ByUsername string | ByTokenID TfeID | NoSpec

definition NewUser :: "(nat \<Rightarrow> nat) \<Rightarrow> clock \<Rightarrow> string \<Rightarrow> User result" where
  "NewUser rnd clk name =
     (case NewUsername name of Inl e \<Rightarrow> Inl e | Inr username \<Rightarrow>
        Inr \<lparr>user_ID = NewTfeID rnd UserKind, user_CreatedAt = CurrentTimestamp None (clk 0),
             user_UpdatedAt = CurrentTimestamp None (clk 1), user_SiteAdmin = False,
             user_Username = username, user_Teams = [], user_AvatarURL = None\<rparr>)"

text \<open>\<open>Organizations\<close> removes duplicates with a map; the order of its result is that of the map's keys.\<close>

definition User_Organizations :: "User \<Rightarrow> string list" where
  "User_Organizations u = remdups (map team_Organization (user_Teams u))"

section \<open>The tables (organization/db.go, team/db.go, user/db.go)\<close>

text \<open>
  A row of \<open>organizations\<close> is an organization whose default mode holds the two columns of the mode as
  they are; a row of \<open>users\<close> is a user without teams. The table of memberships has no key, so that a
  membership may be there twice.
\<close>

record org_db =
  od_organizations :: "Organization list"
  od_teams :: "FullTeam list"
  od_members :: "(TfeID \<times> string) list"
  od_users :: "User list"
  od_org_tokens :: "OrganizationToken list"
  od_team_tokens :: "TeamToken list"
  od_user_tokens :: "UserToken list"
  od_pools :: "TfeID list"

definition fk_error :: error where
  "fk_error = Errorf ''foreign key violation''"

text \<open>\<open>CollectRows\<close>: the first row that cannot be scanned fails the query.\<close>

fun collect_rows :: "('a \<Rightarrow> 'b result) \<Rightarrow> 'a list \<Rightarrow> 'b list result" where
  "collect_rows scan [] = Inr []"
| "collect_rows scan (r # rs) =
     (case scan r of Inl e \<Rightarrow> Inl e | Inr x \<Rightarrow>
     (case collect_rows scan rs of Inl e \<Rightarrow> Inl e | Inr xs \<Rightarrow> Inr (x # xs)))"

definition collect_one :: "('a \<Rightarrow> 'b result) \<Rightarrow> 'a option \<Rightarrow> 'b result" where
  "collect_one scan row = (case row of None \<Rightarrow> Inl ErrResourceNotFound | Some r \<Rightarrow> scan r)"

definition scan_organization :: "Organization \<Rightarrow> Organization result" where
  "scan_organization row =
     (case NewMode (mode_kind (org_DefaultMode row)) (mode_agentPoolID (org_DefaultMode row)) of
        Inl e \<Rightarrow> Inl e | Inr m \<Rightarrow> Inr (row\<lparr>org_DefaultMode := m\<rparr>))"

text \<open>The insertion leaves the column of the default agent pool out.\<close>

definition db_createOrganization :: "Organization \<Rightarrow> org_db \<Rightarrow> org_db result" where
  "db_createOrganization org db =
     (if org_ID org \<in> set (map org_ID (od_organizations db)) \<or>
         org_Name org \<in> set (map org_Name (od_organizations db))
      then Inl ErrResourceAlreadyExists
      else Inr (db\<lparr>od_organizations := od_organizations db @
             [org\<lparr>org_DefaultMode := \<lparr>mode_kind = mode_kind (org_DefaultMode org), mode_agentPoolID = None\<rparr>\<rparr>]\<rparr>))"

definition db_getOrganization :: "string \<Rightarrow> org_db \<Rightarrow> Organization result" where
  "db_getOrganization name db =
     collect_one scan_organization (find_first (\<lambda>o1. org_Name o1 = name) (od_organizations db))"

text \<open>Renaming an organization cascades to its teams and tokens.\<close>

definition db_updateOrganization ::
  "string \<Rightarrow> (Organization \<Rightarrow> Organization result) \<Rightarrow> org_db \<Rightarrow> (org_db \<times> Organization) result" where
  "db_updateOrganization name fn db =
     (case db_getOrganization name db of Inl e \<Rightarrow> Inl (Wrap ''finding row for update'' e) | Inr org \<Rightarrow>
     (case fn org of Inl e \<Rightarrow> Inl e | Inr new \<Rightarrow>
        if org_Name new \<noteq> name \<and> org_Name new \<in> set (map org_Name (od_organizations db))
        then Inl (Wrap ''updating row'' ErrResourceAlreadyExists)
        else if (case mode_agentPoolID (org_DefaultMode new) of None \<Rightarrow> False | Some p \<Rightarrow> p \<notin> set (od_pools db))
        then Inl (Wrap ''updating row'' fk_error)
        else Inr (db\<lparr>od_organizations :=
                       map (\<lambda>o1. if org_Name o1 = name then new else o1) (od_organizations db),
                     od_teams := map (\<lambda>t. if team_Organization t = name
                                          then t\<lparr>team_Organization := org_Name new\<rparr> else t) (od_teams db),
                     od_org_tokens := map (\<lambda>t. if ot_Organization t = name
                                               then t\<lparr>ot_Organization := org_Name new\<rparr> else t) (od_org_tokens db)\<rparr>,
                  new)))"

text \<open>The names filter: nil stands for the pattern \<open>%\<close>. The rows are those of one page.\<close>

definition db_listOrganizations ::
  "string list option \<Rightarrow> PageOptions \<Rightarrow> org_db \<Rightarrow> Organization Page result" where
  "db_listOrganizations names opts db =
     (let patterns = (case names of None \<Rightarrow> [''%''] | Some ns \<Rightarrow> ns);
          rows = sort_key (\<lambda>o1. - org_UpdatedAt o1)
                   (filter (\<lambda>o1. list_ex (\<lambda>p. sql_like p (org_Name o1)) patterns) (od_organizations db))
      in if GetOffset opts < 0 then Inl (Errorf ''OFFSET must not be negative'')
         else case collect_rows scan_organization
                     (take (nat (GetLimit opts)) (drop (nat (GetOffset opts)) rows)) of
                Inl e \<Rightarrow> Inl e
              | Inr items \<Rightarrow> NewPage (Some items) opts (Some (int (length rows))))"

text \<open>Deleting an organization cascades to its teams, their members and tokens, and its own token.\<close>

definition team_in :: "string \<Rightarrow> org_db \<Rightarrow> TfeID \<Rightarrow> bool" where
  "team_in name db tid = list_ex (\<lambda>t. team_ID t = tid \<and> team_Organization t = name) (od_teams db)"

definition db_deleteOrganization :: "string \<Rightarrow> org_db \<Rightarrow> org_db result" where
  "db_deleteOrganization name db =
     (if name \<notin> set (map org_Name (od_organizations db)) then Inl ErrResourceNotFound
      else Inr (db\<lparr>od_organizations := filter (\<lambda>o1. org_Name o1 \<noteq> name) (od_organizations db),
                   od_teams := filter (\<lambda>t. team_Organization t \<noteq> name) (od_teams db),
                   od_members := filter (\<lambda>p. \<not> team_in name db (fst p)) (od_members db),
                   od_team_tokens := filter (\<lambda>t. \<not> team_in name db (tt_TeamID t)) (od_team_tokens db),
                   od_org_tokens := filter (\<lambda>t. ot_Organization t \<noteq> name) (od_org_tokens db)\<rparr>))"

definition db_createTeam :: "FullTeam \<Rightarrow> org_db \<Rightarrow> org_db result" where
  "db_createTeam t db =
     (if team_ID t \<in> set (map team_ID (od_teams db)) \<or>
         (team_Organization t, team_Name t) \<in> set (map (\<lambda>u. (team_Organization u, team_Name u)) (od_teams db))
      then Inl ErrResourceAlreadyExists
      else if team_Organization t \<notin> set (map org_Name (od_organizations db)) then Inl fk_error
      else Inr (db\<lparr>od_teams := od_teams db @ [t]\<rparr>))"

definition db_getTeamByID :: "TfeID \<Rightarrow> org_db \<Rightarrow> FullTeam result" where
  "db_getTeamByID tid db = collect_one Inr (find_first (\<lambda>t. team_ID t = tid) (od_teams db))"

definition db_getTeam :: "string \<Rightarrow> string \<Rightarrow> org_db \<Rightarrow> FullTeam result" where
  "db_getTeam name organization db =
     collect_one Inr (find_first (\<lambda>t. team_Name t = name \<and> team_Organization t = organization) (od_teams db))"

definition db_getTeamByTokenID :: "TfeID \<Rightarrow> org_db \<Rightarrow> FullTeam result" where
  "db_getTeamByTokenID tokenID db =
     (case find_first (\<lambda>tt. tt_ID tt = tokenID) (od_team_tokens db) of
        None \<Rightarrow> Inl ErrResourceNotFound | Some tt \<Rightarrow> db_getTeamByID (tt_TeamID tt) db)"

definition db_listTeams :: "string \<Rightarrow> org_db \<Rightarrow> FullTeam list" where
  "db_listTeams organization db = filter (\<lambda>t. team_Organization t = organization) (od_teams db)"

definition db_updateTeam :: "TfeID \<Rightarrow> (FullTeam \<Rightarrow> FullTeam) \<Rightarrow> org_db \<Rightarrow> (org_db \<times> FullTeam) result" where
  "db_updateTeam tid fn db =
     (case db_getTeamByID tid db of Inl e \<Rightarrow> Inl (Wrap ''finding row for update'' e) | Inr t \<Rightarrow>
        let new = fn t
        in if list_ex (\<lambda>u. team_ID u \<noteq> tid \<and> team_Organization u = team_Organization t \<and>
                           team_Name u = team_Name new) (od_teams db)
           then Inl (Wrap ''updating row'' ErrResourceAlreadyExists)
           else Inr (db\<lparr>od_teams := map (\<lambda>u. if team_ID u = tid
                          then new\<lparr>team_ID := team_ID u, team_Organization := team_Organization u,
                                   team_CreatedAt := team_CreatedAt u\<rparr> else u) (od_teams db)\<rparr>, new))"

definition db_deleteTeam :: "TfeID \<Rightarrow> org_db \<Rightarrow> org_db result" where
  "db_deleteTeam tid db =
     (if tid \<notin> set (map team_ID (od_teams db)) then Inl ErrResourceNotFound
      else Inr (db\<lparr>od_teams := filter (\<lambda>t. team_ID t \<noteq> tid) (od_teams db),
                   od_members := filter (\<lambda>p. fst p \<noteq> tid) (od_members db),
                   od_team_tokens := filter (\<lambda>t. tt_TeamID t \<noteq> tid) (od_team_tokens db)\<rparr>))"

text \<open>A user is loaded with the teams of its memberships.\<close>

definition loaded_user :: "org_db \<Rightarrow> User \<Rightarrow> User" where
  "loaded_user db u =
     u\<lparr>user_Teams := concat (map (\<lambda>p. map Team.truncate (filter (\<lambda>t. team_ID t = fst p) (od_teams db)))
         (filter (\<lambda>p. snd p = user_Username u) (od_members db)))\<rparr>"

definition db_getUser :: "UserSpec \<Rightarrow> org_db \<Rightarrow> User result" where
  "db_getUser spec db =
     (case spec of
        ByUserID uid \<Rightarrow>
          collect_one (Inr \<circ> loaded_user db) (find_first (\<lambda>u. user_ID u = uid) (od_users db))
      | ByUsername n \<Rightarrow>
          collect_one (Inr \<circ> loaded_user db) (find_first (\<lambda>u. user_Username u = n) (od_users db))
      | ByTokenID tid \<Rightarrow>
          collect_one (Inr \<circ> loaded_user db)
            (find_first (\<lambda>u. list_ex (\<lambda>t. ut_ID t = tid \<and> ut_Username t = user_Username u)
                                     (od_user_tokens db)) (od_users db))
      | NoSpec \<Rightarrow> Inl (Errorf ''unsupported user spec for retrieving user''))"

definition db_listUsers :: "org_db \<Rightarrow> User list" where
  "db_listUsers db = map (loaded_user db) (od_users db)"

definition db_listOrganizationUsers :: "string \<Rightarrow> org_db \<Rightarrow> User list" where
  "db_listOrganizationUsers organization db =
     map (loaded_user db)
       (filter (\<lambda>u. list_ex (\<lambda>p. snd p = user_Username u \<and> team_in organization db (fst p)) (od_members db))
         (od_users db))"

definition db_listTeamUsers :: "TfeID \<Rightarrow> org_db \<Rightarrow> User list" where
  "db_listTeamUsers tid db =
     map (loaded_user db)
       (filter (\<lambda>u. (tid, user_Username u) \<in> set (od_members db) \<and> tid \<in> set (map team_ID (od_teams db)))
         (od_users db))"

definition db_addTeamMembership :: "TfeID \<Rightarrow> string list \<Rightarrow> org_db \<Rightarrow> org_db result" where
  "db_addTeamMembership tid usernames db =
     (if usernames = [] then Inl ErrResourceNotFound
      else if tid \<notin> set (map team_ID (od_teams db)) \<or>
              \<not> list_all (\<lambda>n. n \<in> set (map user_Username (od_users db))) usernames
      then Inl fk_error
      else Inr (db\<lparr>od_members := od_members db @ map (Pair tid) usernames\<rparr>))"

definition db_removeTeamMembership :: "TfeID \<Rightarrow> string list \<Rightarrow> org_db \<Rightarrow> org_db result" where
  "db_removeTeamMembership tid usernames db =
     (let gone = (\<lambda>p. fst p = tid \<and> snd p \<in> set usernames)
      in if \<not> list_ex gone (od_members db) then Inl ErrResourceNotFound
         else Inr (db\<lparr>od_members := filter (\<lambda>p. \<not> gone p) (od_members db)\<rparr>))"

text \<open>\<open>CreateUser\<close> also inserts the memberships of the user; the services create users without teams.\<close>

fun insert_memberships :: "string \<Rightarrow> Team list \<Rightarrow> org_db \<Rightarrow> org_db result" where
  "insert_memberships name [] db = Inr db"
| "insert_memberships name (t # ts) db =
     (case db_addTeamMembership (team_ID t) [name] db of Inl e \<Rightarrow> Inl e
      | Inr db1 \<Rightarrow> insert_memberships name ts db1)"

definition db_CreateUser :: "User \<Rightarrow> org_db \<Rightarrow> org_db result" where
  "db_CreateUser u db =
     (if user_ID u \<in> set (map user_ID (od_users db)) \<or>
         user_Username u \<in> set (map user_Username (od_users db))
      then Inl ErrResourceAlreadyExists
      else insert_memberships (user_Username u) (user_Teams u)
             (db\<lparr>od_users := od_users db @ [u\<lparr>user_SiteAdmin := False, user_Teams := []\<rparr>]\<rparr>))"

definition db_updateAvatarURL :: "string \<Rightarrow> string \<Rightarrow> org_db \<Rightarrow> org_db result" where
  "db_updateAvatarURL name url db =
     (if name \<notin> set (map user_Username (od_users db)) then Inl ErrResourceNotFound
      else Inr (db\<lparr>od_users := map (\<lambda>u. if user_Username u = name then u\<lparr>user_AvatarURL := Some url\<rparr> else u)
                                    (od_users db)\<rparr>))"

text \<open>Deleting a user cascades to its memberships and tokens.\<close>

definition delete_users :: "(User \<Rightarrow> bool) \<Rightarrow> org_db \<Rightarrow> org_db result" where
  "delete_users P db =
     (let gone = map user_Username (filter P (od_users db))
      in if gone = [] then Inl ErrResourceNotFound
         else Inr (db\<lparr>od_users := filter (\<lambda>u. \<not> P u) (od_users db),
                      od_members := filter (\<lambda>p. snd p \<notin> set gone) (od_members db),
                      od_user_tokens := filter (\<lambda>t. ut_Username t \<notin> set gone) (od_user_tokens db)\<rparr>))"

definition db_DeleteUser :: "UserSpec \<Rightarrow> org_db \<Rightarrow> org_db result" where
  "db_DeleteUser spec db =
     (case spec of
        ByUserID uid \<Rightarrow> delete_users (\<lambda>u. user_ID u = uid) db
      | ByUsername n \<Rightarrow> delete_users (\<lambda>u. user_Username u = n) db
      | _ \<Rightarrow> Inl (Errorf ''unsupported user spec for deletion''))"

text \<open>The new database with the users that were promoted and those that were demoted.\<close>

definition db_setSiteAdmins :: "string list \<Rightarrow> org_db \<Rightarrow> org_db \<times> string list \<times> string list" where
  "db_setSiteAdmins usernames db =
     (let resetted = map user_Username (filter user_SiteAdmin (od_users db));
          users1 = map (\<lambda>u. u\<lparr>user_SiteAdmin := False\<rparr>) (od_users db);
          updated = map user_Username (filter (\<lambda>u. user_Username u \<in> set usernames) users1);
          users2 = map (\<lambda>u. if user_Username u \<in> set usernames then u\<lparr>user_SiteAdmin := True\<rparr> else u) users1
      in (db\<lparr>od_users := users2\<rparr>, Diff updated resetted, Diff resetted updated))"

text \<open>Tokens: an organization and a team have at most one each, which a new one replaces.\<close>

definition db_upsertOrganizationToken :: "OrganizationToken \<Rightarrow> org_db \<Rightarrow> org_db result" where
  "db_upsertOrganizationToken ot db =
     (if list_ex (\<lambda>t. ot_ID t = ot_ID ot \<and> ot_Organization t \<noteq> ot_Organization ot) (od_org_tokens db)
      then Inl ErrResourceAlreadyExists
      else if ot_Organization ot \<in> set (map ot_Organization (od_org_tokens db))
      then Inr (db\<lparr>od_org_tokens := map (\<lambda>t. if ot_Organization t = ot_Organization ot then ot else t)
                                        (od_org_tokens db)\<rparr>)
      else if ot_Organization ot \<notin> set (map org_Name (od_organizations db)) then Inl fk_error
      else Inr (db\<lparr>od_org_tokens := od_org_tokens db @ [ot]\<rparr>))"

definition db_getOrganizationTokenByName :: "string \<Rightarrow> org_db \<Rightarrow> OrganizationToken result" where
  "db_getOrganizationTokenByName name db =
     collect_one Inr (find_first (\<lambda>t. ot_Organization t = name) (od_org_tokens db))"

definition db_getOrganizationTokenByID :: "TfeID \<Rightarrow> org_db \<Rightarrow> OrganizationToken result" where
  "db_getOrganizationTokenByID tid db =
     collect_one Inr (find_first (\<lambda>t. ot_ID t = tid) (od_org_tokens db))"

definition db_listOrganizationTokens :: "string \<Rightarrow> org_db \<Rightarrow> OrganizationToken list" where
  "db_listOrganizationTokens name db = filter (\<lambda>t. ot_Organization t = name) (od_org_tokens db)"

definition db_deleteOrganizationToken :: "string \<Rightarrow> org_db \<Rightarrow> org_db result" where
  "db_deleteOrganizationToken name db =
     (if name \<notin> set (map ot_Organization (od_org_tokens db)) then Inl ErrResourceNotFound
      else Inr (db\<lparr>od_org_tokens := filter (\<lambda>t. ot_Organization t \<noteq> name) (od_org_tokens db)\<rparr>))"

definition db_createTeamToken :: "TeamToken \<Rightarrow> org_db \<Rightarrow> org_db result" where
  "db_createTeamToken tt db =
     (if list_ex (\<lambda>t. tt_ID t = tt_ID tt \<and> tt_TeamID t \<noteq> tt_TeamID tt) (od_team_tokens db)
      then Inl ErrResourceAlreadyExists
      else if tt_TeamID tt \<in> set (map tt_TeamID (od_team_tokens db))
      then Inr (db\<lparr>od_team_tokens := map (\<lambda>t. if tt_TeamID t = tt_TeamID tt then tt else t) (od_team_tokens db)\<rparr>)
      else if tt_TeamID tt \<notin> set (map team_ID (od_teams db)) then Inl fk_error
      else Inr (db\<lparr>od_team_tokens := od_team_tokens db @ [tt]\<rparr>))"

definition db_getTeamTokenByTeamID :: "TfeID \<Rightarrow> org_db \<Rightarrow> TeamToken result" where
  "db_getTeamTokenByTeamID tid db = collect_one Inr (find_first (\<lambda>t. tt_TeamID t = tid) (od_team_tokens db))"

definition db_deleteTeamToken :: "TfeID \<Rightarrow> org_db \<Rightarrow> org_db result" where
  "db_deleteTeamToken tid db =
     (if tid \<notin> set (map tt_TeamID (od_team_tokens db)) then Inl ErrResourceNotFound
      else Inr (db\<lparr>od_team_tokens := filter (\<lambda>t. tt_TeamID t \<noteq> tid) (od_team_tokens db)\<rparr>))"

definition db_createUserToken :: "UserToken \<Rightarrow> org_db \<Rightarrow> org_db result" where
  "db_createUserToken t db =
     (if ut_ID t \<in> set (map ut_ID (od_user_tokens db)) then Inl ErrResourceAlreadyExists
      else if ut_Username t \<notin> set (map user_Username (od_users db)) then Inl fk_error
      else Inr (db\<lparr>od_user_tokens := od_user_tokens db @ [t]\<rparr>))"

definition db_listUserTokens :: "string \<Rightarrow> org_db \<Rightarrow> UserToken list" where
  "db_listUserTokens name db = filter (\<lambda>t. ut_Username t = name) (od_user_tokens db)"

definition db_getUserToken :: "TfeID \<Rightarrow> org_db \<Rightarrow> UserToken result" where
  "db_getUserToken tid db = collect_one Inr (find_first (\<lambda>t. ut_ID t = tid) (od_user_tokens db))"

definition db_deleteUserToken :: "TfeID \<Rightarrow> org_db \<Rightarrow> org_db result" where
  "db_deleteUserToken tid db =
     (if tid \<notin> set (map ut_ID (od_user_tokens db)) then Inl ErrResourceNotFound
      else Inr (db\<lparr>od_user_tokens := filter (\<lambda>t. ut_ID t \<noteq> tid) (od_user_tokens db)\<rparr>))"

end
