(* ===== verification/OrgService.thy ===== *)
theory OrgService
  imports Orgs
begin

text \<open>
  The services of organizations, teams and users (\<open>organization/service.go\<close>, \<open>team/service.go\<close>,
  \<open>team/token.go\<close>, \<open>user/service.go\<close>) with the hooks that connect them.
\<close>

section \<open>Surroundings\<close>

text \<open>
  The context, the workspace policies, randomness for the \<open>k\<close>-th identifier that an operation
  generates, the clock, the option to restrict the creation of organizations, the token service, and
  the hook that runs before an organization is deleted (the deletion of its webhooks).
\<close>

record org_env =
  oe_ctx :: authz_ctx
  oe_policies :: "ID \<Rightarrow> Policy result"
  oe_rnd :: "nat \<Rightarrow> nat \<Rightarrow> nat"
  oe_clk :: clock
  oe_restrict :: bool
  oe_token :: "TfeID \<Rightarrow> gtime option \<Rightarrow> string result"
  oe_beforeDelete :: "Organization \<Rightarrow> unit result"

definition org_tables :: "org_db \<Rightarrow> parent_tables" where
  "org_tables db =
     \<lparr>pt_workspace = Map.empty,
      pt_team = (\<lambda>tid. map_option team_Organization (find_first (\<lambda>t. team_ID t = tid) (od_teams db))),
      pt_sshkey = Map.empty, pt_variable_set = Map.empty, pt_run = Map.empty,
      pt_state_version = Map.empty, pt_config_version = Map.empty, pt_run_trigger = Map.empty,
      pt_variable = Map.empty\<rparr>"

definition org_authorize :: "org_env \<Rightarrow> Action \<Rightarrow> Kind \<Rightarrow> ID \<Rightarrow> org_db \<Rightarrow> Subject result" where
  "org_authorize env action kind rid db =
     (case Authorize (otf_resolvers (org_tables db)) (oe_policies env) (oe_ctx env) action kind (Some rid) of
        Some (Some subj, Inr _) \<Rightarrow> Inr subj
      | Some (_, Inl e) \<Rightarrow> Inl e
      | _ \<Rightarrow> Inl (Errorf ''authorization does not return''))"

definition UserFromContext :: "authz_ctx \<Rightarrow> User result" where
  "UserFromContext ctx =
     (case ctx_subject ctx of
        None \<Rightarrow> Inl (Errorf ''no subject in context'')
      | Some (UserSubject u) \<Rightarrow> Inr u
      | Some _ \<Rightarrow> Inl (Errorf ''no user in context''))"

section \<open>Teams (team/service.go)\<close>

definition GetTeamByID :: "org_env \<Rightarrow> TfeID \<Rightarrow> org_db \<Rightarrow> FullTeam result" where
  "GetTeamByID env tid db =
     (case db_getTeamByID tid db of Inl e \<Rightarrow> Inl e | Inr t \<Rightarrow>
     (case org_authorize env GetAction TeamKind (Pointer_ID (OrganizationName_ID (team_Organization t))) db of
        Inl e \<Rightarrow> Inl e | Inr _ \<Rightarrow> Inr t))"

definition GetTeam :: "org_env \<Rightarrow> string \<Rightarrow> string \<Rightarrow> org_db \<Rightarrow> FullTeam result" where
  "GetTeam env organization name db =
     (case org_authorize env GetAction TeamKind (OrganizationName_ID organization) db of
        Inl e \<Rightarrow> Inl e | Inr _ \<Rightarrow> db_getTeam name organization db)"

definition ListTeams :: "org_env \<Rightarrow> string \<Rightarrow> org_db \<Rightarrow> FullTeam list result" where
  "ListTeams env organization db =
     (case org_authorize env ListAction TeamKind (OrganizationName_ID organization) db of
        Inl e \<Rightarrow> Inl e | Inr _ \<Rightarrow> Inr (db_listTeams organization db))"

definition GetTeamByTokenID :: "org_env \<Rightarrow> TfeID \<Rightarrow> org_db \<Rightarrow> FullTeam result" where
  "GetTeamByTokenID env tokenID db =
     (case db_getTeamByTokenID tokenID db of Inl e \<Rightarrow> Inl e | Inr t \<Rightarrow>
     (case org_authorize env GetAction TeamKind (Pointer_ID (OrganizationName_ID (team_Organization t))) db of
        Inl e \<Rightarrow> Inl e | Inr _ \<Rightarrow> Inr t))"

definition UpdateTeam :: "org_env \<Rightarrow> TfeID \<Rightarrow> TeamOptions \<Rightarrow> org_db \<Rightarrow> (org_db \<times> FullTeam) result" where
  "UpdateTeam env tid opts db =
     (case db_getTeamByID tid db of Inl e \<Rightarrow> Inl e | Inr t \<Rightarrow>
     (case org_authorize env UpdateAction TeamKind (Pointer_ID (OrganizationName_ID (team_Organization t))) db of
        Inl e \<Rightarrow> Inl e | Inr _ \<Rightarrow> db_updateTeam tid (Team_Update opts) db))"

definition DeleteTeam :: "org_env \<Rightarrow> TfeID \<Rightarrow> org_db \<Rightarrow> org_db result" where
  "DeleteTeam env tid db =
     (case db_getTeamByID tid db of Inl e \<Rightarrow> Inl e | Inr t \<Rightarrow>
     (case org_authorize env DeleteAction TeamKind (Pointer_ID (OrganizationName_ID (team_Organization t))) db of
        Inl e \<Rightarrow> Inl e
      | Inr _ \<Rightarrow> if team_Name t = ''owners'' then Inl ErrRemovingOwnersTeamNotPermitted
                else db_deleteTeam tid db))"

definition CreateTeamToken ::
  "org_env \<Rightarrow> TfeID \<Rightarrow> gtime option \<Rightarrow> org_db \<Rightarrow> (org_db \<times> TeamToken \<times> string) result" where
  "CreateTeamToken env tid expiry db =
     (case org_authorize env CreateAction TeamTokenKind (TfeID_ID tid) db of Inl e \<Rightarrow> Inl e | Inr _ \<Rightarrow>
        let tt = \<lparr>tt_ID = NewTfeID (oe_rnd env 0) TeamTokenKind, tt_CreatedAt = CurrentTimestamp None (oe_clk env 0),
                  tt_TeamID = tid, tt_Expiry = expiry\<rparr>
        in (case oe_token env (tt_ID tt) expiry of Inl e \<Rightarrow> Inl e | Inr token \<Rightarrow>
           (case db_createTeamToken tt db of Inl e \<Rightarrow> Inl e | Inr db1 \<Rightarrow> Inr (db1, tt, token))))"

definition GetTeamToken :: "org_env \<Rightarrow> TfeID \<Rightarrow> org_db \<Rightarrow> TeamToken result" where
  "GetTeamToken env tid db =
     (case org_authorize env GetAction TeamTokenKind (TfeID_ID tid) db of Inl e \<Rightarrow> Inl e
      | Inr _ \<Rightarrow> db_getTeamTokenByTeamID tid db)"

definition DeleteTeamToken :: "org_env \<Rightarrow> TfeID \<Rightarrow> org_db \<Rightarrow> org_db result" where
  "DeleteTeamToken env tid db =
     (case org_authorize env DeleteAction TeamTokenKind (TfeID_ID tid) db of Inl e \<Rightarrow> Inl e
      | Inr _ \<Rightarrow> db_deleteTeamToken tid db)"

section \<open>Users (user/service.go)\<close>

text \<open>The argument \<open>k\<close> is the position of the identifier that the operation generates.\<close>

definition CreateUser_at :: "org_env \<Rightarrow> nat \<Rightarrow> string \<Rightarrow> org_db \<Rightarrow> (org_db \<times> User) result" where
  "CreateUser_at env k name db =
     (case org_authorize env CreateAction UserKind SiteID db of Inl e \<Rightarrow> Inl e | Inr _ \<Rightarrow>
     (case NewUser (oe_rnd env k) (oe_clk env) name of Inl e \<Rightarrow> Inl e | Inr u \<Rightarrow>
     (case db_CreateUser u db of Inl e \<Rightarrow> Inl e | Inr db1 \<Rightarrow> Inr (db1, u))))"

definition User_Create :: "org_env \<Rightarrow> string \<Rightarrow> org_db \<Rightarrow> (org_db \<times> User) result" where
  "User_Create env = CreateUser_at env 0"

definition GetUser :: "org_env \<Rightarrow> UserSpec \<Rightarrow> org_db \<Rightarrow> User result" where
  "GetUser env spec db =
     (case org_authorize env GetAction UserKind SiteID db of Inl e \<Rightarrow> Inl e | Inr _ \<Rightarrow> db_getUser spec db)"

text \<open>The error is compared with \<open>==\<close>.\<close>

definition GetOrCreateUser :: "org_env \<Rightarrow> string \<Rightarrow> org_db \<Rightarrow> (org_db \<times> User) result" where
  "GetOrCreateUser env name db =
     (case NewUsername name of Inl e \<Rightarrow> Inl (Wrap ''invalid username'' e) | Inr username \<Rightarrow>
     (case GetUser env (ByUsername username) db of
        Inr u \<Rightarrow> Inr (db, u)
      | Inl e \<Rightarrow> if e = ErrResourceNotFound then User_Create env name db else Inl e))"

definition UpdateAvatar :: "org_env \<Rightarrow> string \<Rightarrow> string \<Rightarrow> org_db \<Rightarrow> org_db result" where
  "UpdateAvatar env name url db =
     (case org_authorize env UpdateAction UserKind SiteID db of Inl e \<Rightarrow> Inl e
      | Inr _ \<Rightarrow> db_updateAvatarURL name url db)"

definition ListUsers :: "org_env \<Rightarrow> org_db \<Rightarrow> User list result" where
  "ListUsers env db =
     (case org_authorize env ListAction UserKind SiteID db of Inl e \<Rightarrow> Inl e | Inr _ \<Rightarrow> Inr (db_listUsers db))"

definition ListOrganizationUsers :: "org_env \<Rightarrow> string \<Rightarrow> org_db \<Rightarrow> User list result" where
  "ListOrganizationUsers env organization db =
     (case org_authorize env ListAction UserKind (OrganizationName_ID organization) db of Inl e \<Rightarrow> Inl e
      | Inr _ \<Rightarrow> Inr (db_listOrganizationUsers organization db))"

definition ListTeamUsers :: "org_env \<Rightarrow> TfeID \<Rightarrow> org_db \<Rightarrow> User list result" where
  "ListTeamUsers env tid db =
     (case GetTeamByID env tid db of Inl e \<Rightarrow> Inl e | Inr t \<Rightarrow>
     (case org_authorize env ListAction UserKind (Pointer_ID (OrganizationName_ID (team_Organization t))) db of
        Inl e \<Rightarrow> Inl e | Inr _ \<Rightarrow> Inr (db_listTeamUsers tid db)))"

definition User_Delete :: "org_env \<Rightarrow> string \<Rightarrow> org_db \<Rightarrow> org_db result" where
  "User_Delete env name db =
     (case org_authorize env DeleteAction UserKind SiteID db of Inl e \<Rightarrow> Inl e
      | Inr _ \<Rightarrow> db_DeleteUser (ByUsername name) db)"

text \<open>Users that do not exist yet are created.\<close>

fun ensure_users :: "org_env \<Rightarrow> nat \<Rightarrow> string list \<Rightarrow> org_db \<Rightarrow> org_db result" where
  "ensure_users env k [] db = Inr db"
| "ensure_users env k (n # ns) db =
     (case (case db_getUser (ByUsername n) db of
              Inr _ \<Rightarrow> Inr db
            | Inl e \<Rightarrow> if errors_is e ErrResourceNotFound
                      then map_sum id fst (CreateUser_at env k n db) else Inl e) of
        Inl e \<Rightarrow> Inl e
      | Inr db1 \<Rightarrow> ensure_users env (Suc k) ns db1)"

definition AddTeamMembership_at :: "org_env \<Rightarrow> nat \<Rightarrow> TfeID \<Rightarrow> string list \<Rightarrow> org_db \<Rightarrow> org_db result" where
  "AddTeamMembership_at env k tid usernames db =
     (case GetTeamByID env tid db of Inl e \<Rightarrow> Inl (Wrap ''retrieving team'' e) | Inr t \<Rightarrow>
     (case org_authorize env AddAction TeamKind (Pointer_ID (OrganizationName_ID (team_Organization t))) db of
        Inl e \<Rightarrow> Inl e
      | Inr _ \<Rightarrow>
          (case ensure_users env k usernames db of Inl e \<Rightarrow> Inl e
           | Inr db1 \<Rightarrow> db_addTeamMembership tid usernames db1)))"

definition AddTeamMembership :: "org_env \<Rightarrow> TfeID \<Rightarrow> string list \<Rightarrow> org_db \<Rightarrow> org_db result" where
  "AddTeamMembership env = AddTeamMembership_at env 0"

definition RemoveTeamMembership :: "org_env \<Rightarrow> TfeID \<Rightarrow> string list \<Rightarrow> org_db \<Rightarrow> org_db result" where
  "RemoveTeamMembership env tid usernames db =
     (case GetTeamByID env tid db of Inl e \<Rightarrow> Inl e | Inr t \<Rightarrow>
     (case org_authorize env RemoveAction TeamKind (Pointer_ID (OrganizationName_ID (team_Organization t))) db of
        Inl e \<Rightarrow> Inl e
      | Inr _ \<Rightarrow>
          (case (if team_Name t = ''owners''
                 then (case ListTeamUsers env tid db of
                         Inl e \<Rightarrow> Inl e
                       | Inr owners \<Rightarrow> if length owners \<le> length usernames
                                      then Inl ErrCannotDeleteOnlyOwner else Inr ())
                 else Inr ()) of
             Inl e \<Rightarrow> Inl e
           | Inr _ \<Rightarrow> db_removeTeamMembership tid usernames db)))"

text \<open>An error of the look-up other than not-found is ignored.\<close>

fun ensure_admins :: "org_env \<Rightarrow> nat \<Rightarrow> string list \<Rightarrow> org_db \<Rightarrow> org_db result" where
  "ensure_admins env k [] db = Inr db"
| "ensure_admins env k (n # ns) db =
     (case (case db_getUser (ByUsername n) db of
              Inr _ \<Rightarrow> Inr db
            | Inl e \<Rightarrow> if errors_is e ErrResourceNotFound
                      then (case CreateUser_at env k n db of
                              Inl e' \<Rightarrow> Inl (Wrap ''creating site admin users'' e') | Inr (db1, _) \<Rightarrow> Inr db1)
                      else Inr db) of
        Inl e \<Rightarrow> Inl e
      | Inr db1 \<Rightarrow> ensure_admins env (Suc k) ns db1)"

definition SetSiteAdmins :: "org_env \<Rightarrow> string list \<Rightarrow> org_db \<Rightarrow> (org_db \<times> string list \<times> string list) result" where
  "SetSiteAdmins env usernames db =
     (case ensure_admins env 0 usernames db of Inl e \<Rightarrow> Inl e
      | Inr db1 \<Rightarrow> Inr (db_setSiteAdmins usernames db1))"

definition CreateToken :: "org_env \<Rightarrow> string \<Rightarrow> org_db \<Rightarrow> (org_db \<times> UserToken \<times> string) result" where
  "CreateToken env description db =
     (case UserFromContext (oe_ctx env) of Inl e \<Rightarrow> Inl e | Inr u \<Rightarrow>
        let ut = \<lparr>ut_ID = NewTfeID (oe_rnd env 0) UserTokenKind,
                  ut_CreatedAt = CurrentTimestamp None (oe_clk env 0),
                  ut_Description = description, ut_Username = user_Username u\<rparr>
        in (case oe_token env (ut_ID ut) None of Inl e \<Rightarrow> Inl e | Inr token \<Rightarrow>
           (case db_createUserToken ut db of Inl e \<Rightarrow> Inl e | Inr db1 \<Rightarrow> Inr (db1, ut, token))))"

definition ListTokens :: "org_env \<Rightarrow> org_db \<Rightarrow> UserToken list result" where
  "ListTokens env db =
     (case UserFromContext (oe_ctx env) of Inl e \<Rightarrow> Inl e | Inr u \<Rightarrow> Inr (db_listUserTokens (user_Username u) db))"

definition DeleteToken :: "org_env \<Rightarrow> TfeID \<Rightarrow> org_db \<Rightarrow> org_db result" where
  "DeleteToken env tokenID db =
     (case UserFromContext (oe_ctx env) of Inl e \<Rightarrow> Inl e | Inr u \<Rightarrow>
     (case db_getUserToken tokenID db of Inl e \<Rightarrow> Inl e | Inr t \<Rightarrow>
        if user_Username u \<noteq> ut_Username t then Inl ErrAccessNotPermitted
        else db_deleteUserToken tokenID db))"

section \<open>The hooks between organizations, teams and users\<close>

text \<open>
  After a team named owners is created, the user in the context becomes its member. The team is also
  added to the teams of that user in the context, which is the second component of the result.
\<close>

definition add_creator :: "org_env \<Rightarrow> FullTeam \<Rightarrow> org_db \<Rightarrow> (org_db \<times> authz_ctx) result" where
  "add_creator env t db =
     (if team_Name t \<noteq> ''owners'' then Inr (db, oe_ctx env)
      else case UserFromContext (oe_ctx env) of
             Inl e \<Rightarrow> Inl (Wrap ''adding owner to owners team'' e)
           | Inr u \<Rightarrow>
               (case AddTeamMembership_at env 2 (team_ID t) [user_Username u] db of
                  Inl e \<Rightarrow> Inl (Wrap ''adding owner to owners team'' e)
                | Inr db1 \<Rightarrow>
                    Inr (db1, (oe_ctx env)\<lparr>ctx_subject :=
                                Some (UserSubject (u\<lparr>user_Teams := user_Teams u @ [Team.truncate t]\<rparr>))\<rparr>)))"

definition CreateTeam ::
  "org_env \<Rightarrow> string \<Rightarrow> TeamOptions \<Rightarrow> org_db \<Rightarrow> (org_db \<times> FullTeam \<times> authz_ctx) result" where
  "CreateTeam env organization opts db =
     (case org_authorize env CreateAction TeamKind (OrganizationName_ID organization) db of Inl e \<Rightarrow> Inl e | Inr _ \<Rightarrow>
     (case NewTeam (oe_rnd env 1) (oe_clk env 2) organization opts of Inl e \<Rightarrow> Inl e | Inr t \<Rightarrow>
     (case db_createTeam t db of Inl e \<Rightarrow> Inl e | Inr db1 \<Rightarrow>
     (case add_creator env t db1 of Inl e \<Rightarrow> Inl e | Inr (db2, ctx) \<Rightarrow> Inr (db2, t, ctx)))))"

definition owners_options :: TeamOptions where
  "owners_options =
     \<lparr>to_Name = Some ''owners'', to_ManageWorkspaces = None, to_ManageVCS = None, to_ManageModules = None,
      to_ManageProviders = None, to_ManagePolicies = None, to_ManagePolicyOverrides = None,
      to_SSOTeamID = None, to_Visibility = None\<rparr>"

text \<open>After an organization is created, its owners team is, without authorization.\<close>

definition create_owners :: "org_env \<Rightarrow> Organization \<Rightarrow> org_db \<Rightarrow> (org_db \<times> authz_ctx) result" where
  "create_owners env org db =
     (case CreateTeam (env\<lparr>oe_ctx := (oe_ctx env)\<lparr>ctx_skipAuthz := True\<rparr>\<rparr>) (org_Name org) owners_options db of
        Inl e \<Rightarrow> Inl (Wrap ''creating owners team'' e)
      | Inr (db1, _, ctx) \<Rightarrow> Inr (db1, ctx\<lparr>ctx_skipAuthz := ctx_skipAuthz (oe_ctx env)\<rparr>))"

section \<open>Organizations (organization/service.go)\<close>

definition restrictOrganizationCreation :: "org_env \<Rightarrow> Subject \<Rightarrow> unit result" where
  "restrictOrganizationCreation env subj =
     (if oe_restrict env \<and> \<not> (case subj of UserSubject u \<Rightarrow> IsSiteAdmin u | _ \<Rightarrow> False)
      then Inl ErrAccessNotPermitted else Inr ())"

definition CreateOrganization ::
  "org_env \<Rightarrow> OrganizationOptions \<Rightarrow> org_db \<Rightarrow> (org_db \<times> Organization \<times> authz_ctx) result" where
  "CreateOrganization env opts db =
     (case org_authorize env CreateAction OrganizationKind SiteID db of Inl e \<Rightarrow> Inl e | Inr subj \<Rightarrow>
     (case restrictOrganizationCreation env subj of Inl e \<Rightarrow> Inl e | Inr _ \<Rightarrow>
     (case NewOrganization (oe_rnd env 0) (oe_clk env) opts of
        Inl e \<Rightarrow> Inl (Wrap ''creating organization'' e)
      | Inr org \<Rightarrow>
          (case db_createOrganization org db of Inl e \<Rightarrow> Inl e | Inr db1 \<Rightarrow>
          (case create_owners env org db1 of Inl e \<Rightarrow> Inl e | Inr (db2, ctx) \<Rightarrow> Inr (db2, org, ctx))))))"

definition UpdateOrganization ::
  "org_env \<Rightarrow> string \<Rightarrow> OrganizationOptions \<Rightarrow> org_db \<Rightarrow> (org_db \<times> Organization) result" where
  "UpdateOrganization env name opts db =
     (case org_authorize env UpdateAction OrganizationKind (Pointer_ID (OrganizationName_ID name)) db of
        Inl e \<Rightarrow> Inl e
      | Inr _ \<Rightarrow> db_updateOrganization name (Organization_Update (oe_clk env 0) opts) db)"

text \<open>
  A subject that may not list all organizations gets its own. Only users have an \<open>Organizations\<close>
  method.
\<close>

definition ListOrganizations :: "org_env \<Rightarrow> PageOptions \<Rightarrow> org_db \<Rightarrow> Organization Page result" where
  "ListOrganizations env opts db =
     (case Authorize (otf_resolvers (org_tables db)) (oe_policies env) (oe_ctx env) ListAction OrganizationKind
             (Some SiteID) of
        Some (Some subj, Inr _) \<Rightarrow> db_listOrganizations None opts db
      | Some (Some subj, Inl e) \<Rightarrow>
          if errors_is e ErrAccessNotPermitted
          then (case subj of UserSubject u \<Rightarrow> db_listOrganizations (Some (User_Organizations u)) opts db
                | _ \<Rightarrow> Inl e)
          else Inl e
      | Some (None, Inl e) \<Rightarrow> Inl e
      | _ \<Rightarrow> Inl (Errorf ''authorization does not return''))"

definition GetOrganization :: "org_env \<Rightarrow> string \<Rightarrow> org_db \<Rightarrow> Organization result" where
  "GetOrganization env name db =
     (case org_authorize env GetAction OrganizationKind (Pointer_ID (OrganizationName_ID name)) db of
        Inl e \<Rightarrow> Inl e | Inr _ \<Rightarrow> db_getOrganization name db)"

definition DeleteOrganization :: "org_env \<Rightarrow> string \<Rightarrow> org_db \<Rightarrow> org_db result" where
  "DeleteOrganization env name db =
     (case org_authorize env DeleteAction OrganizationKind (Pointer_ID (OrganizationName_ID name)) db of
        Inl e \<Rightarrow> Inl e
      | Inr _ \<Rightarrow>
          (case db_getOrganization name db of Inl e \<Rightarrow> Inl e | Inr org \<Rightarrow>
          (case oe_beforeDelete env org of Inl e \<Rightarrow> Inl e | Inr _ \<Rightarrow> db_deleteOrganization name db)))"

definition CreateOrganizationToken ::
  "org_env \<Rightarrow> string \<Rightarrow> gtime option \<Rightarrow> org_db \<Rightarrow> (org_db \<times> OrganizationToken \<times> string) result" where
  "CreateOrganizationToken env name expiry db =
     (case org_authorize env CreateAction OrganizationTokenKind (Pointer_ID (OrganizationName_ID name)) db of
        Inl e \<Rightarrow> Inl e
      | Inr _ \<Rightarrow>
          let ot = \<lparr>ot_ID = NewTfeID (oe_rnd env 0) OrganizationTokenKind,
                    ot_CreatedAt = CurrentTimestamp None (oe_clk env 0), ot_Organization = name,
                    ot_Expiry = expiry\<rparr>
          in (case oe_token env (ot_ID ot) expiry of Inl e \<Rightarrow> Inl e | Inr token \<Rightarrow>
             (case db_upsertOrganizationToken ot db of Inl e \<Rightarrow> Inl e | Inr db1 \<Rightarrow> Inr (db1, ot, token))))"

text \<open>Reading the token of an organization is not authorized.\<close>

definition GetOrganizationToken :: "org_env \<Rightarrow> string \<Rightarrow> org_db \<Rightarrow> OrganizationToken result" where
  "GetOrganizationToken env name db = db_getOrganizationTokenByName name db"

definition ListOrganizationTokens :: "org_env \<Rightarrow> string \<Rightarrow> org_db \<Rightarrow> OrganizationToken list result" where
  "ListOrganizationTokens env name db = Inr (db_listOrganizationTokens name db)"

definition DeleteOrganizationToken :: "org_env \<Rightarrow> string \<Rightarrow> org_db \<Rightarrow> org_db result" where
  "DeleteOrganizationToken env name db =
     (case org_authorize env DeleteAction OrganizationKind (OrganizationName_ID name) db of
        Inl e \<Rightarrow> Inl e | Inr _ \<Rightarrow> db_deleteOrganizationToken name db)"

end
