(* ===== verification/OrgSafety.thy ===== *)
theory OrgSafety
  imports OrgService
begin

text \<open>
  Safety of organizations and teams: every organization keeps an owner through the operations of the
  services, and the operations through which it can lose its last one; what a listing of organizations
  discloses, and how one organization can make all listings fail.
\<close>

section \<open>The invariant\<close>

definition has_owner :: "org_db \<Rightarrow> string \<Rightarrow> bool" where
  "has_owner db name \<longleftrightarrow>
     (\<exists>t \<in> set (od_teams db). team_Organization t = name \<and> team_Name t = ''owners'' \<and>
        team_ID t \<in> fst ` set (od_members db))"

definition org_wf :: "org_db \<Rightarrow> bool" where
  "org_wf db \<longleftrightarrow>
     distinct (map org_Name (od_organizations db)) \<and> distinct (map team_ID (od_teams db)) \<and>
     distinct (map user_Username (od_users db)) \<and>
     (\<forall>t \<in> set (od_teams db). team_Organization t \<in> org_Name ` set (od_organizations db)) \<and>
     (\<forall>tid n. (tid, n) \<in> set (od_members db) \<longrightarrow> tid \<in> team_ID ` set (od_teams db) \<and>
        n \<in> user_Username ` set (od_users db))"

definition org_inv :: "org_db \<Rightarrow> bool" where
  "org_inv db \<longleftrightarrow> org_wf db \<and> (\<forall>o1 \<in> set (od_organizations db). has_owner db (org_Name o1))"

text \<open>
  The two ways in which the services let an organization lose its owners: the owners team is given
  another name, or its last member is deleted by a site admin.
\<close>

definition renames_owners :: "TfeID \<Rightarrow> TeamOptions \<Rightarrow> org_db \<Rightarrow> bool" where
  "renames_owners tid opts db \<longleftrightarrow>
     (\<exists>t \<in> set (od_teams db). team_ID t = tid \<and> team_Name t = ''owners'' \<and>
        override (to_Name opts) ''owners'' \<noteq> ''owners'')"

definition last_owner :: "string \<Rightarrow> org_db \<Rightarrow> bool" where
  "last_owner name db \<longleftrightarrow>
     (\<exists>t \<in> set (od_teams db). team_Name t = ''owners'' \<and> (team_ID t, name) \<in> set (od_members db) \<and>
        (\<forall>n. (team_ID t, n) \<in> set (od_members db) \<longrightarrow> n = name))"

inductive reachable_orgs :: "org_db \<Rightarrow> bool" where
  orgs_init: "od_organizations db = [] \<Longrightarrow> od_teams db = [] \<Longrightarrow> od_members db = [] \<Longrightarrow>
    distinct (map user_Username (od_users db)) \<Longrightarrow> reachable_orgs db"
| orgs_create: "reachable_orgs db \<Longrightarrow> CreateOrganization env opts db = Inr (db', org, ctx) \<Longrightarrow> reachable_orgs db'"
| orgs_update: "reachable_orgs db \<Longrightarrow> UpdateOrganization env name opts db = Inr (db', org) \<Longrightarrow> reachable_orgs db'"
| orgs_delete: "reachable_orgs db \<Longrightarrow> DeleteOrganization env name db = Inr db' \<Longrightarrow> reachable_orgs db'"
| orgs_team: "reachable_orgs db \<Longrightarrow> CreateTeam env name topts db = Inr (db', t, ctx) \<Longrightarrow> reachable_orgs db'"
| orgs_team_update: "reachable_orgs db \<Longrightarrow> UpdateTeam env tid topts db = Inr (db', t) \<Longrightarrow>
    \<not> renames_owners tid topts db \<Longrightarrow> reachable_orgs db'"
| orgs_team_delete: "reachable_orgs db \<Longrightarrow> DeleteTeam env tid db = Inr db' \<Longrightarrow> reachable_orgs db'"
| orgs_user: "reachable_orgs db \<Longrightarrow> User_Create env name db = Inr (db', u) \<Longrightarrow> reachable_orgs db'"
| orgs_get_or_create: "reachable_orgs db \<Longrightarrow> GetOrCreateUser env name db = Inr (db', u) \<Longrightarrow> reachable_orgs db'"
| orgs_avatar: "reachable_orgs db \<Longrightarrow> UpdateAvatar env name url db = Inr db' \<Longrightarrow> reachable_orgs db'"
| orgs_user_delete: "reachable_orgs db \<Longrightarrow> User_Delete env name db = Inr db' \<Longrightarrow>
    \<not> last_owner name db \<Longrightarrow> reachable_orgs db'"
| orgs_add: "reachable_orgs db \<Longrightarrow> AddTeamMembership env tid ns db = Inr db' \<Longrightarrow> reachable_orgs db'"
| orgs_remove: "reachable_orgs db \<Longrightarrow> RemoveTeamMembership env tid ns db = Inr db' \<Longrightarrow> reachable_orgs db'"
| orgs_admins: "reachable_orgs db \<Longrightarrow> SetSiteAdmins env ns db = Inr (db', ups, downs) \<Longrightarrow> reachable_orgs db'"
| orgs_tokens: "reachable_orgs db \<Longrightarrow> od_organizations db' = od_organizations db \<Longrightarrow>
    od_teams db' = od_teams db \<Longrightarrow> od_members db' = od_members db \<Longrightarrow> od_users db' = od_users db \<Longrightarrow>
    reachable_orgs db'"

section \<open>Preservation by the queries\<close>

text \<open>Two databases that agree on what the invariant reads.\<close>

lemma org_inv_cong:
  assumes "od_organizations db' = od_organizations db" "od_teams db' = od_teams db"
    "od_members db' = od_members db" "map user_Username (od_users db') = map user_Username (od_users db)"
  shows "org_wf db' = org_wf db" "org_inv db' = org_inv db" "has_owner db' = has_owner db"
proof -
  have "user_Username ` set (od_users db') = user_Username ` set (od_users db)"
    using arg_cong [OF assms(4), of set] by simp
  then show wf: "org_wf db' = org_wf db" using assms by (simp add: org_wf_def)
  show ho: "has_owner db' = has_owner db" using assms by (simp add: has_owner_def fun_eq_iff)
  show "org_inv db' = org_inv db" using wf ho assms by (simp add: org_inv_def)
qed

text \<open>Adding teams and members leaves every owner in place.\<close>

lemma has_owner_mono:
  "has_owner db name \<Longrightarrow> set (od_teams db) \<subseteq> set (od_teams db') \<Longrightarrow>
   set (od_members db) \<subseteq> set (od_members db') \<Longrightarrow> has_owner db' name"
  by (force simp: has_owner_def)

lemma createTeam_wf:
  assumes "org_wf db" "db_createTeam t db = Inr db'"
  shows "org_wf db'" "od_organizations db' = od_organizations db" "od_members db' = od_members db"
    "od_users db' = od_users db" "od_teams db' = od_teams db @ [t]"
  using assms by (auto simp: db_createTeam_def org_wf_def split: if_splits)

lemma addTeamMembership_wf:
  assumes "org_wf db" "db_addTeamMembership tid ns db = Inr db'"
  shows "org_wf db'" "od_organizations db' = od_organizations db" "od_teams db' = od_teams db"
    "od_users db' = od_users db" "od_members db' = od_members db @ map (Pair tid) ns" "ns \<noteq> []"
  using assms by (auto simp: db_addTeamMembership_def org_wf_def list_all_iff split: if_splits)

lemma CreateUser_wf:
  assumes "org_wf db" "CreateUser_at env k n db = Inr (db', u)"
  shows "org_wf db'" "od_organizations db' = od_organizations db" "od_teams db' = od_teams db"
    "od_members db' = od_members db"
proof -
  from assms(2) have u: "user_Teams u = []" "db_CreateUser u db = Inr db'"
    by (auto simp: CreateUser_at_def NewUser_def split: sum.splits)
  then have "db' = db\<lparr>od_users := od_users db @ [u\<lparr>user_SiteAdmin := False, user_Teams := []\<rparr>]\<rparr>"
    "user_Username u \<notin> user_Username ` set (od_users db)"
    by (auto simp: db_CreateUser_def split: if_splits)
  with assms(1) show "org_wf db'" "od_organizations db' = od_organizations db" "od_teams db' = od_teams db"
    "od_members db' = od_members db" by (auto simp: org_wf_def)
qed

lemma ensure_users_wf:
  "org_wf db \<Longrightarrow> ensure_users env k ns db = Inr db' \<Longrightarrow>
     org_wf db' \<and> od_organizations db' = od_organizations db \<and> od_teams db' = od_teams db \<and>
     od_members db' = od_members db"
proof (induction ns arbitrary: k db)
  case (Cons n ns)
  then obtain db1 where db1: "ensure_users env (Suc k) ns db1 = Inr db'"
    "db1 = db \<or> (\<exists>u. CreateUser_at env k n db = Inr (db1, u))"
    by (auto split: sum.splits if_splits simp: map_sum_def)
  then have "org_wf db1 \<and> od_organizations db1 = od_organizations db \<and> od_teams db1 = od_teams db \<and>
      od_members db1 = od_members db"
    using Cons.prems(1) by (auto dest: CreateUser_wf)
  then show ?case using Cons.IH db1(1) by metis
qed simp

lemma ensure_admins_wf:
  "org_wf db \<Longrightarrow> ensure_admins env k ns db = Inr db' \<Longrightarrow>
     org_wf db' \<and> od_organizations db' = od_organizations db \<and> od_teams db' = od_teams db \<and>
     od_members db' = od_members db"
proof (induction ns arbitrary: k db)
  case (Cons n ns)
  then obtain db1 where db1: "ensure_admins env (Suc k) ns db1 = Inr db'"
    "db1 = db \<or> (\<exists>u. CreateUser_at env k n db = Inr (db1, u))"
    by (auto split: sum.splits if_splits prod.splits)
  then have "org_wf db1 \<and> od_organizations db1 = od_organizations db \<and> od_teams db1 = od_teams db \<and>
      od_members db1 = od_members db"
    using Cons.prems(1) by (auto dest: CreateUser_wf)
  then show ?case using Cons.IH db1(1) by metis
qed simp

text \<open>Adding members, creating the users that do not exist.\<close>

lemma AddTeamMembership_wf:
  assumes "org_wf db" "AddTeamMembership_at env k tid ns db = Inr db'"
  shows "org_wf db'" "od_organizations db' = od_organizations db" "od_teams db' = od_teams db"
    "od_members db' = od_members db @ map (Pair tid) ns" "ns \<noteq> []"
proof -
  from assms(2) obtain db1 where db1: "ensure_users env k ns db = Inr db1" "db_addTeamMembership tid ns db1 = Inr db'"
    by (auto simp: AddTeamMembership_at_def split: sum.splits)
  with ensure_users_wf [OF assms(1) db1(1)]
  show "org_wf db'" "od_organizations db' = od_organizations db" "od_teams db' = od_teams db"
    "od_members db' = od_members db @ map (Pair tid) ns" "ns \<noteq> []"
    using addTeamMembership_wf [of db1 tid ns db'] by auto
qed

text \<open>Creating a team; when it is an owners team, its creator becomes a member.\<close>

lemma CreateTeam_wf:
  assumes "org_wf db" "CreateTeam env name opts db = Inr (db', t, ctx)"
  shows "org_wf db'" "od_organizations db' = od_organizations db" "set (od_teams db) \<subseteq> set (od_teams db')"
    "set (od_members db) \<subseteq> set (od_members db')" "team_Name t = ''owners'' \<Longrightarrow> has_owner db' name"
proof -
  from assms(2) obtain db1 where t: "NewTeam (oe_rnd env 1) (oe_clk env 2) name opts = Inr t"
    and db1: "db_createTeam t db = Inr db1" and db': "add_creator env t db1 = Inr (db', ctx)"
    by (auto simp: CreateTeam_def split: sum.splits)
  from t have org: "team_Organization t = name" by (auto simp: NewTeam_def split: option.splits)
  note c = createTeam_wf [OF assms(1) db1]
  show "org_wf db'" "od_organizations db' = od_organizations db" "set (od_teams db) \<subseteq> set (od_teams db')"
    "set (od_members db) \<subseteq> set (od_members db')" "team_Name t = ''owners'' \<Longrightarrow> has_owner db' name"
  proof -
    consider (other) "team_Name t \<noteq> ''owners''" "db' = db1"
      | (owners) u :: User where "team_Name t = ''owners''"
          "AddTeamMembership_at env 2 (team_ID t) [user_Username u] db1 = Inr db'"
    proof (cases "team_Name t = ''owners''")
      case True
      then obtain u where "UserFromContext (oe_ctx env) = Inr u"
        "AddTeamMembership_at env 2 (team_ID t) [user_Username u] db1 = Inr db'"
        using db' by (auto simp: add_creator_def split: sum.splits)
      with True that(2) show thesis by blast
    qed (use db' that in \<open>simp add: add_creator_def\<close>)
    then show "org_wf db'" "od_organizations db' = od_organizations db" "set (od_teams db) \<subseteq> set (od_teams db')"
      "set (od_members db) \<subseteq> set (od_members db')" "team_Name t = ''owners'' \<Longrightarrow> has_owner db' name"
      using c org AddTeamMembership_wf [OF c(1)] by (cases; force simp: has_owner_def)+
  qed
qed

lemma CreateTeam_inv: "org_inv db \<Longrightarrow> CreateTeam env name opts db = Inr (db', t, ctx) \<Longrightarrow> org_inv db'"
  unfolding org_inv_def using CreateTeam_wf [of db env name opts db' t ctx] has_owner_mono [of db _ db'] by auto

lemma CreateOrganization_inv:
  assumes "org_inv db" "CreateOrganization env opts db = Inr (db', org, ctx)"
  shows "org_inv db'"
proof -
  from assms(2) obtain db1 ctx' where db1: "db_createOrganization org db = Inr db1"
    and db': "create_owners env org db1 = Inr (db', ctx')"
    by (auto simp: CreateOrganization_def split: sum.splits prod.splits)
  then obtain env' t ctx'' where team: "CreateTeam env' (org_Name org) owners_options db1 = Inr (db', t, ctx'')"
    by (auto simp: create_owners_def split: sum.splits prod.splits)
  have name: "team_Name t = ''owners''"
    using team by (auto simp: CreateTeam_def NewTeam_def owners_options_def split: sum.splits)
  have wf1: "org_wf db1" "od_teams db1 = od_teams db" "od_members db1 = od_members db"
    "org_Name ` set (od_organizations db1) = insert (org_Name org) (org_Name ` set (od_organizations db))"
    using assms(1) db1 by (auto simp: db_createOrganization_def org_inv_def org_wf_def split: if_splits)
  note w = CreateTeam_wf [OF wf1(1) team]
  have "has_owner db' (org_Name o1)" if "o1 \<in> set (od_organizations db')" for o1
  proof (cases "org_Name o1 = org_Name org")
    case True then show ?thesis using w(5) name by simp
  next
    case False
    with that w(2) wf1(4) have "org_Name o1 \<in> org_Name ` set (od_organizations db)" by auto
    then have "has_owner db (org_Name o1)" using assms(1) by (auto simp: org_inv_def)
    then show ?thesis using w(3,4) wf1 by (auto intro: has_owner_mono)
  qed
  with w(1) show ?thesis by (simp add: org_inv_def)
qed

section \<open>Preservation by the services\<close>

text \<open>Updating an organization renames it everywhere.\<close>

lemma updateOrganization_inv:
  assumes "org_inv db" "db_updateOrganization name fn db = Inr (db', new)"
  shows "org_inv db'"
proof -
  from assms(2) have taken: "org_Name new = name \<or> org_Name new \<notin> org_Name ` set (od_organizations db)"
    and db': "od_organizations db' = map (\<lambda>o1. if org_Name o1 = name then new else o1) (od_organizations db)"
      "od_teams db' = map (\<lambda>t. if team_Organization t = name
                               then t\<lparr>team_Organization := org_Name new\<rparr> else t) (od_teams db)"
      "od_members db' = od_members db" "od_users db' = od_users db"
    by (auto simp: db_updateOrganization_def split: sum.splits if_splits)
  let ?ren = "\<lambda>n. if n = name then org_Name new else n"
  have names: "map org_Name (od_organizations db') = map ?ren (map org_Name (od_organizations db))"
    and orgs: "map team_Organization (od_teams db') = map ?ren (map team_Organization (od_teams db))"
    and ids: "map team_ID (od_teams db') = map team_ID (od_teams db)"
    by (simp_all add: db')
  have inj: "inj_on ?ren (set (map org_Name (od_organizations db)))"
    using taken by (auto simp: inj_on_def image_iff split: if_splits)
  have wf: "org_wf db" using assms(1) by (simp add: org_inv_def)
  have "distinct (map org_Name (od_organizations db'))"
    unfolding names using wf inj by (simp only: org_wf_def distinct_map [of ?ren])
  moreover have "team_Organization t \<in> org_Name ` set (od_organizations db')" if "t \<in> set (od_teams db')" for t
  proof -
    from that have "team_Organization t \<in> set (map team_Organization (od_teams db'))" by simp
    then have "team_Organization t \<in> ?ren ` set (map team_Organization (od_teams db))"
      unfolding orgs by (simp only: set_map)
    then obtain n where "n \<in> set (map team_Organization (od_teams db))" "team_Organization t = ?ren n"
      by blast
    moreover from this(1) have "n \<in> set (map org_Name (od_organizations db))" using wf by (auto simp: org_wf_def)
    ultimately have "team_Organization t \<in> set (map org_Name (od_organizations db'))" unfolding names by auto
    then show ?thesis by simp
  qed
  moreover have "team_ID ` set (od_teams db') = team_ID ` set (od_teams db)"
    using arg_cong [OF ids, of set] by simp
  ultimately have wf': "org_wf db'" using wf unfolding org_wf_def by (simp add: ids db'(3,4))
  have "has_owner db' (?ren n)" if "has_owner db n" for n
  proof -
    from that obtain u where "u \<in> set (od_teams db)" "team_Organization u = n" "team_Name u = ''owners''"
      "team_ID u \<in> fst ` set (od_members db)" by (auto simp: has_owner_def)
    moreover define u' where "u' = (if team_Organization u = name then u\<lparr>team_Organization := org_Name new\<rparr> else u)"
    ultimately have "u' \<in> set (od_teams db')" "team_Organization u' = ?ren n" "team_Name u' = ''owners''"
      "team_ID u' \<in> fst ` set (od_members db')" by (auto simp: db')
    then show ?thesis by (auto simp: has_owner_def)
  qed
  then have "has_owner db' (org_Name o1)" if "o1 \<in> set (od_organizations db')" for o1
    using that assms(1) unfolding db'(1) org_inv_def by force
  with wf' show ?thesis by (simp add: org_inv_def)
qed

lemma deleteOrganization_inv:
  assumes "org_inv db" "db_deleteOrganization name db = Inr db'"
  shows "org_inv db'"
proof -
  from assms(2) have db': "db' = db\<lparr>od_organizations := filter (\<lambda>o1. org_Name o1 \<noteq> name) (od_organizations db),
        od_teams := filter (\<lambda>t. team_Organization t \<noteq> name) (od_teams db),
        od_members := filter (\<lambda>p. \<not> team_in name db (fst p)) (od_members db),
        od_team_tokens := filter (\<lambda>t. \<not> team_in name db (tt_TeamID t)) (od_team_tokens db),
        od_org_tokens := filter (\<lambda>t. ot_Organization t \<noteq> name) (od_org_tokens db)\<rparr>"
    by (simp add: db_deleteOrganization_def split: if_splits)
  have wf: "org_wf db" using assms(1) by (simp add: org_inv_def)
  have in_iff: "team_in name db (team_ID t) \<longleftrightarrow> team_Organization t = name" if "t \<in> set (od_teams db)" for t
    using that wf by (auto simp: team_in_def list_ex_iff org_wf_def distinct_map inj_on_def)
  have team: "tid \<in> team_ID ` {t \<in> set (od_teams db). team_Organization t \<noteq> name}"
    if "(tid, n) \<in> set (od_members db)" "\<not> team_in name db tid" for tid n
  proof -
    from that wf have "tid \<in> team_ID ` set (od_teams db)" by (auto simp: org_wf_def)
    then obtain t where "t \<in> set (od_teams db)" "tid = team_ID t" ..
    with that(2) in_iff show ?thesis by auto
  qed
  have org: "team_Organization t \<in> org_Name ` {o1 \<in> set (od_organizations db). org_Name o1 \<noteq> name}"
    if "t \<in> set (od_teams db)" "team_Organization t \<noteq> name" for t
    using that wf by (force simp: org_wf_def)
  have "\<forall>tid n. (tid, n) \<in> set (od_members db) \<and> \<not> team_in name db tid \<longrightarrow>
      tid \<in> team_ID ` {t \<in> set (od_teams db). team_Organization t \<noteq> name} \<and> n \<in> user_Username ` set (od_users db)"
    using team wf unfolding org_wf_def by blast
  then have "org_wf db'" using wf org by (simp add: db' org_wf_def distinct_map_filter) blast
  moreover have "has_owner db' (org_Name o1)" if "o1 \<in> set (od_organizations db')" for o1
  proof -
    from that have "has_owner db (org_Name o1)" "org_Name o1 \<noteq> name"
      using assms(1) by (auto simp: org_inv_def db')
    then obtain t n where "t \<in> set (od_teams db)" "team_Organization t = org_Name o1" "team_Name t = ''owners''"
      "(team_ID t, n) \<in> set (od_members db)" by (auto simp: has_owner_def)
    with \<open>org_Name o1 \<noteq> name\<close> in_iff show ?thesis
      unfolding has_owner_def db' by (auto intro!: bexI [of _ t] image_eqI [of _ _ "(team_ID t, n)"])
  qed
  ultimately show ?thesis by (simp add: org_inv_def)
qed

lemma updateTeam_inv:
  assumes "org_inv db" "db_updateTeam tid (Team_Update opts) db = Inr (db', new)"
    "\<not> renames_owners tid opts db"
  shows "org_inv db'"
proof -
  let ?upd = "\<lambda>u. if team_ID u = tid then new\<lparr>team_ID := team_ID u, team_Organization := team_Organization u,
                     team_CreatedAt := team_CreatedAt u\<rparr> else u"
  from assms(2) obtain t where t: "t \<in> set (od_teams db)" "team_ID t = tid" "new = Team_Update opts t"
    and db': "db' = db\<lparr>od_teams := map ?upd (od_teams db)\<rparr>"
    by (auto simp: db_updateTeam_def db_getTeamByID_def collect_one_def Let_def
        split: sum.splits option.splits if_splits dest: find_first_SomeD)
  have same: "team_ID (?upd u) = team_ID u" "team_Organization (?upd u) = team_Organization u" for u by simp_all
  have wf: "org_wf db" using assms(1) by (simp add: org_inv_def)
  have ids: "map team_ID (od_teams db') = map team_ID (od_teams db)"
    and orgs: "map team_Organization (od_teams db') = map team_Organization (od_teams db)"
    by (simp_all add: db')
  have "team_ID ` set (od_teams db') = team_ID ` set (od_teams db)"
    and "team_Organization ` set (od_teams db') = team_Organization ` set (od_teams db)"
    using arg_cong [OF ids, of set] arg_cong [OF orgs, of set] by simp_all
  moreover have "od_organizations db' = od_organizations db" "od_members db' = od_members db"
    "od_users db' = od_users db" by (simp_all add: db')
  ultimately have wf': "org_wf db'" using wf unfolding org_wf_def by (simp add: ids image_subset_iff [symmetric])
  have keeps: "team_Name (?upd u) = ''owners''" if "u \<in> set (od_teams db)" "team_Name u = ''owners''" for u
  proof (cases "team_ID u = tid")
    case True
    with that t wf have "u = t" by (auto simp: org_wf_def distinct_map inj_on_def)
    with True that t assms(3) show ?thesis
      by (auto simp: renames_owners_def Team_Update_def override_def split: option.splits)
  qed (use that in simp)
  have "has_owner db' n" if "has_owner db n" for n
  proof -
    from that obtain u where "u \<in> set (od_teams db)" "team_Organization u = n" "team_Name u = ''owners''"
      "team_ID u \<in> fst ` set (od_members db)" by (auto simp: has_owner_def)
    moreover define u' where "u' = ?upd u"
    ultimately have "u' \<in> set (od_teams db')" "team_Organization u' = n" "team_Name u' = ''owners''"
      "team_ID u' \<in> fst ` set (od_members db')" using keeps [of u] same [of u] by (auto simp: db')
    then show ?thesis by (auto simp: has_owner_def)
  qed
  with wf' assms(1) show ?thesis unfolding org_inv_def db' by simp
qed

text \<open>Deleting rows of the tables of teams and memberships that no owner needs.\<close>

lemma deleteTeam_inv:
  assumes "org_inv db" "DeleteTeam env tid db = Inr db'"
  shows "org_inv db'"
proof -
  from assms(2) obtain t where t: "t \<in> set (od_teams db)" "team_ID t = tid" "team_Name t \<noteq> ''owners''"
    and "db_deleteTeam tid db = Inr db'"
    by (auto simp: DeleteTeam_def db_getTeamByID_def collect_one_def split: sum.splits option.splits if_splits
        dest: find_first_SomeD)
  then have db': "db' = db\<lparr>od_teams := filter (\<lambda>t. team_ID t \<noteq> tid) (od_teams db),
        od_members := filter (\<lambda>p. fst p \<noteq> tid) (od_members db),
        od_team_tokens := filter (\<lambda>t. tt_TeamID t \<noteq> tid) (od_team_tokens db)\<rparr>"
    by (simp add: db_deleteTeam_def split: if_splits)
  have wf: "org_wf db" using assms(1) by (simp add: org_inv_def)
  have "org_wf db'" using wf unfolding db' org_wf_def by (auto simp: distinct_map_filter) blast+
  moreover have "has_owner db' n" if owner: "has_owner db n" for n
  proof -
    from owner obtain u m where u: "u \<in> set (od_teams db)" "team_Organization u = n" "team_Name u = ''owners''"
      "(team_ID u, m) \<in> set (od_members db)" by (auto simp: has_owner_def)
    then have "team_ID u \<noteq> tid" using t wf by (auto simp: org_wf_def distinct_map inj_on_def)
    with u show ?thesis unfolding has_owner_def db' by (auto intro!: bexI [of _ u] image_eqI [of _ _ "(team_ID u, m)"])
  qed
  ultimately show ?thesis using assms(1) by (simp add: org_inv_def db')
qed

lemma deleteUser_inv:
  assumes "org_inv db" "db_DeleteUser (ByUsername name) db = Inr db'" "\<not> last_owner name db"
  shows "org_inv db'"
proof -
  from assms(2) have users: "od_users db' = filter (\<lambda>u. user_Username u \<noteq> name) (od_users db)"
    and other: "od_organizations db' = od_organizations db" "od_teams db' = od_teams db"
    and members: "od_members db' =
      filter (\<lambda>p. snd p \<notin> set (map user_Username (filter (\<lambda>u. user_Username u = name) (od_users db)))) (od_members db)"
    by (auto simp: db_DeleteUser_def delete_users_def Let_def split: if_splits)
  have mem: "(tid, n) \<in> set (od_members db') \<longleftrightarrow> (tid, n) \<in> set (od_members db) \<and> n \<noteq> name" for tid n
    using assms(1) by (auto simp: members org_inv_def org_wf_def)
  have "org_wf db'" using assms(1) mem
    by (force simp: org_inv_def org_wf_def users other distinct_map_filter)
  moreover have "has_owner db' k" if "has_owner db k" for k
  proof -
    from that obtain t m where t: "t \<in> set (od_teams db)" "team_Organization t = k" "team_Name t = ''owners''"
      "(team_ID t, m) \<in> set (od_members db)" by (auto simp: has_owner_def)
    with assms(3) obtain n where "(team_ID t, n) \<in> set (od_members db)" "n \<noteq> name"
      unfolding last_owner_def by blast
    with t mem have "team_ID t \<in> fst ` set (od_members db')" by (metis fst_conv image_eqI)
    with t show ?thesis by (auto simp: has_owner_def other)
  qed
  ultimately show ?thesis using assms(1) by (simp add: org_inv_def other)
qed

text \<open>The guard of \<open>RemoveTeamMembership\<close>: fewer names than owners leaves an owner.\<close>

lemma owner_remains:
  assumes wf: "org_wf db" and n: "length ns < length (db_listTeamUsers tid db)"
  shows "\<exists>m. (tid, m) \<in> set (od_members db) \<and> m \<notin> set ns"
proof (rule ccontr)
  let ?us = "filter (\<lambda>u. (tid, user_Username u) \<in> set (od_members db) \<and> tid \<in> set (map team_ID (od_teams db)))
    (od_users db)"
  assume "\<not> ?thesis"
  then have "set (map user_Username ?us) \<subseteq> set ns" by auto
  then have "card (set (map user_Username ?us)) \<le> card (set ns)" by (simp add: card_mono)
  moreover have "distinct (map user_Username ?us)" using wf by (simp add: org_wf_def distinct_map_filter)
  ultimately have "length ?us \<le> length ns"
    using distinct_card [of "map user_Username ?us"] card_length [of ns] by simp
  with n show False by (simp add: db_listTeamUsers_def)
qed

lemma GetTeamByID_SomeD: "GetTeamByID env tid db = Inr t \<Longrightarrow> t \<in> set (od_teams db) \<and> team_ID t = tid"
  by (auto simp: GetTeamByID_def db_getTeamByID_def collect_one_def split: sum.splits option.splits
      dest: find_first_SomeD)

lemma removeTeamMembership_inv:
  assumes "org_inv db" "RemoveTeamMembership env tid ns db = Inr db'"
  shows "org_inv db'"
proof -
  from assms(2) obtain t where t: "t \<in> set (od_teams db)" "team_ID t = tid"
    and db: "db_removeTeamMembership tid ns db = Inr db'"
    and guard: "team_Name t = ''owners'' \<Longrightarrow> length ns < length (db_listTeamUsers tid db)"
    by (auto simp: RemoveTeamMembership_def ListTeamUsers_def split: sum.splits if_splits dest!: GetTeamByID_SomeD)
  from db have db': "db' = db\<lparr>od_members := filter (\<lambda>p. \<not> (fst p = tid \<and> snd p \<in> set ns)) (od_members db)\<rparr>"
    by (simp add: db_removeTeamMembership_def Let_def split: if_splits)
  have wf: "org_wf db" using assms(1) by (simp add: org_inv_def)
  have "org_wf db'" using wf by (auto simp: org_wf_def db')
  moreover have "has_owner db' k" if "has_owner db k" for k
  proof -
    from that obtain u m where u: "u \<in> set (od_teams db)" "team_Organization u = k" "team_Name u = ''owners''"
      "(team_ID u, m) \<in> set (od_members db)" by (auto simp: has_owner_def)
    have "\<exists>m. (team_ID u, m) \<in> set (od_members db')"
    proof (cases "team_ID u = tid")
      case True
      with u t wf have "u = t" by (auto simp: org_wf_def distinct_map inj_on_def)
      with guard u owner_remains [OF wf] t show ?thesis unfolding db' by fastforce
    next
      case False
      with u show ?thesis unfolding db' by auto
    qed
    then have "team_ID u \<in> fst ` set (od_members db')" by (metis fst_conv image_eqI)
    with u show ?thesis by (auto simp: has_owner_def db')
  qed
  ultimately show ?thesis using assms(1) by (simp add: org_inv_def db')
qed

lemmas org_inv_steps =
  CreateOrganization_inv CreateTeam_inv updateOrganization_inv deleteOrganization_inv updateTeam_inv
  deleteTeam_inv deleteUser_inv removeTeamMembership_inv

text \<open>The operations on users alone, and on tokens, leave organizations and memberships as they are.\<close>

lemma same_orgs_inv:
  assumes "org_inv db" "org_wf db'" "od_organizations db' = od_organizations db" "od_teams db' = od_teams db"
    "set (od_members db) \<subseteq> set (od_members db')"
  shows "org_inv db'"
  using assms has_owner_mono [of db _ db'] by (auto simp: org_inv_def)

lemma CreateUser_inv: "org_inv db \<Longrightarrow> CreateUser_at env k n db = Inr (db', u) \<Longrightarrow> org_inv db'"
  using CreateUser_wf [of db env k n db' u] same_orgs_inv [of db db'] by (simp add: org_inv_def)

lemma GetOrCreateUser_inv:
  "org_inv db \<Longrightarrow> GetOrCreateUser env n db = Inr (db', u) \<Longrightarrow> org_inv db'"
  by (auto simp: GetOrCreateUser_def User_Create_def split: sum.splits if_splits dest: CreateUser_inv)

lemma AddTeamMembership_inv:
  "org_inv db \<Longrightarrow> AddTeamMembership_at env k tid ns db = Inr db' \<Longrightarrow> org_inv db'"
  using AddTeamMembership_wf [of db env k tid ns db'] same_orgs_inv [of db db'] by (simp add: org_inv_def)

lemma UpdateAvatar_inv: "org_inv db \<Longrightarrow> UpdateAvatar env n url db = Inr db' \<Longrightarrow> org_inv db'"
  by (subst org_inv_cong(2) [of _ db])
     (auto simp: UpdateAvatar_def db_updateAvatarURL_def split: sum.splits if_splits)

lemma SetSiteAdmins_inv: "org_inv db \<Longrightarrow> SetSiteAdmins env ns db = Inr (db', ups, downs) \<Longrightarrow> org_inv db'"
proof -
  assume inv: "org_inv db" and "SetSiteAdmins env ns db = Inr (db', ups, downs)"
  then obtain db1 where db1: "ensure_admins env 0 ns db = Inr db1" "db_setSiteAdmins ns db1 = (db', ups, downs)"
    by (auto simp: SetSiteAdmins_def split: sum.splits)
  then have "org_inv db1"
    using inv ensure_admins_wf [of db env 0 ns db1] same_orgs_inv [of db db1] by (simp add: org_inv_def)
  then show "org_inv db'"
    using db1(2) by (subst org_inv_cong(2) [of _ db1]) (auto simp: db_setSiteAdmins_def Let_def comp_def)
qed

lemma reachable_orgs_inv: "reachable_orgs db \<Longrightarrow> org_inv db"
proof (induction rule: reachable_orgs.induct)
  case (orgs_init db)
  then show ?case by (simp add: org_inv_def org_wf_def)
next
  case (orgs_update db env name opts db' org)
  then show ?case by (auto simp: UpdateOrganization_def split: sum.splits intro: org_inv_steps(3))
next
  case (orgs_delete db env name db')
  then show ?case by (auto simp: DeleteOrganization_def split: sum.splits intro: org_inv_steps(4))
next
  case (orgs_team_update db env tid topts db' t)
  then show ?case by (auto simp: UpdateTeam_def split: sum.splits intro: org_inv_steps(5))
next
  case (orgs_user_delete db env name db')
  then show ?case by (auto simp: User_Delete_def split: sum.splits intro: org_inv_steps(7))
next
  case (orgs_tokens db db')
  then show ?case using org_inv_cong(2) [of db' db] by simp
qed (auto simp: User_Create_def AddTeamMembership_def
      intro: org_inv_steps CreateUser_inv GetOrCreateUser_inv AddTeamMembership_inv UpdateAvatar_inv SetSiteAdmins_inv)

section \<open>Properties\<close>

subsection \<open>A scenario: alice creates an organization\<close>

definition alice :: User where
  "alice = \<lparr>user_ID = \<lparr>tfe_kind = UserKind, tfe_id = ''alice''\<rparr>, user_CreatedAt = 0, user_UpdatedAt = 0,
            user_SiteAdmin = False, user_Username = ''alice'', user_Teams = [], user_AvatarURL = None\<rparr>"

definition empty_orgs :: org_db where
  "empty_orgs = \<lparr>od_organizations = [], od_teams = [], od_members = [], od_users = [alice], od_org_tokens = [],
                 od_team_tokens = [], od_user_tokens = [], od_pools = []\<rparr>"

definition env_of :: "User \<Rightarrow> org_env" where
  "env_of u = \<lparr>oe_ctx = \<lparr>ctx_subject = Some (UserSubject u), ctx_skipAuthz = False\<rparr>,
               oe_policies = (\<lambda>_. Inl ErrResourceNotFound), oe_rnd = (\<lambda>k _. k), oe_clk = (\<lambda>_. 0),
               oe_restrict = False, oe_token = (\<lambda>_ _. Inl ErrUnauthorized), oe_beforeDelete = (\<lambda>_. Inr ())\<rparr>"

definition org_options :: "string \<Rightarrow> ExecKind option \<Rightarrow> OrganizationOptions" where
  "org_options name kind =
     \<lparr>oo_Name = Some name, oo_Email = None, oo_CollaboratorAuthPolicy = None, oo_CostEstimationEnabled = None,
      oo_SessionRemember = None, oo_SessionTimeout = None, oo_AllowForceDeleteWorkspaces = None,
      oo_DefaultExecutionMode = kind, oo_DefaultAgentPoolID = None\<rparr>"

lemma authorize_site:
  "org_authorize env action kind SiteID db =
     (case ctx_subject (oe_ctx env) of
        None \<Rightarrow> Inl (Errorf ''no subject in context'')
      | Some subj \<Rightarrow>
          if ctx_skipAuthz (oe_ctx env) then Inr subj
          else case Subject_CanAccess subj action kind \<lparr>req_ID = SiteID, req_WorkspacePolicy = None, req_lineage = []\<rparr> of
                 Inl e \<Rightarrow> Inl e
               | Inr ok \<Rightarrow> if ok then Inr subj else Inl ErrAccessNotPermitted)"
  by (auto simp: org_authorize_def Authorize_def generateRequest_def split: option.splits sum.splits)

lemma authorize_skip:
  "ctx_subject (oe_ctx env) = Some subj \<Longrightarrow> ctx_skipAuthz (oe_ctx env) \<Longrightarrow>
     org_authorize env action kind rid db = Inr subj"
  by (simp add: org_authorize_def Authorize_def)

text \<open>
  An organization has no parent resolver, so that the request names it and nothing else.
\<close>

lemma authorize_organization:
  "org_authorize env action kind (OrganizationName_ID n) db =
     (case ctx_subject (oe_ctx env) of
        None \<Rightarrow> Inl (Errorf ''no subject in context'')
      | Some subj \<Rightarrow>
          if ctx_skipAuthz (oe_ctx env) then Inr subj
          else case Subject_CanAccess subj action kind
                      \<lparr>req_ID = OrganizationName_ID n, req_WorkspacePolicy = None, req_lineage = []\<rparr> of
                 Inl e \<Rightarrow> Inl e
               | Inr ok \<Rightarrow> if ok then Inr subj else Inl ErrAccessNotPermitted)"
  by (auto simp: org_authorize_def Authorize_def generateRequest_def lineage_loop.simps otf_resolvers_def
      req_Workspace_def req_ancestor_def kind_defs split: option.splits sum.splits)

definition created :: "string \<Rightarrow> ExecKind option \<Rightarrow> (org_db \<times> Organization \<times> authz_ctx) result" where
  "created name kind = CreateOrganization (env_of alice) (org_options name kind) empty_orgs"

lemmas create_defs =
  created_def CreateOrganization_def authorize_site authorize_skip restrictOrganizationCreation_def
  NewOrganization_def Organization_NewName_def db_createOrganization_def create_owners_def CreateTeam_def
  NewTeam_def owners_options_def db_createTeam_def add_creator_def UserFromContext_def AddTeamMembership_at_def
  GetTeamByID_def db_getTeamByID_def collect_one_def db_getUser_def db_addTeamMembership_def env_of_def
  org_options_def empty_orgs_def alice_def is_name_char_def

lemma created_ok:
  assumes "kind = None \<or> kind = Some AgentKind"
  obtains db org ctx where "created ''acme'' kind = Inr (db, org, ctx)" "org_Name org = ''acme''"
    "map org_Name (od_organizations db) = [''acme'']" "length (od_organizations db) = 1"
  using assms
  by (auto simp: create_defs Let_def User_CanAccess_def IsSiteAdmin_def SiteAdminID_def kind_defs
      NewModeWithDefaults_def NewMode_def mode_isValid_def zero_mode_def)

lemma empty_orgs_reachable: "reachable_orgs empty_orgs"
  by (rule orgs_init) (simp_all add: empty_orgs_def)

subsection \<open>Owners\<close>

text \<open>
  C27: Every organization keeps an owner. In every database that the services of organizations, teams
  and users produce, each organization has an owners team of which an existing user is a member,
  whatever is created, renamed, joined, left or deleted; the two exceptions, renaming the owners team
  and deleting the account of its last member, are excluded steps of \<open>reachable_orgs\<close>.
\<close>

theorem owners_never_empty:
  assumes "reachable_orgs db" "o1 \<in> set (od_organizations db)"
  shows "\<exists>t \<in> set (db_listTeams (org_Name o1) db). team_Name t = ''owners'' \<and> db_listTeamUsers (team_ID t) db \<noteq> []"
proof -
  have inv: "org_inv db" using assms(1) by (rule reachable_orgs_inv)
  with assms(2) obtain t n where t: "t \<in> set (od_teams db)" "team_Organization t = org_Name o1"
    "team_Name t = ''owners''" "(team_ID t, n) \<in> set (od_members db)"
    by (auto simp: org_inv_def has_owner_def)
  with inv have "n \<in> user_Username ` set (od_users db)" by (fastforce simp: org_inv_def org_wf_def)
  then obtain u where "u \<in> set (od_users db)" "user_Username u = n" by blast
  with t have "db_listTeamUsers (team_ID t) db \<noteq> []" by (auto simp: db_listTeamUsers_def filter_empty_conv)
  with t show ?thesis by (auto simp: db_listTeams_def)
qed

theorem owners_never_empty_witness:
  "\<exists>db o1 t. reachable_orgs db \<and> o1 \<in> set (od_organizations db) \<and> org_Name o1 = ''acme'' \<and>
     t \<in> set (db_listTeams ''acme'' db) \<and> team_Name t = ''owners'' \<and> db_listTeamUsers (team_ID t) db \<noteq> []"
proof -
  obtain db org ctx where c: "created ''acme'' None = Inr (db, org, ctx)"
    "map org_Name (od_organizations db) = [''acme'']" by (rule created_ok [of None]) simp_all
  have r: "reachable_orgs db"
    using c(1) orgs_create [OF empty_orgs_reachable] unfolding created_def by blast
  from c(2) obtain o1 where "o1 \<in> set (od_organizations db)" "org_Name o1 = ''acme''" by auto
  with owners_never_empty [OF r this(1)] r show ?thesis by auto
qed

text \<open>
  The exceptions are real: the owners of an organization may rename their team, after which the
  organization has no owners team at all, although the team can neither be deleted nor emptied.
\<close>

lemma rename_loses_owners:
  assumes "org_wf db" "distinct (map (\<lambda>t. (team_Organization t, team_Name t)) (od_teams db))"
    "t \<in> set (od_teams db)" "team_Name t = ''owners''" "to_Name opts = Some n" "n \<noteq> ''owners''"
    "UpdateTeam env (team_ID t) opts db = Inr (db', new)"
  shows "\<not> has_owner db' (team_Organization t)"
proof
  assume "has_owner db' (team_Organization t)"
  then obtain u' where u': "u' \<in> set (od_teams db')" "team_Organization u' = team_Organization t"
    "team_Name u' = ''owners''" by (auto simp: has_owner_def)
  from assms(7) obtain v where v: "new = Team_Update opts v"
    and db': "od_teams db' = map (\<lambda>u. if team_ID u = team_ID t
      then new\<lparr>team_ID := team_ID u, team_Organization := team_Organization u, team_CreatedAt := team_CreatedAt u\<rparr>
      else u) (od_teams db)"
    by (auto simp: UpdateTeam_def db_updateTeam_def Let_def split: sum.splits if_splits)
  from u' db' v assms(5,6) have "u' \<in> set (od_teams db)" "team_ID u' \<noteq> team_ID t"
    by (auto simp: Team_Update_def split: if_splits)
  moreover from this u' assms(2,3,4) have "u' = t"
    by (auto simp: distinct_map inj_on_def)
  ultimately show False by simp
qed

subsection \<open>Site admins\<close>

text \<open>
  The site admins are exactly the given users. After \<open>SetSiteAdmins\<close> every given name is the name
  of a user, a user is a site admin precisely when its name was given, and the promoted and demoted
  users that are reported are those whose status changed.
\<close>

theorem SetSiteAdmins_exact:
  assumes "org_wf db" "SetSiteAdmins env names db = Inr (db', promoted, demoted)"
  shows "set names \<subseteq> user_Username ` set (od_users db') \<and>
    (\<forall>u. u \<in> set (od_users db') \<longrightarrow> (user_SiteAdmin u \<longleftrightarrow> user_Username u \<in> set names)) \<and>
    set promoted = set names - user_Username ` {u \<in> set (od_users db). user_SiteAdmin u} \<and>
    set demoted = user_Username ` {u \<in> set (od_users db). user_SiteAdmin u} - set names"
proof -
  from assms(2) obtain db1 where db1: "ensure_admins env 0 names db = Inr db1"
    and db': "db_setSiteAdmins names db1 = (db', promoted, demoted)"
    by (auto simp: SetSiteAdmins_def split: sum.splits)
  have ens: "ensure_admins env k ns db0 = Inr db2 \<Longrightarrow>
      set ns \<subseteq> user_Username ` set (od_users db2) \<and>
      user_Username ` set (od_users db0) \<subseteq> user_Username ` set (od_users db2) \<and>
      {u \<in> set (od_users db2). user_SiteAdmin u} = {u \<in> set (od_users db0). user_SiteAdmin u}" for k ns db0 db2
  proof (induction ns arbitrary: k db0)
    case (Cons n ns)
    then obtain d where d: "ensure_admins env (Suc k) ns d = Inr db2"
      "d = db0 \<and> (\<exists>u. db_getUser (ByUsername n) db0 = Inr u) \<or>
       (\<exists>u. CreateUser_at env k n db0 = Inr (d, u))"
      by (auto simp: db_getUser_def collect_one_def split: sum.splits if_splits prod.splits option.splits)
    have "n \<in> user_Username ` set (od_users d) \<and> user_Username ` set (od_users db0) \<subseteq> user_Username ` set (od_users d) \<and>
        {u \<in> set (od_users d). user_SiteAdmin u} = {u \<in> set (od_users db0). user_SiteAdmin u}"
      using d(2)
    proof
      assume "d = db0 \<and> (\<exists>u. db_getUser (ByUsername n) db0 = Inr u)"
      then show ?thesis
        by (auto simp: db_getUser_def collect_one_def split: option.splits dest: find_first_SomeD)
    next
      assume "\<exists>u. CreateUser_at env k n db0 = Inr (d, u)"
      then obtain u where "d = db0\<lparr>od_users := od_users db0 @ [u]\<rparr>" "user_Username u = n" "\<not> user_SiteAdmin u"
        by (force simp: CreateUser_at_def NewUser_def NewUsername_def db_CreateUser_def split: sum.splits if_splits)
      then show ?thesis by auto
    qed
    with Cons.IH [OF d(1)] have "insert n (set ns) \<subseteq> user_Username ` set (od_users db2)"
      "user_Username ` set (od_users db0) \<subseteq> user_Username ` set (od_users db2)"
      "{u \<in> set (od_users db2). user_SiteAdmin u} = {u \<in> set (od_users db0). user_SiteAdmin u}" by blast+
    then show ?case by simp
  qed simp
  note e = ens [OF db1]
  from db' have users: "od_users db' = map (\<lambda>u. if user_Username u \<in> set names then u\<lparr>user_SiteAdmin := True\<rparr> else u)
      (map (\<lambda>u. u\<lparr>user_SiteAdmin := False\<rparr>) (od_users db1))"
    and lists: "promoted = Diff (map user_Username (filter (\<lambda>u. user_Username u \<in> set names)
        (map (\<lambda>u. u\<lparr>user_SiteAdmin := False\<rparr>) (od_users db1)))) (map user_Username (filter user_SiteAdmin (od_users db1)))"
      "demoted = Diff (map user_Username (filter user_SiteAdmin (od_users db1))) (map user_Username (filter (\<lambda>u. user_Username u \<in> set names)
        (map (\<lambda>u. u\<lparr>user_SiteAdmin := False\<rparr>) (od_users db1))))"
    by (auto simp: db_setSiteAdmins_def Let_def)
  have given: "user_Username ` {u \<in> set (map (\<lambda>u. u\<lparr>user_SiteAdmin := False\<rparr>) (od_users db1)). user_Username u \<in> set names} = set names"
    using e by (auto simp: image_iff) force
  have "user_Username ` set (od_users db') = user_Username ` set (od_users db1)"
    unfolding users set_map image_image by (rule image_cong) auto
  moreover have "user_SiteAdmin u \<longleftrightarrow> user_Username u \<in> set names" if "u \<in> set (od_users db')" for u
    using that unfolding users by auto
  moreover have "set promoted = set names - user_Username ` {u \<in> set (od_users db). user_SiteAdmin u}"
    "set demoted = user_Username ` {u \<in> set (od_users db). user_SiteAdmin u} - set names"
    using e given unfolding lists set_Diff set_map set_filter by simp_all
  ultimately show ?thesis using e by auto
qed

theorem SetSiteAdmins_exact_witness:
  "\<exists>db' promoted. SetSiteAdmins (env_of alice) [''alice''] empty_orgs = Inr (db', promoted, []) \<and>
     set promoted = {''alice''}"
proof -
  have ok: "SetSiteAdmins (env_of alice) [''alice''] empty_orgs =
      Inr (empty_orgs\<lparr>od_users := [alice\<lparr>user_SiteAdmin := True\<rparr>]\<rparr>, [''alice''], [])"
    by (simp add: SetSiteAdmins_def db_getUser_def collect_one_def db_setSiteAdmins_def empty_orgs_def alice_def
        Diff_def Let_def)
  have "org_wf empty_orgs" using reachable_orgs_inv [OF empty_orgs_reachable] by (simp add: org_inv_def)
  from SetSiteAdmins_exact [OF this ok] ok show ?thesis by (auto simp: empty_orgs_def alice_def)
qed

subsection \<open>Reading organizations back\<close>

lemma collect_rows_fails:
  "r \<in> set rs \<Longrightarrow> scan r = Inl e \<Longrightarrow> \<exists>e'. collect_rows scan rs = Inl e'"
  by (induction rs) (auto split: sum.splits)

lemma collect_rows_names:
  "collect_rows scan_organization rs = Inr xs \<Longrightarrow> map org_Name xs = map org_Name rs"
  by (induction rs arbitrary: xs) (auto simp: scan_organization_def split: sum.splits)

lemma sql_like_any [simp]: "sql_like ''%'' s"
  by (induction s) simp_all

text \<open>A name without the wildcard characters and the escape character stands for itself.\<close>

lemma sql_like_literal:
  "set p \<inter> {CHR ''%'', CHR ''_'', CHR 0x5C} = {} \<Longrightarrow> sql_like p s \<longleftrightarrow> p = s"
  by (induction p s rule: sql_like.induct) (auto split: list.splits)

lemma CreateOrganization_row:
  assumes "org_wf db" "CreateOrganization env opts db = Inr (db', org, ctx)"
  shows "od_organizations db' = od_organizations db @
      [org\<lparr>org_DefaultMode := \<lparr>mode_kind = mode_kind (org_DefaultMode org), mode_agentPoolID = None\<rparr>\<rparr>]"
    "org_Name org \<notin> org_Name ` set (od_organizations db)"
    "\<exists>db1. NewOrganization (oe_rnd env 0) (oe_clk env) opts = Inr org"
proof -
  from assms(2) obtain db1 ctx' where db1: "db_createOrganization org db = Inr db1"
    and db': "create_owners env org db1 = Inr (db', ctx')"
    and org: "NewOrganization (oe_rnd env 0) (oe_clk env) opts = Inr org"
    by (auto simp: CreateOrganization_def split: sum.splits prod.splits)
  then obtain env' t ctx'' where team: "CreateTeam env' (org_Name org) owners_options db1 = Inr (db', t, ctx'')"
    by (auto simp: create_owners_def split: sum.splits prod.splits)
  have wf1: "org_wf db1" using assms(1) db1 by (auto simp: db_createOrganization_def org_wf_def split: if_splits)
  from CreateTeam_wf(2) [OF wf1 team] db1 org
  show "od_organizations db' = od_organizations db @
      [org\<lparr>org_DefaultMode := \<lparr>mode_kind = mode_kind (org_DefaultMode org), mode_agentPoolID = None\<rparr>\<rparr>]"
    "org_Name org \<notin> org_Name ` set (od_organizations db)"
    "\<exists>db1. NewOrganization (oe_rnd env 0) (oe_clk env) opts = Inr org"
    by (auto simp: db_createOrganization_def split: if_splits)
qed

text \<open>
  An organization whose default execution mode is the agent mode cannot be read back. The insertion
  leaves out the default agent pool, and a mode without a pool does not pass the check of the rows that
  are read: after such an organization was created, fetching, updating and deleting it fail for every
  subject, and so does every listing of all organizations whose page holds it.
\<close>

theorem agent_default_organization_unreadable:
  assumes "org_wf db" "CreateOrganization env opts db = Inr (db', org, ctx)"
    "oo_DefaultExecutionMode opts = Some AgentKind"
    "GetOffset page = 0" "length (od_organizations db') \<le> nat (GetLimit page)"
  shows "(\<exists>e. GetOrganization env2 (org_Name org) db' = Inl e) \<and>
    (\<exists>e. UpdateOrganization env2 (org_Name org) opts2 db' = Inl e) \<and>
    (\<exists>e. DeleteOrganization env2 (org_Name org) db' = Inl e) \<and>
    (\<exists>e. db_listOrganizations None page db' = Inl e)"
proof -
  let ?row = "org\<lparr>org_DefaultMode := \<lparr>mode_kind = mode_kind (org_DefaultMode org), mode_agentPoolID = None\<rparr>\<rparr>"
  note row = CreateOrganization_row [OF assms(1,2)]
  from row(3) assms(3) obtain e where scan: "scan_organization ?row = Inl e"
    by (auto simp: NewOrganization_def scan_organization_def NewModeWithDefaults_def NewMode_def mode_isValid_def
        zero_mode_def Let_def split: option.splits sum.splits if_splits)
  have "find_first (\<lambda>o1. org_Name o1 = org_Name org) (od_organizations db') = Some ?row"
  proof -
    have "find_first (\<lambda>o1. org_Name o1 = org_Name org) (od_organizations db) = None"
      unfolding find_first_None_iff using row(2) by (metis image_eqI)
    with row(1) show ?thesis by (simp add: find_first_append)
  qed
  then have get: "db_getOrganization (org_Name org) db' = Inl e"
    using scan by (simp add: db_getOrganization_def collect_one_def)
  have rows: "filter (\<lambda>o1. list_ex (\<lambda>p. sql_like p (org_Name o1)) [''%'']) (od_organizations db') = od_organizations db'"
    by simp
  have "?row \<in> set (sort_key (\<lambda>o1. - org_UpdatedAt o1) (od_organizations db'))" using row(1) by simp
  then obtain e' where "collect_rows scan_organization
      (take (nat (GetLimit page)) (drop (nat (GetOffset page)) (sort_key (\<lambda>o1. - org_UpdatedAt o1) (od_organizations db')))) = Inl e'"
    using collect_rows_fails [where scan = scan_organization and r = ?row and e = e] scan assms(4,5) by fastforce
  then have "db_listOrganizations None page db' = Inl e'"
    using assms(4) by (simp add: db_listOrganizations_def Let_def)
  with get show ?thesis
    by (auto simp: GetOrganization_def UpdateOrganization_def DeleteOrganization_def db_updateOrganization_def
        split: sum.splits)
qed

theorem agent_default_organization_unreadable_witness:
  "\<exists>db org ctx. created ''acme'' (Some AgentKind) = Inr (db, org, ctx) \<and> org_Name org = ''acme'' \<and>
     (\<exists>e. GetOrganization (env_of alice) ''acme'' db = Inl e)"
proof -
  obtain db org ctx where c: "created ''acme'' (Some AgentKind) = Inr (db, org, ctx)" "org_Name org = ''acme''"
    "length (od_organizations db) = 1" by (rule created_ok [of "Some AgentKind"]) simp_all
  have wf: "org_wf empty_orgs" using reachable_orgs_inv [OF empty_orgs_reachable] by (simp add: org_inv_def)
  have page: "GetOffset \<lparr>PageNumber = 1, PageSize = 10\<rparr> = 0"
    "length (od_organizations db) \<le> nat (GetLimit \<lparr>PageNumber = 1, PageSize = 10\<rparr>)"
    using c(3) by (simp_all add: GetOffset_def GetLimit_def Normalize_def Let_def MaxPageSize_def DefaultPageSize_def i64_def i32_def)
  from agent_default_organization_unreadable
    [OF wf c(1) [unfolded created_def] _ page, of "env_of alice" "org_options ''acme'' None"] c
  show ?thesis by (auto simp: org_options_def)
qed

text \<open>
  A user's listing holds organizations of the user only. A user who is not a site admin lists
  organizations of which the user has a team, whatever the page, as long as the names of those
  organizations hold no character that the database reads as a wildcard.
\<close>

theorem ListOrganizations_own:
  assumes "oe_ctx env = \<lparr>ctx_subject = Some (UserSubject u), ctx_skipAuthz = False\<rparr>" "\<not> IsSiteAdmin u"
    "\<forall>t \<in> set (user_Teams u). set (team_Organization t) \<inter> {CHR ''%'', CHR ''_'', CHR 0x5C} = {}"
    "ListOrganizations env opts db = Inr page"
  shows "org_Name ` set (elems (Items page)) \<subseteq> set (User_Organizations u)"
proof -
  from assms(1,2,4) have list: "db_listOrganizations (Some (User_Organizations u)) opts db = Inr page"
    by (auto simp: ListOrganizations_def Authorize_def generateRequest_def User_CanAccess_def kind_defs
        split: sum.splits option.splits if_splits)
  let ?rows = "sort_key (\<lambda>o1. - org_UpdatedAt o1)
    (filter (\<lambda>o1. list_ex (\<lambda>p. sql_like p (org_Name o1)) (User_Organizations u)) (od_organizations db))"
  from list obtain rows items where rows: "rows = take (nat (GetLimit opts)) (drop (nat (GetOffset opts)) ?rows)"
    "collect_rows scan_organization rows = Inr items" "Items page = Some items"
    by (auto simp: db_listOrganizations_def Let_def NewPage_def split: if_splits sum.splits)
  have own: "org_Name o1 \<in> set (User_Organizations u)" if "o1 \<in> set rows" for o1
  proof -
    from that rows(1) have "o1 \<in> set ?rows" using in_set_takeD in_set_dropD by metis
    then obtain p where "p \<in> set (User_Organizations u)" "sql_like p (org_Name o1)" by (auto simp: list_ex_iff)
    moreover from this(1) assms(3) have "set p \<inter> {CHR ''%'', CHR ''_'', CHR 0x5C} = {}"
      unfolding User_Organizations_def by fastforce
    ultimately show ?thesis by (simp add: sql_like_literal)
  qed
  have "org_Name ` set items = org_Name ` set rows" using collect_rows_names [OF rows(2)] by (metis list.set_map)
  with own rows(3) show ?thesis by auto
qed

text \<open>
  Names may hold an underscore, which stands for any character: a member of \<open>a_b\<close> alone lists \<open>axb\<close>
  as well, although fetching that organization is not permitted.
\<close>

definition bob :: User where
  "bob = alice\<lparr>user_Username := ''bob'',
    user_Teams := [\<lparr>team_ID = \<lparr>tfe_kind = TeamKind, tfe_id = ''t''\<rparr>, team_Name = ''devs'', team_ManageWorkspaces = False,
       team_ManageVCS = False, team_ManageModules = False, team_Organization = ''a_b''\<rparr>]\<rparr>"

definition stored_org :: "string \<Rightarrow> Organization" where
  "stored_org n = \<lparr>org_ID = \<lparr>tfe_kind = OrganizationKind, tfe_id = n\<rparr>, org_CreatedAt = 0, org_UpdatedAt = 0,
     org_Name = n, org_Email = None, org_CollaboratorAuthPolicy = None, org_SessionRemember = None,
     org_SessionTimeout = None, org_AllowForceDeleteWorkspaces = False, org_CostEstimationEnabled = False,
     org_DefaultMode = RemoteMode\<rparr>"

lemma stored_org_simps [simp]:
  "org_Name (stored_org n) = n" "org_UpdatedAt (stored_org n) = 0" "scan_organization (stored_org n) = Inr (stored_org n)"
  by (simp_all add: stored_org_def scan_organization_def RemoteMode_def NewMode_def mode_isValid_def)

lemma listing_discloses:
  "(\<exists>page. ListOrganizations (env_of bob) \<lparr>PageNumber = 1, PageSize = 10\<rparr>
      (empty_orgs\<lparr>od_organizations := [stored_org ''a_b'', stored_org ''axb'']\<rparr>) = Inr page \<and>
      map org_Name (elems (Items page)) = [''a_b'', ''axb'']) \<and>
   GetOrganization (env_of bob) ''axb''
     (empty_orgs\<lparr>od_organizations := [stored_org ''a_b'', stored_org ''axb'']\<rparr>) = Inl ErrAccessNotPermitted"
proof
  show "\<exists>page. ListOrganizations (env_of bob) \<lparr>PageNumber = 1, PageSize = 10\<rparr>
      (empty_orgs\<lparr>od_organizations := [stored_org ''a_b'', stored_org ''axb'']\<rparr>) = Inr page \<and>
      map org_Name (elems (Items page)) = [''a_b'', ''axb'']"
    by (auto simp: ListOrganizations_def Authorize_def generateRequest_def env_of_def bob_def alice_def
        User_CanAccess_def IsSiteAdmin_def SiteAdminID_def kind_defs db_listOrganizations_def User_Organizations_def
        NewPage_def GetOffset_def GetLimit_def Normalize_def Let_def MaxPageSize_def DefaultPageSize_def i64_def i32_def
        sort_key_def)
  show "GetOrganization (env_of bob) ''axb''
      (empty_orgs\<lparr>od_organizations := [stored_org ''a_b'', stored_org ''axb'']\<rparr>) = Inl ErrAccessNotPermitted"
    by (simp add: GetOrganization_def org_authorize_def Authorize_def generateRequest_def lineage_loop.simps
        otf_resolvers_def req_Workspace_def req_ancestor_def env_of_def bob_def alice_def authz_defs
        SiteAdminID_def kind_defs other_organization_def req_Organization_def)
qed

theorem ListOrganizations_own_witness:
  "\<exists>page. ListOrganizations (env_of (bob\<lparr>user_Teams := map (\<lambda>t. t\<lparr>team_Organization := ''axb''\<rparr>) (user_Teams bob)\<rparr>))
      \<lparr>PageNumber = 1, PageSize = 10\<rparr>
      (empty_orgs\<lparr>od_organizations := [stored_org ''a_b'', stored_org ''axb'']\<rparr>) = Inr page \<and>
      org_Name ` set (elems (Items page)) \<subseteq> {''axb''}"
proof -
  let ?bob = "bob\<lparr>user_Teams := map (\<lambda>t. t\<lparr>team_Organization := ''axb''\<rparr>) (user_Teams bob)\<rparr>"
  have "\<exists>page. ListOrganizations (env_of ?bob) \<lparr>PageNumber = 1, PageSize = 10\<rparr>
      (empty_orgs\<lparr>od_organizations := [stored_org ''a_b'', stored_org ''axb'']\<rparr>) = Inr page"
    by (auto simp: ListOrganizations_def Authorize_def generateRequest_def env_of_def bob_def alice_def
        User_CanAccess_def IsSiteAdmin_def SiteAdminID_def kind_defs db_listOrganizations_def User_Organizations_def
        NewPage_def GetOffset_def GetLimit_def Normalize_def Let_def MaxPageSize_def DefaultPageSize_def i64_def i32_def
        sort_key_def)
  then obtain page where page: "ListOrganizations (env_of ?bob) \<lparr>PageNumber = 1, PageSize = 10\<rparr>
      (empty_orgs\<lparr>od_organizations := [stored_org ''a_b'', stored_org ''axb'']\<rparr>) = Inr page" ..
  have "org_Name ` set (elems (Items page)) \<subseteq> set (User_Organizations ?bob)"
    by (rule ListOrganizations_own [OF _ _ _ page])
      (simp_all add: env_of_def bob_def alice_def IsSiteAdmin_def SiteAdminID_def)
  with page show ?thesis by (auto simp: User_Organizations_def bob_def)
qed

end
