(* ===== verification/ConfigVersions.thy ===== *)
theory ConfigVersions
  imports Orgs
begin

text \<open>
  Configuration versions (\<open>configversion/service.go\<close>, \<open>db.go\<close>, \<open>tarball_service.go\<close>) and the
  repository paths that they store (\<open>vcs/repo.go\<close>). The tables of configuration versions, ingress
  attributes and status timestamps are one list of rows, in the order in which they were inserted;
  the configuration itself, a tarball, is a string of bytes.
\<close>

section \<open>Successful computations\<close>

text \<open>A computation in steps succeeds when each step does.\<close>

lemma result_bind_Inr:
  "(case x of Inl e \<Rightarrow> Inl (g e) | Inr y \<Rightarrow> f y) = Inr z \<longleftrightarrow> (\<exists>y. x = Inr y \<and> f y = Inr z)"
  by (cases x) auto

lemma option_bind_Inr:
  "(case x of None \<Rightarrow> Inl e | Some y \<Rightarrow> f y) = Inr z \<longleftrightarrow> (\<exists>y. x = Some y \<and> f y = Inr z)"
  by (cases x) auto

section \<open>Access\<close>

text \<open>The context of a caller and the workspace policies, with the authorizer over given tables.\<close>

record access_env =
  ae_ctx :: authz_ctx
  ae_policies :: "ID \<Rightarrow> Policy result"

definition no_tables :: parent_tables where
  "no_tables =
     \<lparr>pt_workspace = Map.empty, pt_team = Map.empty, pt_sshkey = Map.empty, pt_variable_set = Map.empty,
      pt_run = Map.empty, pt_state_version = Map.empty, pt_config_version = Map.empty,
      pt_run_trigger = Map.empty, pt_variable = Map.empty\<rparr>"

definition check_access ::
  "parent_tables \<Rightarrow> access_env \<Rightarrow> Action \<Rightarrow> Kind \<Rightarrow> ID \<Rightarrow> Subject result" where
  "check_access tables env action kind rid =
     (case Authorize (otf_resolvers tables) (ae_policies env) (ae_ctx env) action kind (Some rid) of
        Some (Some subj, Inr _) \<Rightarrow> Inr subj
      | Some (_, Inl e) \<Rightarrow> Inl e
      | _ \<Rightarrow> Inl (Errorf ''authorization does not return''))"

definition as_superuser :: "string \<Rightarrow> authz_ctx" where
  "as_superuser name = \<lparr>ctx_subject = Some (Superuser name), ctx_skipAuthz = False\<rparr>"

section \<open>Repository paths (vcs/repo.go)\<close>

definition NewRepo :: "string \<Rightarrow> string \<Rightarrow> Repo result" where
  "NewRepo owner name =
     (if owner = [] then Inl (Errorf ''repo owner cannot be an empty string'')
      else if name = [] then Inl (Errorf ''repo name cannot be an empty string'')
      else Inr \<lparr>repo_owner = owner, repo_name = name\<rparr>)"

text \<open>The position of the last occurrence of a character.\<close>

fun last_index :: "char \<Rightarrow> string \<Rightarrow> nat option" where
  "last_index c [] = None"
| "last_index c (x # xs) =
     (case last_index c xs of Some i \<Rightarrow> Some (Suc i) | None \<Rightarrow> if x = c then Some 0 else None)"

definition NewRepoFromString :: "string \<Rightarrow> Repo result" where
  "NewRepoFromString s =
     (case last_index (CHR ''/'') s of
        None \<Rightarrow> Inl (Errorf ''invalid repo'')
      | Some i \<Rightarrow> if Suc i = length s then Inl (Errorf ''invalid repo'')
                  else Inr \<lparr>repo_owner = take i s, repo_name = drop (Suc i) s\<rparr>)"

definition Repo_String :: "Repo \<Rightarrow> string" where
  "Repo_String r = repo_owner r @ ''/'' @ repo_name r"

lemma last_index_None: "last_index c xs = None \<longleftrightarrow> c \<notin> set xs"
  by (induction xs) (auto split: option.splits)

lemma last_index_SomeD:
  "last_index c xs = Some i \<Longrightarrow> i < length xs \<and> xs = take i xs @ c # drop (Suc i) xs \<and> c \<notin> set (drop (Suc i) xs)"
  by (induction xs arbitrary: i) (auto simp: last_index_None split: option.splits if_splits)

lemma last_index_append: "c \<notin> set ys \<Longrightarrow> last_index c (xs @ c # ys) = Some (length xs)"
  by (induction xs) (auto simp: last_index_None split: option.splits)

section \<open>The table (configversion/db.go)\<close>

record cv_db =
  cvd_workspaces :: "Workspace list"
  cvd_rows :: "(ConfigurationVersion \<times> string option) list"

definition find_workspace :: "TfeID \<Rightarrow> 'z cv_db_scheme \<Rightarrow> Workspace option" where
  "find_workspace wid db = find_first (\<lambda>w. ws_ID w = wid) (cvd_workspaces db)"

text \<open>Only the timestamp of the current status is inserted.\<close>

definition db_CreateConfigurationVersion ::
  "ConfigurationVersion \<Rightarrow> 'z cv_db_scheme \<Rightarrow> 'z cv_db_scheme result" where
  "db_CreateConfigurationVersion cv db =
     (if cv_ID cv \<in> set (map (cv_ID \<circ> fst) (cvd_rows db)) then Inl ErrResourceAlreadyExists
      else if find_workspace (cv_WorkspaceID cv) db = None then Inl fk_error
      else case cv_StatusTimestamp cv (cv_Status cv) of
             Inl e \<Rightarrow> Inl (Wrap ''inserting configuration version status timestamp'' e)
           | Inr sts \<Rightarrow>
               Inr (db\<lparr>cvd_rows := cvd_rows db @
                      [(cv\<lparr>cv_StatusTimestamps := [(cv_Status cv, sts)]\<rparr>, None)]\<rparr>))"

definition db_UploadConfigurationVersion ::
  "TfeID \<Rightarrow> string \<Rightarrow> 'z cv_db_scheme \<Rightarrow> 'z cv_db_scheme result" where
  "db_UploadConfigurationVersion cvid config db =
     (if cvid \<notin> set (map (cv_ID \<circ> fst) (cvd_rows db)) then Inl ErrResourceNotFound
      else Inr (db\<lparr>cvd_rows := map (\<lambda>(cv, c). if cv_ID cv = cvid
                                           then (cv\<lparr>cv_Status := ConfigurationUploaded\<rparr>, Some config)
                                           else (cv, c)) (cvd_rows db)\<rparr>))"

text \<open>The repository is stored as its path and parsed when the row is read.\<close>

definition scan_cv :: "ConfigurationVersion \<times> string option \<Rightarrow> ConfigurationVersion result" where
  "scan_cv row =
     (case cv_IngressAttributes (fst row) of
        None \<Rightarrow> Inr (fst row)
      | Some ia \<Rightarrow>
          (case NewRepoFromString (Repo_String (ia_Repo ia)) of
             Inl e \<Rightarrow> Inl e
           | Inr r \<Rightarrow> Inr ((fst row)\<lparr>cv_IngressAttributes := Some (ia\<lparr>ia_Repo := r\<rparr>)\<rparr>)))"

definition db_getCV :: "TfeID \<Rightarrow> 'z cv_db_scheme \<Rightarrow> ConfigurationVersion result" where
  "db_getCV cvid db = collect_one scan_cv (find_first (\<lambda>row. cv_ID (fst row) = cvid) (cvd_rows db))"

definition db_getLatestCV :: "TfeID \<Rightarrow> 'z cv_db_scheme \<Rightarrow> ConfigurationVersion result" where
  "db_getLatestCV wid db =
     collect_one scan_cv
       (find_first (\<lambda>_. True)
          (sort_key (\<lambda>row. - cv_CreatedAt (fst row))
             (filter (\<lambda>row. cv_WorkspaceID (fst row) = wid) (cvd_rows db))))"

text \<open>The query has no order; here it is that of the table.\<close>

definition db_ListConfigurationVersions ::
  "TfeID \<Rightarrow> PageOptions \<Rightarrow> 'z cv_db_scheme \<Rightarrow> ConfigurationVersion Page result" where
  "db_ListConfigurationVersions wid opts db =
     (let rows = filter (\<lambda>row. cv_WorkspaceID (fst row) = wid) (cvd_rows db)
      in if GetOffset opts < 0 then Inl (Errorf ''OFFSET must not be negative'')
         else case collect_rows scan_cv (take (nat (GetLimit opts)) (drop (nat (GetOffset opts)) rows)) of
                Inl e \<Rightarrow> Inl e
              | Inr items \<Rightarrow> NewPage (Some items) opts (Some (int (length rows))))"

definition db_listOlderThan :: "gtime \<Rightarrow> 'z cv_db_scheme \<Rightarrow> ConfigurationVersion list result" where
  "db_listOlderThan t db = collect_rows scan_cv (filter (\<lambda>row. cv_CreatedAt (fst row) < t) (cvd_rows db))"

definition db_GetConfig :: "TfeID \<Rightarrow> 'z cv_db_scheme \<Rightarrow> string option result" where
  "db_GetConfig cvid db =
     collect_one (\<lambda>row. Inr (snd row))
       (find_first (\<lambda>row. cv_ID (fst row) = cvid \<and> cv_Status (fst row) = ConfigurationUploaded) (cvd_rows db))"

definition db_DeleteConfigurationVersion :: "TfeID \<Rightarrow> 'z cv_db_scheme \<Rightarrow> 'z cv_db_scheme result" where
  "db_DeleteConfigurationVersion cvid db =
     (if cvid \<notin> set (map (cv_ID \<circ> fst) (cvd_rows db)) then Inl ErrResourceNotFound
      else Inr (db\<lparr>cvd_rows := filter (\<lambda>row. cv_ID (fst row) \<noteq> cvid) (cvd_rows db)\<rparr>))"

section \<open>The service (configversion/service.go, tarball\_service.go)\<close>

definition cv_tables :: "'z cv_db_scheme \<Rightarrow> parent_tables" where
  "cv_tables db = no_tables
     \<lparr>pt_workspace := (\<lambda>wid. map_option ws_Organization (find_workspace wid db)),
      pt_config_version :=
        (\<lambda>cvid. map_option (cv_WorkspaceID \<circ> fst) (find_first (\<lambda>row. cv_ID (fst row) = cvid) (cvd_rows db)))\<rparr>"

definition CreateConfigVersion ::
  "access_env \<Rightarrow> (nat \<Rightarrow> nat) \<Rightarrow> clock \<Rightarrow> TfeID \<Rightarrow> CVCreateOptions \<Rightarrow> 'z cv_db_scheme \<Rightarrow>
   ('z cv_db_scheme \<times> ConfigurationVersion) result" where
  "CreateConfigVersion env rnd clk wid opts db =
     (case check_access (cv_tables db) env CreateAction ConfigVersionKind (TfeID_ID wid) of Inl e \<Rightarrow> Inl e | Inr _ \<Rightarrow>
        let cv = NewConfigurationVersion rnd clk wid opts
        in case db_CreateConfigurationVersion cv db of Inl e \<Rightarrow> Inl e | Inr db1 \<Rightarrow> Inr (db1, cv))"

definition ListConfigVersions ::
  "access_env \<Rightarrow> TfeID \<Rightarrow> PageOptions \<Rightarrow> 'z cv_db_scheme \<Rightarrow> ConfigurationVersion Page result" where
  "ListConfigVersions env wid opts db =
     (case check_access (cv_tables db) env ListAction ConfigVersionKind (TfeID_ID wid) of
        Inl e \<Rightarrow> Inl e | Inr _ \<Rightarrow> db_ListConfigurationVersions wid opts db)"

definition ListConfigVersionsOlderThan :: "gtime \<Rightarrow> 'z cv_db_scheme \<Rightarrow> ConfigurationVersion list result" where
  "ListConfigVersionsOlderThan = db_listOlderThan"

definition GetConfigVersion ::
  "access_env \<Rightarrow> TfeID \<Rightarrow> 'z cv_db_scheme \<Rightarrow> ConfigurationVersion result" where
  "GetConfigVersion env cvid db =
     (case check_access (cv_tables db) env GetAction ConfigVersionKind (TfeID_ID cvid) of
        Inl e \<Rightarrow> Inl e | Inr _ \<Rightarrow> db_getCV cvid db)"

definition GetLatestConfigVersion ::
  "access_env \<Rightarrow> TfeID \<Rightarrow> 'z cv_db_scheme \<Rightarrow> ConfigurationVersion result" where
  "GetLatestConfigVersion env wid db =
     (case check_access (cv_tables db) env GetAction ConfigVersionKind (TfeID_ID wid) of
        Inl e \<Rightarrow> Inl e | Inr _ \<Rightarrow> db_getLatestCV wid db)"

definition DeleteConfigVersion ::
  "access_env \<Rightarrow> TfeID \<Rightarrow> 'z cv_db_scheme \<Rightarrow> 'z cv_db_scheme result" where
  "DeleteConfigVersion env cvid db =
     (case check_access (cv_tables db) env DeleteAction ConfigVersionKind (TfeID_ID cvid) of
        Inl e \<Rightarrow> Inl e | Inr _ \<Rightarrow> db_DeleteConfigurationVersion cvid db)"

text \<open>The upload is not authorized: its URL is signed.\<close>

definition UploadConfig :: "TfeID \<Rightarrow> string \<Rightarrow> 'z cv_db_scheme \<Rightarrow> 'z cv_db_scheme result" where
  "UploadConfig = db_UploadConfigurationVersion"

definition DownloadConfig :: "access_env \<Rightarrow> TfeID \<Rightarrow> 'z cv_db_scheme \<Rightarrow> string option result" where
  "DownloadConfig env cvid db =
     (case check_access (cv_tables db) env DownloadAction ConfigVersionKind (TfeID_ID cvid) of
        Inl e \<Rightarrow> Inl e | Inr _ \<Rightarrow> db_GetConfig cvid db)"

section \<open>Lemmas\<close>

lemma check_access_superuser:
  "ae_ctx env = as_superuser n \<Longrightarrow> check_access tables env action kind rid = Inr s \<Longrightarrow> s = Superuser n"
  by (auto simp: check_access_def Authorize_def as_superuser_def split: option.splits sum.splits if_splits)

lemma collect_one_some [simp]: "collect_one scan (Some r) = scan r"
  by (simp add: collect_one_def)

lemma collect_one_none [simp]: "collect_one scan None = Inl ErrResourceNotFound"
  by (simp add: collect_one_def)

text \<open>A path is read back exactly when the name has no slash and is not empty.\<close>

lemma Repo_String_roundtrip:
  "NewRepoFromString (Repo_String r) = Inr r \<longleftrightarrow> repo_name r \<noteq> [] \<and> CHR ''/'' \<notin> set (repo_name r)"
proof
  assume "NewRepoFromString (Repo_String r) = Inr r"
  then obtain i where "last_index (CHR ''/'') (Repo_String r) = Some i" "Suc i \<noteq> length (Repo_String r)"
    "r = \<lparr>repo_owner = take i (Repo_String r), repo_name = drop (Suc i) (Repo_String r)\<rparr>"
    by (auto simp: NewRepoFromString_def split: option.splits if_splits)
  with last_index_SomeD [OF this(1)] show "repo_name r \<noteq> [] \<and> CHR ''/'' \<notin> set (repo_name r)"
    by (metis Suc_leI drop_eq_Nil le_antisym select_convs(2) Repo.select_convs(2))
next
  assume "repo_name r \<noteq> [] \<and> CHR ''/'' \<notin> set (repo_name r)"
  then show "NewRepoFromString (Repo_String r) = Inr r"
    by (simp add: NewRepoFromString_def Repo_String_def last_index_append)
qed

section \<open>The store of configurations\<close>

text \<open>
  What the table holds, seen from its users: which configuration versions exist, and the
  configuration of each once it is uploaded.
\<close>

definition config_store :: "'z cv_db_scheme \<Rightarrow> TfeID \<rightharpoonup> string option" where
  "config_store db = map_of (map (\<lambda>(cv, c). (cv_ID cv, c)) (cvd_rows db))"

definition cvs_inv :: "'z cv_db_scheme \<Rightarrow> bool" where
  "cvs_inv db \<longleftrightarrow> distinct (map (cv_ID \<circ> fst) (cvd_rows db)) \<and>
     (\<forall>(cv, c) \<in> set (cvd_rows db).
        cv_Status cv = (if c = None then ConfigurationPending else ConfigurationUploaded))"

inductive reachable_cvs :: "'z cv_db_scheme \<Rightarrow> bool" where
  cvs_init: "cvd_rows db = [] \<Longrightarrow> reachable_cvs db"
| cvs_create: "reachable_cvs db \<Longrightarrow> CreateConfigVersion env rnd clk wid opts db = Inr (db', cv) \<Longrightarrow> reachable_cvs db'"
| cvs_upload: "reachable_cvs db \<Longrightarrow> UploadConfig cvid config db = Inr db' \<Longrightarrow> reachable_cvs db'"
| cvs_delete: "reachable_cvs db \<Longrightarrow> DeleteConfigVersion env cvid db = Inr db' \<Longrightarrow> reachable_cvs db'"
| cvs_workspaces: "reachable_cvs db \<Longrightarrow> reachable_cvs (db\<lparr>cvd_workspaces := wss,
    cvd_rows := filter (\<lambda>row. cv_WorkspaceID (fst row) \<in> ws_ID ` set wss) (cvd_rows db)\<rparr>)"

lemma NewConfigurationVersion_status [simp]:
  "cv_Status (NewConfigurationVersion rnd clk wid opts) = ConfigurationPending"
  "cv_WorkspaceID (NewConfigurationVersion rnd clk wid opts) = wid"
  "cv_StatusTimestamps (NewConfigurationVersion rnd clk wid opts) = [(ConfigurationPending, CurrentTimestamp None (clk 1))]"
  "cv_IngressAttributes (NewConfigurationVersion rnd clk wid opts) = cvo_IngressAttributes opts"
  "cv_Speculative (NewConfigurationVersion rnd clk wid opts) = override (cvo_Speculative opts) False"
  by (simp_all add: NewConfigurationVersion_def Let_def cv_updateStatus_def)

lemma pending_timestamps [simp]:
  "(NewConfigurationVersion rnd clk wid opts)\<lparr>cv_StatusTimestamps := [(ConfigurationPending, CurrentTimestamp None (clk 1))]\<rparr>
     = NewConfigurationVersion rnd clk wid opts"
  by (simp add: NewConfigurationVersion_def Let_def cv_updateStatus_def)

lemma CreateConfigVersion_SomeD:
  assumes "CreateConfigVersion env rnd clk wid opts db = Inr (db', cv)"
  shows "cv = NewConfigurationVersion rnd clk wid opts" "db' = db\<lparr>cvd_rows := cvd_rows db @ [(cv, None)]\<rparr>"
    "cv_ID cv \<notin> (cv_ID \<circ> fst) ` set (cvd_rows db)"
  using assms
  by (auto simp: CreateConfigVersion_def Let_def db_CreateConfigurationVersion_def cv_StatusTimestamp_def
      split: sum.splits if_splits)

lemma UploadConfig_SomeD:
  assumes "UploadConfig cvid config db = Inr db'"
  shows "cvid \<in> (cv_ID \<circ> fst) ` set (cvd_rows db)"
    "db' = db\<lparr>cvd_rows := map (\<lambda>(cv, c). if cv_ID cv = cvid then (cv\<lparr>cv_Status := ConfigurationUploaded\<rparr>, Some config)
                                      else (cv, c)) (cvd_rows db)\<rparr>"
  using assms by (auto simp: UploadConfig_def db_UploadConfigurationVersion_def split: if_splits)

lemma DeleteConfigVersion_SomeD:
  "DeleteConfigVersion env cvid db = Inr db' \<Longrightarrow>
     db' = db\<lparr>cvd_rows := filter (\<lambda>row. cv_ID (fst row) \<noteq> cvid) (cvd_rows db)\<rparr>"
  by (auto simp: DeleteConfigVersion_def db_DeleteConfigurationVersion_def split: sum.splits if_splits)

lemma distinct_filter_map: "distinct (map f xs) \<Longrightarrow> distinct (map f (filter P xs))"
  by (induction xs) auto

lemma reachable_cvs_inv: "reachable_cvs db \<Longrightarrow> cvs_inv db"
proof (induction rule: reachable_cvs.induct)
  case (cvs_create db env rnd clk wid opts db' cv)
  then show ?case using CreateConfigVersion_SomeD [OF cvs_create(2)] by (auto simp: cvs_inv_def image_iff)
next
  case (cvs_upload db cvid config db')
  note u = UploadConfig_SomeD(2) [OF cvs_upload(2)]
  have "map (cv_ID \<circ> fst) (cvd_rows db') = map (cv_ID \<circ> fst) (cvd_rows db)" by (auto simp: u)
  with cvs_upload(3) have "distinct (map (cv_ID \<circ> fst) (cvd_rows db'))" by (simp only: cvs_inv_def)
  moreover from cvs_upload(3) have "\<forall>(cv, c) \<in> set (cvd_rows db').
      cv_Status cv = (if c = None then ConfigurationPending else ConfigurationUploaded)"
    by (auto simp: u cvs_inv_def split: if_splits)
  ultimately show ?case by (simp only: cvs_inv_def)
qed (fastforce simp: cvs_inv_def distinct_filter_map split_beta dest!: DeleteConfigVersion_SomeD)+

lemma rows_None: "map_of (map (\<lambda>(cv, c). (cv_ID cv, c)) rows) k = None \<longleftrightarrow> k \<notin> (cv_ID \<circ> fst) ` set rows"
  by (simp add: map_of_eq_None_iff image_image split_def)

lemma map_of_filter_keys:
  "map_of (filter (\<lambda>p. fst p \<noteq> k) ps) = (map_of ps)(k := None)"
  by (induction ps) auto

lemma config_store_create:
  "CreateConfigVersion env rnd clk wid opts db = Inr (db', cv) \<Longrightarrow>
     config_store db' = (config_store db)(cv_ID cv \<mapsto> None)"
proof -
  assume a: "CreateConfigVersion env rnd clk wid opts db = Inr (db', cv)"
  have "config_store db (cv_ID cv) = None"
    unfolding config_store_def rows_None by (rule CreateConfigVersion_SomeD(3) [OF a])
  then show ?thesis
    using CreateConfigVersion_SomeD(2) [OF a]
    by (auto simp: config_store_def map_add_def fun_eq_iff split: option.splits)
qed

lemma config_store_upload:
  "UploadConfig cvid config db = Inr db' \<Longrightarrow> config_store db' = (config_store db)(cvid \<mapsto> Some config)"
proof -
  assume a: "UploadConfig cvid config db = Inr db'"
  have "map_of (map (\<lambda>(cv, c). (cv_ID cv, c)) (map (\<lambda>(cv, c). if cv_ID cv = cvid
        then (cv\<lparr>cv_Status := ConfigurationUploaded\<rparr>, Some config) else (cv, c)) rows)) =
      (if cvid \<in> (cv_ID \<circ> fst) ` set rows
       then (map_of (map (\<lambda>(cv, c). (cv_ID cv, c)) rows))(cvid \<mapsto> Some config)
       else map_of (map (\<lambda>(cv, c). (cv_ID cv, c)) rows))" for rows :: "(ConfigurationVersion \<times> string option) list"
    by (induction rows) (auto simp: fun_eq_iff)
  with UploadConfig_SomeD [OF a] show ?thesis by (simp add: config_store_def)
qed

lemma config_store_delete:
  "DeleteConfigVersion env cvid db = Inr db' \<Longrightarrow> config_store db' = (config_store db)(cvid := None)"
proof -
  assume a: "DeleteConfigVersion env cvid db = Inr db'"
  have "map (\<lambda>(cv, c). (cv_ID cv, c)) (filter (\<lambda>row. cv_ID (fst row) \<noteq> cvid) rows) =
      filter (\<lambda>p. fst p \<noteq> cvid) (map (\<lambda>(cv, c). (cv_ID cv, c)) rows)" for rows :: "(ConfigurationVersion \<times> string option) list"
    by (induction rows) auto
  with DeleteConfigVersion_SomeD [OF a] show ?thesis
    by (simp add: config_store_def map_of_filter_keys)
qed

lemma GetConfig_store:
  assumes "cvs_inv db"
  shows "db_GetConfig cvid db =
    (case config_store db cvid of Some (Some c) \<Rightarrow> Inr (Some c) | _ \<Rightarrow> Inl ErrResourceNotFound)"
proof -
  have "collect_one (\<lambda>row. Inr (snd row))
      (find_first (\<lambda>row. cv_ID (fst row) = cvid \<and> cv_Status (fst row) = ConfigurationUploaded) rows) =
      (case map_of (map (\<lambda>(cv, c). (cv_ID cv, c)) rows) cvid of
         Some (Some c) \<Rightarrow> Inr (Some c) | _ \<Rightarrow> Inl ErrResourceNotFound)"
    if "distinct (map (cv_ID \<circ> fst) rows)"
      "\<forall>(cv, c) \<in> set rows. cv_Status cv = (if c = None then ConfigurationPending else ConfigurationUploaded)"
    for rows :: "(ConfigurationVersion \<times> string option) list"
    using that
  proof (induction rows)
    case (Cons r rows)
    have none: "map_of (map (\<lambda>(cv, c). (cv_ID cv, c)) rows) (cv_ID (fst r)) = None"
      unfolding rows_None using Cons.prems(1) by simp
    from Cons none show ?case by (cases r) (auto split: option.splits)
  qed simp
  with assms show ?thesis unfolding db_GetConfig_def config_store_def cvs_inv_def by blast
qed

text \<open>
  C30: The configurations form a store that remembers the last upload. In every database that the
  service produces, a download gives the configuration that was last uploaded for that version and
  fails when there is none; creating, uploading and deleting change the store at that version only.
\<close>

theorem config_store_correct:
  assumes "reachable_cvs db"
  shows "(\<forall>cvid. db_GetConfig cvid db =
      (case config_store db cvid of Some (Some c) \<Rightarrow> Inr (Some c) | _ \<Rightarrow> Inl ErrResourceNotFound)) \<and>
    (\<forall>env rnd clk wid opts db' cv. CreateConfigVersion env rnd clk wid opts db = Inr (db', cv) \<longrightarrow>
       config_store db (cv_ID cv) = None \<and> config_store db' = (config_store db)(cv_ID cv \<mapsto> None)) \<and>
    (\<forall>cvid config db'. UploadConfig cvid config db = Inr db' \<longrightarrow>
       config_store db cvid \<noteq> None \<and> config_store db' = (config_store db)(cvid \<mapsto> Some config)) \<and>
    (\<forall>env cvid db'. DeleteConfigVersion env cvid db = Inr db' \<longrightarrow>
       config_store db' = (config_store db)(cvid := None))"
proof (intro conjI allI impI)
  show "db_GetConfig cvid db =
      (case config_store db cvid of Some (Some c) \<Rightarrow> Inr (Some c) | _ \<Rightarrow> Inl ErrResourceNotFound)" for cvid
    using assms by (rule GetConfig_store [OF reachable_cvs_inv])
  show "config_store db (cv_ID cv) = None" if "CreateConfigVersion env rnd clk wid opts db = Inr (db', cv)"
    for env :: "access_env" and rnd clk wid opts db' cv
    unfolding config_store_def rows_None by (rule CreateConfigVersion_SomeD(3) [OF that])
  show "config_store db cvid \<noteq> None" if "UploadConfig cvid config db = Inr db'" for cvid config db'
    using UploadConfig_SomeD(1) [OF that] unfolding config_store_def rows_None by simp
qed (simp_all add: config_store_create config_store_upload config_store_delete)

definition demo_cv_ws :: Workspace where
  "demo_cv_ws = example_workspace\<lparr>ws_Organization := ''acme''\<rparr>"

definition root_env :: access_env where
  "root_env = \<lparr>ae_ctx = (as_superuser ''root'')\<lparr>ctx_skipAuthz := True\<rparr>, ae_policies = (\<lambda>_. Inl ErrResourceNotFound)\<rparr>"

definition no_cv_options :: CVCreateOptions where
  "no_cv_options = \<lparr>cvo_AutoQueueRuns = None, cvo_Speculative = None, cvo_Source = [], cvo_CreatedAt = None,
     cvo_IngressAttributes = None\<rparr>"

theorem config_store_correct_witness:
  "\<exists>db1 db2 cv. CreateConfigVersion root_env id (\<lambda>_. 0) (ws_ID demo_cv_ws) no_cv_options
       \<lparr>cvd_workspaces = [demo_cv_ws], cvd_rows = []\<rparr> = Inr (db1, cv) \<and>
     UploadConfig (cv_ID cv) ''tarball'' db1 = Inr db2 \<and>
     db_GetConfig (cv_ID cv) db1 = Inl ErrResourceNotFound \<and> db_GetConfig (cv_ID cv) db2 = Inr (Some ''tarball'')"
proof -
  let ?db = "\<lparr>cvd_workspaces = [demo_cv_ws], cvd_rows = []\<rparr>"
  have r0: "reachable_cvs ?db" by (rule cvs_init) simp
  obtain db1 cv where c: "CreateConfigVersion root_env id (\<lambda>_. 0) (ws_ID demo_cv_ws) no_cv_options ?db = Inr (db1, cv)"
    by (auto simp: CreateConfigVersion_def Let_def db_CreateConfigurationVersion_def cv_StatusTimestamp_def
        check_access_def Authorize_def root_env_def as_superuser_def generateRequest_def lineage_loop.simps
        otf_resolvers_def kind_defs cv_tables_def no_tables_def find_workspace_def parent_lookup_def
        demo_cv_ws_def example_workspace_def split: option.splits sum.splits)
  have r1: "reachable_cvs db1" by (rule cvs_create [OF r0 c])
  note s1 = config_store_correct [OF r0, THEN conjunct2, THEN conjunct1, rule_format, OF c]
  obtain db2 where u: "UploadConfig (cv_ID cv) ''tarball'' db1 = Inr db2"
    using CreateConfigVersion_SomeD(2) [OF c] by (auto simp: UploadConfig_def db_UploadConfigurationVersion_def)
  note s2 = config_store_correct [OF r1, THEN conjunct2, THEN conjunct2, THEN conjunct1, rule_format, OF u]
  have r2: "reachable_cvs db2" by (rule cvs_upload [OF r1 u])
  have "db_GetConfig (cv_ID cv) db1 = Inl ErrResourceNotFound" "db_GetConfig (cv_ID cv) db2 = Inr (Some ''tarball'')"
    using config_store_correct [OF r1, THEN conjunct1] config_store_correct [OF r2, THEN conjunct1] s1 s2 by simp_all
  with c u show ?thesis by blast
qed

end
