(* ===== verification/Spawner.thy ===== *)
theory Spawner
  imports ConfigVersions
begin

text \<open>
  From an event of a version control system to runs: the events (\<open>vcs/event.go\<close>), the construction
  of runs (\<open>run/factory.go\<close>, \<open>CreateRun\<close> of \<open>run/service.go\<close>) and the spawner
  (\<open>run/spawner.go\<close>). The client of the VCS provider, the compilers of regular expressions and of
  globs, and the engine versions are parameters.
\<close>

section \<open>Events (vcs/event.go)\<close>

datatype EventType = EventTypePull | EventTypePush | EventTypeTag | EventTypeInstallation | OtherEventType string

datatype EventAction = ActionCreated | ActionDeleted | ActionMerged | ActionUpdated | OtherEventAction string

record VCSEvent =
  ev_VCSProviderID :: TfeID
  ev_Source :: Source
  ev_Repo :: Repo
  ev_Type :: EventType
  ev_Action :: EventAction
  ev_Tag :: string
  ev_CommitSHA :: string
  ev_CommitURL :: string
  ev_Branch :: string
  ev_DefaultBranch :: string
  ev_PullRequestNumber :: int
  ev_PullRequestURL :: string
  ev_PullRequestTitle :: string
  ev_SenderUsername :: string
  ev_SenderAvatarURL :: string
  ev_SenderHTMLURL :: string
  ev_Paths :: "string list"

definition EventPayload_Validate :: "VCSEvent \<Rightarrow> unit result" where
  "EventPayload_Validate e =
     (if ev_Type e = OtherEventType [] then Inl (Errorf ''event missing event type'')
      else if ev_Action e = OtherEventAction [] then Inl (Errorf ''event missing event action'')
      else Inr ())"

section \<open>The surroundings of the spawner\<close>

record Commit =
  com_SHA :: string
  com_URL :: string
  com_Username :: string
  com_AvatarURL :: string
  com_ProfileURL :: string

text \<open>What is called of a provider: the default branch, a tarball with its reference, a commit, and
  the files of a pull request.\<close>

record vcs_client =
  vc_GetDefaultBranch :: "string \<Rightarrow> string result"
  vc_GetRepoTarball :: "Repo \<Rightarrow> string \<Rightarrow> (string \<times> string) result"
  vc_GetCommit :: "Repo \<Rightarrow> string \<Rightarrow> Commit result"
  vc_ListPullRequestFiles :: "Repo \<Rightarrow> int \<Rightarrow> string list result"

text \<open>
  \<open>re_regex\<close> and \<open>re_glob\<close> compile a pattern to a matcher, or to nothing when it is malformed. The
  identifiers and clock readings of the \<open>k\<close>-th resource that is created are \<open>re_rnd k\<close> and \<open>re_clk k\<close>.
\<close>

record run_env = access_env +
  re_rnd :: "nat \<Rightarrow> nat \<Rightarrow> nat"
  re_clk :: "nat \<Rightarrow> clock"
  re_GetVCSProvider :: "TfeID \<Rightarrow> vcs_client result"
  re_GetLatest :: "string \<Rightarrow> string result"
  re_regex :: "string \<Rightarrow> (string \<Rightarrow> bool) option"
  re_glob :: "string \<Rightarrow> (string \<Rightarrow> bool) option"

text \<open>The database: organizations with the option of cost estimation, and the runs.\<close>

record vcs_sys = cv_db +
  vs_organizations :: "(string \<times> bool) list"
  vs_runs :: "Run list"

section \<open>The factory of runs (run/factory.go)\<close>

text \<open>
  The steps are not in one transaction: what was created before an error remains. An operation
  returns its result and the database.
\<close>

type_synonym 'a effect = "'a result \<times> vcs_sys"

definition createConfigVersionFromVCS ::
  "run_env \<Rightarrow> nat \<Rightarrow> Workspace \<Rightarrow> Connection \<Rightarrow> vcs_sys \<Rightarrow> ConfigurationVersion effect" where
  "createConfigVersionFromVCS env k ws con sys =
     (case re_GetVCSProvider env (con_VCSProviderID con) of Inl e \<Rightarrow> (Inl e, sys) | Inr client \<Rightarrow>
     (case vc_GetDefaultBranch client (Repo_String (con_Repo con)) of
        Inl e \<Rightarrow> (Inl (Wrap ''retrieving repository info'' e), sys) | Inr defaultBranch \<Rightarrow>
      let branch = (if con_Branch con = [] then defaultBranch else con_Branch con) in
     (case vc_GetRepoTarball client (con_Repo con) branch of
        Inl e \<Rightarrow> (Inl (Wrap ''retrieving repository tarball'' e), sys) | Inr (tarball, ref) \<Rightarrow>
     (case vc_GetCommit client (con_Repo con) ref of
        Inl e \<Rightarrow> (Inl (Wrap (''retrieving commit information: '' @ ref) e), sys) | Inr commit \<Rightarrow>
     (case CreateConfigVersion (access_env.truncate env) (re_rnd env k) (re_clk env k) (ws_ID ws)
             \<lparr>cvo_AutoQueueRuns = None, cvo_Speculative = None, cvo_Source = [], cvo_CreatedAt = None,
              cvo_IngressAttributes = Some
                \<lparr>ia_Branch = branch, ia_CommitSHA = com_SHA commit, ia_CommitURL = com_URL commit,
                 ia_Repo = con_Repo con, ia_IsPullRequest = False, ia_OnDefaultBranch = (branch = defaultBranch),
                 ia_PullRequestNumber = 0, ia_PullRequestURL = [], ia_PullRequestTitle = [], ia_Tag = [],
                 ia_SenderUsername = com_Username commit, ia_SenderAvatarURL = com_AvatarURL commit,
                 ia_SenderHTMLURL = com_ProfileURL commit\<rparr>\<rparr> sys of
        Inl e \<Rightarrow> (Inl e, sys) | Inr (sys1, cv) \<Rightarrow>
     (case UploadConfig (cv_ID cv) tarball sys1 of Inl e \<Rightarrow> (Inl e, sys1) | Inr sys2 \<Rightarrow> (Inr cv, sys2)))))))"

definition context_username :: "authz_ctx \<Rightarrow> string option" where
  "context_username ctx = (case ctx_subject ctx of Some (UserSubject u) \<Rightarrow> Some (user_Username u) | _ \<Rightarrow> None)"

definition run_tables :: "vcs_sys \<Rightarrow> parent_tables" where
  "run_tables sys = (cv_tables sys)
     \<lparr>pt_run := (\<lambda>rid. map_option run_WorkspaceID (find_first (\<lambda>r. run_ID r = rid) (vs_runs sys)))\<rparr>"

definition GetWorkspace :: "run_env \<Rightarrow> TfeID \<Rightarrow> vcs_sys \<Rightarrow> Workspace result" where
  "GetWorkspace env wid sys =
     (case check_access (run_tables sys) (access_env.truncate env) GetAction WorkspaceKind (TfeID_ID wid) of
        Inl e \<Rightarrow> Inl e | Inr _ \<Rightarrow> collect_one Inr (find_workspace wid sys))"

definition GetCostEstimation :: "run_env \<Rightarrow> string \<Rightarrow> vcs_sys \<Rightarrow> bool result" where
  "GetCostEstimation env org sys =
     (case check_access (run_tables sys) (access_env.truncate env) GetAction OrganizationKind
             (Pointer_ID (OrganizationName_ID org)) of
        Inl e \<Rightarrow> Inl e
      | Inr _ \<Rightarrow> collect_one Inr (map_option snd (find_first (\<lambda>o1. fst o1 = org) (vs_organizations sys))))"

definition fetch_config ::
  "run_env \<Rightarrow> nat \<Rightarrow> Workspace \<Rightarrow> RunCreateOptions \<Rightarrow> vcs_sys \<Rightarrow> ConfigurationVersion effect" where
  "fetch_config env k ws opts sys =
     (case ro_ConfigurationVersionID opts of
        Some cvid \<Rightarrow> (GetConfigVersion (access_env.truncate env) cvid sys, sys)
      | None \<Rightarrow>
          (case ws_Connection ws of
             None \<Rightarrow> (GetLatestConfigVersion (access_env.truncate env) (ws_ID ws) sys, sys)
           | Some con \<Rightarrow> createConfigVersionFromVCS env k ws con sys))"

definition factory_NewRun ::
  "run_env \<Rightarrow> nat \<Rightarrow> TfeID \<Rightarrow> RunCreateOptions \<Rightarrow> vcs_sys \<Rightarrow> Run effect" where
  "factory_NewRun env k wid opts sys =
     (case GetWorkspace env wid sys of Inl e \<Rightarrow> (Inl e, sys) | Inr ws \<Rightarrow>
     (case GetCostEstimation env (ws_Organization ws) sys of Inl e \<Rightarrow> (Inl e, sys) | Inr cost \<Rightarrow>
     (case fetch_config env k ws opts sys of
        (Inl e, sys1) \<Rightarrow> (Inl (Wrap ''fetching configuration'' e), sys1)
      | (Inr cv, sys1) \<Rightarrow>
          (case (if Latest (ws_EngineVersion ws) then re_GetLatest env (ws_Engine ws)
                 else Inr (Version_String (ws_EngineVersion ws))) of
             Inl e \<Rightarrow> (Inl e, sys1)
           | Inr version \<Rightarrow>
               (Inr (NewRun (re_rnd env (Suc k)) (re_clk env (Suc k)) ws cv
                  (opts\<lparr>ro_costEstimationEnabled := cost, ro_EngineVersion := version,
                        ro_CreatedBy := (case context_username (ae_ctx env) of
                                           Some u \<Rightarrow> Some u | None \<Rightarrow> ro_CreatedBy opts)\<rparr>)), sys1)))))"

section \<open>Creating a run (run/service.go, db.go)\<close>

definition insert_run :: "Run \<Rightarrow> vcs_sys \<Rightarrow> vcs_sys result" where
  "insert_run run sys =
     (if run_ID run \<in> run_ID ` set (vs_runs sys) then Inl ErrResourceAlreadyExists
      else if find_workspace (run_WorkspaceID run) sys = None then Inl fk_error
      else if run_ConfigurationVersionID run \<notin> (cv_ID \<circ> fst) ` set (cvd_rows sys) then Inl fk_error
      else Inr (sys\<lparr>vs_runs := vs_runs sys @ [run]\<rparr>))"

definition CreateRun :: "run_env \<Rightarrow> nat \<Rightarrow> TfeID \<Rightarrow> RunCreateOptions \<Rightarrow> vcs_sys \<Rightarrow> Run effect" where
  "CreateRun env k wid opts sys =
     (case check_access (run_tables sys) (access_env.truncate env) CreateAction RunKind (TfeID_ID wid) of
        Inl e \<Rightarrow> (Inl e, sys)
      | Inr _ \<Rightarrow>
          (case factory_NewRun env k wid opts sys of
             (Inl e, sys1) \<Rightarrow> (Inl e, sys1)
           | (Inr run, sys1) \<Rightarrow>
               (case insert_run run sys1 of Inl e \<Rightarrow> (Inl e, sys1) | Inr sys2 \<Rightarrow> (Inr run, sys2))))"

section \<open>The spawner (run/spawner.go)\<close>

text \<open>\<open>MustCompile\<close> panics on a malformed pattern. The patterns are compiled one after another.\<close>

fun glob_any :: "(string \<Rightarrow> (string \<Rightarrow> bool) option) \<Rightarrow> string list \<Rightarrow> string list \<Rightarrow> bool result" where
  "glob_any compile paths [] = Inr False"
| "glob_any compile paths (p # ps) =
     (case compile p of
        None \<Rightarrow> Inl (Panic ''glob: Compile'')
      | Some g \<Rightarrow> if list_ex g paths then Inr True else glob_any compile paths ps)"

definition globMatch :: "(string \<Rightarrow> (string \<Rightarrow> bool) option) \<Rightarrow> string list \<Rightarrow> string list \<Rightarrow> bool result" where
  "globMatch compile paths patterns =
     (if paths = [] \<or> patterns = [] then Inr False else glob_any compile paths patterns)"

text \<open>The body of the loop over the connected workspaces; \<open>continue\<close> is \<open>False\<close>.\<close>

definition match_ref :: "run_env \<Rightarrow> VCSEvent \<Rightarrow> Workspace \<Rightarrow> bool result" where
  "match_ref env ev ws =
     (case ws_Connection ws of
        None \<Rightarrow> (case ev_Type ev of
                   EventTypeTag \<Rightarrow> Inl (Panic ''nil pointer dereference'')
                 | EventTypePush \<Rightarrow> Inl (Panic ''nil pointer dereference'')
                 | EventTypePull \<Rightarrow> Inr (ws_SpeculativeEnabled ws)
                 | _ \<Rightarrow> Inr True)
      | Some con \<Rightarrow>
          (case ev_Type ev of
             EventTypeTag \<Rightarrow>
               if con_TagsRegex con \<noteq> []
               then (case re_regex env (con_TagsRegex con) of
                       None \<Rightarrow> Inl (Panic ''regexp: Compile'')
                     | Some re \<Rightarrow> Inr (re (ev_Tag ev)))
               else Inr True
           | EventTypePush \<Rightarrow>
               if (if con_Branch con \<noteq> [] then con_Branch con \<noteq> ev_Branch ev
                   else ev_Branch ev \<noteq> ev_DefaultBranch ev) then Inr False
               else Inr (con_TagsRegex con = [])
           | EventTypePull \<Rightarrow> Inr (ws_SpeculativeEnabled ws)
           | _ \<Rightarrow> Inr True))"

definition match_event :: "run_env \<Rightarrow> VCSEvent \<Rightarrow> Workspace \<Rightarrow> bool result" where
  "match_event env ev ws =
     (case match_ref env ev ws of
        Inl e \<Rightarrow> Inl e
      | Inr False \<Rightarrow> Inr False
      | Inr True \<Rightarrow>
          if ev_Type ev \<in> {EventTypeTag, EventTypePush} \<and> ws_TriggerPatterns ws \<noteq> None
          then globMatch (re_glob env) (ev_Paths ev) (elems (ws_TriggerPatterns ws))
          else Inr True)"

definition match_files :: "run_env \<Rightarrow> string list \<Rightarrow> Workspace \<Rightarrow> bool result" where
  "match_files env paths ws =
     (if ws_TriggerPatterns ws \<noteq> None then globMatch (re_glob env) paths (elems (ws_TriggerPatterns ws))
      else Inr True)"

text \<open>
  The filter in place: the loop reads the elements of the slice in turn and moves those it keeps to
  the front, the \<open>n\<close>-th to position \<open>n\<close>.
\<close>

function filter_in_place :: "('a \<Rightarrow> bool result) \<Rightarrow> nat \<Rightarrow> nat \<Rightarrow> 'a list \<Rightarrow> (nat \<times> 'a list) result" where
  "filter_in_place keep i n xs =
     (if length xs \<le> i then Inr (n, xs)
      else case keep (xs ! i) of
             Inl e \<Rightarrow> Inl e
           | Inr b \<Rightarrow> if b then filter_in_place keep (Suc i) (Suc n) (xs[n := xs ! i])
                      else filter_in_place keep (Suc i) n xs)"
  by pat_completeness auto
termination by (relation "measure (\<lambda>(keep, i, n, xs). length xs - i)") auto

declare filter_in_place.simps [simp del]

definition ListConnectedWorkspaces :: "TfeID \<Rightarrow> Repo \<Rightarrow> 'z cv_db_scheme \<Rightarrow> Workspace list" where
  "ListConnectedWorkspaces provider repo sys =
     filter (\<lambda>ws. case ws_Connection ws of
                    None \<Rightarrow> False
                  | Some c \<Rightarrow> con_VCSProviderID c = provider \<and> Repo_String (con_Repo c) = Repo_String repo)
       (cvd_workspaces sys)"

definition event_cv_options :: "VCSEvent \<Rightarrow> Connection \<Rightarrow> CVCreateOptions" where
  "event_cv_options ev con =
     \<lparr>cvo_AutoQueueRuns = None, cvo_Speculative = Some (ev_Type ev = EventTypePull), cvo_Source = ev_Source ev,
      cvo_CreatedAt = None,
      cvo_IngressAttributes = Some
        \<lparr>ia_Branch = ev_Branch ev, ia_CommitSHA = ev_CommitSHA ev, ia_CommitURL = ev_CommitURL ev,
         ia_Repo = con_Repo con, ia_IsPullRequest = (ev_Type ev = EventTypePull),
         ia_OnDefaultBranch = (ev_Branch ev = ev_DefaultBranch ev),
         ia_PullRequestNumber = ev_PullRequestNumber ev, ia_PullRequestURL = ev_PullRequestURL ev,
         ia_PullRequestTitle = ev_PullRequestTitle ev, ia_Tag = ev_Tag ev,
         ia_SenderUsername = ev_SenderUsername ev, ia_SenderAvatarURL = ev_SenderAvatarURL ev,
         ia_SenderHTMLURL = ev_SenderHTMLURL ev\<rparr>\<rparr>"

definition event_run_options :: "VCSEvent \<Rightarrow> TfeID \<Rightarrow> RunCreateOptions" where
  "event_run_options ev cvid =
     \<lparr>ro_IsDestroy = None, ro_Refresh = None, ro_RefreshOnly = None, ro_Message = None,
      ro_ConfigurationVersionID = Some cvid, ro_TargetAddrs = [], ro_ReplaceAddrs = [], ro_AutoApply = None,
      ro_Source = ev_Source ev, ro_TerraformVersion = None, ro_AllowEmptyApply = None, ro_PlanOnly = None,
      ro_Variables = [], ro_CreatedBy = None, ro_EngineVersion = [], ro_TriggeringRunID = None,
      ro_CreatedAt = None, ro_costEstimationEnabled = False, ro_now = None\<rparr>"

fun spawn_runs :: "run_env \<Rightarrow> nat \<Rightarrow> VCSEvent \<Rightarrow> string \<Rightarrow> Workspace list \<Rightarrow> vcs_sys \<Rightarrow> unit effect" where
  "spawn_runs env k ev tarball [] sys = (Inr (), sys)"
| "spawn_runs env k ev tarball (ws # wss) sys =
     (case ws_Connection ws of None \<Rightarrow> (Inl (Panic ''nil pointer dereference''), sys) | Some con \<Rightarrow>
     (case CreateConfigVersion (access_env.truncate env) (re_rnd env k) (re_clk env k) (ws_ID ws)
             (event_cv_options ev con) sys of
        Inl e \<Rightarrow> (Inl e, sys)
      | Inr (sys1, cv) \<Rightarrow>
     (case UploadConfig (cv_ID cv) tarball sys1 of
        Inl e \<Rightarrow> (Inl e, sys1)
      | Inr sys2 \<Rightarrow>
     (case CreateRun env (Suc k) (ws_ID ws) (event_run_options ev (cv_ID cv)) sys2 of
        (Inl e, sys3) \<Rightarrow> (Inl e, sys3)
      | (Inr _, sys3) \<Rightarrow> spawn_runs env (k + 3) ev tarball wss sys3))))"

text \<open>The selection among the workspaces that passed the first filter; only pull requests need it.\<close>

definition select_by_files :: "run_env \<Rightarrow> vcs_client \<Rightarrow> VCSEvent \<Rightarrow> Workspace list \<Rightarrow> Workspace list result" where
  "select_by_files env client ev wss =
     (if ev_Type ev = EventTypePull \<and> list_ex (\<lambda>ws. ws_TriggerPatterns ws \<noteq> None) wss
      then (case vc_ListPullRequestFiles client (ev_Repo ev) (ev_PullRequestNumber ev) of
              Inl e \<Rightarrow> Inl (Wrap ''retrieving list of files in pull request from cloud provider'' e)
            | Inr paths \<Rightarrow>
                (case filter_in_place (match_files env paths) 0 0 wss of
                   Inl e \<Rightarrow> Inl e | Inr (n, wss') \<Rightarrow> Inr (take n wss')))
      else Inr wss)"

definition handleWithError :: "run_env \<Rightarrow> VCSEvent \<Rightarrow> vcs_sys \<Rightarrow> unit effect" where
  "handleWithError env0 ev sys =
     (let env = env0\<lparr>ae_ctx := as_superuser ''run-spawner''\<rparr>;
          wss = ListConnectedWorkspaces (ev_VCSProviderID ev) (ev_Repo ev) sys
      in if ev_Action ev \<notin> {ActionCreated, ActionUpdated} then (Inr (), sys)
         else if wss = [] then (Inr (), sys)
         else case filter_in_place (match_event env ev) 0 0 wss of
                Inl e \<Rightarrow> (Inl e, sys)
              | Inr (n, wss1) \<Rightarrow>
                  if n = 0 then (Inr (), sys)
                  else
                 (case re_GetVCSProvider env (ev_VCSProviderID ev) of Inl e \<Rightarrow> (Inl e, sys) | Inr client \<Rightarrow>
                 (case vc_GetRepoTarball client (ev_Repo ev) (ev_CommitSHA ev) of
                    Inl e \<Rightarrow> (Inl (Wrap ''retrieving repo tarball'' e), sys)
                  | Inr (tarball, _) \<Rightarrow>
                 (case select_by_files env client ev (take n wss1) of
                    Inl e \<Rightarrow> (Inl e, sys)
                  | Inr wss2 \<Rightarrow> spawn_runs env 0 ev tarball wss2 sys))))"

section \<open>Lemmas: the filters\<close>

lemma filter_in_place_filter:
  "n \<le> i \<Longrightarrow> filter_in_place keep i n xs = Inr (m, ys) \<Longrightarrow>
     (\<forall>x \<in> set (drop i xs). \<exists>b. keep x = Inr b) \<and>
     take m ys = take n xs @ filter (\<lambda>x. keep x = Inr True) (drop i xs)"
proof (induction keep i n xs arbitrary: m ys rule: filter_in_place.induct)
  case (1 keep i n xs)
  show ?case
  proof (cases "length xs \<le> i")
    case True
    with 1(4) show ?thesis by (auto simp: filter_in_place.simps [of keep i n xs])
  next
    case False
    then have d: "drop i xs = xs ! i # drop (Suc i) xs" by (simp add: Cons_nth_drop_Suc)
    obtain b where b: "keep (xs ! i) = Inr b"
      using 1(4) False by (auto simp: filter_in_place.simps [of keep i n xs] split: sum.splits)
    show ?thesis
    proof (cases b)
      case True
      let ?xs = "xs[n := xs ! i]"
      have "filter_in_place keep (Suc i) (Suc n) ?xs = Inr (m, ys)"
        using 1(4) False b True by (simp add: filter_in_place.simps [of keep i n xs])
      from 1(1) [OF False b True _ this] 1(3)
      have "(\<forall>x \<in> set (drop (Suc i) ?xs). \<exists>b. keep x = Inr b) \<and>
          take m ys = take (Suc n) ?xs @ filter (\<lambda>x. keep x = Inr True) (drop (Suc i) ?xs)" by simp
      moreover have "take (Suc n) ?xs = take n xs @ [xs ! i]"
        using 1(3) False by (simp add: take_Suc_conv_app_nth)
      moreover have "drop (Suc i) ?xs = drop (Suc i) xs" using 1(3) by simp
      ultimately show ?thesis using b True by (auto simp: d)
    next
      case F: False
      have "filter_in_place keep (Suc i) n xs = Inr (m, ys)"
        using 1(4) False b F by (simp add: filter_in_place.simps [of keep i n xs])
      from 1(2) [OF False b F _ this] 1(3) b F show ?thesis by (auto simp: d)
    qed
  qed
qed

lemma filter_in_place_total:
  "n \<le> i \<Longrightarrow> (\<forall>x \<in> set (drop i xs). \<exists>b. keep x = Inr b) \<Longrightarrow> \<exists>m ys. filter_in_place keep i n xs = Inr (m, ys)"
proof (induction keep i n xs rule: filter_in_place.induct)
  case (1 keep i n xs)
  show ?case
  proof (cases "length xs \<le> i")
    case False
    then have d: "drop i xs = xs ! i # drop (Suc i) xs" by (simp add: Cons_nth_drop_Suc)
    with 1(4) obtain b where b: "keep (xs ! i) = Inr b" by auto
    show ?thesis
    proof (cases b)
      case True
      have "drop (Suc i) (xs[n := xs ! i]) = drop (Suc i) xs" using 1(3) by simp
      with 1(1) [OF False b True] 1(3,4) d have "\<exists>m ys. filter_in_place keep (Suc i) (Suc n) (xs[n := xs ! i]) = Inr (m, ys)"
        by auto
      with False b True show ?thesis by (simp add: filter_in_place.simps [of keep i n xs])
    next
      case F: False
      with 1(2) [OF False b F] 1(3,4) d have "\<exists>m ys. filter_in_place keep (Suc i) n xs = Inr (m, ys)" by auto
      with False b F show ?thesis by (simp add: filter_in_place.simps [of keep i n xs])
    qed
  qed (simp add: filter_in_place.simps [of keep i n xs])
qed

lemmas in_place_filter = filter_in_place_filter [of 0 0, simplified]

definition glob_hits :: "(string \<Rightarrow> (string \<Rightarrow> bool) option) \<Rightarrow> string list \<Rightarrow> string list \<Rightarrow> bool" where
  "glob_hits compile paths patterns =
     list_ex (\<lambda>p. case compile p of None \<Rightarrow> False | Some g \<Rightarrow> list_ex g paths) patterns"

lemma globMatch_hits:
  assumes "list_all (\<lambda>p. compile p \<noteq> None) patterns"
  shows "globMatch compile paths patterns = Inr (glob_hits compile paths patterns)"
proof -
  have "glob_any compile paths patterns = Inr (glob_hits compile paths patterns)"
    using assms by (induction patterns) (auto simp: glob_hits_def)
  moreover have "\<not> glob_hits compile [] patterns" by (induction patterns) (auto simp: glob_hits_def split: option.splits)
  ultimately show ?thesis by (auto simp: globMatch_def glob_hits_def)
qed

text \<open>What the triggers of a workspace say of an event, given the files that it changes.\<close>

definition files_match :: "run_env \<Rightarrow> string list \<Rightarrow> Workspace \<Rightarrow> bool" where
  "files_match env files ws \<longleftrightarrow>
     (case ws_TriggerPatterns ws of
        None \<Rightarrow> True
      | Some patterns \<Rightarrow> glob_hits (re_glob env) files patterns)"

definition ref_matches :: "run_env \<Rightarrow> VCSEvent \<Rightarrow> Workspace \<Rightarrow> Connection \<Rightarrow> bool" where
  "ref_matches env ev ws con \<longleftrightarrow>
     (case ev_Type ev of
        EventTypeTag \<Rightarrow> con_TagsRegex con = [] \<or> (\<exists>re. re_regex env (con_TagsRegex con) = Some re \<and> re (ev_Tag ev))
      | EventTypePush \<Rightarrow>
          ev_Branch ev = (if con_Branch con = [] then ev_DefaultBranch ev else con_Branch con) \<and>
          con_TagsRegex con = []
      | EventTypePull \<Rightarrow> ws_SpeculativeEnabled ws
      | _ \<Rightarrow> True)"

definition triggered :: "run_env \<Rightarrow> VCSEvent \<Rightarrow> string list \<Rightarrow> Workspace \<Rightarrow> bool" where
  "triggered env ev files ws \<longleftrightarrow>
     (\<exists>con. ws_Connection ws = Some con \<and> con_VCSProviderID con = ev_VCSProviderID ev \<and>
        Repo_String (con_Repo con) = Repo_String (ev_Repo ev) \<and> ref_matches env ev ws con) \<and>
     (ev_Type ev \<in> {EventTypeTag, EventTypePush, EventTypePull} \<longrightarrow> files_match env files ws)"

text \<open>The patterns of a workspace compile.\<close>

definition patterns_ok :: "run_env \<Rightarrow> Workspace \<Rightarrow> bool" where
  "patterns_ok env ws \<longleftrightarrow> list_all (\<lambda>p. re_glob env p \<noteq> None) (elems (ws_TriggerPatterns ws)) \<and>
     (\<forall>con. ws_Connection ws = Some con \<longrightarrow> con_TagsRegex con \<noteq> [] \<longrightarrow> re_regex env (con_TagsRegex con) \<noteq> None)"

lemma globMatch_files:
  "patterns_ok env ws \<Longrightarrow> ws_TriggerPatterns ws \<noteq> None \<Longrightarrow>
     globMatch (re_glob env) files (elems (ws_TriggerPatterns ws)) = Inr (files_match env files ws)"
  using globMatch_hits [of "re_glob env" "elems (ws_TriggerPatterns ws)" files]
  by (auto simp: files_match_def patterns_ok_def)

lemma match_event_spec:
  assumes "patterns_ok env ws" "ws_Connection ws = Some con"
  shows "match_event env ev ws = Inr (ref_matches env ev ws con \<and>
    (ev_Type ev \<in> {EventTypeTag, EventTypePush} \<longrightarrow> files_match env (ev_Paths ev) ws))"
proof -
  have "match_ref env ev ws = Inr (ref_matches env ev ws con)"
    using assms by (auto simp: match_ref_def ref_matches_def patterns_ok_def split: EventType.splits option.splits)
  moreover have "ws_TriggerPatterns ws = None \<Longrightarrow> files_match env files ws" for files
    by (simp add: files_match_def)
  ultimately show ?thesis using globMatch_files [OF assms(1)]
    by (auto simp: match_event_def split: bool.splits)
qed

lemma match_files_spec: "patterns_ok env ws \<Longrightarrow> match_files env files ws = Inr (files_match env files ws)"
  using globMatch_files [of env ws files] by (auto simp: match_files_def files_match_def)

lemma ctx_update [simp]:
  "re_regex (env\<lparr>ae_ctx := c\<rparr>) = re_regex env" "re_glob (env\<lparr>ae_ctx := c\<rparr>) = re_glob env"
  "re_GetVCSProvider (env\<lparr>ae_ctx := c\<rparr>) = re_GetVCSProvider env"
  by (cases env; simp)+

lemma patterns_ok_ctx [simp]:
  "patterns_ok (env\<lparr>ae_ctx := c\<rparr>) = patterns_ok env" "triggered (env\<lparr>ae_ctx := c\<rparr>) = triggered env"
  "files_match (env\<lparr>ae_ctx := c\<rparr>) = files_match env" "ref_matches (env\<lparr>ae_ctx := c\<rparr>) = ref_matches env"
  unfolding patterns_ok_def triggered_def files_match_def ref_matches_def ctx_update by (rule refl)+

section \<open>Lemmas: creating runs\<close>

lemma NewRun_fields [simp]:
  "run_WorkspaceID (NewRun rnd clk ws cv opts) = ws_ID ws"
  "run_ConfigurationVersionID (NewRun rnd clk ws cv opts) = cv_ID cv"
  "run_PlanOnly (NewRun rnd clk ws cv opts) = override (ro_PlanOnly opts) (cv_Speculative cv)"
  "run_Status (NewRun rnd clk ws cv opts) = Pending"
  "run_IngressAttributes (NewRun rnd clk ws cv opts) = cv_IngressAttributes cv"
  "run_TriggeringRunID (NewRun rnd clk ws cv opts) = ro_TriggeringRunID opts"
  by (simp_all add: NewRun_def Let_def run_updateStatus_def)

lemma find_workspace_ID: "find_workspace wid sys = Some ws \<Longrightarrow> ws_ID ws = wid"
  by (auto simp: find_workspace_def dest: find_first_SomeD)

lemma db_getCV_SomeD:
  "db_getCV cvid db = Inr cv \<Longrightarrow> \<exists>row \<in> set (cvd_rows db). cv_ID (fst row) = cvid \<and> scan_cv row = Inr cv"
  by (auto simp: db_getCV_def collect_one_def split: option.splits dest: find_first_SomeD)

lemma scan_cv_fields:
  "scan_cv row = Inr cv \<Longrightarrow> cv_ID cv = cv_ID (fst row) \<and> cv_Speculative cv = cv_Speculative (fst row) \<and>
     cv_WorkspaceID cv = cv_WorkspaceID (fst row) \<and> cv_Status cv = cv_Status (fst row)"
  by (auto simp: scan_cv_def split: option.splits sum.splits)

text \<open>Creating a run with a given configuration version adds that run and nothing else.\<close>

lemma CreateRun_given:
  assumes "CreateRun env k wid opts sys = (Inr run, sys')" "ro_ConfigurationVersionID opts = Some cvid"
    "ro_PlanOnly opts = None"
  obtains row where "row \<in> set (cvd_rows sys)" "cv_ID (fst row) = cvid" "sys' = sys\<lparr>vs_runs := vs_runs sys @ [run]\<rparr>"
    "run_WorkspaceID run = wid" "run_ConfigurationVersionID run = cvid" "run_PlanOnly run = cv_Speculative (fst row)"
    "run_Status run = Pending" "run_ID run \<notin> run_ID ` set (vs_runs sys)"
proof -
  from assms obtain ws cv opts' where ws: "find_workspace wid sys = Some ws" and cv: "db_getCV cvid sys = Inr cv"
    and run: "run = NewRun (re_rnd env (Suc k)) (re_clk env (Suc k)) ws cv opts'" "ro_PlanOnly opts' = None"
    and ins: "insert_run run sys = Inr sys'"
    by (auto simp: CreateRun_def factory_NewRun_def fetch_config_def GetWorkspace_def GetConfigVersion_def
        collect_one_def split: sum.splits prod.splits option.splits if_splits)
  from db_getCV_SomeD [OF cv] obtain row where "row \<in> set (cvd_rows sys)" "cv_ID (fst row) = cvid" "scan_cv row = Inr cv"
    by blast
  with that [of row] run find_workspace_ID [OF ws] scan_cv_fields [of row cv] ins show thesis
    by (auto simp: insert_run_def split: if_splits)
qed

text \<open>One turn of the loop: a configuration version with the tarball, and a run of it.\<close>

lemma spawn_one:
  assumes "CreateConfigVersion aenv rnd clk (ws_ID ws) (event_cv_options ev con) sys = Inr (sys1, cv)"
    "UploadConfig (cv_ID cv) tarball sys1 = Inr sys2"
    "CreateRun env k (ws_ID ws) (event_run_options ev (cv_ID cv)) sys2 = (Inr run, sys3)"
  shows "vs_runs sys3 = vs_runs sys @ [run]" "run_WorkspaceID run = ws_ID ws"
    "run_PlanOnly run = (ev_Type ev = EventTypePull)" "run_Status run = Pending"
    "config_store sys3 = (config_store sys)(run_ConfigurationVersionID run \<mapsto> Some tarball)"
    "config_store sys (run_ConfigurationVersionID run) = None" "cvd_workspaces sys3 = cvd_workspaces sys"
proof -
  note c = CreateConfigVersion_SomeD [OF assms(1)] and u = UploadConfig_SomeD [OF assms(2)]
  obtain row where r: "row \<in> set (cvd_rows sys2)"
    "cv_ID (fst row) = cv_ID cv" "sys3 = sys2\<lparr>vs_runs := vs_runs sys2 @ [run]\<rparr>"
    "run_WorkspaceID run = ws_ID ws" "run_ConfigurationVersionID run = cv_ID cv"
    "run_PlanOnly run = cv_Speculative (fst row)" "run_Status run = Pending"
    by (rule CreateRun_given [OF assms(3), of "cv_ID cv"]) (simp_all add: event_run_options_def)
  have "cv_Speculative (fst row) = (ev_Type ev = EventTypePull)"
    using r(1,2) c by (auto simp: u(2) event_cv_options_def image_iff split: if_splits)
  with r show "run_PlanOnly run = (ev_Type ev = EventTypePull)" by simp
  show "vs_runs sys3 = vs_runs sys @ [run]" "run_WorkspaceID run = ws_ID ws" "run_Status run = Pending"
    "cvd_workspaces sys3 = cvd_workspaces sys"
    using r c(2) u(2) by simp_all
  have "config_store sys3 = config_store sys2" using r(3) by (simp add: config_store_def)
  with config_store_create [OF assms(1)] config_store_upload [OF assms(2)] r(5)
  show "config_store sys3 = (config_store sys)(run_ConfigurationVersionID run \<mapsto> Some tarball)" by simp
  show "config_store sys (run_ConfigurationVersionID run) = None"
    unfolding config_store_def rows_None r(5) by (rule c(3))
qed

lemma spawn_runs_spec:
  "spawn_runs env k ev tarball wss sys = (Inr (), sys') \<Longrightarrow>
     \<exists>new. vs_runs sys' = vs_runs sys @ new \<and> map run_WorkspaceID new = map ws_ID wss \<and>
       (\<forall>r \<in> set new. run_PlanOnly r = (ev_Type ev = EventTypePull) \<and> run_Status r = Pending \<and>
          config_store sys' (run_ConfigurationVersionID r) = Some (Some tarball)) \<and>
       distinct (map run_ConfigurationVersionID new) \<and>
       (\<forall>r \<in> set new. config_store sys (run_ConfigurationVersionID r) = None) \<and>
       config_store sys \<subseteq>\<^sub>m config_store sys'"
proof (induction wss arbitrary: k sys)
  case Nil
  then show ?case by simp
next
  case (Cons ws wss)
  from Cons.prems obtain con sys1 cv sys2 run sys3 where s:
    "CreateConfigVersion (access_env.truncate env) (re_rnd env k) (re_clk env k) (ws_ID ws) (event_cv_options ev con) sys = Inr (sys1, cv)"
    "UploadConfig (cv_ID cv) tarball sys1 = Inr sys2"
    "CreateRun env (Suc k) (ws_ID ws) (event_run_options ev (cv_ID cv)) sys2 = (Inr run, sys3)"
    and rest: "spawn_runs env (k + 3) ev tarball wss sys3 = (Inr (), sys')"
    by (auto split: option.splits sum.splits prod.splits)
  note o = spawn_one [OF s]
  from Cons.IH [OF rest] obtain new where new: "vs_runs sys' = vs_runs sys3 @ new" "map run_WorkspaceID new = map ws_ID wss"
    "\<forall>r \<in> set new. run_PlanOnly r = (ev_Type ev = EventTypePull) \<and> run_Status r = Pending \<and>
       config_store sys' (run_ConfigurationVersionID r) = Some (Some tarball)"
    "distinct (map run_ConfigurationVersionID new)" "\<forall>r \<in> set new. config_store sys3 (run_ConfigurationVersionID r) = None"
    "config_store sys3 \<subseteq>\<^sub>m config_store sys'" by blast
  have mono: "config_store sys \<subseteq>\<^sub>m config_store sys3" using o(5,6) by (auto simp: map_le_def)
  have this_cv: "config_store sys' (run_ConfigurationVersionID run) = Some (Some tarball)"
    using new(6) o(5) by (auto simp: map_le_def)
  have fresh: "run_ConfigurationVersionID r \<noteq> run_ConfigurationVersionID run \<and>
      config_store sys (run_ConfigurationVersionID r) = None" if "r \<in> set new" for r
    using new(5) that o(5) by (auto split: if_splits)
  have "run_ConfigurationVersionID run \<notin> set (map run_ConfigurationVersionID new)" using fresh by force
  then have "distinct (map run_ConfigurationVersionID (run # new))" using new(4) by simp
  moreover have "map run_WorkspaceID (run # new) = map ws_ID (ws # wss)" "vs_runs sys' = vs_runs sys @ run # new"
    using o(1,2) new(1,2) by simp_all
  moreover have "\<forall>r \<in> set (run # new). run_PlanOnly r = (ev_Type ev = EventTypePull) \<and> run_Status r = Pending \<and>
      config_store sys' (run_ConfigurationVersionID r) = Some (Some tarball)"
    using o(3,4) new(3) this_cv by simp
  moreover have "\<forall>r \<in> set (run # new). config_store sys (run_ConfigurationVersionID r) = None"
    using fresh o(6) by simp
  ultimately show ?case using map_le_trans [OF mono new(6)] by blast
qed

lemma select_by_files_spec:
  assumes "select_by_files env client ev wss = Inr sel" "\<forall>ws \<in> set wss. patterns_ok env ws"
    "ev_Type ev = EventTypePull \<longrightarrow> vc_ListPullRequestFiles client (ev_Repo ev) (ev_PullRequestNumber ev) = Inr files \<or>
       \<not> list_ex (\<lambda>ws. ws_TriggerPatterns ws \<noteq> None) wss"
  shows "sel = filter (\<lambda>ws. ev_Type ev = EventTypePull \<longrightarrow> files_match env files ws) wss"
proof (cases "ev_Type ev = EventTypePull \<and> list_ex (\<lambda>ws. ws_TriggerPatterns ws \<noteq> None) wss")
  case True
  with assms(1,3) obtain n ys where f: "filter_in_place (match_files env files) 0 0 wss = Inr (n, ys)" "sel = take n ys"
    by (auto simp: select_by_files_def split: sum.splits prod.splits)
  from in_place_filter [OF f(1)] have "sel = filter (\<lambda>x. match_files env files x = Inr True) wss" by (simp add: f(2))
  also have "\<dots> = filter (files_match env files) wss"
    using assms(2) by (intro filter_cong) (auto simp: match_files_spec)
  finally show ?thesis using True by simp
next
  case False
  then have "filter (\<lambda>ws. ev_Type ev = EventTypePull \<longrightarrow> files_match env files ws) wss = wss"
    by (auto simp: filter_id_conv list_ex_iff files_match_def)
  with False assms(1) show ?thesis by (auto simp: select_by_files_def split: if_splits)
qed

section \<open>Properties\<close>

text \<open>
  C7: An event spawns runs in exactly the workspaces that it triggers. When the handler returns
  without error, one run was created for each connected workspace whose branch, tag, speculative
  setting and file patterns match the event, in the order of the table, and none elsewhere; each is
  pending, plan-only precisely for pull requests, and has a configuration version of its own that
  holds the tarball of the commit.
\<close>

theorem spawned_exactly:
  assumes "handleWithError env ev sys = (Inr (), sys')" "ev_Action ev = ActionCreated \<or> ev_Action ev = ActionUpdated"
    "list_all (patterns_ok env) (cvd_workspaces sys)"
    "re_GetVCSProvider env (ev_VCSProviderID ev) = Inr client"
    "vc_GetRepoTarball client (ev_Repo ev) (ev_CommitSHA ev) = Inr (tarball, ref)"
    "if ev_Type ev = EventTypePull
     then vc_ListPullRequestFiles client (ev_Repo ev) (ev_PullRequestNumber ev) = Inr files
     else files = ev_Paths ev"
  shows "\<exists>new. vs_runs sys' = vs_runs sys @ new \<and>
    map run_WorkspaceID new = map ws_ID (filter (triggered env ev files) (cvd_workspaces sys)) \<and>
    distinct (map run_ConfigurationVersionID new) \<and>
    list_all (\<lambda>r. run_Status r = Pending \<and> run_PlanOnly r = (ev_Type ev = EventTypePull) \<and>
      config_store sys' (run_ConfigurationVersionID r) = Some (Some tarball)) new"
proof -
  let ?env = "env\<lparr>ae_ctx := as_superuser ''run-spawner''\<rparr>"
  let ?wss = "ListConnectedWorkspaces (ev_VCSProviderID ev) (ev_Repo ev) sys"
  let ?first = "\<lambda>ws. match_event ?env ev ws = Inr True"
  have ok: "\<forall>ws \<in> set ?wss. patterns_ok env ws" using assms(3) by (auto simp: ListConnectedWorkspaces_def list_all_iff)
  have sel: "filter (triggered env ev files) (cvd_workspaces sys) =
      filter (\<lambda>ws. ev_Type ev = EventTypePull \<longrightarrow> files_match env files ws) (filter ?first ?wss)"
  proof -
    have "triggered env ev files ws \<longleftrightarrow>
        (case ws_Connection ws of None \<Rightarrow> False
         | Some c \<Rightarrow> con_VCSProviderID c = ev_VCSProviderID ev \<and> Repo_String (con_Repo c) = Repo_String (ev_Repo ev)) \<and>
        ?first ws \<and> (ev_Type ev = EventTypePull \<longrightarrow> files_match env files ws)" if "ws \<in> set (cvd_workspaces sys)" for ws
    proof (cases "ws_Connection ws")
      case (Some con)
      have "patterns_ok ?env ws" using assms(3) that by (simp add: list_all_iff)
      from match_event_spec [OF this Some, of ev] Some assms(6) show ?thesis
        by (auto simp: triggered_def split: if_splits)
    qed (simp add: triggered_def)
    then show ?thesis unfolding ListConnectedWorkspaces_def filter_filter by (intro filter_cong) auto
  qed
  show ?thesis
  proof (cases "filter ?first ?wss = []")
    case True
    have "sys' = sys"
    proof (cases "?wss = []")
      case False
      with assms(1,2) obtain n ys where f: "filter_in_place (match_event ?env ev) 0 0 ?wss = Inr (n, ys)"
        by (auto simp: handleWithError_def Let_def split: sum.splits prod.splits)
      from in_place_filter [OF f] True have "take n ys = []" by simp
      with f assms(1,2,4,5) show ?thesis
        by (auto simp: handleWithError_def Let_def select_by_files_def split: if_splits)
    qed (use assms(1) in \<open>auto simp: handleWithError_def Let_def split: if_splits\<close>)
    with True sel show ?thesis by simp
  next
    case False
    then have "?wss \<noteq> []" by auto
    with assms(1,2) obtain n ys where f: "filter_in_place (match_event ?env ev) 0 0 ?wss = Inr (n, ys)"
      by (auto simp: handleWithError_def Let_def split: sum.splits prod.splits)
    have ys: "take n ys = filter ?first ?wss" using in_place_filter [OF f] by simp
    with False have "n \<noteq> 0" by (metis take_0)
    with assms(1,2,4,5) f \<open>?wss \<noteq> []\<close> obtain wss2 where sf: "select_by_files ?env client ev (take n ys) = Inr wss2"
      and sp: "spawn_runs ?env 0 ev tarball wss2 sys = (Inr (), sys')"
      by (auto simp: handleWithError_def Let_def split: sum.splits)
    have "wss2 = filter (\<lambda>ws. ev_Type ev = EventTypePull \<longrightarrow> files_match env files ws) (take n ys)"
      using select_by_files_spec [OF sf, of files] ok ys assms(6) by (auto split: if_splits)
    with sel ys have w: "wss2 = filter (triggered env ev files) (cvd_workspaces sys)" by simp
    from spawn_runs_spec [OF sp] w show ?thesis unfolding list_all_iff by blast
  qed
qed

declare lineage_loop.simps [code]

definition demo_repo :: Repo where
  "demo_repo = \<lparr>repo_owner = ''acme'', repo_name = ''infra''\<rparr>"

definition demo_provider :: TfeID where
  "demo_provider = \<lparr>tfe_kind = VCSProviderKind, tfe_id = ''1''\<rparr>"

definition demo_connected :: "string \<Rightarrow> string list option \<Rightarrow> Workspace" where
  "demo_connected n patterns = example_workspace
     \<lparr>ws_ID := \<lparr>tfe_kind = WorkspaceKind, tfe_id = n\<rparr>, ws_TriggerPatterns := patterns,
      ws_Connection := Some \<lparr>con_Branch = [], con_TagsRegex = [], con_VCSProviderID = demo_provider,
                            con_Repo = demo_repo, con_AllowCLIApply = False\<rparr>\<rparr>"

definition demo_client :: vcs_client where
  "demo_client = \<lparr>vc_GetDefaultBranch = (\<lambda>_. Inr ''main''), vc_GetRepoTarball = (\<lambda>_ r. Inr (''tarball of '' @ r, r)),
     vc_GetCommit = (\<lambda>_ r. Inr \<lparr>com_SHA = r, com_URL = [], com_Username = [], com_AvatarURL = [], com_ProfileURL = []\<rparr>),
     vc_ListPullRequestFiles = (\<lambda>_ _. Inr [''modules/vpc.tf''])\<rparr>"

text \<open>Regular expressions and globs that stand for themselves.\<close>

definition demo_run_env :: run_env where
  "demo_run_env = \<lparr>ae_ctx = as_superuser ''root'',
     ae_policies = (\<lambda>_. Inr \<lparr>pol_Permissions = [], pol_globalRemoteState = False\<rparr>),
     re_rnd = (\<lambda>k _. k), re_clk = (\<lambda>_ _. 0),
     re_GetVCSProvider = (\<lambda>_. Inr demo_client), re_GetLatest = (\<lambda>_. Inr ''1.9.0''),
     re_regex = (\<lambda>r. Some (\<lambda>s. s = r)), re_glob = (\<lambda>p. Some (\<lambda>s. s = p))\<rparr>"

definition demo_push :: VCSEvent where
  "demo_push = \<lparr>ev_VCSProviderID = demo_provider, ev_Source = ''github'', ev_Repo = demo_repo, ev_Type = EventTypePush,
     ev_Action = ActionCreated, ev_Tag = [], ev_CommitSHA = ''abc'', ev_CommitURL = [], ev_Branch = ''main'',
     ev_DefaultBranch = ''main'', ev_PullRequestNumber = 0, ev_PullRequestURL = [], ev_PullRequestTitle = [],
     ev_SenderUsername = [], ev_SenderAvatarURL = [], ev_SenderHTMLURL = [], ev_Paths = [''main.tf'']\<rparr>"

definition demo_vcs_sys :: vcs_sys where
  "demo_vcs_sys = \<lparr>cvd_workspaces = [demo_connected ''1'' None, demo_connected ''2'' (Some [''docs.md'']),
      demo_connected ''3'' (Some [''main.tf''])], cvd_rows = [], vs_organizations = [(''acme'', False)], vs_runs = []\<rparr>"

lemma demo_push_ok: "fst (handleWithError demo_run_env demo_push demo_vcs_sys) = Inr ()"
  by code_simp

theorem spawned_exactly_witness:
  "\<exists>new. vs_runs (snd (handleWithError demo_run_env demo_push demo_vcs_sys)) = vs_runs demo_vcs_sys @ new \<and>
     map (tfe_id \<circ> run_WorkspaceID) new = [''1'', ''3'']"
proof -
  let ?sys = "snd (handleWithError demo_run_env demo_push demo_vcs_sys)"
  have h: "handleWithError demo_run_env demo_push demo_vcs_sys = (Inr (), ?sys)"
    using demo_push_ok by (metis prod.collapse)
  have ok: "list_all (patterns_ok demo_run_env) (cvd_workspaces demo_vcs_sys)"
    by (simp add: demo_vcs_sys_def patterns_ok_def demo_run_env_def demo_connected_def)
  have sel: "map ws_ID (filter (triggered demo_run_env demo_push [''main.tf'']) (cvd_workspaces demo_vcs_sys)) =
      [\<lparr>tfe_kind = WorkspaceKind, tfe_id = ''1''\<rparr>, \<lparr>tfe_kind = WorkspaceKind, tfe_id = ''3''\<rparr>]"
    by (simp add: demo_vcs_sys_def triggered_def demo_connected_def demo_push_def ref_matches_def files_match_def
        glob_hits_def demo_run_env_def)
  have a: "ev_Action demo_push = ActionCreated \<or> ev_Action demo_push = ActionUpdated" by (simp add: demo_push_def)
  have c: "re_GetVCSProvider demo_run_env (ev_VCSProviderID demo_push) = Inr demo_client" by (simp add: demo_run_env_def)
  have t: "vc_GetRepoTarball demo_client (ev_Repo demo_push) (ev_CommitSHA demo_push) = Inr (''tarball of abc'', ''abc'')"
    by (simp add: demo_client_def demo_push_def)
  have f: "if ev_Type demo_push = EventTypePull
      then vc_ListPullRequestFiles demo_client (ev_Repo demo_push) (ev_PullRequestNumber demo_push) = Inr [''main.tf'']
      else [''main.tf''] = ev_Paths demo_push" by (simp add: demo_push_def)
  from spawned_exactly [OF h a ok c t f] obtain new where new: "vs_runs ?sys = vs_runs demo_vcs_sys @ new"
    "map run_WorkspaceID new = map ws_ID (filter (triggered demo_run_env demo_push [''main.tf'']) (cvd_workspaces demo_vcs_sys))"
    by blast
  have "map (tfe_id \<circ> run_WorkspaceID) new = map tfe_id (map run_WorkspaceID new)" by simp
  then have "map (tfe_id \<circ> run_WorkspaceID) new = [''1'', ''3'']" unfolding new(2) sel by simp
  from conjI [OF new(1) this] show ?thesis by (rule exI)
qed

lemma pattern_steps:
  "setTriggerPatterns (\<lambda>p. re_glob env p \<noteq> None) ws ps = Inr ws' \<Longrightarrow> patterns_ok env ws \<Longrightarrow> patterns_ok env ws'"
  "setTagsRegex (\<lambda>p. re_regex env p \<noteq> None) ws re = Inr ws' \<Longrightarrow> patterns_ok env ws \<Longrightarrow> patterns_ok env ws'"
  "patterns_ok env ws \<Longrightarrow> patterns_ok env (clear_tags_regex ws)"
  "patterns_ok env ws \<Longrightarrow> patterns_ok env (ws\<lparr>ws_TriggerPatterns := None\<rparr>)"
  by (auto simp: setTriggerPatterns_def setTagsRegex_def patterns_ok_def clear_tags_regex_def list_all_iff list_ex_iff
      split: if_splits option.splits)

lemma addConnection_patterns:
  "addConnection (\<lambda>p. re_regex env p \<noteq> None) ws co = Inr ws' \<Longrightarrow> patterns_ok env ws \<Longrightarrow> patterns_ok env ws'"
  by (auto simp: addConnection_def setTagsRegex_def patterns_ok_def Let_def split: sum.splits if_splits option.splits)

lemma modify_connection_patterns:
  "modify_connection (\<lambda>p. re_regex env p \<noteq> None) ws co = Inr ws' \<Longrightarrow> patterns_ok env ws \<Longrightarrow> patterns_ok env ws'"
  by (auto simp: modify_connection_def setTagsRegex_def patterns_ok_def Let_def split: sum.splits if_splits option.splits)

lemma Update_triggers_patterns:
  "Update_triggers (\<lambda>p. re_glob env p \<noteq> None) ws opts = Inr ws' \<Longrightarrow> patterns_ok env ws \<Longrightarrow> patterns_ok env ws'"
  unfolding Update_triggers_def Let_def
  using pattern_steps(1) [where env = env] by (fastforce split: sum.splits if_splits intro: pattern_steps)

lemma Update_connection_patterns:
  "Update_connection (\<lambda>p. re_regex env p \<noteq> None) ws opts = Inr (ws', b) \<Longrightarrow> patterns_ok env ws \<Longrightarrow> patterns_ok env ws'"
  by (auto simp: Update_connection_def
      split: sum.splits if_splits option.splits intro: addConnection_patterns modify_connection_patterns)

lemma workspace_defaults_patterns [simp]: "patterns_ok env (workspace_defaults eng rnd clk opts org mode)"
  by (simp add: patterns_ok_def workspace_defaults_def)

lemma patterns_ok_frame:
  "ws_TriggerPatterns ws' = ws_TriggerPatterns ws \<Longrightarrow> ws_Connection ws' = ws_Connection ws \<Longrightarrow>
     patterns_ok env ws' = patterns_ok env ws"
  by (simp add: patterns_ok_def)

lemma NewWorkspace_patterns:
  assumes "NewWorkspace (\<lambda>p. re_regex env p \<noteq> None) (\<lambda>p. re_glob env p \<noteq> None) get_org get_latest eng rnd clk opts = Inr ws"
  shows "patterns_ok env ws"
proof -
  from assms obtain org mode ws1 ws2 ws3 where s:
    "setName (workspace_defaults eng rnd clk opts org mode) (override (wc_Name opts) []) = Inr ws1"
    "(if wc_EngineVersion opts \<noteq> None then Inr ws1
      else case get_latest (ws_Engine ws1) of
             Inl e \<Rightarrow> Inl (Wrap ''retrieving latest engine version'' e)
           | Inr v \<Rightarrow> Inr (ws1\<lparr>ws_EngineVersion := \<lparr>Latest = False, semver = v\<rparr>\<rparr>)) = Inr ws2"
    "(case wc_ConnectOptions opts of None \<Rightarrow> Inr ws2
      | Some co \<Rightarrow> addConnection (\<lambda>p. re_regex env p \<noteq> None) ws2 co) = Inr ws3"
    "(if wc_TriggerPatterns opts = None then Inr ws3
      else case setTriggerPatterns (\<lambda>p. re_glob env p \<noteq> None) ws3 (wc_TriggerPatterns opts) of
             Inl e \<Rightarrow> Inl (Wrap ''setting trigger patterns'' e) | Inr ws4 \<Rightarrow> Inr ws4) = Inr ws"
    unfolding NewWorkspace_def Let_def result_bind_Inr option_bind_Inr by blast
  have "patterns_ok env ws1" using setName_frame [OF s(1)] patterns_ok_frame by (metis workspace_defaults_patterns)
  then have "patterns_ok env ws2"
    using s(2) patterns_ok_frame [of ws2 ws1 env] by (auto split: if_splits sum.splits)
  then have "patterns_ok env ws3" using s(3) addConnection_patterns by (auto split: option.splits)
  then show ?thesis using s(4) pattern_steps(1) [of env ws3] by (auto simp: result_bind_Inr split: if_splits)
qed

lemma Workspace_Update_patterns:
  assumes "Workspace_Update (\<lambda>p. re_regex env p \<noteq> None) (\<lambda>p. re_glob env p \<noteq> None) now ws opts = Inr (ws', b)"
    "patterns_ok env ws"
  shows "patterns_ok env ws'"
proof -
  obtain ws1 ws2 ws3 where s: "Update_settings ws opts = Inr ws1"
    "Update_triggers (\<lambda>p. re_glob env p \<noteq> None) ws1 opts = Inr ws2"
    "Update_connection (\<lambda>p. re_regex env p \<noteq> None) ws2 opts = Inr (ws3, b)"
    "ws' = (if ws_updated ws opts then ws3\<lparr>ws_UpdatedAt := CurrentTimestamp None now\<rparr> else ws3)"
    using Workspace_Update_steps [OF assms(1)] .
  have "patterns_ok env ws1" using Update_settings_frame [OF s(1)] assms(2) patterns_ok_frame by metis
  then have "patterns_ok env ws3" using s(2,3) Update_triggers_patterns Update_connection_patterns by blast
  then show ?thesis using s(4) patterns_ok_frame [of ws' ws3 env] by auto
qed

text \<open>
  The patterns of stored workspaces always compile, so that the spawner never panics over them.
  \<open>NewWorkspace\<close> only returns and \<open>Update\<close> only keeps workspaces whose tags regex and trigger
  patterns compile, and for such workspaces the loop over the connected workspaces comes to a
  decision on every event, of whatever type.
\<close>

theorem spawner_patterns_compile:
  "(NewWorkspace (\<lambda>p. re_regex env p \<noteq> None) (\<lambda>p. re_glob env p \<noteq> None) get_org get_latest eng rnd clk copts = Inr ws
      \<longrightarrow> patterns_ok env ws) \<and>
   (Workspace_Update (\<lambda>p. re_regex env p \<noteq> None) (\<lambda>p. re_glob env p \<noteq> None) now ws0 uopts = Inr (ws1, b) \<and>
      patterns_ok env ws0 \<longrightarrow> patterns_ok env ws1) \<and>
   (list_all (patterns_ok env) (cvd_workspaces sys) \<longrightarrow>
      (\<exists>n wss. filter_in_place (match_event env ev) 0 0 (ListConnectedWorkspaces provider repo sys) = Inr (n, wss)))"
proof (intro conjI impI)
  assume "list_all (patterns_ok env) (cvd_workspaces sys)"
  then have "\<exists>b. match_event env ev ws = Inr b" if "ws \<in> set (ListConnectedWorkspaces provider repo sys)" for ws
    using that match_event_spec [of env ws _ ev]
    by (fastforce simp: ListConnectedWorkspaces_def list_all_iff split: option.splits)
  then show "\<exists>n wss. filter_in_place (match_event env ev) 0 0 (ListConnectedWorkspaces provider repo sys) = Inr (n, wss)"
    by (intro filter_in_place_total) simp_all
qed (blast intro: NewWorkspace_patterns Workspace_Update_patterns)+

theorem spawner_patterns_compile_witness:
  "\<exists>n wss. filter_in_place (match_event demo_run_env demo_push) 0 0
     (ListConnectedWorkspaces demo_provider demo_repo demo_vcs_sys) = Inr (n, wss)"
proof -
  have "list_all (patterns_ok demo_run_env) (cvd_workspaces demo_vcs_sys)"
    by (simp add: demo_vcs_sys_def patterns_ok_def demo_run_env_def demo_connected_def)
  then show ?thesis using spawner_patterns_compile [THEN conjunct2, THEN conjunct2] by blast
qed

text \<open>
  A run may be given a configuration version of another workspace: that the version belongs to the
  workspace of the run is not checked.
\<close>

definition foreign_cv_sys :: vcs_sys where
  "foreign_cv_sys = demo_vcs_sys
     \<lparr>cvd_rows := [(NewConfigurationVersion id (\<lambda>_. 0) \<lparr>tfe_kind = WorkspaceKind, tfe_id = ''2''\<rparr> no_cv_options, None)]\<rparr>"

lemma foreign_configuration:
  "(case CreateRun demo_run_env 0 \<lparr>tfe_kind = WorkspaceKind, tfe_id = ''1''\<rparr>
          (event_run_options demo_push (cv_ID (fst (hd (cvd_rows foreign_cv_sys))))) foreign_cv_sys of
      (Inl _, _) \<Rightarrow> False
    | (Inr run, _) \<Rightarrow> tfe_id (run_WorkspaceID run) = ''1'' \<and>
        tfe_id (cv_WorkspaceID (fst (hd (cvd_rows foreign_cv_sys)))) = ''2'')"
  by code_simp

end
