(* ===== verification/Broker.thy ===== *)
theory Broker
  imports Prelude "HOL-Library.Sublist"
begin

text \<open>
  Publish and subscribe (\<open>pubsub/broker.go\<close>, \<open>pubsub/events.go\<close>): the broker of a table forwards the
  events of the database to its subscribers over buffered channels. A goroutine of the listener
  forwards one event at a time; subscribers come, go and receive in between, also while an event is
  being forwarded. The development shows that the channels are never misused and that a subscriber
  never misses an event without being told.
\<close>

section \<open>Channels\<close>

text \<open>A channel of Go with a buffer.\<close>

record 'a channel =
  cn_cap :: nat
  cn_buf :: "'a list"
  cn_closed :: bool

definition make_chan :: "nat \<Rightarrow> 'a channel" where
  "make_chan n = \<lparr>cn_cap = n, cn_buf = [], cn_closed = False\<rparr>"

text \<open>A send, or \<open>None\<close> when it would block.\<close>

definition chan_send :: "'a \<Rightarrow> 'a channel \<Rightarrow> 'a channel option result" where
  "chan_send v c =
     (if cn_closed c then Inl (Panic ''send on closed channel'')
      else if length (cn_buf c) < cn_cap c then Inr (Some (c\<lparr>cn_buf := cn_buf c @ [v]\<rparr>))
      else Inr None)"

definition chan_close :: "'a channel \<Rightarrow> 'a channel result" where
  "chan_close c = (if cn_closed c then Inl (Panic ''close of closed channel'') else Inr (c\<lparr>cn_closed := True\<rparr>))"

text \<open>A receive: \<open>None\<close> when it blocks, \<open>Some None\<close> when the channel is closed and drained.\<close>

fun chan_recv :: "'a channel \<Rightarrow> ('a option \<times> 'a channel) option" where
  "chan_recv c = (case cn_buf c of
      v # vs \<Rightarrow> Some (Some v, c\<lparr>cn_buf := vs\<rparr>)
    | [] \<Rightarrow> if cn_closed c then Some (None, c) else None)"

section \<open>Events\<close>

datatype PubsubType = CreatedEvent | UpdatedEvent | DeletedEvent

record 'a Event =
  evt_Type :: PubsubType
  evt_Payload :: 'a
  evt_Time :: gtime

text \<open>An event of the database: what was done to a row, and the row as JSON.\<close>

record SqlEvent =
  sql_Action :: string
  sql_Record :: string
  sql_Time :: gtime

section \<open>The broker\<close>

text \<open>
  A subscription is the index of its channel among the channels that were made; the keys of the map of
  subscriptions are a list without repetitions.
\<close>

record 'a broker =
  bk_enabled :: bool
  bk_subs :: "nat list"
  bk_chans :: "'a Event channel list"

definition NewBroker :: "'a broker" where
  "NewBroker = \<lparr>bk_enabled = True, bk_subs = [], bk_chans = []\<rparr>"

definition broker_Enable :: "'a broker \<Rightarrow> 'a broker" where
  "broker_Enable b = b\<lparr>bk_enabled := True\<rparr>"

definition unsubscribeWithoutLock :: "nat \<Rightarrow> 'a broker \<Rightarrow> 'a broker result" where
  "unsubscribeWithoutLock sub b =
     (if sub \<notin> set (bk_subs b) then Inr b
      else case chan_close (bk_chans b ! sub) of
             Inl e \<Rightarrow> Inl e
           | Inr c \<Rightarrow> Inr (b\<lparr>bk_chans := (bk_chans b)[sub := c], bk_subs := remove1 sub (bk_subs b)\<rparr>))"

fun unsubscribe_all :: "nat list \<Rightarrow> 'a broker \<Rightarrow> 'a broker result" where
  "unsubscribe_all [] b = Inr b"
| "unsubscribe_all (sub # subs) b =
     (case unsubscribeWithoutLock sub b of Inl e \<Rightarrow> Inl e | Inr b1 \<Rightarrow> unsubscribe_all subs b1)"

definition broker_Disable :: "'a broker \<Rightarrow> 'a broker result" where
  "broker_Disable b = unsubscribe_all (bk_subs b) (b\<lparr>bk_enabled := False\<rparr>)"

definition broker_Subscribe :: "nat \<Rightarrow> 'a broker \<Rightarrow> (nat \<times> 'a broker) result" where
  "broker_Subscribe subBufferSize b =
     (if \<not> bk_enabled b then Inl (Errorf ''event broker is disabled'')
      else let sub = length (bk_chans b) in
           Inr (sub, b\<lparr>bk_chans := bk_chans b @ [make_chan subBufferSize], bk_subs := sub # bk_subs b\<rparr>))"

text \<open>The event to forward, or \<open>None\<close> when the record or the action cannot be read.\<close>

definition event_of :: "(string \<Rightarrow> 'a option) \<Rightarrow> SqlEvent \<Rightarrow> 'a Event option" where
  "event_of unmarshal e =
     (case unmarshal (sql_Record e) of
        None \<Rightarrow> None
      | Some p \<Rightarrow>
          if sql_Action e = ''INSERT'' then Some \<lparr>evt_Type = CreatedEvent, evt_Payload = p, evt_Time = sql_Time e\<rparr>
          else if sql_Action e = ''UPDATE'' then Some \<lparr>evt_Type = UpdatedEvent, evt_Payload = p, evt_Time = sql_Time e\<rparr>
          else if sql_Action e = ''DELETE'' then Some \<lparr>evt_Type = DeletedEvent, evt_Payload = p, evt_Time = sql_Time e\<rparr>
          else None)"

text \<open>One round of the loop over the subscriptions; a full subscription is remembered.\<close>

definition forward_one :: "'a Event \<Rightarrow> nat \<Rightarrow> 'a broker \<times> nat list \<Rightarrow> ('a broker \<times> nat list) result" where
  "forward_one ev sub = (\<lambda>(b, full).
     case chan_send ev (bk_chans b ! sub) of
       Inl e \<Rightarrow> Inl e
     | Inr (Some c) \<Rightarrow> Inr (b\<lparr>bk_chans := (bk_chans b)[sub := c]\<rparr>, full)
     | Inr None \<Rightarrow> Inr (b, full @ [sub]))"

fun forward_loop :: "'a Event \<Rightarrow> nat list \<Rightarrow> 'a broker \<times> nat list \<Rightarrow> ('a broker \<times> nat list) result" where
  "forward_loop ev [] s = Inr s"
| "forward_loop ev (sub # subs) s = (case forward_one ev sub s of Inl e \<Rightarrow> Inl e | Inr s1 \<Rightarrow> forward_loop ev subs s1)"

text \<open>The map of subscriptions is visited in the order \<open>order\<close>.\<close>

definition Forward :: "(string \<Rightarrow> 'a option) \<Rightarrow> nat list \<Rightarrow> SqlEvent \<Rightarrow> 'a broker \<Rightarrow> 'a broker result" where
  "Forward unmarshal order e b =
     (case event_of unmarshal e of
        None \<Rightarrow> Inr b
      | Some ev \<Rightarrow>
          (case forward_loop ev order (b, []) of Inl err \<Rightarrow> Inl err | Inr (b1, full) \<Rightarrow> unsubscribe_all full b1))"

section \<open>The broker and its subscribers as a system\<close>

text \<open>
  Where the goroutine of the listener is: idle, in the loop over the subscriptions with the lock held,
  or taking the lock once for each full subscription.
\<close>

datatype 'a forwarder = Idle | Sending "'a Event" "nat list" "nat list" | Dropping "nat list"

text \<open>
  Beside the broker, what an observer knows: the events that were forwarded, how many of them preceded
  each subscription, and what each subscriber has received.
\<close>

record 'a broker_sys =
  bs_broker :: "'a broker"
  bs_forwarder :: "'a forwarder"
  bs_log :: "'a Event list"
  bs_start :: "nat \<Rightarrow> nat"
  bs_received :: "nat \<Rightarrow> 'a Event list"

definition lock_free :: "'a broker_sys \<Rightarrow> bool" where
  "lock_free s = (case bs_forwarder s of Sending _ _ _ \<Rightarrow> False | _ \<Rightarrow> True)"

inductive broker_step :: "nat \<Rightarrow> 'a broker_sys \<Rightarrow> 'a broker_sys \<Rightarrow> bool" for cap where
  Subscribes: "lock_free s \<Longrightarrow> broker_Subscribe cap (bs_broker s) = Inr (sub, b) \<Longrightarrow>
    broker_step cap s (s\<lparr>bs_broker := b, bs_start := (bs_start s)(sub := length (bs_log s))\<rparr>)"
| Unsubscribes: "lock_free s \<Longrightarrow> unsubscribeWithoutLock sub (bs_broker s) = Inr b \<Longrightarrow>
    broker_step cap s (s\<lparr>bs_broker := b\<rparr>)"
| Enables: "bs_forwarder s = Idle \<Longrightarrow> broker_step cap s (s\<lparr>bs_broker := broker_Enable (bs_broker s)\<rparr>)"
| Disables: "bs_forwarder s = Idle \<Longrightarrow> broker_Disable (bs_broker s) = Inr b \<Longrightarrow> broker_step cap s (s\<lparr>bs_broker := b\<rparr>)"
| Receives: "sub < length (bk_chans (bs_broker s)) \<Longrightarrow>
    chan_recv (bk_chans (bs_broker s) ! sub) = Some (Some v, c) \<Longrightarrow>
    broker_step cap s (s\<lparr>bs_broker := (bs_broker s)\<lparr>bk_chans := (bk_chans (bs_broker s))[sub := c]\<rparr>,
                          bs_received := (bs_received s)(sub := bs_received s sub @ [v])\<rparr>)"
| Begins: "bs_forwarder s = Idle \<Longrightarrow> distinct order \<Longrightarrow> set order = set (bk_subs (bs_broker s)) \<Longrightarrow>
    broker_step cap s (s\<lparr>bs_forwarder := Sending ev order [], bs_log := bs_log s @ [ev]\<rparr>)"
| Sends: "bs_forwarder s = Sending ev (sub # subs) full \<Longrightarrow> forward_one ev sub (bs_broker s, full) = Inr (b, full') \<Longrightarrow>
    broker_step cap s (s\<lparr>bs_broker := b, bs_forwarder := Sending ev subs full'\<rparr>)"
| Unlocks: "bs_forwarder s = Sending ev [] full \<Longrightarrow> broker_step cap s (s\<lparr>bs_forwarder := Dropping full\<rparr>)"
| Drops: "bs_forwarder s = Dropping (sub # full) \<Longrightarrow> unsubscribeWithoutLock sub (bs_broker s) = Inr b \<Longrightarrow>
    broker_step cap s (s\<lparr>bs_broker := b, bs_forwarder := Dropping full\<rparr>)"
| Ends: "bs_forwarder s = Dropping [] \<Longrightarrow> broker_step cap s (s\<lparr>bs_forwarder := Idle\<rparr>)"

definition broker_init :: "'a broker_sys" where
  "broker_init = \<lparr>bs_broker = NewBroker, bs_forwarder = Idle, bs_log = [], bs_start = (\<lambda>_. 0), bs_received = (\<lambda>_. [])\<rparr>"

inductive reachable_broker :: "nat \<Rightarrow> 'a broker_sys \<Rightarrow> bool" for cap where
  init: "reachable_broker cap broker_init"
| step: "reachable_broker cap s \<Longrightarrow> broker_step cap s s' \<Longrightarrow> reachable_broker cap s'"

section \<open>Invariants\<close>

text \<open>The map of subscriptions holds exactly the open channels.\<close>

definition broker_wf :: "nat \<Rightarrow> 'a broker \<Rightarrow> bool" where
  "broker_wf cap b \<longleftrightarrow> distinct (bk_subs b) \<and> set (bk_subs b) \<subseteq> {..<length (bk_chans b)} \<and>
     (\<forall>sub < length (bk_chans b). let c = bk_chans b ! sub in
        cn_cap c = cap \<and> length (cn_buf c) \<le> cap \<and> (cn_closed c \<longleftrightarrow> sub \<notin> set (bk_subs b)))"

lemma broker_wfD:
  assumes "broker_wf cap b" "sub < length (bk_chans b)"
  shows "cn_cap (bk_chans b ! sub) = cap" "length (cn_buf (bk_chans b ! sub)) \<le> cap"
    "cn_closed (bk_chans b ! sub) \<longleftrightarrow> sub \<notin> set (bk_subs b)"
  using assms by (auto simp: broker_wf_def Let_def)

lemma broker_wf_bound: "broker_wf cap b \<Longrightarrow> sub \<in> set (bk_subs b) \<Longrightarrow> sub < length (bk_chans b)"
  by (auto simp: broker_wf_def)

lemma unsubscribe_wf:
  assumes "broker_wf cap b"
  obtains b' where "unsubscribeWithoutLock sub b = Inr b'" "broker_wf cap b'"
    "bk_subs b' = remove1 sub (bk_subs b)" "length (bk_chans b') = length (bk_chans b)"
    "map cn_buf (bk_chans b') = map cn_buf (bk_chans b)" "bk_enabled b' = bk_enabled b"
proof (cases "sub \<in> set (bk_subs b)")
  case False
  then show thesis using assms that [of b] by (simp add: unsubscribeWithoutLock_def remove1_idem)
next
  case True
  have dist: "distinct (bk_subs b)" and lt: "sub < length (bk_chans b)"
    using assms True by (auto simp: broker_wf_def)
  let ?b = "b\<lparr>bk_chans := (bk_chans b)[sub := (bk_chans b ! sub)\<lparr>cn_closed := True\<rparr>], bk_subs := remove1 sub (bk_subs b)\<rparr>"
  have bufs: "map cn_buf (bk_chans ?b) = map cn_buf (bk_chans b)"
    by (rule nth_equalityI) (use lt in \<open>auto simp: nth_list_update\<close>)
  have wf: "broker_wf cap ?b" using assms dist lt by (auto simp: broker_wf_def Let_def nth_list_update)
  show thesis
    by (rule that [of ?b]) (use bufs wf True broker_wfD(3) [OF assms lt] in \<open>auto simp: unsubscribeWithoutLock_def chan_close_def\<close>)
qed

lemma unsubscribe_all_wf:
  assumes "broker_wf cap b"
  obtains b' where "unsubscribe_all subs b = Inr b'" "broker_wf cap b'"
    "set (bk_subs b') = set (bk_subs b) - set subs" "length (bk_chans b') = length (bk_chans b)"
    "map cn_buf (bk_chans b') = map cn_buf (bk_chans b)" "bk_enabled b' = bk_enabled b"
  using assms
proof (induction subs arbitrary: b thesis)
  case Nil
  then show thesis by simp
next
  case (Cons sub subs)
  obtain b1 where b1: "unsubscribeWithoutLock sub b = Inr b1" "broker_wf cap b1" "bk_subs b1 = remove1 sub (bk_subs b)"
    "length (bk_chans b1) = length (bk_chans b)" "map cn_buf (bk_chans b1) = map cn_buf (bk_chans b)" "bk_enabled b1 = bk_enabled b"
    by (rule unsubscribe_wf [OF Cons.prems(2)])
  obtain b2 where b2: "unsubscribe_all subs b1 = Inr b2" "broker_wf cap b2" "set (bk_subs b2) = set (bk_subs b1) - set subs"
    "length (bk_chans b2) = length (bk_chans b1)" "map cn_buf (bk_chans b2) = map cn_buf (bk_chans b1)" "bk_enabled b2 = bk_enabled b1"
    using Cons.IH [OF _ b1(2)] by blast
  have "distinct (bk_subs b)" using Cons.prems(2) by (simp add: broker_wf_def)
  then have "set (bk_subs b1) = set (bk_subs b) - {sub}" using b1(3) by simp
  then show thesis using Cons.prems(1) [of b2] b1 b2 by auto
qed

lemma forward_one_wf:
  assumes "broker_wf cap b" "sub \<in> set (bk_subs b)"
  shows "forward_one ev sub (b, full) =
      (if length (cn_buf (bk_chans b ! sub)) < cap
       then Inr (b\<lparr>bk_chans := (bk_chans b)[sub := (bk_chans b ! sub)\<lparr>cn_buf := cn_buf (bk_chans b ! sub) @ [ev]\<rparr>]\<rparr>, full)
       else Inr (b, full @ [sub]))"
    and "forward_one ev sub (b, full) = Inr (b', full') \<Longrightarrow> broker_wf cap b' \<and> bk_subs b' = bk_subs b \<and>
      length (bk_chans b') = length (bk_chans b)"
proof -
  note lt = broker_wf_bound [OF assms]
  note wf = broker_wfD [OF assms(1) lt]
  show eq: "forward_one ev sub (b, full) =
      (if length (cn_buf (bk_chans b ! sub)) < cap
       then Inr (b\<lparr>bk_chans := (bk_chans b)[sub := (bk_chans b ! sub)\<lparr>cn_buf := cn_buf (bk_chans b ! sub) @ [ev]\<rparr>]\<rparr>, full)
       else Inr (b, full @ [sub]))"
    using wf assms(2) by (simp add: forward_one_def chan_send_def)
  show "forward_one ev sub (b, full) = Inr (b', full') \<Longrightarrow> broker_wf cap b' \<and> bk_subs b' = bk_subs b \<and>
      length (bk_chans b') = length (bk_chans b)"
    using eq wf assms lt by (auto simp: broker_wf_def Let_def nth_list_update split: if_splits)
qed


text \<open>
  What a subscriber has received or finds in its buffer, against what was forwarded since it
  subscribed. Only the subscribers that the forwarder has yet to visit, and those it found full and has
  yet to drop, lack the event under way.
\<close>

fun pending :: "'a forwarder \<Rightarrow> nat set" where
  "pending Idle = {}"
| "pending (Sending ev todo full) = set todo \<union> set full"
| "pending (Dropping full) = set full"

definition delivered :: "'a broker_sys \<Rightarrow> nat \<Rightarrow> 'a Event list" where
  "delivered s sub = bs_received s sub @ cn_buf (bk_chans (bs_broker s) ! sub)"

definition due :: "'a broker_sys \<Rightarrow> nat \<Rightarrow> 'a Event list" where
  "due s sub = drop (bs_start s sub) (bs_log s)"

definition tracked :: "'a broker_sys \<Rightarrow> nat \<Rightarrow> bool" where
  "tracked s sub \<longleftrightarrow> bs_start s sub \<le> length (bs_log s) \<and>
     (if sub \<in> set (bk_subs (bs_broker s))
      then if sub \<in> pending (bs_forwarder s) then due s sub \<noteq> [] \<and> delivered s sub = butlast (due s sub)
           else delivered s sub = due s sub
      else prefix (delivered s sub) (due s sub))"

fun forwarder_ok :: "'a broker_sys \<Rightarrow> 'a forwarder \<Rightarrow> bool" where
  "forwarder_ok s (Sending ev todo full) \<longleftrightarrow> distinct (todo @ full) \<and>
     set (todo @ full) \<subseteq> set (bk_subs (bs_broker s)) \<and> bs_log s \<noteq> [] \<and> last (bs_log s) = ev"
| "forwarder_ok s _ \<longleftrightarrow> True"

definition broker_inv :: "nat \<Rightarrow> 'a broker_sys \<Rightarrow> bool" where
  "broker_inv cap s \<longleftrightarrow> broker_wf cap (bs_broker s) \<and> forwarder_ok s (bs_forwarder s) \<and>
     pending (bs_forwarder s) \<subseteq> {..<length (bk_chans (bs_broker s))} \<and>
     (\<forall>sub < length (bk_chans (bs_broker s)). tracked s sub) \<and>
     (\<forall>sub \<ge> length (bk_chans (bs_broker s)). bs_received s sub = [])"

lemma broker_invI:
  "broker_wf cap (bs_broker s) \<Longrightarrow> forwarder_ok s (bs_forwarder s) \<Longrightarrow>
     pending (bs_forwarder s) \<subseteq> {..<length (bk_chans (bs_broker s))} \<Longrightarrow>
     (\<And>sub. sub < length (bk_chans (bs_broker s)) \<Longrightarrow> tracked s sub) \<Longrightarrow>
     (\<And>sub. length (bk_chans (bs_broker s)) \<le> sub \<Longrightarrow> bs_received s sub = []) \<Longrightarrow> broker_inv cap s"
  by (simp add: broker_inv_def)

lemma lock_free_forwarder_ok: "lock_free s \<Longrightarrow> forwarder_ok s' (bs_forwarder s)"
  by (cases "bs_forwarder s") (auto simp: lock_free_def)

text \<open>Ending subscriptions keeps the account of every subscriber.\<close>

lemma tracked_unsubscribed:
  assumes "tracked s sub" "set (bk_subs b) \<subseteq> set (bk_subs (bs_broker s))"
    "map cn_buf (bk_chans b) = map cn_buf (bk_chans (bs_broker s))" "sub < length (bk_chans b)"
    "pending f = pending (bs_forwarder s) \<or> pending (bs_forwarder s) - pending f \<subseteq> - set (bk_subs b) \<and> pending f \<subseteq> pending (bs_forwarder s)"
  shows "tracked (s\<lparr>bs_broker := b, bs_forwarder := f\<rparr>) sub"
proof -
  have len: "length (bk_chans b) = length (bk_chans (bs_broker s))" using assms(3) by (rule map_eq_imp_length_eq)
  have "cn_buf (bk_chans b ! sub) = cn_buf (bk_chans (bs_broker s) ! sub)"
    using assms(3,4) len by (metis nth_map)
  then have "delivered (s\<lparr>bs_broker := b, bs_forwarder := f\<rparr>) sub = delivered s sub" by (simp add: delivered_def)
  moreover have "prefix (butlast xs) xs" for xs :: "'a Event list" by (rule prefixeq_butlast)
  ultimately show ?thesis using assms(1,2,5) by (auto simp: tracked_def due_def split: if_splits)
qed

lemma tracked_ends:
  assumes "broker_inv cap s" "broker_wf cap b" "set (bk_subs b) \<subseteq> set (bk_subs (bs_broker s))"
    "map cn_buf (bk_chans b) = map cn_buf (bk_chans (bs_broker s))" "forwarder_ok (s\<lparr>bs_broker := b\<rparr>) f"
    "pending f \<subseteq> pending (bs_forwarder s)" "pending (bs_forwarder s) - pending f \<subseteq> - set (bk_subs b)"
  shows "broker_inv cap (s\<lparr>bs_broker := b, bs_forwarder := f\<rparr>)"
proof (rule broker_invI)
  note len = map_eq_imp_length_eq [OF assms(4)]
  show "bs_received (s\<lparr>bs_broker := b, bs_forwarder := f\<rparr>) sub = []"
    if "length (bk_chans (bs_broker (s\<lparr>bs_broker := b, bs_forwarder := f\<rparr>))) \<le> sub" for sub
    using that assms(1) len by (simp add: broker_inv_def)
  show "pending (bs_forwarder (s\<lparr>bs_broker := b, bs_forwarder := f\<rparr>)) \<subseteq>
      {..<length (bk_chans (bs_broker (s\<lparr>bs_broker := b, bs_forwarder := f\<rparr>)))}"
    using assms(1,6) len by (auto simp: broker_inv_def)
  show "tracked (s\<lparr>bs_broker := b, bs_forwarder := f\<rparr>) sub"
    if "sub < length (bk_chans (bs_broker (s\<lparr>bs_broker := b, bs_forwarder := f\<rparr>)))" for sub
    by (rule tracked_unsubscribed) (use that assms len in \<open>auto simp: broker_inv_def\<close>)
  show "forwarder_ok (s\<lparr>bs_broker := b, bs_forwarder := f\<rparr>) (bs_forwarder (s\<lparr>bs_broker := b, bs_forwarder := f\<rparr>))"
    using assms(5) by (cases f) auto
qed (use assms in simp)

lemma same_parts:
  "bs_forwarder s = f \<Longrightarrow> s\<lparr>bs_broker := b, bs_forwarder := f\<rparr> = s\<lparr>bs_broker := b\<rparr>"
  "s\<lparr>bs_broker := bs_broker s, bs_forwarder := f\<rparr> = s\<lparr>bs_forwarder := f\<rparr>"
  by (cases s; auto)+

lemma broker_step_inv:
  assumes "broker_step cap s s'" "broker_inv cap s"
  shows "broker_inv cap s'"
proof -
  let ?b = "bs_broker s"
  have wf: "broker_wf cap ?b" and fw: "forwarder_ok s (bs_forwarder s)"
    and tr: "\<And>sub. sub < length (bk_chans ?b) \<Longrightarrow> tracked s sub"
    and pend: "pending (bs_forwarder s) \<subseteq> {..<length (bk_chans ?b)}"
    and new: "\<And>sub. length (bk_chans ?b) \<le> sub \<Longrightarrow> bs_received s sub = []"
    using assms(2) by (auto simp: broker_inv_def)
  note bound = broker_wf_bound [OF wf]
  from assms(1) show ?thesis
  proof (cases rule: broker_step.cases)
    case (Subscribes sub b)
    have b: "sub = length (bk_chans ?b)"
      "b = ?b\<lparr>bk_chans := bk_chans ?b @ [make_chan cap], bk_subs := sub # bk_subs ?b\<rparr>"
      using Subscribes(3) by (auto simp: broker_Subscribe_def Let_def split: if_splits)
    have "broker_wf cap b" using wf b by (auto simp: broker_wf_def Let_def nth_append make_chan_def less_Suc_eq)
    moreover have "tracked s' i" if "i < Suc sub" for i
      using tr [of i] that new [of i] Subscribes(1) b bound pend
      by (auto simp: tracked_def due_def delivered_def nth_append make_chan_def less_Suc_eq)
    ultimately show ?thesis
      using Subscribes(1,2) b new pend lock_free_forwarder_ok [OF Subscribes(2)] by (auto intro!: broker_invI)
  next
    case (Unsubscribes sub b)
    obtain b' where "unsubscribeWithoutLock sub ?b = Inr b'" "broker_wf cap b'" "bk_subs b' = remove1 sub (bk_subs ?b)"
      "map cn_buf (bk_chans b') = map cn_buf (bk_chans ?b)" by (rule unsubscribe_wf [OF wf])
    then show ?thesis
      using tracked_ends [OF assms(2), of b' "bs_forwarder s"] Unsubscribes lock_free_forwarder_ok [OF Unsubscribes(2)] set_remove1_subset
      by (fastforce simp: same_parts)
  next
    case Enables
    have "broker_wf cap (broker_Enable ?b)" using wf by (simp add: broker_wf_def broker_Enable_def)
    with Enables show ?thesis using tracked_ends [OF assms(2), of "broker_Enable ?b" Idle] by (simp add: broker_Enable_def same_parts)
  next
    case (Disables b)
    have "broker_wf cap (?b\<lparr>bk_enabled := False\<rparr>)" using wf by (simp add: broker_wf_def)
    then obtain b' where "unsubscribe_all (bk_subs ?b) (?b\<lparr>bk_enabled := False\<rparr>) = Inr b'" "broker_wf cap b'"
      "set (bk_subs b') = set (bk_subs (?b\<lparr>bk_enabled := False\<rparr>)) - set (bk_subs ?b)"
      "map cn_buf (bk_chans b') = map cn_buf (bk_chans (?b\<lparr>bk_enabled := False\<rparr>))" by (rule unsubscribe_all_wf)
    then show ?thesis using tracked_ends [OF assms(2), of b' Idle] Disables by (simp add: broker_Disable_def same_parts)
  next
    case (Receives sub v c)
    from Receives(3) have buf: "cn_buf (bk_chans ?b ! sub) = v # cn_buf c" "cn_cap c = cn_cap (bk_chans ?b ! sub)"
      "cn_closed c = cn_closed (bk_chans ?b ! sub)" by (auto split: list.splits if_splits)
    have "broker_wf cap (bs_broker s')"
      using wf Receives(1,2) buf broker_wfD(2) [OF wf Receives(2)] by (auto simp: broker_wf_def Let_def nth_list_update)
    moreover have "tracked s' i" if "i < length (bk_chans ?b)" for i
      using tr [OF that] Receives(1,2) buf by (auto simp: tracked_def due_def delivered_def nth_list_update)
    moreover have "forwarder_ok s' (bs_forwarder s')" using fw Receives(1) by (cases "bs_forwarder s") auto
    ultimately show ?thesis using Receives(1,2) new pend by (auto intro!: broker_invI)
  next
    case (Begins order ev)
    have "tracked s' i" if "i < length (bk_chans ?b)" for i
      using tr [OF that] Begins by (auto simp: tracked_def due_def delivered_def intro: prefix_append)
    then show ?thesis using Begins wf new bound by (auto intro!: broker_invI)
  next
    case (Sends ev sub subs full b full')
    have todo: "sub \<in> set (bk_subs ?b)" "sub \<notin> set subs" "sub \<notin> set full" using fw Sends(2) by auto
    note one = forward_one_wf [OF wf todo(1)]
    note b = one(2) [OF Sends(3)]
    have last: "due s sub \<noteq> []" "last (due s sub) = ev" "delivered s sub = butlast (due s sub)"
      using tr [OF bound [OF todo(1)]] todo fw Sends(2) by (auto simp: tracked_def due_def)
    have full_due: "bs_received s sub @ cn_buf (bk_chans ?b ! sub) @ [ev] = due s sub"
      using append_butlast_last_id [OF last(1)] last(2,3) by (metis append.assoc delivered_def)
    have "tracked s' i" if "i < length (bk_chans ?b)" for i
      using tr [OF that] that todo Sends(1,2) Sends(3) [unfolded one(1)] last full_due bound [OF todo(1)]
      by (cases "i = sub") (auto simp: tracked_def due_def delivered_def nth_list_update split: if_splits)
    moreover have "set subs \<union> set full' \<subseteq> set (bk_subs ?b)" "distinct (subs @ full')"
      using Sends(2,3) [unfolded one(1)] fw todo by (auto split: if_splits)
    ultimately show ?thesis
      using Sends(1,2) fw b new bound by (intro broker_invI) (auto simp: subset_iff)
  next
    case (Unlocks ev full)
    then show ?thesis using tracked_ends [OF assms(2) wf, of "Dropping full"] by (simp add: same_parts)
  next
    case (Drops sub full b)
    obtain b' where b': "unsubscribeWithoutLock sub ?b = Inr b'" "broker_wf cap b'" "bk_subs b' = remove1 sub (bk_subs ?b)"
      "map cn_buf (bk_chans b') = map cn_buf (bk_chans ?b)" by (rule unsubscribe_wf [OF wf])
    have "distinct (bk_subs ?b)" using wf by (simp add: broker_wf_def)
    then show ?thesis using tracked_ends [OF assms(2), of b' "Dropping full"] Drops b' by auto
  next
    case Ends
    then show ?thesis using tracked_ends [OF assms(2) wf, of Idle] by (simp add: same_parts)
  qed
qed

lemma reachable_broker_inv: "reachable_broker cap s \<Longrightarrow> broker_inv cap s"
proof (induction rule: reachable_broker.induct)
  case init
  show ?case by (simp add: broker_inv_def broker_init_def broker_wf_def NewBroker_def)
qed (rule broker_step_inv)

section \<open>What forwarding does\<close>

text \<open>
  The reference: every subscriber with room gets the event, every other one is closed and forgotten.
\<close>

definition forwarded :: "nat \<Rightarrow> 'a Event \<Rightarrow> 'a broker \<Rightarrow> 'a Event channel list" where
  "forwarded cap ev b = map (\<lambda>sub. let c = bk_chans b ! sub in
     if sub \<notin> set (bk_subs b) then c
     else if length (cn_buf c) < cap then c\<lparr>cn_buf := cn_buf c @ [ev]\<rparr> else c\<lparr>cn_closed := True\<rparr>) [0..<length (bk_chans b)]"

lemma forward_loop_wf:
  assumes "broker_wf cap b" "distinct order" "set order \<subseteq> set (bk_subs b)"
  shows "\<exists>b'. forward_loop ev order (b, full) =
      Inr (b', full @ filter (\<lambda>sub. \<not> length (cn_buf (bk_chans b ! sub)) < cap) order) \<and>
    broker_wf cap b' \<and> bk_subs b' = bk_subs b \<and> length (bk_chans b') = length (bk_chans b) \<and> bk_enabled b' = bk_enabled b \<and>
    (\<forall>sub < length (bk_chans b). bk_chans b' ! sub = (let c = bk_chans b ! sub in
        if sub \<in> set order \<and> length (cn_buf c) < cap then c\<lparr>cn_buf := cn_buf c @ [ev]\<rparr> else c))"
  using assms
proof (induction order arbitrary: b full)
  case (Cons sub order)
  have sub: "sub \<in> set (bk_subs b)" using Cons.prems by simp
  note one = forward_one_wf [OF Cons.prems(1) sub]
  show ?case
  proof (cases "length (cn_buf (bk_chans b ! sub)) < cap")
    case True
    let ?b = "b\<lparr>bk_chans := (bk_chans b)[sub := (bk_chans b ! sub)\<lparr>cn_buf := cn_buf (bk_chans b ! sub) @ [ev]\<rparr>]\<rparr>"
    have f: "forward_one ev sub (b, full) = Inr (?b, full)" using one(1) True by simp
    have wf: "broker_wf cap ?b" using one(2) [OF f] by simp
    have ne: "bk_chans ?b ! i = bk_chans b ! i" if "i \<in> set order" for i
      using that Cons.prems(2) by (cases "i = sub") auto
    have same: "filter (\<lambda>i. \<not> length (cn_buf (bk_chans ?b ! i)) < cap) order = filter (\<lambda>i. \<not> length (cn_buf (bk_chans b ! i)) < cap) order"
      using ne by (intro filter_cong) simp_all
    from Cons.IH [OF wf, of full] Cons.prems obtain b' where b': "forward_loop ev order (?b, full) =
        Inr (b', full @ filter (\<lambda>i. \<not> length (cn_buf (bk_chans b ! i)) < cap) order)" "broker_wf cap b'" "bk_subs b' = bk_subs b"
      "length (bk_chans b') = length (bk_chans b)" "bk_enabled b' = bk_enabled b"
      "\<forall>i < length (bk_chans b). bk_chans b' ! i = (let c = bk_chans ?b ! i in
          if i \<in> set order \<and> length (cn_buf c) < cap then c\<lparr>cn_buf := cn_buf c @ [ev]\<rparr> else c)"
      unfolding same by auto
    have "\<forall>i < length (bk_chans b). bk_chans b' ! i = (let c = bk_chans b ! i in
          if i \<in> set (sub # order) \<and> length (cn_buf c) < cap then c\<lparr>cn_buf := cn_buf c @ [ev]\<rparr> else c)"
    proof (intro allI impI)
      fix i
      assume i: "i < length (bk_chans b)"
      show "bk_chans b' ! i = (let c = bk_chans b ! i in
          if i \<in> set (sub # order) \<and> length (cn_buf c) < cap then c\<lparr>cn_buf := cn_buf c @ [ev]\<rparr> else c)"
        using b'(6) [rule_format, OF i] True Cons.prems(2) i by (cases "i = sub") (simp_all add: Let_def)
    qed
    with b' f True show ?thesis by auto
  next
    case False
    then have f: "forward_one ev sub (b, full) = Inr (b, full @ [sub])" using one(1) by simp
    from Cons.IH [OF Cons.prems(1), of "full @ [sub]"] Cons.prems obtain b' where b': "forward_loop ev order (b, full @ [sub]) =
        Inr (b', (full @ [sub]) @ filter (\<lambda>i. \<not> length (cn_buf (bk_chans b ! i)) < cap) order)" "broker_wf cap b'" "bk_subs b' = bk_subs b"
      "length (bk_chans b') = length (bk_chans b)" "bk_enabled b' = bk_enabled b"
      "\<forall>i < length (bk_chans b). bk_chans b' ! i = (let c = bk_chans b ! i in
          if i \<in> set order \<and> length (cn_buf c) < cap then c\<lparr>cn_buf := cn_buf c @ [ev]\<rparr> else c)"
      by auto
    with f False show ?thesis by (auto simp: Let_def)
  qed
qed (auto simp: Let_def)


text \<open>
  Forwarding an event, in whatever order the subscriptions are visited, equals the reference: it
  is appended to every open channel with room, and every full channel is closed and forgotten.
\<close>

theorem Forward_spec:
  assumes "broker_wf cap b" "distinct order" "set order = set (bk_subs b)" "event_of unmarshal e = Some ev"
  shows "\<exists>b'. Forward unmarshal order e b = Inr b' \<and> bk_chans b' = forwarded cap ev b \<and>
    set (bk_subs b') = set (filter (\<lambda>sub. length (cn_buf (bk_chans b ! sub)) < cap) (bk_subs b)) \<and>
    bk_enabled b' = bk_enabled b"
proof -
  let ?full = "filter (\<lambda>sub. \<not> length (cn_buf (bk_chans b ! sub)) < cap) order"
  obtain b1 where b1: "forward_loop ev order (b, []) = Inr (b1, ?full)" "broker_wf cap b1" "bk_subs b1 = bk_subs b"
    "length (bk_chans b1) = length (bk_chans b)" "bk_enabled b1 = bk_enabled b"
    "\<forall>sub < length (bk_chans b). bk_chans b1 ! sub = (let c = bk_chans b ! sub in
        if sub \<in> set order \<and> length (cn_buf c) < cap then c\<lparr>cn_buf := cn_buf c @ [ev]\<rparr> else c)"
    using forward_loop_wf [OF assms(1,2), of ev "[]"] assms(3) by auto
  obtain b2 where b2: "unsubscribe_all ?full b1 = Inr b2" "broker_wf cap b2" "set (bk_subs b2) = set (bk_subs b1) - set ?full"
    "length (bk_chans b2) = length (bk_chans b1)" "map cn_buf (bk_chans b2) = map cn_buf (bk_chans b1)" "bk_enabled b2 = bk_enabled b1"
    by (rule unsubscribe_all_wf [OF b1(2)])
  have "bk_chans b2 = forwarded cap ev b"
  proof (rule nth_equalityI)
    fix i
    assume i: "i < length (bk_chans b2)"
    then have lt: "i < length (bk_chans b)" "i < length (bk_chans b1)" using b2(4) b1(4) by simp_all
    have buf: "cn_buf (bk_chans b2 ! i) = cn_buf (bk_chans b1 ! i)" using b2(5) i lt(2) by (metis nth_map)
    show "bk_chans b2 ! i = forwarded cap ev b ! i"
      using buf b1(3) b1(6) [rule_format, OF lt(1)] b2(3) lt(1) assms(3)
        broker_wfD [OF b2(2) i] broker_wfD [OF assms(1) lt(1)] broker_wfD [OF b1(2) lt(2)]
      by (intro channel.equality) (auto simp: forwarded_def Let_def split: if_splits)
  qed (simp add: forwarded_def b1(4) b2(4))
  then show ?thesis using assms(3,4) b1 b2 by (auto simp: Forward_def)
qed

theorem Forward_spec_witness:
  "\<exists>b'. Forward Some [1, 0] \<lparr>sql_Action = ''UPDATE'', sql_Record = ''r'', sql_Time = 3\<rparr>
      \<lparr>bk_enabled = True, bk_subs = [0, 1], bk_chans = [\<lparr>cn_cap = 1, cn_buf = [\<lparr>evt_Type = CreatedEvent, evt_Payload = ''q'', evt_Time = 2\<rparr>], cn_closed = False\<rparr>,
         make_chan 1]\<rparr> = Inr b' \<and> set (bk_subs b') = {1}"
proof -
  let ?old = "\<lparr>evt_Type = CreatedEvent, evt_Payload = ''q'', evt_Time = 2 :: gtime\<rparr>"
  let ?b = "\<lparr>bk_enabled = True, bk_subs = [0, 1], bk_chans = [\<lparr>cn_cap = 1, cn_buf = [?old], cn_closed = False\<rparr>, make_chan 1]\<rparr>"
  have "broker_wf 1 ?b" by (auto simp: broker_wf_def make_chan_def less_Suc_eq)
  from Forward_spec [OF this, of "[1, 0]" Some "\<lparr>sql_Action = ''UPDATE'', sql_Record = ''r'', sql_Time = 3\<rparr>"
      "\<lparr>evt_Type = UpdatedEvent, evt_Payload = ''r'', evt_Time = 3\<rparr>"]
  show ?thesis by (auto simp: event_of_def make_chan_def)
qed

section \<open>What subscribers see\<close>

text \<open>No goroutine ever sends on a closed channel or closes one twice.\<close>

lemma broker_never_panics:
  assumes "reachable_broker cap s"
  shows "is_ok (unsubscribeWithoutLock sub (bs_broker s))" "is_ok (broker_Disable (bs_broker s))"
    "bs_forwarder s = Sending ev (i # todo) full \<Longrightarrow> is_ok (forward_one ev i (bs_broker s, full))"
proof -
  have inv: "broker_wf cap (bs_broker s)" "forwarder_ok s (bs_forwarder s)"
    using reachable_broker_inv [OF assms] by (simp_all add: broker_inv_def)
  show "is_ok (unsubscribeWithoutLock sub (bs_broker s))" by (rule unsubscribe_wf [OF inv(1), of sub]) simp
  have "broker_wf cap ((bs_broker s)\<lparr>bk_enabled := False\<rparr>)" using inv(1) by (simp add: broker_wf_def)
  then show "is_ok (broker_Disable (bs_broker s))" unfolding broker_Disable_def by (rule unsubscribe_all_wf [where subs = "bk_subs (bs_broker s)"]) simp
  show "bs_forwarder s = Sending ev (i # todo) full \<Longrightarrow> is_ok (forward_one ev i (bs_broker s, full))"
    using forward_one_wf(1) [OF inv(1), of i ev full] inv(2) by simp
qed

text \<open>
  C10: A subscriber never misses an event without being told. However subscriptions, cancelations,
  receives and the forwarding of events interleave, what a subscriber has received and finds in its
  channel is a prefix of the events forwarded since it subscribed, and all of them as long as its
  channel is open and no event is being forwarded; the buffer stays within its capacity.
\<close>

theorem broker_no_gaps:
  assumes "reachable_broker cap s" "sub < length (bk_chans (bs_broker s))"
  shows "let c = bk_chans (bs_broker s) ! sub; got = bs_received s sub @ cn_buf c; due = drop (bs_start s sub) (bs_log s) in
    prefix got due \<and> length (cn_buf c) \<le> cap \<and> (cn_closed c \<or> bs_forwarder s \<noteq> Idle \<or> got = due)"
proof -
  have inv: "broker_wf cap (bs_broker s)" "tracked s sub"
    using reachable_broker_inv [OF assms(1)] assms(2) by (simp_all add: broker_inv_def)
  have "prefix (butlast (due s sub)) (due s sub)" by (rule prefixeq_butlast)
  then show ?thesis
    using inv(2) broker_wfD(2,3) [OF inv(1) assms(2)]
    by (auto simp: Let_def tracked_def due_def delivered_def split: if_splits)
qed

definition demo_event :: "nat Event" where
  "demo_event = \<lparr>evt_Type = UpdatedEvent, evt_Payload = 5, evt_Time = 0\<rparr>"

theorem broker_no_gaps_witness:
  "\<exists>s :: nat broker_sys. reachable_broker 2 s \<and> bs_received s 0 = [demo_event] \<and>
     prefix (bs_received s 0 @ cn_buf (bk_chans (bs_broker s) ! 0)) (drop (bs_start s 0) (bs_log s))"
proof -
  have r1: "reachable_broker 2 (broker_init\<lparr>bs_broker := \<lparr>bk_enabled = True, bk_subs = [0], bk_chans = [make_chan 2]\<rparr>,
      bs_start := (\<lambda>_. 0)(0 := 0)\<rparr> :: nat broker_sys)" (is "reachable_broker _ ?s1")
    using Subscribes [of broker_init 2 0] init by (auto simp: broker_init_def NewBroker_def broker_Subscribe_def lock_free_def
        intro: reachable_broker.step)
  have r2: "reachable_broker 2 (?s1\<lparr>bs_forwarder := Sending demo_event [0] [], bs_log := [demo_event]\<rparr>)" (is "reachable_broker _ ?s2")
    using reachable_broker.step [OF r1 Begins [of ?s1 "[0]" 2 demo_event]] by (simp add: broker_init_def)
  have r3: "reachable_broker 2 (?s2\<lparr>bs_broker := \<lparr>bk_enabled = True, bk_subs = [0],
      bk_chans = [(make_chan 2)\<lparr>cn_buf := [demo_event]\<rparr>]\<rparr>, bs_forwarder := Sending demo_event [] []\<rparr>)" (is "reachable_broker _ ?s3")
    by (rule reachable_broker.step [OF r2 Sends]) (auto simp: forward_one_def chan_send_def make_chan_def)
  have r4: "reachable_broker 2 (?s3\<lparr>bs_broker := \<lparr>bk_enabled = True, bk_subs = [0], bk_chans = [make_chan 2]\<rparr>,
      bs_received := (\<lambda>_. [])(0 := [demo_event])\<rparr>)" (is "reachable_broker _ ?s4")
    using reachable_broker.step [OF r3 Receives [of 0 ?s3 demo_event "make_chan 2" 2]] by (simp add: make_chan_def broker_init_def)
  show ?thesis using r4 broker_no_gaps [OF r4, of 0] by (intro exI [of _ ?s4]) (simp add: Let_def)
qed

end
