(* ===== verification/Triggers.thy ===== *)
theory Triggers
  imports Spawner Broker
begin

text \<open>
  Run triggers: the triggers between workspaces, their table and service
  (\<open>run/trigger/trigger.go\<close>, \<open>db.go\<close>, \<open>service.go\<close>), and the daemon that creates runs when runs of a
  triggering workspace are applied (\<open>triggerer.go\<close>).
\<close>

section \<open>Triggers (trigger.go)\<close>

record Trigger =
  tr_ID :: TfeID
  tr_CreatedAt :: gtime
  tr_WorkspaceID :: TfeID
  tr_TriggeringWorkspaceID :: TfeID

definition newTrigger :: "(nat \<Rightarrow> nat) \<Rightarrow> clock \<Rightarrow> TfeID \<Rightarrow> TfeID \<Rightarrow> Trigger result" where
  "newTrigger rnd clk workspaceID triggeringWorkspaceID =
     (if workspaceID = triggeringWorkspaceID then Inl (Wrap (TfeID_String workspaceID) ErrTriggerLoop)
      else Inr \<lparr>tr_ID = NewTfeID rnd RunTriggerKind, tr_CreatedAt = CurrentTimestamp None (clk 0),
                tr_WorkspaceID = workspaceID, tr_TriggeringWorkspaceID = triggeringWorkspaceID\<rparr>)"

section \<open>The table (db.go)\<close>

text \<open>The table has foreign keys to the workspaces but no key of its own.\<close>

definition db_createTrigger :: "Trigger \<Rightarrow> vcs_sys \<Rightarrow> Trigger list \<Rightarrow> Trigger list result" where
  "db_createTrigger t sys ts =
     (if find_workspace (tr_WorkspaceID t) sys = None \<or> find_workspace (tr_TriggeringWorkspaceID t) sys = None
      then Inl fk_error else Inr (ts @ [t]))"

definition listByWorkspaceID :: "TfeID \<Rightarrow> Trigger list \<Rightarrow> Trigger list" where
  "listByWorkspaceID wid ts = filter (\<lambda>t. tr_WorkspaceID t = wid) ts"

definition listByTriggeringWorkspaceID :: "TfeID \<Rightarrow> Trigger list \<Rightarrow> Trigger list" where
  "listByTriggeringWorkspaceID wid ts = filter (\<lambda>t. tr_TriggeringWorkspaceID t = wid) ts"

definition db_getTrigger :: "TfeID \<Rightarrow> Trigger list \<Rightarrow> Trigger result" where
  "db_getTrigger tid ts =
     (case filter (\<lambda>t. tr_ID t = tid) ts of
        [] \<Rightarrow> Inl ErrResourceNotFound
      | [t] \<Rightarrow> Inr t
      | _ \<Rightarrow> Inl (Errorf ''too many rows in result set''))"

definition db_deleteTrigger :: "TfeID \<Rightarrow> Trigger list \<Rightarrow> Trigger list result" where
  "db_deleteTrigger tid ts =
     (if list_ex (\<lambda>t. tr_ID t = tid) ts then Inr (filter (\<lambda>t. tr_ID t \<noteq> tid) ts) else Inl ErrResourceNotFound)"

section \<open>The service (service.go)\<close>

datatype Direction = Inbound | Outbound | OtherDirection string

definition trigger_tables :: "vcs_sys \<Rightarrow> Trigger list \<Rightarrow> parent_tables" where
  "trigger_tables sys ts = (run_tables sys)
     \<lparr>pt_run_trigger := (\<lambda>tid. case db_getTrigger tid ts of Inl _ \<Rightarrow> None | Inr t \<Rightarrow> Some (tr_WorkspaceID t))\<rparr>"

definition trigger_access :: "run_env \<Rightarrow> Action \<Rightarrow> Kind \<Rightarrow> TfeID \<Rightarrow> vcs_sys \<Rightarrow> Trigger list \<Rightarrow> Subject result" where
  "trigger_access env action kind rid sys ts =
     check_access (trigger_tables sys ts) (access_env.truncate env) action kind (TfeID_ID rid)"

text \<open>The creator needs access to both workspaces.\<close>

definition CreateRunTrigger ::
  "run_env \<Rightarrow> TfeID \<Rightarrow> TfeID \<Rightarrow> vcs_sys \<Rightarrow> Trigger list \<Rightarrow> (Trigger list \<times> Trigger) result" where
  "CreateRunTrigger env workspaceID triggeringWorkspaceID sys ts =
     (case trigger_access env CreateAction RunTriggerKind workspaceID sys ts of Inl e \<Rightarrow> Inl e | Inr _ \<Rightarrow>
     (case trigger_access env GetAction RunKind triggeringWorkspaceID sys ts of Inl e \<Rightarrow> Inl e | Inr _ \<Rightarrow>
     (case newTrigger (re_rnd env 0) (re_clk env 0) workspaceID triggeringWorkspaceID of Inl e \<Rightarrow> Inl e | Inr t \<Rightarrow>
     (case db_createTrigger t sys ts of Inl e \<Rightarrow> Inl e | Inr ts1 \<Rightarrow> Inr (ts1, t)))))"

definition ListRunTriggers ::
  "run_env \<Rightarrow> TfeID \<Rightarrow> Direction \<Rightarrow> vcs_sys \<Rightarrow> Trigger list \<Rightarrow> Trigger list result" where
  "ListRunTriggers env workspaceID direction sys ts =
     (case trigger_access env ListAction RunTriggerKind workspaceID sys ts of Inl e \<Rightarrow> Inl e | Inr _ \<Rightarrow>
     (case direction of
        Outbound \<Rightarrow> Inr (listByTriggeringWorkspaceID workspaceID ts)
      | Inbound \<Rightarrow> Inr (listByWorkspaceID workspaceID ts)
      | OtherDirection d \<Rightarrow> Inl (Errorf (''invalid direction: '' @ d))))"

definition GetRunTrigger :: "run_env \<Rightarrow> TfeID \<Rightarrow> vcs_sys \<Rightarrow> Trigger list \<Rightarrow> Trigger result" where
  "GetRunTrigger env tid sys ts =
     (case trigger_access env GetAction RunTriggerKind tid sys ts of Inl e \<Rightarrow> Inl e | Inr _ \<Rightarrow> db_getTrigger tid ts)"

definition DeleteRunTrigger :: "run_env \<Rightarrow> TfeID \<Rightarrow> vcs_sys \<Rightarrow> Trigger list \<Rightarrow> Trigger list result" where
  "DeleteRunTrigger env tid sys ts =
     (case trigger_access env DeleteAction RunTriggerKind tid sys ts of Inl e \<Rightarrow> Inl e | Inr _ \<Rightarrow> db_deleteTrigger tid ts)"

section \<open>The daemon (triggerer.go)\<close>

text \<open>The fields of the payload (\<open>run/event.go\<close>) that the daemons read.\<close>

record RunEvent =
  re_ID :: TfeID
  re_Status :: Status
  re_WorkspaceID :: TfeID
  re_ConfigurationVersionID :: TfeID
  re_CreatedBy :: "string option"
  re_Source :: Source

definition trigger_run_options :: "RunEvent \<Rightarrow> RunCreateOptions" where
  "trigger_run_options ev =
     \<lparr>ro_IsDestroy = None, ro_Refresh = None, ro_RefreshOnly = None, ro_Message = None,
      ro_ConfigurationVersionID = None, ro_TargetAddrs = [], ro_ReplaceAddrs = [], ro_AutoApply = None,
      ro_Source = source_Trigger, ro_TerraformVersion = None, ro_AllowEmptyApply = None, ro_PlanOnly = None,
      ro_Variables = [], ro_CreatedBy = re_CreatedBy ev, ro_EngineVersion = [],
      ro_TriggeringRunID = Some (re_ID ev), ro_CreatedAt = None, ro_costEstimationEnabled = False, ro_now = None\<rparr>"

fun trigger_runs :: "run_env \<Rightarrow> nat \<Rightarrow> RunEvent \<Rightarrow> Trigger list \<Rightarrow> vcs_sys \<Rightarrow> unit effect" where
  "trigger_runs env k ev [] sys = (Inr (), sys)"
| "trigger_runs env k ev (t # ts) sys =
     (case CreateRun env k (tr_WorkspaceID t) (trigger_run_options ev) sys of
        (Inl e, sys1) \<Rightarrow> (Inl e, sys1)
      | (Inr _, sys1) \<Rightarrow> trigger_runs env (k + 2) ev ts sys1)"

definition Triggerer_process ::
  "run_env \<Rightarrow> PubsubType \<Rightarrow> RunEvent \<Rightarrow> Trigger list \<Rightarrow> vcs_sys \<Rightarrow> unit effect" where
  "Triggerer_process env type ev ts sys =
     (if type \<noteq> UpdatedEvent then (Inr (), sys)
      else if \<not> runstatus_Done (re_Status ev) then (Inr (), sys)
      else if re_Status ev \<noteq> Applied then (Inr (), sys)
      else case ListRunTriggers env (re_WorkspaceID ev) Outbound sys ts of
             Inl e \<Rightarrow> (Inl (Wrap ''listing triggers for finished run'' e), sys)
           | Inr triggers \<Rightarrow> trigger_runs env 0 ev triggers sys)"

text \<open>The loop over the events ends at the first error; the daemon is then restarted.\<close>

fun Triggerer_Start ::
  "run_env \<Rightarrow> (PubsubType \<times> RunEvent) list \<Rightarrow> Trigger list \<Rightarrow> vcs_sys \<Rightarrow> unit effect" where
  "Triggerer_Start env [] ts sys = (Inr (), sys)"
| "Triggerer_Start env ((type, ev) # evs) ts sys =
     (case Triggerer_process env type ev ts sys of
        (Inl e, sys1) \<Rightarrow> (Inl e, sys1)
      | (Inr _, sys1) \<Rightarrow> Triggerer_Start env evs ts sys1)"

section \<open>Lemmas\<close>

lemma fetch_config_frame:
  "fetch_config env k ws opts sys = (r, sys1) \<Longrightarrow> vs_runs sys1 = vs_runs sys \<and> cvd_workspaces sys1 = cvd_workspaces sys"
  unfolding fetch_config_def createConfigVersionFromVCS_def Let_def
  by (auto split: option.splits sum.splits prod.splits dest!: CreateConfigVersion_SomeD(2) UploadConfig_SomeD(2))

text \<open>A run that \<open>CreateRun\<close> returns is the one run that was added.\<close>

lemma CreateRun_run:
  assumes "CreateRun env k wid opts sys = (Inr run, sys')"
  obtains ws where "find_workspace wid sys = Some ws" "vs_runs sys' = vs_runs sys @ [run]" "run_WorkspaceID run = wid"
    "run_TriggeringRunID run = ro_TriggeringRunID opts" "run_Status run = Pending"
    "run_AutoApply run = override (ro_AutoApply opts)
       (if ro_TriggeringRunID opts \<noteq> None then ws_AutoApplyRunTrigger ws else ws_AutoApply ws)"
    "cvd_workspaces sys' = cvd_workspaces sys"
proof -
  from assms obtain sys1 where f: "factory_NewRun env k wid opts sys = (Inr run, sys1)" "insert_run run sys1 = Inr sys'"
    by (auto simp: CreateRun_def split: sum.splits prod.splits)
  from f(1) obtain ws cv opts' where ws: "find_workspace wid sys = Some ws"
    and fc: "fetch_config env k ws opts sys = (Inr cv, sys1)"
    and run: "run = NewRun (re_rnd env (Suc k)) (re_clk env (Suc k)) ws cv opts'"
      "ro_TriggeringRunID opts' = ro_TriggeringRunID opts" "ro_AutoApply opts' = ro_AutoApply opts"
    by (auto simp: factory_NewRun_def GetWorkspace_def collect_one_def split: sum.splits prod.splits option.splits if_splits)
  have auto: "run_AutoApply run = override (ro_AutoApply opts)
       (if ro_TriggeringRunID opts \<noteq> None then ws_AutoApplyRunTrigger ws else ws_AutoApply ws)"
    using run by (simp add: NewRun_def Let_def run_updateStatus_def)
  from f(2) have sys': "sys' = sys1\<lparr>vs_runs := vs_runs sys1 @ [run]\<rparr>" by (auto simp: insert_run_def split: if_splits)
  show thesis
    by (rule that [OF ws]) (use sys' run auto fetch_config_frame [OF fc] find_workspace_ID [OF ws] in simp_all)
qed

lemma trigger_runs_spec:
  "trigger_runs env k ev ts sys = (Inr (), sys') \<Longrightarrow>
     \<exists>new. vs_runs sys' = vs_runs sys @ new \<and> map run_WorkspaceID new = map tr_WorkspaceID ts \<and>
       (\<forall>r \<in> set new. run_TriggeringRunID r = Some (re_ID ev) \<and> run_Status r = Pending \<and>
          (\<exists>ws. find_workspace (run_WorkspaceID r) sys = Some ws \<and> run_AutoApply r = ws_AutoApplyRunTrigger ws))"
proof (induction ts arbitrary: k sys)
  case (Cons t ts)
  then obtain run sys1 where c: "CreateRun env k (tr_WorkspaceID t) (trigger_run_options ev) sys = (Inr run, sys1)"
    "trigger_runs env (k + 2) ev ts sys1 = (Inr (), sys')" by (auto split: prod.splits sum.splits)
  obtain ws where ws: "find_workspace (tr_WorkspaceID t) sys = Some ws" "vs_runs sys1 = vs_runs sys @ [run]"
    "run_WorkspaceID run = tr_WorkspaceID t" "run_TriggeringRunID run = Some (re_ID ev)" "run_Status run = Pending"
    "run_AutoApply run = ws_AutoApplyRunTrigger ws" "cvd_workspaces sys1 = cvd_workspaces sys"
    by (rule CreateRun_run [OF c(1)]) (simp add: trigger_run_options_def)
  from Cons.IH [OF c(2)] obtain new where new: "vs_runs sys' = vs_runs sys1 @ new"
    "map run_WorkspaceID new = map tr_WorkspaceID ts"
    "\<forall>r \<in> set new. run_TriggeringRunID r = Some (re_ID ev) \<and> run_Status r = Pending \<and>
       (\<exists>ws. find_workspace (run_WorkspaceID r) sys1 = Some ws \<and> run_AutoApply r = ws_AutoApplyRunTrigger ws)" by blast
  have "find_workspace i sys1 = find_workspace i sys" for i using ws(7) by (simp add: find_workspace_def)
  with new(3) ws have "\<forall>r \<in> set (run # new). run_TriggeringRunID r = Some (re_ID ev) \<and> run_Status r = Pending \<and>
      (\<exists>ws. find_workspace (run_WorkspaceID r) sys = Some ws \<and> run_AutoApply r = ws_AutoApplyRunTrigger ws)" by auto
  moreover have "vs_runs sys' = vs_runs sys @ run # new" "map run_WorkspaceID (run # new) = map tr_WorkspaceID (t # ts)"
    using new(1,2) ws(2,3) by simp_all
  ultimately show ?case by blast
qed simp

section \<open>Example data\<close>

definition demo_ws_id :: "string \<Rightarrow> TfeID" where
  "demo_ws_id n = \<lparr>tfe_kind = WorkspaceKind, tfe_id = n\<rparr>"

definition demo_trigger :: "string \<Rightarrow> string \<Rightarrow> Trigger" where
  "demo_trigger target source = \<lparr>tr_ID = \<lparr>tfe_kind = RunTriggerKind, tfe_id = target\<rparr>, tr_CreatedAt = 0,
     tr_WorkspaceID = demo_ws_id target, tr_TriggeringWorkspaceID = demo_ws_id source\<rparr>"

text \<open>Three workspaces, of which the second alone has a configuration version.\<close>

definition demo_trigger_sys :: vcs_sys where
  "demo_trigger_sys = \<lparr>
     cvd_workspaces = map (\<lambda>n. example_workspace\<lparr>ws_ID := demo_ws_id n\<rparr>) [''1'', ''2'', ''3''],
     cvd_rows = [(NewConfigurationVersion id (\<lambda>_. 0) (demo_ws_id ''2'') no_cv_options, None)],
     vs_organizations = [(''acme'', False)], vs_runs = []\<rparr>"

definition demo_applied :: RunEvent where
  "demo_applied = \<lparr>re_ID = \<lparr>tfe_kind = RunKind, tfe_id = ''7''\<rparr>, re_Status = Applied, re_WorkspaceID = demo_ws_id ''1'',
     re_ConfigurationVersionID = \<lparr>tfe_kind = ConfigVersionKind, tfe_id = ''0''\<rparr>, re_CreatedBy = None, re_Source = source_API\<rparr>"

section \<open>Properties\<close>

text \<open>
  C9: An applied run starts a run in each workspace that its workspace triggers. When the daemon
  processes the update of an applied run without error, one run is created per trigger from its
  workspace, which names it as its triggering run and is applied automatically exactly when the
  triggered workspace says so for run triggers; every other event creates nothing.
\<close>

theorem triggered_runs:
  assumes "Triggerer_process env type ev ts sys = (Inr (), sys')"
  shows "\<exists>new. vs_runs sys' = vs_runs sys @ new \<and>
    map run_WorkspaceID new =
      (if type = UpdatedEvent \<and> re_Status ev = Applied
       then map tr_WorkspaceID (filter (\<lambda>t. tr_TriggeringWorkspaceID t = re_WorkspaceID ev) ts) else []) \<and>
    list_all (\<lambda>r. run_TriggeringRunID r = Some (re_ID ev) \<and>
      (case find_workspace (run_WorkspaceID r) sys of
         None \<Rightarrow> False | Some ws \<Rightarrow> run_AutoApply r = ws_AutoApplyRunTrigger ws)) new"
proof (cases "type = UpdatedEvent \<and> re_Status ev = Applied")
  case True
  with assms have "trigger_runs env 0 ev (filter (\<lambda>t. tr_TriggeringWorkspaceID t = re_WorkspaceID ev) ts) sys = (Inr (), sys')"
    by (auto simp: Triggerer_process_def runstatus_Done_def ListRunTriggers_def listByTriggeringWorkspaceID_def
        split: sum.splits)
  from trigger_runs_spec [OF this] obtain new where "vs_runs sys' = vs_runs sys @ new"
    "map run_WorkspaceID new = map tr_WorkspaceID (filter (\<lambda>t. tr_TriggeringWorkspaceID t = re_WorkspaceID ev) ts)"
    "\<forall>r \<in> set new. run_TriggeringRunID r = Some (re_ID ev) \<and> run_Status r = Pending \<and>
       (\<exists>ws. find_workspace (run_WorkspaceID r) sys = Some ws \<and> run_AutoApply r = ws_AutoApplyRunTrigger ws)" by blast
  with True show ?thesis by (intro exI [of _ new]) (auto simp: list_all_iff)
next
  case False
  with assms have "sys' = sys" by (auto simp: Triggerer_process_def split: if_splits)
  with False show ?thesis by auto
qed

theorem triggered_runs_witness:
  "\<exists>new. vs_runs (snd (Triggerer_process demo_run_env UpdatedEvent demo_applied [demo_trigger ''2'' ''1''] demo_trigger_sys)) = new \<and>
     map run_WorkspaceID new = [demo_ws_id ''2'']"
proof -
  let ?p = "Triggerer_process demo_run_env UpdatedEvent demo_applied [demo_trigger ''2'' ''1''] demo_trigger_sys"
  have "fst ?p = Inr ()" by code_simp
  then have "?p = (Inr (), snd ?p)" by (metis prod.collapse)
  from triggered_runs [OF this] show ?thesis
    by (auto simp: demo_applied_def demo_trigger_def demo_trigger_sys_def)
qed

text \<open>
  One workspace that cannot be triggered keeps the others from being triggered. When creating the
  run of a trigger fails, for instance because its workspace has no configuration, the daemon ends
  with that error: no run is created for the triggers after it, nor for the events that were already
  waiting, which a restarted daemon does not see.
\<close>

theorem trigger_error_drops_rest:
  assumes "ListRunTriggers env (re_WorkspaceID ev) Outbound sys ts = Inr (pre @ t # post)" "re_Status ev = Applied"
    "trigger_runs env 0 ev pre sys = (Inr (), sys1)"
    "CreateRun env (2 * length pre) (tr_WorkspaceID t) (trigger_run_options ev) sys1 = (Inl e, sys2)"
  shows "Triggerer_Start env ((UpdatedEvent, ev) # evs) ts sys = (Inl e, sys2)"
proof -
  have "trigger_runs env k ev pre sys = (Inr (), sys1) \<Longrightarrow>
      CreateRun env (k + 2 * length pre) (tr_WorkspaceID t) (trigger_run_options ev) sys1 = (Inl e, sys2) \<Longrightarrow>
      trigger_runs env k ev (pre @ t # post) sys = (Inl e, sys2)" for k sys
    by (induction pre arbitrary: k sys) (auto split: prod.splits sum.splits)
  from this [of 0 sys] assms show ?thesis
    by (simp add: Triggerer_process_def runstatus_Done_def)
qed

theorem trigger_error_drops_rest_witness:
  "\<exists>e sys'. Triggerer_Start demo_run_env [(UpdatedEvent, demo_applied)] [demo_trigger ''3'' ''1'', demo_trigger ''2'' ''1'']
     demo_trigger_sys = (Inl e, sys') \<and> vs_runs sys' = []"
proof -
  let ?ts = "[demo_trigger ''3'' ''1'', demo_trigger ''2'' ''1'']"
  let ?c = "CreateRun demo_run_env (2 * length ([] :: Trigger list)) (tr_WorkspaceID (demo_trigger ''3'' ''1''))
    (trigger_run_options demo_applied) demo_trigger_sys"
  have c: "(case ?c of (Inl _, sys') \<Rightarrow> vs_runs sys' = [] | _ \<Rightarrow> False)" by code_simp
  have l: "ListRunTriggers demo_run_env (re_WorkspaceID demo_applied) Outbound demo_trigger_sys ?ts =
      Inr ([] @ demo_trigger ''3'' ''1'' # [demo_trigger ''2'' ''1''])" by code_simp
  from c obtain e sys' where "?c = (Inl e, sys')" "vs_runs sys' = []" by (auto split: prod.splits sum.splits)
  with trigger_error_drops_rest [OF l _ _ this(1), of "[]"] show ?thesis by (auto simp: demo_applied_def)
qed

text \<open>
  Only a trigger of a workspace by itself is refused: two workspaces may trigger each other, and then
  every applied run of the one starts a run of the other.
\<close>

lemma trigger_cycle:
  assumes "a \<noteq> b"
  shows "\<exists>t1 t2. newTrigger rnd clk a b = Inr t1 \<and> newTrigger rnd' clk' b a = Inr t2 \<and>
    listByTriggeringWorkspaceID a [t1, t2] = [t2] \<and> tr_WorkspaceID t2 = b \<and>
    listByTriggeringWorkspaceID b [t1, t2] = [t1] \<and> tr_WorkspaceID t1 = a"
  using assms by (simp add: newTrigger_def listByTriggeringWorkspaceID_def)

end
