(* ===== verification/Daemons.thy ===== *)
theory Daemons
  imports Triggers RunSystem Reports
begin

text \<open>
  The daemons over runs: the time-out of phases (\<open>run/timeout.go\<close>), the deletion of old resources
  (\<open>resource/deleter.go\<close>, with its use for configuration versions in \<open>daemon/daemon.go\<close>) and the
  reporter of run statuses to VCS providers (\<open>run/reporter.go\<close>).
\<close>

section \<open>Time-outs (run/timeout.go)\<close>

text \<open>
  \<open>to_svc k\<close> surrounds the \<open>k\<close>-th cancelation, \<open>to_now k\<close> is the clock when the \<open>k\<close>-th run is looked at,
  and \<open>to_ListRuns\<close> the list of all runs with a status that is checked.
\<close>

record timeout_env =
  to_PlanningTimeout :: gduration
  to_ApplyingTimeout :: gduration
  to_now :: "nat \<Rightarrow> gtime"
  to_svc :: "nat \<Rightarrow> svc_env"
  to_ListRuns :: "otf_db \<Rightarrow> Run list result"

definition status_timeout :: "timeout_env \<Rightarrow> Status \<Rightarrow> gduration option" where
  "status_timeout te s =
     (case s of Planning \<Rightarrow> Some (to_PlanningTimeout te) | Applying \<Rightarrow> Some (to_ApplyingTimeout te) | _ \<Rightarrow> None)"

definition timed_out :: "timeout_env \<Rightarrow> nat \<Rightarrow> Run \<Rightarrow> bool" where
  "timed_out te k run =
     (case status_timeout te (run_Status run) of
        None \<Rightarrow> False
      | Some timeout \<Rightarrow>
          (case Run_StatusTimestamp run (run_Status run) of
             Inl _ \<Rightarrow> False
           | Inr started \<Rightarrow> to_now te k - started > timeout))"

fun timeout_loop :: "timeout_env \<Rightarrow> nat \<Rightarrow> Run list \<Rightarrow> otf_db \<Rightarrow> otf_db result" where
  "timeout_loop te k [] db = Inr db"
| "timeout_loop te k (run # runs) db =
     (if timed_out te k run
      then (case CancelRun (to_svc te k) (run_ID run) db of
              Inl e \<Rightarrow> Inl (Wrap ''canceling run'' e)
            | Inr db1 \<Rightarrow> timeout_loop te (Suc k) runs db1)
      else timeout_loop te (Suc k) runs db)"

definition Timeout_check :: "timeout_env \<Rightarrow> otf_db \<Rightarrow> otf_db result" where
  "Timeout_check te db =
     (case to_ListRuns te db of Inl e \<Rightarrow> Inl (Wrap ''listing runs'' e) | Inr runs \<Rightarrow> timeout_loop te 0 runs db)"

section \<open>Deletion of old resources (resource/deleter.go)\<close>

fun delete_each :: "(TfeID \<Rightarrow> 's \<Rightarrow> 's result) \<Rightarrow> TfeID list \<Rightarrow> 's \<Rightarrow> 's result \<times> 's" where
  "delete_each del [] s = (Inr s, s)"
| "delete_each del (i # is) s = (case del i s of Inl e \<Rightarrow> (Inl e, s) | Inr s1 \<Rightarrow> delete_each del is s1)"

text \<open>Errors leave behind what was deleted before, which is the second component.\<close>

definition deleteResources ::
  "(gtime \<Rightarrow> 's \<Rightarrow> 'r list result) \<Rightarrow> (TfeID \<Rightarrow> 's \<Rightarrow> 's result) \<Rightarrow> ('r \<Rightarrow> TfeID) \<Rightarrow> gduration \<Rightarrow> gtime \<Rightarrow> 's \<Rightarrow> 's result \<times> 's"
  where
  "deleteResources list del getID threshold now s =
     (if threshold = 0 then (Inr s, s)
      else case list (now - threshold) s of
             Inl e \<Rightarrow> (Inl e, s)
           | Inr rs \<Rightarrow> delete_each del (map getID rs) s)"

text \<open>
  What the deleter relies on: listing gives every resource that was created before the given time,
  once, and deleting removes the one resource.
\<close>

locale deleter_client =
  fixes list :: "gtime \<Rightarrow> 's \<Rightarrow> 'r list result"
    and del :: "TfeID \<Rightarrow> 's \<Rightarrow> 's result"
    and getID :: "'r \<Rightarrow> TfeID"
    and created :: "'s \<Rightarrow> TfeID \<rightharpoonup> gtime"
    and inv :: "'s \<Rightarrow> bool"
  assumes listed: "inv s \<Longrightarrow> list t s = Inr rs \<Longrightarrow>
      distinct (map getID rs) \<and> set (map getID rs) = {i. \<exists>c. created s i = Some c \<and> c < t}"
    and deletes: "inv s \<Longrightarrow> created s i \<noteq> None \<Longrightarrow>
      \<exists>s'. del i s = Inr s' \<and> inv s' \<and> created s' = (created s)(i := None)"
begin

lemma delete_each_removes:
  "inv s \<Longrightarrow> distinct is \<Longrightarrow> \<forall>i \<in> set is. created s i \<noteq> None \<Longrightarrow>
     \<exists>s'. delete_each del is s = (Inr s', s') \<and> inv s' \<and> created s' = created s |` (- set is)"
proof (induction "is" arbitrary: s)
  case (Cons i "is")
  then obtain s1 where s1: "del i s = Inr s1" "inv s1" "created s1 = (created s)(i := None)"
    using deletes [of s i] by auto
  with Cons.prems have "\<forall>j \<in> set is. created s1 j \<noteq> None" by auto
  with Cons.IH [OF s1(2)] Cons.prems(2) obtain s' where
    "delete_each del is s1 = (Inr s', s')" "inv s'" "created s' = created s1 |` (- set is)" by auto
  with s1 show ?case by (auto simp: restrict_map_def fun_eq_iff)
qed (simp add: restrict_map_def)

lemma deletes_old:
  assumes "inv s" "threshold \<noteq> 0" "list (now - threshold) s = Inr rs"
  shows "\<exists>s'. deleteResources list del getID threshold now s = (Inr s', s') \<and> inv s' \<and>
    created s' = created s |` {i. \<forall>c. created s i = Some c \<longrightarrow> now - threshold \<le> c}"
proof -
  note l = listed [OF assms(1,3)]
  then have "\<forall>i \<in> set (map getID rs). created s i \<noteq> None" by auto
  from delete_each_removes [OF assms(1) l [THEN conjunct1] this] obtain s' where
    s': "delete_each del (map getID rs) s = (Inr s', s')" "inv s'" "created s' = created s |` (- set (map getID rs))" by blast
  have "created s |` (- set (map getID rs)) = created s |` {i. \<forall>c. created s i = Some c \<longrightarrow> now - threshold \<le> c}"
    using l by (force simp: restrict_map_def fun_eq_iff)
  with s' assms(2,3) show ?thesis by (simp add: deleteResources_def)
qed

end

section \<open>The reporter (run/reporter.go)\<close>

datatype VCSStatus = PendingStatus | SuccessStatus | ErrorStatus | FailureStatus

record SetStatusOptions =
  sso_RunID :: TfeID
  sso_Workspace :: string
  sso_Ref :: string
  sso_Repo :: Repo
  sso_Status :: VCSStatus
  sso_Description :: string

text \<open>
  The clients of the reporter; \<open>rp_SetStatus\<close> is the answer of the provider. The target URL, made from the ID of
  the run, is represented by that ID.
\<close>

record reporter_env =
  rp_GetConfigVersion :: "TfeID \<Rightarrow> ConfigurationVersion result"
  rp_GetWorkspace :: "TfeID \<Rightarrow> Workspace result"
  rp_GetVCSProvider :: "TfeID \<Rightarrow> unit result"
  rp_GetRun :: "RunEvent \<Rightarrow> Run result"
  rp_SetStatus :: "SetStatusOptions \<Rightarrow> unit result"

type_synonym status_cache = "TfeID \<rightharpoonup> VCSStatus"

text \<open>The report of a phase (\<open>run/report.go\<close>); the third sign is the character U+2212, three bytes of UTF-8.\<close>

definition dec_int :: "int \<Rightarrow> string" where
  "dec_int n = (if n < 0 then ''-'' @ dec (nat (- n)) else dec (nat n))"

definition Report_String :: "Report \<Rightarrow> string" where
  "Report_String r = ''+'' @ dec_int (Additions r) @ ''/~'' @ dec_int (Changes r) @ ''/'' @
     [CHR 0xE2, CHR 0x88, CHR 0x92] @ dec_int (Destructions r)"

definition vcs_status :: "RunEvent \<Rightarrow> Run \<Rightarrow> (VCSStatus \<times> string) result" where
  "vcs_status ev run =
     (case re_Status ev of
        PlannedAndFinished \<Rightarrow>
          Inr (SuccessStatus, case ph_ResourceReport (run_Plan run) of
                                None \<Rightarrow> [] | Some r \<Rightarrow> ''planned: '' @ Report_String r)
      | Applied \<Rightarrow>
          Inr (SuccessStatus, case ph_ResourceReport (run_Apply run) of
                                None \<Rightarrow> [] | Some r \<Rightarrow> ''applied: '' @ Report_String r)
      | Errored \<Rightarrow> Inr (ErrorStatus, Status_String Errored)
      | Canceled \<Rightarrow> Inr (ErrorStatus, Status_String Canceled)
      | ForceCanceled \<Rightarrow> Inr (ErrorStatus, Status_String ForceCanceled)
      | Discarded \<Rightarrow> Inr (ErrorStatus, Status_String Discarded)
      | CostEstimated \<Rightarrow> Inl (Errorf (''unknown run status: '' @ Status_String CostEstimated))
      | _ \<Rightarrow> Inr (PendingStatus, []))"

text \<open>The result of handling an event is the cache and what was sent to the provider, if anything.\<close>

definition handleRun :: "reporter_env \<Rightarrow> RunEvent \<Rightarrow> status_cache \<Rightarrow> (status_cache \<times> SetStatusOptions list) result" where
  "handleRun env ev cache =
     (if re_Source ev = source_UI \<or> re_Source ev = source_API then Inr (cache, [])
      else
     (case rp_GetConfigVersion env (re_ConfigurationVersionID ev) of
        Inl e \<Rightarrow> Inl (Wrap ''retrieving config'' e) | Inr cv \<Rightarrow>
     (case cv_IngressAttributes cv of None \<Rightarrow> Inr (cache, []) | Some ia \<Rightarrow>
     (case rp_GetWorkspace env (re_WorkspaceID ev) of
        Inl e \<Rightarrow> Inl (Wrap ''retrieving workspace'' e) | Inr ws \<Rightarrow>
     (case ws_Connection ws of
        None \<Rightarrow> Inl (Errorf (''workspace not connected to repo: '' @ TfeID_String (ws_ID ws))) | Some con \<Rightarrow>
     (case rp_GetVCSProvider env (con_VCSProviderID con) of
        Inl e \<Rightarrow> Inl (Wrap ''retrieving vcs client'' e) | Inr _ \<Rightarrow>
     (case rp_GetRun env ev of Inl e \<Rightarrow> Inl (Wrap ''retrieving run'' e) | Inr run \<Rightarrow>
     (case vcs_status ev run of Inl e \<Rightarrow> Inl e | Inr (status, description) \<Rightarrow>
        if cache (re_ID ev) = Some status then Inr (cache, [])
        else
          let opts = \<lparr>sso_RunID = re_ID ev, sso_Workspace = ws_Name ws, sso_Ref = ia_CommitSHA ia,
                      sso_Repo = ia_Repo ia, sso_Status = status, sso_Description = description\<rparr>
          in case rp_SetStatus env opts of
               Inl e \<Rightarrow> Inl e
             | Inr _ \<Rightarrow> Inr (if Run_Done run then cache(re_ID ev := None) else cache(re_ID ev \<mapsto> status), [opts])))))))))"

text \<open>The loop over the events, without those of deleted runs; it ends at the first error.\<close>

fun Reporter_Start ::
  "reporter_env \<Rightarrow> (PubsubType \<times> RunEvent) list \<Rightarrow> status_cache \<Rightarrow> (status_cache \<times> SetStatusOptions list) result" where
  "Reporter_Start env [] cache = Inr (cache, [])"
| "Reporter_Start env ((type, ev) # evs) cache =
     (if type = DeletedEvent then Reporter_Start env evs cache
      else case handleRun env ev cache of
             Inl e \<Rightarrow> Inl (Wrap ''handling run event'' e)
           | Inr (cache1, sent1) \<Rightarrow>
               (case Reporter_Start env evs cache1 of
                  Inl e \<Rightarrow> Inl e
                | Inr (cache2, sent2) \<Rightarrow> Inr (cache2, sent1 @ sent2)))"

section \<open>Time-outs end runs\<close>

text \<open>The daemon acts as a superuser, who may cancel every run.\<close>

definition cancels_freely :: "svc_env \<Rightarrow> bool" where
  "cancels_freely env \<longleftrightarrow>
     (\<forall>rid db. db_runs db rid \<noteq> None \<longrightarrow> (\<exists>s. svc_authorize env CancelAction RunKind rid db = Inr s \<and> \<not> is_user s))"

lemma CancelRun_nonuser:
  assumes "joint_inv db" "cancels_freely env" "db_runs db rid = Some old"
  obtains db' row where "CancelRun env rid db = Inr db'" "joint_inv db'" "db_runs db' = (db_runs db)(rid \<mapsto> row)"
    "run_Status row = Canceled"
proof -
  obtain s where s: "svc_authorize env CancelAction RunKind rid db = Inr s" "\<not> is_user s"
    using assms(2,3) by (force simp: cancels_freely_def)
  obtain db' where tx: "CancelRun_tx env False False rid db = Inr db'"
    using CancelRun_tx_total [OF assms(1,3)] by blast
  with s assms(3) have "CancelRun env rid db = Inr db'" by (simp add: CancelRun_def)
  moreover from CancelRun_tx_inv [OF assms(1) tx] obtain row where "joint_inv db'"
    "db_runs db' = (db_runs db)(rid \<mapsto> row)" "run_Status row = Canceled" by auto
  ultimately show thesis by (rule that)
qed

lemma timeout_loop_cancels:
  assumes "\<forall>k. cancels_freely (to_svc te k)"
  shows "joint_inv db \<Longrightarrow> distinct (map run_ID runs) \<Longrightarrow> \<forall>r \<in> set runs. db_runs db (run_ID r) = Some r \<Longrightarrow>
    \<exists>db'. timeout_loop te k runs db = Inr db' \<and> joint_inv db' \<and>
      (\<forall>i < length runs. if timed_out te (k + i) (runs ! i)
         then \<exists>row. db_runs db' (run_ID (runs ! i)) = Some row \<and> run_Status row = Canceled
         else db_runs db' (run_ID (runs ! i)) = Some (runs ! i)) \<and>
      (\<forall>rid. rid \<notin> run_ID ` set runs \<longrightarrow> db_runs db' rid = db_runs db rid)"
proof (induction runs arbitrary: k db)
  case (Cons r runs)
  have rest: "\<exists>db'. timeout_loop te (Suc k) runs db1 = Inr db' \<and> joint_inv db' \<and>
      (\<forall>i < length runs. if timed_out te (k + Suc i) (runs ! i)
         then \<exists>row. db_runs db' (run_ID (runs ! i)) = Some row \<and> run_Status row = Canceled
         else db_runs db' (run_ID (runs ! i)) = Some (runs ! i)) \<and>
      (\<forall>rid. rid \<notin> run_ID ` set runs \<longrightarrow> db_runs db' rid = db_runs db1 rid)"
    if "joint_inv db1" "\<forall>r \<in> set runs. db_runs db1 (run_ID r) = Some r" for db1
    using Cons.IH [OF that(1) _ that(2), of "Suc k"] Cons.prems(2) by simp
  have fresh: "run_ID r \<notin> run_ID ` set runs" using Cons.prems(2) by simp
  show ?case
  proof (cases "timed_out te k r")
    case True
    have a: "cancels_freely (to_svc te k)" "db_runs db (run_ID r) = Some r" using assms Cons.prems(3) by simp_all
    obtain db1 row where db1: "CancelRun (to_svc te k) (run_ID r) db = Inr db1" "joint_inv db1"
      "db_runs db1 = (db_runs db)(run_ID r \<mapsto> row)" "run_Status row = Canceled"
      by (rule CancelRun_nonuser [OF Cons.prems(1) a])
    have "db_runs db1 (run_ID r') = Some r'" if "r' \<in> set runs" for r'
    proof -
      have "run_ID r' \<noteq> run_ID r" using fresh that by (metis image_eqI)
      with Cons.prems(3) that show ?thesis unfolding db1(3) by simp
    qed
    then have "\<forall>r' \<in> set runs. db_runs db1 (run_ID r') = Some r'" by blast
    from rest [OF db1(2) this] obtain db' where db': "timeout_loop te (Suc k) runs db1 = Inr db'" "joint_inv db'"
      "\<forall>i < length runs. if timed_out te (k + Suc i) (runs ! i)
         then \<exists>row. db_runs db' (run_ID (runs ! i)) = Some row \<and> run_Status row = Canceled
         else db_runs db' (run_ID (runs ! i)) = Some (runs ! i)"
      "\<forall>rid. rid \<notin> run_ID ` set runs \<longrightarrow> db_runs db' rid = db_runs db1 rid" by blast
    with True db1 fresh show ?thesis by (simp add: All_less_Suc2)
  next
    case False
    from rest [OF Cons.prems(1)] Cons.prems(3) obtain db' where db': "timeout_loop te (Suc k) runs db = Inr db'" "joint_inv db'"
      "\<forall>i < length runs. if timed_out te (k + Suc i) (runs ! i)
         then \<exists>row. db_runs db' (run_ID (runs ! i)) = Some row \<and> run_Status row = Canceled
         else db_runs db' (run_ID (runs ! i)) = Some (runs ! i)"
      "\<forall>rid. rid \<notin> run_ID ` set runs \<longrightarrow> db_runs db' rid = db_runs db rid" by auto
    with False Cons.prems(3) fresh show ?thesis by (simp add: All_less_Suc2)
  qed
qed simp


definition demo_timeout_env :: timeout_env where
  "demo_timeout_env = \<lparr>to_PlanningTimeout = 10, to_ApplyingTimeout = 10, to_now = (\<lambda>_. 100),
     to_svc = (\<lambda>_. demo_svc_env (Superuser ''timeout'')), to_ListRuns = (\<lambda>db. Inr [demo_planning_run])\<rparr>"

lemma demo_cancels_freely: "cancels_freely (demo_svc_env (Superuser n))"
  by (simp add: cancels_freely_def svc_authorize_def Authorize_def demo_svc_env_def is_user_def)


section \<open>Old configuration versions are deleted\<close>

definition cv_created :: "'z cv_db_scheme \<Rightarrow> TfeID \<rightharpoonup> gtime" where
  "cv_created db = map_of (map (\<lambda>row. (cv_ID (fst row), cv_CreatedAt (fst row))) (cvd_rows db))"

definition deleter_env :: access_env where
  "deleter_env = \<lparr>ae_ctx = as_superuser ''config-deleter'',
     ae_policies = (\<lambda>_. Inr \<lparr>pol_Permissions = [], pol_globalRemoteState = False\<rparr>)\<rparr>"

text \<open>Besides what the service keeps: every version belongs to an existing workspace.\<close>

definition cvs_wf :: "cv_db \<Rightarrow> bool" where
  "cvs_wf db \<longleftrightarrow> cvs_inv db \<and>
     (\<forall>row \<in> set (cvd_rows db). tfe_kind (cv_ID (fst row)) = ConfigVersionKind \<and>
        tfe_kind (cv_WorkspaceID (fst row)) = WorkspaceKind \<and> find_workspace (cv_WorkspaceID (fst row)) db \<noteq> None)"

lemma collect_rows_map:
  "(\<And>r x. scan r = Inr x \<Longrightarrow> f x = g r) \<Longrightarrow> collect_rows scan rs = Inr xs \<Longrightarrow> map f xs = map g rs"
  by (induction rs arbitrary: xs) (auto split: sum.splits)

lemma deleter_authorized:
  assumes "cvs_wf db" "row \<in> set (cvd_rows db)"
  shows "\<exists>s. check_access (cv_tables db) deleter_env DeleteAction ConfigVersionKind (TfeID_ID (cv_ID (fst row))) = Inr s"
proof -
  obtain ws where ws: "find_workspace (cv_WorkspaceID (fst row)) db = Some ws" using assms by (force simp: cvs_wf_def)
  have f: "find_first (\<lambda>r. cv_ID (fst r) = cv_ID (fst row)) (cvd_rows db) = Some row"
    using assms find_first_unique [of "cv_ID \<circ> fst" "cvd_rows db" row "\<lambda>_. True"] by (simp add: cvs_wf_def cvs_inv_def)
  from assms ws f show ?thesis
    by (simp add: cvs_wf_def check_access_def Authorize_def deleter_env_def as_superuser_def generateRequest_def
        lineage_loop.simps otf_resolvers_def kind_defs cv_tables_def no_tables_def parent_lookup_def
        Let_def req_Workspace_def req_ancestor_def)
qed

interpretation old_configs: deleter_client ListConfigVersionsOlderThan "DeleteConfigVersion deleter_env" cv_ID cv_created cvs_wf
proof
  fix db t and rs :: "ConfigurationVersion list"
  assume inv: "cvs_wf db" and "ListConfigVersionsOlderThan t db = Inr rs"
  then have "collect_rows scan_cv (filter (\<lambda>row. cv_CreatedAt (fst row) < t) (cvd_rows db)) = Inr rs"
    by (simp add: ListConfigVersionsOlderThan_def db_listOlderThan_def)
  then have ids: "map cv_ID rs = map (cv_ID \<circ> fst) (filter (\<lambda>row. cv_CreatedAt (fst row) < t) (cvd_rows db))"
    by (rule collect_rows_map [rotated]) (auto dest: scan_cv_fields)
  have "distinct (map (cv_ID \<circ> fst) (cvd_rows db))" using inv by (simp add: cvs_wf_def cvs_inv_def)
  then have "cv_created db i = Some c \<longleftrightarrow> (\<exists>row \<in> set (cvd_rows db). cv_ID (fst row) = i \<and> cv_CreatedAt (fst row) = c)" for i c
    unfolding cv_created_def by (subst map_of_eq_Some_iff) (auto simp: comp_def image_iff)
  then show "distinct (map cv_ID rs) \<and> set (map cv_ID rs) = {i. \<exists>c. cv_created db i = Some c \<and> c < t}"
    unfolding ids using \<open>distinct _\<close> by (auto simp: distinct_filter_map)
next
  fix db i
  assume inv: "cvs_wf db" and "cv_created db i \<noteq> None"
  then obtain row where row: "row \<in> set (cvd_rows db)" "cv_ID (fst row) = i"
    unfolding cv_created_def by (auto dest!: map_of_SomeD)
  obtain s where "check_access (cv_tables db) deleter_env DeleteAction ConfigVersionKind (TfeID_ID i) = Inr s"
    using deleter_authorized [OF inv row(1)] row(2) by auto
  moreover have "map_of (map (\<lambda>row. (cv_ID (fst row), cv_CreatedAt (fst row))) (filter (\<lambda>row. cv_ID (fst row) \<noteq> i) rows)) =
      (map_of (map (\<lambda>row. (cv_ID (fst row), cv_CreatedAt (fst row))) rows))(i := None)"
    for rows :: "(ConfigurationVersion \<times> string option) list" by (induction rows) auto
  moreover have "cvs_wf (db\<lparr>cvd_rows := filter (\<lambda>row. cv_ID (fst row) \<noteq> i) (cvd_rows db)\<rparr>)"
    using inv by (auto simp: cvs_wf_def cvs_inv_def distinct_filter_map find_workspace_def)
  ultimately show "\<exists>db'. DeleteConfigVersion deleter_env i db = Inr db' \<and> cvs_wf db' \<and> cv_created db' = (cv_created db)(i := None)"
    using row by (auto simp: DeleteConfigVersion_def db_DeleteConfigurationVersion_def cv_created_def)
qed

text \<open>
  The deleter removes exactly the old configuration versions. When the versions can be read, a
  pass of the deleter succeeds, and afterwards the versions that were created before the cut-off are
  gone and all others remain; with a threshold of zero nothing is deleted.
\<close>

theorem old_configs_deleted:
  assumes "cvs_wf db" "ListConfigVersionsOlderThan (now - threshold) db = Inr rs"
  shows "\<exists>db'. deleteResources ListConfigVersionsOlderThan (DeleteConfigVersion deleter_env) cv_ID threshold now db = (Inr db', db') \<and>
    cv_created db' = (if threshold = 0 then cv_created db
      else cv_created db |` {i. \<forall>c. cv_created db i = Some c \<longrightarrow> now - threshold \<le> c})"
  using old_configs.deletes_old [OF assms(1) _ assms(2)] by (auto simp: deleteResources_def)

theorem old_configs_deleted_witness:
  "\<exists>db'. deleteResources ListConfigVersionsOlderThan (DeleteConfigVersion deleter_env) cv_ID 10 100
       \<lparr>cvd_workspaces = [example_workspace],
        cvd_rows = [(NewConfigurationVersion id (\<lambda>_. 5) (ws_ID example_workspace) no_cv_options, None)]\<rparr> = (Inr db', db') \<and>
     cv_created db' = Map.empty"
proof -
  let ?cv = "NewConfigurationVersion id (\<lambda>_. 5) (ws_ID example_workspace) no_cv_options"
  let ?db = "\<lparr>cvd_workspaces = [example_workspace], cvd_rows = [(?cv, None)]\<rparr>"
  have wf: "cvs_wf ?db"
    by (simp add: cvs_wf_def cvs_inv_def find_workspace_def)
      (simp add: NewConfigurationVersion_def Let_def cv_updateStatus_def NewTfeID_def example_workspace_def)
  have old: "cv_CreatedAt ?cv = 0"
    by (simp add: NewConfigurationVersion_def Let_def cv_updateStatus_def no_cv_options_def CurrentTimestamp_def Millisecond_def)
  have "scan_cv (?cv, None) = Inr ?cv" by (simp add: scan_cv_def no_cv_options_def)
  then have "ListConfigVersionsOlderThan (100 - 10) ?db = Inr [?cv]"
    by (simp add: ListConfigVersionsOlderThan_def db_listOlderThan_def old)
  from old_configs_deleted [OF wf this] old show ?thesis
    by (auto simp: cv_created_def restrict_map_def fun_eq_iff)
qed

section \<open>What the reporter sends\<close>

fun event_status :: "Status \<Rightarrow> VCSStatus" where
  "event_status PlannedAndFinished = SuccessStatus"
| "event_status Applied = SuccessStatus"
| "event_status Errored = ErrorStatus"
| "event_status Canceled = ErrorStatus"
| "event_status ForceCanceled = ErrorStatus"
| "event_status Discarded = ErrorStatus"
| "event_status _ = PendingStatus"

lemma vcs_status_event: "vcs_status ev run = Inr (st, d) \<Longrightarrow> st = event_status (re_Status ev)"
  by (cases "re_Status ev") (auto simp: vcs_status_def)

text \<open>The event is of a run with a configuration from a repository.\<close>

definition from_repo :: "reporter_env \<Rightarrow> RunEvent \<Rightarrow> bool" where
  "from_repo env ev \<longleftrightarrow> re_Source ev \<noteq> source_UI \<and> re_Source ev \<noteq> source_API \<and>
     (case rp_GetConfigVersion env (re_ConfigurationVersionID ev) of
        Inl _ \<Rightarrow> False | Inr cv \<Rightarrow> cv_IngressAttributes cv \<noteq> None)"

definition event_done :: "reporter_env \<Rightarrow> RunEvent \<Rightarrow> bool" where
  "event_done env ev = (case rp_GetRun env ev of Inl _ \<Rightarrow> False | Inr run \<Rightarrow> Run_Done run)"

lemma handleRun_cases:
  assumes "handleRun env ev cache = Inr (cache', sent)"
  shows "if \<not> from_repo env ev \<or> cache (re_ID ev) = Some (event_status (re_Status ev)) then cache' = cache \<and> sent = []
    else \<exists>o1. sent = [o1] \<and> sso_RunID o1 = re_ID ev \<and> sso_Status o1 = event_status (re_Status ev) \<and>
      cache' = cache(re_ID ev := (if event_done env ev then None else Some (event_status (re_Status ev))))"
  using assms
  by (auto simp: handleRun_def from_repo_def event_done_def Let_def split: if_splits sum.splits option.splits prod.splits
      dest!: vcs_status_event)

definition events_of :: "TfeID \<Rightarrow> (PubsubType \<times> RunEvent) list \<Rightarrow> RunEvent list" where
  "events_of rid evs = map snd (filter (\<lambda>(type, ev). type \<noteq> DeletedEvent \<and> re_ID ev = rid) evs)"

lemma Reporter_Start_statuses:
  "Reporter_Start env evs cache = Inr (cache', sent) \<Longrightarrow> list_all (from_repo env) (events_of rid evs) \<Longrightarrow>
     list_all (\<lambda>ev. \<not> event_done env ev) (butlast (events_of rid evs)) \<Longrightarrow>
     map sso_Status (filter (\<lambda>o1. sso_RunID o1 = rid) sent) =
       (case cache rid of
          None \<Rightarrow> remdups_adj (map (event_status \<circ> re_Status) (events_of rid evs))
        | Some s \<Rightarrow> tl (remdups_adj (s # map (event_status \<circ> re_Status) (events_of rid evs))))"
proof (induction evs arbitrary: cache sent)
  case Nil
  then show ?case by (auto simp: events_of_def split: option.splits)
next
  case (Cons e evs)
  obtain type ev where e: "e = (type, ev)" by (cases e)
  show ?case
  proof (cases "type = DeletedEvent")
    case True
    then have same: "events_of rid (e # evs) = events_of rid evs" using e by (simp add: events_of_def)
    have "Reporter_Start env evs cache = Inr (cache', sent)" using True Cons.prems(1) e by simp
    from Cons.IH [OF this Cons.prems(2,3) [unfolded same]] show ?thesis unfolding same .
  next
    case False
    with Cons.prems(1) e obtain c1 s1 s2 where h: "handleRun env ev cache = Inr (c1, s1)"
      "Reporter_Start env evs c1 = Inr (cache', s2)" "sent = s1 @ s2"
      by (auto split: sum.splits prod.splits)
    note hc = handleRun_cases [OF h(1)]
    show ?thesis
    proof (cases "re_ID ev = rid")
      case other: False
      then have same: "events_of rid (e # evs) = events_of rid evs" using e by (simp add: events_of_def)
      have "c1 rid = cache rid" "filter (\<lambda>o1. sso_RunID o1 = rid) s1 = []" using hc other by (auto split: if_splits)
      with Cons.IH [OF h(2) Cons.prems(2,3) [unfolded same]] show ?thesis unfolding same h(3) by simp
    next
      case own: True
      let ?st = "event_status (re_Status ev)" and ?sts = "map (event_status \<circ> re_Status) (events_of rid evs)"
      have evs: "events_of rid (e # evs) = ev # events_of rid evs" using e False own by (simp add: events_of_def)
      have repo: "from_repo env ev" using Cons.prems(2) evs by simp
      have last: "event_done env ev \<Longrightarrow> events_of rid evs = []" using Cons.prems(3) evs by (auto split: if_splits)
      have "list_all (\<lambda>ev. \<not> event_done env ev) (butlast (events_of rid evs))"
        using Cons.prems(3) evs by (auto split: if_splits)
      note IH = Cons.IH [OF h(2) _ this]
      have hd: "\<exists>zs. remdups_adj (x # xs) = x # zs" for x :: VCSStatus and xs by (metis remdups_adj_Cons_alt)
      show ?thesis
      proof (cases "cache rid = Some ?st")
        case True
        with hc own have "c1 = cache" "s1 = []" by (auto split: if_splits)
        with IH Cons.prems(2) evs True show ?thesis unfolding evs h(3) by simp
      next
        case nc: False
        with hc own repo obtain o1 where o1: "s1 = [o1]" "sso_RunID o1 = rid" "sso_Status o1 = ?st"
          "c1 rid = (if event_done env ev then None else Some ?st)" by (auto split: if_splits)
        have "map sso_Status (filter (\<lambda>o1. sso_RunID o1 = rid) sent) = remdups_adj (?st # ?sts)"
          using IH Cons.prems(2) evs h(3) o1 last hd [of ?st ?sts] by (auto split: if_splits)
        with nc show ?thesis unfolding evs by (auto simp: comp_def split: option.splits)
      qed
    qed
  qed
qed


definition demo_reporter :: reporter_env where
  "demo_reporter = \<lparr>
     rp_GetConfigVersion = (\<lambda>_. Inr (NewConfigurationVersion id (\<lambda>_. 0) (demo_ws_id ''1'')
        (event_cv_options demo_push \<lparr>con_Branch = [], con_TagsRegex = [], con_VCSProviderID = demo_provider,
                                    con_Repo = demo_repo, con_AllowCLIApply = False\<rparr>))),
     rp_GetWorkspace = (\<lambda>_. Inr (demo_connected ''1'' None)), rp_GetVCSProvider = (\<lambda>_. Inr ()),
     rp_GetRun = (\<lambda>ev. Inr (demo_planning_run\<lparr>run_Status := re_Status ev\<rparr>)), rp_SetStatus = (\<lambda>_. Inr ())\<rparr>"

definition demo_reported :: "Status \<Rightarrow> PubsubType \<times> RunEvent" where
  "demo_reported st = (UpdatedEvent, demo_applied\<lparr>re_Status := st, re_Source := ''github''\<rparr>)"


text \<open>
  An event of a run that was cost-estimated stops the reporter with an error, although that is a
  status of every run of an organization with cost estimation.
\<close>

lemma reporter_rejects_cost_estimated:
  assumes "from_repo env ev" "re_Status ev = CostEstimated" "type \<noteq> DeletedEvent"
  shows "\<exists>e. Reporter_Start env ((type, ev) # evs) cache = Inl e"
  using assms
  by (auto simp: handleRun_def from_repo_def vcs_status_def split: sum.splits option.splits)

end
