(* ===== verification/Signals.thy ===== *)
theory Signals
  imports Broker Resource
begin

text \<open>
  The relay of cancelation signals from the server to the runner of a job
  (\<open>runner/job_signaler.go\<close>): a map from jobs to one-shot channels, a goroutine that relays the
  notifications of the database, and a goroutine per subscription that ends it with its context.
\<close>

section \<open>The signaler\<close>

record JobSignal =
  sig_JobID :: TfeID
  sig_Force :: bool

definition zero_signal :: JobSignal where
  "zero_signal = \<lparr>sig_JobID = \<lparr>tfe_kind = [], tfe_id = []\<rparr>, sig_Force = False\<rparr>"

record signaler =
  sg_subscribers :: "TfeID \<rightharpoonup> nat"
  sg_chans :: "JobSignal channel list"

definition newJobSignaler :: signaler where
  "newJobSignaler = \<lparr>sg_subscribers = Map.empty, sg_chans = []\<rparr>"

text \<open>The subscription that \<open>awaitJobSignal\<close> makes: the channel and the map that leads to it.\<close>

definition awaitJobSignal :: "TfeID \<Rightarrow> signaler \<Rightarrow> nat \<times> signaler" where
  "awaitJobSignal jobID s =
     (let ch = length (sg_chans s) in
      (ch, \<lparr>sg_subscribers = (sg_subscribers s)(jobID \<mapsto> ch), sg_chans = sg_chans s @ [make_chan 1]\<rparr>))"

text \<open>
  The function that it returns; \<open>ctx_err\<close> is the error of the context at that moment. \<open>None\<close> is a
  receive that blocks.
\<close>

definition await_result :: "error option \<Rightarrow> nat \<Rightarrow> signaler \<Rightarrow> ((JobSignal \<times> error option) \<times> signaler) option" where
  "await_result ctx_err ch s =
     (case chan_recv (sg_chans s ! ch) of
        None \<Rightarrow> None
      | Some (Some signal, c) \<Rightarrow> Some ((signal, None), s\<lparr>sg_chans := (sg_chans s)[ch := c]\<rparr>)
      | Some (None, c) \<Rightarrow> Some ((zero_signal, ctx_err), s\<lparr>sg_chans := (sg_chans s)[ch := c]\<rparr>))"

definition signaler_unsubscribe :: "TfeID \<Rightarrow> signaler \<Rightarrow> signaler result" where
  "signaler_unsubscribe jobID s =
     (case sg_subscribers s jobID of
        None \<Rightarrow> Inr s
      | Some ch \<Rightarrow>
          (case chan_close (sg_chans s ! ch) of
             Inl e \<Rightarrow> Inl e
           | Inr c \<Rightarrow> Inr \<lparr>sg_subscribers = (sg_subscribers s)(jobID := None), sg_chans = (sg_chans s)[ch := c]\<rparr>))"

text \<open>The send of the relay, after it has looked up the channel; \<open>Inr None\<close> is a send that blocks.\<close>

definition relay_send :: "JobSignal \<Rightarrow> nat \<Rightarrow> signaler \<Rightarrow> signaler option result" where
  "relay_send signal ch s =
     (case chan_send signal (sg_chans s ! ch) of
        Inl e \<Rightarrow> Inl e
      | Inr None \<Rightarrow> Inr None
      | Inr (Some c) \<Rightarrow> Inr (Some (s\<lparr>sg_chans := (sg_chans s)[ch := c]\<rparr>)))"

definition relay_signal :: "JobSignal \<Rightarrow> signaler \<Rightarrow> signaler option result" where
  "relay_signal signal s =
     (case sg_subscribers s (sig_JobID signal) of
        None \<Rightarrow> Inr (Some s)
      | Some ch \<Rightarrow>
          (case relay_send signal ch s of
             Inl e \<Rightarrow> Inl e
           | Inr None \<Rightarrow> Inr None
           | Inr (Some s1) \<Rightarrow> (case signaler_unsubscribe (sig_JobID signal) s1 of Inl e \<Rightarrow> Inl e | Inr s2 \<Rightarrow> Inr (Some s2))))"

text \<open>The loop of the relay over the payloads received so far, without interruption.\<close>

fun signal_relay :: "(string \<Rightarrow> JobSignal option) \<Rightarrow> string list \<Rightarrow> signaler \<Rightarrow> (error \<times> signaler) option" where
  "signal_relay unmarshal [] s = Some (ErrSubscriptionTerminated, s)"
| "signal_relay unmarshal (payload # payloads) s =
     (case unmarshal payload of
        None \<Rightarrow> Some (Wrap ''unmarshaling postgres event'' (Errorf ''invalid payload''), s)
      | Some signal \<Rightarrow>
          (case relay_signal signal s of
             Inl e \<Rightarrow> Some (e, s)
           | Inr None \<Rightarrow> None
           | Inr (Some s1) \<Rightarrow> signal_relay unmarshal payloads s1))"

section \<open>The signaler with its goroutines\<close>

datatype relay_state = RelayIdle | RelayFound JobSignal nat | RelaySent TfeID | RelayCrashed

text \<open>
  Beside the signaler: where the relay is, the job of each subscription in the order of the channels,
  the subscriptions whose context is done, those whose goroutine still waits for that, what their
  callers got, and the signals relayed so far.
\<close>

record signal_sys =
  ss_signaler :: signaler
  ss_relay :: relay_state
  ss_jobs :: "TfeID list"
  ss_done :: "nat set"
  ss_waiting :: "nat set"
  ss_results :: "nat \<rightharpoonup> JobSignal \<times> error option"
  ss_log :: "JobSignal list"

definition context_error :: "signal_sys \<Rightarrow> nat \<Rightarrow> error option" where
  "context_error s i = (if i \<in> ss_done s then Some (Errorf ''context canceled'') else None)"

inductive signal_step :: "signal_sys \<Rightarrow> signal_sys \<Rightarrow> bool" where
  Awaits: "awaitJobSignal jobID (ss_signaler s) = (ch, sg) \<Longrightarrow>
    signal_step s (s\<lparr>ss_signaler := sg, ss_jobs := ss_jobs s @ [jobID], ss_waiting := insert ch (ss_waiting s)\<rparr>)"
| Cancels: "signal_step s (s\<lparr>ss_done := insert i (ss_done s)\<rparr>)"
| Cleans: "i \<in> ss_waiting s \<Longrightarrow> i \<in> ss_done s \<Longrightarrow> signaler_unsubscribe (ss_jobs s ! i) (ss_signaler s) = Inr sg \<Longrightarrow>
    signal_step s (s\<lparr>ss_signaler := sg, ss_waiting := ss_waiting s - {i}\<rparr>)"
| Looks: "ss_relay s = RelayIdle \<Longrightarrow>
    signal_step s (s\<lparr>ss_relay := (case sg_subscribers (ss_signaler s) (sig_JobID signal) of
                                 None \<Rightarrow> RelayIdle | Some ch \<Rightarrow> RelayFound signal ch),
                     ss_log := ss_log s @ [signal]\<rparr>)"
| Delivers: "ss_relay s = RelayFound signal ch \<Longrightarrow> relay_send signal ch (ss_signaler s) = Inr (Some sg) \<Longrightarrow>
    signal_step s (s\<lparr>ss_signaler := sg, ss_relay := RelaySent (sig_JobID signal)\<rparr>)"
| Crashes: "ss_relay s = RelayFound signal ch \<Longrightarrow> relay_send signal ch (ss_signaler s) = Inl e \<Longrightarrow>
    signal_step s (s\<lparr>ss_relay := RelayCrashed\<rparr>)"
| Finishes: "ss_relay s = RelaySent jobID \<Longrightarrow> signaler_unsubscribe jobID (ss_signaler s) = Inr sg \<Longrightarrow>
    signal_step s (s\<lparr>ss_signaler := sg, ss_relay := RelayIdle\<rparr>)"
| Returns: "ch < length (ss_jobs s) \<Longrightarrow> ss_results s ch = None \<Longrightarrow>
    await_result (context_error s ch) ch (ss_signaler s) = Some (r, sg) \<Longrightarrow>
    signal_step s (s\<lparr>ss_signaler := sg, ss_results := (ss_results s)(ch \<mapsto> r)\<rparr>)"

definition signal_init :: signal_sys where
  "signal_init = \<lparr>ss_signaler = newJobSignaler, ss_relay = RelayIdle, ss_jobs = [], ss_done = {}, ss_waiting = {},
     ss_results = Map.empty, ss_log = []\<rparr>"

inductive reachable_signals :: "signal_sys \<Rightarrow> bool" where
  init: "reachable_signals signal_init"
| step: "reachable_signals s \<Longrightarrow> signal_step s s' \<Longrightarrow> reachable_signals s'"

section \<open>The invariant\<close>

text \<open>
  The map leads to open channels of its jobs, a channel holds a relayed signal for its job at most, and
  the answers are such signals or those of a closed channel.
\<close>

definition sub_ok :: "signal_sys \<Rightarrow> TfeID \<Rightarrow> nat \<Rightarrow> bool" where
  "sub_ok s j ch \<longleftrightarrow> ch < length (ss_jobs s) \<and> ss_jobs s ! ch = j \<and> \<not> cn_closed (sg_chans (ss_signaler s) ! ch)"

definition sig_ok :: "signal_sys \<Rightarrow> nat \<Rightarrow> JobSignal \<Rightarrow> bool" where
  "sig_ok s ch sig \<longleftrightarrow> ch < length (ss_jobs s) \<and> sig \<in> set (ss_log s) \<and> sig_JobID sig = ss_jobs s ! ch"

definition chan_ok :: "signal_sys \<Rightarrow> nat \<Rightarrow> bool" where
  "chan_ok s ch \<longleftrightarrow> cn_cap (sg_chans (ss_signaler s) ! ch) = 1 \<and> list_all (sig_ok s ch) (cn_buf (sg_chans (ss_signaler s) ! ch))"

definition answer_ok :: "signal_sys \<Rightarrow> nat \<Rightarrow> JobSignal \<times> error option \<Rightarrow> bool" where
  "answer_ok s ch r \<longleftrightarrow> snd r = None \<and> sig_ok s ch (fst r) \<or> fst r = zero_signal"

definition signal_inv :: "signal_sys \<Rightarrow> bool" where
  "signal_inv s \<longleftrightarrow> length (sg_chans (ss_signaler s)) = length (ss_jobs s) \<and>
     (\<forall>j ch. sg_subscribers (ss_signaler s) j = Some ch \<longrightarrow> sub_ok s j ch) \<and>
     (\<forall>ch < length (ss_jobs s). chan_ok s ch) \<and>
     (\<forall>sig ch. ss_relay s = RelayFound sig ch \<longrightarrow> sig_ok s ch sig) \<and>
     (\<forall>ch r. ss_results s ch = Some r \<longrightarrow> answer_ok s ch r)"

lemma signal_invI:
  "length (sg_chans (ss_signaler s)) = length (ss_jobs s) \<Longrightarrow>
   (\<And>j ch. sg_subscribers (ss_signaler s) j = Some ch \<Longrightarrow> sub_ok s j ch) \<Longrightarrow>
   (\<And>ch. ch < length (ss_jobs s) \<Longrightarrow> chan_ok s ch) \<Longrightarrow>
   (\<And>sig ch. ss_relay s = RelayFound sig ch \<Longrightarrow> sig_ok s ch sig) \<Longrightarrow>
   (\<And>ch r. ss_results s ch = Some r \<Longrightarrow> answer_ok s ch r) \<Longrightarrow> signal_inv s"
  unfolding signal_inv_def by blast

lemma signal_invD:
  assumes "signal_inv s"
  shows "length (sg_chans (ss_signaler s)) = length (ss_jobs s)"
    "sg_subscribers (ss_signaler s) j = Some ch \<Longrightarrow> sub_ok s j ch"
    "i < length (ss_jobs s) \<Longrightarrow> chan_ok s i"
    "ss_relay s = RelayFound sig ch \<Longrightarrow> sig_ok s ch sig"
    "ss_results s i = Some r \<Longrightarrow> answer_ok s i r"
  using assms unfolding signal_inv_def by blast+

text \<open>A step that lets the jobs and the log grow keeps what it does not touch.\<close>

lemma ok_grows:
  assumes "\<exists>js. ss_jobs s' = ss_jobs s @ js" "set (ss_log s) \<subseteq> set (ss_log s')"
  shows "sig_ok s ch sig \<Longrightarrow> sig_ok s' ch sig" "answer_ok s ch r \<Longrightarrow> answer_ok s' ch r"
    "chan_ok s ch \<Longrightarrow> sg_chans (ss_signaler s') ! ch = sg_chans (ss_signaler s) ! ch \<Longrightarrow> chan_ok s' ch"
    "sub_ok s j ch \<Longrightarrow> cn_closed (sg_chans (ss_signaler s') ! ch) = cn_closed (sg_chans (ss_signaler s) ! ch) \<Longrightarrow> sub_ok s' j ch"
proof -
  obtain js where js: "ss_jobs s' = ss_jobs s @ js" using assms(1) by blast
  show sig: "sig_ok s ch sig \<Longrightarrow> sig_ok s' ch sig" for sig
    using assms(2) by (auto simp: sig_ok_def js nth_append)
  then show "answer_ok s ch r \<Longrightarrow> answer_ok s' ch r" by (auto simp: answer_ok_def)
  show "chan_ok s ch \<Longrightarrow> sg_chans (ss_signaler s') ! ch = sg_chans (ss_signaler s) ! ch \<Longrightarrow> chan_ok s' ch"
    using sig by (auto simp: chan_ok_def list_all_iff)
  show "sub_ok s j ch \<Longrightarrow> cn_closed (sg_chans (ss_signaler s') ! ch) = cn_closed (sg_chans (ss_signaler s) ! ch) \<Longrightarrow> sub_ok s' j ch"
    by (auto simp: sub_ok_def js nth_append)
qed

lemma unsubscribe_inv:
  assumes "signal_inv s" "signaler_unsubscribe j (ss_signaler s) = Inr sg"
    "\<And>sig ch. rs = RelayFound sig ch \<Longrightarrow> ss_relay s = rs"
  shows "signal_inv (s\<lparr>ss_signaler := sg, ss_relay := rs, ss_waiting := w\<rparr>)" (is "signal_inv ?s")
proof -
  note inv = signal_invD [OF assms(1)] and grows = ok_grows [of ?s s]
  show ?thesis
  proof (cases "sg_subscribers (ss_signaler s) j")
    case None
    then have "sg = ss_signaler s" using assms(2) by (simp add: signaler_unsubscribe_def)
    then show ?thesis using inv grows assms(3) by (intro signal_invI) auto
  next
    case (Some ch)
    have ch: "ch < length (ss_jobs s)" "ss_jobs s ! ch = j" "\<not> cn_closed (sg_chans (ss_signaler s) ! ch)"
      using inv(2) [OF Some] by (auto simp: sub_ok_def)
    then have sg: "sg = \<lparr>sg_subscribers = (sg_subscribers (ss_signaler s))(j := None),
        sg_chans = (sg_chans (ss_signaler s))[ch := (sg_chans (ss_signaler s) ! ch)\<lparr>cn_closed := True\<rparr>]\<rparr>"
      using assms(2) Some by (simp add: signaler_unsubscribe_def chan_close_def)
    have nth: "sg_chans sg ! i = (if i = ch then (sg_chans (ss_signaler s) ! ch)\<lparr>cn_closed := True\<rparr> else sg_chans (ss_signaler s) ! i)" for i
      using ch inv(1) by (simp add: sg nth_list_update)
    show ?thesis
    proof (rule signal_invI, goal_cases)
      case 1
      show ?case using inv(1) by (simp add: sg)
    next
      case (2 j' ch')
      then have j': "j' \<noteq> j" "sg_subscribers (ss_signaler s) j' = Some ch'" by (auto simp: sg split: if_splits)
      then have "ch' \<noteq> ch" using inv(2) [OF j'(2)] ch(2) by (auto simp: sub_ok_def)
      then show ?case using inv(2) [OF j'(2)] nth by (simp add: sub_ok_def)
    next
      case (3 i)
      then show ?case using inv(3) [of i] nth grows(1) by (auto simp: chan_ok_def list_all_iff)
    next
      case (4 sig i)
      then show ?case using inv(4) assms(3) grows(1) by auto
    next
      case (5 i r)
      then show ?case using inv(5) grows(2) by auto
    qed
  qed
qed

lemma signal_step_inv: "signal_step s s' \<Longrightarrow> signal_inv s \<Longrightarrow> signal_inv s'"
proof (induction rule: signal_step.induct)
  case (Awaits jobID s ch sg)
  let ?s = "s\<lparr>ss_signaler := sg, ss_jobs := ss_jobs s @ [jobID], ss_waiting := insert ch (ss_waiting s)\<rparr>"
  note inv = signal_invD [OF Awaits.prems] and grows = ok_grows [of ?s s]
  have ch: "ch = length (ss_jobs s)" "sg_subscribers sg = (sg_subscribers (ss_signaler s))(jobID \<mapsto> ch)"
    "sg_chans sg = sg_chans (ss_signaler s) @ [make_chan 1]"
    using Awaits.hyps inv(1) by (auto simp: awaitJobSignal_def Let_def)
  then have nth: "sg_chans sg ! i = (if i = length (ss_jobs s) then make_chan 1 else sg_chans (ss_signaler s) ! i)"
    if "i < Suc (length (ss_jobs s))" for i using that inv(1) by (simp add: nth_append)
  show ?case
  proof (rule signal_invI, goal_cases)
    case (2 j i)
    then show ?case
    proof (cases "j = jobID")
      case True
      with 2 ch nth [of ch] show ?thesis by (auto simp: sub_ok_def make_chan_def nth_append)
    next
      case False
      with 2 ch have "sg_subscribers (ss_signaler s) j = Some i" by simp
      from inv(2) [OF this] show ?thesis using nth [of i] grows(4) by (simp add: sub_ok_def nth_append)
    qed
  next
    case (3 i)
    then show ?case
      using nth [of i] inv(3) [of i] grows(3) [of i] by (cases "i = length (ss_jobs s)") (simp_all add: chan_ok_def [of ?s] make_chan_def)
  qed (use inv grows(1,2) ch(3) in auto)
next
  case (Cancels s i)
  then show ?case
    using signal_invD [OF Cancels.prems] ok_grows [of "s\<lparr>ss_done := insert i (ss_done s)\<rparr>" s] by (intro signal_invI) auto
next
  case (Cleans i s sg)
  then show ?case using unsubscribe_inv [of s _ sg "ss_relay s" "ss_waiting s - {i}"] by simp
next
  case (Looks s signal)
  let ?rs = "case sg_subscribers (ss_signaler s) (sig_JobID signal) of None \<Rightarrow> RelayIdle | Some ch \<Rightarrow> RelayFound signal ch"
  let ?s = "s\<lparr>ss_relay := ?rs, ss_log := ss_log s @ [signal]\<rparr>"
  note inv = signal_invD [OF Looks.prems]
  have "\<exists>js. ss_jobs ?s = ss_jobs s @ js" "set (ss_log s) \<subseteq> set (ss_log ?s)" by auto
  note grows = ok_grows [OF this]
  show ?case
  proof (rule signal_invI, goal_cases)
    case (4 sig ch)
    then have "sig = signal" "sub_ok s (sig_JobID signal) ch" using inv(2) by (auto split: option.splits)
    then show ?case by (simp add: sub_ok_def sig_ok_def)
  qed (use inv grows in simp_all)
next
  case (Delivers s signal ch sg)
  note inv = signal_invD [OF Delivers.prems]
    and grows = ok_grows [of "s\<lparr>ss_signaler := sg, ss_relay := RelaySent (sig_JobID signal)\<rparr>" s]
  have ch: "ch < length (ss_jobs s)" using inv(4) [OF Delivers.hyps(1)] by (simp add: sig_ok_def)
  have sg: "sg = (ss_signaler s)\<lparr>sg_chans := (sg_chans (ss_signaler s))[ch := (sg_chans (ss_signaler s) ! ch)
      \<lparr>cn_buf := cn_buf (sg_chans (ss_signaler s) ! ch) @ [signal]\<rparr>]\<rparr>"
    using Delivers.hyps(2) by (auto simp: relay_send_def chan_send_def split: if_splits)
  have nth: "sg_chans sg ! i = (if i = ch then (sg_chans (ss_signaler s) ! ch)
      \<lparr>cn_buf := cn_buf (sg_chans (ss_signaler s) ! ch) @ [signal]\<rparr> else sg_chans (ss_signaler s) ! i)" for i
    using ch inv(1) by (simp add: sg nth_list_update)
  show ?case
  proof (rule signal_invI, goal_cases)
    case (2 j i)
    then show ?case using inv(2) [of j i] nth grows(4) [of j i] by (simp add: sg)
  next
    case (3 i)
    then show ?case
      using inv(3) [of i] nth grows(1) inv(4) [OF Delivers.hyps(1)] by (auto simp: chan_ok_def list_all_iff)
  qed (use inv grows(1,2) in \<open>auto simp: sg\<close>)
next
  case (Crashes s signal ch e)
  then show ?case
    using signal_invD [OF Crashes.prems] ok_grows [of "s\<lparr>ss_relay := RelayCrashed\<rparr>" s] by (intro signal_invI) auto
next
  case (Finishes s jobID sg)
  then show ?case using unsubscribe_inv [of s jobID sg RelayIdle "ss_waiting s"] by simp
next
  case (Returns ch s r sg)
  note inv = signal_invD [OF Returns.prems]
    and grows = ok_grows [of "s\<lparr>ss_signaler := sg, ss_results := (ss_results s)(ch \<mapsto> r)\<rparr>" s]
  from Returns.hyps(1,3) inv(1) have sg: "length (sg_chans sg) = length (ss_jobs s)" "sg_subscribers sg = sg_subscribers (ss_signaler s)"
    "\<And>i. i < length (ss_jobs s) \<Longrightarrow> cn_cap (sg_chans sg ! i) = cn_cap (sg_chans (ss_signaler s) ! i) \<and>
       cn_closed (sg_chans sg ! i) = cn_closed (sg_chans (ss_signaler s) ! i) \<and>
       set (cn_buf (sg_chans sg ! i)) \<subseteq> set (cn_buf (sg_chans (ss_signaler s) ! i))"
    "fst r \<in> set (cn_buf (sg_chans (ss_signaler s) ! ch)) \<and> snd r = None \<or> fst r = zero_signal"
    by (auto simp: await_result_def nth_list_update split: option.splits list.splits if_splits)
  show ?case
  proof (rule signal_invI, goal_cases)
    case (2 j i)
    then have "sub_ok s j i" using inv(2) sg(2) by simp
    then show ?case using grows(4) [of j i] sg(3) [of i] by (simp add: sub_ok_def)
  next
    case (3 i)
    then show ?case using inv(3) [of i] sg(3) [of i] grows(1) by (auto simp: chan_ok_def list_all_iff)
  next
    case (5 i q)
    then show ?case
      using inv(5) [of i q] grows(1,2) sg(4) inv(3) [OF Returns.hyps(1)]
      by (cases "i = ch") (auto simp: chan_ok_def list_all_iff answer_ok_def [of _ ch])
  qed (use inv grows(1) sg in auto)
qed

lemma reachable_signal_inv: "reachable_signals s \<Longrightarrow> signal_inv s"
proof (induction rule: reachable_signals.induct)
  case init
  show ?case by (simp add: signal_inv_def signal_init_def newJobSignaler_def)
qed (rule signal_step_inv)

section \<open>What a caller is told\<close>

text \<open>
  A signal that a caller is told of was sent for its job. Whatever the interleaving of
  subscriptions, cancelations and the relay, an answer is either a signal for the job that was awaited,
  which the relay has read, without an error, or the zero signal of a closed channel.
\<close>

theorem awaited_signal:
  assumes "reachable_signals s" "ss_results s i = Some (sig, e)"
  shows "sig = zero_signal \<or> e = None \<and> sig \<in> set (ss_log s) \<and> sig_JobID sig = ss_jobs s ! i"
  using signal_invD(5) [OF reachable_signal_inv [OF assms(1)] assms(2)] by (auto simp: answer_ok_def sig_ok_def)

text \<open>Without interruption, the one subscriber to the job of a signal gets it, once.\<close>

lemma relay_signal_delivers:
  assumes "sg_subscribers s (sig_JobID sig) = Some ch" "ch < length (sg_chans s)" "sg_chans s ! ch = make_chan 1"
  obtains s1 s2 where "relay_signal sig s = Inr (Some s1)" "sg_subscribers s1 = (sg_subscribers s)(sig_JobID sig := None)"
    "await_result e ch s1 = Some ((sig, None), s2)" "await_result e ch s2 = Some ((zero_signal, e), s2)"
proof -
  let ?c = "(make_chan 1)\<lparr>cn_buf := [sig], cn_closed := True\<rparr>"
  let ?s1 = "\<lparr>sg_subscribers = (sg_subscribers s)(sig_JobID sig := None), sg_chans = (sg_chans s)[ch := ?c]\<rparr>"
  show thesis
    by (rule that [of ?s1 "?s1\<lparr>sg_chans := (sg_chans s)[ch := ?c\<lparr>cn_buf := []\<rparr>]\<rparr>"])
      (use assms in \<open>auto simp: relay_signal_def relay_send_def chan_send_def signaler_unsubscribe_def chan_close_def
          await_result_def make_chan_def\<close>)
qed

lemma awaits_state:
  "awaitJobSignal j s = (length (sg_chans s),
     \<lparr>sg_subscribers = (sg_subscribers s)(j \<mapsto> length (sg_chans s)), sg_chans = sg_chans s @ [make_chan 1]\<rparr>)"
  by (simp add: awaitJobSignal_def Let_def)

text \<open>One subscription to a job, by the context 0.\<close>

definition one_waiter :: "TfeID \<Rightarrow> signal_sys" where
  "one_waiter j = signal_init\<lparr>ss_signaler := \<lparr>sg_subscribers = [j \<mapsto> 0], sg_chans = [make_chan 1]\<rparr>, ss_jobs := [j], ss_waiting := {0}\<rparr>"

lemma one_waiter: "reachable_signals (one_waiter j)"
proof -
  have "signal_step signal_init (one_waiter j)"
    using Awaits [of j signal_init 0 "\<lparr>sg_subscribers = [j \<mapsto> 0], sg_chans = [make_chan 1]\<rparr>"]
    by (simp add: awaits_state signal_init_def newJobSignaler_def one_waiter_def)
  with init show ?thesis by (rule step)
qed

theorem awaited_signal_witness:
  "\<exists>s sig. reachable_signals s \<and> ss_results s 0 = Some (sig, None) \<and> sig_Force sig \<and> sig \<in> set (ss_log s)"
proof -
  let ?sig = "\<lparr>sig_JobID = \<lparr>tfe_kind = JobKind, tfe_id = ''1''\<rparr>, sig_Force = True\<rparr>" and ?ch = "(make_chan 1)"
  let ?s0 = "one_waiter (sig_JobID ?sig)"
  let ?s1 = "?s0\<lparr>ss_relay := RelayFound ?sig 0, ss_log := [?sig]\<rparr>"
  let ?s2 = "?s1\<lparr>ss_signaler := (ss_signaler ?s0)\<lparr>sg_chans := [?ch\<lparr>cn_buf := [?sig]\<rparr>]\<rparr>, ss_relay := RelaySent (sig_JobID ?sig)\<rparr>"
  let ?s3 = "?s2\<lparr>ss_signaler := (ss_signaler ?s0)\<lparr>sg_chans := [?ch]\<rparr>, ss_results := [0 \<mapsto> (?sig, None)]\<rparr>"
  have "signal_step ?s0 ?s1" using Looks [of ?s0 ?sig] by (simp add: one_waiter_def signal_init_def)
  then have r1: "reachable_signals ?s1" by (rule step [OF one_waiter])
  have "signal_step ?s1 ?s2"
    using Delivers [of ?s1 ?sig 0 "ss_signaler ?s2"]
    by (simp add: relay_send_def chan_send_def make_chan_def one_waiter_def signal_init_def)
  with r1 have r2: "reachable_signals ?s2" by (rule step)
  have "signal_step ?s2 ?s3"
    using Returns [of 0 ?s2 "(?sig, None)" "ss_signaler ?s3"]
    by (simp add: await_result_def make_chan_def one_waiter_def signal_init_def)
  with r2 have r3: "reachable_signals ?s3" by (rule step)
  show ?thesis using r3 awaited_signal [OF r3, of 0 ?sig None] by (intro exI [of _ ?s3] exI [of _ ?sig]) (simp add: zero_signal_def)
qed

text \<open>
  A caller can be told of a signal that nobody sent. The goroutine of a subscription whose context
  is done ends whatever subscription to the job there is then: if the job is awaited again first, the new
  caller, whose context is not done, gets the zero signal without an error, as if the job had been
  canceled.
\<close>

theorem spurious_signal:
  "\<exists>s. reachable_signals s \<and> ss_log s = [] \<and> 1 \<notin> ss_done s \<and> ss_results s 1 = Some (zero_signal, None)"
proof -
  let ?j = "\<lparr>tfe_kind = JobKind, tfe_id = ''1''\<rparr>" and ?c = "(make_chan 1)\<lparr>cn_closed := True\<rparr>"
  let ?s0 = "one_waiter ?j"
  let ?s1 = "?s0\<lparr>ss_done := {0}\<rparr>"
  let ?s2 = "?s1\<lparr>ss_signaler := \<lparr>sg_subscribers = [?j \<mapsto> 1], sg_chans = [make_chan 1, make_chan 1]\<rparr>, ss_jobs := [?j, ?j], ss_waiting := {0, 1}\<rparr>"
  let ?s3 = "?s2\<lparr>ss_signaler := \<lparr>sg_subscribers = Map.empty, sg_chans = [make_chan 1, ?c]\<rparr>, ss_waiting := {1}\<rparr>"
  let ?s4 = "?s3\<lparr>ss_results := [1 \<mapsto> (zero_signal, None)]\<rparr>"
  have "signal_step ?s0 ?s1" using Cancels [of ?s0 0] by (simp add: one_waiter_def signal_init_def)
  then have r1: "reachable_signals ?s1" by (rule step [OF one_waiter])
  have "signal_step ?s1 ?s2"
    using Awaits [of ?j ?s1 1 "ss_signaler ?s2"] by (simp add: awaits_state one_waiter_def insert_commute)
  with r1 have r2: "reachable_signals ?s2" by (rule step)
  have "signal_step ?s2 ?s3"
    using Cleans [of 0 ?s2 "ss_signaler ?s3"] by (simp add: signaler_unsubscribe_def chan_close_def make_chan_def one_waiter_def)
  with r2 have r3: "reachable_signals ?s3" by (rule step)
  have "signal_step ?s3 ?s4"
    using Returns [of 1 ?s3 "(zero_signal, None)" "ss_signaler ?s3"]
    by (simp add: await_result_def make_chan_def context_error_def one_waiter_def signal_init_def)
  with r3 have r4: "reachable_signals ?s4" by (rule step)
  then show ?thesis by (intro exI [of _ ?s4]) (simp add: one_waiter_def signal_init_def)
qed

text \<open>
  C39: The relay can crash the server. It looks up the channel of a job with the lock held and sends
  without it: when the context of the subscription ends in between, the send is on a closed channel.
\<close>

theorem relay_can_crash:
  "\<exists>s. reachable_signals s \<and> length (ss_jobs s) = 1 \<and> ss_relay s = RelayCrashed"
proof -
  let ?sig = "\<lparr>sig_JobID = \<lparr>tfe_kind = JobKind, tfe_id = ''1''\<rparr>, sig_Force = True\<rparr>"
  let ?s0 = "one_waiter (sig_JobID ?sig)"
  let ?s1 = "?s0\<lparr>ss_relay := RelayFound ?sig 0, ss_log := [?sig]\<rparr>"
  let ?s2 = "?s1\<lparr>ss_done := {0}\<rparr>"
  let ?s3 = "?s2\<lparr>ss_signaler := \<lparr>sg_subscribers = Map.empty, sg_chans = [(make_chan 1)\<lparr>cn_closed := True\<rparr>]\<rparr>, ss_waiting := {}\<rparr>"
  have "signal_step ?s0 ?s1" using Looks [of ?s0 ?sig] by (simp add: one_waiter_def signal_init_def)
  then have r1: "reachable_signals ?s1" by (rule step [OF one_waiter])
  have "signal_step ?s1 ?s2" using Cancels [of ?s1 0] by (simp add: one_waiter_def signal_init_def)
  with r1 have r2: "reachable_signals ?s2" by (rule step)
  have "signal_step ?s2 ?s3"
    using Cleans [of 0 ?s2 "ss_signaler ?s3"] by (simp add: signaler_unsubscribe_def chan_close_def make_chan_def one_waiter_def)
  with r2 have r3: "reachable_signals ?s3" by (rule step)
  have "signal_step ?s3 (?s3\<lparr>ss_relay := RelayCrashed\<rparr>)"
    by (rule Crashes [of _ ?sig 0]) (simp_all add: relay_send_def chan_send_def)
  with r3 have "reachable_signals (?s3\<lparr>ss_relay := RelayCrashed\<rparr>)" by (rule step)
  then show ?thesis by (intro exI [of _ "?s3\<lparr>ss_relay := RelayCrashed\<rparr>"]) (simp add: one_waiter_def)
qed

end
