(* ===== verification/Providers.thy ===== *)
theory Providers
  imports Spawner "HOL-Library.List_Lexorder" "HOL-Library.Char_ord"
begin

text \<open>
  VCS providers: the kinds of providers (\<open>vcs/kind.go\<close>), their construction and update
  (\<open>vcs/provider.go\<close>), the table (\<open>vcs/db.go\<close>), the service (\<open>vcs/service.go\<close>) and the broker of their
  events (\<open>vcs/broker.go\<close>). The clients of the hosts are third-party code; constructing one is a
  parameter of the kind.
\<close>

section \<open>Operations with effects\<close>

text \<open>
  An operation on a state returns a result and the new state. What it does to the state before an error
  remains, unless a transaction undoes it.
\<close>

type_synonym ('s, 'a) op = "'s \<Rightarrow> 'a result \<times> 's"

definition then_do :: "('s, 'a) op \<Rightarrow> ('a \<Rightarrow> ('s, 'b) op) \<Rightarrow> ('s, 'b) op" where
  "then_do f g s = (case f s of (Inl e, s1) \<Rightarrow> (Inl e, s1) | (Inr x, s1) \<Rightarrow> g x s1)"

definition wrapping :: "string \<Rightarrow> ('s, 'a) op \<Rightarrow> ('s, 'a) op" where
  "wrapping msg f s = (case f s of (Inl e, s1) \<Rightarrow> (Inl (Wrap msg e), s1) | (Inr x, s1) \<Rightarrow> (Inr x, s1))"

fun for_each :: "('a \<Rightarrow> ('s, unit) op) \<Rightarrow> 'a list \<Rightarrow> ('s, unit) op" where
  "for_each f [] s = (Inr (), s)"
| "for_each f (x # xs) s = (case f x s of (Inl e, s1) \<Rightarrow> (Inl e, s1) | (Inr _, s1) \<Rightarrow> for_each f xs s1)"

lemma then_do_Inr:
  "then_do f g s = (Inr y, s') \<longleftrightarrow> (\<exists>x s1. f s = (Inr x, s1) \<and> g x s1 = (Inr y, s'))"
  by (auto simp: then_do_def split: prod.splits sum.splits)

lemma wrapping_Inr [simp]: "wrapping msg f s = (Inr x, s') \<longleftrightarrow> f s = (Inr x, s')"
  by (auto simp: wrapping_def split: prod.splits sum.splits)

section \<open>Kinds (vcs/kind.go)\<close>

record Installation =
  inst_ID :: int
  inst_AppID :: int
  inst_Username :: "string option"
  inst_Organization :: "string option"

record ClientConfig =
  cc_Token :: "string option"
  cc_Installation :: "Installation option"
  cc_BaseURL :: "string option"

text \<open>What an event handler makes of a request: the payload, a reason to ignore the event, or an error.\<close>

datatype handled = Handled VCSEvent | IgnoreEvent string | HandlerError error

record VCSKind =
  vk_ID :: string
  vk_DefaultURL :: "string option"
  vk_TokenKind :: bool
  vk_AppKind :: "((int \<Rightarrow> Installation result) result) option"
  vk_NewClient :: "ClientConfig \<Rightarrow> unit result"
  vk_EventHandler :: "string \<Rightarrow> string \<Rightarrow> handled"
  vk_SkipRepohook :: bool
  vk_TFEServiceProviders :: "string list"
  vk_Source :: "Source option"

definition GetSource :: "VCSKind \<Rightarrow> Source" where
  "GetSource k = (case vk_Source k of Some s \<Rightarrow> s | None \<Rightarrow> vk_ID k)"

text \<open>The registered kinds, with distinct identifiers; the order is that of the iteration over the map.\<close>

type_synonym kindDB = "VCSKind list"

definition RegisterKind :: "VCSKind \<Rightarrow> kindDB \<Rightarrow> kindDB" where
  "RegisterKind kind kinds = kind # filter (\<lambda>k. vk_ID k \<noteq> vk_ID kind) kinds"

definition GetKind :: "kindDB \<Rightarrow> string \<Rightarrow> VCSKind result" where
  "GetKind kinds kid =
     (case find_first (\<lambda>k. vk_ID k = kid) kinds of
        None \<Rightarrow> Inl (Errorf (''no such vcs provider kind exists: '' @ kid)) | Some k \<Rightarrow> Inr k)"

definition GetKindByTFEServiceProviderType :: "kindDB \<Rightarrow> string \<Rightarrow> VCSKind result" where
  "GetKindByTFEServiceProviderType kinds sp =
     (case find_first (\<lambda>k. sp \<in> set (vk_TFEServiceProviders k)) kinds of
        None \<Rightarrow> Inl (Errorf (''no such vcs provider kind with TFE service provider type exists: '' @ sp))
      | Some k \<Rightarrow> Inr k)"

section \<open>Providers (vcs/provider.go)\<close>

record Provider =
  vp_ID :: TfeID
  vp_Name :: string
  vp_CreatedAt :: gtime
  vp_Organization :: string
  vp_Token :: "string option"
  vp_Installation :: "Installation option"
  vp_Kind :: VCSKind
  vp_BaseURL :: "string option"
  vp_APIURL :: "string option"
  vp_ServiceProviderType :: string

record ProviderCreateOptions =
  pco_Organization :: string
  pco_Name :: string
  pco_KindID :: string
  pco_Token :: "string option"
  pco_InstallID :: "int option"
  pco_BaseURL :: "string option"
  pco_TFEServiceProviderType :: "string option"
  pco_APIURL :: "string option"

record ProviderUpdateOptions =
  puo_Name :: string
  puo_Token :: "string option"
  puo_BaseURL :: "string option"

text \<open>The credentials of a new provider: the token and the installation, by what its kind calls for.\<close>

definition provider_credentials :: "VCSKind \<Rightarrow> ProviderCreateOptions \<Rightarrow> (string option \<times> Installation option) result" where
  "provider_credentials kind opts =
     (case vk_AppKind kind of
        Some getApp \<Rightarrow>
          (case pco_InstallID opts of
             None \<Rightarrow> Inl (Errorf ''install ID required for client'')
           | Some i \<Rightarrow>
               (case getApp of Inl e \<Rightarrow> Inl e | Inr getInstallation \<Rightarrow>
               (case getInstallation i of Inl e \<Rightarrow> Inl e | Inr install \<Rightarrow> Inr (pco_Token opts, Some install))))
      | None \<Rightarrow>
          if vk_TokenKind kind
          then case pco_Token opts of
                 None \<Rightarrow> Inl (Errorf ''token required for client'')
               | Some token \<Rightarrow> Inr (Some token, None)
          else Inl (Errorf ''an installation or a token must be specified''))"

definition newProvider :: "kindDB \<Rightarrow> (nat \<Rightarrow> nat) \<Rightarrow> clock \<Rightarrow> ProviderCreateOptions \<Rightarrow> Provider result" where
  "newProvider kinds rnd clk opts =
     (case GetKind kinds (pco_KindID opts) of Inl e \<Rightarrow> Inl e | Inr kind \<Rightarrow>
     (case provider_credentials kind opts of Inl e \<Rightarrow> Inl e | Inr (token, install) \<Rightarrow>
      let baseURL = (case pco_BaseURL opts of Some u \<Rightarrow> Some u | None \<Rightarrow> vk_DefaultURL kind);
          apiURL = (case pco_APIURL opts of Some u \<Rightarrow> Some u | None \<Rightarrow> baseURL)
      in (case (case pco_TFEServiceProviderType opts of
                  Some sp \<Rightarrow> Inr sp
                | None \<Rightarrow> (case vk_TFEServiceProviders kind of [] \<Rightarrow> Inl (Panic ''index out of range'') | sp # _ \<Rightarrow> Inr sp)) of
            Inl e \<Rightarrow> Inl e
          | Inr sp \<Rightarrow>
              (case vk_NewClient kind \<lparr>cc_Token = token, cc_Installation = install, cc_BaseURL = baseURL\<rparr> of
                 Inl e \<Rightarrow> Inl e
               | Inr _ \<Rightarrow> Inr \<lparr>vp_ID = NewTfeID rnd VCSProviderKind, vp_Name = pco_Name opts, vp_CreatedAt = CurrentTimestamp None (clk 0),
                              vp_Organization = pco_Organization opts, vp_Token = token, vp_Installation = install, vp_Kind = kind,
                              vp_BaseURL = baseURL, vp_APIURL = apiURL, vp_ServiceProviderType = sp\<rparr>))))"

definition Provider_Update :: "ProviderUpdateOptions \<Rightarrow> Provider \<Rightarrow> Provider result" where
  "Provider_Update opts p =
     (if puo_Token opts = Some [] then Inl (Wrap ''token'' ErrEmptyValue)
      else let p1 = (case puo_Token opts of None \<Rightarrow> p | Some t \<Rightarrow> p\<lparr>vp_Token := Some t\<rparr>);
               p2 = (case puo_BaseURL opts of None \<Rightarrow> p1 | Some u \<Rightarrow> p1\<lparr>vp_BaseURL := Some u\<rparr>)
           in Inr (p2\<lparr>vp_Name := puo_Name opts\<rparr>))"

section \<open>The table (vcs/db.go)\<close>

record provider_row =
  pr_ID :: TfeID
  pr_Token :: "string option"
  pr_CreatedAt :: gtime
  pr_Name :: string
  pr_Kind :: string
  pr_Organization :: string
  pr_InstallAppID :: "int option"
  pr_InstallID :: "int option"
  pr_InstallUsername :: "string option"
  pr_InstallOrganization :: "string option"
  pr_BaseURL :: string
  pr_APIURL :: string
  pr_ServiceProvider :: string

text \<open>The tables of organizations and of kinds, to which a provider has foreign keys, and of providers.\<close>

record vcs_db =
  pd_organizations :: "string list"
  pd_kinds :: "string list"
  pd_providers :: "provider_row list"

definition provider_row :: "Provider \<Rightarrow> provider_row result" where
  "provider_row p =
     (case (vp_BaseURL p, vp_APIURL p) of
        (Some b, Some a) \<Rightarrow> Inr
          \<lparr>pr_ID = vp_ID p, pr_Token = vp_Token p, pr_CreatedAt = vp_CreatedAt p, pr_Name = vp_Name p, pr_Kind = vk_ID (vp_Kind p),
           pr_Organization = vp_Organization p, pr_InstallAppID = map_option inst_AppID (vp_Installation p),
           pr_InstallID = map_option inst_ID (vp_Installation p),
           pr_InstallUsername = Option.bind (vp_Installation p) inst_Username,
           pr_InstallOrganization = Option.bind (vp_Installation p) inst_Organization,
           pr_BaseURL = b, pr_APIURL = a, pr_ServiceProvider = vp_ServiceProviderType p\<rparr>
      | _ \<Rightarrow> Inl (Errorf ''null value violates not-null constraint''))"

definition db_createProvider :: "Provider \<Rightarrow> 'z vcs_db_scheme \<Rightarrow> 'z vcs_db_scheme result" where
  "db_createProvider p db =
     (case provider_row p of Inl e \<Rightarrow> Inl e | Inr row \<Rightarrow>
      if pr_ID row \<in> set (map pr_ID (pd_providers db)) then Inl ErrResourceAlreadyExists
      else if pr_Organization row \<notin> set (pd_organizations db) \<or> pr_Kind row \<notin> set (pd_kinds db) then Inl fk_error
      else Inr (db\<lparr>pd_providers := pd_providers db @ [row]\<rparr>))"

definition toProvider :: "kindDB \<Rightarrow> provider_row \<Rightarrow> Provider result" where
  "toProvider kinds row =
     (case (case pr_InstallID row of
              None \<Rightarrow> Inr None
            | Some i \<Rightarrow>
                (case pr_InstallAppID row of
                   None \<Rightarrow> Inl (Panic ''nil pointer dereference'')
                 | Some a \<Rightarrow> Inr (Some \<lparr>inst_ID = i, inst_AppID = a, inst_Username = pr_InstallUsername row,
                                       inst_Organization = pr_InstallOrganization row\<rparr>))) of
        Inl e \<Rightarrow> Inl e
      | Inr install \<Rightarrow>
          (case GetKind kinds (pr_Kind row) of Inl e \<Rightarrow> Inl e | Inr kind \<Rightarrow>
          (case vk_NewClient kind \<lparr>cc_Token = pr_Token row, cc_Installation = install, cc_BaseURL = Some (pr_BaseURL row)\<rparr> of
             Inl e \<Rightarrow> Inl e
           | Inr _ \<Rightarrow> Inr \<lparr>vp_ID = pr_ID row, vp_Name = pr_Name row, vp_CreatedAt = pr_CreatedAt row,
                          vp_Organization = pr_Organization row, vp_Token = pr_Token row, vp_Installation = install, vp_Kind = kind,
                          vp_BaseURL = Some (pr_BaseURL row), vp_APIURL = Some (pr_APIURL row),
                          vp_ServiceProviderType = pr_ServiceProvider row\<rparr>)))"

definition db_getProvider :: "kindDB \<Rightarrow> TfeID \<Rightarrow> 'z vcs_db_scheme \<Rightarrow> Provider result" where
  "db_getProvider kinds pid db =
     (case find_first (\<lambda>r. pr_ID r = pid) (pd_providers db) of
        None \<Rightarrow> Inl ErrResourceNotFound | Some row \<Rightarrow> toProvider kinds row)"

definition db_listProvidersByOrganization :: "kindDB \<Rightarrow> string \<Rightarrow> 'z vcs_db_scheme \<Rightarrow> Provider list result" where
  "db_listProvidersByOrganization kinds org db =
     collect_rows (toProvider kinds) (sort_key pr_Name (filter (\<lambda>r. pr_Organization r = org) (pd_providers db)))"

definition db_listProvidersByInstall :: "kindDB \<Rightarrow> int \<Rightarrow> 'z vcs_db_scheme \<Rightarrow> Provider list result" where
  "db_listProvidersByInstall kinds i db =
     collect_rows (toProvider kinds) (sort_key pr_Name (filter (\<lambda>r. pr_InstallID r = Some i) (pd_providers db)))"

text \<open>The columns that an update writes; without an installation its columns are set to null.\<close>

definition updated_row :: "Provider \<Rightarrow> provider_row \<Rightarrow> provider_row result" where
  "updated_row p row =
     (case vp_BaseURL p of
        None \<Rightarrow> Inl (Errorf ''null value violates not-null constraint'')
      | Some b \<Rightarrow> Inr (row\<lparr>pr_Name := vp_Name p, pr_Token := vp_Token p, pr_BaseURL := b,
                        pr_InstallAppID := map_option inst_AppID (vp_Installation p),
                        pr_InstallID := map_option inst_ID (vp_Installation p),
                        pr_InstallUsername := Option.bind (vp_Installation p) inst_Username,
                        pr_InstallOrganization := Option.bind (vp_Installation p) inst_Organization\<rparr>))"

definition db_updateProvider ::
  "kindDB \<Rightarrow> TfeID \<Rightarrow> (Provider \<Rightarrow> Provider result) \<Rightarrow> 'z vcs_db_scheme \<Rightarrow> ('z vcs_db_scheme \<times> Provider) result" where
  "db_updateProvider kinds pid f db =
     (case find_first (\<lambda>r. pr_ID r = pid) (pd_providers db) of None \<Rightarrow> Inl ErrResourceNotFound | Some row \<Rightarrow>
     (case toProvider kinds row of Inl e \<Rightarrow> Inl e | Inr p \<Rightarrow>
     (case f p of Inl e \<Rightarrow> Inl e | Inr p1 \<Rightarrow>
     (case updated_row p1 row of Inl e \<Rightarrow> Inl e | Inr row1 \<Rightarrow>
        Inr (db\<lparr>pd_providers := map (\<lambda>r. if pr_ID r = pid then row1 else r) (pd_providers db)\<rparr>, p1)))))"

section \<open>The service (vcs/service.go)\<close>

record vcs_env = access_env +
  ve_kinds :: kindDB
  ve_rnd :: "nat \<Rightarrow> nat"
  ve_clk :: clock

definition vcs_access :: "'z vcs_env_scheme \<Rightarrow> Action \<Rightarrow> ID \<Rightarrow> Subject result" where
  "vcs_access env action rid = check_access no_tables (access_env.truncate env) action VCSProviderKind rid"

abbreviation org_pointer :: "string \<Rightarrow> ID" where
  "org_pointer org \<equiv> Pointer_ID (OrganizationName_ID org)"

definition CreateVCSProvider ::
  "'e vcs_env_scheme \<Rightarrow> ProviderCreateOptions \<Rightarrow> 'z vcs_db_scheme \<Rightarrow> ('z vcs_db_scheme \<times> Provider) result" where
  "CreateVCSProvider env opts db =
     (case vcs_access env CreateAction (org_pointer (pco_Organization opts)) of Inl e \<Rightarrow> Inl e | Inr _ \<Rightarrow>
     (case newProvider (ve_kinds env) (ve_rnd env) (ve_clk env) opts of Inl e \<Rightarrow> Inl e | Inr p \<Rightarrow>
     (case db_createProvider p db of Inl e \<Rightarrow> Inl e | Inr db1 \<Rightarrow> Inr (db1, p))))"

definition UpdateVCSProvider ::
  "'e vcs_env_scheme \<Rightarrow> TfeID \<Rightarrow> ProviderUpdateOptions \<Rightarrow> 'z vcs_db_scheme \<Rightarrow> ('z vcs_db_scheme \<times> Provider) result" where
  "UpdateVCSProvider env pid opts db =
     db_updateProvider (ve_kinds env) pid
       (\<lambda>p. case vcs_access env UpdateAction (org_pointer (vp_Organization p)) of
              Inl e \<Rightarrow> Inl e | Inr _ \<Rightarrow> Provider_Update opts p) db"

definition ListVCSProviders :: "'e vcs_env_scheme \<Rightarrow> string \<Rightarrow> 'z vcs_db_scheme \<Rightarrow> Provider list result" where
  "ListVCSProviders env org db =
     (case vcs_access env ListAction (OrganizationName_ID org) of Inl e \<Rightarrow> Inl e | Inr _ \<Rightarrow>
        db_listProvidersByOrganization (ve_kinds env) org db)"

definition ListVCSProvidersByInstall :: "'e vcs_env_scheme \<Rightarrow> int \<Rightarrow> 'z vcs_db_scheme \<Rightarrow> Provider list result" where
  "ListVCSProvidersByInstall env i db =
     (case ctx_subject (ae_ctx env) of None \<Rightarrow> Inl (Errorf ''no subject in context'')
      | Some _ \<Rightarrow> db_listProvidersByInstall (ve_kinds env) i db)"

definition GetVCSProvider :: "'e vcs_env_scheme \<Rightarrow> TfeID \<Rightarrow> 'z vcs_db_scheme \<Rightarrow> Provider result" where
  "GetVCSProvider env pid db =
     (case db_getProvider (ve_kinds env) pid db of Inl e \<Rightarrow> Inl e | Inr p \<Rightarrow>
     (case vcs_access env GetAction (org_pointer (vp_Organization p)) of Inl e \<Rightarrow> Inl e | Inr _ \<Rightarrow> Inr p))"

section \<open>The broker of events (vcs/broker.go)\<close>

text \<open>Every subscriber is called with the event, in a goroutine of its own.\<close>

definition VCS_Subscribe :: "(VCSEvent \<Rightarrow> 'c) \<Rightarrow> (VCSEvent \<Rightarrow> 'c) list \<Rightarrow> (VCSEvent \<Rightarrow> 'c) list" where
  "VCS_Subscribe cb subs = subs @ [cb]"

definition VCS_Publish :: "(VCSEvent \<Rightarrow> 'c) list \<Rightarrow> VCSEvent \<Rightarrow> 'c list" where
  "VCS_Publish subs ev = map (\<lambda>sub. sub ev) subs"

section \<open>Lemmas\<close>

lemma GetKind_registered:
  "GetKind (RegisterKind k ks) i = (if i = vk_ID k then Inr k else GetKind ks i)"
proof -
  have "find_first (\<lambda>x. vk_ID x = i) (filter (\<lambda>x. vk_ID x \<noteq> vk_ID k) ks) = find_first (\<lambda>x. vk_ID x = i) ks" if "i \<noteq> vk_ID k"
    using that by (induction ks) auto
  then show ?thesis by (simp add: GetKind_def RegisterKind_def)
qed

lemma GetKind_ID: "GetKind ks i = Inr k \<Longrightarrow> vk_ID k = i"
  by (auto simp: GetKind_def split: option.splits dest: find_first_SomeD)

lemma toProvider_fields:
  "toProvider kinds row = Inr p \<Longrightarrow> vp_ID p = pr_ID row \<and> vp_Organization p = pr_Organization row \<and>
     vp_Name p = pr_Name row \<and> vp_Token p = pr_Token row \<and> vk_ID (vp_Kind p) = pr_Kind row"
  by (auto simp: toProvider_def Let_def split: option.splits sum.splits dest: GetKind_ID)

lemma newProvider_fields:
  assumes "newProvider kinds rnd clk opts = Inr p"
  shows "GetKind kinds (pco_KindID opts) = Inr (vp_Kind p)" "vp_ID p = NewTfeID rnd VCSProviderKind"
    "vp_Organization p = pco_Organization opts"
    "\<exists>u. vk_NewClient (vp_Kind p) \<lparr>cc_Token = vp_Token p, cc_Installation = vp_Installation p, cc_BaseURL = vp_BaseURL p\<rparr> = Inr u"
proof -
  obtain kind where kind: "GetKind kinds (pco_KindID opts) = Inr kind" using assms by (auto simp: newProvider_def split: sum.splits)
  obtain token install where cred: "provider_credentials kind opts = Inr (token, install)"
    using assms kind by (auto simp: newProvider_def split: sum.splits prod.splits)
  show "GetKind kinds (pco_KindID opts) = Inr (vp_Kind p)" "vp_ID p = NewTfeID rnd VCSProviderKind"
    "vp_Organization p = pco_Organization opts"
    "\<exists>u. vk_NewClient (vp_Kind p) \<lparr>cc_Token = vp_Token p, cc_Installation = vp_Installation p, cc_BaseURL = vp_BaseURL p\<rparr> = Inr u"
    using assms kind cred by (auto simp: newProvider_def Let_def split: sum.splits)
qed

lemma Installation_eta [simp]:
  "\<lparr>inst_ID = inst_ID i, inst_AppID = inst_AppID i, inst_Username = inst_Username i, inst_Organization = inst_Organization i\<rparr> = i"
  by (cases i) simp

text \<open>
  A provider is read back as it was created. Whatever is not null in the table is restored, the
  client is constructed from the same credentials, and so reading the row of a new provider succeeds and
  yields that provider.
\<close>

theorem provider_roundtrip:
  assumes "newProvider kinds rnd clk opts = Inr p" "db_createProvider p db = Inr db'"
  shows "db_getProvider kinds (vp_ID p) db' = Inr p"
proof -
  note f = newProvider_fields [OF assms(1)]
  obtain b a where urls: "vp_BaseURL p = Some b" "vp_APIURL p = Some a"
    using assms(2) by (auto simp: db_createProvider_def provider_row_def split: option.splits)
  then obtain row where row: "provider_row p = Inr row" "pr_ID row = vp_ID p" by (auto simp: provider_row_def)
  have "toProvider kinds row = Inr p"
  proof (cases "vp_Installation p")
    case None
    then show ?thesis using row(1) urls f(1,4) GetKind_ID [OF f(1)] by (auto simp: provider_row_def toProvider_def)
  next
    case (Some i)
    then show ?thesis using row(1) urls f(1,4) GetKind_ID [OF f(1)] by (auto simp: provider_row_def toProvider_def)
  qed
  moreover have "find_first (\<lambda>r. pr_ID r = vp_ID p) (pd_providers db') = Some row"
    using assms(2) row by (auto simp: db_createProvider_def find_first_append image_iff split: if_splits option.splits
        dest!: find_first_SomeD) metis
  ultimately show ?thesis by (simp add: db_getProvider_def)
qed

definition demo_kind :: VCSKind where
  "demo_kind = \<lparr>vk_ID = ''gitlab'', vk_DefaultURL = Some ''https://gitlab.com'', vk_TokenKind = True, vk_AppKind = None,
     vk_NewClient = (\<lambda>_. Inr ()), vk_EventHandler = (\<lambda>_ _. IgnoreEvent ''demo''), vk_SkipRepohook = False,
     vk_TFEServiceProviders = [''gitlab_hosted''], vk_Source = None\<rparr>"

definition demo_provider_options :: ProviderCreateOptions where
  "demo_provider_options = \<lparr>pco_Organization = ''acme'', pco_Name = ''gl'', pco_KindID = ''gitlab'', pco_Token = Some ''t'',
     pco_InstallID = None, pco_BaseURL = None, pco_TFEServiceProviderType = None, pco_APIURL = None\<rparr>"

theorem provider_roundtrip_witness:
  "\<exists>p db'. newProvider [demo_kind] (\<lambda>_. 0) (\<lambda>_. 0) demo_provider_options = Inr p \<and>
     db_createProvider p \<lparr>pd_organizations = [''acme''], pd_kinds = [''gitlab''], pd_providers = []\<rparr> = Inr db' \<and>
     vp_BaseURL p = Some ''https://gitlab.com'' \<and> db_getProvider [demo_kind] (vp_ID p) db' = Inr p"
proof -
  obtain p where p: "newProvider [demo_kind] (\<lambda>_. 0) (\<lambda>_. 0) demo_provider_options = Inr p" "vp_BaseURL p = Some ''https://gitlab.com''"
    "vp_APIURL p = Some ''https://gitlab.com''" "vp_Organization p = ''acme''" "vk_ID (vp_Kind p) = ''gitlab''"
    by (simp add: newProvider_def demo_kind_def demo_provider_options_def GetKind_def provider_credentials_def Let_def)
  then obtain db' where db': "db_createProvider p \<lparr>pd_organizations = [''acme''], pd_kinds = [''gitlab''], pd_providers = []\<rparr> = Inr db'"
    by (simp add: db_createProvider_def provider_row_def)
  show ?thesis using p db' provider_roundtrip [OF p(1) db'] by blast
qed

text \<open>Who may read a provider belongs to its organization or is site-wide.\<close>

lemma GetVCSProvider_SomeD:
  assumes "GetVCSProvider env pid db = Inr p"
  obtains row where "row \<in> set (pd_providers db)" "pr_ID row = pid" "vp_ID p = pid" "vp_Organization p = pr_Organization row"
    "toProvider (ve_kinds env) row = Inr p"
  using assms
  by (auto simp: GetVCSProvider_def db_getProvider_def split: sum.splits option.splits dest!: find_first_SomeD dest: toProvider_fields)

end
