(* ===== verification/Hooks.thy ===== *)
theory Hooks
  imports Providers
begin

text \<open>
  Webhooks of repositories and the connections that need them: hooks and their synchronisation with the
  host (\<open>repohooks/repohook.go\<close>, \<open>synchroniser.go\<close>), their table and service (\<open>repohooks/db.go\<close>,
  \<open>service.go\<close>), the handler of incoming events (\<open>repohooks/handlers.go\<close>), and the connections of
  workspaces and modules to repositories (\<open>connections/connection.go\<close>, \<open>db.go\<close>).
\<close>

section \<open>Tables\<close>

record hook_row =
  hr_ID :: string
  hr_VCSID :: "string option"
  hr_Provider :: TfeID
  hr_Secret :: string
  hr_Repo :: Repo

record conn_row =
  cr_Module :: "TfeID option"
  cr_Workspace :: "TfeID option"
  cr_Repo :: Repo
  cr_Provider :: TfeID

text \<open>The resources are the workspaces and modules, with their organizations.\<close>

record hook_db = vcs_db +
  hd_resources :: "(TfeID \<times> string) list"
  hd_hooks :: "hook_row list"
  hd_connections :: "conn_row list"

text \<open>The calls of the API of a host, each with the provider whose client makes it.\<close>

datatype host_call =
    CreateWebhook TfeID Repo string "EventType list" string
  | GetWebhook TfeID Repo string
  | UpdateWebhook TfeID string Repo string "EventType list" string
  | DeleteWebhook TfeID Repo string

record hook_sys = hook_db +
  hs_calls :: "host_call list"

text \<open>
  The answer of the host to the \<open>k\<close>-th call is \<open>he_answer k\<close>: the identifier of the webhook where there
  is one. \<open>he_uuid\<close> and \<open>he_secret\<close> are what is generated for a new hook.
\<close>

record hook_env = vcs_env +
  he_answer :: "nat \<Rightarrow> host_call \<Rightarrow> string result"
  he_uuid :: string
  he_secret :: "string result"
  he_WebhookURL :: "string \<Rightarrow> string"

text \<open>A transaction undoes what was written to the database, but not what was done at the host.\<close>

definition tx :: "(hook_sys, 'a) op \<Rightarrow> (hook_sys, 'a) op" where
  "tx f s = (case f s of (Inl e, s1) \<Rightarrow> (Inl e, s\<lparr>hs_calls := hs_calls s1\<rparr>) | (Inr x, s1) \<Rightarrow> (Inr x, s1))"

definition call_host :: "hook_env \<Rightarrow> host_call \<Rightarrow> (hook_sys, string) op" where
  "call_host env c s = (he_answer env (length (hs_calls s)) c, s\<lparr>hs_calls := hs_calls s @ [c]\<rparr>)"

section \<open>Hooks (repohook.go)\<close>

record hook =
  hk_ID :: string
  hk_cloudID :: "string option"
  hk_Provider :: TfeID
  hk_Secret :: string
  hk_Repo :: Repo
  hk_Kind :: string
  hk_Endpoint :: string

definition defaultEvents :: "EventType list" where
  "defaultEvents = [EventTypePush, EventTypePull]"

definition handlerPrefix :: string where
  "handlerPrefix = ''/webhooks/vcs''"

definition newRepohook ::
  "hook_env \<Rightarrow> string option \<Rightarrow> string option \<Rightarrow> string option \<Rightarrow> TfeID \<Rightarrow> Repo \<Rightarrow> string \<Rightarrow> hook result" where
  "newRepohook env hid secret cloudID providerID repo kind =
     (let i = (case hid of Some i \<Rightarrow> i | None \<Rightarrow> he_uuid env) in
      case (case secret of Some s \<Rightarrow> Inr s | None \<Rightarrow> he_secret env) of
        Inl e \<Rightarrow> Inl e
      | Inr sec \<Rightarrow> Inr \<lparr>hk_ID = i, hk_cloudID = cloudID, hk_Provider = providerID, hk_Secret = sec, hk_Repo = repo,
                      hk_Kind = kind, hk_Endpoint = he_WebhookURL env (handlerPrefix @ ''/'' @ i)\<rparr>)"

section \<open>The table (repohooks/db.go)\<close>

text \<open>The queries join the provider of the hook for its kind.\<close>

definition join_provider :: "'z hook_db_scheme \<Rightarrow> hook_row list \<Rightarrow> (hook_row \<times> string) list" where
  "join_provider db rows = concat (map (\<lambda>r.
     case find_first (\<lambda>p. pr_ID p = hr_Provider r) (pd_providers db) of None \<Rightarrow> [] | Some p \<Rightarrow> [(r, pr_Kind p)]) rows)"

fun scan_hook :: "hook_env \<Rightarrow> hook_row \<times> string \<Rightarrow> hook result" where
  "scan_hook env (r, kind) = newRepohook env (Some (hr_ID r)) (Some (hr_Secret r)) (hr_VCSID r) (hr_Provider r) (hr_Repo r) kind"

definition query_hooks :: "hook_env \<Rightarrow> (hook_row \<Rightarrow> bool) \<Rightarrow> 'z hook_db_scheme \<Rightarrow> hook list result" where
  "query_hooks env P db = collect_rows (scan_hook env) (join_provider db (filter P (hd_hooks db)))"

definition getOrCreateHook :: "hook_env \<Rightarrow> hook \<Rightarrow> (hook_sys, hook) op" where
  "getOrCreateHook env h s =
     (case query_hooks env (\<lambda>r. hr_Repo r = hk_Repo h \<and> hr_Provider r = hk_Provider h) s of
        Inl e \<Rightarrow> (Inl e, s)
      | Inr (h1 # _) \<Rightarrow> (Inr h1, s)
      | Inr [] \<Rightarrow>
          let row = \<lparr>hr_ID = hk_ID h, hr_VCSID = hk_cloudID h, hr_Provider = hk_Provider h, hr_Secret = hk_Secret h, hr_Repo = hk_Repo h\<rparr>
          in if hk_ID h \<in> set (map hr_ID (hd_hooks s)) \<or>
                (hk_Repo h, hk_Provider h) \<in> set (map (\<lambda>r. (hr_Repo r, hr_Provider r)) (hd_hooks s))
             then (Inl ErrResourceAlreadyExists, s)
             else if hk_Provider h \<notin> set (map pr_ID (pd_providers s)) then (Inl fk_error, s)
             else case join_provider s [row] of
                    [] \<Rightarrow> (Inl ErrResourceNotFound, s)
                  | rk # _ \<Rightarrow> (scan_hook env rk, s\<lparr>hd_hooks := hd_hooks s @ [row]\<rparr>))"

definition getHookByID :: "hook_env \<Rightarrow> string \<Rightarrow> 'z hook_db_scheme \<Rightarrow> hook result" where
  "getHookByID env hid db =
     (case query_hooks env (\<lambda>r. hr_ID r = hid) db of
        Inl e \<Rightarrow> Inl e | Inr [] \<Rightarrow> Inl ErrResourceNotFound | Inr (h # _) \<Rightarrow> Inr h)"

definition listHooks :: "hook_env \<Rightarrow> 'z hook_db_scheme \<Rightarrow> hook list result" where
  "listHooks env db = query_hooks env (\<lambda>_. True) db"

definition referenced :: "conn_row list \<Rightarrow> hook_row \<Rightarrow> bool" where
  "referenced conns r \<longleftrightarrow> list_ex (\<lambda>c. cr_Provider c = hr_Provider r \<and> cr_Repo c = hr_Repo r) conns"

definition listUnreferencedRepohooks :: "hook_env \<Rightarrow> 'z hook_db_scheme \<Rightarrow> hook list result" where
  "listUnreferencedRepohooks env db = query_hooks env (\<lambda>r. \<not> referenced (hd_connections db) r) db"

definition updateHookCloudID :: "string \<Rightarrow> string \<Rightarrow> (hook_sys, unit) op" where
  "updateHookCloudID hid cloudID s =
     (if hid \<notin> set (map hr_ID (hd_hooks s)) then (Inl ErrResourceNotFound, s)
      else (Inr (), s\<lparr>hd_hooks := map (\<lambda>r. if hr_ID r = hid then r\<lparr>hr_VCSID := Some cloudID\<rparr> else r) (hd_hooks s)\<rparr>))"

definition deleteHook :: "string \<Rightarrow> (hook_sys, unit) op" where
  "deleteHook hid s =
     (if hid \<notin> set (map hr_ID (hd_hooks s)) then (Inl ErrResourceNotFound, s)
      else (Inr (), s\<lparr>hd_hooks := filter (\<lambda>r. hr_ID r \<noteq> hid) (hd_hooks s)\<rparr>))"

section \<open>Synchronisation (synchroniser.go)\<close>

definition createAndSync :: "hook_env \<Rightarrow> hook \<Rightarrow> (hook_sys, unit) op" where
  "createAndSync env h =
     then_do (call_host env (CreateWebhook (hk_Provider h) (hk_Repo h) (hk_Secret h) defaultEvents (hk_Endpoint h)))
       (\<lambda>cloudID. updateHookCloudID (hk_ID h) cloudID)"

definition sync :: "hook_env \<Rightarrow> hook \<Rightarrow> (hook_sys, unit) op" where
  "sync env h s =
     (case hk_cloudID h of
        None \<Rightarrow> createAndSync env h s
      | Some cloudID \<Rightarrow>
          (case call_host env (GetWebhook (hk_Provider h) (hk_Repo h) cloudID) s of
             (Inl e, s1) \<Rightarrow>
               if errors_is e ErrResourceNotFound then createAndSync env h s1
               else (Inl (Wrap ''retrieving hook from cloud'' e), s1)
           | (Inr wid, s1) \<Rightarrow>
               then_do (call_host env (UpdateWebhook (hk_Provider h) wid (hk_Repo h) (hk_Secret h) defaultEvents (hk_Endpoint h)))
                 (\<lambda>_ s2. (Inr (), s2)) s1))"

section \<open>The service (repohooks/service.go)\<close>

definition CreateRepohook :: "hook_env \<Rightarrow> TfeID \<Rightarrow> Repo \<Rightarrow> (hook_sys, string) op" where
  "CreateRepohook env providerID repo s =
     (case GetVCSProvider env providerID s of
        Inl e \<Rightarrow> (Inl (Wrap ''retrieving vcs provider'' e), s)
      | Inr p \<Rightarrow>
          if vk_SkipRepohook (vp_Kind p) then (Inr [], s)
          else (case newRepohook env None None None (vp_ID p) repo (vk_ID (vp_Kind p)) of
                  Inl e \<Rightarrow> (Inl (Wrap ''constructing webhook'' e), s)
                | Inr h \<Rightarrow>
                    tx (then_do (wrapping ''getting or creating webhook'' (getOrCreateHook env h))
                      (\<lambda>h1. then_do (wrapping ''synchronising webhook'' (sync env h1)) (\<lambda>_ s2. (Inr (hk_ID h1), s2)))) s))"

definition deleteRepohook :: "hook_env \<Rightarrow> hook \<Rightarrow> (hook_sys, unit) op" where
  "deleteRepohook env h =
     then_do (wrapping ''deleting webhook from db'' (deleteHook (hk_ID h)))
       (\<lambda>_ s1. case GetVCSProvider env (hk_Provider h) s1 of
          Inl e \<Rightarrow> (Inl (Wrap ''retrieving vcs client from db'' e), s1)
        | Inr _ \<Rightarrow>
            (case hk_cloudID h of
               None \<Rightarrow> (Inl (Panic ''nil pointer dereference''), s1)
             | Some cloudID \<Rightarrow> (Inr (), snd (call_host env (DeleteWebhook (hk_Provider h) (hk_Repo h) cloudID) s1))))"

definition DeleteUnreferencedRepohooks :: "hook_env \<Rightarrow> (hook_sys, unit) op" where
  "DeleteUnreferencedRepohooks env s =
     (case listUnreferencedRepohooks env s of
        Inl e \<Rightarrow> (Inl (Wrap ''listing unreferenced webhooks'' e), s)
      | Inr hooks \<Rightarrow> for_each (deleteRepohook env) hooks s)"

definition deleteProviderRepohooks :: "hook_env \<Rightarrow> TfeID \<Rightarrow> (hook_sys, unit) op" where
  "deleteProviderRepohooks env providerID s =
     (case listHooks env s of
        Inl e \<Rightarrow> (Inl e, s)
      | Inr hooks \<Rightarrow> for_each (deleteRepohook env) (filter (\<lambda>h. hk_Provider h = providerID) hooks) s)"

definition deleteOrganizationRepohooks :: "hook_env \<Rightarrow> string \<Rightarrow> (hook_sys, unit) op" where
  "deleteOrganizationRepohooks env org s =
     (case ListVCSProviders env org s of Inl e \<Rightarrow> (Inl e, s) | Inr providers \<Rightarrow>
     (case listHooks env s of Inl e \<Rightarrow> (Inl e, s) | Inr hooks \<Rightarrow>
        for_each (\<lambda>p. for_each (deleteRepohook env) (filter (\<lambda>h. hk_Provider h = vp_ID p) hooks)) providers s))"

section \<open>Deletion of providers (vcs/service.go, vcs/db.go)\<close>

text \<open>The foreign keys of hooks and connections cascade.\<close>

definition db_deleteProvider :: "TfeID \<Rightarrow> (hook_sys, unit) op" where
  "db_deleteProvider pid s =
     (if pid \<notin> set (map pr_ID (pd_providers s)) then (Inl ErrResourceNotFound, s)
      else (Inr (), s\<lparr>pd_providers := filter (\<lambda>p. pr_ID p \<noteq> pid) (pd_providers s),
                     hd_hooks := filter (\<lambda>h. hr_Provider h \<noteq> pid) (hd_hooks s),
                     hd_connections := filter (\<lambda>c. cr_Provider c \<noteq> pid) (hd_connections s)\<rparr>))"

definition DeleteVCSProvider :: "hook_env \<Rightarrow> TfeID \<Rightarrow> (hook_sys, Provider) op" where
  "DeleteVCSProvider env pid = tx (\<lambda>s.
     case db_getProvider (ve_kinds env) pid s of Inl e \<Rightarrow> (Inl e, s) | Inr p \<Rightarrow>
     (case vcs_access env DeleteAction (org_pointer (vp_Organization p)) of Inl e \<Rightarrow> (Inl e, s) | Inr _ \<Rightarrow>
        then_do (deleteProviderRepohooks env (vp_ID p)) (\<lambda>_. then_do (db_deleteProvider pid) (\<lambda>_ s2. (Inr p, s2))) s))"

section \<open>Connections (connections/connection.go, db.go)\<close>

definition connection_of :: "TfeID \<Rightarrow> conn_row \<Rightarrow> bool" where
  "connection_of rid c \<longleftrightarrow> cr_Workspace c = Some rid \<or> cr_Module c = Some rid"

definition createConnection :: "TfeID \<Rightarrow> TfeID \<Rightarrow> Repo \<Rightarrow> (hook_sys, unit) op" where
  "createConnection providerID rid repo s =
     (if tfe_kind rid \<noteq> WorkspaceKind \<and> tfe_kind rid \<noteq> ModuleKind
      then (Inl (Errorf (''unsupported connection kind: '' @ tfe_kind rid)), s)
      else let row = \<lparr>cr_Module = (if tfe_kind rid = ModuleKind then Some rid else None),
                      cr_Workspace = (if tfe_kind rid = WorkspaceKind then Some rid else None),
                      cr_Repo = repo, cr_Provider = providerID\<rparr>
           in if list_ex (connection_of rid) (hd_connections s) then (Inl ErrResourceAlreadyExists, s)
              else if rid \<notin> set (map fst (hd_resources s)) \<or> providerID \<notin> set (map pr_ID (pd_providers s))
              then (Inl fk_error, s)
              else (Inr (), s\<lparr>hd_connections := hd_connections s @ [row]\<rparr>))"

definition deleteConnection :: "TfeID \<Rightarrow> (hook_sys, unit) op" where
  "deleteConnection rid s =
     (if tfe_kind rid \<noteq> WorkspaceKind \<and> tfe_kind rid \<noteq> ModuleKind
      then (Inl (Errorf (''unknown connection kind: '' @ TfeID_String rid)), s)
      else if \<not> list_ex (connection_of rid) (hd_connections s) then (Inl ErrResourceNotFound, s)
      else (Inr (), s\<lparr>hd_connections := filter (\<lambda>c. \<not> connection_of rid c) (hd_connections s)\<rparr>))"

definition Connect :: "hook_env \<Rightarrow> TfeID \<Rightarrow> TfeID \<Rightarrow> Repo \<Rightarrow> (hook_sys, unit) op" where
  "Connect env providerID rid repo =
     tx (then_do (wrapping ''creating webhook'' (CreateRepohook env providerID repo))
       (\<lambda>_. createConnection providerID rid repo))"

definition Disconnect :: "hook_env \<Rightarrow> TfeID \<Rightarrow> (hook_sys, unit) op" where
  "Disconnect env rid = tx (then_do (deleteConnection rid) (\<lambda>_. DeleteUnreferencedRepohooks env))"

section \<open>Incoming events (repohooks/handlers.go)\<close>

datatype hook_response = Unprocessable | NotFound error | EventIgnored | BadRequest error | EventPublished VCSEvent

text \<open>\<open>parse\<close> reads the identifier of the hook from the path of the request.\<close>

definition repohookHandler :: "hook_env \<Rightarrow> (string \<Rightarrow> string option) \<Rightarrow> string \<Rightarrow> string \<Rightarrow> 'z hook_db_scheme \<Rightarrow> hook_response" where
  "repohookHandler env parse webhook_id request db =
     (case parse webhook_id of None \<Rightarrow> Unprocessable | Some hid \<Rightarrow>
     (case getHookByID env hid db of Inl e \<Rightarrow> NotFound e | Inr h \<Rightarrow>
     (case GetKind (ve_kinds env) (hk_Kind h) of
        Inl _ \<Rightarrow> NotFound (Errorf ''no event unmarshaler found for event'')
      | Inr kind \<Rightarrow>
          (case vk_EventHandler kind request (hk_Secret h) of
             IgnoreEvent _ \<Rightarrow> EventIgnored
           | HandlerError e \<Rightarrow> BadRequest e
           | Handled payload \<Rightarrow> EventPublished (payload\<lparr>ev_VCSProviderID := hk_Provider h, ev_Source := GetSource kind\<rparr>)))))"

section \<open>The invariant\<close>

text \<open>
  Providers have distinct identifiers, a resource has one connection at most; each hook has a provider,
  is the only one of its repository and provider, and is known at the host.
\<close>

definition hooks_inv :: "'z hook_db_scheme \<Rightarrow> bool" where
  "hooks_inv db \<longleftrightarrow> distinct (map pr_ID (pd_providers db)) \<and> distinct (map hr_ID (hd_hooks db)) \<and>
     distinct (map (\<lambda>r. (hr_Repo r, hr_Provider r)) (hd_hooks db)) \<and>
     (\<forall>r \<in> set (hd_hooks db). hr_Provider r \<in> set (map pr_ID (pd_providers db)) \<and> hr_VCSID r \<noteq> None)"

definition same_tables :: "'z hook_db_scheme \<Rightarrow> 'y hook_db_scheme \<Rightarrow> bool" where
  "same_tables db db' \<longleftrightarrow> pd_organizations db = pd_organizations db' \<and> pd_kinds db = pd_kinds db' \<and>
     pd_providers db = pd_providers db' \<and> hd_resources db = hd_resources db'"

lemma hooks_invD:
  assumes "hooks_inv db"
  shows "distinct (map pr_ID (pd_providers db))" "distinct (map hr_ID (hd_hooks db))"
    "distinct (map (\<lambda>r. (hr_Repo r, hr_Provider r)) (hd_hooks db))"
    "r \<in> set (hd_hooks db) \<Longrightarrow> hr_Provider r \<in> set (map pr_ID (pd_providers db))"
    "r \<in> set (hd_hooks db) \<Longrightarrow> hr_VCSID r \<noteq> None"
  using assms by (auto simp: hooks_inv_def)

definition hook_of_row :: "hook_env \<Rightarrow> 'z hook_db_scheme \<Rightarrow> hook_row \<Rightarrow> hook" where
  "hook_of_row env db r = \<lparr>hk_ID = hr_ID r, hk_cloudID = hr_VCSID r, hk_Provider = hr_Provider r, hk_Secret = hr_Secret r,
     hk_Repo = hr_Repo r,
     hk_Kind = (case find_first (\<lambda>p. pr_ID p = hr_Provider r) (pd_providers db) of Some p \<Rightarrow> pr_Kind p | None \<Rightarrow> []),
     hk_Endpoint = he_WebhookURL env (handlerPrefix @ ''/'' @ hr_ID r)\<rparr>"

text \<open>The queries return the hooks of all rows that they select.\<close>

lemma collect_rows_ok: "(\<And>x. x \<in> set xs \<Longrightarrow> scan x = Inr (f x)) \<Longrightarrow> collect_rows scan xs = Inr (map f xs)"
  by (induction xs) auto

lemma provider_exists: "pid \<in> set (map pr_ID ps) \<Longrightarrow> \<exists>p. find_first (\<lambda>p. pr_ID p = pid) ps = Some p"
  by (cases "find_first (\<lambda>p. pr_ID p = pid) ps") (auto simp: find_first_None_iff)

lemma query_hooks_eq:
  assumes "hooks_inv db"
  shows "query_hooks env P db = Inr (map (hook_of_row env db) (filter P (hd_hooks db)))"
proof -
  have "collect_rows (scan_hook env) (join_provider db rows) = Inr (map (hook_of_row env db) rows)"
    if "set rows \<subseteq> set (hd_hooks db)" for rows
    using that
  proof (induction rows)
    case (Cons r rows)
    then obtain p where p: "find_first (\<lambda>p. pr_ID p = hr_Provider r) (pd_providers db) = Some p"
      using provider_exists [OF hooks_invD(4) [OF assms, of r]] by auto
    from Cons show ?case by (auto simp: join_provider_def p newRepohook_def hook_of_row_def Let_def)
  qed (simp add: join_provider_def)
  then show ?thesis by (simp add: query_hooks_def)
qed

lemma calls_last [simp]: "t\<lparr>hs_calls := cs, hd_hooks := hs\<rparr> = t\<lparr>hd_hooks := hs, hs_calls := cs\<rparr>"
  by (cases t) simp

section \<open>Deletion of hooks\<close>

lemma tx_Inr [simp]: "tx f s = (Inr x, s') \<longleftrightarrow> f s = (Inr x, s')"
  by (auto simp: tx_def split: prod.splits sum.splits)

lemma tx_Inl: "tx f s = (Inl e, s') \<Longrightarrow> s' = s\<lparr>hs_calls := hs_calls s'\<rparr>"
  by (auto simp: tx_def split: prod.splits sum.splits)

definition delete_call :: "hook \<Rightarrow> host_call" where
  "delete_call h = DeleteWebhook (hk_Provider h) (hk_Repo h) (the (hk_cloudID h))"

lemma deleteRepohook_ok:
  assumes "deleteRepohook env h s = (Inr u, s')"
  shows "hk_ID h \<in> set (map hr_ID (hd_hooks s)) \<and> hk_cloudID h \<noteq> None \<and>
    s' = s\<lparr>hd_hooks := filter (\<lambda>r. hr_ID r \<noteq> hk_ID h) (hd_hooks s), hs_calls := hs_calls s @ [delete_call h]\<rparr>"
  using assms
  by (auto simp: deleteRepohook_def then_do_Inr deleteHook_def call_host_def delete_call_def split: if_splits sum.splits option.splits)

lemma deleteRepohook_access:
  assumes "deleteRepohook env h s = (Inr u, s')"
  obtains t :: hook_sys and p where "GetVCSProvider env (hk_Provider h) t = Inr p" "pd_providers t = pd_providers s"
proof -
  obtain s1 where s1: "deleteHook (hk_ID h) s = (Inr (), s1)"
    "(case GetVCSProvider env (hk_Provider h) s1 of
        Inl e \<Rightarrow> (Inl (Wrap ''retrieving vcs client from db'' e), s1)
      | Inr _ \<Rightarrow>
          (case hk_cloudID h of
             None \<Rightarrow> (Inl (Panic ''nil pointer dereference''), s1)
           | Some cloudID \<Rightarrow> (Inr (), snd (call_host env (DeleteWebhook (hk_Provider h) (hk_Repo h) cloudID) s1)))) = (Inr u, s')"
    using assms by (auto simp: deleteRepohook_def then_do_Inr)
  have "pd_providers s1 = pd_providers s" using s1(1) by (auto simp: deleteHook_def split: if_splits)
  then show thesis using s1(2) that [of s1] by (cases "GetVCSProvider env (hk_Provider h) s1") auto
qed

lemma for_each_deleteRepohook:
  "for_each (deleteRepohook env) hs s = (Inr u, s') \<Longrightarrow>
     s' = s\<lparr>hd_hooks := filter (\<lambda>r. hr_ID r \<notin> set (map hk_ID hs)) (hd_hooks s), hs_calls := hs_calls s @ map delete_call hs\<rparr>"
proof (induction hs arbitrary: s)
  case (Cons h hs)
  then obtain u1 s1 where s1: "deleteRepohook env h s = (Inr u1, s1)" "for_each (deleteRepohook env) hs s1 = (Inr u, s')"
    by (auto split: prod.splits sum.splits)
  from deleteRepohook_ok [OF s1(1)] Cons.IH [OF s1(2)] show ?case
    by (auto simp: filter_filter intro!: filter_cong)
qed simp

lemma hooks_inv_filter:
  assumes "hooks_inv s" "distinct (map pr_ID ps)" "set ps \<subseteq> set (pd_providers s)"
    "\<And>r. r \<in> set (hd_hooks s) \<Longrightarrow> P r \<Longrightarrow> hr_Provider r \<in> set (map pr_ID ps)"
  shows "hooks_inv (s\<lparr>pd_providers := ps, hd_hooks := filter P (hd_hooks s)\<rparr>)"
  using assms by (auto simp: hooks_inv_def distinct_filter_map)

text \<open>With the invariant, deleting the hooks that are not referenced touches exactly those.\<close>

lemma DeleteUnreferencedRepohooks_ok:
  assumes "hooks_inv s" "DeleteUnreferencedRepohooks env s = (Inr u, s')"
  shows "s' = s\<lparr>hd_hooks := filter (referenced (hd_connections s)) (hd_hooks s),
    hs_calls := hs_calls s @ map (delete_call \<circ> hook_of_row env s) (filter (\<lambda>r. \<not> referenced (hd_connections s) r) (hd_hooks s))\<rparr>"
proof -
  let ?P = "\<lambda>r. \<not> referenced (hd_connections s) r"
  have "for_each (deleteRepohook env) (map (hook_of_row env s) (filter ?P (hd_hooks s))) s = (Inr u, s')"
    using assms(2) by (simp add: DeleteUnreferencedRepohooks_def listUnreferencedRepohooks_def query_hooks_eq [OF assms(1)])
  note eff = for_each_deleteRepohook [OF this]
  have "filter (\<lambda>r. hr_ID r \<notin> set (map hk_ID (map (hook_of_row env s) (filter ?P (hd_hooks s))))) (hd_hooks s) =
      filter (referenced (hd_connections s)) (hd_hooks s)"
  proof (rule filter_cong [OF refl])
    fix r
    assume r: "r \<in> set (hd_hooks s)"
    have "r = r'" if "r' \<in> set (hd_hooks s)" "hr_ID r' = hr_ID r" for r'
      using hooks_invD(2) [OF assms(1)] r that by (auto simp: distinct_map inj_on_def)
    then show "(hr_ID r \<notin> set (map hk_ID (map (hook_of_row env s) (filter ?P (hd_hooks s))))) = referenced (hd_connections s) r"
      using r by (auto simp: hook_of_row_def)
  qed
  with eff show ?thesis by (simp add: comp_def)
qed

section \<open>Creation of hooks\<close>

lemma sync_ok:
  assumes "sync env h s = (Inr u, s')"
  obtains cs where "hk_cloudID h \<noteq> None" "s' = s\<lparr>hs_calls := cs\<rparr>"
  | c cs where "hk_ID h \<in> set (map hr_ID (hd_hooks s))"
      "s' = s\<lparr>hd_hooks := map (\<lambda>r. if hr_ID r = hk_ID h then r\<lparr>hr_VCSID := Some c\<rparr> else r) (hd_hooks s), hs_calls := cs\<rparr>"
proof -
  have "hk_ID h \<in> set (map hr_ID (hd_hooks t)) \<and>
      (\<exists>c cs. s' = t\<lparr>hd_hooks := map (\<lambda>r. if hr_ID r = hk_ID h then r\<lparr>hr_VCSID := Some c\<rparr> else r) (hd_hooks t), hs_calls := cs\<rparr>)"
    if "createAndSync env h t = (Inr u, s')" for t
    using that by (auto simp: createAndSync_def then_do_Inr call_host_def updateHookCloudID_def image_iff split: if_splits)
  note cs = this
  show thesis
  proof (cases "hk_cloudID h")
    case None
    then show thesis using cs [of s] assms that(2) by (auto simp: sync_def)
  next
    case (Some cloudID)
    let ?s1 = "s\<lparr>hs_calls := hs_calls s @ [GetWebhook (hk_Provider h) (hk_Repo h) cloudID]\<rparr>"
    show thesis
    proof (cases "he_answer env (length (hs_calls s)) (GetWebhook (hk_Provider h) (hk_Repo h) cloudID)")
      case (Inl e)
      with assms Some have "createAndSync env h ?s1 = (Inr u, s')" by (auto simp: sync_def call_host_def split: if_splits)
      from cs [OF this] show thesis using that(2) by auto
    next
      case (Inr wid)
      then show thesis using that(1) assms Some by (auto simp: sync_def call_host_def then_do_Inr)
    qed
  qed
qed

lemma getOrCreateHook_ok:
  assumes "hooks_inv s" "getOrCreateHook env h s = (Inr h1, s1)" "hk_Provider h \<in> set (map pr_ID (pd_providers s))"
  obtains r where "r \<in> set (hd_hooks s)" "hr_Repo r = hk_Repo h" "hr_Provider r = hk_Provider h" "hk_ID h1 = hr_ID r"
      "hk_cloudID h1 = hr_VCSID r" "s1 = s"
  | r where "hr_Repo r = hk_Repo h" "hr_Provider r = hk_Provider h" "hk_ID h1 = hr_ID r" "hk_cloudID h1 = hr_VCSID r"
      "hr_VCSID r = hk_cloudID h" "hr_ID r \<notin> set (map hr_ID (hd_hooks s))"
      "(hr_Repo r, hr_Provider r) \<notin> set (map (\<lambda>r. (hr_Repo r, hr_Provider r)) (hd_hooks s))"
      "s1 = s\<lparr>hd_hooks := hd_hooks s @ [r]\<rparr>"
proof (cases "filter (\<lambda>r. hr_Repo r = hk_Repo h \<and> hr_Provider r = hk_Provider h) (hd_hooks s)")
  case (Cons r rs)
  then have r: "r \<in> set (hd_hooks s)" "hr_Repo r = hk_Repo h" "hr_Provider r = hk_Provider h" by (auto dest: filter_eq_ConsD)
  have "getOrCreateHook env h s = (Inr (hook_of_row env s r), s)"
    using Cons by (simp add: getOrCreateHook_def query_hooks_eq [OF assms(1)])
  with assms(2) have "h1 = hook_of_row env s r" "s1 = s" by auto
  then show thesis using that(1) [OF r] by (simp add: hook_of_row_def)
next
  case Nil
  let ?r = "\<lparr>hr_ID = hk_ID h, hr_VCSID = hk_cloudID h, hr_Provider = hk_Provider h, hr_Secret = hk_Secret h, hr_Repo = hk_Repo h\<rparr>"
  obtain p where "find_first (\<lambda>p. pr_ID p = hk_Provider h) (pd_providers s) = Some p" using provider_exists [OF assms(3)] by blast
  then have "join_provider s [?r] = [(?r, pr_Kind p)]" by (simp add: join_provider_def)
  then have "getOrCreateHook env h s =
     (if hk_ID h \<in> set (map hr_ID (hd_hooks s)) \<or>
         (hk_Repo h, hk_Provider h) \<in> set (map (\<lambda>r. (hr_Repo r, hr_Provider r)) (hd_hooks s))
      then (Inl ErrResourceAlreadyExists, s)
      else (Inr \<lparr>hk_ID = hk_ID h, hk_cloudID = hk_cloudID h, hk_Provider = hk_Provider h, hk_Secret = hk_Secret h,
              hk_Repo = hk_Repo h, hk_Kind = pr_Kind p, hk_Endpoint = he_WebhookURL env (handlerPrefix @ ''/'' @ hk_ID h)\<rparr>,
            s\<lparr>hd_hooks := hd_hooks s @ [?r]\<rparr>))"
    using Nil assms(3) by (simp add: getOrCreateHook_def query_hooks_eq [OF assms(1)] newRepohook_def Let_def del: set_map)
  with assms(2) show thesis by (intro that(2) [of ?r]) (auto simp del: set_map split: if_splits)
qed

lemma hooks_inv_calls [simp]: "hooks_inv (s\<lparr>hs_calls := cs\<rparr>) = hooks_inv s"
  by (simp add: hooks_inv_def)

text \<open>A hook that is created is the one of its repository and provider, and the others are untouched.\<close>

definition hook_key :: "hook_row \<Rightarrow> Repo \<times> TfeID" where
  "hook_key r = (hr_Repo r, hr_Provider r)"

definition set_cloud :: "string \<Rightarrow> string \<Rightarrow> hook_row \<Rightarrow> hook_row" where
  "set_cloud i c r = (if hr_ID r = i then r\<lparr>hr_VCSID := Some c\<rparr> else r)"

lemma set_cloud_fields [simp]:
  "hr_ID (set_cloud i c r) = hr_ID r" "hook_key (set_cloud i c r) = hook_key r" "hr_Provider (set_cloud i c r) = hr_Provider r"
  "hr_VCSID (set_cloud i c r) = (if hr_ID r = i then Some c else hr_VCSID r)"
  "hr_ID r \<noteq> i \<Longrightarrow> set_cloud i c r = r"
  by (auto simp: set_cloud_def hook_key_def)

lemma hooks_inv_iff:
  "hooks_inv s \<longleftrightarrow> distinct (map pr_ID (pd_providers s)) \<and> distinct (map hr_ID (hd_hooks s)) \<and> distinct (map hook_key (hd_hooks s)) \<and>
     (\<forall>r \<in> set (hd_hooks s). hr_Provider r \<in> set (map pr_ID (pd_providers s)) \<and> hr_VCSID r \<noteq> None)"
  by (simp add: hooks_inv_def hook_key_def [abs_def])

lemma hooks_inv_update:
  assumes "distinct (map hr_ID rows)" "distinct (map hook_key rows)" "distinct (map pr_ID (pd_providers s))"
    "\<And>r. r \<in> set rows \<Longrightarrow> hr_Provider r \<in> set (map pr_ID (pd_providers s)) \<and> (hr_VCSID r \<noteq> None \<or> hr_ID r = i)"
  shows "hooks_inv (s\<lparr>hd_hooks := map (set_cloud i c) rows, hs_calls := cs\<rparr>)"
  using assms by (auto simp: hooks_inv_iff comp_def)

text \<open>The effect of one hook on the others.\<close>

definition hook_ensured :: "hook_sys \<Rightarrow> Repo \<times> TfeID \<Rightarrow> string \<Rightarrow> hook_sys \<Rightarrow> bool" where
  "hook_ensured s key i s' \<longleftrightarrow> (\<exists>hooks calls. s' = s\<lparr>hd_hooks := hooks, hs_calls := calls\<rparr> \<and> hooks_inv s' \<and>
     set (map hook_key hooks) = insert key (set (map hook_key (hd_hooks s))) \<and>
     filter (\<lambda>r. hook_key r \<noteq> key) hooks = filter (\<lambda>r. hook_key r \<noteq> key) (hd_hooks s) \<and>
     list_ex (\<lambda>r. hook_key r = key \<and> hr_ID r = i) hooks)"

lemma hook_ensuredI:
  assumes "distinct (map hr_ID rows)" "distinct (map hook_key rows)" "distinct (map pr_ID (pd_providers s))"
    "\<And>r. r \<in> set rows \<Longrightarrow> hr_Provider r \<in> set (map pr_ID (pd_providers s)) \<and> (hr_VCSID r \<noteq> None \<or> hr_ID r = i)"
    "set (map hook_key rows) = insert key (set (map hook_key (hd_hooks s)))"
    "filter (\<lambda>r. hook_key r \<noteq> key) rows = filter (\<lambda>r. hook_key r \<noteq> key) (hd_hooks s)"
    "r0 \<in> set rows" "hook_key r0 = key" "hr_ID r0 = i"
  shows "hook_ensured s key i (s\<lparr>hd_hooks := map (set_cloud i c) rows, hs_calls := cs\<rparr>)"
proof -
  have "hr_ID r \<noteq> i" if "r \<in> set rows" "hook_key r \<noteq> key" for r
    using assms(1,7,8,9) that by (auto simp: distinct_map inj_on_def)
  then have "filter (\<lambda>r. hook_key r \<noteq> key) (map (set_cloud i c) rows) = filter (\<lambda>r. hook_key r \<noteq> key) rows"
    by (auto simp: filter_map comp_def intro!: map_idI)
  moreover have "set (map hook_key (map (set_cloud i c) rows)) = set (map hook_key rows)" by (auto simp: image_iff)
  moreover have "list_ex (\<lambda>r. hook_key r = key \<and> hr_ID r = i) (map (set_cloud i c) rows)" using assms(7,8,9) by (auto simp: list_ex_iff)
  moreover have "hooks_inv (s\<lparr>hd_hooks := map (set_cloud i c) rows, hs_calls := cs\<rparr>)" by (rule hooks_inv_update) (use assms in auto)
  ultimately show ?thesis unfolding hook_ensured_def using assms(5,6) by (intro exI conjI) (rule refl, simp_all del: set_map)
qed

lemma CreateRepohook_ok:
  assumes "hooks_inv s" "CreateRepohook env pid repo s = (Inr i, s')"
  obtains p where "GetVCSProvider env pid s = Inr p" "vk_SkipRepohook (vp_Kind p)" "s' = s"
  | p where "GetVCSProvider env pid s = Inr p" "\<not> vk_SkipRepohook (vp_Kind p)" "hook_ensured s (repo, pid) i s'"
proof -
  obtain p where p: "GetVCSProvider env pid s = Inr p" using assms(2) by (auto simp: CreateRepohook_def split: sum.splits)
  then obtain row where row: "row \<in> set (pd_providers s)" "pr_ID row = pid" "vp_ID p = pid" by (rule GetVCSProvider_SomeD)
  show thesis
  proof (cases "vk_SkipRepohook (vp_Kind p)")
    case True
    then show thesis using that(1) [OF p] assms(2) p by (simp add: CreateRepohook_def)
  next
    case False
    obtain h where h: "newRepohook env None None None pid repo (vk_ID (vp_Kind p)) = Inr h" "hk_Provider h = pid" "hk_Repo h = repo"
      "hk_cloudID h = None"
      using assms(2) p False row(3) by (auto simp: CreateRepohook_def newRepohook_def Let_def split: sum.splits)
    with assms(2) p False row(3) obtain h1 s1 u where
      g: "getOrCreateHook env h s = (Inr h1, s1)" and sy: "sync env h1 s1 = (Inr u, s')" and i: "i = hk_ID h1"
      by (auto simp: CreateRepohook_def then_do_Inr)
    have pid: "hk_Provider h \<in> set (map pr_ID (pd_providers s))" using row h(2) by auto
    have inv: "distinct (map pr_ID (pd_providers s))" "distinct (map hr_ID (hd_hooks s))" "distinct (map hook_key (hd_hooks s))"
      "\<And>r. r \<in> set (hd_hooks s) \<Longrightarrow> hr_Provider r \<in> set (map pr_ID (pd_providers s)) \<and> hr_VCSID r \<noteq> None"
      using assms(1) by (auto simp: hooks_inv_iff)
    have "hook_ensured s (repo, pid) i s'"
      using assms(1) g pid
    proof (cases rule: getOrCreateHook_ok)
      case (1 r)
      then have r: "r \<in> set (hd_hooks s)" "hook_key r = (repo, pid)" "hr_ID r = i" using h i by (simp_all add: hook_key_def)
      then have keys: "set (map hook_key (hd_hooks s)) = insert (repo, pid) (set (map hook_key (hd_hooks s)))" by force
      from sy show ?thesis
      proof (cases rule: sync_ok)
        case (1 cs)
        then have "s' = s\<lparr>hd_hooks := hd_hooks s, hs_calls := cs\<rparr>" using \<open>s1 = s\<close> by simp
        then show ?thesis unfolding hook_ensured_def
          using keys r assms(1) by (intro exI conjI) (assumption, auto simp: list_ex_iff)
      next
        case (2 c cs)
        then show ?thesis
          using hook_ensuredI [OF inv(2,3,1) _ keys refl r, where c = c and cs = cs] inv(4) \<open>s1 = s\<close> i by (simp add: set_cloud_def [abs_def])
      qed
    next
      case (2 r)
      then have r: "hook_key r = (repo, pid)" "hr_ID r = i" "hr_VCSID r = None" "hr_Provider r = pid" using h i by (simp_all add: hook_key_def)
      from sy show ?thesis
      proof (cases rule: sync_ok)
        case 1
        with 2(4) r(3) show ?thesis by simp
      next
        case (2 c cs)
        have new: "hr_ID r \<notin> set (map hr_ID (hd_hooks s))" "hook_key r \<notin> set (map hook_key (hd_hooks s))"
          using \<open>hr_ID r \<notin> _\<close> \<open>(hr_Repo r, hr_Provider r) \<notin> _\<close> by (simp_all add: hook_key_def [abs_def])
        have "s' = s\<lparr>hd_hooks := map (set_cloud i c) (hd_hooks s @ [r]), hs_calls := cs\<rparr>"
          using 2(2) \<open>s1 = _\<close> i by (simp add: set_cloud_def [abs_def])
        then show ?thesis
          using hook_ensuredI [of "hd_hooks s @ [r]" s i "(repo, pid)" r, where c = c and cs = cs] new inv r pid h(2) by auto
      qed
    qed
    then show thesis using that(2) [OF p False] by blast
  qed
qed

section \<open>The system\<close>

text \<open>
  Deleting an organization first deletes the hooks of its providers (a hook of
  \<open>organization/service.go\<close>); its providers and resources go with it by the cascade of the foreign keys.
\<close>

definition delete_organization_hooks :: "hook_env \<Rightarrow> string \<Rightarrow> (hook_sys, unit) op" where
  "delete_organization_hooks env org =
     tx (then_do (deleteOrganizationRepohooks env org) (\<lambda>_ s.
       let gone = map pr_ID (filter (\<lambda>p. pr_Organization p = org) (pd_providers s));
           resources = map fst (filter (\<lambda>r. snd r = org) (hd_resources s))
       in if org \<notin> set (pd_organizations s) then (Inl ErrResourceNotFound, s)
          else (Inr (), s\<lparr>pd_organizations := filter (\<lambda>o'. o' \<noteq> org) (pd_organizations s),
             pd_providers := filter (\<lambda>p. pr_Organization p \<noteq> org) (pd_providers s),
             hd_resources := filter (\<lambda>r. snd r \<noteq> org) (hd_resources s),
             hd_hooks := filter (\<lambda>h. hr_Provider h \<notin> set gone) (hd_hooks s),
             hd_connections := filter (\<lambda>c. cr_Provider c \<notin> set gone \<and> \<not> list_ex (\<lambda>rid. connection_of rid c) resources)
               (hd_connections s)\<rparr>)))"

inductive reachable_hooks :: "hook_sys \<Rightarrow> bool" where
  init: "reachable_hooks \<lparr>pd_organizations = [], pd_kinds = kinds, pd_providers = [], hd_resources = [], hd_hooks = [],
    hd_connections = [], hs_calls = []\<rparr>"
| organization: "reachable_hooks s \<Longrightarrow> reachable_hooks (s\<lparr>pd_organizations := org # pd_organizations s\<rparr>)"
| resource: "reachable_hooks s \<Longrightarrow> org \<in> set (pd_organizations s) \<Longrightarrow>
    reachable_hooks (s\<lparr>hd_resources := (rid, org) # hd_resources s\<rparr>)"
| resource_deleted: "reachable_hooks s \<Longrightarrow>
    reachable_hooks (s\<lparr>hd_resources := filter (\<lambda>r. fst r \<noteq> rid) (hd_resources s),
                       hd_connections := filter (\<lambda>c. \<not> connection_of rid c) (hd_connections s)\<rparr>)"
| provider: "reachable_hooks s \<Longrightarrow> CreateVCSProvider (henv :: hook_env) opts s = Inr (s', p) \<Longrightarrow> reachable_hooks s'"
| provider_updated: "reachable_hooks s \<Longrightarrow> UpdateVCSProvider (henv :: hook_env) pid uopts s = Inr (s', p) \<Longrightarrow> reachable_hooks s'"
| provider_deleted: "reachable_hooks s \<Longrightarrow> DeleteVCSProvider henv pid s = (rp, s') \<Longrightarrow> reachable_hooks s'"
| connected: "reachable_hooks s \<Longrightarrow> Connect henv pid rid repo s = (r, s') \<Longrightarrow> reachable_hooks s'"
| disconnected: "reachable_hooks s \<Longrightarrow> Disconnect henv rid s = (r, s') \<Longrightarrow> reachable_hooks s'"
| organization_deleted: "reachable_hooks s \<Longrightarrow> delete_organization_hooks henv org s = (r, s') \<Longrightarrow> reachable_hooks s'"

lemma tx_inv:
  assumes "hooks_inv s" "tx f s = (r, s')" "\<And>x. f s = (Inr x, s') \<Longrightarrow> hooks_inv s'"
  shows "hooks_inv s'"
proof (cases r)
  case (Inl e)
  then have "s' = s\<lparr>hs_calls := hs_calls s'\<rparr>" using assms(2) tx_Inl by blast
  then show ?thesis using assms(1) hooks_inv_calls by metis
next
  case (Inr x)
  then show ?thesis using assms(2,3) by simp
qed

lemma hooks_inv_parts:
  "hooks_inv s \<Longrightarrow> pd_providers s' = ps \<Longrightarrow> hd_hooks s' = filter P (hd_hooks s) \<Longrightarrow> distinct (map pr_ID ps) \<Longrightarrow>
     (\<And>r. r \<in> set (hd_hooks s) \<Longrightarrow> P r \<Longrightarrow> hr_Provider r \<in> set (map pr_ID ps)) \<Longrightarrow> hooks_inv s'"
  by (auto simp: hooks_inv_iff distinct_filter_map)

lemma hook_ensured_inv: "hook_ensured s key i s1 \<Longrightarrow> hooks_inv s1"
  by (auto simp: hook_ensured_def)

lemma createConnection_ok:
  assumes "createConnection pid rid repo s = (Inr u, s')"
  obtains row where "s' = s\<lparr>hd_connections := hd_connections s @ [row]\<rparr>" "connection_of rid row" "cr_Repo row = repo" "cr_Provider row = pid"
  using assms by (auto simp: createConnection_def connection_of_def Let_def split: if_splits)

lemma Connect_ok:
  assumes "hooks_inv s" "Connect env pid rid repo s = (Inr u, s')"
  obtains p i s1 row where "GetVCSProvider env pid s = Inr p"
    "if vk_SkipRepohook (vp_Kind p) then s1 = s else hook_ensured s (repo, pid) i s1" "hooks_inv s1"
    "s' = s1\<lparr>hd_connections := hd_connections s1 @ [row]\<rparr>" "connection_of rid row" "cr_Repo row = repo" "cr_Provider row = pid"
proof -
  from assms(2) obtain i s1 where s1: "CreateRepohook env pid repo s = (Inr i, s1)" "createConnection pid rid repo s1 = (Inr u, s')"
    by (auto simp: Connect_def then_do_Inr)
  obtain row where row: "s' = s1\<lparr>hd_connections := hd_connections s1 @ [row]\<rparr>" "connection_of rid row" "cr_Repo row = repo" "cr_Provider row = pid"
    using s1(2) by (rule createConnection_ok)
  from assms(1) s1(1) show thesis
  proof (cases rule: CreateRepohook_ok)
    case (1 p)
    show thesis by (rule that [of p s i row]) (use 1 row assms(1) in auto)
  next
    case (2 p)
    show thesis by (rule that [of p s1 i row]) (use 2 row in \<open>auto dest: hook_ensured_inv\<close>)
  qed
qed

lemma Connect_inv:
  assumes "hooks_inv s" "Connect env pid rid repo s = (r, s')"
  shows "hooks_inv s'"
  using assms(2) unfolding Connect_def
proof (rule tx_inv [OF assms(1)], goal_cases)
  case (1 u)
  then have "Connect env pid rid repo s = (Inr u, s')" by (simp add: Connect_def)
  from assms(1) this show ?case by (rule Connect_ok) (auto simp: hooks_inv_def)
qed

lemma deleteConnection_ok:
  "deleteConnection rid s = (Inr u, s') \<Longrightarrow> s' = s\<lparr>hd_connections := filter (\<lambda>c. \<not> connection_of rid c) (hd_connections s)\<rparr>"
  by (auto simp: deleteConnection_def split: if_splits)

lemma Disconnect_ok:
  assumes "hooks_inv s" "Disconnect env rid s = (Inr u, s')"
  shows "hd_connections s' = filter (\<lambda>c. \<not> connection_of rid c) (hd_connections s)" "pd_providers s' = pd_providers s"
    "hd_hooks s' = filter (referenced (hd_connections s')) (hd_hooks s)"
    "hs_calls s' = hs_calls s @ map (\<lambda>r. DeleteWebhook (hr_Provider r) (hr_Repo r) (the (hr_VCSID r)))
       (filter (\<lambda>r. \<not> referenced (hd_connections s') r) (hd_hooks s))"
proof -
  let ?s1 = "s\<lparr>hd_connections := filter (\<lambda>c. \<not> connection_of rid c) (hd_connections s)\<rparr>"
  have "DeleteUnreferencedRepohooks env ?s1 = (Inr u, s')"
    using assms(2) by (auto simp: Disconnect_def then_do_Inr dest!: deleteConnection_ok)
  moreover have "hooks_inv ?s1" using assms(1) by (simp add: hooks_inv_def)
  ultimately have "s' = ?s1\<lparr>hd_hooks := filter (referenced (hd_connections ?s1)) (hd_hooks ?s1),
    hs_calls := hs_calls ?s1 @ map (delete_call \<circ> hook_of_row env ?s1) (filter (\<lambda>r. \<not> referenced (hd_connections ?s1) r) (hd_hooks ?s1))\<rparr>"
    by (intro DeleteUnreferencedRepohooks_ok)
  then show "hd_connections s' = filter (\<lambda>c. \<not> connection_of rid c) (hd_connections s)" "pd_providers s' = pd_providers s"
    "hd_hooks s' = filter (referenced (hd_connections s')) (hd_hooks s)"
    "hs_calls s' = hs_calls s @ map (\<lambda>r. DeleteWebhook (hr_Provider r) (hr_Repo r) (the (hr_VCSID r)))
       (filter (\<lambda>r. \<not> referenced (hd_connections s') r) (hd_hooks s))"
    by (simp_all add: delete_call_def hook_of_row_def comp_def)
qed

lemma Disconnect_inv:
  assumes "hooks_inv s" "Disconnect env rid s = (r, s')"
  shows "hooks_inv s'"
  using assms(2) unfolding Disconnect_def
proof (rule tx_inv [OF assms(1)], goal_cases)
  case (1 x)
  then have "Disconnect env rid s = (Inr x, s')" by (simp add: Disconnect_def)
  note ok = Disconnect_ok [OF assms(1) this]
  show ?case by (rule hooks_inv_parts [OF assms(1) ok(2,3) hooks_invD(1) [OF assms(1)] hooks_invD(4) [OF assms(1)]])
qed

lemma db_updateProvider_row:
  assumes "db_updateProvider kinds pid f s = Inr (s', p)"
  shows "\<exists>row row1. find_first (\<lambda>r. pr_ID r = pid) (pd_providers s) = Some row \<and> pr_ID row1 = pr_ID row \<and>
    s' = s\<lparr>pd_providers := map (\<lambda>r. if pr_ID r = pid then row1 else r) (pd_providers s)\<rparr>"
proof -
  obtain row row1 where "find_first (\<lambda>r. pr_ID r = pid) (pd_providers s) = Some row" "updated_row p row = Inr row1"
    "s' = s\<lparr>pd_providers := map (\<lambda>r. if pr_ID r = pid then row1 else r) (pd_providers s)\<rparr>"
    using assms by (auto simp: db_updateProvider_def split: sum.splits option.splits)
  moreover from this(2) have "pr_ID row1 = pr_ID row" by (auto simp: updated_row_def split: option.splits)
  ultimately show ?thesis by blast
qed

text \<open>Deleting the hooks of providers removes hooks only.\<close>

lemma for_each_hooks:
  "for_each (\<lambda>p. for_each (deleteRepohook env) (hs p)) ps s = (Inr u, s') \<Longrightarrow>
     \<exists>P calls. s' = s\<lparr>hd_hooks := filter P (hd_hooks s), hs_calls := calls\<rparr>"
proof (induction ps arbitrary: s)
  case Nil
  then have "s' = s\<lparr>hd_hooks := filter (\<lambda>_. True) (hd_hooks s), hs_calls := hs_calls s\<rparr>" by simp
  then show ?case by blast
next
  case (Cons p ps)
  then obtain u1 s1 where s1: "for_each (deleteRepohook env) (hs p) s = (Inr u1, s1)"
    "for_each (\<lambda>p. for_each (deleteRepohook env) (hs p)) ps s1 = (Inr u, s')" by (auto split: prod.splits sum.splits)
  from Cons.IH [OF s1(2)] for_each_deleteRepohook [OF s1(1)] show ?case by (auto simp: filter_filter)
qed

lemma DeleteVCSProvider_inv:
  assumes "hooks_inv s" "DeleteVCSProvider env pid s = (r, s')"
  shows "hooks_inv s'"
  using assms(2) unfolding DeleteVCSProvider_def
proof (rule tx_inv [OF assms(1)], goal_cases)
  case (1 p)
  then have "\<exists>i u s1. deleteProviderRepohooks env i s = (Inr u, s1) \<and> db_deleteProvider pid s1 = (Inr (), s')"
    by (auto simp: then_do_Inr split: sum.splits)
  then obtain i u s1 where q: "deleteProviderRepohooks env i s = (Inr u, s1)" "db_deleteProvider pid s1 = (Inr (), s')" by blast
  from q(1) obtain hs where "for_each (deleteRepohook env) hs s = (Inr u, s1)" by (auto simp: deleteProviderRepohooks_def split: sum.splits)
  note s1 = for_each_deleteRepohook [OF this]
  from q(2) s1 show ?case
    using hooks_invD(1,4) [OF assms(1)]
    by (intro hooks_inv_parts [OF assms(1), of s' "filter (\<lambda>p. pr_ID p \<noteq> pid) (pd_providers s)"
        "\<lambda>r. hr_ID r \<notin> set (map hk_ID hs) \<and> hr_Provider r \<noteq> pid"])
      (auto simp: db_deleteProvider_def filter_filter distinct_filter_map conj_commute image_iff split: if_splits, metis)
qed

lemma delete_organization_inv:
  assumes "hooks_inv s" "delete_organization_hooks env org s = (r, s')"
  shows "hooks_inv s'"
  using assms(2) unfolding delete_organization_hooks_def
proof (rule tx_inv [OF assms(1)], goal_cases)
  case (1 u)
  let ?gone = "\<lambda>s. map pr_ID (filter (\<lambda>p. pr_Organization p = org) (pd_providers s))"
  from 1 obtain u1 s1 where s1: "deleteOrganizationRepohooks env org s = (Inr u1, s1)"
    "pd_providers s' = filter (\<lambda>p. pr_Organization p \<noteq> org) (pd_providers s1)"
    "hd_hooks s' = filter (\<lambda>h. hr_Provider h \<notin> set (?gone s1)) (hd_hooks s1)"
    by (auto simp: then_do_Inr Let_def split: if_splits)
  from s1(1) have "\<exists>(ps :: Provider list) hs. for_each (\<lambda>p. for_each (deleteRepohook env) (filter (\<lambda>h. hk_Provider h = vp_ID p) hs)) ps s = (Inr u1, s1)"
    by (auto simp: deleteOrganizationRepohooks_def split: sum.splits)
  then obtain ps :: "Provider list" and hs where
    "for_each (\<lambda>p. for_each (deleteRepohook env) (filter (\<lambda>h. hk_Provider h = vp_ID p) hs)) ps s = (Inr u1, s1)" by blast
  from for_each_hooks [OF this] obtain P calls where P: "s1 = s\<lparr>hd_hooks := filter P (hd_hooks s), hs_calls := calls\<rparr>" by blast
  show ?case
  proof (rule hooks_inv_parts [OF assms(1), of s' "filter (\<lambda>p. pr_Organization p \<noteq> org) (pd_providers s)"
        "\<lambda>r. P r \<and> hr_Provider r \<notin> set (?gone s)"])
    show "hd_hooks s' = filter (\<lambda>r. P r \<and> hr_Provider r \<notin> set (?gone s)) (hd_hooks s)"
      unfolding s1(3) P by (simp add: filter_filter conj_commute)
  qed (use s1(2) P hooks_invD(1,4) [OF assms(1)] in \<open>auto simp: distinct_filter_map\<close>)
qed

lemma reachable_hooks_inv: "reachable_hooks s \<Longrightarrow> hooks_inv s"
proof (induction rule: reachable_hooks.induct)
  case (provider s env opts s' p)
  then obtain row where "s' = s\<lparr>pd_providers := pd_providers s @ [row]\<rparr>" "pr_ID row \<notin> set (map pr_ID (pd_providers s))"
    by (auto simp: CreateVCSProvider_def db_createProvider_def split: sum.splits if_splits)
  with provider.IH show ?case by (auto simp: hooks_inv_def)
next
  case (provider_updated s env pid uopts s' p)
  then have "\<exists>row row1. find_first (\<lambda>r. pr_ID r = pid) (pd_providers s) = Some row \<and> pr_ID row1 = pr_ID row \<and>
    s' = s\<lparr>pd_providers := map (\<lambda>r. if pr_ID r = pid then row1 else r) (pd_providers s)\<rparr>"
    unfolding UpdateVCSProvider_def by (intro db_updateProvider_row)
  then obtain row row1 where row: "find_first (\<lambda>r. pr_ID r = pid) (pd_providers s) = Some row" "pr_ID row1 = pr_ID row"
    "s' = s\<lparr>pd_providers := map (\<lambda>r. if pr_ID r = pid then row1 else r) (pd_providers s)\<rparr>" by blast
  then have "map pr_ID (map (\<lambda>r. if pr_ID r = pid then row1 else r) (pd_providers s)) = map pr_ID (pd_providers s)"
    by (auto dest: find_first_SomeD)
  with row(3) provider_updated.IH show ?case by (simp add: hooks_inv_def del: map_map set_map)
next
  case (provider_deleted s henv pid rp s')
  then show ?case by (blast intro: DeleteVCSProvider_inv)
next
  case (connected s henv pid rid repo r s')
  then show ?case by (blast intro: Connect_inv)
next
  case (disconnected s henv rid r s')
  then show ?case by (blast intro: Disconnect_inv)
next
  case (organization_deleted s henv org r s')
  then show ?case by (blast intro: delete_organization_inv)
qed (simp_all add: hooks_inv_def)

lemma distinct_key_one:
  "distinct (map f xs) \<Longrightarrow> k \<in> set (map f xs) \<Longrightarrow> length (filter (\<lambda>r. f r = k) xs) = 1"
  by (induction xs) (auto simp: filter_empty_conv, metis imageI)

section \<open>Properties\<close>


text \<open>
  C12: Connecting ensures one hook, and disconnecting leaves no hook behind. A connection that is made is
  recorded, the repository and provider have exactly one hook afterwards, unless the kind of the provider
  needs none, and other hooks are untouched. When it is removed, exactly the hooks that no other
  connection needs are deleted, from the database and from their hosts.
\<close>

theorem connect_disconnect:
  assumes "reachable_hooks s" "Connect env pid rid repo s = (Inr u, s1)"
  shows "(\<exists>row. hd_connections s1 = hd_connections s @ [row] \<and> connection_of rid row \<and> cr_Repo row = repo \<and> cr_Provider row = pid) \<and>
    (\<exists>p. GetVCSProvider env pid s = Inr p \<and>
      (if vk_SkipRepohook (vp_Kind p) then hd_hooks s1 = hd_hooks s
       else length (filter (\<lambda>r. hook_key r = (repo, pid)) (hd_hooks s1)) = 1 \<and>
         filter (\<lambda>r. hook_key r \<noteq> (repo, pid)) (hd_hooks s1) = filter (\<lambda>r. hook_key r \<noteq> (repo, pid)) (hd_hooks s))) \<and>
    (case Disconnect env' rid s1 of
       (Inl e, s2) \<Rightarrow> s2 = s1\<lparr>hs_calls := hs_calls s2\<rparr>
     | (Inr _, s2) \<Rightarrow> hd_connections s2 = filter (\<lambda>c. \<not> connection_of rid c) (hd_connections s1) \<and>
         hd_hooks s2 = filter (referenced (hd_connections s2)) (hd_hooks s1) \<and>
         hs_calls s2 = hs_calls s1 @ map (\<lambda>r. DeleteWebhook (hr_Provider r) (hr_Repo r) (the (hr_VCSID r)))
           (filter (\<lambda>r. \<not> referenced (hd_connections s2) r) (hd_hooks s1)))"
proof -
  note inv = reachable_hooks_inv [OF assms(1)]
  obtain p i s0 row where c: "GetVCSProvider env pid s = Inr p"
    "if vk_SkipRepohook (vp_Kind p) then s0 = s else hook_ensured s (repo, pid) i s0" "hooks_inv s0"
    "s1 = s0\<lparr>hd_connections := hd_connections s0 @ [row]\<rparr>" "connection_of rid row" "cr_Repo row = repo" "cr_Provider row = pid"
    by (rule Connect_ok [OF inv assms(2)])
  have conns: "hd_connections s0 = hd_connections s"
    using c(2) by (auto simp: hook_ensured_def split: if_splits)
  have one: "length (filter (\<lambda>r. hook_key r = (repo, pid)) (hd_hooks s0)) = 1" if "\<not> vk_SkipRepohook (vp_Kind p)"
  proof -
    have "(repo, pid) \<in> set (map hook_key (hd_hooks s0))" using c(2) that by (auto simp: hook_ensured_def)
    moreover have "distinct (map hook_key (hd_hooks s0))" using c(3) by (simp add: hooks_inv_iff)
    ultimately show ?thesis by (rule distinct_key_one [rotated])
  qed
  have dis: "case Disconnect env' rid s1 of
       (Inl e, s2) \<Rightarrow> s2 = s1\<lparr>hs_calls := hs_calls s2\<rparr>
     | (Inr _, s2) \<Rightarrow> hd_connections s2 = filter (\<lambda>c. \<not> connection_of rid c) (hd_connections s1) \<and>
         hd_hooks s2 = filter (referenced (hd_connections s2)) (hd_hooks s1) \<and>
         hs_calls s2 = hs_calls s1 @ map (\<lambda>r. DeleteWebhook (hr_Provider r) (hr_Repo r) (the (hr_VCSID r)))
           (filter (\<lambda>r. \<not> referenced (hd_connections s2) r) (hd_hooks s1))"
    using Disconnect_ok [OF Connect_inv [OF inv assms(2)], of env' rid] tx_Inl [of _ s1]
    by (auto simp: Disconnect_def split: prod.splits sum.splits)
  have "hd_hooks s1 = hd_hooks s" if "vk_SkipRepohook (vp_Kind p)" using c(2,4) that by simp
  moreover have "filter (\<lambda>r. hook_key r \<noteq> (repo, pid)) (hd_hooks s1) = filter (\<lambda>r. hook_key r \<noteq> (repo, pid)) (hd_hooks s)"
    if "\<not> vk_SkipRepohook (vp_Kind p)" using c(2,4) that by (auto simp: hook_ensured_def)
  ultimately show ?thesis using c conns one dis by auto
qed

text \<open>
  An orphaned hook of an organization blocks the disconnections of everybody else. Each disconnection
  deletes whatever hooks are not referenced, and needs access to their providers to do so: if there is an
  unreferenced hook of a provider that the caller may not read, every disconnection of the caller fails.
\<close>

theorem orphan_blocks_disconnect:
  assumes "reachable_hooks s" "r \<in> set (hd_hooks s)" "\<not> referenced (hd_connections s) r" "GetVCSProvider env (hr_Provider r) s = Inl e"
  shows "\<exists>e' s'. Disconnect env rid s = (Inl e', s') \<and> hd_connections s' = hd_connections s"
proof -
  note inv = reachable_hooks_inv [OF assms(1)]
  have get: "GetVCSProvider env i t = GetVCSProvider env i s" if "pd_providers t = pd_providers s" for i and t :: hook_sys
    using that by (simp add: GetVCSProvider_def db_getProvider_def)
  have blocked: "\<exists>e' t'. for_each (deleteRepohook env) hs t = (Inl e', t')"
    if "list_ex (\<lambda>h. hk_Provider h = hr_Provider r) hs" "pd_providers t = pd_providers s" for hs t
    using that
  proof (induction hs arbitrary: t)
    case (Cons h hs)
    show ?case
    proof (cases "deleteRepohook env h t")
      case (Pair a t1)
      show ?thesis
      proof (cases a)
        case (Inr u)
        have t1: "pd_providers t1 = pd_providers s" using deleteRepohook_ok [of env h t u t1] Pair Inr Cons.prems(2) by auto
        obtain t2 :: hook_sys and p where "GetVCSProvider env (hk_Provider h) t2 = Inr p" "pd_providers t2 = pd_providers t"
          using deleteRepohook_access [of env h t u t1] Pair Inr by auto
        then have "\<exists>p. GetVCSProvider env (hk_Provider h) s = Inr p" using get Cons.prems(2) by metis
        then have "hk_Provider h \<noteq> hr_Provider r" using assms(4) by auto
        with Cons.IH [OF _ t1] Cons.prems(1) Pair Inr show ?thesis by simp
      qed (use Pair in simp)
    qed
  qed simp
  have "\<exists>e' s'. then_do (deleteConnection rid) (\<lambda>_. DeleteUnreferencedRepohooks env) s = (Inl e', s')"
  proof (cases "deleteConnection rid s")
    case (Pair a s1)
    show ?thesis
    proof (cases a)
      case (Inr u)
      let ?conns = "filter (\<lambda>c. \<not> connection_of rid c) (hd_connections s)"
      have s1: "s1 = s\<lparr>hd_connections := ?conns\<rparr>" using Pair Inr deleteConnection_ok by auto
      have un: "\<not> referenced ?conns r" using assms(3) by (auto simp: referenced_def list_ex_iff)
      have "hooks_inv s1" using inv by (simp add: s1 hooks_inv_def)
      then have "DeleteUnreferencedRepohooks env s1 =
          for_each (deleteRepohook env) (map (hook_of_row env s1) (filter (\<lambda>r. \<not> referenced ?conns r) (hd_hooks s))) s1"
        by (simp only: DeleteUnreferencedRepohooks_def listUnreferencedRepohooks_def query_hooks_eq sum.case) (simp add: s1)
      moreover have "list_ex (\<lambda>h. hk_Provider h = hr_Provider r) (map (hook_of_row env s1) (filter (\<lambda>r. \<not> referenced ?conns r) (hd_hooks s)))"
        using assms(2) un by (auto simp: list_ex_iff hook_of_row_def)
      ultimately show ?thesis using blocked [of _ s1] s1 Pair Inr by (simp add: then_do_def)
    qed (use Pair in \<open>simp add: then_do_def\<close>)
  qed
  then obtain e' s' where "then_do (deleteConnection rid) (\<lambda>_. DeleteUnreferencedRepohooks env) s = (Inl e', s')" by blast
  then show ?thesis by (simp add: Disconnect_def tx_def)
qed

section \<open>Example data\<close>

definition demo_hook_env :: "Subject \<Rightarrow> hook_env" where
  "demo_hook_env subj = \<lparr>ae_ctx = \<lparr>ctx_subject = Some subj, ctx_skipAuthz = False\<rparr>, ae_policies = (\<lambda>_. Inl ErrResourceNotFound),
     ve_kinds = [demo_kind], ve_rnd = (\<lambda>_. 0), ve_clk = (\<lambda>_. 0), he_answer = (\<lambda>_ _. Inr ''77''), he_uuid = ''u1'',
     he_secret = Inr ''s'', he_WebhookURL = (\<lambda>p. ''https://otf'' @ p)\<rparr>"

lemma demo_hook_env_fields [simp]:
  "ve_kinds (demo_hook_env subj) = [demo_kind]" "ve_rnd (demo_hook_env subj) = (\<lambda>_. 0)" "ve_clk (demo_hook_env subj) = (\<lambda>_. 0)"
  "he_answer (demo_hook_env subj) k c = Inr ''77''" "he_uuid (demo_hook_env subj) = ''u1''" "he_secret (demo_hook_env subj) = Inr ''s''"
  "he_WebhookURL (demo_hook_env subj) p = ''https://otf'' @ p"
  by (simp_all add: demo_hook_env_def)

abbreviation root_hook_env :: hook_env where
  "root_hook_env \<equiv> demo_hook_env (Superuser ''root'')"

definition nobody :: Subject where
  "nobody = UserSubject \<lparr>user_ID = \<lparr>tfe_kind = UserKind, tfe_id = ''bob''\<rparr>, user_CreatedAt = 0, user_UpdatedAt = 0, user_SiteAdmin = False,
     user_Username = ''bob'', user_Teams = [], user_AvatarURL = None\<rparr>"

lemma vcs_access_root: "vcs_access root_hook_env action (org_pointer org) = Inr (Superuser ''root'')"
  "vcs_access root_hook_env action (OrganizationName_ID org) = Inr (Superuser ''root'')"
  by (simp_all add: vcs_access_def check_access_def Authorize_def demo_hook_env_def generateRequest_def access_env.truncate_def
      lineage_loop.simps otf_resolvers_def kind_defs no_tables_def parent_lookup_def Let_def req_Workspace_def req_ancestor_def)

lemma vcs_access_nobody: "vcs_access (demo_hook_env nobody) GetAction (org_pointer org) = Inl ErrAccessNotPermitted"
  by (simp add: vcs_access_def check_access_def Authorize_def demo_hook_env_def generateRequest_def access_env.truncate_def
      lineage_loop.simps otf_resolvers_def kind_defs no_tables_def parent_lookup_def Let_def nobody_def
      req_Workspace_def req_Organization_def req_ancestor_def User_CanAccess_def IsSiteAdmin_def SiteAdminID_def)

definition demo_row :: provider_row where
  "demo_row = \<lparr>pr_ID = NewTfeID (\<lambda>_. 0) VCSProviderKind, pr_Token = Some ''t'', pr_CreatedAt = CurrentTimestamp None 0, pr_Name = ''gl'',
     pr_Kind = ''gitlab'', pr_Organization = ''beta'', pr_InstallAppID = None, pr_InstallID = None, pr_InstallUsername = None,
     pr_InstallOrganization = None, pr_BaseURL = ''https://gitlab.com'', pr_APIURL = ''https://gitlab.com'',
     pr_ServiceProvider = ''gitlab_hosted''\<rparr>"

text \<open>A workspace of one organization, a provider of another, and a hook when the one is connected to the other.\<close>

definition demo_hook_ws :: TfeID where
  "demo_hook_ws = \<lparr>tfe_kind = WorkspaceKind, tfe_id = ''1''\<rparr>"

definition demo_hook_row :: hook_row where
  "demo_hook_row = \<lparr>hr_ID = ''u1'', hr_VCSID = Some ''77'', hr_Provider = pr_ID demo_row, hr_Secret = ''s'', hr_Repo = demo_repo\<rparr>"

definition demo_hook_sys :: "string list \<Rightarrow> (TfeID \<times> string) list \<Rightarrow> hook_row list \<Rightarrow> conn_row list \<Rightarrow> host_call list \<Rightarrow> hook_sys" where
  "demo_hook_sys orgs rs hooks conns calls = \<lparr>pd_organizations = orgs, pd_kinds = [''gitlab''], pd_providers = [demo_row], hd_resources = rs,
     hd_hooks = hooks, hd_connections = conns, hs_calls = calls\<rparr>"

definition demo_conn :: conn_row where
  "demo_conn = \<lparr>cr_Module = None, cr_Workspace = Some demo_hook_ws, cr_Repo = demo_repo, cr_Provider = pr_ID demo_row\<rparr>"

definition demo_calls :: "host_call list" where
  "demo_calls = [CreateWebhook (pr_ID demo_row) demo_repo ''s'' defaultEvents (''https://otf'' @ handlerPrefix @ ''/'' @ ''u1'')]"

lemma demo_get:
  "pd_providers s = [demo_row] \<Longrightarrow> GetVCSProvider root_hook_env (pr_ID demo_row) s =
     toProvider [demo_kind] demo_row"
  "\<exists>p. toProvider [demo_kind] demo_row = Inr p \<and> vp_ID p = pr_ID demo_row \<and> vp_Kind p = demo_kind \<and> vp_Organization p = ''beta''"
proof -
  show ex: "\<exists>p. toProvider [demo_kind] demo_row = Inr p \<and> vp_ID p = pr_ID demo_row \<and> vp_Kind p = demo_kind \<and> vp_Organization p = ''beta''"
    by (simp add: toProvider_def demo_row_def GetKind_def demo_kind_def)
  then show "pd_providers s = [demo_row] \<Longrightarrow> GetVCSProvider root_hook_env (pr_ID demo_row) s = toProvider [demo_kind] demo_row"
    by (auto simp: GetVCSProvider_def db_getProvider_def vcs_access_root)
qed

lemma demo_unconnected: "reachable_hooks (demo_hook_sys [''acme'', ''beta''] [(demo_hook_ws, ''acme'')] [] [] [])"
proof -
  let ?s0 = "\<lparr>pd_organizations = [], pd_kinds = [''gitlab''], pd_providers = [], hd_resources = [], hd_hooks = [], hd_connections = [], hs_calls = []\<rparr> :: hook_sys"
  have "reachable_hooks (?s0\<lparr>pd_organizations := [''acme'', ''beta'']\<rparr>)"
    using organization [OF organization [OF init [of "[''gitlab'']"]], of "''acme''" "''beta''"] by simp
  from resource [OF this, of "''acme''" demo_hook_ws]
  have r: "reachable_hooks (?s0\<lparr>pd_organizations := [''acme'', ''beta''], hd_resources := [(demo_hook_ws, ''acme'')]\<rparr>)" by simp
  have "\<exists>p. CreateVCSProvider root_hook_env (demo_provider_options\<lparr>pco_Organization := ''beta''\<rparr>)
      (?s0\<lparr>pd_organizations := [''acme'', ''beta''], hd_resources := [(demo_hook_ws, ''acme'')]\<rparr>) =
    Inr (demo_hook_sys [''acme'', ''beta''] [(demo_hook_ws, ''acme'')] [] [] [], p)"
    by (simp add: CreateVCSProvider_def vcs_access_root newProvider_def Let_def demo_provider_options_def GetKind_def demo_kind_def provider_credentials_def
        db_createProvider_def provider_row_def demo_hook_sys_def demo_row_def)
  then show ?thesis using provider [OF r] by blast
qed

lemma demo_connected:
  "Connect root_hook_env (pr_ID demo_row) demo_hook_ws demo_repo (demo_hook_sys [''acme'', ''beta''] [(demo_hook_ws, ''acme'')] [] [] []) =
     (Inr (), demo_hook_sys [''acme'', ''beta''] [(demo_hook_ws, ''acme'')] [demo_hook_row] [demo_conn] demo_calls)"
proof -
  let ?s = "demo_hook_sys [''acme'', ''beta''] [(demo_hook_ws, ''acme'')] [] [] []"
  obtain p where p: "GetVCSProvider root_hook_env (pr_ID demo_row) ?s = Inr p" "vp_ID p = pr_ID demo_row" "vp_Kind p = demo_kind"
    using demo_get(1) [of ?s] demo_get(2) by (auto simp: demo_hook_sys_def)
  have kinds: "tfe_kind demo_hook_ws = WorkspaceKind" "WorkspaceKind \<noteq> ModuleKind" by (simp_all add: demo_hook_ws_def kind_defs)
  have c: "CreateRepohook root_hook_env (pr_ID demo_row) demo_repo ?s =
      (Inr ''u1'', demo_hook_sys [''acme'', ''beta''] [(demo_hook_ws, ''acme'')] [demo_hook_row] [] demo_calls)"
    by (simp add: CreateRepohook_def p) (simp add: demo_kind_def newRepohook_def Let_def tx_def then_do_def wrapping_def
        getOrCreateHook_def query_hooks_def join_provider_def demo_hook_sys_def sync_def createAndSync_def call_host_def updateHookCloudID_def
        demo_hook_row_def demo_calls_def)
  show ?thesis
    by (simp add: Connect_def then_do_def tx_def wrapping_def c) (simp add: createConnection_def kinds demo_hook_sys_def demo_conn_def Let_def)
qed


theorem connect_disconnect_witness:
  "hd_hooks (snd (Connect root_hook_env (pr_ID demo_row) demo_hook_ws demo_repo
       (demo_hook_sys [''acme'', ''beta''] [(demo_hook_ws, ''acme'')] [] [] []))) = [demo_hook_row] \<and>
   (\<exists>row. hd_connections (snd (Connect root_hook_env (pr_ID demo_row) demo_hook_ws demo_repo
       (demo_hook_sys [''acme'', ''beta''] [(demo_hook_ws, ''acme'')] [] [] []))) = [row] \<and> connection_of demo_hook_ws row)"
proof -
  from connect_disconnect [OF demo_unconnected demo_connected, of root_hook_env] have
    "\<exists>row. hd_connections (snd (Connect root_hook_env (pr_ID demo_row) demo_hook_ws demo_repo
       (demo_hook_sys [''acme'', ''beta''] [(demo_hook_ws, ''acme'')] [] [] []))) = [row] \<and> connection_of demo_hook_ws row"
    unfolding demo_connected by (elim conjE exE) (simp add: demo_hook_sys_def)
  then show ?thesis unfolding demo_connected by (simp add: demo_hook_sys_def)
qed

lemma demo_orphaned:
  "delete_organization_hooks root_hook_env ''acme'' (demo_hook_sys [''acme'', ''beta''] [(demo_hook_ws, ''acme'')] [demo_hook_row] [demo_conn] demo_calls) =
     (Inr (), demo_hook_sys [''beta''] [] [demo_hook_row] [] demo_calls)"
proof -
  let ?s = "demo_hook_sys [''acme'', ''beta''] [(demo_hook_ws, ''acme'')] [demo_hook_row] [demo_conn] demo_calls"
  have org: "pr_Organization demo_row = ''beta''" by (simp add: demo_row_def)
  have "ListVCSProviders root_hook_env ''acme'' ?s = Inr []"
    by (simp add: ListVCSProviders_def vcs_access_root db_listProvidersByOrganization_def demo_hook_sys_def org)
  moreover have "hooks_inv ?s" using reachable_hooks_inv [OF connected [OF demo_unconnected demo_connected]] .
  ultimately have "deleteOrganizationRepohooks root_hook_env ''acme'' ?s = (Inr (), ?s)"
    by (simp add: deleteOrganizationRepohooks_def listHooks_def query_hooks_eq)
  then show ?thesis
    by (simp add: delete_organization_hooks_def tx_def then_do_def) (simp add: demo_hook_sys_def org connection_of_def demo_conn_def)
qed

theorem orphan_blocks_disconnect_witness:
  "\<exists>s. reachable_hooks s \<and> hd_hooks s = [demo_hook_row] \<and> hd_connections s = [] \<and>
     (\<exists>e' s'. Disconnect (demo_hook_env nobody) demo_hook_ws s = (Inl e', s'))"
proof -
  let ?s = "demo_hook_sys [''beta''] [] [demo_hook_row] [] demo_calls"
  have r: "reachable_hooks ?s"
    using organization_deleted [OF connected [OF demo_unconnected demo_connected] demo_orphaned] .
  obtain p where p: "toProvider [demo_kind] demo_row = Inr p" "vp_Organization p = ''beta''" using demo_get(2) by blast
  have get: "GetVCSProvider (demo_hook_env nobody) (hr_Provider demo_hook_row) ?s = Inl ErrAccessNotPermitted"
    using p by (simp add: GetVCSProvider_def db_getProvider_def vcs_access_nobody demo_hook_sys_def demo_hook_row_def)
  have "\<exists>e' s'. Disconnect (demo_hook_env nobody) demo_hook_ws ?s = (Inl e', s') \<and> hd_connections s' = hd_connections ?s"
    by (rule orphan_blocks_disconnect [OF r _ _ get]) (simp_all add: demo_hook_sys_def referenced_def)
  then show ?thesis using r by (intro exI [of _ ?s]) (auto simp: demo_hook_sys_def)
qed

text \<open>
  A connection that fails leaves a webhook at the host: the webhook is created before the connection is
  recorded, and the transaction undoes the row of the hook only, so that nothing is left that knows it.
\<close>

lemma failed_connect_leaks_webhook:
  assumes "other \<noteq> demo_repo"
  shows "let rows = [demo_hook_row\<lparr>hr_ID := ''u0'', hr_Repo := other\<rparr>]; conns = [demo_conn\<lparr>cr_Repo := other\<rparr>] in
    Connect root_hook_env (pr_ID demo_row) demo_hook_ws demo_repo
      (demo_hook_sys [''acme'', ''beta''] [(demo_hook_ws, ''acme'')] rows conns []) =
    (Inl ErrResourceAlreadyExists, demo_hook_sys [''acme'', ''beta''] [(demo_hook_ws, ''acme'')] rows conns demo_calls)"
proof -
  let ?rows = "[demo_hook_row\<lparr>hr_ID := ''u0'', hr_Repo := other\<rparr>]" and ?conns = "[demo_conn\<lparr>cr_Repo := other\<rparr>]"
  let ?s = "demo_hook_sys [''acme'', ''beta''] [(demo_hook_ws, ''acme'')] ?rows ?conns []"
  obtain p where p: "GetVCSProvider root_hook_env (pr_ID demo_row) ?s = Inr p" "vp_ID p = pr_ID demo_row" "vp_Kind p = demo_kind"
    using demo_get(1) [of ?s] demo_get(2) by (auto simp: demo_hook_sys_def)
  have kinds: "tfe_kind demo_hook_ws = WorkspaceKind" "WorkspaceKind \<noteq> ModuleKind" by (simp_all add: demo_hook_ws_def kind_defs)
  have c: "CreateRepohook root_hook_env (pr_ID demo_row) demo_repo ?s =
      (Inr ''u1'', demo_hook_sys [''acme'', ''beta''] [(demo_hook_ws, ''acme'')] (?rows @ [demo_hook_row]) ?conns demo_calls)"
    using assms
    by (simp add: CreateRepohook_def p) (simp add: demo_kind_def newRepohook_def Let_def tx_def then_do_def wrapping_def
        getOrCreateHook_def query_hooks_def join_provider_def demo_hook_sys_def sync_def createAndSync_def call_host_def updateHookCloudID_def
        demo_hook_row_def demo_calls_def)
  show ?thesis
    by (simp add: Connect_def then_do_def tx_def wrapping_def c)
      (simp add: createConnection_def kinds demo_hook_sys_def demo_conn_def connection_of_def)
qed

end
