(* ===== verification/WorkspaceService.thy ===== *)
theory WorkspaceService
  imports Hooks Runner
begin

text \<open>
  The service of workspaces (\<open>workspace/service.go\<close>, \<open>workspace/db.go\<close>) and of their tags
  (\<open>workspace/tag.go\<close>, \<open>tag_service.go\<close>, \<open>tag_db.go\<close>): the rows of the tables and their constraints, the
  queries, and the operations with their authorization, which reads the policy of a workspace from the
  same tables. The connection of a workspace to a repository is that of the theory \<open>Hooks\<close>.
\<close>

section \<open>Tables\<close>

text \<open>A row of \<open>workspaces\<close>, less the columns that the code writes only with constants.\<close>

record work_row =
  wr_ID :: TfeID
  wr_CreatedAt :: gtime
  wr_UpdatedAt :: gtime
  wr_AgentPoolID :: "TfeID option"
  wr_AllowCLIApply :: bool
  wr_AllowDestroyPlan :: bool
  wr_AutoApply :: bool
  wr_AutoApplyRunTrigger :: bool
  wr_Branch :: string
  wr_Description :: string
  wr_ExecutionKind :: ExecKind
  wr_GlobalRemoteState :: bool
  wr_Name :: string
  wr_QueueAllRuns :: bool
  wr_SpeculativeEnabled :: bool
  wr_SourceName :: string
  wr_SourceURL :: string
  wr_StructuredRunOutputEnabled :: bool
  wr_EngineVersion :: string
  wr_TriggerPrefixes :: "string slice"
  wr_TriggerPatterns :: "string slice"
  wr_TagsRegex :: "string option"
  wr_WorkingDirectory :: string
  wr_Organization :: string
  wr_Engine :: string
  wr_SSHKeyID :: "TfeID option"
  wr_LatestRunID :: "TfeID option"
  wr_LockUsername :: "string option"
  wr_LockRunID :: "TfeID option"

record tag_row =
  tg_ID :: TfeID
  tg_Name :: string
  tg_Organization :: string

record permission_row =
  pm_Workspace :: TfeID
  pm_Team :: TfeID
  pm_Role :: string

text \<open>
  Taggings are pairs of a workspace and a tag, memberships pairs of a team and a username. Organizations,
  providers and connections are in the tables of the VCS providers.
\<close>

record work_sys =
  wk_vcs :: hook_sys
  wk_workspaces :: "work_row list"
  wk_tags :: "tag_row list"
  wk_taggings :: "(TfeID \<times> TfeID) list"
  wk_permissions :: "permission_row list"
  wk_teams :: "(TfeID \<times> string) list"
  wk_members :: "(TfeID \<times> string) list"
  wk_pools :: "Pool list"
  wk_sshkeys :: "TfeID list"
  wk_runs :: "(TfeID \<times> Status) list"

text \<open>A workspace as it is read from the tables: with its tags and the status of its latest run.\<close>

record FullWorkspace = Workspace +
  fw_Tags :: "string slice"
  fw_RunStatus :: "Status option"

record work_env = hook_env +
  we_regex_ok :: "string \<Rightarrow> bool"
  we_glob_ok :: "string \<Rightarrow> bool"
  we_semver_valid :: "string \<Rightarrow> bool"
  we_semver_compare :: "string \<Rightarrow> string \<Rightarrow> int"
  we_GetOrganization :: "string \<Rightarrow> Mode result"
  we_GetLatest :: "string \<Rightarrow> string result"
  we_defaultEngine :: string
  we_now :: gtime
  we_tag_rnd :: "nat \<Rightarrow> nat \<Rightarrow> nat"
  we_beforeCreate :: "(Workspace \<Rightarrow> (work_sys, unit) op) list"
  we_afterCreate :: "(Workspace \<Rightarrow> (work_sys, unit) op) list"
  we_beforeUpdate :: "(Workspace \<Rightarrow> (work_sys, unit) op) list"

definition on_vcs :: "(hook_sys, 'a) op \<Rightarrow> (work_sys, 'a) op" where
  "on_vcs f s = (case f (wk_vcs s) of (r, v) \<Rightarrow> (r, s\<lparr>wk_vcs := v\<rparr>))"

text \<open>A transaction, and the one that \<open>Lock\<close> opens: all but the calls of hosts is undone on error.\<close>

definition wtx :: "(work_sys, 'a) op \<Rightarrow> (work_sys, 'a) op" where
  "wtx f s =
     (case f s of
        (Inl e, s1) \<Rightarrow> (Inl e, s\<lparr>wk_vcs := (wk_vcs s)\<lparr>hs_calls := hs_calls (wk_vcs s1)\<rparr>\<rparr>)
      | (Inr x, s1) \<Rightarrow> (Inr x, s1))"

definition return_op :: "'a \<Rightarrow> ('s, 'a) op" where
  "return_op x s = (Inr x, s)"

definition fail_op :: "error \<Rightarrow> ('s, 'a) op" where
  "fail_op e s = (Inl e, s)"

definition lift_op :: "('s \<Rightarrow> 'a result) \<Rightarrow> ('s, 'a) op" where
  "lift_op f s = (f s, s)"

section \<open>Rows of workspaces (workspace/db.go)\<close>

definition find_row :: "TfeID \<Rightarrow> work_sys \<Rightarrow> work_row option" where
  "find_row wid s = find_first (\<lambda>r. wr_ID r = wid) (wk_workspaces s)"

text \<open>The columns of a new row: that of the SSH key is not among them.\<close>

definition new_row :: "Workspace \<Rightarrow> work_row" where
  "new_row ws =
     \<lparr>wr_ID = ws_ID ws, wr_CreatedAt = ws_CreatedAt ws, wr_UpdatedAt = ws_UpdatedAt ws,
      wr_AgentPoolID = mode_agentPoolID (ws_Mode ws),
      wr_AllowCLIApply = (case ws_Connection ws of None \<Rightarrow> False | Some c \<Rightarrow> con_AllowCLIApply c),
      wr_AllowDestroyPlan = ws_AllowDestroyPlan ws, wr_AutoApply = ws_AutoApply ws,
      wr_AutoApplyRunTrigger = ws_AutoApplyRunTrigger ws,
      wr_Branch = (case ws_Connection ws of None \<Rightarrow> [] | Some c \<Rightarrow> con_Branch c),
      wr_Description = ws_Description ws, wr_ExecutionKind = mode_kind (ws_Mode ws),
      wr_GlobalRemoteState = ws_GlobalRemoteState ws, wr_Name = ws_Name ws,
      wr_QueueAllRuns = ws_QueueAllRuns ws, wr_SpeculativeEnabled = ws_SpeculativeEnabled ws,
      wr_SourceName = ws_SourceName ws, wr_SourceURL = ws_SourceURL ws,
      wr_StructuredRunOutputEnabled = ws_StructuredRunOutputEnabled ws,
      wr_EngineVersion = Version_String (ws_EngineVersion ws),
      wr_TriggerPrefixes = ws_TriggerPrefixes ws, wr_TriggerPatterns = ws_TriggerPatterns ws,
      wr_TagsRegex = map_option con_TagsRegex (ws_Connection ws),
      wr_WorkingDirectory = ws_WorkingDirectory ws, wr_Organization = ws_Organization ws,
      wr_Engine = ws_Engine ws, wr_SSHKeyID = None, wr_LatestRunID = None, wr_LockUsername = None,
      wr_LockRunID = None\<rparr>"

text \<open>The columns that an update writes.\<close>

definition changed_row :: "Workspace \<Rightarrow> work_row \<Rightarrow> work_row" where
  "changed_row ws row = row\<lparr>
      wr_AgentPoolID := mode_agentPoolID (ws_Mode ws),
      wr_AllowDestroyPlan := ws_AllowDestroyPlan ws,
      wr_AllowCLIApply := (case ws_Connection ws of None \<Rightarrow> False | Some c \<Rightarrow> con_AllowCLIApply c),
      wr_AutoApply := ws_AutoApply ws, wr_AutoApplyRunTrigger := ws_AutoApplyRunTrigger ws,
      wr_Branch := (case ws_Connection ws of None \<Rightarrow> [] | Some c \<Rightarrow> con_Branch c),
      wr_Description := ws_Description ws, wr_ExecutionKind := mode_kind (ws_Mode ws),
      wr_GlobalRemoteState := ws_GlobalRemoteState ws, wr_Name := ws_Name ws,
      wr_QueueAllRuns := ws_QueueAllRuns ws, wr_SpeculativeEnabled := ws_SpeculativeEnabled ws,
      wr_StructuredRunOutputEnabled := ws_StructuredRunOutputEnabled ws,
      wr_EngineVersion := Version_String (ws_EngineVersion ws),
      wr_TriggerPrefixes := ws_TriggerPrefixes ws, wr_TriggerPatterns := ws_TriggerPatterns ws,
      wr_TagsRegex := map_option con_TagsRegex (ws_Connection ws),
      wr_WorkingDirectory := ws_WorkingDirectory ws, wr_UpdatedAt := ws_UpdatedAt ws,
      wr_Engine := ws_Engine ws, wr_SSHKeyID := ws_SSHKeyID ws\<rparr>"

text \<open>The constraints on a row, beside the other rows of the table.\<close>

definition known_engines :: "string list" where
  "known_engines = [''terraform'', ''tofu'']"

definition row_constraints :: "work_sys \<Rightarrow> work_row list \<Rightarrow> work_row \<Rightarrow> unit result" where
  "row_constraints s others r =
     (if wr_ExecutionKind r = AgentKind \<and> wr_AgentPoolID r = None
      then Inl (Errorf ''check constraint violation'')
      else if wr_ID r \<in> set (map wr_ID others) \<or>
              (wr_Organization r, wr_Name r) \<in> set (map (\<lambda>o1. (wr_Organization o1, wr_Name o1)) others)
      then Inl ErrResourceAlreadyExists
      else if wr_Organization r \<notin> set (pd_organizations (wk_vcs s)) \<or> wr_Engine r \<notin> set known_engines \<or>
              (case wr_AgentPoolID r of None \<Rightarrow> False | Some p \<Rightarrow> p \<notin> set (map pool_ID (wk_pools s))) \<or>
              (case wr_SSHKeyID r of None \<Rightarrow> False | Some k \<Rightarrow> k \<notin> set (wk_sshkeys s))
      then Inl fk_error
      else Inr ())"

definition db_createWorkspace :: "Workspace \<Rightarrow> (work_sys, unit) op" where
  "db_createWorkspace ws s =
     (case row_constraints s (wk_workspaces s) (new_row ws) of Inl e \<Rightarrow> (Inl e, s) | Inr _ \<Rightarrow>
        (Inr (), s\<lparr>wk_workspaces := wk_workspaces s @ [new_row ws],
                  wk_vcs := (wk_vcs s)\<lparr>hd_resources := hd_resources (wk_vcs s) @ [(ws_ID ws, ws_Organization ws)]\<rparr>\<rparr>))"

text \<open>The names of the tags of a workspace; the aggregate of no rows is null, read as nil.\<close>

definition tag_names :: "TfeID \<Rightarrow> work_sys \<Rightarrow> string list" where
  "tag_names wid s = map tg_Name (filter (\<lambda>t. (wid, tg_ID t) \<in> set (wk_taggings s)) (wk_tags s))"

definition tags_column :: "TfeID \<Rightarrow> work_sys \<Rightarrow> string slice" where
  "tags_column wid s = (if tag_names wid s = [] then None else Some (tag_names wid s))"

definition run_status :: "work_sys \<Rightarrow> TfeID option \<Rightarrow> Status option" where
  "run_status s rid = Option.bind rid (map_of (wk_runs s))"

definition connection_row :: "TfeID \<Rightarrow> work_sys \<Rightarrow> conn_row option" where
  "connection_row wid s = find_first (\<lambda>c. cr_Workspace c = Some wid) (hd_connections (wk_vcs s))"

definition scan_connection :: "work_row \<Rightarrow> conn_row option \<Rightarrow> Connection option" where
  "scan_connection r rc = map_option (\<lambda>c.
     \<lparr>con_Branch = wr_Branch r, con_TagsRegex = override (wr_TagsRegex r) [], con_VCSProviderID = cr_Provider c,
      con_Repo = cr_Repo c, con_AllowCLIApply = wr_AllowCLIApply r\<rparr>) rc"

definition scan_lock :: "work_row \<Rightarrow> ID option" where
  "scan_lock r =
     (case wr_LockUsername r of Some u \<Rightarrow> Some (Username_ID u) | None \<Rightarrow> map_option TfeID_ID (wr_LockRunID r))"

definition zero_version :: Version where
  "zero_version = \<lparr>Latest = False, semver = []\<rparr>"

definition scan_workspace :: "'z work_env_scheme \<Rightarrow> work_sys \<Rightarrow> work_row \<Rightarrow> FullWorkspace result" where
  "scan_workspace env s r =
     (case Version_set (we_semver_valid env) (we_semver_compare env) zero_version (wr_EngineVersion r) of
        Inl e \<Rightarrow> Inl (Wrap ''scanning row'' e)
      | Inr version \<Rightarrow>
          if wr_Engine r \<notin> set known_engines then Inl (Errorf (''no engine found named '' @ wr_Engine r))
          else case NewMode (wr_ExecutionKind r) (wr_AgentPoolID r) of
                 Inl e \<Rightarrow> Inl e
               | Inr mode \<Rightarrow>
                   let status = run_status s (wr_LatestRunID r)
                   in Inr \<lparr>ws_ID = wr_ID r, ws_CreatedAt = wr_CreatedAt r, ws_UpdatedAt = wr_UpdatedAt r,
                        ws_AllowDestroyPlan = wr_AllowDestroyPlan r, ws_AutoApply = wr_AutoApply r,
                        ws_AutoApplyRunTrigger = wr_AutoApplyRunTrigger r, ws_Description = wr_Description r,
                        ws_GlobalRemoteState = wr_GlobalRemoteState r, ws_Name = wr_Name r,
                        ws_QueueAllRuns = wr_QueueAllRuns r, ws_SpeculativeEnabled = wr_SpeculativeEnabled r,
                        ws_StructuredRunOutputEnabled = wr_StructuredRunOutputEnabled r,
                        ws_SourceName = wr_SourceName r, ws_SourceURL = wr_SourceURL r,
                        ws_WorkingDirectory = wr_WorkingDirectory r, ws_Organization = wr_Organization r,
                        ws_LatestRun = (if status = None then None else wr_LatestRunID r),
                        ws_Lock = scan_lock r, ws_Engine = wr_Engine r, ws_EngineVersion = version,
                        ws_Mode = mode, ws_SSHKeyID = wr_SSHKeyID r,
                        ws_Connection = scan_connection r (connection_row (wr_ID r) s),
                        ws_TriggerPatterns = wr_TriggerPatterns r, ws_TriggerPrefixes = wr_TriggerPrefixes r,
                        fw_Tags = tags_column (wr_ID r) s, fw_RunStatus = status\<rparr>)"

definition db_getWorkspace :: "'z work_env_scheme \<Rightarrow> TfeID \<Rightarrow> work_sys \<Rightarrow> FullWorkspace result" where
  "db_getWorkspace env wid s = collect_one (scan_workspace env s) (find_row wid s)"

text \<open>The join with tags repeats the row of the workspace; only the first row is read.\<close>

definition db_getWorkspaceByName :: "'z work_env_scheme \<Rightarrow> string \<Rightarrow> string \<Rightarrow> work_sys \<Rightarrow> FullWorkspace result" where
  "db_getWorkspaceByName env organization name s =
     collect_one (scan_workspace env s)
       (find_first (\<lambda>r. wr_Name r = name \<and> wr_Organization r = organization) (wk_workspaces s))"

definition replace_row :: "TfeID \<Rightarrow> work_row \<Rightarrow> work_sys \<Rightarrow> work_sys" where
  "replace_row wid r s = s\<lparr>wk_workspaces := map (\<lambda>o1. if wr_ID o1 = wid then r else o1) (wk_workspaces s)\<rparr>"

text \<open>The part of \<open>update\<close> that writes the row.\<close>

definition write_workspace :: "Workspace \<Rightarrow> (work_sys, unit) op" where
  "write_workspace ws s =
     (case find_row (ws_ID ws) s of None \<Rightarrow> (Inl ErrResourceNotFound, s) | Some row \<Rightarrow>
     (case row_constraints s (filter (\<lambda>o1. wr_ID o1 \<noteq> ws_ID ws) (wk_workspaces s)) (changed_row ws row) of
        Inl e \<Rightarrow> (Inl e, s)
      | Inr _ \<Rightarrow> (Inr (), replace_row (ws_ID ws) (changed_row ws row) s)))"

definition db_updateWorkspace ::
  "'z work_env_scheme \<Rightarrow> TfeID \<Rightarrow> (FullWorkspace \<Rightarrow> (work_sys, Workspace \<times> 'a) op) \<Rightarrow> (work_sys, Workspace \<times> 'a) op" where
  "db_updateWorkspace env wid fn =
     wtx (then_do (wrapping ''finding row for update'' (lift_op (db_getWorkspace env wid)))
       (\<lambda>ws. then_do (fn ws) (\<lambda>(ws1, x).
          then_do (wrapping ''updating row'' (write_workspace ws1)) (\<lambda>_. return_op (ws1, x)))))"

definition db_setLatestRun :: "'z work_env_scheme \<Rightarrow> TfeID \<Rightarrow> TfeID \<Rightarrow> (work_sys, FullWorkspace) op" where
  "db_setLatestRun env wid rid s =
     (case find_row wid s of None \<Rightarrow> (Inl ErrResourceNotFound, s) | Some row \<Rightarrow>
      if rid \<notin> fst ` set (wk_runs s) then (Inl fk_error, s)
      else lift_op (db_getWorkspace env wid) (replace_row wid (row\<lparr>wr_LatestRunID := Some rid\<rparr>) s))"

section \<open>Lists of workspaces (workspace/db.go)\<close>

record WorkspaceListOptions =
  wl_Search :: string
  wl_Tags :: "string list"
  wl_Status :: "Status list"
  wl_Organization :: "string option"
  wl_Page :: PageOptions

definition list_filter :: "WorkspaceListOptions \<Rightarrow> work_sys \<Rightarrow> work_row \<Rightarrow> bool" where
  "list_filter opts s r \<longleftrightarrow>
     sql_like (''%'' @ wl_Search opts @ ''%'') (wr_Name r) \<and>
     sql_like (case wl_Organization opts of None \<Rightarrow> ''%'' | Some o1 \<Rightarrow> o1) (wr_Organization r) \<and>
     (wl_Status opts = [] \<or> (case run_status s (wr_LatestRunID r) of None \<Rightarrow> False | Some st \<Rightarrow> st \<in> set (wl_Status opts))) \<and>
     (wl_Tags opts = [] \<or> tag_names (wr_ID r) s \<noteq> [] \<and> set (wl_Tags opts) \<subseteq> set (tag_names (wr_ID r) s))"

definition workspaces_page ::
  "'z work_env_scheme \<Rightarrow> PageOptions \<Rightarrow> work_row list \<Rightarrow> work_sys \<Rightarrow> FullWorkspace Page result" where
  "workspaces_page env opts rows s =
     (if GetOffset opts < 0 then Inl (Errorf ''OFFSET must not be negative'')
      else case collect_rows (scan_workspace env s) (take (nat (GetLimit opts)) (drop (nat (GetOffset opts)) rows)) of
             Inl e \<Rightarrow> Inl e | Inr items \<Rightarrow> NewPage (Some items) opts (Some (int (length rows))))"

definition db_listWorkspaces :: "'z work_env_scheme \<Rightarrow> WorkspaceListOptions \<Rightarrow> work_sys \<Rightarrow> FullWorkspace Page result" where
  "db_listWorkspaces env opts s =
     workspaces_page env (wl_Page opts) (sort_key wr_Name (filter (list_filter opts s) (wk_workspaces s))) s"

definition db_listByConnection :: "'z work_env_scheme \<Rightarrow> TfeID \<Rightarrow> Repo \<Rightarrow> work_sys \<Rightarrow> FullWorkspace list result" where
  "db_listByConnection env providerID repo s =
     collect_rows (scan_workspace env s)
       (filter (\<lambda>r. case connection_row (wr_ID r) s of
                      None \<Rightarrow> False | Some c \<Rightarrow> cr_Provider c = providerID \<and> cr_Repo c = repo) (wk_workspaces s))"

text \<open>The rows of the join of the workspaces with their permissions, teams, memberships and users.\<close>

definition permitted_rows :: "string \<Rightarrow> string \<Rightarrow> work_sys \<Rightarrow> work_row list" where
  "permitted_rows username organization s =
     concat (map (\<lambda>r. concat (map (\<lambda>p. map (\<lambda>_. r) (filter (\<lambda>m. m = (pm_Team p, username)) (wk_members s)))
         (filter (\<lambda>p. pm_Workspace p = wr_ID r) (wk_permissions s))))
       (filter (\<lambda>r. wr_Organization r = organization) (wk_workspaces s)))"

definition db_listByUsername ::
  "'z work_env_scheme \<Rightarrow> string \<Rightarrow> string \<Rightarrow> PageOptions \<Rightarrow> work_sys \<Rightarrow> FullWorkspace Page result" where
  "db_listByUsername env username organization opts s =
     workspaces_page env opts (sort_key (\<lambda>r. - wr_UpdatedAt r) (permitted_rows username organization s)) s"

section \<open>Permissions (workspace/db.go)\<close>

definition workspace_roles :: "string list" where
  "workspace_roles = [''read'', ''plan'', ''write'', ''admin'']"

definition db_SetWorkspacePermission :: "TfeID \<Rightarrow> TfeID \<Rightarrow> Role \<Rightarrow> (work_sys, unit) op" where
  "db_SetWorkspacePermission wid tid role s =
     (let row = \<lparr>pm_Workspace = wid, pm_Team = tid, pm_Role = role_name role\<rparr>;
          key = (\<lambda>p. pm_Workspace p = wid \<and> pm_Team p = tid)
      in if find_row wid s = None \<or> tid \<notin> fst ` set (wk_teams s) \<or> role_name role \<notin> set workspace_roles
         then (Inl fk_error, s)
         else (Inr (), s\<lparr>wk_permissions :=
                (if list_ex key (wk_permissions s) then map (\<lambda>p. if key p then row else p) (wk_permissions s)
                 else wk_permissions s @ [row])\<rparr>))"

definition db_UnsetWorkspacePermission :: "TfeID \<Rightarrow> TfeID \<Rightarrow> (work_sys, unit) op" where
  "db_UnsetWorkspacePermission wid tid s =
     (let key = (\<lambda>p. pm_Workspace p = wid \<and> pm_Team p = tid)
      in if \<not> list_ex key (wk_permissions s) then (Inl ErrResourceNotFound, s)
         else (Inr (), s\<lparr>wk_permissions := filter (\<lambda>p. \<not> key p) (wk_permissions s)\<rparr>))"

fun scan_permission :: "permission_row \<Rightarrow> Permission result" where
  "scan_permission p =
     (case WorkspaceRoleFromString (pm_Role p) of
        Inl e \<Rightarrow> Inl e | Inr role \<Rightarrow> Inr \<lparr>perm_TeamID = pm_Team p, perm_Role = role\<rparr>)"

definition db_GetWorkspacePolicy :: "ID \<Rightarrow> work_sys \<Rightarrow> Policy result" where
  "db_GetWorkspacePolicy rid s =
     (case Option.bind (pt_key rid) (\<lambda>wid. find_row wid s) of
        None \<Rightarrow> Inl ErrResourceNotFound
      | Some r \<Rightarrow>
          (case collect_rows scan_permission (filter (\<lambda>p. pm_Workspace p = wr_ID r) (wk_permissions s)) of
             Inl e \<Rightarrow> Inl e
           | Inr perms \<Rightarrow> Inr \<lparr>pol_Permissions = perms, pol_globalRemoteState = wr_GlobalRemoteState r\<rparr>))"

section \<open>Tags (workspace/tag.go, tag\_db.go)\<close>

record Tag =
  tag_ID :: TfeID
  tag_Name :: string
  tag_InstanceCount :: nat
  tag_Organization :: string

record TagSpec =
  ts_ID :: "TfeID option"
  ts_Name :: string

definition TagSpec_Valid :: "TagSpec \<Rightarrow> unit result" where
  "TagSpec_Valid t = (if ts_ID t = None \<and> ts_Name t = [] then Inl ErrInvalidTagSpec else Inr ())"

definition scan_tag :: "work_sys \<Rightarrow> tag_row \<Rightarrow> Tag" where
  "scan_tag s t =
     \<lparr>tag_ID = tg_ID t, tag_Name = tg_Name t,
      tag_InstanceCount = length (filter (\<lambda>wt. snd wt = tg_ID t) (wk_taggings s)),
      tag_Organization = tg_Organization t\<rparr>"

definition db_listTags :: "string \<Rightarrow> PageOptions \<Rightarrow> work_sys \<Rightarrow> Tag Page result" where
  "db_listTags organization opts s =
     NewPage (Some (map (scan_tag s) (filter (\<lambda>t. tg_Organization t = organization) (wk_tags s)))) opts None"

definition db_listWorkspaceTags :: "TfeID \<Rightarrow> PageOptions \<Rightarrow> work_sys \<Rightarrow> Tag Page result" where
  "db_listWorkspaceTags wid opts s =
     NewPage (Some (map (scan_tag s) (filter (\<lambda>t. (wid, tg_ID t) \<in> set (wk_taggings s)) (wk_tags s)))) opts None"

text \<open>After each deletion of taggings a trigger deletes the tags that no workspace has, of all organizations.\<close>

definition delete_tags_trigger :: "work_sys \<Rightarrow> work_sys" where
  "delete_tags_trigger s = s\<lparr>wk_tags := filter (\<lambda>t. tg_ID t \<in> snd ` set (wk_taggings s)) (wk_tags s)\<rparr>"

definition db_deleteTag :: "string \<Rightarrow> TfeID \<Rightarrow> (work_sys, unit) op" where
  "db_deleteTag organization tid s =
     (if \<not> list_ex (\<lambda>t. tg_ID t = tid \<and> tg_Organization t = organization) (wk_tags s)
      then (Inl ErrResourceNotFound, s)
      else (Inr (), delete_tags_trigger (s\<lparr>wk_tags := filter (\<lambda>t. tg_ID t \<noteq> tid) (wk_tags s),
                                          wk_taggings := filter (\<lambda>wt. snd wt \<noteq> tid) (wk_taggings s)\<rparr>)))"

definition db_deleteTags :: "string \<Rightarrow> TfeID list \<Rightarrow> (work_sys, unit) op" where
  "db_deleteTags organization tids = wtx (for_each (db_deleteTag organization) tids)"

definition db_addTag :: "string \<Rightarrow> string \<Rightarrow> TfeID \<Rightarrow> (work_sys, unit) op" where
  "db_addTag organization name tid s =
     (if list_ex (\<lambda>t. tg_Organization t = organization \<and> tg_Name t = name) (wk_tags s)
      then (Inl ErrResourceNotFound, s)
      else if tid \<in> set (map tg_ID (wk_tags s)) then (Inl ErrResourceAlreadyExists, s)
      else if organization \<notin> set (pd_organizations (wk_vcs s)) then (Inl fk_error, s)
      else (Inr (), s\<lparr>wk_tags := wk_tags s @ [\<lparr>tg_ID = tid, tg_Name = name, tg_Organization = organization\<rparr>]\<rparr>))"

definition db_findTagByName :: "string \<Rightarrow> string \<Rightarrow> work_sys \<Rightarrow> Tag result" where
  "db_findTagByName organization name s =
     collect_one (Inr \<circ> scan_tag s) (find_first (\<lambda>t. tg_Name t = name \<and> tg_Organization t = organization) (wk_tags s))"

definition db_findTagByID :: "string \<Rightarrow> TfeID \<Rightarrow> work_sys \<Rightarrow> Tag result" where
  "db_findTagByID organization tid s =
     collect_one (Inr \<circ> scan_tag s) (find_first (\<lambda>t. tg_ID t = tid \<and> tg_Organization t = organization) (wk_tags s))"

text \<open>
  \<open>tagWorkspace\<close> looks at the number of affected rows before the error: that a workspace has the tag
  already, a unique violation, is reported as a resource that was not found.
\<close>

definition db_tagWorkspace :: "TfeID \<Rightarrow> TfeID \<Rightarrow> (work_sys, unit) op" where
  "db_tagWorkspace wid tid s =
     (if \<not> list_ex (\<lambda>t. tg_ID t = tid \<and> map_option wr_Organization (find_row wid s) = Some (tg_Organization t)) (wk_tags s) \<or>
         (wid, tid) \<in> set (wk_taggings s)
      then (Inl ErrResourceNotFound, s)
      else (Inr (), s\<lparr>wk_taggings := wk_taggings s @ [(wid, tid)]\<rparr>))"

definition db_deleteWorkspaceTag :: "TfeID \<Rightarrow> TfeID \<Rightarrow> (work_sys, unit) op" where
  "db_deleteWorkspaceTag wid tid s =
     (if (wid, tid) \<notin> set (wk_taggings s) then (Inl ErrResourceNotFound, s)
      else (Inr (), delete_tags_trigger (s\<lparr>wk_taggings := filter (\<lambda>wt. wt \<noteq> (wid, tid)) (wk_taggings s)\<rparr>)))"

text \<open>The deletion of a workspace cascades to its taggings, permissions and connection.\<close>

definition db_deleteWorkspace :: "TfeID \<Rightarrow> (work_sys, unit) op" where
  "db_deleteWorkspace wid s =
     (if find_row wid s = None then (Inl ErrResourceNotFound, s)
      else (Inr (), delete_tags_trigger (s\<lparr>
             wk_workspaces := filter (\<lambda>r. wr_ID r \<noteq> wid) (wk_workspaces s),
             wk_taggings := filter (\<lambda>wt. fst wt \<noteq> wid) (wk_taggings s),
             wk_permissions := filter (\<lambda>p. pm_Workspace p \<noteq> wid) (wk_permissions s),
             wk_vcs := (wk_vcs s)\<lparr>hd_resources := filter (\<lambda>r. fst r \<noteq> wid) (hd_resources (wk_vcs s)),
                                hd_connections := filter (\<lambda>c. cr_Workspace c \<noteq> Some wid) (hd_connections (wk_vcs s))\<rparr>\<rparr>)))"

section \<open>Authorization\<close>

text \<open>The resolver of the organization of a workspace and the getter of its policy read the same tables.\<close>

definition work_tables :: "work_sys \<Rightarrow> parent_tables" where
  "work_tables s = no_tables\<lparr>pt_workspace := (\<lambda>wid. map_option wr_Organization (find_row wid s))\<rparr>"

definition work_access :: "'z work_env_scheme \<Rightarrow> work_sys \<Rightarrow> Action \<Rightarrow> Kind \<Rightarrow> ID \<Rightarrow> Subject result" where
  "work_access env s action kind rid =
     check_access (work_tables s) \<lparr>ae_ctx = ae_ctx env, ae_policies = (\<lambda>i. db_GetWorkspacePolicy i s)\<rparr> action kind rid"

definition authorized ::
  "'z work_env_scheme \<Rightarrow> Action \<Rightarrow> Kind \<Rightarrow> ID \<Rightarrow> (work_sys, 'a) op \<Rightarrow> (work_sys, 'a) op" where
  "authorized env action kind rid f s =
     (case work_access env s action kind rid of Inl e \<Rightarrow> (Inl e, s) | Inr _ \<Rightarrow> f s)"

section \<open>The service of tags (workspace/tag\_service.go)\<close>

definition ListTags :: "'z work_env_scheme \<Rightarrow> string \<Rightarrow> PageOptions \<Rightarrow> work_sys \<Rightarrow> Tag Page result" where
  "ListTags env organization opts s =
     (case work_access env s ListAction TagKind (OrganizationName_ID organization) of
        Inl e \<Rightarrow> Inl e | Inr _ \<Rightarrow> db_listTags organization opts s)"

definition DeleteTags :: "'z work_env_scheme \<Rightarrow> string \<Rightarrow> TfeID list \<Rightarrow> (work_sys, unit) op" where
  "DeleteTags env organization tids =
     authorized env DeleteAction TagKind (OrganizationName_ID organization) (db_deleteTags organization tids)"

definition TagWorkspaces :: "'z work_env_scheme \<Rightarrow> TfeID \<Rightarrow> TfeID list \<Rightarrow> (work_sys, unit) op" where
  "TagWorkspaces env tid wids =
     (if ctx_subject (ae_ctx env) = None then fail_op (Errorf ''no subject in context'')
      else wtx (for_each (\<lambda>wid. authorized env AddAction TagKind (TfeID_ID wid) (db_tagWorkspace wid tid)) wids))"

text \<open>The identifier and the name of the tag that a specification is about; one given by name is created if need be.\<close>

definition find_or_add_tag ::
  "'z work_env_scheme \<Rightarrow> string \<Rightarrow> nat \<Rightarrow> TagSpec \<Rightarrow> (work_sys, TfeID \<times> string) op" where
  "find_or_add_tag env organization k t s =
     (if ts_Name t \<noteq> []
      then (case db_findTagByName organization (ts_Name t) s of
              Inr tag \<Rightarrow> (Inr (tag_ID tag, ts_Name t), s)
            | Inl e \<Rightarrow>
                if errors_is e ErrResourceNotFound
                then let tid = NewTfeID (we_tag_rnd env k) TagKind
                     in then_do (wrapping (''adding tag: '' @ ts_Name t) (db_addTag organization (ts_Name t) tid))
                          (\<lambda>_. return_op (tid, ts_Name t)) s
                else (Inl e, s))
      else case ts_ID t of
             Some tid \<Rightarrow>
               (case db_findTagByID organization tid s of
                  Inl e \<Rightarrow> (Inl e, s) | Inr tag \<Rightarrow> (Inr (tid, tag_Name tag), s))
           | None \<Rightarrow> (Inl ErrInvalidTagSpec, s))"

definition add_one_tag :: "'z work_env_scheme \<Rightarrow> string \<Rightarrow> TfeID \<Rightarrow> nat \<Rightarrow> TagSpec \<Rightarrow> (work_sys, string) op" where
  "add_one_tag env organization wid k t =
     then_do (wrapping ''invalid tag'' (lift_op (\<lambda>_. TagSpec_Valid t))) (\<lambda>_.
     then_do (find_or_add_tag env organization k t) (\<lambda>(tid, name).
     then_do (db_tagWorkspace wid tid) (\<lambda>_. return_op name)))"

fun add_tags_loop ::
  "'z work_env_scheme \<Rightarrow> string \<Rightarrow> TfeID \<Rightarrow> nat \<Rightarrow> TagSpec list \<Rightarrow> string list \<Rightarrow> (work_sys, string list) op" where
  "add_tags_loop env organization wid k [] added s = (Inr added, s)"
| "add_tags_loop env organization wid k (t # ts) added s =
     (case add_one_tag env organization wid k t s of
        (Inl e, s1) \<Rightarrow> (Inl e, s1)
      | (Inr name, s1) \<Rightarrow> add_tags_loop env organization wid (Suc k) ts (added @ [name]) s1)"

definition addTags :: "'z work_env_scheme \<Rightarrow> Workspace \<Rightarrow> TagSpec list \<Rightarrow> (work_sys, string list) op" where
  "addTags env ws tags = wtx (add_tags_loop env (ws_Organization ws) (ws_ID ws) 0 tags [])"

definition AddTags :: "'z work_env_scheme \<Rightarrow> TfeID \<Rightarrow> TagSpec list \<Rightarrow> (work_sys, unit) op" where
  "AddTags env wid tags =
     authorized env AddAction TagKind (TfeID_ID wid)
       (then_do (wrapping (''workspace not found; '' @ TfeID_String wid) (lift_op (db_getWorkspace env wid)))
         (\<lambda>ws. then_do (addTags env (Workspace.Workspace.truncate ws) tags) (\<lambda>_. return_op ())))"

definition remove_one_tag :: "string \<Rightarrow> TfeID \<Rightarrow> TagSpec \<Rightarrow> (work_sys, unit) op" where
  "remove_one_tag organization wid t s =
     (case TagSpec_Valid t of Inl e \<Rightarrow> (Inl e, s) | Inr _ \<Rightarrow>
        let remove = (\<lambda>tag. wrapping (''removing tag '' @ TfeID_String (tag_ID tag) @ '' from workspace '' @ TfeID_String wid)
                              (db_deleteWorkspaceTag wid (tag_ID tag)) s)
        in if ts_Name t \<noteq> []
           then (case db_findTagByName organization (ts_Name t) s of
                   Inr tag \<Rightarrow> remove tag
                 | Inl e \<Rightarrow> if errors_is e ErrResourceNotFound then (Inr (), s) else (Inl e, s))
           else case ts_ID t of
                  Some tid \<Rightarrow>
                    (case db_findTagByID organization tid s of Inl e \<Rightarrow> (Inl e, s) | Inr tag \<Rightarrow> remove tag)
                | None \<Rightarrow> (Inl ErrInvalidTagSpec, s))"

definition RemoveTags :: "'z work_env_scheme \<Rightarrow> TfeID \<Rightarrow> TagSpec list \<Rightarrow> (work_sys, unit) op" where
  "RemoveTags env wid tags =
     authorized env RemoveAction TagKind (TfeID_ID wid)
       (then_do (wrapping (''workspace not found; '' @ TfeID_String wid) (lift_op (db_getWorkspace env wid)))
         (\<lambda>ws. wtx (for_each (remove_one_tag (ws_Organization ws) wid) tags)))"

definition ListWorkspaceTags :: "'z work_env_scheme \<Rightarrow> TfeID \<Rightarrow> PageOptions \<Rightarrow> work_sys \<Rightarrow> Tag Page result" where
  "ListWorkspaceTags env wid opts s =
     (case work_access env s ListAction TagKind (TfeID_ID wid) of
        Inl e \<Rightarrow> Inl e | Inr _ \<Rightarrow> db_listWorkspaceTags wid opts s)"

section \<open>The service of workspaces (workspace/service.go)\<close>

definition connect_workspace :: "'z work_env_scheme \<Rightarrow> TfeID \<Rightarrow> Connection \<Rightarrow> (work_sys, unit) op" where
  "connect_workspace env wid c =
     (if ctx_subject (ae_ctx env) = None then fail_op (Errorf ''no subject in context'')
      else on_vcs (Connect (hook_env.truncate env) (con_VCSProviderID c) wid (con_Repo c)))"

definition disconnect_workspace :: "'z work_env_scheme \<Rightarrow> TfeID \<Rightarrow> (work_sys, unit) op" where
  "disconnect_workspace env wid =
     (if ctx_subject (ae_ctx env) = None then fail_op (Errorf ''no subject in context'')
      else on_vcs (Disconnect (hook_env.truncate env) wid))"

definition run_hooks :: "(Workspace \<Rightarrow> (work_sys, unit) op) list \<Rightarrow> Workspace \<Rightarrow> (work_sys, unit) op" where
  "run_hooks hooks ws = for_each (\<lambda>hook. hook ws) hooks"

definition connect_optional :: "'z work_env_scheme \<Rightarrow> Workspace \<Rightarrow> (work_sys, unit) op" where
  "connect_optional env ws =
     (case ws_Connection ws of None \<Rightarrow> return_op () | Some c \<Rightarrow> connect_workspace env (ws_ID ws) c)"

definition CreateWorkspace ::
  "'z work_env_scheme \<Rightarrow> WorkspaceCreateOptions \<Rightarrow> TagSpec list \<Rightarrow> (work_sys, Workspace \<times> string list) op" where
  "CreateWorkspace env opts tags s =
     (case NewWorkspace (we_regex_ok env) (we_glob_ok env) (we_GetOrganization env) (we_GetLatest env)
             (we_defaultEngine env) (ve_rnd env) (ve_clk env) opts of
        Inl e \<Rightarrow> (Inl e, s)
      | Inr ws \<Rightarrow>
          authorized env CreateAction WorkspaceKind (org_pointer (ws_Organization ws))
            (wtx (then_do (run_hooks (we_beforeCreate env) ws) (\<lambda>_.
                  then_do (db_createWorkspace ws) (\<lambda>_.
                  then_do (connect_optional env ws) (\<lambda>_.
                  then_do (if tags = [] then return_op [] else addTags env ws tags) (\<lambda>added.
                  then_do (run_hooks (we_afterCreate env) ws) (\<lambda>_. return_op (ws, added)))))))) s)"

definition GetWorkspace :: "'z work_env_scheme \<Rightarrow> TfeID \<Rightarrow> work_sys \<Rightarrow> FullWorkspace result" where
  "GetWorkspace env wid s =
     (case work_access env s GetAction WorkspaceKind (TfeID_ID wid) of
        Inl e \<Rightarrow> Inl e | Inr _ \<Rightarrow> db_getWorkspace env wid s)"

definition GetWorkspaceByName :: "'z work_env_scheme \<Rightarrow> string \<Rightarrow> string \<Rightarrow> work_sys \<Rightarrow> FullWorkspace result" where
  "GetWorkspaceByName env organization name s =
     (case db_getWorkspaceByName env organization name s of Inl e \<Rightarrow> Inl e | Inr ws \<Rightarrow>
     (case work_access env s GetAction WorkspaceKind (TfeID_ID (ws_ID ws)) of Inl e \<Rightarrow> Inl e | Inr _ \<Rightarrow> Inr ws))"

text \<open>A subject without access to the organization that is not a user falls through to the list of all its workspaces.\<close>

definition ListWorkspaces :: "'z work_env_scheme \<Rightarrow> WorkspaceListOptions \<Rightarrow> work_sys \<Rightarrow> FullWorkspace Page result" where
  "ListWorkspaces env opts s =
     (case wl_Organization opts of
        None \<Rightarrow>
          (case work_access env s ListAction WorkspaceKind SiteID of
             Inl e \<Rightarrow> Inl e | Inr _ \<Rightarrow> db_listWorkspaces env opts s)
      | Some organization \<Rightarrow>
          (case work_access env s ListAction WorkspaceKind (org_pointer organization) of
             Inr _ \<Rightarrow> db_listWorkspaces env opts s
           | Inl e \<Rightarrow>
               if e \<noteq> ErrAccessNotPermitted then Inl e
               else case ctx_subject (ae_ctx env) of
                      None \<Rightarrow> Inl (Errorf ''no subject in context'')
                    | Some (UserSubject u) \<Rightarrow> db_listByUsername env (user_Username u) organization (wl_Page opts) s
                    | Some _ \<Rightarrow> db_listWorkspaces env opts s))"

definition ListConnectedWorkspaces :: "'z work_env_scheme \<Rightarrow> TfeID \<Rightarrow> Repo \<Rightarrow> work_sys \<Rightarrow> FullWorkspace list result" where
  "ListConnectedWorkspaces = db_listByConnection"

text \<open>The hooks before an update see the workspace as it was.\<close>

definition update_workspace ::
  "'z work_env_scheme \<Rightarrow> WorkspaceUpdateOptions \<Rightarrow> FullWorkspace \<Rightarrow> (work_sys, Workspace \<times> bool option) op" where
  "update_workspace env opts ws =
     then_do (run_hooks (we_beforeUpdate env) (Workspace.Workspace.truncate ws)) (\<lambda>_.
       lift_op (\<lambda>_. Workspace_Update (we_regex_ok env) (we_glob_ok env) (we_now env) (Workspace.Workspace.truncate ws) opts))"

definition UpdateWorkspace ::
  "'z work_env_scheme \<Rightarrow> TfeID \<Rightarrow> WorkspaceUpdateOptions \<Rightarrow> (work_sys, Workspace) op" where
  "UpdateWorkspace env wid opts =
     authorized env UpdateAction WorkspaceKind (TfeID_ID wid)
       (wtx (then_do (db_updateWorkspace env wid (update_workspace env opts)) (\<lambda>(updated, connect).
          then_do (case connect of
                     None \<Rightarrow> return_op ()
                   | Some True \<Rightarrow>
                       (case ws_Connection updated of
                          None \<Rightarrow> fail_op (Panic ''nil pointer dereference'')
                        | Some c \<Rightarrow> connect_workspace env wid c)
                   | Some False \<Rightarrow> disconnect_workspace env wid)
            (\<lambda>_. return_op updated))))"

definition DeleteWorkspace :: "'z work_env_scheme \<Rightarrow> TfeID \<Rightarrow> (work_sys, FullWorkspace) op" where
  "DeleteWorkspace env wid =
     authorized env DeleteAction WorkspaceKind (TfeID_ID wid)
       (then_do (lift_op (db_getWorkspace env wid)) (\<lambda>ws.
        then_do (if ws_Connection ws = None then return_op () else disconnect_workspace env (ws_ID ws)) (\<lambda>_.
        then_do (db_deleteWorkspace (ws_ID ws)) (\<lambda>_. return_op ws))))"

definition SetWorkspacePermission :: "'z work_env_scheme \<Rightarrow> TfeID \<Rightarrow> TfeID \<Rightarrow> Role \<Rightarrow> (work_sys, unit) op" where
  "SetWorkspacePermission env wid tid role =
     authorized env SetPermissionAction WorkspaceKind (TfeID_ID wid) (db_SetWorkspacePermission wid tid role)"

definition UnsetWorkspacePermission :: "'z work_env_scheme \<Rightarrow> TfeID \<Rightarrow> TfeID \<Rightarrow> (work_sys, unit) op" where
  "UnsetWorkspacePermission env wid tid =
     authorized env UnsetPermissionAction WorkspaceKind (TfeID_ID wid) (db_UnsetWorkspacePermission wid tid)"

definition GetWorkspacePolicy :: "TfeID \<Rightarrow> work_sys \<Rightarrow> Policy result" where
  "GetWorkspacePolicy wid s = db_GetWorkspacePolicy (TfeID_ID wid) s"

definition SetWorkspaceLatestRun :: "'z work_env_scheme \<Rightarrow> TfeID \<Rightarrow> TfeID \<Rightarrow> (work_sys, FullWorkspace) op" where
  "SetWorkspaceLatestRun = db_setLatestRun"

text \<open>
  The runner service hooks its check of the agent pool into the creation and the update of workspaces
  (\<open>runner/service.go\<close>).
\<close>

definition GetAgentPool :: "'z work_env_scheme \<Rightarrow> work_sys \<Rightarrow> TfeID \<Rightarrow> Pool result" where
  "GetAgentPool env s pid =
     (case find_first (\<lambda>p. pool_ID p = pid) (wk_pools s) of None \<Rightarrow> Inl ErrResourceNotFound | Some p \<Rightarrow>
     (case work_access env s GetAction AgentPoolKind (org_pointer (pool_Organization p)) of
        Inl e \<Rightarrow> Inl e | Inr _ \<Rightarrow> Inr p))"

definition pool_access_hook :: "'z work_env_scheme \<Rightarrow> Workspace \<Rightarrow> (work_sys, unit) op" where
  "pool_access_hook env ws = lift_op (\<lambda>s. checkWorkspacePoolAccess (GetAgentPool env s) ws)"

end
