(* ===== verification/WorkspaceTables.thy ===== *)
theory WorkspaceTables
  imports WorkspaceService
begin

text \<open>
  What holds of the tables of workspaces, tags, taggings and permissions whatever operations are called:
  the invariant, and that each operation of the tables keeps it; and what the addition of tags to a
  workspace makes of the tags of the workspaces.
\<close>

section \<open>The invariant of the tables\<close>

definition workspaces_inv :: "work_sys \<Rightarrow> bool" where
  "workspaces_inv s \<longleftrightarrow> distinct (map wr_ID (wk_workspaces s)) \<and>
     distinct (map (\<lambda>r. (wr_Organization r, wr_Name r)) (wk_workspaces s))"

text \<open>Taggings stay within an organization.\<close>

definition tags_inv :: "work_sys \<Rightarrow> bool" where
  "tags_inv s \<longleftrightarrow> distinct (map tg_ID (wk_tags s)) \<and> distinct (map (\<lambda>t. (tg_Organization t, tg_Name t)) (wk_tags s)) \<and>
     distinct (wk_taggings s) \<and>
     (\<forall>(w, t) \<in> set (wk_taggings s). \<exists>r \<in> set (wk_workspaces s). \<exists>g \<in> set (wk_tags s).
        wr_ID r = w \<and> tg_ID g = t \<and> wr_Organization r = tg_Organization g)"

definition no_orphans :: "work_sys \<Rightarrow> bool" where
  "no_orphans s \<longleftrightarrow> (\<forall>t \<in> set (wk_tags s). tg_ID t \<in> snd ` set (wk_taggings s))"

definition permissions_inv :: "work_sys \<Rightarrow> bool" where
  "permissions_inv s \<longleftrightarrow> distinct (map (\<lambda>p. (pm_Workspace p, pm_Team p)) (wk_permissions s)) \<and>
     (\<forall>p \<in> set (wk_permissions s). pm_Workspace p \<in> set (map wr_ID (wk_workspaces s)) \<and>
        pm_Team p \<in> fst ` set (wk_teams s) \<and> pm_Role p \<in> set workspace_roles)"

definition work_inv :: "work_sys \<Rightarrow> bool" where
  "work_inv s \<longleftrightarrow> workspaces_inv s \<and> tags_inv s \<and> no_orphans s \<and> permissions_inv s"

lemma work_invI: "workspaces_inv s \<Longrightarrow> tags_inv s \<Longrightarrow> no_orphans s \<Longrightarrow> permissions_inv s \<Longrightarrow> work_inv s"
  by (simp add: work_inv_def)

lemma work_invD:
  assumes "work_inv s"
  shows "workspaces_inv s" "tags_inv s" "no_orphans s" "permissions_inv s"
  using assms by (simp_all add: work_inv_def)

lemma taggingE:
  assumes "tags_inv s" "(w, t) \<in> set (wk_taggings s)"
  obtains r g where "r \<in> set (wk_workspaces s)" "g \<in> set (wk_tags s)" "wr_ID r = w" "tg_ID g = t"
    "wr_Organization r = tg_Organization g"
proof -
  have "\<exists>r \<in> set (wk_workspaces s). \<exists>g \<in> set (wk_tags s). wr_ID r = w \<and> tg_ID g = t \<and> wr_Organization r = tg_Organization g"
    using bspec [of "set (wk_taggings s)" "\<lambda>(w, t). \<exists>r \<in> set (wk_workspaces s). \<exists>g \<in> set (wk_tags s).
        wr_ID r = w \<and> tg_ID g = t \<and> wr_Organization r = tg_Organization g" "(w, t)"] assms by (simp add: tags_inv_def)
  then show thesis using that by blast
qed

text \<open>The tables that the invariant speaks of; the other ones and new teams do not matter.\<close>

definition same_work :: "work_sys \<Rightarrow> work_sys \<Rightarrow> bool" where
  "same_work s s' \<longleftrightarrow> wk_workspaces s' = wk_workspaces s \<and> wk_tags s' = wk_tags s \<and> wk_taggings s' = wk_taggings s \<and>
     wk_permissions s' = wk_permissions s \<and> set (wk_teams s) \<subseteq> set (wk_teams s')"

lemma same_work_refl [simp]: "same_work s s" "same_work s (s\<lparr>wk_vcs := v\<rparr>)"
  by (simp_all add: same_work_def)

lemma same_work_trans: "same_work s s1 \<Longrightarrow> same_work s1 s' \<Longrightarrow> same_work s s'"
  by (auto simp: same_work_def)

lemma permissions_invI:
  assumes "distinct (map (\<lambda>p. (pm_Workspace p, pm_Team p)) (wk_permissions s))"
    "\<And>p. p \<in> set (wk_permissions s) \<Longrightarrow> pm_Workspace p \<in> set (map wr_ID (wk_workspaces s))"
    "\<And>p. p \<in> set (wk_permissions s) \<Longrightarrow> pm_Team p \<in> fst ` set (wk_teams s)"
    "\<And>p. p \<in> set (wk_permissions s) \<Longrightarrow> pm_Role p \<in> set workspace_roles"
  shows "permissions_inv s"
  unfolding permissions_inv_def using assms by blast

lemma permissions_invD:
  assumes "permissions_inv s"
  shows "distinct (map (\<lambda>p. (pm_Workspace p, pm_Team p)) (wk_permissions s))"
    "p \<in> set (wk_permissions s) \<Longrightarrow> pm_Workspace p \<in> set (map wr_ID (wk_workspaces s))"
    "p \<in> set (wk_permissions s) \<Longrightarrow> pm_Team p \<in> fst ` set (wk_teams s)"
    "p \<in> set (wk_permissions s) \<Longrightarrow> pm_Role p \<in> set workspace_roles"
  using assms unfolding permissions_inv_def by blast+

lemma same_work_inv:
  assumes "same_work s s'" "work_inv s"
  shows "work_inv s'"
proof (rule work_invI)
  show "workspaces_inv s'" "tags_inv s'" "no_orphans s'"
    using work_invD(1-3) [OF assms(2)] assms(1)
    by (simp_all add: same_work_def workspaces_inv_def tags_inv_def no_orphans_def)
  have "fst ` set (wk_teams s) \<subseteq> fst ` set (wk_teams s')" using assms(1) by (auto simp: same_work_def)
  moreover have "wk_workspaces s' = wk_workspaces s" "wk_permissions s' = wk_permissions s"
    using assms(1) by (simp_all add: same_work_def)
  ultimately show "permissions_inv s'" using permissions_invD [OF work_invD(4) [OF assms(2)]]
    by (auto intro!: permissions_invI)
qed

lemma on_vcs_same: "on_vcs f s = (r, s') \<Longrightarrow> same_work s s'"
  by (auto simp: on_vcs_def split: prod.splits)

lemma return_op_simps [simp]:
  "return_op x s = (Inr y, s') \<longleftrightarrow> y = x \<and> s' = s" "fail_op e s = (Inr z, s') \<longleftrightarrow> False"
  "lift_op f s = (r, s') \<longleftrightarrow> f s = r \<and> s' = s" "return_op x s = (r, s') \<longleftrightarrow> r = Inr x \<and> s' = s"
  "fail_op e s = (r', s') \<longleftrightarrow> r' = Inl e \<and> s' = s"
  by (auto simp: return_op_def fail_op_def lift_op_def)

lemma wtx_Inr [simp]: "wtx f s = (Inr x, s') \<longleftrightarrow> f s = (Inr x, s')"
  by (auto simp: wtx_def split: prod.splits sum.splits)

lemma wtx_Inl: "wtx f s = (Inl e, s') \<Longrightarrow> \<exists>v. s' = s\<lparr>wk_vcs := v\<rparr>"
  by (auto simp: wtx_def split: prod.splits sum.splits)

lemma wtx_inv:
  assumes "work_inv s" "wtx f s = (r, s')" "\<And>x. f s = (Inr x, s') \<Longrightarrow> work_inv s'"
  shows "work_inv s'"
proof (cases r)
  case (Inl e)
  then show ?thesis using wtx_Inl assms(1,2) by (metis same_work_inv same_work_refl(2))
next
  case (Inr x)
  then show ?thesis using assms(2,3) by simp
qed

lemma authorized_inv:
  assumes "work_inv s" "authorized env action kind rid f s = (r, s')" "f s = (r, s') \<Longrightarrow> work_inv s'"
  shows "work_inv s'"
  using assms by (auto simp: authorized_def split: sum.splits)

lemma authorized_Inr: "authorized env action kind rid f s = (Inr x, s') \<Longrightarrow> f s = (Inr x, s')"
  by (auto simp: authorized_def split: sum.splits)

section \<open>Each operation of the tables keeps it\<close>

lemma find_row_Some: "find_row wid s = Some r \<Longrightarrow> r \<in> set (wk_workspaces s) \<and> wr_ID r = wid"
  by (auto simp: find_row_def dest: find_first_SomeD)

lemma find_row_None: "find_row wid s = None \<longleftrightarrow> wid \<notin> set (map wr_ID (wk_workspaces s))"
  by (auto simp: find_row_def find_first_None_iff)

lemma find_row_eq:
  assumes "workspaces_inv s" "r \<in> set (wk_workspaces s)"
  shows "find_row (wr_ID r) s = Some r"
proof (cases "find_row (wr_ID r) s")
  case None
  then show ?thesis using assms(2) by (auto simp: find_row_None)
next
  case (Some r')
  then show ?thesis using assms find_row_Some [OF Some]
    by (auto simp: workspaces_inv_def distinct_map inj_on_def)
qed

lemma row_constraints_ok:
  assumes "row_constraints s others r = Inr u"
  shows "wr_ID r \<notin> set (map wr_ID others)"
    "(wr_Organization r, wr_Name r) \<notin> set (map (\<lambda>o1. (wr_Organization o1, wr_Name o1)) others)"
  using assms unfolding row_constraints_def by (auto split: if_splits)

lemma db_createWorkspace_ok:
  assumes "db_createWorkspace ws s = (Inr u, s')"
  shows "row_constraints s (wk_workspaces s) (new_row ws) = Inr ()"
    "s' = s\<lparr>wk_workspaces := wk_workspaces s @ [new_row ws],
       wk_vcs := (wk_vcs s)\<lparr>hd_resources := hd_resources (wk_vcs s) @ [(ws_ID ws, ws_Organization ws)]\<rparr>\<rparr>"
  using assms by (auto simp: db_createWorkspace_def split: sum.splits)

lemma db_createWorkspace_inv:
  assumes "work_inv s" "db_createWorkspace ws s = (Inr u, s')"
  shows "work_inv s'"
proof -
  note ok = db_createWorkspace_ok [OF assms(2)]
  note fresh = row_constraints_ok [OF ok(1)]
  show ?thesis
  proof (rule work_invI, goal_cases)
    case 1
    then show ?case using work_invD(1) [OF assms(1)] fresh by (auto simp: workspaces_inv_def ok(2))
  next
    case 2
    then show ?case using work_invD(2) [OF assms(1)] by (fastforce simp: tags_inv_def ok(2))
  next
    case 3
    then show ?case using work_invD(3) [OF assms(1)] by (simp add: no_orphans_def ok(2))
  next
    case 4
    then show ?case using work_invD(4) [OF assms(1)] by (auto simp: permissions_inv_def ok(2))
  qed
qed

text \<open>A row may be replaced by one of the same identifier and organization whose name is free.\<close>

lemma replace_row_inv:
  assumes "work_inv s" "find_row wid s = Some row" "wr_ID r = wid" "wr_Organization r = wr_Organization row"
    "wr_Name r = wr_Name row \<or> (wr_Organization r, wr_Name r) \<notin>
       set (map (\<lambda>o1. (wr_Organization o1, wr_Name o1)) (filter (\<lambda>o1. wr_ID o1 \<noteq> wid) (wk_workspaces s)))"
  shows "work_inv (replace_row wid r s)"
proof -
  let ?f = "\<lambda>o1. if wr_ID o1 = wid then r else o1"
  have row: "row \<in> set (wk_workspaces s)" "wr_ID row = wid" using find_row_Some [OF assms(2)] by auto
  have one: "o1 = row" if "o1 \<in> set (wk_workspaces s)" "wr_ID o1 = wid" for o1
    using find_row_eq [OF work_invD(1) [OF assms(1)] that(1)] that(2) assms(2) by simp
  have ids: "map wr_ID (map ?f (wk_workspaces s)) = map wr_ID (wk_workspaces s)" using assms(3) by auto
  have orgs: "wr_Organization (?f o1) = wr_Organization o1" if "o1 \<in> set (wk_workspaces s)" for o1
    using one [OF that] assms(4) by auto
  let ?k = "\<lambda>o1. (wr_Organization o1, wr_Name o1)"
  have free: "?k r \<noteq> ?k o1" if "o1 \<in> set (wk_workspaces s)" "wr_ID o1 \<noteq> wid" for o1
  proof -
    have "?k o1 \<noteq> ?k row" using work_invD(1) [OF assms(1)] row that
      by (auto simp: workspaces_inv_def distinct_map inj_on_def)
    then show ?thesis using assms(4,5) that by auto
  qed
  have names: "distinct (map ?k (map ?f (wk_workspaces s)))"
  proof -
    have "inj_on (?k \<circ> ?f) (set (wk_workspaces s))"
    proof (rule inj_onI)
      fix a b
      assume ab: "a \<in> set (wk_workspaces s)" "b \<in> set (wk_workspaces s)" "(?k \<circ> ?f) a = (?k \<circ> ?f) b"
      show "a = b"
      proof (cases "wr_ID a = wid")
        case True
        then show ?thesis using ab one [OF ab(1)] one [OF ab(2)] free [OF ab(2)] by (cases "wr_ID b = wid") auto
      next
        case False
        note a = this
        show ?thesis
        proof (cases "wr_ID b = wid")
          case True
          then show ?thesis using ab a free [OF ab(1)] by auto
        next
          case False
          then show ?thesis using ab a work_invD(1) [OF assms(1)] by (auto simp: workspaces_inv_def distinct_map inj_on_def)
        qed
      qed
    qed
    moreover have "distinct (wk_workspaces s)"
      using work_invD(1) [OF assms(1)] by (auto simp: workspaces_inv_def distinct_map)
    ultimately show ?thesis by (simp add: distinct_map comp_def)
  qed
  show ?thesis
  proof (rule work_invI, goal_cases)
    case 1
    have "wk_workspaces (replace_row wid r s) = map ?f (wk_workspaces s)" by (simp add: replace_row_def)
    then show ?case using names work_invD(1) [OF assms(1)] unfolding workspaces_inv_def by (simp only: ids)
  next
    case 2
    have "\<exists>r' \<in> ?f ` set (wk_workspaces s). \<exists>g \<in> set (wk_tags s). wr_ID r' = w \<and> tg_ID g = t \<and> wr_Organization r' = tg_Organization g"
      if wt: "(w, t) \<in> set (wk_taggings s)" for w t
    proof -
      obtain o1 g where o1: "o1 \<in> set (wk_workspaces s)" "g \<in> set (wk_tags s)" "wr_ID o1 = w" "tg_ID g = t" "wr_Organization o1 = tg_Organization g"
        using taggingE [OF work_invD(2) [OF assms(1)] wt] by blast
      moreover have "wr_ID (?f o1) = w" using o1(3) assms(3) by auto
      ultimately show ?thesis using orgs [OF o1(1)] by (intro bexI [of _ "?f o1"] bexI [of _ g]) auto
    qed
    then show ?case using work_invD(2) [OF assms(1)] by (auto simp: tags_inv_def replace_row_def)
  next
    case 3
    then show ?case using work_invD(3) [OF assms(1)] by (simp add: no_orphans_def replace_row_def)
  next
    case 4
    have "wk_workspaces (replace_row wid r s) = map ?f (wk_workspaces s)" by (simp add: replace_row_def)
    then show ?case using work_invD(4) [OF assms(1)] unfolding permissions_inv_def
      by (simp only: ids) (simp add: replace_row_def)
  qed
qed

lemma changed_row_keys [simp]:
  "wr_ID (changed_row ws row) = wr_ID row" "wr_Organization (changed_row ws row) = wr_Organization row"
  "wr_Name (changed_row ws row) = ws_Name ws"
  by (simp_all add: changed_row_def)

lemma write_workspace_ok:
  assumes "write_workspace ws s = (Inr u, s')"
  obtains row where "find_row (ws_ID ws) s = Some row"
    "row_constraints s (filter (\<lambda>o1. wr_ID o1 \<noteq> ws_ID ws) (wk_workspaces s)) (changed_row ws row) = Inr ()"
    "s' = replace_row (ws_ID ws) (changed_row ws row) s"
  using assms by (auto simp: write_workspace_def split: option.splits sum.splits)

lemma write_workspace_inv:
  assumes "work_inv s" "write_workspace ws s = (Inr u, s')"
  shows "work_inv s'"
  using assms(2)
proof (rule write_workspace_ok)
  fix row
  assume row: "find_row (ws_ID ws) s = Some row" "s' = replace_row (ws_ID ws) (changed_row ws row) s"
    "row_constraints s (filter (\<lambda>o1. wr_ID o1 \<noteq> ws_ID ws) (wk_workspaces s)) (changed_row ws row) = Inr ()"
  then show "work_inv s'" using row_constraints_ok(2) [OF row(3)] find_row_Some [OF row(1)]
    by (auto intro!: replace_row_inv [OF assms(1) row(1)])
qed

lemma db_setLatestRun_inv:
  assumes "work_inv s" "db_setLatestRun env wid rid s = (r, s')"
  shows "work_inv s'"
  using assms by (auto simp: db_setLatestRun_def find_row_Some intro!: replace_row_inv split: option.splits if_splits)

lemma delete_tags_trigger_frame [simp]:
  "wk_workspaces (delete_tags_trigger s) = wk_workspaces s" "wk_taggings (delete_tags_trigger s) = wk_taggings s"
  "wk_permissions (delete_tags_trigger s) = wk_permissions s" "wk_teams (delete_tags_trigger s) = wk_teams s"
  by (simp_all add: delete_tags_trigger_def)

text \<open>Taggings may go, with the tags that are left without any.\<close>

lemma untag_inv:
  assumes "work_inv s" "set tags \<subseteq> set (wk_tags s)" "distinct (map tg_ID tags)"
    "distinct (map (\<lambda>t. (tg_Organization t, tg_Name t)) tags)" "distinct ts" "set ts \<subseteq> set (wk_taggings s)"
    "\<And>w t. (w, t) \<in> set ts \<Longrightarrow> t \<in> set (map tg_ID tags)"
  shows "work_inv (delete_tags_trigger (s\<lparr>wk_tags := tags, wk_taggings := ts\<rparr>))"
proof (rule work_invI, goal_cases)
  case 1
  then show ?case using work_invD(1) [OF assms(1)] by (simp add: workspaces_inv_def delete_tags_trigger_def)
next
  case 2
  have "\<forall>(w, t) \<in> set ts. \<exists>r \<in> set (wk_workspaces s). \<exists>g \<in> set (filter (\<lambda>t. tg_ID t \<in> snd ` set ts) tags).
      wr_ID r = w \<and> tg_ID g = t \<and> wr_Organization r = tg_Organization g"
  proof (clarify, goal_cases)
    case (1 w t)
    note wt = 1
    have in_s: "(w, t) \<in> set (wk_taggings s)" using wt assms(6) by blast
    obtain r g where g: "r \<in> set (wk_workspaces s)" "g \<in> set (wk_tags s)" "wr_ID r = w" "tg_ID g = t" "wr_Organization r = tg_Organization g"
      using taggingE [OF work_invD(2) [OF assms(1)] in_s] by blast
    obtain g' where g': "g' \<in> set tags" "tg_ID g' = t" using assms(7) [OF wt] by auto
    have "g' = g" using g(2,4) g' assms(2) work_invD(2) [OF assms(1)] by (auto simp: tags_inv_def distinct_map inj_on_def)
    then show ?case using g g' wt by (intro bexI [of _ r] bexI [of _ g]) force+
  qed
  then show ?case using assms(3,4,5)
    by (simp add: tags_inv_def delete_tags_trigger_def distinct_map_filter)
next
  case 3
  then show ?case by (simp add: no_orphans_def delete_tags_trigger_def)
next
  case 4
  then show ?case using work_invD(4) [OF assms(1)] by (simp add: permissions_inv_def delete_tags_trigger_def)
qed

lemma tagging_has_tag: "work_inv s \<Longrightarrow> (w, t) \<in> set (wk_taggings s) \<Longrightarrow> t \<in> set (map tg_ID (wk_tags s))"
  using work_invD(2) by (fastforce simp: tags_inv_def)

lemma db_deleteTag_inv:
  assumes "work_inv s" "db_deleteTag organization tid s = (r, s')"
  shows "work_inv s'"
proof (cases "list_ex (\<lambda>t. tg_ID t = tid \<and> tg_Organization t = organization) (wk_tags s)")
  case True
  have "t \<in> set (map tg_ID (filter (\<lambda>t. tg_ID t \<noteq> tid) (wk_tags s)))"
    if "(w, t) \<in> set (filter (\<lambda>wt. snd wt \<noteq> tid) (wk_taggings s))" for w t
    using tagging_has_tag [OF assms(1), of w t] that by auto
  then have "work_inv (delete_tags_trigger (s\<lparr>wk_tags := filter (\<lambda>t. tg_ID t \<noteq> tid) (wk_tags s),
      wk_taggings := filter (\<lambda>wt. snd wt \<noteq> tid) (wk_taggings s)\<rparr>))"
    using work_invD(2) [OF assms(1)] by (intro untag_inv [OF assms(1)]) (auto simp: tags_inv_def distinct_map_filter)
  then show ?thesis using True assms(2) by (simp add: db_deleteTag_def)
qed (use assms in \<open>simp add: db_deleteTag_def\<close>)

lemma db_deleteWorkspaceTag_inv:
  assumes "work_inv s" "db_deleteWorkspaceTag wid tid s = (r, s')"
  shows "work_inv s'"
  using assms tagging_has_tag [OF assms(1)] work_invD(2) [OF assms(1)]
    untag_inv [OF assms(1), of "wk_tags s" "filter (\<lambda>wt. wt \<noteq> (wid, tid)) (wk_taggings s)"]
  by (auto simp: db_deleteWorkspaceTag_def tags_inv_def split: if_splits)

lemma db_deleteWorkspace_inv:
  assumes "work_inv s" "db_deleteWorkspace wid s = (r, s')"
  shows "work_inv s'"
proof (cases "find_row wid s")
  case None
  then show ?thesis using assms by (simp add: db_deleteWorkspace_def)
next
  case (Some row)
  let ?t = "delete_tags_trigger (s\<lparr>wk_tags := wk_tags s, wk_taggings := filter (\<lambda>wt. fst wt \<noteq> wid) (wk_taggings s)\<rparr>)"
  have t: "work_inv ?t"
    by (rule untag_inv [OF assms(1)])
      (use tagging_has_tag [OF assms(1)] work_invD(2) [OF assms(1)] in \<open>auto simp: tags_inv_def\<close>)
  have s': "wk_workspaces s' = filter (\<lambda>r. wr_ID r \<noteq> wid) (wk_workspaces s)" "wk_tags s' = wk_tags ?t"
    "wk_taggings s' = wk_taggings ?t" "wk_permissions s' = filter (\<lambda>p. pm_Workspace p \<noteq> wid) (wk_permissions s)"
    "wk_teams s' = wk_teams s"
    using assms(2) Some by (auto simp: db_deleteWorkspace_def delete_tags_trigger_def)
  have tabs: "wk_workspaces ?t = wk_workspaces s" by (simp add: delete_tags_trigger_def)
  show ?thesis
  proof (rule work_invI, goal_cases)
    case 1
    then show ?case using work_invD(1) [OF assms(1)] by (simp add: workspaces_inv_def s' distinct_map_filter)
  next
    case 2
    have "\<forall>(w, t1) \<in> set (wk_taggings ?t). \<exists>r \<in> set (wk_workspaces s'). \<exists>g \<in> set (wk_tags ?t).
        wr_ID r = w \<and> tg_ID g = t1 \<and> wr_Organization r = tg_Organization g"
    proof (clarify, goal_cases)
      case (1 w t1)
      obtain r g where g: "r \<in> set (wk_workspaces ?t)" "g \<in> set (wk_tags ?t)" "wr_ID r = w" "tg_ID g = t1"
          "wr_Organization r = tg_Organization g"
        using taggingE [OF work_invD(2) [OF t] 1] by blast
      moreover have "w \<noteq> wid" using 1 by (auto simp: delete_tags_trigger_def)
      ultimately have "r \<in> set (wk_workspaces s')" by (simp add: s' tabs)
      then show ?case using g by (intro bexI [of _ r] bexI [of _ g]) simp_all
    qed
    then show ?case using work_invD(2) [OF t] unfolding tags_inv_def s'(2,3) by blast
  next
    case 3
    then show ?case using work_invD(3) [OF t] by (simp add: no_orphans_def s')
  next
    case 4
    then show ?case using work_invD(4) [OF assms(1)] by (auto simp: permissions_inv_def s' tabs distinct_map_filter)
  qed
qed

lemma db_SetWorkspacePermission_inv:
  assumes "work_inv s" "db_SetWorkspacePermission wid tid role s = (r, s')"
  shows "work_inv s'"
proof (cases "find_row wid s = None \<or> tid \<notin> fst ` set (wk_teams s) \<or> role_name role \<notin> set workspace_roles")
  case True
  then show ?thesis using assms by (auto simp: db_SetWorkspacePermission_def)
next
  case False
  let ?k = "\<lambda>p. (pm_Workspace p, pm_Team p)"
  let ?row = "\<lparr>pm_Workspace = wid, pm_Team = tid, pm_Role = role_name role\<rparr>"
  let ?key = "\<lambda>p. pm_Workspace p = wid \<and> pm_Team p = tid"
  define ps where "ps = (if list_ex ?key (wk_permissions s) then map (\<lambda>p. if ?key p then ?row else p) (wk_permissions s)
     else wk_permissions s @ [?row])"
  have s': "s' = s\<lparr>wk_permissions := ps\<rparr>" using assms(2) False unfolding db_SetWorkspacePermission_def ps_def Let_def by (simp only: if_False prod.inject)
  have same: "map ?k (map (\<lambda>p. if ?key p then ?row else p) (wk_permissions s)) = map ?k (wk_permissions s)" by auto
  have old: "distinct (map ?k (wk_permissions s))" using work_invD(4) [OF assms(1)] by (simp add: permissions_inv_def)
  have "distinct (map ?k ps)"
  proof (cases "list_ex ?key (wk_permissions s)")
    case True
    then show ?thesis using old same by (simp add: ps_def del: map_map)
  next
    case False
    then show ?thesis using old by (auto simp: ps_def list_ex_iff)
  qed
  moreover have "set ps \<subseteq> insert ?row (set (wk_permissions s))" by (auto simp: ps_def)
  moreover have "wid \<in> set (map wr_ID (wk_workspaces s))" using False find_row_None by blast
  ultimately have "permissions_inv s'"
  proof (intro permissions_invI, goal_cases)
    case (2 p)
    then show ?case using permissions_invD(2) [OF work_invD(4) [OF assms(1)]] by (auto simp: s')
  next
    case (3 p)
    then show ?case using permissions_invD(3) [OF work_invD(4) [OF assms(1)]] False by (cases "p = ?row") (auto simp: s')
  next
    case (4 p)
    then show ?case using permissions_invD(4) [OF work_invD(4) [OF assms(1)]] False by (cases "p = ?row") (auto simp: s')
  qed (simp add: s')
  then show ?thesis using work_invD [OF assms(1)]
    by (auto simp: s' workspaces_inv_def tags_inv_def no_orphans_def intro!: work_invI)
qed

lemma db_UnsetWorkspacePermission_inv:
  assumes "work_inv s" "db_UnsetWorkspacePermission wid tid s = (r, s')"
  shows "work_inv s'"
  using assms work_invD [OF assms(1)]
  by (auto simp: db_UnsetWorkspacePermission_def Let_def workspaces_inv_def tags_inv_def no_orphans_def permissions_inv_def
      distinct_map_filter intro!: work_invI split: if_splits)


section \<open>Adding tags\<close>

lemma find_or_add_tag_ok:
  assumes "find_or_add_tag env organization k t s = (Inr (tid, name), s1)"
  obtains (found) g where "s1 = s" "g \<in> set (wk_tags s)" "tg_ID g = tid" "tg_Name g = name" "tg_Organization g = organization"
  | (added) g where "s1 = s\<lparr>wk_tags := wk_tags s @ [g]\<rparr>" "tg_ID g = tid" "tg_Name g = name" "tg_Organization g = organization"
      "tid \<notin> set (map tg_ID (wk_tags s))"
      "(organization, name) \<notin> set (map (\<lambda>t. (tg_Organization t, tg_Name t)) (wk_tags s))"
proof (cases "ts_Name t = []")
  case True
  then have e: "(case ts_ID t of
      Some tid1 \<Rightarrow> (case db_findTagByID organization tid1 s of Inl e \<Rightarrow> (Inl e, s) | Inr tag \<Rightarrow> (Inr (tid1, tag_Name tag), s))
    | None \<Rightarrow> (Inl ErrInvalidTagSpec, s)) = (Inr (tid, name), s1)"
    using assms unfolding find_or_add_tag_def by simp
  obtain tid1 where i: "ts_ID t = Some tid1" using e by (cases "ts_ID t") simp_all
  obtain tag where "db_findTagByID organization tid1 s = Inr tag"
    using e i by (cases "db_findTagByID organization tid1 s") simp_all
  then have tag: "db_findTagByID organization tid s = Inr tag" "name = tag_Name tag" "s1 = s" using e i by simp_all
  then obtain g where g: "find_first (\<lambda>t. tg_ID t = tid \<and> tg_Organization t = organization) (wk_tags s) = Some g"
    "name = tg_Name g" "s1 = s"
    by (cases "find_first (\<lambda>t. tg_ID t = tid \<and> tg_Organization t = organization) (wk_tags s)")
      (auto simp: db_findTagByID_def collect_one_def scan_tag_def)
  show thesis using find_first_SomeD [OF g(1)] g(2,3) by (intro found [of g]) simp_all
next
  case False
  show thesis
  proof (cases "find_first (\<lambda>g. tg_Name g = ts_Name t \<and> tg_Organization g = organization) (wk_tags s)")
    case None
    then have "db_addTag organization (ts_Name t) (NewTfeID (we_tag_rnd env k) TagKind) s = (Inr (), s1)"
      "tid = NewTfeID (we_tag_rnd env k) TagKind" "name = ts_Name t"
      using assms False by (auto simp: find_or_add_tag_def db_findTagByName_def collect_one_def then_do_Inr Let_def)
    then show thesis by (intro added [of "\<lparr>tg_ID = tid, tg_Name = name, tg_Organization = organization\<rparr>"])
        (auto simp: db_addTag_def list_ex_iff split: if_splits)
  next
    case (Some g)
    then have "s1 = s" "tid = tg_ID g" "name = ts_Name t"
      using assms False by (auto simp: find_or_add_tag_def db_findTagByName_def collect_one_def scan_tag_def)
    then show thesis using found [of g] find_first_SomeD [OF Some] by auto
  qed
qed

lemma find_row_tags [simp]:
  "find_row wid (s\<lparr>wk_tags := ts\<rparr>) = find_row wid s" "find_row wid (s\<lparr>wk_taggings := wts\<rparr>) = find_row wid s"
  "find_row wid (delete_tags_trigger s) = find_row wid s"
  by (simp_all add: find_row_def)

text \<open>A tag is added: its name was not among those of the workspace; the other workspaces keep theirs.\<close>

definition tag_added :: "TfeID \<Rightarrow> string \<Rightarrow> work_sys \<Rightarrow> work_sys \<Rightarrow> bool" where
  "tag_added wid name s s' \<longleftrightarrow> name \<notin> set (tag_names wid s) \<and> set (tag_names wid s') = insert name (set (tag_names wid s)) \<and>
     (\<forall>w. w \<noteq> wid \<longrightarrow> tag_names w s' = tag_names w s) \<and>
     wk_workspaces s' = wk_workspaces s \<and> wk_permissions s' = wk_permissions s \<and> wk_teams s' = wk_teams s \<and>
     wk_vcs s' = wk_vcs s \<and> wk_runs s' = wk_runs s"

lemma tag_in_names_iff:
  assumes "tags_inv s" "g \<in> set (wk_tags s)" "find_row wid s = Some row" "wr_Organization row = tg_Organization g" "workspaces_inv s"
  shows "tg_Name g \<in> set (tag_names wid s) \<longleftrightarrow> (wid, tg_ID g) \<in> set (wk_taggings s)"
proof
  assume "tg_Name g \<in> set (tag_names wid s)"
  then obtain g' where g': "g' \<in> set (wk_tags s)" "(wid, tg_ID g') \<in> set (wk_taggings s)" "tg_Name g' = tg_Name g"
    by (auto simp: tag_names_def)
  obtain r h where r: "r \<in> set (wk_workspaces s)" "h \<in> set (wk_tags s)" "wr_ID r = wid" "tg_ID h = tg_ID g'" "wr_Organization r = tg_Organization h"
    using taggingE [OF assms(1) g'(2)] by blast
  have "h = g'" using r(2,4) g'(1) assms(1) by (auto simp: tags_inv_def distinct_map inj_on_def)
  moreover have "r = row" using find_row_eq [OF assms(5) r(1)] r(3) assms(3) by simp
  ultimately have "tg_Organization g' = tg_Organization g" using r(5) assms(4) by simp
  then have "g' = g" using g'(1,3) assms(1,2) by (auto simp: tags_inv_def distinct_map inj_on_def)
  then show "(wid, tg_ID g) \<in> set (wk_taggings s)" using g'(2) by simp
qed (use assms(2) in \<open>auto simp: tag_names_def\<close>)

lemma tagged_inv:
  assumes "work_inv s1" "g \<in> set (wk_tags s1)" "find_row wid s1 = Some row" "wr_Organization row = tg_Organization g"
    "(wid, tg_ID g) \<notin> set (wk_taggings s1)"
  shows "work_inv (s1\<lparr>wk_taggings := wk_taggings s1 @ [(wid, tg_ID g)]\<rparr>)"
    "tag_added wid (tg_Name g) s1 (s1\<lparr>wk_taggings := wk_taggings s1 @ [(wid, tg_ID g)]\<rparr>)"
proof -
  let ?s' = "s1\<lparr>wk_taggings := wk_taggings s1 @ [(wid, tg_ID g)]\<rparr>"
  note inv = work_invD [OF assms(1)]
  have row: "row \<in> set (wk_workspaces s1)" "wr_ID row = wid" using find_row_Some [OF assms(3)] by auto
  show "work_inv ?s'"
  proof (rule work_invI, goal_cases)
    case 2
    have "\<exists>r \<in> set (wk_workspaces s1). \<exists>g' \<in> set (wk_tags s1). wr_ID r = wid \<and> tg_ID g' = tg_ID g \<and> wr_Organization r = tg_Organization g'"
      using row assms(2,4) by blast
    then show ?case using inv(2) assms(5) by (simp add: tags_inv_def)
  qed (use inv in \<open>auto simp: workspaces_inv_def no_orphans_def permissions_inv_def\<close>)
  have "set (tag_names wid ?s') = insert (tg_Name g) (set (tag_names wid s1))"
  proof -
    have "g' = g" if "g' \<in> set (wk_tags s1)" "tg_ID g' = tg_ID g" for g'
      using that assms(2) inv(2) by (auto simp: tags_inv_def distinct_map inj_on_def)
    then show ?thesis using assms(2) by (auto simp: tag_names_def)
  qed
  moreover have "tag_names w ?s' = tag_names w s1" if "w \<noteq> wid" for w
    using that by (simp add: tag_names_def)
  ultimately show "tag_added wid (tg_Name g) s1 ?s'"
    using tag_in_names_iff [OF inv(2) assms(2,3,4) inv(1)] assms(5) by (simp add: tag_added_def)
qed

lemma db_tagWorkspace_ok:
  assumes "db_tagWorkspace wid tid s = (Inr u, s')"
  obtains g row where "g \<in> set (wk_tags s)" "tg_ID g = tid" "find_row wid s = Some row" "wr_Organization row = tg_Organization g"
    "(wid, tid) \<notin> set (wk_taggings s)" "s' = s\<lparr>wk_taggings := wk_taggings s @ [(wid, tid)]\<rparr>"
  using assms by (auto simp: db_tagWorkspace_def list_ex_iff split: if_splits)

lemma new_tag_inv:
  assumes "work_inv s" "tg_ID g \<notin> set (map tg_ID (wk_tags s))"
    "(tg_Organization g, tg_Name g) \<notin> set (map (\<lambda>t. (tg_Organization t, tg_Name t)) (wk_tags s))"
    "find_row wid s = Some row" "wr_Organization row = tg_Organization g"
  shows "work_inv (s\<lparr>wk_tags := wk_tags s @ [g], wk_taggings := wk_taggings s @ [(wid, tg_ID g)]\<rparr>)"
    "tag_added wid (tg_Name g) s (s\<lparr>wk_tags := wk_tags s @ [g], wk_taggings := wk_taggings s @ [(wid, tg_ID g)]\<rparr>)"
proof -
  let ?s' = "s\<lparr>wk_tags := wk_tags s @ [g], wk_taggings := wk_taggings s @ [(wid, tg_ID g)]\<rparr>"
  note inv = work_invD [OF assms(1)]
  have row: "row \<in> set (wk_workspaces s)" "wr_ID row = wid" using find_row_Some [OF assms(4)] by auto
  have untagged: "(w, tg_ID g) \<notin> set (wk_taggings s)" for w
    using tagging_has_tag [OF assms(1)] assms(2) by blast
  show "work_inv ?s'"
  proof (rule work_invI, goal_cases)
    case 2
    have "\<forall>(w, t) \<in> set (wk_taggings ?s'). \<exists>r \<in> set (wk_workspaces s). \<exists>g' \<in> insert g (set (wk_tags s)).
        wr_ID r = w \<and> tg_ID g' = t \<and> wr_Organization r = tg_Organization g'"
    proof (clarify, goal_cases)
      case (1 w t)
      then consider "(w, t) \<in> set (wk_taggings s)" | "w = wid" "t = tg_ID g" by auto
      then show ?case
      proof cases
        case 1
        obtain r g' where "r \<in> set (wk_workspaces s)" "g' \<in> set (wk_tags s)" "wr_ID r = w" "tg_ID g' = t" "wr_Organization r = tg_Organization g'"
          using taggingE [OF inv(2) 1] by blast
        then show ?thesis by blast
      next
        case 2
        then show ?thesis using row assms(5) by blast
      qed
    qed
    then show ?case using inv(2) assms(2,3) untagged by (simp add: tags_inv_def)
  qed (use inv in \<open>auto simp: workspaces_inv_def no_orphans_def permissions_inv_def\<close>)
  have "tag_names w ?s' = tag_names w s @ (if w = wid then [tg_Name g] else [])" for w
  proof -
    have "filter (\<lambda>t. (w, tg_ID t) \<in> set (wk_taggings ?s')) (wk_tags s) = filter (\<lambda>t. (w, tg_ID t) \<in> set (wk_taggings s)) (wk_tags s)"
      proof (rule filter_cong [OF refl])
      fix x
      assume "x \<in> set (wk_tags s)"
      then have "tg_ID x \<noteq> tg_ID g" using assms(2) by (metis image_eqI image_set)
      then show "((w, tg_ID x) \<in> set (wk_taggings ?s')) = ((w, tg_ID x) \<in> set (wk_taggings s))" by simp
    qed
    then show ?thesis using untagged by (simp add: tag_names_def)
  qed
  moreover have "tg_Name g \<notin> set (tag_names wid s)"
  proof
    assume "tg_Name g \<in> set (tag_names wid s)"
    then obtain g' where g': "g' \<in> set (wk_tags s)" "(wid, tg_ID g') \<in> set (wk_taggings s)" "tg_Name g' = tg_Name g"
      by (auto simp: tag_names_def)
    obtain r h where r: "r \<in> set (wk_workspaces s)" "h \<in> set (wk_tags s)" "wr_ID r = wid" "tg_ID h = tg_ID g'" "wr_Organization r = tg_Organization h"
      using taggingE [OF inv(2) g'(2)] by blast
    have "h = g'" using r(2,4) g'(1) inv(2) by (auto simp: tags_inv_def distinct_map inj_on_def)
    moreover have "r = row" using find_row_eq [OF inv(1) r(1)] r(3) assms(4) by simp
    ultimately have "(tg_Organization g', tg_Name g') = (tg_Organization g, tg_Name g)" using r(5) assms(5) g'(3) by simp
    then show False using assms(3) g'(1) by (metis (mono_tags, lifting) image_eqI image_set)
  qed
  ultimately show "tag_added wid (tg_Name g) s ?s'" by (auto simp: tag_added_def)
qed

lemma add_one_tag_ok:
  assumes "work_inv s" "find_row wid s = Some row" "wr_Organization row = organization"
    "add_one_tag env organization wid k t s = (Inr name, s')"
  shows "work_inv s'" "tag_added wid name s s'" "ts_Name t \<noteq> [] \<Longrightarrow> name = ts_Name t"
proof -
  obtain tid s1 where s1: "find_or_add_tag env organization k t s = (Inr (tid, name), s1)" "db_tagWorkspace wid tid s1 = (Inr (), s')"
    using assms(4) by (auto simp: add_one_tag_def then_do_Inr split: prod.splits)
  obtain g r where g: "g \<in> set (wk_tags s1)" "tg_ID g = tid" "find_row wid s1 = Some r" "wr_Organization r = tg_Organization g"
    "(wid, tid) \<notin> set (wk_taggings s1)" "s' = s1\<lparr>wk_taggings := wk_taggings s1 @ [(wid, tid)]\<rparr>"
    using db_tagWorkspace_ok [OF s1(2)] by blast
  have "work_inv s' \<and> tag_added wid name s s'" using s1(1)
  proof (cases rule: find_or_add_tag_ok)
    case (found h)
    have "h = g" using found g(1,2) work_invD(2) [OF assms(1)] by (auto simp: tags_inv_def distinct_map inj_on_def)
    then show ?thesis using tagged_inv [OF assms(1), of g wid r] found g by auto
  next
    case (added h)
    have "s' = s\<lparr>wk_tags := wk_tags s @ [h], wk_taggings := wk_taggings s @ [(wid, tg_ID h)]\<rparr>"
      using g(6) added by simp
    then show ?thesis using new_tag_inv [OF assms(1), of h wid row] added assms(2,3) by auto
  qed
  then show "work_inv s'" "tag_added wid name s s'" by auto
  show "name = ts_Name t" if "ts_Name t \<noteq> []"
    using s1(1) that by (auto simp: find_or_add_tag_def then_do_Inr Let_def split: sum.splits if_splits)
qed

text \<open>A list of tags is added: names that are new and different from one another.\<close>

definition tags_added :: "TfeID \<Rightarrow> string list \<Rightarrow> work_sys \<Rightarrow> work_sys \<Rightarrow> bool" where
  "tags_added wid names s s' \<longleftrightarrow> distinct names \<and> set names \<inter> set (tag_names wid s) = {} \<and>
     set (tag_names wid s') = set names \<union> set (tag_names wid s) \<and> (\<forall>w. w \<noteq> wid \<longrightarrow> tag_names w s' = tag_names w s) \<and>
     wk_workspaces s' = wk_workspaces s \<and> wk_permissions s' = wk_permissions s \<and> wk_teams s' = wk_teams s \<and>
     wk_vcs s' = wk_vcs s \<and> wk_runs s' = wk_runs s"

lemma add_tags_loop_ok:
  assumes "work_inv s" "find_row wid s = Some row" "wr_Organization row = organization"
    "add_tags_loop env organization wid k ts added s = (Inr names, s')"
  shows "\<exists>new. names = added @ new \<and> work_inv s' \<and> tags_added wid new s s' \<and>
    (list_all (\<lambda>t. ts_Name t \<noteq> []) ts \<longrightarrow> new = map ts_Name ts)"
  using assms
proof (induction ts arbitrary: k added s)
  case Nil
  then show ?case by (intro exI [of _ "[]"]) (auto simp: tags_added_def)
next
  case (Cons t ts)
  obtain name s1 where s1: "add_one_tag env organization wid k t s = (Inr name, s1)"
    "add_tags_loop env organization wid (Suc k) ts (added @ [name]) s1 = (Inr names, s')"
    using Cons.prems(4) by (auto split: prod.splits sum.splits)
  note one = add_one_tag_ok [OF Cons.prems(1-3) s1(1)]
  have "find_row wid s1 = Some row" using one(2) Cons.prems(2) by (simp add: tag_added_def find_row_def)
  from Cons.IH [OF one(1) this Cons.prems(3) s1(2)] obtain new where
    new: "names = (added @ [name]) @ new" "work_inv s'" "tags_added wid new s1 s'"
      "list_all (\<lambda>t. ts_Name t \<noteq> []) ts \<longrightarrow> new = map ts_Name ts"
    by blast
  have "tags_added wid (name # new) s s'"
    using one(2) new(3) by (auto simp: tags_added_def tag_added_def)
  then show ?case using new one(3) by (intro exI [of _ "name # new"]) auto
qed

lemma addTags_ok:
  assumes "work_inv s" "find_row (ws_ID ws) s = Some row" "wr_Organization row = ws_Organization ws"
    "addTags env ws tags s = (Inr names, s')"
  shows "work_inv s'" "tags_added (ws_ID ws) names s s'" "list_all (\<lambda>t. ts_Name t \<noteq> []) tags \<Longrightarrow> names = map ts_Name tags"
  using add_tags_loop_ok [OF assms(1-3), of env 0 tags "[]" names s'] assms(4) by (auto simp: addTags_def)

end
