(* ===== verification/WorkspaceSafety.thy ===== *)
theory WorkspaceSafety
  imports WorkspaceTables
begin

text \<open>
  Properties of the service of workspaces: the invariant of its tables in every reachable state, and what
  the tags of a workspace are after tags are added or removed.
\<close>

section \<open>Removing tags\<close>

lemma tag_names_trigger: "tag_names w (delete_tags_trigger s) = tag_names w s"
proof -
  have "filter (\<lambda>t. (w, tg_ID t) \<in> set (wk_taggings s)) (filter (\<lambda>t. tg_ID t \<in> snd ` set (wk_taggings s)) (wk_tags s)) =
      filter (\<lambda>t. (w, tg_ID t) \<in> set (wk_taggings s)) (wk_tags s)"
    unfolding filter_filter by (rule filter_cong) force+
  then show ?thesis by (simp add: tag_names_def delete_tags_trigger_def)
qed

text \<open>A tag that is given by a name is removed, or no tag of the organization has that name.\<close>

definition by_name :: "string \<Rightarrow> TagSpec" where
  "by_name n = \<lparr>ts_ID = None, ts_Name = n\<rparr>"

definition tags_removed :: "TfeID \<Rightarrow> string set \<Rightarrow> work_sys \<Rightarrow> work_sys \<Rightarrow> bool" where
  "tags_removed wid names s s' \<longleftrightarrow> set (tag_names wid s') = set (tag_names wid s) - names \<and>
     (\<forall>w. w \<noteq> wid \<longrightarrow> set (tag_names w s') = set (tag_names w s)) \<and> wk_workspaces s' = wk_workspaces s"

lemma remove_one_tag_ok:
  assumes "work_inv s" "find_row wid s = Some row" "wr_Organization row = organization" "n \<noteq> []"
    "remove_one_tag organization wid (by_name n) s = (Inr u, s')"
  shows "work_inv s' \<and> tags_removed wid {n} s s'"
proof (cases "find_first (\<lambda>t. tg_Name t = n \<and> tg_Organization t = organization) (wk_tags s)")
  case None
  have s': "s' = s" using assms(4,5) None
    by (simp add: remove_one_tag_def TagSpec_Valid_def by_name_def db_findTagByName_def collect_one_def)
  have "n \<notin> set (tag_names wid s)"
  proof
    assume "n \<in> set (tag_names wid s)"
    then obtain g where g: "g \<in> set (wk_tags s)" "(wid, tg_ID g) \<in> set (wk_taggings s)" "tg_Name g = n"
      by (auto simp: tag_names_def)
    obtain r h where r: "r \<in> set (wk_workspaces s)" "h \<in> set (wk_tags s)" "wr_ID r = wid" "tg_ID h = tg_ID g" "wr_Organization r = tg_Organization h"
      using taggingE [OF work_invD(2) [OF assms(1)] g(2)] by blast
    have "h = g" using r(2,4) g(1) work_invD(2) [OF assms(1)] by (auto simp: tags_inv_def distinct_map inj_on_def)
    moreover have "r = row" using find_row_eq [OF work_invD(1) [OF assms(1)] r(1)] r(3) assms(2) by simp
    ultimately show False using None g assms(3) r(5) by (auto simp: find_first_None_iff)
  qed
  then show ?thesis using assms(1) by (auto simp: s' tags_removed_def)
next
  case (Some g)
  note g = find_first_SomeD [OF Some]
  have del: "db_deleteWorkspaceTag wid (tg_ID g) s = (Inr u, s')" using assms(4,5) Some
    by (simp add: remove_one_tag_def TagSpec_Valid_def by_name_def db_findTagByName_def collect_one_def scan_tag_def)
  let ?t = "s\<lparr>wk_taggings := filter (\<lambda>wt. wt \<noteq> (wid, tg_ID g)) (wk_taggings s)\<rparr>"
  have s': "s' = delete_tags_trigger ?t" using del by (simp add: db_deleteWorkspaceTag_def split: if_splits)
  have "set (tag_names wid ?t) = set (tag_names wid s) - {n}"
  proof (rule set_eqI, rule iffI)
    fix x
    assume "x \<in> set (tag_names wid ?t)"
    then obtain h where h: "h \<in> set (wk_tags s)" "(wid, tg_ID h) \<in> set (wk_taggings s)" "tg_ID h \<noteq> tg_ID g" "x = tg_Name h"
      by (auto simp: tag_names_def)
    have "x \<noteq> n"
    proof
      assume "x = n"
      obtain r h' where r: "r \<in> set (wk_workspaces s)" "h' \<in> set (wk_tags s)" "wr_ID r = wid" "tg_ID h' = tg_ID h" "wr_Organization r = tg_Organization h'"
        using taggingE [OF work_invD(2) [OF assms(1)] h(2)] by blast
      have "h' = h" using r(2,4) h(1) work_invD(2) [OF assms(1)] by (auto simp: tags_inv_def distinct_map inj_on_def)
      moreover have "r = row" using find_row_eq [OF work_invD(1) [OF assms(1)] r(1)] r(3) assms(2) by simp
      ultimately have "(tg_Organization h, tg_Name h) = (tg_Organization g, tg_Name g)"
        using g assms(3) r(5) h(4) \<open>x = n\<close> by simp
      then have "h = g" using h(1) g work_invD(2) [OF assms(1)] by (auto simp: tags_inv_def distinct_map inj_on_def)
      then show False using h(3) by simp
    qed
    then show "x \<in> set (tag_names wid s) - {n}" using h by (auto simp: tag_names_def)
  next
    fix x
    assume "x \<in> set (tag_names wid s) - {n}"
    then obtain h where h: "h \<in> set (wk_tags s)" "(wid, tg_ID h) \<in> set (wk_taggings s)" "x = tg_Name h" "x \<noteq> n"
      by (auto simp: tag_names_def)
    moreover have "tg_ID h \<noteq> tg_ID g"
    proof
      assume "tg_ID h = tg_ID g"
      then have "h = g" using h(1) g work_invD(2) [OF assms(1)] by (auto simp: tags_inv_def distinct_map inj_on_def)
      then show False using h(3,4) g by simp
    qed
    ultimately show "x \<in> set (tag_names wid ?t)" by (auto simp: tag_names_def)
  qed
  moreover have "tag_names w ?t = tag_names w s" if "w \<noteq> wid" for w
    using that by (simp add: tag_names_def)
  ultimately show ?thesis using db_deleteWorkspaceTag_inv [OF assms(1) del]
    by (simp add: tags_removed_def s' tag_names_trigger)
qed

lemma remove_tags_ok:
  assumes "work_inv s" "find_row wid s = Some row" "wr_Organization row = organization"
    "for_each (remove_one_tag organization wid) (map by_name names) s = (Inr u, s')" "[] \<notin> set names"
  shows "work_inv s' \<and> tags_removed wid (set names) s s'"
  using assms
proof (induction names arbitrary: s)
  case (Cons n names)
  obtain v s1 where s1: "remove_one_tag organization wid (by_name n) s = (Inr v, s1)"
    "for_each (remove_one_tag organization wid) (map by_name names) s1 = (Inr u, s')"
    using Cons.prems(4) by (auto split: prod.splits sum.splits)
  have n: "n \<noteq> []" using Cons.prems(5) by auto
  note one = remove_one_tag_ok [OF Cons.prems(1-3) n s1(1)]
  have "find_row wid s1 = Some row" using one Cons.prems(2) by (simp add: tags_removed_def find_row_def)
  with Cons.IH [OF _ this Cons.prems(3) s1(2)] one Cons.prems(5)
  have "work_inv s'" "tags_removed wid (set names) s1 s'" by auto
  then show ?case using one by (auto simp: tags_removed_def)
qed (simp add: tags_removed_def)

section \<open>Every operation keeps the invariant\<close>

definition hooks_keep :: "work_env \<Rightarrow> bool" where
  "hooks_keep env \<longleftrightarrow> (\<forall>h \<in> set (we_beforeCreate env @ we_afterCreate env @ we_beforeUpdate env).
     \<forall>ws s. same_work s (snd (h ws s)))"

lemma run_hooks_same:
  assumes "\<forall>h \<in> set hooks. \<forall>ws s. same_work s (snd (h ws s))" "run_hooks hooks ws s = (r, s')"
  shows "same_work s s'"
  using assms unfolding run_hooks_def
proof (induction hooks arbitrary: s)
  case (Cons h hooks)
  obtain r1 s1 where s1: "h ws s = (r1, s1)" by (cases "h ws s")
  have 1: "same_work s s1" using bspec [OF Cons.prems(1), of h] s1 by (metis list.set_intros(1) snd_conv)
  show ?case
  proof (cases r1)
    case (Inl e)
    then show ?thesis using Cons.prems(2) s1 1 by simp
  next
    case (Inr x)
    then have "for_each (\<lambda>hook. hook ws) hooks s1 = (r, s')" using Cons.prems(2) s1 by simp
    then show ?thesis using Cons.IH [of s1] Cons.prems(1) 1 by (auto intro: same_work_trans)
  qed
qed simp

lemma connect_workspace_same: "connect_workspace env wid c s = (r, s') \<Longrightarrow> same_work s s'"
  by (auto simp: connect_workspace_def split: if_splits dest: on_vcs_same)

lemma disconnect_workspace_same: "disconnect_workspace env wid s = (r, s') \<Longrightarrow> same_work s s'"
  by (auto simp: disconnect_workspace_def split: if_splits dest: on_vcs_same)

lemma connect_optional_same: "connect_optional env ws s = (r, s') \<Longrightarrow> same_work s s'"
  by (auto simp: connect_optional_def split: option.splits dest: connect_workspace_same)

lemma find_row_same: "same_work s s' \<Longrightarrow> find_row wid s' = find_row wid s"
  by (simp add: same_work_def find_row_def)

text \<open>The steps of the creation of a workspace.\<close>

lemma CreateWorkspace_steps:
  fixes env :: work_env
  assumes "CreateWorkspace env opts tags s = (Inr (ws, added), s')"
  obtains s1 s2 s3 s4 where
    "NewWorkspace (we_regex_ok env) (we_glob_ok env) (we_GetOrganization env) (we_GetLatest env)
       (we_defaultEngine env) (ve_rnd env) (ve_clk env) opts = Inr ws"
    "run_hooks (we_beforeCreate env) ws s = (Inr (), s1)" "db_createWorkspace ws s1 = (Inr (), s2)"
    "connect_optional env ws s2 = (Inr (), s3)"
    "(if tags = [] then return_op [] else addTags env ws tags) s3 = (Inr added, s4)"
    "run_hooks (we_afterCreate env) ws s4 = (Inr (), s')"
proof -
  obtain w where w: "NewWorkspace (we_regex_ok env) (we_glob_ok env) (we_GetOrganization env) (we_GetLatest env)
       (we_defaultEngine env) (ve_rnd env) (ve_clk env) opts = Inr w"
    using assms by (auto simp: CreateWorkspace_def split: sum.splits)
  have "wtx (then_do (run_hooks (we_beforeCreate env) w) (\<lambda>_.
                  then_do (db_createWorkspace w) (\<lambda>_.
                  then_do (connect_optional env w) (\<lambda>_.
                  then_do (if tags = [] then return_op [] else addTags env w tags) (\<lambda>added.
                  then_do (run_hooks (we_afterCreate env) w) (\<lambda>_. return_op (w, added))))))) s = (Inr (ws, added), s')"
    using assms w by (intro authorized_Inr) (simp add: CreateWorkspace_def)
  then show thesis using that w by (auto simp: then_do_Inr simp del: return_op_simps(4,5))
qed

lemma find_row_created:
  assumes "db_createWorkspace ws s = (Inr u, s')"
  shows "find_row (ws_ID ws) s' = Some (new_row ws)"
proof -
  have "\<forall>r \<in> set (wk_workspaces s). wr_ID r \<noteq> ws_ID ws"
    using row_constraints_ok(1) [OF db_createWorkspace_ok(1) [OF assms]] by (force simp: new_row_def)
  then have "find_first (\<lambda>r. wr_ID r = ws_ID ws) (wk_workspaces s) = None" by (simp add: find_first_None_iff)
  then show ?thesis by (simp add: db_createWorkspace_ok(2) [OF assms] find_row_def find_first_append new_row_def)
qed

lemma CreateWorkspace_inv:
  assumes "work_inv s" "hooks_keep env" "CreateWorkspace env opts tags s = (r, s')"
  shows "work_inv s'"
proof (cases r)
  case (Inl e)
  have "s' = s \<or> (\<exists>v. s' = s\<lparr>wk_vcs := v\<rparr>)" using assms(3) Inl
    by (auto simp: CreateWorkspace_def authorized_def split: sum.splits dest!: wtx_Inl)
  then show ?thesis using assms(1) same_work_inv same_work_refl by metis
next
  case (Inr x)
  obtain ws added where x: "x = (ws, added)" by (cases x)
  from assms(3) [unfolded Inr x] obtain s1 s2 s3 s4 where st0:
    "NewWorkspace (we_regex_ok env) (we_glob_ok env) (we_GetOrganization env) (we_GetLatest env)
       (we_defaultEngine env) (ve_rnd env) (ve_clk env) opts = Inr ws"
    "run_hooks (we_beforeCreate env) ws s = (Inr (), s1)" "db_createWorkspace ws s1 = (Inr (), s2)"
    "connect_optional env ws s2 = (Inr (), s3)" "(if tags = [] then return_op [] else addTags env ws tags) s3 = (Inr added, s4)"
    "run_hooks (we_afterCreate env) ws s4 = (Inr (), s')"
    by (rule CreateWorkspace_steps)
  note st = st0(2-6)
  have hooks: "\<forall>h \<in> set (we_beforeCreate env). \<forall>ws s. same_work s (snd (h ws s))"
    "\<forall>h \<in> set (we_afterCreate env). \<forall>ws s. same_work s (snd (h ws s))"
    using assms(2) by (auto simp: hooks_keep_def)
  have 1: "work_inv s1" using same_work_inv [OF run_hooks_same [OF hooks(1) st(1)] assms(1)] .
  have 2: "work_inv s2" by (rule db_createWorkspace_inv [OF 1 st(2)])
  note c = connect_optional_same [OF st(3)]
  have 3: "work_inv s3" by (rule same_work_inv [OF c 2])
  have row: "find_row (ws_ID ws) s3 = Some (new_row ws)" using find_row_created [OF st(2)] find_row_same [OF c] by simp
  have 4: "work_inv s4"
  proof (cases "tags = []")
    case True
    then show ?thesis using st(4) 3 by simp
  next
    case False
    then show ?thesis using st(4) addTags_ok(1) [OF 3 row, of env tags added s4] by (simp add: new_row_def)
  qed
  show ?thesis by (rule same_work_inv [OF run_hooks_same [OF hooks(2) st(5)] 4])
qed

lemma UpdateWorkspace_steps:
  fixes env :: work_env
  assumes "UpdateWorkspace env wid opts s = (Inr updated, s')"
  obtains ws s1 connect s2 where "db_getWorkspace env wid s = Inr ws"
    "run_hooks (we_beforeUpdate env) (Workspace.Workspace.truncate ws) s = (Inr (), s1)"
    "Workspace_Update (we_regex_ok env) (we_glob_ok env) (we_now env) (Workspace.Workspace.truncate ws) opts = Inr (updated, connect)"
    "write_workspace updated s1 = (Inr (), s2)"
    "(case connect of None \<Rightarrow> return_op ()
      | Some True \<Rightarrow> (case ws_Connection updated of None \<Rightarrow> fail_op (Panic ''nil pointer dereference'') | Some c \<Rightarrow> connect_workspace env wid c)
      | Some False \<Rightarrow> disconnect_workspace env wid) s2 = (Inr (), s')"
proof -
  have "wtx (then_do (db_updateWorkspace env wid (update_workspace env opts)) (\<lambda>(updated, connect).
          then_do (case connect of None \<Rightarrow> return_op ()
                   | Some True \<Rightarrow> (case ws_Connection updated of None \<Rightarrow> fail_op (Panic ''nil pointer dereference'')
                        | Some c \<Rightarrow> connect_workspace env wid c)
                   | Some False \<Rightarrow> disconnect_workspace env wid)
            (\<lambda>_. return_op updated))) s = (Inr updated, s')"
    using assms unfolding UpdateWorkspace_def by (rule authorized_Inr)
  then obtain u connect s2 where s2: "db_updateWorkspace env wid (update_workspace env opts) s = (Inr (u, connect), s2)"
    "(case connect of None \<Rightarrow> return_op ()
      | Some True \<Rightarrow> (case ws_Connection u of None \<Rightarrow> fail_op (Panic ''nil pointer dereference'') | Some c \<Rightarrow> connect_workspace env wid c)
      | Some False \<Rightarrow> disconnect_workspace env wid) s2 = (Inr (), s')" "u = updated"
    by (auto simp: then_do_Inr simp del: return_op_simps(4,5))
  then show thesis using that
    by (auto simp: db_updateWorkspace_def update_workspace_def then_do_Inr simp del: return_op_simps(4,5))
qed

lemma UpdateWorkspace_inv:
  assumes "work_inv s" "hooks_keep env" "UpdateWorkspace env wid opts s = (r, s')"
  shows "work_inv s'"
proof (cases r)
  case (Inl e)
  have "s' = s \<or> (\<exists>v. s' = s\<lparr>wk_vcs := v\<rparr>)" using assms(3) Inl
    by (auto simp: UpdateWorkspace_def authorized_def split: sum.splits dest!: wtx_Inl)
  then show ?thesis using assms(1) same_work_inv same_work_refl by metis
next
  case (Inr updated)
  from assms(3) [unfolded Inr] obtain ws s1 connect s2 where st0: "db_getWorkspace env wid s = Inr ws"
    "run_hooks (we_beforeUpdate env) (Workspace.Workspace.truncate ws) s = (Inr (), s1)"
    "Workspace_Update (we_regex_ok env) (we_glob_ok env) (we_now env) (Workspace.Workspace.truncate ws) opts = Inr (updated, connect)"
    "write_workspace updated s1 = (Inr (), s2)"
    "(case connect of None \<Rightarrow> return_op ()
      | Some True \<Rightarrow> (case ws_Connection updated of None \<Rightarrow> fail_op (Panic ''nil pointer dereference'') | Some c \<Rightarrow> connect_workspace env wid c)
      | Some False \<Rightarrow> disconnect_workspace env wid) s2 = (Inr (), s')"
    by (rule UpdateWorkspace_steps)
  note st = st0(2,4,5)
  have hooks: "\<forall>h \<in> set (we_beforeUpdate env). \<forall>ws s. same_work s (snd (h ws s))"
    using assms(2) by (auto simp: hooks_keep_def)
  have "work_inv s1" using same_work_inv [OF run_hooks_same [OF hooks st(1)] assms(1)] .
  then have "work_inv s2" using write_workspace_inv st(2) by blast
  moreover have "same_work s2 s'" using st(3)
    by (auto split: option.splits bool.splits dest: connect_workspace_same disconnect_workspace_same)
  ultimately show ?thesis by (metis same_work_inv)
qed

lemma then_do_inv:
  assumes "then_do f g s = (r, s')" "work_inv s" "\<And>r s'. f s = (r, s') \<Longrightarrow> work_inv s'"
    "\<And>x s1 r s'. f s = (Inr x, s1) \<Longrightarrow> work_inv s1 \<Longrightarrow> g x s1 = (r, s') \<Longrightarrow> work_inv s'"
  shows "work_inv s'"
proof -
  obtain r1 s1 where s1: "f s = (r1, s1)" by (cases "f s")
  show ?thesis
  proof (cases r1)
    case (Inl e)
    then show ?thesis using assms(1,3) s1 by (simp add: then_do_def)
  next
    case (Inr x)
    have "g x s1 = (r, s')" using assms(1) s1 Inr by (simp add: then_do_def)
    then show ?thesis using assms(3,4) s1 Inr by blast
  qed
qed

lemma DeleteWorkspace_inv:
  assumes "work_inv s" "DeleteWorkspace env wid s = (r, s')"
  shows "work_inv s'"
proof (rule authorized_inv [OF assms(1) assms(2) [unfolded DeleteWorkspace_def]], erule then_do_inv [OF _ assms(1)], goal_cases)
  case (1 r1 t)
  then show ?case using assms(1) by simp
next
  case (2 ws s1 r1 t)
  show ?case using 2(3)
  proof (rule then_do_inv [OF _ 2(2)], goal_cases)
    case (1 r2 t2)
    then have "same_work s1 t2" by (auto split: if_splits dest: disconnect_workspace_same)
    then show ?case using 2(2) same_work_inv by blast
  next
    case (2 x s2 r2 t2)
    show ?case using 2(3) by (rule then_do_inv [OF _ 2(2)]) (use db_deleteWorkspace_inv [OF 2(2)] in auto)
  qed
qed

lemma for_each_inv:
  assumes "for_each f xs s = (r, s')" "work_inv s" "\<And>x s r s'. work_inv s \<Longrightarrow> f x s = (r, s') \<Longrightarrow> work_inv s'"
  shows "work_inv s'"
  using assms(1,2)
proof (induction xs arbitrary: s)
  case (Cons x xs)
  obtain r1 s1 where s1: "f x s = (r1, s1)" by (cases "f x s")
  then have "work_inv s1" using Cons.prems(2) assms(3) by blast
  then show ?case using Cons s1 by (cases r1) auto
qed simp

lemma db_tagWorkspace_inv:
  assumes "work_inv s" "db_tagWorkspace wid tid s = (r, s')"
  shows "work_inv s'"
proof (cases r)
  case (Inl e)
  then show ?thesis using assms by (auto simp: db_tagWorkspace_def split: if_splits)
next
  case (Inr u)
  then obtain g row where "g \<in> set (wk_tags s)" "tg_ID g = tid" "find_row wid s = Some row" "wr_Organization row = tg_Organization g"
    "(wid, tid) \<notin> set (wk_taggings s)" "s' = s\<lparr>wk_taggings := wk_taggings s @ [(wid, tid)]\<rparr>"
    using db_tagWorkspace_ok [of wid tid s u s'] assms(2) by blast
  then show ?thesis using tagged_inv(1) [OF assms(1), of g wid row] by auto
qed

lemma remove_one_tag_inv:
  assumes "work_inv s" "remove_one_tag organization wid t s = (r, s')"
  shows "work_inv s'"
  using assms db_deleteWorkspaceTag_inv [OF assms(1)]
  by (auto simp: remove_one_tag_def wrapping_def Let_def split: sum.splits if_splits option.splits prod.splits)


lemma db_getWorkspace_ok:
  assumes "db_getWorkspace env wid s = Inr ws"
  obtains row where "find_row wid s = Some row" "scan_workspace env s row = Inr ws"
  using assms by (auto simp: db_getWorkspace_def collect_one_def split: option.splits)

lemma scan_workspace_fields:
  assumes "scan_workspace env s row = Inr ws"
  shows "ws_ID ws = wr_ID row" "ws_Organization ws = wr_Organization row" "ws_Name ws = wr_Name row"
    "ws_SSHKeyID ws = wr_SSHKeyID row" "ws_Connection ws = scan_connection row (connection_row (wr_ID row) s)"
    "NewMode (wr_ExecutionKind row) (wr_AgentPoolID row) = Inr (ws_Mode ws)"
  using assms by (auto simp: scan_workspace_def Let_def split: sum.splits if_splits)

lemma truncate_fields [simp]:
  "ws_ID (Workspace.Workspace.truncate ws) = ws_ID ws" "ws_Organization (Workspace.Workspace.truncate ws) = ws_Organization ws"
  "ws_Mode (Workspace.Workspace.truncate ws) = ws_Mode ws" "ws_Name (Workspace.Workspace.truncate ws) = ws_Name ws"
  "ws_Connection (Workspace.Workspace.truncate ws) = ws_Connection ws"
  by (simp_all add: Workspace.Workspace.truncate_def)

lemma AddTags_Inr:
  assumes "AddTags env wid tags s = (Inr u, s')"
  obtains ws names row where "find_row wid s = Some row" "ws_ID ws = wid" "ws_Organization ws = wr_Organization row"
    "addTags env ws tags s = (Inr names, s')"
proof -
  obtain ws names where ws: "db_getWorkspace env wid s = Inr ws" "addTags env (Workspace.Workspace.truncate ws) tags s = (Inr names, s')"
    using authorized_Inr [OF assms [unfolded AddTags_def]] by (auto simp: then_do_Inr)
  from ws(1) obtain row where "find_row wid s = Some row" "scan_workspace env s row = Inr ws" by (rule db_getWorkspace_ok)
  then show thesis using that [of row "Workspace.Workspace.truncate ws" names] ws(2) scan_workspace_fields find_row_Some by fastforce
qed

lemma addTags_Inl: "addTags env ws tags s = (Inl e, s') \<Longrightarrow> \<exists>v. s' = s\<lparr>wk_vcs := v\<rparr>"
  unfolding addTags_def by (rule wtx_Inl)

lemma AddTags_Inl:
  assumes "AddTags env wid tags s = (Inl e, s')"
  shows "same_work s s'"
proof -
  have "s' = s \<or> (\<exists>v. s' = s\<lparr>wk_vcs := v\<rparr>)"
    using assms by (auto simp: AddTags_def authorized_def then_do_def wrapping_def lift_op_def
        split: sum.splits prod.splits dest: addTags_Inl)
  then show ?thesis by auto
qed

lemma AddTags_inv:
  assumes "work_inv s" "AddTags env wid tags s = (r, s')"
  shows "work_inv s'"
proof (cases r)
  case (Inl e)
  then show ?thesis using AddTags_Inl assms same_work_inv by blast
next
  case (Inr u)
  from assms(2) [unfolded Inr] obtain ws names row where "find_row wid s = Some row" "ws_ID ws = wid"
    "ws_Organization ws = wr_Organization row" "addTags env ws tags s = (Inr names, s')"
    by (rule AddTags_Inr)
  then show ?thesis using addTags_ok(1) [OF assms(1), of ws row] by auto
qed

lemma RemoveTags_inv:
  assumes "work_inv s" "RemoveTags env wid tags s = (r, s')"
  shows "work_inv s'"
proof (rule authorized_inv [OF assms(1) assms(2) [unfolded RemoveTags_def]], erule then_do_inv [OF _ assms(1)], goal_cases)
  case (1 r1 t)
  then show ?case using assms(1) by (auto simp: wrapping_def lift_op_def split: sum.splits)
next
  case (2 ws s1 r1 t)
  show ?case by (rule wtx_inv [OF 2(2,3)]) (rule for_each_inv [OF _ 2(2) remove_one_tag_inv])
qed

lemma TagWorkspaces_inv:
  assumes "work_inv s" "TagWorkspaces env tid wids s = (r, s')"
  shows "work_inv s'"
proof (cases "ctx_subject (ae_ctx env) = None")
  case False
  have t: "wtx (for_each (\<lambda>wid. authorized env AddAction TagKind (TfeID_ID wid) (db_tagWorkspace wid tid)) wids) s = (r, s')"
    using assms(2) unfolding TagWorkspaces_def by (simp only: False if_False)
  show ?thesis
    by (rule wtx_inv [OF assms(1) t], rule for_each_inv [OF _ assms(1)])
      (auto intro: authorized_inv db_tagWorkspace_inv)
qed (use assms in \<open>auto simp: TagWorkspaces_def\<close>)

lemma DeleteTags_inv:
  assumes "work_inv s" "DeleteTags env organization tids s = (r, s')"
  shows "work_inv s'"
proof (rule authorized_inv [OF assms(1) assms(2) [unfolded DeleteTags_def]])
  assume t: "db_deleteTags organization tids s = (r, s')"
  show "work_inv s'"
    by (rule wtx_inv [OF assms(1) t [unfolded db_deleteTags_def]]) (rule for_each_inv [OF _ assms(1) db_deleteTag_inv])
qed

section \<open>Reachable states\<close>

text \<open>
  The states that the operations reach from empty tables, whatever their results; in between the other
  tables change as they will, and teams are added.
\<close>

inductive reachable_work :: "work_sys \<Rightarrow> bool" where
  empty: "wk_workspaces s = [] \<Longrightarrow> wk_tags s = [] \<Longrightarrow> wk_taggings s = [] \<Longrightarrow> wk_permissions s = [] \<Longrightarrow> reachable_work s"
| others: "reachable_work s \<Longrightarrow> same_work s s' \<Longrightarrow> reachable_work s'"
| create: "reachable_work s \<Longrightarrow> hooks_keep env \<Longrightarrow> CreateWorkspace env opts tags s = (r1, s') \<Longrightarrow> reachable_work s'"
| update: "reachable_work s \<Longrightarrow> hooks_keep env \<Longrightarrow> UpdateWorkspace env wid uopts s = (r2, s') \<Longrightarrow> reachable_work s'"
| delete: "reachable_work s \<Longrightarrow> DeleteWorkspace (env :: work_env) wid s = (r3, s') \<Longrightarrow> reachable_work s'"
| set_permission: "reachable_work s \<Longrightarrow> SetWorkspacePermission (env :: work_env) wid tid role s = (r4, s') \<Longrightarrow> reachable_work s'"
| unset_permission: "reachable_work s \<Longrightarrow> UnsetWorkspacePermission (env :: work_env) wid tid s = (r4, s') \<Longrightarrow> reachable_work s'"
| latest_run: "reachable_work s \<Longrightarrow> SetWorkspaceLatestRun (env :: work_env) wid rid s = (r3, s') \<Longrightarrow> reachable_work s'"
| add_tags: "reachable_work s \<Longrightarrow> AddTags (env :: work_env) wid tags s = (r4, s') \<Longrightarrow> reachable_work s'"
| remove_tags: "reachable_work s \<Longrightarrow> RemoveTags (env :: work_env) wid tags s = (r4, s') \<Longrightarrow> reachable_work s'"
| tag_workspaces: "reachable_work s \<Longrightarrow> TagWorkspaces (env :: work_env) tid wids s = (r4, s') \<Longrightarrow> reachable_work s'"
| delete_tags: "reachable_work s \<Longrightarrow> DeleteTags (env :: work_env) organization tids s = (r4, s') \<Longrightarrow> reachable_work s'"

lemma reachable_work_inv: "reachable_work s \<Longrightarrow> work_inv s"
proof (induction rule: reachable_work.induct)
  case (empty s)
  then show ?case by (simp add: work_inv_def workspaces_inv_def tags_inv_def no_orphans_def permissions_inv_def)
next
  case (set_permission s env wid tid role r4 s')
  then show ?case unfolding SetWorkspacePermission_def by (auto intro: authorized_inv db_SetWorkspacePermission_inv)
next
  case (unset_permission s env wid tid r4 s')
  then show ?case unfolding UnsetWorkspacePermission_def by (auto intro: authorized_inv db_UnsetWorkspacePermission_inv)
next
  case (latest_run s env wid rid r3 s')
  then show ?case unfolding SetWorkspaceLatestRun_def by (auto intro: db_setLatestRun_inv)
qed (blast intro: same_work_inv CreateWorkspace_inv UpdateWorkspace_inv DeleteWorkspace_inv AddTags_inv RemoveTags_inv
    TagWorkspaces_inv DeleteTags_inv)+

section \<open>Policies\<close>

lemma workspace_role_ok: "r \<in> set workspace_roles \<Longrightarrow> \<exists>role. WorkspaceRoleFromString r = Inr role \<and> role_name role = r"
  by (auto simp: workspace_roles_def WorkspaceRoleFromString_def role_defs)

lemma role_of_name: "WorkspaceRoleFromString n = Inr role \<Longrightarrow> role_name role = n \<and> n \<in> set workspace_roles"
  by (auto simp: workspace_roles_def WorkspaceRoleFromString_def role_defs split: if_splits)

definition role_of :: "string \<Rightarrow> Role" where
  "role_of n = (case WorkspaceRoleFromString n of Inl _ \<Rightarrow> WorkspaceReadRole | Inr role \<Rightarrow> role)"

lemma GetWorkspacePolicy_eq:
  assumes "permissions_inv s" "find_row wid s = Some row"
  shows "GetWorkspacePolicy wid s = Inr \<lparr>pol_Permissions =
      map (\<lambda>p. \<lparr>perm_TeamID = pm_Team p, perm_Role = role_of (pm_Role p)\<rparr>) (filter (\<lambda>p. pm_Workspace p = wid) (wk_permissions s)),
    pol_globalRemoteState = wr_GlobalRemoteState row\<rparr>"
proof -
  have "collect_rows scan_permission (filter (\<lambda>p. pm_Workspace p = wid) (wk_permissions s)) =
      Inr (map (\<lambda>p. \<lparr>perm_TeamID = pm_Team p, perm_Role = role_of (pm_Role p)\<rparr>) (filter (\<lambda>p. pm_Workspace p = wid) (wk_permissions s)))"
  proof (rule collect_rows_ok)
    fix p
    assume "p \<in> set (filter (\<lambda>p. pm_Workspace p = wid) (wk_permissions s))"
    then obtain role where "WorkspaceRoleFromString (pm_Role p) = Inr role"
      using permissions_invD(4) [OF assms(1)] workspace_role_ok by force
    then show "scan_permission p = Inr \<lparr>perm_TeamID = pm_Team p, perm_Role = role_of (pm_Role p)\<rparr>"
      by (simp add: role_of_def)
  qed
  then show ?thesis using find_row_Some [OF assms(2)] assms(2)
    by (simp add: GetWorkspacePolicy_def db_GetWorkspacePolicy_def)
qed


lemma distinct_tag_names:
  assumes "work_inv s"
  shows "distinct (tag_names wid s)"
proof -
  have "inj_on tg_Name (set (filter (\<lambda>t. (wid, tg_ID t) \<in> set (wk_taggings s)) (wk_tags s)))"
  proof (rule inj_onI)
    fix g h
    assume gh: "g \<in> set (filter (\<lambda>t. (wid, tg_ID t) \<in> set (wk_taggings s)) (wk_tags s))"
      "h \<in> set (filter (\<lambda>t. (wid, tg_ID t) \<in> set (wk_taggings s)) (wk_tags s))" "tg_Name g = tg_Name h"
    note inv = work_invD [OF assms]
    have org: "\<exists>r. find_row wid s = Some r \<and> wr_Organization r = tg_Organization k"
      if k: "k \<in> set (wk_tags s)" "(wid, tg_ID k) \<in> set (wk_taggings s)" for k
    proof -
      obtain r k' where r: "r \<in> set (wk_workspaces s)" "k' \<in> set (wk_tags s)" "wr_ID r = wid" "tg_ID k' = tg_ID k" "wr_Organization r = tg_Organization k'"
        using taggingE [OF inv(2) k(2)] by blast
      have "k' = k" using r(2,4) k(1) inv(2) by (auto simp: tags_inv_def distinct_map inj_on_def)
      then show ?thesis using find_row_eq [OF inv(1) r(1)] r by auto
    qed
    have "tg_Organization g = tg_Organization h" using org [of g] org [of h] gh by auto
    then show "g = h" using gh inv(2) by (auto simp: tags_inv_def distinct_map inj_on_def)
  qed
  moreover have "distinct (wk_tags s)" using work_invD(2) [OF assms] by (auto simp: tags_inv_def distinct_map)
  ultimately show ?thesis by (simp add: tag_names_def distinct_map)
qed


section \<open>Example data\<close>

definition demo_tag :: "string \<Rightarrow> string \<Rightarrow> tag_row" where
  "demo_tag i n = \<lparr>tg_ID = \<lparr>tfe_kind = TagKind, tfe_id = i\<rparr>, tg_Name = n, tg_Organization = ''acme''\<rparr>"

definition demo_wid :: TfeID where
  "demo_wid = ws_ID example_workspace"

definition demo_wid2 :: TfeID where
  "demo_wid2 = \<lparr>tfe_kind = WorkspaceKind, tfe_id = ''2''\<rparr>"

text \<open>Two workspaces of one organization, the first with the tag \<open>eu\<close> and the second with the tag \<open>us\<close>.\<close>

definition demo_work :: work_sys where
  "demo_work = \<lparr>wk_vcs = demo_hook_sys [''acme''] [(demo_wid, ''acme''), (demo_wid2, ''acme'')] [] [] [],
     wk_workspaces = [new_row example_workspace, (new_row example_workspace)\<lparr>wr_ID := demo_wid2, wr_Name := ''stage''\<rparr>],
     wk_tags = [demo_tag ''1'' ''eu'', demo_tag ''2'' ''us''],
     wk_taggings = [(demo_wid, tg_ID (demo_tag ''1'' ''eu'')), (demo_wid2, tg_ID (demo_tag ''2'' ''us''))],
     wk_permissions = [], wk_teams = [(\<lparr>tfe_kind = TeamKind, tfe_id = ''1''\<rparr>, ''acme'')], wk_members = [],
     wk_pools = [], wk_sshkeys = [], wk_runs = []\<rparr>"

definition demo_work_env :: "Subject \<Rightarrow> work_env" where
  "demo_work_env subj = hook_env.extend (demo_hook_env subj)
     \<lparr>we_regex_ok = (\<lambda>_. True), we_glob_ok = (\<lambda>_. True), we_semver_valid = (\<lambda>_. True), we_semver_compare = (\<lambda>_ _. 0),
      we_GetOrganization = (\<lambda>_. Inr RemoteMode), we_GetLatest = (\<lambda>_. Inr ''1.9.0''), we_defaultEngine = ''terraform'',
      we_now = 0, we_tag_rnd = (\<lambda>_ _. 0), we_beforeCreate = [], we_afterCreate = [], we_beforeUpdate = []\<rparr>"

lemma demo_work_env_fields [simp]:
  "ae_ctx (demo_work_env subj) = \<lparr>ctx_subject = Some subj, ctx_skipAuthz = False\<rparr>"
  "we_semver_valid (demo_work_env subj) = (\<lambda>_. True)" "we_semver_compare (demo_work_env subj) = (\<lambda>_ _. 0)"
  "we_regex_ok (demo_work_env subj) = (\<lambda>_. True)" "we_glob_ok (demo_work_env subj) = (\<lambda>_. True)"
  "we_GetOrganization (demo_work_env subj) = (\<lambda>_. Inr RemoteMode)" "we_GetLatest (demo_work_env subj) = (\<lambda>_. Inr ''1.9.0'')"
  "we_defaultEngine (demo_work_env subj) = ''terraform''" "we_now (demo_work_env subj) = 0"
  "we_tag_rnd (demo_work_env subj) = (\<lambda>_ _. 0)" "we_beforeCreate (demo_work_env subj) = []"
  "we_afterCreate (demo_work_env subj) = []" "we_beforeUpdate (demo_work_env subj) = []"
  "ve_rnd (demo_work_env subj) = (\<lambda>_. 0)" "ve_clk (demo_work_env subj) = (\<lambda>_. 0)"
  by (simp_all add: demo_work_env_def hook_env.extend_def demo_hook_env_def)

lemma demo_row_fields [simp]:
  "wr_ID (new_row ws) = ws_ID ws" "wr_Organization (new_row ws) = ws_Organization ws" "wr_Name (new_row ws) = ws_Name ws"
  "wr_Engine (new_row ws) = ws_Engine ws" "wr_EngineVersion (new_row ws) = Version_String (ws_EngineVersion ws)"
  "wr_ExecutionKind (new_row ws) = mode_kind (ws_Mode ws)" "wr_AgentPoolID (new_row ws) = mode_agentPoolID (ws_Mode ws)"
  "wr_SSHKeyID (new_row ws) = None" "wr_LatestRunID (new_row ws) = None"
  by (simp_all add: new_row_def)

lemma demo_work_inv: "work_inv demo_work"
  by (rule work_invI) (simp_all add: demo_work_def workspaces_inv_def tags_inv_def no_orphans_def permissions_inv_def
      demo_tag_def demo_wid_def demo_wid2_def example_workspace_def)

text \<open>Access to a workspace is decided from its row and its policy.\<close>

lemma work_access_workspace:
  assumes "find_row wid s = Some row" "tfe_kind wid = WorkspaceKind" "GetWorkspacePolicy wid s = Inr pol"
    "ctx_subject (ae_ctx env) = Some subj" "\<not> ctx_skipAuthz (ae_ctx env)"
  shows "work_access env s action kind (TfeID_ID wid) =
    (case Subject_CanAccess subj action kind \<lparr>req_ID = TfeID_ID wid, req_WorkspacePolicy = Some pol,
            req_lineage = [OrganizationName_ID (wr_Organization row)]\<rparr> of
       Inl e \<Rightarrow> Inl e | Inr ok \<Rightarrow> if ok then Inr subj else Inl ErrAccessNotPermitted)"
proof -
  have "generateRequest (otf_resolvers (work_tables s)) (\<lambda>i. db_GetWorkspacePolicy i s) (TfeID_ID wid) =
      Some (Inr \<lparr>req_ID = TfeID_ID wid, req_WorkspacePolicy = Some pol, req_lineage = [OrganizationName_ID (wr_Organization row)]\<rparr>)"
    by (rule generateRequest_workspace) (use assms in \<open>simp_all add: work_tables_def GetWorkspacePolicy_def\<close>)
  then show ?thesis using assms(4,5)
    by (simp add: work_access_def check_access_def Authorize_def split: sum.splits)
qed

lemma demo_find_row [simp]: "find_row demo_wid demo_work = Some (new_row example_workspace)"
  by (simp add: find_row_def demo_work_def demo_wid_def)

lemma demo_policy: "GetWorkspacePolicy demo_wid demo_work = Inr \<lparr>pol_Permissions = [], pol_globalRemoteState = False\<rparr>"
proof -
  have "pt_key (TfeID_ID demo_wid) = Some demo_wid" by simp
  moreover have "wk_permissions demo_work = []" by (simp add: demo_work_def)
  moreover have "wr_GlobalRemoteState (new_row example_workspace) = False" by (simp add: new_row_def example_workspace_def)
  ultimately show ?thesis by (simp add: GetWorkspacePolicy_def db_GetWorkspacePolicy_def)
qed

lemma demo_wid_kind [simp]: "tfe_kind demo_wid = WorkspaceKind"
  by (simp add: demo_wid_def example_workspace_def)

abbreviation root_work_env :: work_env where
  "root_work_env \<equiv> demo_work_env (Superuser ''root'')"

lemma demo_access: "work_access root_work_env demo_work action kind (TfeID_ID demo_wid) = Inr (Superuser ''root'')"
  by (simp add: work_access_workspace [OF demo_find_row demo_wid_kind demo_policy])

text \<open>A new row can be read when its version can and its mode is valid.\<close>

lemma scan_demo: "\<exists>ws. scan_workspace (demo_work_env subj) s (new_row example_workspace) = Inr ws"
  by (simp add: scan_workspace_def example_workspace_def Version_String_def Version_set_def known_engines_def
      NewMode_def mode_isValid_def RemoteMode_def Let_def)

lemma tags_added_by_name:
  assumes "work_inv s" "[] \<notin> set names" "AddTags env wid (map by_name names) s = (Inr (), s')"
  shows "tags_added wid names s s'"
proof -
  from assms(3) obtain ws new row where ws: "find_row wid s = Some row" "ws_ID ws = wid" "ws_Organization ws = wr_Organization row"
    "addTags env ws (map by_name names) s = (Inr new, s')"
    by (rule AddTags_Inr)
  have "list_all (\<lambda>t. ts_Name t \<noteq> []) (map by_name names)" using assms(2) by (auto simp: list_all_iff by_name_def)
  with addTags_ok(2,3) [OF assms(1) _ _ ws(4), of row] ws(1-3) show ?thesis by (simp add: by_name_def comp_def)
qed

section \<open>Properties\<close>


lemma demo_empty: "reachable_work (demo_work\<lparr>wk_workspaces := [], wk_tags := [], wk_taggings := []\<rparr>)"
  by (rule reachable_work.empty) (simp_all add: demo_work_def)


text \<open>
  C15: the tags of a workspace are a set of names, of which \<open>AddTags\<close> and \<open>RemoveTags\<close> are union and
  difference. When tags given by name were added, they were new to the workspace and different from one
  another, and are exactly what was added; when they were removed, exactly they are gone; the tags of
  every other workspace are the same in both cases; and a call that fails leaves all tags as they were.
\<close>

theorem tags_are_sets:
  assumes "work_inv s" "[] \<notin> set names"
  shows "(AddTags env wid (map by_name names) s = (Inr (), s') \<longrightarrow>
      distinct names \<and> set names \<inter> set (tag_names wid s) = {} \<and> set (tag_names wid s') = set (tag_names wid s) \<union> set names \<and>
      (\<forall>w. w \<noteq> wid \<longrightarrow> set (tag_names w s') = set (tag_names w s))) \<and>
    (RemoveTags env wid (map by_name names) s = (Inr (), s') \<longrightarrow>
      set (tag_names wid s') = set (tag_names wid s) - set names \<and>
      (\<forall>w. w \<noteq> wid \<longrightarrow> set (tag_names w s') = set (tag_names w s))) \<and>
    (AddTags env wid specs s = (Inl e, s') \<or> RemoveTags env wid specs s = (Inl e, s') \<longrightarrow>
      (\<forall>w. tag_names w s' = tag_names w s))"
proof -
  have "same_work s s'" if "AddTags env wid specs s = (Inl e, s') \<or> RemoveTags env wid specs s = (Inl e, s')"
    using that
  proof
    assume "RemoveTags env wid specs s = (Inl e, s')"
    then have "s' = s \<or> (\<exists>v. s' = s\<lparr>wk_vcs := v\<rparr>)"
      by (auto simp: RemoveTags_def authorized_def then_do_def wrapping_def lift_op_def split: sum.splits prod.splits dest!: wtx_Inl)
    then show ?thesis by auto
  qed (rule AddTags_Inl)
  moreover have "tags_removed wid (set names) s s'" if rem: "RemoveTags env wid (map by_name names) s = (Inr (), s')"
  proof -
    obtain ws where ws: "db_getWorkspace env wid s = Inr ws"
      "for_each (remove_one_tag (ws_Organization ws) wid) (map by_name names) s = (Inr (), s')"
      using rem unfolding RemoveTags_def by (auto dest!: authorized_Inr simp: then_do_Inr)
    obtain row where row: "find_row wid s = Some row" "scan_workspace env s row = Inr ws" using ws(1) by (rule db_getWorkspace_ok)
    show ?thesis using remove_tags_ok [OF assms(1) row(1) _ ws(2) assms(2)] scan_workspace_fields(2) [OF row(2)] by simp
  qed
  moreover note tags_added_by_name [OF assms, of env wid s']
  ultimately show ?thesis
    by (simp add: tags_added_def tags_removed_def same_work_def tag_names_def Un_commute)
qed

text \<open>Reading the example's workspace, adding a tag to it that is new and removing the one that it has.\<close>

lemma demo_get_workspace:
  obtains ws where "db_getWorkspace root_work_env demo_wid demo_work = Inr ws" "ws_Organization ws = ''acme''" "ws_ID ws = demo_wid"
proof -
  obtain ws where ws: "scan_workspace root_work_env demo_work (new_row example_workspace) = Inr ws" using scan_demo by blast
  have "db_getWorkspace root_work_env demo_wid demo_work = Inr ws" using ws by (simp add: db_getWorkspace_def collect_one_def)
  moreover have "ws_Organization ws = ''acme''" "ws_ID ws = demo_wid"
    using scan_workspace_fields(1,2) [OF ws] by (simp_all add: example_workspace_def demo_wid_def)
  ultimately show thesis using that by blast
qed

lemma demo_tables:
  "wk_tags demo_work = [demo_tag ''1'' ''eu'', demo_tag ''2'' ''us'']"
  "wk_taggings demo_work = [(demo_wid, tg_ID (demo_tag ''1'' ''eu'')), (demo_wid2, tg_ID (demo_tag ''2'' ''us''))]"
  "pd_organizations (wk_vcs demo_work) = [''acme'']"
  by (simp_all add: demo_work_def demo_hook_sys_def)

lemma demo_add_tag: "\<exists>s'. AddTags root_work_env demo_wid (map by_name [''prod'']) demo_work = (Inr (), s')"
proof -
  obtain ws where ws: "db_getWorkspace root_work_env demo_wid demo_work = Inr ws" "ws_Organization ws = ''acme''" "ws_ID ws = demo_wid"
    by (rule demo_get_workspace)
  have tid: "NewTfeID (\<lambda>_. 0) TagKind \<noteq> tg_ID (demo_tag ''1'' ''eu'')" "NewTfeID (\<lambda>_. 0) TagKind \<noteq> tg_ID (demo_tag ''2'' ''us'')"
    by (auto simp: demo_tag_def NewTfeID_def GenerateRandomStringFromAlphabet_def dest: arg_cong [of _ _ length])
  have "wr_Organization (new_row example_workspace) = ''acme''" by (simp add: example_workspace_def)
  then have "\<exists>s'. add_tags_loop root_work_env ''acme'' demo_wid 0 [by_name ''prod''] [] demo_work = (Inr [''prod''], s')"
    using tid by (auto simp: add_one_tag_def then_do_def wrapping_def lift_op_def return_op_def find_or_add_tag_def TagSpec_Valid_def
        by_name_def db_findTagByName_def demo_tables demo_tag_def collect_one_def db_addTag_def db_tagWorkspace_def Let_def)
  then show ?thesis using ws demo_access
    by (auto simp: AddTags_def authorized_def then_do_def wrapping_def lift_op_def return_op_def addTags_def wtx_def)
qed

lemma demo_remove_tag: "\<exists>s'. RemoveTags root_work_env demo_wid (map by_name [''eu'']) demo_work = (Inr (), s')"
proof -
  obtain ws where ws: "db_getWorkspace root_work_env demo_wid demo_work = Inr ws" "ws_Organization ws = ''acme''" "ws_ID ws = demo_wid"
    by (rule demo_get_workspace)
  have "\<exists>s'. for_each (remove_one_tag ''acme'' demo_wid) (map by_name [''eu'']) demo_work = (Inr (), s')"
    by (simp add: remove_one_tag_def TagSpec_Valid_def by_name_def db_findTagByName_def demo_tables demo_tag_def collect_one_def
        scan_tag_def wrapping_def db_deleteWorkspaceTag_def Let_def)
  then show ?thesis using ws demo_access
    by (auto simp: RemoveTags_def authorized_def then_do_def wrapping_def lift_op_def wtx_def)
qed

lemma tags_are_sets_witness:
  "\<exists>s1 s2. AddTags root_work_env demo_wid (map by_name [''prod'']) demo_work = (Inr (), s1) \<and>
     set (tag_names demo_wid s1) = {''eu'', ''prod''} \<and> set (tag_names demo_wid2 s1) = {''us''} \<and>
     RemoveTags root_work_env demo_wid (map by_name [''eu'']) demo_work = (Inr (), s2) \<and> tag_names demo_wid s2 = []"
proof -
  obtain s1 s2 where s: "AddTags root_work_env demo_wid (map by_name [''prod'']) demo_work = (Inr (), s1)"
    "RemoveTags root_work_env demo_wid (map by_name [''eu'']) demo_work = (Inr (), s2)"
    using demo_add_tag demo_remove_tag by blast
  have ne: "demo_wid2 \<noteq> demo_wid" by (simp add: demo_wid_def demo_wid2_def example_workspace_def)
  have old: "set (tag_names demo_wid demo_work) = {''eu''}" "set (tag_names demo_wid2 demo_work) = {''us''}"
    using ne by (simp_all add: tag_names_def demo_tables demo_tag_def)
  have "[] \<notin> set [''prod'']" "[] \<notin> set [''eu'']" by simp_all
  note tags_are_sets [OF demo_work_inv this(1), of root_work_env demo_wid s1 "[]" ErrConflict]
    tags_are_sets [OF demo_work_inv this(2), of root_work_env demo_wid s2 "[]" ErrConflict]
  from this(1) [THEN conjunct1, rule_format, OF s(1)] this(2) [THEN conjunct2, THEN conjunct1, rule_format, OF s(2)]
  have "set (tag_names demo_wid s1) = {''eu'', ''prod''}" "set (tag_names demo_wid2 s1) = {''us''}" "set (tag_names demo_wid s2) = {}"
    using old ne by auto
  then show ?thesis using s by (intro exI [of _ s1] exI [of _ s2]) simp
qed

text \<open>
  a tag that a workspace has already cannot be added to it, and the error says that a resource was
  not found. The unique violation leaves no affected rows, which is what is looked at first; the tags
  after it in the list are not added either.
\<close>

theorem tag_again_not_found:
  assumes "work_inv s" "n \<in> set (tag_names wid s)" "n \<noteq> []" "db_getWorkspace env wid s = Inr ws"
    "work_access env s AddAction TagKind (TfeID_ID wid) = Inr subj"
  shows "fst (AddTags env wid (by_name n # later) s) = Inl ErrResourceNotFound"
proof -
  obtain row where row: "find_row wid s = Some row" "scan_workspace env s row = Inr ws" using assms(4) by (rule db_getWorkspace_ok)
  note ws = scan_workspace_fields(1,2) [OF row(2)] find_row_Some [OF row(1)]
  note inv = work_invD [OF assms(1)]
  obtain g where g: "g \<in> set (wk_tags s)" "(wid, tg_ID g) \<in> set (wk_taggings s)" "tg_Name g = n"
    using assms(2) by (auto simp: tag_names_def)
  obtain r k where r: "r \<in> set (wk_workspaces s)" "k \<in> set (wk_tags s)" "wr_ID r = wid" "tg_ID k = tg_ID g" "wr_Organization r = tg_Organization k"
    using taggingE [OF inv(2) g(2)] by blast
  have "k = g" using r(2,4) g(1) inv(2) by (auto simp: tags_inv_def distinct_map inj_on_def)
  moreover have "r = row" using find_row_eq [OF inv(1) r(1)] r(3) row(1) by simp
  ultimately have org: "tg_Organization g = ws_Organization ws" using r(5) ws(2) by simp
  obtain h where h: "find_first (\<lambda>t. tg_Name t = n \<and> tg_Organization t = ws_Organization ws) (wk_tags s) = Some h"
    using g(1,3) org by (cases "find_first (\<lambda>t. tg_Name t = n \<and> tg_Organization t = ws_Organization ws) (wk_tags s)")
      (auto simp: find_first_None_iff)
  have "h = g" using find_first_SomeD [OF h] g(1,3) org inv(2) by (auto simp: tags_inv_def distinct_map inj_on_def)
  then have "add_one_tag env (ws_Organization ws) wid 0 (by_name n) s = (Inl ErrResourceNotFound, s)"
    using h g(2) assms(3) by (simp add: add_one_tag_def then_do_def wrapping_def lift_op_def TagSpec_Valid_def by_name_def
        find_or_add_tag_def db_findTagByName_def collect_one_def scan_tag_def db_tagWorkspace_def)
  then show ?thesis using assms(4,5) ws
    by (simp add: AddTags_def authorized_def then_do_def wrapping_def lift_op_def addTags_def wtx_def)
qed

lemma tag_again_not_found_witness:
  "fst (AddTags root_work_env demo_wid [by_name ''eu'', by_name ''prod''] demo_work) = Inl ErrResourceNotFound"
proof -
  obtain ws where ws: "db_getWorkspace root_work_env demo_wid demo_work = Inr ws" by (rule demo_get_workspace)
  have "''eu'' \<in> set (tag_names demo_wid demo_work)" by (simp add: tag_names_def demo_tables demo_tag_def)
  from tag_again_not_found [OF demo_work_inv this _ ws demo_access, of "[by_name ''prod'']"] show ?thesis by simp
qed

text \<open>
  Removal is not as lenient: a name that the organization does not know is passed over, but a tag that
  only another workspace has is an error.
\<close>

lemma remove_foreign_tag_fails:
  "\<exists>e. fst (RemoveTags root_work_env demo_wid [by_name ''xx'', by_name ''us''] demo_work) = Inl e \<and> errors_is e ErrResourceNotFound"
proof -
  obtain ws where ws: "db_getWorkspace root_work_env demo_wid demo_work = Inr ws" "ws_Organization ws = ''acme''" "ws_ID ws = demo_wid"
    by (rule demo_get_workspace)
  have ne: "demo_wid \<noteq> demo_wid2" by (simp add: demo_wid_def demo_wid2_def example_workspace_def)
  have "\<exists>e s'. for_each (remove_one_tag ''acme'' demo_wid) [by_name ''xx'', by_name ''us''] demo_work = (Inl (Wrap e ErrResourceNotFound), s')"
    using ne by (simp add: remove_one_tag_def TagSpec_Valid_def by_name_def db_findTagByName_def demo_tables demo_tag_def collect_one_def
        scan_tag_def wrapping_def db_deleteWorkspaceTag_def Let_def)
  then show ?thesis using ws demo_access
    by (auto simp: RemoveTags_def authorized_def then_do_def wrapping_def lift_op_def wtx_def)
qed

end
