(* ===== verification/WorkspaceAccess.thy ===== *)
theory WorkspaceAccess
  imports WorkspaceSafety
begin

text \<open>
  Properties of the service of workspaces that rest on its tables: who may list the workspaces of an
  organization, what a permission grants, what of a new workspace is read back, and which agent pools a
  workspace can get by an update.
\<close>

section \<open>Permissions and policies\<close>

lemma find_first_filter: "find_first P (filter Q xs) = find_first (\<lambda>x. Q x \<and> P x) xs"
  by (induction xs) auto

lemma find_first_cong: "(\<And>x. x \<in> set xs \<Longrightarrow> P x = Q x) \<Longrightarrow> find_first P xs = find_first Q xs"
  by (induction xs) auto

definition permission_of :: "TfeID \<Rightarrow> TfeID \<Rightarrow> work_sys \<Rightarrow> permission_row option" where
  "permission_of wid tid s = find_first (\<lambda>p. pm_Workspace p = wid \<and> pm_Team p = tid) (wk_permissions s)"

text \<open>The policy of a workspace lets a team do what the role of its permission allows.\<close>

lemma Policy_Check_team:
  assumes "permissions_inv s" "find_row wid s = Some row" "tfe_kind t = TeamKind"
  shows "\<exists>pol. GetWorkspacePolicy wid s = Inr pol \<and> Policy_Check pol (TfeID_ID t) action kind =
    (case permission_of wid t s of None \<Rightarrow> False | Some p \<Rightarrow> IsAllowed (role_of (pm_Role p)) action kind)"
proof -
  have "(\<lambda>perm. TfeID_ID t = TfeID_ID (perm_TeamID perm)) \<circ> (\<lambda>p. \<lparr>perm_TeamID = pm_Team p, perm_Role = role_of (pm_Role p)\<rparr>) =
      (\<lambda>p. pm_Team p = t)" by auto
  then have "find_first (\<lambda>perm. TfeID_ID t = TfeID_ID (perm_TeamID perm))
      (map (\<lambda>p. \<lparr>perm_TeamID = pm_Team p, perm_Role = role_of (pm_Role p)\<rparr>) (filter (\<lambda>p. pm_Workspace p = wid) (wk_permissions s))) =
    map_option (\<lambda>p. \<lparr>perm_TeamID = pm_Team p, perm_Role = role_of (pm_Role p)\<rparr>) (permission_of wid t s)"
    unfolding find_first_map permission_of_def find_first_filter
    by (intro arg_cong [where f = "map_option _"] find_first_cong) auto
  then show ?thesis using GetWorkspacePolicy_eq [OF assms(1,2)] assms(3)
    by (auto simp: Policy_Check_def split: option.splits)
qed

lemma permission_of_set:
  assumes "db_SetWorkspacePermission wid tid role s = (Inr u, s')"
  shows "permission_of w t s' = (if w = wid \<and> t = tid
      then Some \<lparr>pm_Workspace = wid, pm_Team = tid, pm_Role = role_name role\<rparr> else permission_of w t s)"
    "role_name role \<in> set workspace_roles" "find_row wid s \<noteq> None" "wk_workspaces s' = wk_workspaces s" "tid \<in> fst ` set (wk_teams s)"
proof -
  let ?row = "\<lparr>pm_Workspace = wid, pm_Team = tid, pm_Role = role_name role\<rparr>"
  let ?key = "\<lambda>p. pm_Workspace p = wid \<and> pm_Team p = tid"
  have c: "\<not> (find_row wid s = None \<or> tid \<notin> fst ` set (wk_teams s) \<or> role_name role \<notin> set workspace_roles)"
    using assms unfolding db_SetWorkspacePermission_def Let_def by (metis Inl_Inr_False prod.inject)
  then have s': "s' = s\<lparr>wk_permissions := (if list_ex ?key (wk_permissions s)
      then map (\<lambda>p. if ?key p then ?row else p) (wk_permissions s) else wk_permissions s @ [?row])\<rparr>"
    using assms unfolding db_SetWorkspacePermission_def Let_def by (simp only: c if_False prod.inject)
  show "role_name role \<in> set workspace_roles" "find_row wid s \<noteq> None" "wk_workspaces s' = wk_workspaces s" "tid \<in> fst ` set (wk_teams s)"
    using c s' by simp_all
  show "permission_of w t s' = (if w = wid \<and> t = tid then Some ?row else permission_of w t s)"
  proof (cases "list_ex ?key (wk_permissions s)")
    case True
    have key: "(\<lambda>p. pm_Workspace p = w \<and> pm_Team p = t) \<circ> (\<lambda>p. if ?key p then ?row else p) = (\<lambda>p. pm_Workspace p = w \<and> pm_Team p = t)"
      by (rule ext) auto
    have 1: "permission_of w t s' = map_option (\<lambda>p. if ?key p then ?row else p) (permission_of w t s)"
    proof -
      have perms: "wk_permissions s' = map (\<lambda>p. if ?key p then ?row else p) (wk_permissions s)" using True s' by simp
      show ?thesis by (simp only: permission_of_def perms find_first_map key)
    qed
    have 2: "\<exists>p. permission_of w t s = Some p" if "w = wid \<and> t = tid"
      using True that by (cases "permission_of w t s") (auto simp: permission_of_def find_first_None_iff list_ex_iff)
    show ?thesis
    proof (cases "permission_of w t s")
      case None
      then have "\<not> (w = wid \<and> t = tid)" using 2 by auto
      then show ?thesis using 1 None by auto
    next
      case (Some p)
      have "pm_Workspace p = w" "pm_Team p = t"
        using find_first_SomeD [OF Some [unfolded permission_of_def]] by simp_all
      then show ?thesis using 1 Some by simp
    qed
  next
    case False
    then have "permission_of wid tid s = None" by (auto simp: permission_of_def find_first_None_iff list_ex_iff)
    moreover have "permission_of w t s' = (case permission_of w t s of None \<Rightarrow> if w = wid \<and> t = tid then Some ?row else None | Some p \<Rightarrow> Some p)"
      using False unfolding permission_of_def s' by (auto simp: find_first_append split: option.splits)
    ultimately show ?thesis by (auto split: option.splits)
  qed
qed

lemma permission_of_unset:
  assumes "db_UnsetWorkspacePermission wid tid s = (Inr u, s')"
  shows "permission_of w t s' = (if w = wid \<and> t = tid then None else permission_of w t s)" "wk_workspaces s' = wk_workspaces s"
proof -
  have s': "s' = s\<lparr>wk_permissions := filter (\<lambda>p. \<not> (pm_Workspace p = wid \<and> pm_Team p = tid)) (wk_permissions s)\<rparr>"
    using assms by (simp add: db_UnsetWorkspacePermission_def Let_def split: if_splits)
  show "wk_workspaces s' = wk_workspaces s" by (simp add: s')
  show "permission_of w t s' = (if w = wid \<and> t = tid then None else permission_of w t s)"
  proof (cases "w = wid \<and> t = tid")
    case True
    then show ?thesis by (auto simp: permission_of_def s' find_first_filter find_first_None_iff)
  next
    case False
    then have "find_first (\<lambda>p. \<not> (pm_Workspace p = wid \<and> pm_Team p = tid) \<and> pm_Workspace p = w \<and> pm_Team p = t) (wk_permissions s) =
        find_first (\<lambda>p. pm_Workspace p = w \<and> pm_Team p = t) (wk_permissions s)"
      by (intro find_first_cong) auto
    then show ?thesis using False by (auto simp: permission_of_def s' find_first_filter)
  qed
qed

lemma role_of_role: "role \<in> {WorkspaceReadRole, WorkspacePlanRole, WorkspaceWriteRole, WorkspaceAdminRole} \<Longrightarrow> role_of (role_name role) = role"
  by (auto simp: role_of_def WorkspaceRoleFromString_def role_defs)

text \<open>A team without powers of its own may do with a workspace what the policy of the workspace says.\<close>

definition plain_team :: "Team \<Rightarrow> string \<Rightarrow> bool" where
  "plain_team t organization \<longleftrightarrow> tfe_kind (team_ID t) = TeamKind \<and> team_Organization t = organization \<and> \<not> Team_IsOwners t \<and>
     \<not> team_ManageWorkspaces t \<and> \<not> team_ManageVCS t \<and> \<not> team_ManageModules t"

lemma plain_team_access:
  assumes "permissions_inv s" "find_row wid s = Some row" "tfe_kind wid = WorkspaceKind" "plain_team t (wr_Organization row)"
    "ae_ctx env = \<lparr>ctx_subject = Some (TeamSubject t), ctx_skipAuthz = False\<rparr>"
  shows "is_ok (work_access env s action kind (TfeID_ID wid)) \<longleftrightarrow> IsAllowed OrganizationMinPermissions action kind \<or>
    (case permission_of wid (team_ID t) s of None \<Rightarrow> False | Some p \<Rightarrow> IsAllowed (role_of (pm_Role p)) action kind)"
proof -
  have k: "tfe_kind (team_ID t) = TeamKind" using assms(4) by (simp add: plain_team_def)
  obtain pol where pol: "GetWorkspacePolicy wid s = Inr pol" "Policy_Check pol (TfeID_ID (team_ID t)) action kind =
      (case permission_of wid (team_ID t) s of None \<Rightarrow> False | Some p \<Rightarrow> IsAllowed (role_of (pm_Role p)) action kind)"
    using Policy_Check_team [OF assms(1,2) k] by blast
  have ctx: "ctx_subject (ae_ctx env) = Some (TeamSubject t)" "\<not> ctx_skipAuthz (ae_ctx env)" using assms(5) by simp_all
  have "WorkspaceKind \<noteq> TeamKind" by (simp add: kind_defs)
  then have "Team_CanAccess t action kind \<lparr>req_ID = TfeID_ID wid, req_WorkspacePolicy = Some pol,
            req_lineage = [OrganizationName_ID (wr_Organization row)]\<rparr> \<longleftrightarrow>
      IsAllowed OrganizationMinPermissions action kind \<or> Policy_Check pol (TfeID_ID (team_ID t)) action kind"
    using assms(3,4) by (simp add: Team_CanAccess_def plain_team_def other_organization_def req_Organization_def req_ancestor_def)
  then show ?thesis unfolding work_access_workspace [OF assms(2,3) pol(1) ctx] by (simp add: pol(2))
qed

section \<open>Pages of rows\<close>

lemma collect_rows_set: "collect_rows scan rows = Inr items \<Longrightarrow> x \<in> set items \<Longrightarrow> \<exists>r \<in> set rows. scan r = Inr x"
  by (induction rows arbitrary: items) (auto split: sum.splits)

lemma NewPage_items: "NewPage (Some items) opts (Some n) = Inr page \<Longrightarrow> Items page = Some items"
  by (auto simp: NewPage_def Let_def split: if_splits)

lemma workspaces_page_rows:
  assumes "workspaces_page env opts rows s = Inr page" "ws \<in> set (elems (Items page))"
  shows "\<exists>r \<in> set rows. scan_workspace env s r = Inr ws"
proof -
  obtain items where items: "collect_rows (scan_workspace env s) (take (nat (GetLimit opts)) (drop (nat (GetOffset opts)) rows)) = Inr items"
    "NewPage (Some items) opts (Some (int (length rows))) = Inr page"
    using assms(1) by (auto simp: workspaces_page_def split: if_splits sum.splits)
  then have "ws \<in> set items" using assms(2) NewPage_items [OF items(2)] by simp
  from collect_rows_set [OF items(1) this] show ?thesis by (meson in_set_dropD in_set_takeD)
qed

lemma permitted_rows_set:
  "r \<in> set (permitted_rows username organization s) \<longleftrightarrow> r \<in> set (wk_workspaces s) \<and> wr_Organization r = organization \<and>
     (\<exists>p \<in> set (wk_permissions s). pm_Workspace p = wr_ID r \<and> (pm_Team p, username) \<in> set (wk_members s))"
  by (auto simp: permitted_rows_def)

section \<open>Creation\<close>

definition hooks_pure :: "(Workspace \<Rightarrow> (work_sys, unit) op) list \<Rightarrow> bool" where
  "hooks_pure hooks \<longleftrightarrow> (\<forall>h \<in> set hooks. \<forall>ws s. snd (h ws s) = s)"

lemma run_hooks_pure: "hooks_pure hooks \<Longrightarrow> run_hooks hooks ws s = (r, s') \<Longrightarrow> s' = s"
proof (induction hooks)
  case (Cons h hooks)
  obtain r1 where "h ws s = (r1, s)" using Cons.prems(1) by (metis hooks_pure_def list.set_intros(1) prod.collapse)
  then show ?case using Cons by (auto simp: run_hooks_def hooks_pure_def split: sum.splits)
qed (simp add: run_hooks_def)

lemma setName_fresh: "setName ws n = Inr ws' \<Longrightarrow> ws_LatestRun ws' = ws_LatestRun ws \<and> ws_Lock ws' = ws_Lock ws \<and>
    ws_ID ws' = ws_ID ws \<and> ws_SSHKeyID ws' = ws_SSHKeyID ws"
  by (auto simp: setName_def split: if_splits)

lemma addConnection_fresh: "addConnection r ws co = Inr ws' \<Longrightarrow> ws_LatestRun ws' = ws_LatestRun ws \<and> ws_Lock ws' = ws_Lock ws \<and>
    ws_ID ws' = ws_ID ws \<and> ws_SSHKeyID ws' = ws_SSHKeyID ws"
  by (auto simp: addConnection_def setTagsRegex_def Let_def split: sum.splits if_splits option.splits)

lemma NewWorkspace_fresh:
  assumes "NewWorkspace r g get_org get_latest eng rnd clk opts = Inr ws"
  shows "ws_LatestRun ws = None \<and> ws_Lock ws = None \<and> ws_ID ws = NewTfeID rnd ''ws'' \<and> ws_SSHKeyID ws = wc_SSHKeyID opts"
proof -
  have d: "ws_LatestRun (workspace_defaults eng rnd clk opts org mode) = None" "ws_Lock (workspace_defaults eng rnd clk opts org mode) = None"
    "ws_ID (workspace_defaults eng rnd clk opts org mode) = NewTfeID rnd ''ws''"
    "ws_SSHKeyID (workspace_defaults eng rnd clk opts org mode) = wc_SSHKeyID opts" for org mode
    by (simp_all add: workspace_defaults_def)
  show ?thesis using assms
    by (auto simp: NewWorkspace_def Let_def setTriggerPatterns_def d dest!: setName_fresh addConnection_fresh
        split: sum.splits option.splits if_splits)
qed

lemma Connect_connection:
  assumes "Connect env pid rid repo h = (Inr u, h')" "tfe_kind rid = WorkspaceKind"
  shows "find_first (\<lambda>c. cr_Workspace c = Some rid) (hd_connections h') =
    Some \<lparr>cr_Module = None, cr_Workspace = Some rid, cr_Repo = repo, cr_Provider = pid\<rparr>"
proof -
  obtain h1 where h1: "createConnection pid rid repo h1 = (Inr u, h')"
    using assms(1) by (auto simp: Connect_def then_do_Inr)
  have "WorkspaceKind \<noteq> ModuleKind" by (simp add: kind_defs)
  then have "\<not> list_ex (connection_of rid) (hd_connections h1)"
    "hd_connections h' = hd_connections h1 @ [\<lparr>cr_Module = None, cr_Workspace = Some rid, cr_Repo = repo, cr_Provider = pid\<rparr>]"
    using h1 assms(2) by (auto simp: createConnection_def Let_def split: if_splits)
  moreover from this(1) have "find_first (\<lambda>c. cr_Workspace c = Some rid) (hd_connections h1) = None"
    by (auto simp: find_first_None_iff list_ex_iff connection_of_def)
  ultimately show ?thesis by (simp add: find_first_append)
qed

text \<open>What is stored of a connection: the branch, the regular expression and the flag are columns of the workspace.\<close>

lemma connect_optional_connection:
  assumes "connect_optional env ws s = (Inr u, s')" "tfe_kind (ws_ID ws) = WorkspaceKind"
    "ws_Connection ws = None \<Longrightarrow> connection_row (ws_ID ws) s = None"
  shows "scan_connection (new_row ws) (connection_row (ws_ID ws) s') = ws_Connection ws"
proof (cases "ws_Connection ws")
  case None
  then show ?thesis using assms by (simp add: connect_optional_def scan_connection_def)
next
  case (Some c)
  then obtain h' where "Connect (hook_env.truncate env) (con_VCSProviderID c) (ws_ID ws) (con_Repo c) (wk_vcs s) = (Inr u, h')"
    "s' = s\<lparr>wk_vcs := h'\<rparr>"
    using assms(1) by (auto simp: connect_optional_def connect_workspace_def on_vcs_def split: if_splits prod.splits)
  then show ?thesis using Connect_connection assms(2) Some
    by (simp add: connection_row_def scan_connection_def new_row_def)
qed


section \<open>Agent pools\<close>

text \<open>An update to agent mode with a pool changes the mode and the time of the update, nothing else.\<close>

definition use_pool :: "TfeID \<Rightarrow> WorkspaceUpdateOptions" where
  "use_pool pid = no_update\<lparr>wu_ExecutionKind := Some AgentKind, wu_AgentPoolID := Some pid\<rparr>"

lemma Workspace_Update_pool:
  "Workspace_Update r g now ws (use_pool pid) = Inr (ws\<lparr>ws_Mode := AgentMode pid, ws_UpdatedAt := CurrentTimestamp None now\<rparr>, None)"
  by (cases "ws_Mode ws") (simp add: Workspace_Update_def Update_settings_def Update_triggers_def Update_connection_def use_pool_def
      no_update_def Mode_Update_def mode_isValid_def Let_def check_triggers_def tags_regex_given_def ws_updated_def AgentMode_def)

lemma checkWorkspacePoolAccess_none: "mode_agentPoolID (ws_Mode ws) = None \<Longrightarrow> checkWorkspacePoolAccess getPool ws = Inr ()"
  by (simp add: checkWorkspacePoolAccess_def)

definition current_row_ok :: "work_sys \<Rightarrow> work_row \<Rightarrow> bool" where
  "current_row_ok s row \<longleftrightarrow> is_ok (row_constraints s (filter (\<lambda>o1. wr_ID o1 \<noteq> wr_ID row) (wk_workspaces s)) row)"

lemma changed_row_pool:
  assumes "current_row_ok s row" "ws_Name ws = wr_Name row" "ws_Engine ws = wr_Engine row" "ws_SSHKeyID ws = wr_SSHKeyID row"
    "ws_Mode ws = AgentMode pid" "pid \<in> set (map pool_ID (wk_pools s))"
  shows "row_constraints s (filter (\<lambda>o1. wr_ID o1 \<noteq> wr_ID row) (wk_workspaces s)) (changed_row ws row) = Inr ()"
proof -
  have "wr_Engine (changed_row ws row) = wr_Engine row" "wr_SSHKeyID (changed_row ws row) = wr_SSHKeyID row"
    "wr_AgentPoolID (changed_row ws row) = Some pid" "wr_ID (changed_row ws row) = wr_ID row"
    "wr_Organization (changed_row ws row) = wr_Organization row" "wr_Name (changed_row ws row) = wr_Name row"
    using assms(2-5) by (simp_all add: changed_row_def AgentMode_def)
  then show ?thesis using assms(1,6) by (auto simp: current_row_ok_def row_constraints_def split: if_splits)
qed

lemma find_row_replaced:
  assumes "find_row wid s = Some row" "wr_ID r = wid"
  shows "find_row wid (replace_row wid r s) = Some r"
proof -
  have "find_first (\<lambda>o1. wr_ID o1 = wid) (map (\<lambda>o1. if wr_ID o1 = wid then r else o1) rows) = Some r"
    if "wid \<in> set (map wr_ID rows)" for rows
    using that assms(2) by (induction rows) auto
  moreover have "wid \<in> set (map wr_ID (wk_workspaces s))" using find_row_Some [OF assms(1)] by auto
  ultimately show ?thesis by (simp add: find_row_def replace_row_def)
qed

lemma write_workspace_eval:
  assumes "find_row (ws_ID ws) s = Some row"
    "row_constraints s (filter (\<lambda>o1. wr_ID o1 \<noteq> ws_ID ws) (wk_workspaces s)) (changed_row ws row) = Inr ()"
  shows "write_workspace ws s = (Inr (), replace_row (ws_ID ws) (changed_row ws row) s)"
  using assms by (simp add: write_workspace_def)

lemma scan_workspace_row:
  assumes "scan_workspace env s row = Inr ws"
  shows "ws_Engine ws = wr_Engine row"
  using assms by (auto simp: scan_workspace_def Let_def split: sum.splits if_splits)

lemma truncate_engine [simp]: "ws_Engine (Workspace.Workspace.truncate ws) = ws_Engine ws"
  "ws_SSHKeyID (Workspace.Workspace.truncate ws) = ws_SSHKeyID ws"
  by (simp_all add: Workspace.Workspace.truncate_def)

lemma db_updateWorkspace_run:
  assumes "db_getWorkspace env wid s = Inr ws"
  shows "db_updateWorkspace env wid (update_workspace env opts) s =
    wtx (then_do (run_hooks (we_beforeUpdate env) (Workspace.Workspace.truncate ws)) (\<lambda>_.
      then_do (lift_op (\<lambda>_. Workspace_Update (we_regex_ok env) (we_glob_ok env) (we_now env) (Workspace.Workspace.truncate ws) opts))
        (\<lambda>(ws1, x). then_do (wrapping ''updating row'' (write_workspace ws1)) (\<lambda>_. return_op (ws1, x))))) s"
  using assms by (simp add: db_updateWorkspace_def wtx_def update_workspace_def then_do_def wrapping_def lift_op_def split: prod.splits sum.splits)

section \<open>Well-formed rows\<close>

text \<open>A row whose mode and engine are among those that can be read.\<close>

definition row_wf :: "work_row \<Rightarrow> bool" where
  "row_wf r \<longleftrightarrow> is_ok (NewMode (wr_ExecutionKind r) (wr_AgentPoolID r)) \<and> wr_Engine r \<in> set known_engines"

definition rows_wf :: "work_sys \<Rightarrow> bool" where
  "rows_wf s \<longleftrightarrow> (\<forall>r \<in> set (wk_workspaces s). row_wf r)"

lemma same_work_wf: "same_work s s' \<Longrightarrow> rows_wf s \<Longrightarrow> rows_wf s'"
  by (simp add: same_work_def rows_wf_def)

lemma wf_workspaces: "wk_workspaces s' = wk_workspaces s \<Longrightarrow> rows_wf s \<Longrightarrow> rows_wf s'"
  by (simp add: rows_wf_def)

lemma valid_mode_NewMode: "valid_mode m \<Longrightarrow> is_ok (NewMode (mode_kind m) (mode_agentPoolID m))"
  by (auto simp: valid_mode_def NewMode_def is_ok_def split: sum.splits)

lemma row_constraints_engine: "row_constraints s others r = Inr u \<Longrightarrow> wr_Engine r \<in> set known_engines"
  by (auto simp: row_constraints_def split: if_splits)

lemma new_row_wf: "valid_mode (ws_Mode ws) \<Longrightarrow> row_constraints s others (new_row ws) = Inr u \<Longrightarrow> row_wf (new_row ws)"
  using row_constraints_engine [of s others "new_row ws"] by (simp add: row_wf_def valid_mode_NewMode)

lemma changed_row_wf: "valid_mode (ws_Mode ws) \<Longrightarrow> row_constraints s others (changed_row ws row) = Inr u \<Longrightarrow> row_wf (changed_row ws row)"
  using row_constraints_engine [of s others "changed_row ws row"]
  by (simp add: row_wf_def) (simp add: changed_row_def valid_mode_NewMode)

lemma replace_row_wf: "rows_wf s \<Longrightarrow> row_wf r \<Longrightarrow> rows_wf (replace_row wid r s)"
  by (auto simp: rows_wf_def replace_row_def)

lemma Workspace_Update_valid:
  assumes "valid_mode (ws_Mode ws)" "Workspace_Update r g now ws opts = Inr (ws', b)"
  shows "valid_mode (ws_Mode ws')"
  using assms(2)
proof (rule Workspace_Update_steps)
  fix wa wb wc
  assume st: "Update_settings ws opts = Inr wa" "Update_triggers g wa opts = Inr wb" "Update_connection r wb opts = Inr (wc, b)"
    "ws' = (if ws_updated ws opts then wc\<lparr>ws_UpdatedAt := CurrentTimestamp None now\<rparr> else wc)"
  show "valid_mode (ws_Mode ws')"
    using Update_settings_mode [OF assms(1) st(1)] Update_triggers_mode [OF st(2)] Update_connection_mode [OF st(3)] by (simp add: st(4))
qed

lemma CreateWorkspace_wf:
  assumes "rows_wf s" "work_inv s" "hooks_keep env" "CreateWorkspace env opts tags s = (r, s')"
  shows "rows_wf s'"
proof (cases r)
  case (Inl e)
  have "s' = s \<or> (\<exists>v. s' = s\<lparr>wk_vcs := v\<rparr>)" using assms(4) Inl
    by (auto simp: CreateWorkspace_def authorized_def split: sum.splits dest!: wtx_Inl)
  then show ?thesis using assms(1) by (auto simp: rows_wf_def)
next
  case (Inr x)
  obtain ws added where x: "x = (ws, added)" by (cases x)
  from assms(4) [unfolded Inr x] obtain s1 s2 s3 s4 where st:
    "NewWorkspace (we_regex_ok env) (we_glob_ok env) (we_GetOrganization env) (we_GetLatest env)
       (we_defaultEngine env) (ve_rnd env) (ve_clk env) opts = Inr ws"
    "run_hooks (we_beforeCreate env) ws s = (Inr (), s1)" "db_createWorkspace ws s1 = (Inr (), s2)"
    "connect_optional env ws s2 = (Inr (), s3)"
    "(if tags = [] then return_op [] else addTags env ws tags) s3 = (Inr added, s4)"
    "run_hooks (we_afterCreate env) ws s4 = (Inr (), s')"
    by (rule CreateWorkspace_steps)
  have hooks: "\<forall>h \<in> set (we_beforeCreate env). \<forall>ws s. same_work s (snd (h ws s))"
    "\<forall>h \<in> set (we_afterCreate env). \<forall>ws s. same_work s (snd (h ws s))"
    using assms(3) by (auto simp: hooks_keep_def)
  note before = run_hooks_same [OF hooks(1) st(2)] and after = run_hooks_same [OF hooks(2) st(6)] and con = connect_optional_same [OF st(4)]
  note created = db_createWorkspace_ok [OF st(3)]
  have inv3: "work_inv s3"
    using same_work_inv [OF con db_createWorkspace_inv [OF same_work_inv [OF before assms(2)] st(3)]] .
  have row3: "find_row (ws_ID ws) s3 = Some (new_row ws)" using find_row_created [OF st(3)] find_row_same [OF con] by simp
  have 1: "rows_wf s1" using same_work_wf [OF before assms(1)] .
  have "rows_wf s2" using 1 new_row_wf [OF NewWorkspace_mode [OF st(1)] created(1)] by (auto simp: rows_wf_def created(2))
  then have 3: "rows_wf s3" by (rule same_work_wf [OF con])
  have "rows_wf s4"
  proof (cases "tags = []")
    case True
    then show ?thesis using st(5) 3 by simp
  next
    case False
    then have "tags_added (ws_ID ws) added s3 s4" using st(5) addTags_ok(2) [OF inv3 row3, of env tags added s4] by simp
    then show ?thesis using 3 by (auto simp: tags_added_def intro: wf_workspaces)
  qed
  then show ?thesis by (rule same_work_wf [OF after])
qed

lemma UpdateWorkspace_wf:
  assumes "rows_wf s" "hooks_keep env" "UpdateWorkspace env wid opts s = (r, s')"
  shows "rows_wf s'"
proof (cases r)
  case (Inl e)
  have "s' = s \<or> (\<exists>v. s' = s\<lparr>wk_vcs := v\<rparr>)" using assms(3) Inl
    by (auto simp: UpdateWorkspace_def authorized_def split: sum.splits dest!: wtx_Inl)
  then show ?thesis using assms(1) by (auto simp: rows_wf_def)
next
  case (Inr updated)
  from assms(3) [unfolded Inr] obtain ws s1 connect s2 where st: "db_getWorkspace env wid s = Inr ws"
    "run_hooks (we_beforeUpdate env) (Workspace.Workspace.truncate ws) s = (Inr (), s1)"
    "Workspace_Update (we_regex_ok env) (we_glob_ok env) (we_now env) (Workspace.Workspace.truncate ws) opts = Inr (updated, connect)"
    "write_workspace updated s1 = (Inr (), s2)"
    "(case connect of None \<Rightarrow> return_op ()
      | Some True \<Rightarrow> (case ws_Connection updated of None \<Rightarrow> fail_op (Panic ''nil pointer dereference'') | Some c \<Rightarrow> connect_workspace env wid c)
      | Some False \<Rightarrow> disconnect_workspace env wid) s2 = (Inr (), s')"
    by (rule UpdateWorkspace_steps)
  obtain row where row: "scan_workspace env s row = Inr ws" using db_getWorkspace_ok [OF st(1)] by blast
  have "valid_mode (ws_Mode ws)" by (rule NewMode_valid [OF scan_workspace_fields(6) [OF row]])
  then have mode: "valid_mode (ws_Mode updated)" using Workspace_Update_valid [OF _ st(3)] by simp
  have hooks: "\<forall>h \<in> set (we_beforeUpdate env). \<forall>ws s. same_work s (snd (h ws s))"
    using assms(2) by (auto simp: hooks_keep_def)
  have 1: "rows_wf s1" using same_work_wf [OF run_hooks_same [OF hooks st(2)] assms(1)] .
  have "rows_wf s2" using st(4)
  proof (rule write_workspace_ok)
    fix row1
    assume "row_constraints s1 (filter (\<lambda>o1. wr_ID o1 \<noteq> ws_ID updated) (wk_workspaces s1)) (changed_row updated row1) = Inr ()"
      "s2 = replace_row (ws_ID updated) (changed_row updated row1) s1"
    then show "rows_wf s2" using replace_row_wf [OF 1] changed_row_wf [OF mode] by blast
  qed
  moreover have "same_work s2 s'" using st(5)
    by (auto split: option.splits bool.splits dest: connect_workspace_same disconnect_workspace_same)
  ultimately show ?thesis by (metis same_work_wf)
qed

text \<open>The other operations leave the rows as they are, or take some away.\<close>

definition rows_shrink :: "work_sys \<Rightarrow> work_sys \<Rightarrow> bool" where
  "rows_shrink s s' \<longleftrightarrow> set (wk_workspaces s') \<subseteq> set (wk_workspaces s)"

lemma rows_shrink_wf: "rows_shrink s s' \<Longrightarrow> rows_wf s \<Longrightarrow> rows_wf s'"
  by (auto simp: rows_wf_def rows_shrink_def)

definition shrinks :: "(work_sys, 'a) op \<Rightarrow> bool" where
  "shrinks f \<longleftrightarrow> (\<forall>s r s'. f s = (r, s') \<longrightarrow> rows_shrink s s')"

lemma shrinksD: "shrinks f \<Longrightarrow> f s = (r, s') \<Longrightarrow> rows_shrink s s'"
  by (auto simp: shrinks_def)

lemma rows_shrink_trans: "rows_shrink s s1 \<Longrightarrow> rows_shrink s1 s' \<Longrightarrow> rows_shrink s s'"
  by (auto simp: rows_shrink_def)

lemma rows_shrink_refl [simp]: "rows_shrink s s" "rows_shrink s (s\<lparr>wk_vcs := v\<rparr>)" "rows_shrink s (s\<lparr>wk_taggings := wts\<rparr>)"
  "rows_shrink s (s\<lparr>wk_tags := ts\<rparr>)" "rows_shrink s (s\<lparr>wk_permissions := ps\<rparr>)"
  by (simp_all add: rows_shrink_def)

lemma shrinks_then_do:
  assumes "shrinks f" "\<And>x. shrinks (g x)"
  shows "shrinks (then_do f g)"
  unfolding shrinks_def
proof (intro allI impI)
  fix s r s'
  assume a: "then_do f g s = (r, s')"
  obtain r1 s1 where s1: "f s = (r1, s1)" by (cases "f s")
  show "rows_shrink s s'" using a s1 shrinksD [OF assms(1) s1] shrinksD [OF assms(2)]
    by (cases r1) (auto simp: then_do_def intro: rows_shrink_trans)
qed

lemma shrinks_wtx: "shrinks f \<Longrightarrow> shrinks (wtx f)"
  by (auto simp: shrinks_def wtx_def split: prod.splits sum.splits)

lemma shrinks_authorized: "shrinks f \<Longrightarrow> shrinks (authorized env action kind rid f)"
  by (auto simp: shrinks_def authorized_def split: sum.splits)

lemma shrinks_wrapping: "shrinks f \<Longrightarrow> shrinks (wrapping msg f)"
  by (auto simp: shrinks_def wrapping_def split: prod.splits sum.splits)

lemma shrinks_for_each:
  assumes "\<And>x. shrinks (f x)"
  shows "shrinks (for_each f xs)"
proof (induction xs)
  case (Cons x xs)
  show ?case unfolding shrinks_def
  proof (intro allI impI)
    fix s r s'
    assume a: "for_each f (x # xs) s = (r, s')"
    obtain r1 s1 where s1: "f x s = (r1, s1)" by (cases "f x s")
    show "rows_shrink s s'" using a s1 shrinksD [OF assms s1] shrinksD [OF Cons.IH]
      by (cases r1) (auto intro: rows_shrink_trans)
  qed
qed (simp add: shrinks_def)

lemma shrinks_basic: "shrinks (return_op x)" "shrinks (fail_op e)" "shrinks (lift_op f)" "shrinks (on_vcs h)"
  by (auto simp: shrinks_def on_vcs_def split: prod.splits)

lemma shrinks_tables:
  "shrinks (db_tagWorkspace wid tid)" "shrinks (db_deleteWorkspaceTag wid tid)" "shrinks (db_deleteTag organization tid)"
  "shrinks (db_deleteWorkspace wid)" "shrinks (db_addTag organization name tid)" "shrinks (db_UnsetWorkspacePermission wid tid)"
  by (auto simp: shrinks_def rows_shrink_def db_tagWorkspace_def db_deleteWorkspaceTag_def db_deleteTag_def db_deleteWorkspace_def
      db_addTag_def db_UnsetWorkspacePermission_def Let_def split: if_splits)

lemma shrinks_set_permission: "shrinks (db_SetWorkspacePermission wid tid role)"
proof -
  have "wk_workspaces (snd (db_SetWorkspacePermission wid tid role s)) = wk_workspaces s" for s
    by (simp add: db_SetWorkspacePermission_def Let_def)
  then show ?thesis unfolding shrinks_def rows_shrink_def by (metis order_refl snd_conv)
qed

lemma shrinks_disconnect: "shrinks (disconnect_workspace env wid)"
  by (simp add: disconnect_workspace_def shrinks_basic)

lemma shrinks_add: "shrinks (add_tags_loop env organization wid k ts added)"
proof (induction ts arbitrary: k added)
  case (Cons t ts)
  have find: "shrinks (find_or_add_tag env organization k t)" for k
    unfolding shrinks_def
  proof (intro allI impI)
    fix s r s'
    assume "find_or_add_tag env organization k t s = (r, s')"
    then consider "s' = s" | "\<exists>tid r1. then_do (wrapping (''adding tag: '' @ ts_Name t) (db_addTag organization (ts_Name t) tid))
        (\<lambda>_. return_op (tid, ts_Name t)) s = (r1, s')"
      unfolding find_or_add_tag_def Let_def by (auto split: if_splits sum.splits option.splits)
    then show "rows_shrink s s'"
      by cases (auto dest: shrinksD [OF shrinks_then_do [OF shrinks_wrapping [OF shrinks_tables(5)] shrinks_basic(1)]])
  qed
  have one: "shrinks (add_one_tag env organization wid k t)" for k
    unfolding add_one_tag_def
    by (intro shrinks_then_do shrinks_wrapping shrinks_basic find) (auto intro!: shrinks_then_do shrinks_tables shrinks_basic)
  show ?case unfolding shrinks_def
  proof (intro allI impI)
    fix s r s'
    assume a: "add_tags_loop env organization wid k (t # ts) added s = (r, s')"
    obtain r1 s1 where s1: "add_one_tag env organization wid k t s = (r1, s1)" by (cases "add_one_tag env organization wid k t s")
    show "rows_shrink s s'" using a s1 shrinksD [OF one s1] shrinksD [OF Cons.IH]
      by (cases r1) (auto intro: rows_shrink_trans)
  qed
qed (simp add: shrinks_def)

lemma shrinks_remove: "shrinks (remove_one_tag organization wid t)"
proof -
  have "rows_shrink s s'" if "remove_one_tag organization wid t s = (r, s')" for s r s'
    using that shrinksD [OF shrinks_wrapping [OF shrinks_tables(2)]]
    by (auto simp: remove_one_tag_def Let_def split: sum.splits if_splits option.splits)
  then show ?thesis by (auto simp: shrinks_def)
qed

lemma shrinking_operations:
  "shrinks (DeleteWorkspace env wid)" "shrinks (SetWorkspacePermission env wid tid role)" "shrinks (UnsetWorkspacePermission env wid tid)"
  "shrinks (AddTags env wid tags)" "shrinks (RemoveTags env wid tags)" "shrinks (TagWorkspaces env tid wids)" "shrinks (DeleteTags env organization tids)"
  unfolding DeleteWorkspace_def SetWorkspacePermission_def UnsetWorkspacePermission_def AddTags_def RemoveTags_def DeleteTags_def
    addTags_def db_deleteTags_def
  by (auto simp: TagWorkspaces_def intro!: shrinks_authorized shrinks_then_do shrinks_basic shrinks_tables shrinks_set_permission shrinks_disconnect
      shrinks_wrapping shrinks_wtx shrinks_for_each shrinks_add shrinks_remove)

lemma reachable_rows_wf: "reachable_work s \<Longrightarrow> rows_wf s"
proof (induction rule: reachable_work.induct)
  case (empty s)
  then show ?case by (simp add: rows_wf_def)
next
  case (latest_run s env wid rid r3 s')
  then show ?case
    by (auto simp: SetWorkspaceLatestRun_def db_setLatestRun_def rows_wf_def row_wf_def replace_row_def dest!: find_row_Some
        split: option.splits if_splits)
next
  case (create s env opts tags r1 s')
  then show ?case using CreateWorkspace_wf reachable_work_inv by blast
qed (blast intro: same_work_wf UpdateWorkspace_wf rows_shrink_wf shrinksD [OF shrinking_operations(1)] shrinksD [OF shrinking_operations(2)]
    shrinksD [OF shrinking_operations(3)] shrinksD [OF shrinking_operations(4)] shrinksD [OF shrinking_operations(5)]
    shrinksD [OF shrinking_operations(6)] shrinksD [OF shrinking_operations(7)])+

section \<open>Properties\<close>

text \<open>
  C13: the rows of workspaces are well formed. In every reachable state each row has an engine that is
  known, and a mode that has an agent pool exactly when it is the agent mode, so that reading a row fails
  only on its version, and what is read has a valid mode.
\<close>

theorem workspaces_well_formed:
  assumes "reachable_work s" "r \<in> set (wk_workspaces s)"
  shows "(case scan_workspace env s r of
      Inl e \<Rightarrow> \<not> is_ok (Version_set (we_semver_valid env) (we_semver_compare env) zero_version (wr_EngineVersion r))
    | Inr ws \<Rightarrow> valid_mode (ws_Mode ws) \<and> ws_Engine ws \<in> {''terraform'', ''tofu''})"
proof -
  have "row_wf r" using reachable_rows_wf [OF assms(1)] assms(2) by (simp add: rows_wf_def)
  then obtain m where m: "NewMode (wr_ExecutionKind r) (wr_AgentPoolID r) = Inr m" "wr_Engine r \<in> set known_engines"
    by (auto simp: row_wf_def elim: is_okE)
  show ?thesis
  proof (cases "Version_set (we_semver_valid env) (we_semver_compare env) zero_version (wr_EngineVersion r)")
    case (Inl e)
    then show ?thesis by (simp add: scan_workspace_def)
  next
    case (Inr v)
    then obtain ws where "scan_workspace env s r = Inr ws" using m by (simp add: scan_workspace_def Let_def)
    moreover from this have "ws_Mode ws = m" "ws_Engine ws = wr_Engine r"
      using scan_workspace_fields(6) scan_workspace_row m(1) by fastforce+
    ultimately show ?thesis using NewMode_valid [OF m(1)] m(2) by (auto simp: known_engines_def)
  qed
qed


text \<open>
  C16: what a permission grants. After \<open>SetWorkspacePermission\<close> a team without powers of its own can do
  with the workspace exactly what every member of the organization can, and what the role allows;
  after \<open>UnsetWorkspacePermission\<close> only the former. The access of every other such team to the
  workspace does not change. Authorization reads the policy from the tables as the operations left them.
\<close>

theorem permission_grants_role:
  assumes "work_inv s" "SetWorkspacePermission env wid tid role s = (Inr (), s1)"
    "UnsetWorkspacePermission env wid tid s1 = (Inr (), s2)"
    "role \<in> {WorkspaceReadRole, WorkspacePlanRole, WorkspaceWriteRole, WorkspaceAdminRole}"
    "find_row wid s = Some row" "tfe_kind wid = WorkspaceKind" "plain_team t (wr_Organization row)"
    "ae_ctx env2 = \<lparr>ctx_subject = Some (TeamSubject t), ctx_skipAuthz = False\<rparr>"
  shows "is_ok (work_access env2 s1 action kind (TfeID_ID wid)) =
      (if team_ID t = tid then IsAllowed OrganizationMinPermissions action kind \<or> IsAllowed role action kind
       else is_ok (work_access env2 s action kind (TfeID_ID wid))) \<and>
    is_ok (work_access env2 s2 action kind (TfeID_ID wid)) =
      (if team_ID t = tid then IsAllowed OrganizationMinPermissions action kind
       else is_ok (work_access env2 s action kind (TfeID_ID wid)))"
proof -
  have db: "db_SetWorkspacePermission wid tid role s = (Inr (), s1)" "db_UnsetWorkspacePermission wid tid s1 = (Inr (), s2)"
    using assms(2,3) unfolding SetWorkspacePermission_def UnsetWorkspacePermission_def by (auto dest: authorized_Inr)
  note set = permission_of_set [OF db(1)] and unset = permission_of_unset [OF db(2)]
  have rows: "find_row wid s1 = Some row" "find_row wid s2 = Some row"
    using assms(5) set(4) unset(2) by (simp_all add: find_row_def)
  have inv: "permissions_inv s" "permissions_inv s1" "permissions_inv s2"
    using work_invD(4) assms(1) db_SetWorkspacePermission_inv [OF _ db(1)] db_UnsetWorkspacePermission_inv [OF _ db(2)] by auto
  note access = plain_team_access [OF inv(1) assms(5,6,7,8)] plain_team_access [OF inv(2) rows(1) assms(6,7,8)]
    plain_team_access [OF inv(3) rows(2) assms(6,7,8)]
  show ?thesis unfolding access using role_of_role [OF assms(4)] by (simp add: set(1) unset(1))
qed

text \<open>
  C17: who sees the workspaces of an organization. When a user has no permission to list them, only those
  are listed for which a permission was granted to a team that the user is a member of. But every other
  subject without that permission, such as the token of a team or of another organization, a runner or
  a job, gets what a subject with permission gets: the code falls through to the list of all workspaces.
\<close>

theorem list_workspaces_scope:
  assumes "wl_Organization opts = Some organization" "ctx_subject (ae_ctx env) = Some subj"
    "work_access env s ListAction WorkspaceKind (org_pointer organization) = Inl ErrAccessNotPermitted"
  shows "(\<forall>u page ws. subj = UserSubject u \<and> ListWorkspaces env opts s = Inr page \<and> ws \<in> set (elems (Items page)) \<longrightarrow>
      ws_Organization ws = organization \<and>
      (\<exists>p \<in> set (wk_permissions s). pm_Workspace p = ws_ID ws \<and> (pm_Team p, user_Username u) \<in> set (wk_members s))) \<and>
    ((\<forall>u. subj \<noteq> UserSubject u) \<longrightarrow> ListWorkspaces env opts s = db_listWorkspaces env opts s)"
proof (intro conjI allI impI)
  fix u page ws
  assume a: "subj = UserSubject u \<and> ListWorkspaces env opts s = Inr page \<and> ws \<in> set (elems (Items page))"
  then have "db_listByUsername env (user_Username u) organization (wl_Page opts) s = Inr page"
    using assms by (auto simp: ListWorkspaces_def)
  then obtain r where r: "r \<in> set (permitted_rows (user_Username u) organization s)" "scan_workspace env s r = Inr ws"
    using workspaces_page_rows [of env "wl_Page opts" "sort_key (\<lambda>r. - wr_UpdatedAt r) (permitted_rows (user_Username u) organization s)" s page ws] a
    by (auto simp: db_listByUsername_def)
  then show "ws_Organization ws = organization"
    "\<exists>p \<in> set (wk_permissions s). pm_Workspace p = ws_ID ws \<and> (pm_Team p, user_Username u) \<in> set (wk_members s)"
    using scan_workspace_fields(1,2) [OF r(2)] by (auto simp: permitted_rows_set)
next
  assume "\<forall>u. subj \<noteq> UserSubject u"
  then show "ListWorkspaces env opts s = db_listWorkspaces env opts s"
    using assms by (cases subj) (simp_all add: ListWorkspaces_def)
qed

text \<open>
  C18: a new workspace is read back as it was created, with its connection and its tags, except for the SSH
  key: the insertion leaves that column out, so that the key of the options is lost although the response
  still has it.
\<close>

theorem create_then_get:
  fixes env :: work_env
  assumes "work_inv s" "CreateWorkspace env opts tags s = (Inr (ws, added), s')"
    "hooks_pure (we_beforeCreate env)" "hooks_pure (we_afterCreate env)" "connection_row (ws_ID ws) s = None"
    "Version_set (we_semver_valid env) (we_semver_compare env) zero_version (Version_String (ws_EngineVersion ws)) = Inr (ws_EngineVersion ws)"
  shows "ws_SSHKeyID ws = wc_SSHKeyID opts \<and>
    (\<exists>full. db_getWorkspace env (ws_ID ws) s' = Inr full \<and> Workspace.Workspace.truncate full = ws\<lparr>ws_SSHKeyID := None\<rparr> \<and>
       set (elems (fw_Tags full)) = set added)"
proof -
  from assms(2) obtain s1 s2 s3 s4 where st:
    "NewWorkspace (we_regex_ok env) (we_glob_ok env) (we_GetOrganization env) (we_GetLatest env)
       (we_defaultEngine env) (ve_rnd env) (ve_clk env) opts = Inr ws"
    "run_hooks (we_beforeCreate env) ws s = (Inr (), s1)" "db_createWorkspace ws s1 = (Inr (), s2)"
    "connect_optional env ws s2 = (Inr (), s3)"
    "(if tags = [] then return_op [] else addTags env ws tags) s3 = (Inr added, s4)"
    "run_hooks (we_afterCreate env) ws s4 = (Inr (), s')"
    by (rule CreateWorkspace_steps)
  note fresh = NewWorkspace_fresh [OF st(1)]
  have eq: "s1 = s" "s' = s4" using run_hooks_pure assms(3,4) st(2,6) by blast+
  note created = db_createWorkspace_ok [OF st(3) [unfolded eq]]
  have inv2: "work_inv s2" by (rule db_createWorkspace_inv [OF assms(1) st(3) [unfolded eq]])
  note c = connect_optional_same [OF st(4)]
  have inv3: "work_inv s3" by (rule same_work_inv [OF c inv2])
  have row3: "find_row (ws_ID ws) s3 = Some (new_row ws)" using find_row_created [OF st(3)] find_row_same [OF c] by simp
  have "ws_ID ws \<notin> set (map wr_ID (wk_workspaces s))" using row_constraints_ok(1) [OF created(1)] by simp
  then have "(ws_ID ws, t) \<notin> set (wk_taggings s)" for t
    using taggingE [OF work_invD(2) [OF assms(1)], of "ws_ID ws" t] by (metis image_eqI image_set)
  then have "tag_names (ws_ID ws) s = []" by (simp add: tag_names_def)
  then have none3: "tag_names (ws_ID ws) s3 = []" using c by (simp add: same_work_def tag_names_def created(2))
  have tags4: "set (tag_names (ws_ID ws) s4) = set added" "wk_workspaces s4 = wk_workspaces s3" "wk_vcs s4 = wk_vcs s3" "wk_runs s4 = wk_runs s3"
  proof -
    have "tags_added (ws_ID ws) added s3 s4" if "tags \<noteq> []"
      using that st(5) addTags_ok(2) [OF inv3 row3, of env tags added s4] by simp
    then have "set (tag_names (ws_ID ws) s4) = set added \<and> wk_workspaces s4 = wk_workspaces s3 \<and> wk_vcs s4 = wk_vcs s3 \<and> wk_runs s4 = wk_runs s3"
      using st(5) none3 by (cases "tags = []") (simp_all add: tags_added_def)
    then show "set (tag_names (ws_ID ws) s4) = set added" "wk_workspaces s4 = wk_workspaces s3" "wk_vcs s4 = wk_vcs s3" "wk_runs s4 = wk_runs s3"
      by simp_all
  qed
  have kind: "tfe_kind (ws_ID ws) = WorkspaceKind" using fresh by (simp add: NewTfeID_def kind_defs)
  have "connection_row (ws_ID ws) s2 = None" using assms(5) by (simp add: created(2) connection_row_def)
  then have "scan_connection (new_row ws) (connection_row (ws_ID ws) s3) = ws_Connection ws"
    by (intro connect_optional_connection [OF st(4) kind])
  then have con: "scan_connection (new_row ws) (connection_row (ws_ID ws) s4) = ws_Connection ws"
    by (simp add: connection_row_def tags4(3))
  have engine: "ws_Engine ws \<in> set known_engines" using created(1) by (auto simp: row_constraints_def split: if_splits)
  have mode: "NewMode (mode_kind (ws_Mode ws)) (mode_agentPoolID (ws_Mode ws)) = Inr (ws_Mode ws)"
    using NewWorkspace_mode [OF st(1)] by (auto simp: NewMode_def valid_mode_def split: sum.splits)
  have "\<exists>full. scan_workspace env s4 (new_row ws) = Inr full \<and> Workspace.Workspace.truncate full = ws\<lparr>ws_SSHKeyID := None\<rparr> \<and>
      fw_Tags full = tags_column (ws_ID ws) s4"
    using assms(6) engine mode con fresh
    by (simp add: scan_workspace_def Let_def run_status_def scan_lock_def Workspace.Workspace.truncate_def)
      (simp add: new_row_def)
  moreover have "find_row (ws_ID ws) s4 = Some (new_row ws)" using row3 by (simp add: find_row_def tags4(2))
  moreover have "set (elems (tags_column (ws_ID ws) s4)) = set added" using tags4(1) by (auto simp: tags_column_def)
  ultimately show ?thesis using fresh by (auto simp: eq db_getWorkspace_def collect_one_def)
qed


text \<open>
  the check of the agent pool runs too early on an update. The hook sees the workspace as it was, so a
  workspace without a pool can be given any pool that exists, whether the pool allows the workspace or
  not; and once it has a pool that does not allow it, every update fails, the one that would give it
  another pool included.
\<close>

theorem update_pool_unchecked:
  fixes env :: work_env
  assumes "db_getWorkspace env wid s = Inr ws" "mode_agentPoolID (ws_Mode ws) = None"
    "work_access env s UpdateAction WorkspaceKind (TfeID_ID wid) = Inr subj" "we_beforeUpdate env = [pool_access_hook penv]"
    "find_row wid s = Some row" "current_row_ok s row" "pid \<in> set (map pool_ID (wk_pools s))"
  shows "(\<exists>ws' s'. UpdateWorkspace env wid (use_pool pid) s = (Inr ws', s') \<and> ws_Mode ws' = AgentMode pid \<and>
      map_option wr_AgentPoolID (find_row wid s') = Some (Some pid)) \<and>
    (db_getWorkspace env wid t = Inr ws2 \<and> mode_agentPoolID (ws_Mode ws2) = Some pid \<and> GetAgentPool penv t pid = Inr pool \<and>
       \<not> pool_OrganizationScoped pool \<and> wid \<notin> set (pool_AllowedWorkspaces pool) \<and>
       work_access env t UpdateAction WorkspaceKind (TfeID_ID wid) = Inr subj2 \<longrightarrow>
     fst (UpdateWorkspace env wid opts t) = Inl ErrWorkspaceNotAllowedToUsePool)"
proof (intro conjI impI)
  have scan: "scan_workspace env s row = Inr ws" using assms(1,5) by (simp add: db_getWorkspace_def collect_one_def)
  note f = scan_workspace_fields(1-4) [OF scan] scan_workspace_row [OF scan] find_row_Some [OF assms(5)]
  let ?ws = "(Workspace.Workspace.truncate ws)\<lparr>ws_Mode := AgentMode pid, ws_UpdatedAt := CurrentTimestamp None (we_now env)\<rparr>"
  let ?s' = "replace_row wid (changed_row ?ws row) s"
  have "row_constraints s (filter (\<lambda>o1. wr_ID o1 \<noteq> wr_ID row) (wk_workspaces s)) (changed_row ?ws row) = Inr ()"
    by (rule changed_row_pool [OF assms(6) _ _ _ _ assms(7)]) (use f in simp_all)
  then have wrote: "write_workspace ?ws s = (Inr (), ?s')"
    using write_workspace_eval [of ?ws s row] f assms(5) by simp
  have "run_hooks (we_beforeUpdate env) (Workspace.Workspace.truncate ws) s = (Inr (), s)"
    using assms(2,4) by (simp add: run_hooks_def pool_access_hook_def lift_op_def checkWorkspacePoolAccess_none)
  then have "db_updateWorkspace env wid (update_workspace env (use_pool pid)) s = (Inr (?ws, None), ?s')"
    using wrote by (simp add: db_updateWorkspace_run [OF assms(1)] then_do_def wtx_def wrapping_def lift_op_def return_op_def Workspace_Update_pool)
  then have "UpdateWorkspace env wid (use_pool pid) s = (Inr ?ws, ?s')"
    using assms(3) by (simp add: UpdateWorkspace_def authorized_def then_do_def wtx_def return_op_def)
  moreover have "find_row wid ?s' = Some (changed_row ?ws row)" using find_row_replaced [OF assms(5)] f by simp
  moreover have "wr_AgentPoolID (changed_row ?ws row) = Some pid" by (simp add: changed_row_def AgentMode_def)
  ultimately show "\<exists>ws' s'. UpdateWorkspace env wid (use_pool pid) s = (Inr ws', s') \<and> ws_Mode ws' = AgentMode pid \<and>
      map_option wr_AgentPoolID (find_row wid s') = Some (Some pid)" by simp
next
  assume a: "db_getWorkspace env wid t = Inr ws2 \<and> mode_agentPoolID (ws_Mode ws2) = Some pid \<and> GetAgentPool penv t pid = Inr pool \<and>
       \<not> pool_OrganizationScoped pool \<and> wid \<notin> set (pool_AllowedWorkspaces pool) \<and>
       work_access env t UpdateAction WorkspaceKind (TfeID_ID wid) = Inr subj2"
  obtain row2 where row2: "find_row wid t = Some row2" "scan_workspace env t row2 = Inr ws2"
    using a db_getWorkspace_ok [of env wid t ws2] by blast
  have "ws_ID ws2 = wid" using scan_workspace_fields(1) [OF row2(2)] find_row_Some [OF row2(1)] by simp
  then have hook: "run_hooks (we_beforeUpdate env) (Workspace.Workspace.truncate ws2) t = (Inl ErrWorkspaceNotAllowedToUsePool, t)"
    using a assms(4) by (simp add: run_hooks_def pool_access_hook_def lift_op_def checkWorkspacePoolAccess_def)
  have get: "db_getWorkspace env wid t = Inr ws2" using a by simp
  show "fst (UpdateWorkspace env wid opts t) = Inl ErrWorkspaceNotAllowedToUsePool"
    using a hook by (simp add: UpdateWorkspace_def authorized_def db_updateWorkspace_run [OF get] then_do_def wtx_def)
qed

text \<open>
  The response to a disconnection still shows the connection: \<open>Update\<close> decides that the workspace is to be
  disconnected but leaves its connection in place.
\<close>

lemma disconnect_response_stale:
  fixes env :: work_env
  assumes "UpdateWorkspace env wid (no_update\<lparr>wu_Disconnect := True\<rparr>) s = (Inr ws', s')" "hooks_inv (wk_vcs s)"
    "hooks_pure (we_beforeUpdate env)"
  shows "ws_Connection ws' \<noteq> None \<and> connection_row wid s' = None"
proof -
  from assms(1) obtain ws s1 connect s2 where st: "db_getWorkspace env wid s = Inr ws"
    "run_hooks (we_beforeUpdate env) (Workspace.Workspace.truncate ws) s = (Inr (), s1)"
    "Workspace_Update (we_regex_ok env) (we_glob_ok env) (we_now env) (Workspace.Workspace.truncate ws) (no_update\<lparr>wu_Disconnect := True\<rparr>) = Inr (ws', connect)"
    "write_workspace ws' s1 = (Inr (), s2)"
    "(case connect of None \<Rightarrow> return_op ()
      | Some True \<Rightarrow> (case ws_Connection ws' of None \<Rightarrow> fail_op (Panic ''nil pointer dereference'') | Some c \<Rightarrow> connect_workspace env wid c)
      | Some False \<Rightarrow> disconnect_workspace env wid) s2 = (Inr (), s')"
    by (rule UpdateWorkspace_steps)
  have u: "connect = Some False" "ws_Connection ws' \<noteq> None"
    using st(3) by (auto simp: Workspace_Update_def Update_settings_def Update_triggers_def Update_connection_def
      no_update_def Mode_Update_def Let_def check_triggers_def tags_regex_given_def split: if_splits)
  have "wk_vcs s2 = wk_vcs s" using run_hooks_pure [OF assms(3) st(2)] st(4)
    by (auto simp: replace_row_def elim!: write_workspace_ok)
  moreover have "disconnect_workspace env wid s2 = (Inr (), s')" using st(5) u(1) by simp
  ultimately obtain h' where "Disconnect (hook_env.truncate env) wid (wk_vcs s) = (Inr (), h')" "wk_vcs s' = h'"
    by (auto simp: disconnect_workspace_def on_vcs_def split: if_splits prod.splits)
  with Disconnect_ok(1) [OF assms(2) this(1)] have "connection_row wid s' = None"
    by (auto simp: connection_row_def find_first_None_iff connection_of_def)
  then show ?thesis using u(2) by simp
qed


section \<open>Witnesses\<close>

lemma work_access_organization:
  assumes "ae_ctx env = \<lparr>ctx_subject = Some subj, ctx_skipAuthz = False\<rparr>"
  shows "work_access env s action kind (org_pointer organization) =
    (case Subject_CanAccess subj action kind \<lparr>req_ID = org_pointer organization, req_WorkspacePolicy = None, req_lineage = []\<rparr> of
       Inl e \<Rightarrow> Inl e | Inr ok \<Rightarrow> if ok then Inr subj else Inl ErrAccessNotPermitted)"
proof -
  have "generateRequest (otf_resolvers (work_tables s)) (\<lambda>i. db_GetWorkspacePolicy i s) (org_pointer organization) =
      Some (Inr \<lparr>req_ID = org_pointer organization, req_WorkspacePolicy = None, req_lineage = []\<rparr>)"
    by (simp add: generateRequest_def lineage_no_resolver otf_resolvers_at req_Workspace_def req_ancestor_def)
  then show ?thesis using assms by (simp add: work_access_def check_access_def Authorize_def split: sum.splits)
qed

definition demo_plain_team :: Team where
  "demo_plain_team = \<lparr>team_ID = \<lparr>tfe_kind = TeamKind, tfe_id = ''1''\<rparr>, team_Name = ''devs'', team_ManageWorkspaces = False,
     team_ManageVCS = False, team_ManageModules = False, team_Organization = ''acme''\<rparr>"

text \<open>The team may apply runs of the workspace while it has the role \<open>write\<close>, and not afterwards.\<close>

lemma permission_grants_role_witness:
  "\<exists>s1 s2. SetWorkspacePermission root_work_env demo_wid (team_ID demo_plain_team) WorkspaceWriteRole demo_work = (Inr (), s1) \<and>
     UnsetWorkspacePermission root_work_env demo_wid (team_ID demo_plain_team) s1 = (Inr (), s2) \<and>
     is_ok (work_access (demo_work_env (TeamSubject demo_plain_team)) s1 ApplyAction RunKind (TfeID_ID demo_wid)) \<and>
     \<not> is_ok (work_access (demo_work_env (TeamSubject demo_plain_team)) s2 ApplyAction RunKind (TfeID_ID demo_wid))"
proof -
  let ?t = "team_ID demo_plain_team"
  have "\<exists>s1. db_SetWorkspacePermission demo_wid ?t WorkspaceWriteRole demo_work = (Inr (), s1)"
    by (simp add: db_SetWorkspacePermission_def demo_plain_team_def workspace_roles_def WorkspaceWriteRole_def)
      (simp add: demo_work_def)
  then obtain s1 where s1: "db_SetWorkspacePermission demo_wid ?t WorkspaceWriteRole demo_work = (Inr (), s1)" by blast
  note set = permission_of_set [OF s1]
  have row: "find_row demo_wid s1 = Some (new_row example_workspace)" using set(4) demo_find_row by (simp add: find_row_def)
  have inv: "permissions_inv s1" using work_invD(4) [OF db_SetWorkspacePermission_inv [OF demo_work_inv s1]] .
  obtain pol where pol: "GetWorkspacePolicy demo_wid s1 = Inr pol" using GetWorkspacePolicy_eq [OF inv row] by blast
  have "find_first (\<lambda>p. pm_Workspace p = demo_wid \<and> pm_Team p = ?t) (wk_permissions s1) \<noteq> None"
    using set(1) [of demo_wid ?t] by (simp add: permission_of_def)
  then have "list_ex (\<lambda>p. pm_Workspace p = demo_wid \<and> pm_Team p = ?t) (wk_permissions s1)"
    by (auto simp: find_first_None_iff list_ex_iff)
  then have "\<exists>s2. db_UnsetWorkspacePermission demo_wid ?t s1 = (Inr (), s2)" by (simp add: db_UnsetWorkspacePermission_def)
  then obtain s2 where s2: "db_UnsetWorkspacePermission demo_wid ?t s1 = (Inr (), s2)" by blast
  have root: "work_access root_work_env s1 action kind (TfeID_ID demo_wid) = Inr (Superuser ''root'')" for action kind
    by (simp add: work_access_workspace [OF row demo_wid_kind pol])
  have ops: "SetWorkspacePermission root_work_env demo_wid ?t WorkspaceWriteRole demo_work = (Inr (), s1)"
    "UnsetWorkspacePermission root_work_env demo_wid ?t s1 = (Inr (), s2)"
    using s1 s2 root demo_access by (simp_all add: SetWorkspacePermission_def UnsetWorkspacePermission_def authorized_def)
  have plain: "plain_team demo_plain_team (wr_Organization (new_row example_workspace))"
    by (simp add: plain_team_def demo_plain_team_def Team_IsOwners_def example_workspace_def)
  have "IsAllowed WorkspaceWriteRole ApplyAction RunKind" "\<not> IsAllowed OrganizationMinPermissions ApplyAction RunKind"
    by (simp_all add: role_defs kind_defs)
  with permission_grants_role [OF demo_work_inv ops _ demo_find_row demo_wid_kind plain, of "demo_work_env (TeamSubject demo_plain_team)" ApplyAction RunKind]
  show ?thesis using ops by (intro exI [of _ s1] exI [of _ s2]) simp
qed

text \<open>The token of one organization lists the workspaces of another.\<close>

definition beta_token :: Subject where
  "beta_token = OrganizationTokenSubject \<lparr>ot_ID = \<lparr>tfe_kind = OrganizationTokenKind, tfe_id = ''1''\<rparr>, ot_CreatedAt = 0,
     ot_Organization = ''beta'', ot_Expiry = None\<rparr>"

definition demo_list :: WorkspaceListOptions where
  "demo_list = \<lparr>wl_Search = [], wl_Tags = [], wl_Status = [], wl_Organization = Some ''acme'', wl_Page = \<lparr>PageNumber = 1, PageSize = 10\<rparr>\<rparr>"

lemma beta_denied: "work_access (demo_work_env beta_token) s ListAction WorkspaceKind (org_pointer ''acme'') = Inl ErrAccessNotPermitted"
  by (simp add: work_access_organization [OF demo_work_env_fields(1)] beta_token_def OrganizationToken_CanAccess_def
      other_organization_def req_Organization_def req_ancestor_def)

lemma list_workspaces_scope_witness:
  "\<exists>page ws. ListWorkspaces (demo_work_env beta_token) demo_list (demo_work\<lparr>wk_workspaces := [new_row example_workspace]\<rparr>) = Inr page \<and>
     elems (Items page) = [ws] \<and> ws_Organization ws = ''acme''"
proof -
  let ?s = "demo_work\<lparr>wk_workspaces := [new_row example_workspace]\<rparr>"
  let ?env = "demo_work_env beta_token"
  obtain ws where ws: "scan_workspace ?env ?s (new_row example_workspace) = Inr ws" using scan_demo by blast
  have lim: "GetOffset (wl_Page demo_list) = 0" "GetLimit (wl_Page demo_list) = 10"
    by (simp_all add: demo_list_def GetOffset_def GetLimit_def Normalize_def MaxPageSize_def Let_def i64_def i32_def)
  have "list_filter demo_list ?s (new_row example_workspace)"
    by (simp add: list_filter_def demo_list_def example_workspace_def)
  then have "db_listWorkspaces ?env demo_list ?s = NewPage (Some [ws]) (wl_Page demo_list) (Some 1)"
    using ws lim by (simp add: db_listWorkspaces_def workspaces_page_def)
  then obtain page where page: "db_listWorkspaces ?env demo_list ?s = Inr page" "elems (Items page) = [ws]"
    by (auto simp: NewPage_def Let_def)
  moreover have "ws_Organization ws = ''acme''" using scan_workspace_fields(2) [OF ws] by (simp add: example_workspace_def)
  moreover have "ListWorkspaces ?env demo_list ?s = db_listWorkspaces ?env demo_list ?s"
    using list_workspaces_scope [of demo_list "''acme''" ?env beta_token ?s] beta_denied
    by (simp add: demo_list_def beta_token_def)
  ultimately show ?thesis by auto
qed

text \<open>A workspace that is created with an SSH key has none when it is read.\<close>

definition demo_create :: WorkspaceCreateOptions where
  "demo_create =
     \<lparr>wc_AgentPoolID = None, wc_AllowDestroyPlan = None, wc_AutoApply = None, wc_AutoApplyRunTrigger = None, wc_Description = None,
      wc_ExecutionKind = None, wc_GlobalRemoteState = None, wc_Name = Some ''prod'', wc_QueueAllRuns = None, wc_SpeculativeEnabled = None,
      wc_SourceName = None, wc_SourceURL = None, wc_StructuredRunOutputEnabled = None, wc_Engine = None, wc_EngineVersion = None,
      wc_TriggerPrefixes = None, wc_TriggerPatterns = None, wc_WorkingDirectory = None, wc_Organization = Some ''acme'',
      wc_SSHKeyID = Some \<lparr>tfe_kind = SSHKeyKind, tfe_id = ''1''\<rparr>, wc_AlwaysTrigger = None, wc_ConnectOptions = None\<rparr>"

lemma demo_new_workspace:
  obtains ws where "NewWorkspace (\<lambda>_. True) (\<lambda>_. True) (\<lambda>_. Inr RemoteMode) (\<lambda>_. Inr ''1.9.0'') ''terraform'' (\<lambda>_. 0) (\<lambda>_. 0) demo_create = Inr ws"
    "ws_Organization ws = ''acme''" "ws_Name ws = ''prod''" "ws_Engine ws = ''terraform''" "ws_Mode ws = RemoteMode" "ws_Connection ws = None"
    "ws_EngineVersion ws = \<lparr>Latest = False, semver = ''1.9.0''\<rparr>"
proof -
  have "ValidateName (Some ''prod'') = Inr ()" "ReStringID ''prod''"
    by (simp_all add: ValidateName_def ReStringID_def is_string_id_char_def is_name_char_def)
  then have "\<exists>ws. NewWorkspace (\<lambda>_. True) (\<lambda>_. True) (\<lambda>_. Inr RemoteMode) (\<lambda>_. Inr ''1.9.0'') ''terraform'' (\<lambda>_. 0) (\<lambda>_. 0) demo_create = Inr ws \<and>
    ws_Organization ws = ''acme'' \<and> ws_Name ws = ''prod'' \<and> ws_Engine ws = ''terraform'' \<and> ws_Mode ws = RemoteMode \<and> ws_Connection ws = None \<and>
    ws_EngineVersion ws = \<lparr>Latest = False, semver = ''1.9.0''\<rparr>"
    by (simp add: NewWorkspace_def demo_create_def NewModeWithDefaults_def NewMode_def mode_isValid_def RemoteMode_def Let_def
        setName_def workspace_defaults_def check_triggers_def tags_regex_given_def)
  then show thesis using that by blast
qed

lemma create_then_get_witness:
  "\<exists>ws s' full. CreateWorkspace root_work_env demo_create [] demo_work = (Inr (ws, []), s') \<and> ws_SSHKeyID ws \<noteq> None \<and>
     db_getWorkspace root_work_env (ws_ID ws) s' = Inr full \<and> ws_SSHKeyID full = None"
proof -
  obtain ws where ws: "NewWorkspace (\<lambda>_. True) (\<lambda>_. True) (\<lambda>_. Inr RemoteMode) (\<lambda>_. Inr ''1.9.0'') ''terraform'' (\<lambda>_. 0) (\<lambda>_. 0) demo_create = Inr ws"
    "ws_Organization ws = ''acme''" "ws_Name ws = ''prod''" "ws_Engine ws = ''terraform''" "ws_Mode ws = RemoteMode" "ws_Connection ws = None"
    "ws_EngineVersion ws = \<lparr>Latest = False, semver = ''1.9.0''\<rparr>"
    by (rule demo_new_workspace)
  have i: "ws_ID ws = NewTfeID (\<lambda>_. 0) ''ws''" using NewWorkspace_fresh [OF ws(1)] by simp
  have ne: "ws_ID ws \<noteq> demo_wid" "ws_ID ws \<noteq> demo_wid2"
    by (auto simp: i demo_wid_def demo_wid2_def example_workspace_def NewTfeID_def GenerateRandomStringFromAlphabet_def dest: arg_cong [of _ _ length])
  have rows: "map wr_ID (wk_workspaces demo_work) = [demo_wid, demo_wid2]"
    "map (\<lambda>o1. (wr_Organization o1, wr_Name o1)) (wk_workspaces demo_work) = [(''acme'', ''dev''), (''acme'', ''stage'')]"
    by (simp_all add: demo_work_def demo_wid_def example_workspace_def)
  have "row_constraints demo_work (wk_workspaces demo_work) (new_row ws) = Inr ()"
    using ws(2-5) ne unfolding row_constraints_def rows
    by (simp add: RemoteMode_def demo_tables known_engines_def)
  then have "\<exists>s'. db_createWorkspace ws demo_work = (Inr (), s')" by (simp add: db_createWorkspace_def)
  moreover have "work_access root_work_env demo_work CreateAction WorkspaceKind (org_pointer ''acme'') = Inr (Superuser ''root'')"
    by (simp add: work_access_organization [OF demo_work_env_fields(1)])
  ultimately have "\<exists>s'. CreateWorkspace root_work_env demo_create [] demo_work = (Inr (ws, []), s')"
    using ws(1,2,6) by (auto simp: CreateWorkspace_def authorized_def wtx_def then_do_def run_hooks_def connect_optional_def return_op_def)
  then obtain s' where s': "CreateWorkspace root_work_env demo_create [] demo_work = (Inr (ws, []), s')" by blast
  have pure: "hooks_pure (we_beforeCreate root_work_env)" "hooks_pure (we_afterCreate root_work_env)" by (simp_all add: hooks_pure_def)
  have con: "connection_row (ws_ID ws) demo_work = None" by (simp add: connection_row_def demo_work_def demo_hook_sys_def)
  have "Version_set (we_semver_valid root_work_env) (we_semver_compare root_work_env) zero_version (Version_String (ws_EngineVersion ws)) = Inr (ws_EngineVersion ws)"
    by (simp add: ws(7) Version_set_def Version_String_def zero_version_def)
  from create_then_get [OF demo_work_inv s' pure con this]
  obtain full where full: "db_getWorkspace root_work_env (ws_ID ws) s' = Inr full" "Workspace.Workspace.truncate full = ws\<lparr>ws_SSHKeyID := None\<rparr>"
    "ws_SSHKeyID ws = wc_SSHKeyID demo_create" by blast
  have "ws_SSHKeyID full = None" using arg_cong [OF full(2), of ws_SSHKeyID] by simp
  moreover have "wc_SSHKeyID demo_create \<noteq> None" by (simp add: demo_create_def)
  ultimately show ?thesis using s' full(1,3) by auto
qed

text \<open>A pool that allows no workspace.\<close>

definition closed_pool :: Pool where
  "closed_pool = example_pool\<lparr>pool_AllowedWorkspaces := [], pool_AssignedWorkspaces := []\<rparr>"

definition demo_update_env :: work_env where
  "demo_update_env = root_work_env\<lparr>we_beforeUpdate := [pool_access_hook root_work_env]\<rparr>"

lemma update_pool_unchecked_witness:
  "\<exists>ws' s'. UpdateWorkspace demo_update_env demo_wid (use_pool (pool_ID closed_pool)) (demo_work\<lparr>wk_pools := [closed_pool]\<rparr>) = (Inr ws', s') \<and>
     ws_Mode ws' = AgentMode (pool_ID closed_pool) \<and> \<not> pool_OrganizationScoped closed_pool \<and> pool_AllowedWorkspaces closed_pool = []"
proof -
  let ?s = "demo_work\<lparr>wk_pools := [closed_pool]\<rparr>"
  have env: "work_access demo_update_env ?s UpdateAction WorkspaceKind (TfeID_ID demo_wid) = Inr (Superuser ''root'')"
  proof -
    have "work_access demo_update_env ?s = work_access root_work_env demo_work"
    proof (intro ext)
      have "work_tables ?s = work_tables demo_work" "db_GetWorkspacePolicy i ?s = db_GetWorkspacePolicy i demo_work" for i
        by (simp_all add: work_tables_def db_GetWorkspacePolicy_def find_row_def cong: option.case_cong)
      then show "work_access demo_update_env ?s action kind rid = work_access root_work_env demo_work action kind rid" for action kind rid
        by (simp add: work_access_def demo_update_env_def)
    qed
    then show ?thesis using demo_access by simp
  qed
  have row: "find_row demo_wid ?s = Some (new_row example_workspace)" using demo_find_row by (simp add: find_row_def)
  have "\<exists>ws. scan_workspace demo_update_env ?s (new_row example_workspace) = Inr ws"
    by (simp add: demo_update_env_def scan_workspace_def example_workspace_def Version_String_def Version_set_def known_engines_def
        NewMode_def mode_isValid_def RemoteMode_def Let_def)
  then obtain ws where ws: "scan_workspace demo_update_env ?s (new_row example_workspace) = Inr ws" by blast
  have get: "db_getWorkspace demo_update_env demo_wid ?s = Inr ws" using ws row by (simp add: db_getWorkspace_def collect_one_def)
  have "ws_Mode ws = RemoteMode" using scan_workspace_fields(6) [OF ws]
    by (auto simp: example_workspace_def RemoteMode_def NewMode_def mode_isValid_def)
  then have mode: "mode_agentPoolID (ws_Mode ws) = None" by (simp add: RemoteMode_def)
  have "current_row_ok ?s (new_row example_workspace)"
    by (simp add: current_row_ok_def row_constraints_def demo_work_def demo_wid2_def example_workspace_def RemoteMode_def demo_hook_sys_def known_engines_def)
  moreover have "we_beforeUpdate demo_update_env = [pool_access_hook root_work_env]" by (simp add: demo_update_env_def)
  moreover have "pool_ID closed_pool \<in> set (map pool_ID (wk_pools ?s))" by simp
  ultimately obtain ws' s' where "UpdateWorkspace demo_update_env demo_wid (use_pool (pool_ID closed_pool)) ?s = (Inr ws', s')"
    "ws_Mode ws' = AgentMode (pool_ID closed_pool)"
    using update_pool_unchecked [OF get mode env _ row] by blast
  then show ?thesis by (auto simp: closed_pool_def example_pool_def)
qed

text \<open>A workspace that was created from empty tables.\<close>

lemma workspaces_well_formed_witness:
  "\<exists>s r ws. reachable_work s \<and> r \<in> set (wk_workspaces s) \<and> scan_workspace root_work_env s r = Inr ws \<and> valid_mode (ws_Mode ws)"
proof -
  let ?s = "demo_work\<lparr>wk_workspaces := [], wk_tags := [], wk_taggings := []\<rparr>"
  obtain ws where ws: "NewWorkspace (\<lambda>_. True) (\<lambda>_. True) (\<lambda>_. Inr RemoteMode) (\<lambda>_. Inr ''1.9.0'') ''terraform'' (\<lambda>_. 0) (\<lambda>_. 0) demo_create = Inr ws"
    "ws_Organization ws = ''acme''" "ws_Name ws = ''prod''" "ws_Engine ws = ''terraform''" "ws_Mode ws = RemoteMode" "ws_Connection ws = None"
    "ws_EngineVersion ws = \<lparr>Latest = False, semver = ''1.9.0''\<rparr>"
    by (rule demo_new_workspace)
  have "row_constraints ?s [] (new_row ws) = Inr ()"
    using ws(2-5) by (simp add: row_constraints_def RemoteMode_def demo_tables known_engines_def)
  then have "\<exists>s'. db_createWorkspace ws ?s = (Inr (), s') \<and> new_row ws \<in> set (wk_workspaces s')" by (simp add: db_createWorkspace_def)
  moreover have "work_access root_work_env ?s CreateAction WorkspaceKind (org_pointer ''acme'') = Inr (Superuser ''root'')"
    by (simp add: work_access_organization [OF demo_work_env_fields(1)])
  ultimately have "\<exists>s'. CreateWorkspace root_work_env demo_create [] ?s = (Inr (ws, []), s') \<and> new_row ws \<in> set (wk_workspaces s')"
    using ws(1,2,6) by (auto simp: CreateWorkspace_def authorized_def wtx_def then_do_def run_hooks_def connect_optional_def return_op_def)
  then obtain s' where s': "CreateWorkspace root_work_env demo_create [] ?s = (Inr (ws, []), s')" "new_row ws \<in> set (wk_workspaces s')" by blast
  have "hooks_keep root_work_env" by (simp add: hooks_keep_def)
  then have reach: "reachable_work s'" using reachable_work.create [OF demo_empty] s'(1) by blast
  have "is_ok (Version_set (we_semver_valid root_work_env) (we_semver_compare root_work_env) zero_version (wr_EngineVersion (new_row ws)))"
    by (simp add: ws(7) Version_set_def Version_String_def)
  with workspaces_well_formed [OF reach s'(2), of root_work_env] reach s'(2) show ?thesis
    by (cases "scan_workspace root_work_env s' (new_row ws)") auto
qed

end
