(* ===== verification/AgentService.thy ===== *)
theory AgentService
  imports Allocator ConfigVersions "HOL-Library.Sublist"
begin

text \<open>
  Runners, agent pools and agent tokens in the database (\<open>runner/db.go\<close>), the service over them
  (\<open>runner/service.go\<close>, \<open>runner/tokens.go\<close>), and how a request with a bearer token becomes a subject
  (\<open>tokens/registry.go\<close>, \<open>tokens/tokens.go\<close>, \<open>tokens/jwt_authenticator.go\<close>, \<open>authn/auth.go\<close>).
\<close>

section \<open>Tables\<close>

record pool_row =
  plr_ID :: TfeID
  plr_Name :: string
  plr_CreatedAt :: gtime
  plr_Organization :: string
  plr_OrganizationScoped :: bool

record runner_row =
  rr_ID :: TfeID
  rr_Name :: string
  rr_Version :: string
  rr_MaxJobs :: int
  rr_IPAddress :: string
  rr_LastPingAt :: gtime
  rr_LastStatusAt :: gtime
  rr_Status :: "RunnerStatus option"
  rr_ExecutorKind :: ExecutorKind
  rr_AgentPoolID :: "TfeID option"

record AgentToken =
  at_ID :: TfeID
  at_CreatedAt :: gtime
  at_AgentPoolID :: TfeID
  at_Description :: string

text \<open>Of a workspace its name, organization and agent pool.\<close>

record agent_ws =
  aw_ID :: TfeID
  aw_Name :: string
  aw_Organization :: string
  aw_AgentPoolID :: "TfeID option"

text \<open>
  The allowed workspaces are pairs of a pool and a workspace. An organization refers to its default
  pool. Jobs are as the queries join them, with the columns of their workspace.
\<close>

record agent_db =
  ad_organizations :: "(string \<times> TfeID option) list"
  ad_pools :: "pool_row list"
  ad_allowed :: "(TfeID \<times> TfeID) list"
  ad_tokens :: "AgentToken list"
  ad_runners :: "runner_row list"
  ad_workspaces :: "agent_ws list"
  ad_jobs :: "Job list"

text \<open>
  \<open>ge_NewToken\<close> signs a token for a subject, \<open>ge_ParseToken\<close> is the verification of a signed token, which
  gives the subject it was signed for. \<open>ge_outbound\<close> is the result of \<open>GetOutboundIP\<close>, and
  \<open>ge_GenerateToken\<close> signs a token of OpenID Connect, when there is a private key to do so.
\<close>

record agent_env = access_env +
  ge_rnd :: "nat \<Rightarrow> nat"
  ge_now :: gtime
  ge_outbound :: "string result"
  ge_NewToken :: "TfeID \<Rightarrow> gtime option \<Rightarrow> string result"
  ge_ParseToken :: "string \<Rightarrow> string result"
  ge_issuer :: string
  ge_GenerateToken :: "(string \<Rightarrow> string \<Rightarrow> TfeID \<Rightarrow> string \<Rightarrow> TfeID \<Rightarrow> PhaseType \<Rightarrow> string \<Rightarrow> string result) option"

section \<open>Pools in the database (runner/db.go)\<close>

definition pool_of :: "agent_db \<Rightarrow> pool_row \<Rightarrow> Pool" where
  "pool_of db r =
     \<lparr>pool_ID = plr_ID r, pool_Name = plr_Name r, pool_CreatedAt = plr_CreatedAt r,
      pool_Organization = plr_Organization r, pool_OrganizationScoped = plr_OrganizationScoped r,
      pool_AllowedWorkspaces = map snd (filter (\<lambda>(p, w). p = plr_ID r) (ad_allowed db)),
      pool_AssignedWorkspaces = map aw_ID (filter (\<lambda>w. aw_AgentPoolID w = Some (plr_ID r)) (ad_workspaces db))\<rparr>"

definition find_pool :: "TfeID \<Rightarrow> agent_db \<Rightarrow> pool_row option" where
  "find_pool pid db = find_first (\<lambda>r. plr_ID r = pid) (ad_pools db)"

definition getPool :: "TfeID \<Rightarrow> agent_db \<Rightarrow> Pool result" where
  "getPool pid db =
     (case find_pool pid db of None \<Rightarrow> Inl ErrResourceNotFound | Some r \<Rightarrow> Inr (pool_of db r))"

definition getPoolByTokenID :: "TfeID \<Rightarrow> agent_db \<Rightarrow> Pool result" where
  "getPoolByTokenID tokenID db =
     (case find_first (\<lambda>r. list_ex (\<lambda>t. at_ID t = tokenID \<and> at_AgentPoolID t = plr_ID r) (ad_tokens db)) (ad_pools db) of
        None \<Rightarrow> Inl ErrResourceNotFound | Some r \<Rightarrow> Inr (pool_of db r))"

fun insert_allowed :: "TfeID \<Rightarrow> TfeID list \<Rightarrow> agent_db \<Rightarrow> agent_db result" where
  "insert_allowed pid [] db = Inr db"
| "insert_allowed pid (w # ws) db =
     (if (pid, w) \<in> set (ad_allowed db) then Inl ErrResourceAlreadyExists
      else if pid \<notin> set (map plr_ID (ad_pools db)) \<or> w \<notin> set (map aw_ID (ad_workspaces db)) then Inl fk_error
      else insert_allowed pid ws (db\<lparr>ad_allowed := ad_allowed db @ [(pid, w)]\<rparr>))"

definition createPool :: "Pool \<Rightarrow> agent_db \<Rightarrow> agent_db result" where
  "createPool p db =
     (if pool_ID p \<in> set (map plr_ID (ad_pools db)) \<or>
         (pool_Organization p, pool_Name p) \<in> set (map (\<lambda>r. (plr_Organization r, plr_Name r)) (ad_pools db))
      then Inl ErrResourceAlreadyExists
      else if pool_Organization p \<notin> set (map fst (ad_organizations db)) then Inl fk_error
      else insert_allowed (pool_ID p) (pool_AllowedWorkspaces p)
             (db\<lparr>ad_pools := ad_pools db @
                   [\<lparr>plr_ID = pool_ID p, plr_Name = pool_Name p, plr_CreatedAt = pool_CreatedAt p,
                     plr_Organization = pool_Organization p, plr_OrganizationScoped = pool_OrganizationScoped p\<rparr>]\<rparr>))"

definition write_pool :: "Pool \<Rightarrow> pool_row \<Rightarrow> pool_row" where
  "write_pool p q =
     (if plr_ID q = pool_ID p then q\<lparr>plr_Name := pool_Name p, plr_OrganizationScoped := pool_OrganizationScoped p\<rparr> else q)"

definition updatePool :: "Pool \<Rightarrow> agent_db \<Rightarrow> agent_db result" where
  "updatePool p db =
     (case find_pool (pool_ID p) db of
        None \<Rightarrow> Inl ErrResourceNotFound
      | Some r \<Rightarrow>
          if list_ex (\<lambda>q. plr_ID q \<noteq> pool_ID p \<and> plr_Organization q = plr_Organization r \<and> plr_Name q = pool_Name p) (ad_pools db)
          then Inl ErrResourceAlreadyExists
          else Inr (db\<lparr>ad_pools := map (write_pool p) (ad_pools db)\<rparr>))"

fun delete_allowed :: "TfeID \<Rightarrow> TfeID list \<Rightarrow> agent_db \<Rightarrow> agent_db result" where
  "delete_allowed pid [] db = Inr db"
| "delete_allowed pid (w # ws) db =
     (if (pid, w) \<notin> set (ad_allowed db) then Inl ErrResourceNotFound
      else delete_allowed pid ws (db\<lparr>ad_allowed := filter (\<lambda>a. a \<noteq> (pid, w)) (ad_allowed db)\<rparr>))"

text \<open>
  The foreign keys of workspaces and organizations forbid the deletion of a pool that they refer to;
  those of allowed workspaces, tokens and runners cascade, and with the runners go their jobs.
\<close>

definition delete_runners :: "(runner_row \<Rightarrow> bool) \<Rightarrow> agent_db \<Rightarrow> agent_db" where
  "delete_runners P db =
     db\<lparr>ad_runners := filter (\<lambda>r. \<not> P r) (ad_runners db),
        ad_jobs := filter (\<lambda>j. \<not> (\<exists>r \<in> set (ad_runners db). P r \<and> job_RunnerID j = Some (rr_ID r))) (ad_jobs db)\<rparr>"

definition deleteAgentPool :: "TfeID \<Rightarrow> agent_db \<Rightarrow> agent_db result" where
  "deleteAgentPool pid db =
     (if find_pool pid db = None then Inl ErrResourceNotFound
      else if list_ex (\<lambda>w. aw_AgentPoolID w = Some pid) (ad_workspaces db) \<or>
              list_ex (\<lambda>org. snd org = Some pid) (ad_organizations db) then Inl fk_error
      else Inr ((delete_runners (\<lambda>r. rr_AgentPoolID r = Some pid) db)
             \<lparr>ad_pools := filter (\<lambda>r. plr_ID r \<noteq> pid) (ad_pools db),
              ad_allowed := filter (\<lambda>a. fst a \<noteq> pid) (ad_allowed db),
              ad_tokens := filter (\<lambda>t. at_AgentPoolID t \<noteq> pid) (ad_tokens db)\<rparr>))"

record ListPoolOptions =
  lpo_NameSubstring :: "string option"
  lpo_AllowedWorkspaceName :: "string option"
  lpo_AllowedWorkspaceID :: "TfeID option"

text \<open>
  The query joins the allowed workspaces, and groups by the pool: a pool that is not scoped to its
  organization is selected when one of its allowed workspaces satisfies both conditions.
\<close>

definition pool_selected :: "string \<Rightarrow> ListPoolOptions \<Rightarrow> agent_db \<Rightarrow> pool_row \<Rightarrow> bool" where
  "pool_selected org opts db r \<longleftrightarrow>
     plr_Organization r = org \<and>
     (case lpo_NameSubstring opts of None \<Rightarrow> True | Some s \<Rightarrow> sql_like (''%'' @ s @ ''%'') (plr_Name r)) \<and>
     list_ex (\<lambda>joined.
       (case lpo_AllowedWorkspaceName opts of None \<Rightarrow> True
        | Some n \<Rightarrow> plr_OrganizationScoped r \<or> map_option aw_Name joined = Some n) \<and>
       (case lpo_AllowedWorkspaceID opts of None \<Rightarrow> True
        | Some w \<Rightarrow> plr_OrganizationScoped r \<or> map_option aw_ID joined = Some w))
       (case filter (\<lambda>w. (plr_ID r, aw_ID w) \<in> set (ad_allowed db)) (ad_workspaces db) of
          [] \<Rightarrow> [None] | ws \<Rightarrow> map Some ws)"

definition listPoolsByOrganization :: "string \<Rightarrow> ListPoolOptions \<Rightarrow> agent_db \<Rightarrow> Pool list" where
  "listPoolsByOrganization org opts db =
     map (pool_of db) (sort_key (\<lambda>r. - plr_CreatedAt r) (filter (pool_selected org opts db) (ad_pools db)))"

section \<open>Runners and tokens in the database (runner/db.go)\<close>

text \<open>The pool of a runner is read from the columns of its row alone, without workspaces.\<close>

definition scan_runner :: "agent_db \<Rightarrow> runner_row \<Rightarrow> RunnerMeta" where
  "scan_runner db r =
     \<lparr>rn_ID = rr_ID r, rn_Name = rr_Name r, rn_Version = rr_Version r, rn_Status = rr_Status r,
      rn_MaxJobs = rr_MaxJobs r, rn_CurrentJobs = db_current_jobs (ad_jobs db) (rr_ID r),
      rn_LastPingAt = rr_LastPingAt r, rn_LastStatusAt = rr_LastStatusAt r, rn_IPAddress = rr_IPAddress r,
      rn_ExecutorKind = rr_ExecutorKind r,
      rn_AgentPool = map_option (\<lambda>p. (pool_of db p)\<lparr>pool_AllowedWorkspaces := [], pool_AssignedWorkspaces := []\<rparr>)
        (case rr_AgentPoolID r of None \<Rightarrow> None | Some pid \<Rightarrow> find_pool pid db)\<rparr>"

definition find_runner :: "TfeID \<Rightarrow> agent_db \<Rightarrow> runner_row option" where
  "find_runner rid db = find_first (\<lambda>r. rr_ID r = rid) (ad_runners db)"

definition getRunner :: "TfeID \<Rightarrow> agent_db \<Rightarrow> RunnerMeta result" where
  "getRunner rid db =
     (case find_runner rid db of None \<Rightarrow> Inl ErrResourceNotFound | Some r \<Rightarrow> Inr (scan_runner db r))"

definition createRunner :: "RunnerMeta \<Rightarrow> agent_db \<Rightarrow> agent_db result" where
  "createRunner m db =
     (if rn_ID m \<in> set (map rr_ID (ad_runners db)) then Inl ErrResourceAlreadyExists
      else if (case rn_AgentPool m of None \<Rightarrow> False | Some p \<Rightarrow> pool_ID p \<notin> set (map plr_ID (ad_pools db)))
      then Inl fk_error
      else Inr (db\<lparr>ad_runners := ad_runners db @
             [\<lparr>rr_ID = rn_ID m, rr_Name = rn_Name m, rr_Version = rn_Version m, rr_MaxJobs = rn_MaxJobs m,
               rr_IPAddress = rn_IPAddress m, rr_LastPingAt = rn_LastPingAt m, rr_LastStatusAt = rn_LastStatusAt m,
               rr_Status = rn_Status m, rr_ExecutorKind = rn_ExecutorKind m,
               rr_AgentPoolID = map_option pool_ID (rn_AgentPool m)\<rparr>]\<rparr>))"

definition updateRunner :: "TfeID \<Rightarrow> (RunnerMeta \<Rightarrow> RunnerMeta result) \<Rightarrow> agent_db \<Rightarrow> agent_db result" where
  "updateRunner rid fn db =
     (case getRunner rid db of
        Inl e \<Rightarrow> Inl (Wrap ''finding row for update'' e)
      | Inr m \<Rightarrow>
          (case fn m of
             Inl e \<Rightarrow> Inl e
           | Inr m' \<Rightarrow>
               Inr (db\<lparr>ad_runners := map (\<lambda>r. if rr_ID r = rid
                 then r\<lparr>rr_Status := rn_Status m', rr_LastPingAt := rn_LastPingAt m', rr_LastStatusAt := rn_LastStatusAt m'\<rparr>
                 else r) (ad_runners db)\<rparr>)))"

record ListRunnerOptions =
  lro_Organization :: "string option"
  lro_PoolID :: "TfeID option"
  lro_HideServerRunners :: bool

definition runner_selected :: "ListRunnerOptions \<Rightarrow> agent_db \<Rightarrow> runner_row \<Rightarrow> bool" where
  "runner_selected opts db r \<longleftrightarrow>
     (let pool = (case rr_AgentPoolID r of None \<Rightarrow> None | Some pid \<Rightarrow> find_pool pid db) in
      (lro_HideServerRunners opts \<longrightarrow> pool \<noteq> None) \<and>
      (case lro_Organization opts of None \<Rightarrow> True
       | Some org \<Rightarrow> (case pool of None \<Rightarrow> True | Some p \<Rightarrow> plr_Organization p = org)) \<and>
      (case lro_PoolID opts of None \<Rightarrow> True | Some pid \<Rightarrow> map_option plr_ID pool = Some pid))"

definition db_listRunners :: "ListRunnerOptions \<Rightarrow> agent_db \<Rightarrow> RunnerMeta list" where
  "db_listRunners opts db =
     map (scan_runner db) (sort_key (\<lambda>r. - rr_LastPingAt r) (filter (runner_selected opts db) (ad_runners db)))"

definition db_deleteRunner :: "TfeID \<Rightarrow> agent_db \<Rightarrow> agent_db result" where
  "db_deleteRunner rid db =
     (if rid \<notin> set (map rr_ID (ad_runners db)) then Inl ErrResourceNotFound
      else Inr (delete_runners (\<lambda>r. rr_ID r = rid) db))"

definition listAllocatedJobs :: "TfeID \<Rightarrow> agent_db \<Rightarrow> Job list" where
  "listAllocatedJobs rid db =
     filter (\<lambda>j. job_RunnerID j = Some rid \<and> job_Status j = JobAllocated) (ad_jobs db)"

definition createAgentToken :: "AgentToken \<Rightarrow> agent_db \<Rightarrow> agent_db result" where
  "createAgentToken t db =
     (if at_ID t \<in> set (map at_ID (ad_tokens db)) then Inl ErrResourceAlreadyExists
      else if at_AgentPoolID t \<notin> set (map plr_ID (ad_pools db)) then Inl fk_error
      else Inr (db\<lparr>ad_tokens := ad_tokens db @ [t]\<rparr>))"

definition getAgentTokenByID :: "TfeID \<Rightarrow> agent_db \<Rightarrow> AgentToken result" where
  "getAgentTokenByID tid db =
     (case find_first (\<lambda>t. at_ID t = tid) (ad_tokens db) of None \<Rightarrow> Inl ErrResourceNotFound | Some t \<Rightarrow> Inr t)"

definition listAgentTokens :: "TfeID \<Rightarrow> agent_db \<Rightarrow> AgentToken list" where
  "listAgentTokens pid db =
     sort_key (\<lambda>t. - at_CreatedAt t) (filter (\<lambda>t. at_AgentPoolID t = pid) (ad_tokens db))"

definition deleteAgentToken :: "TfeID \<Rightarrow> agent_db \<Rightarrow> agent_db result" where
  "deleteAgentToken tid db =
     (if tid \<notin> set (map at_ID (ad_tokens db)) then Inl ErrResourceNotFound
      else Inr (db\<lparr>ad_tokens := filter (\<lambda>t. at_ID t \<noteq> tid) (ad_tokens db)\<rparr>))"

section \<open>Runners (runner/service.go)\<close>

definition agent_tables :: "agent_db \<Rightarrow> parent_tables" where
  "agent_tables db = no_tables\<lparr>pt_workspace :=
     (\<lambda>wid. map_option aw_Organization (find_first (\<lambda>w. aw_ID w = wid) (ad_workspaces db)))\<rparr>"

definition agent_access :: "agent_env \<Rightarrow> Action \<Rightarrow> Kind \<Rightarrow> ID \<Rightarrow> agent_db \<Rightarrow> Subject result" where
  "agent_access env action kind rid db =
     check_access (agent_tables db) (access_env.truncate env) action kind rid"

abbreviation org_pointer_of :: "string \<Rightarrow> ID" where
  "org_pointer_of org \<equiv> Pointer_ID (OrganizationName_ID org)"

definition subject_from_context :: "agent_env \<Rightarrow> Subject result" where
  "subject_from_context env =
     (case ctx_subject (ae_ctx env) of None \<Rightarrow> Inl (Errorf ''no subject in context'') | Some subj \<Rightarrow> Inr subj)"

definition Register :: "agent_env \<Rightarrow> RegisterRunnerOptions \<Rightarrow> agent_db \<Rightarrow> (agent_db \<times> RunnerMeta) result" where
  "Register env opts db =
     (case subject_from_context env of Inl e \<Rightarrow> Inl e | Inr subj \<Rightarrow>
     (case subj of
        UnregisteredSubject pool \<Rightarrow>
          (case register (ge_rnd env) (ge_now env) (ge_outbound env) pool opts of Inl e \<Rightarrow> Inl e | Inr m \<Rightarrow>
          (case createRunner m db of Inl e \<Rightarrow> Inl e | Inr db1 \<Rightarrow> Inr (db1, m)))
      | _ \<Rightarrow> Inl ErrAccessNotPermitted))"

text \<open>Only the manager and the runner itself may update the status of a runner.\<close>

definition status_ping :: "TfeID \<Rightarrow> Subject \<Rightarrow> bool result" where
  "status_ping rid subj =
     (case subj of
        ManagerSubject \<Rightarrow> Inr False
      | RunnerSubject m \<Rightarrow> if rn_ID m \<noteq> rid then Inl ErrAccessNotPermitted else Inr True
      | _ \<Rightarrow> Inl ErrAccessNotPermitted)"

definition UpdateRunnerStatus :: "agent_env \<Rightarrow> TfeID \<Rightarrow> RunnerStatus \<Rightarrow> agent_db \<Rightarrow> agent_db result" where
  "UpdateRunnerStatus env rid to db =
     (case subject_from_context env of Inl e \<Rightarrow> Inl e | Inr subj \<Rightarrow>
     (case status_ping rid subj of Inl e \<Rightarrow> Inl e | Inr ping \<Rightarrow>
        updateRunner rid (rn_setStatus (ge_now env) to ping) db))"

definition ListRunners :: "agent_env \<Rightarrow> ListRunnerOptions \<Rightarrow> agent_db \<Rightarrow> RunnerMeta list result" where
  "ListRunners env opts db =
     (let scope = (case lro_PoolID opts of Some pid \<Rightarrow> Pointer_ID (TfeID_ID pid)
        | None \<Rightarrow> (case lro_Organization opts of Some org \<Rightarrow> org_pointer_of org | None \<Rightarrow> SiteID)) in
      case agent_access env ListAction RunnerKind scope db of Inl e \<Rightarrow> Inl e | Inr _ \<Rightarrow> Inr (db_listRunners opts db))"

text \<open>The caller is not authorized, nor is the caller of \<open>GetJob\<close>.\<close>

definition DeleteRunner :: "TfeID \<Rightarrow> agent_db \<Rightarrow> agent_db result" where
  "DeleteRunner rid db = db_deleteRunner rid db"

definition GetJob :: "TfeID \<Rightarrow> agent_db \<Rightarrow> Job result" where
  "GetJob jid db = db_getJob (ad_jobs db) jid"

section \<open>Waiting for jobs (runner/service.go)\<close>

definition RunnerFromContext :: "agent_env \<Rightarrow> RunnerMeta result" where
  "RunnerFromContext env =
     (case subject_from_context env of Inl e \<Rightarrow> Inl e | Inr subj \<Rightarrow>
     (case subj of RunnerSubject m \<Rightarrow> Inr m | _ \<Rightarrow> Inl ErrAccessNotPermitted))"

definition authorizeRunner :: "agent_env \<Rightarrow> TfeID \<Rightarrow> unit result" where
  "authorizeRunner env rid =
     (case RunnerFromContext env of Inl e \<Rightarrow> Inl e | Inr m \<Rightarrow>
        if rid \<noteq> rn_ID m then Inl ErrAccessNotPermitted else Inr ())"

record JobEvent =
  jv_ID :: TfeID
  jv_Status :: JobStatus
  jv_RunnerID :: "TfeID option"
  jv_Signaled :: "bool option"

definition awaited :: "TfeID \<Rightarrow> JobEvent \<Rightarrow> bool" where
  "awaited rid ev \<longleftrightarrow> jv_RunnerID ev = Some rid \<and>
     (jv_Status ev = JobAllocated \<or> jv_Status ev = JobRunning \<and> jv_Signaled ev \<noteq> None)"

text \<open>
  The events that arrive after the subscription, each with the database at the time when it is handled;
  the result is \<open>[]\<close> (a nil slice) when the subscription ends.
\<close>

fun await_events :: "TfeID \<Rightarrow> (JobEvent \<times> agent_db) list \<Rightarrow> Job list result" where
  "await_events rid [] = Inr []"
| "await_events rid ((ev, db) # evs) =
     (if awaited rid ev
      then (case GetJob (jv_ID ev) db of Inl e \<Rightarrow> Inl (Wrap ''retrieving job'' e) | Inr j \<Rightarrow> Inr [j])
      else await_events rid evs)"

definition AwaitAllocatedJobs ::
  "agent_env \<Rightarrow> TfeID \<Rightarrow> agent_db \<Rightarrow> (JobEvent \<times> agent_db) list \<Rightarrow> Job list result" where
  "AwaitAllocatedJobs env rid db events =
     (case authorizeRunner env rid of
        Inl e \<Rightarrow> Inl ErrAccessNotPermitted
      | Inr _ \<Rightarrow> (case listAllocatedJobs rid db of [] \<Rightarrow> await_events rid events | js \<Rightarrow> Inr js))"

definition GenerateDynamicCredentialsToken :: "agent_env \<Rightarrow> TfeID \<Rightarrow> string \<Rightarrow> agent_db \<Rightarrow> string result" where
  "GenerateDynamicCredentialsToken env jid audience db =
     (case ge_GenerateToken env of
        None \<Rightarrow> Inl (Errorf ''no private key has been configured'')
      | Some gen \<Rightarrow>
     (case GetJob jid db of Inl e \<Rightarrow> Inl e | Inr job \<Rightarrow>
     (case agent_access env GetAction WorkspaceKind (TfeID_ID (job_WorkspaceID job)) db of Inl e \<Rightarrow> Inl e | Inr _ \<Rightarrow>
     (case find_first (\<lambda>w. aw_ID w = job_WorkspaceID job) (ad_workspaces db) of
        None \<Rightarrow> Inl ErrResourceNotFound
      | Some w \<Rightarrow> gen (ge_issuer env) (job_Organization job) (job_WorkspaceID job) (aw_Name w) (job_RunID job)
                    (job_Phase job) audience))))"

section \<open>Agent tokens (runner/tokens.go, runner/service.go)\<close>

definition defaultJobTokenExpiry :: gduration where
  "defaultJobTokenExpiry = 60 * Minute"

definition createJobToken :: "agent_env \<Rightarrow> TfeID \<Rightarrow> string result" where
  "createJobToken env jid = ge_NewToken env jid (Some (CurrentTimestamp None (ge_now env) + defaultJobTokenExpiry))"

definition NewAgentToken :: "agent_env \<Rightarrow> TfeID \<Rightarrow> string \<Rightarrow> (AgentToken \<times> string) result" where
  "NewAgentToken env poolID description =
     (if description = [] then Inl (Errorf ''description cannot be an empty string'')
      else let t = \<lparr>at_ID = NewTfeID (ge_rnd env) AgentTokenKind, at_CreatedAt = CurrentTimestamp None (ge_now env),
                    at_AgentPoolID = poolID, at_Description = description\<rparr>
           in case ge_NewToken env (at_ID t) None of Inl e \<Rightarrow> Inl e | Inr token \<Rightarrow> Inr (t, token))"

definition CreateAgentToken :: "agent_env \<Rightarrow> TfeID \<Rightarrow> string \<Rightarrow> agent_db \<Rightarrow> (agent_db \<times> AgentToken \<times> string) result" where
  "CreateAgentToken env poolID description db =
     (case getPool poolID db of Inl e \<Rightarrow> Inl e | Inr pool \<Rightarrow>
     (case agent_access env CreateAction AgentTokenKind (org_pointer_of (pool_Organization pool)) db of Inl e \<Rightarrow> Inl e | Inr _ \<Rightarrow>
     (case NewAgentToken env poolID description of Inl e \<Rightarrow> Inl e | Inr (t, token) \<Rightarrow>
     (case createAgentToken t db of Inl e \<Rightarrow> Inl e | Inr db1 \<Rightarrow> Inr (db1, t, token)))))"

definition token_access :: "agent_env \<Rightarrow> Action \<Rightarrow> TfeID \<Rightarrow> agent_db \<Rightarrow> AgentToken result" where
  "token_access env action tokenID db =
     (case getAgentTokenByID tokenID db of Inl e \<Rightarrow> Inl e | Inr t \<Rightarrow>
     (case getPool (at_AgentPoolID t) db of Inl e \<Rightarrow> Inl e | Inr pool \<Rightarrow>
     (case agent_access env action AgentTokenKind (org_pointer_of (pool_Organization pool)) db of
        Inl e \<Rightarrow> Inl e | Inr _ \<Rightarrow> Inr t)))"

definition GetAgentToken :: "agent_env \<Rightarrow> TfeID \<Rightarrow> agent_db \<Rightarrow> AgentToken result" where
  "GetAgentToken env tokenID db = token_access env GetAction tokenID db"

definition ListAgentTokens :: "agent_env \<Rightarrow> TfeID \<Rightarrow> agent_db \<Rightarrow> AgentToken list result" where
  "ListAgentTokens env poolID db =
     (case getPool poolID db of Inl e \<Rightarrow> Inl e | Inr pool \<Rightarrow>
     (case agent_access env ListAction AgentTokenKind (org_pointer_of (pool_Organization pool)) db of Inl e \<Rightarrow> Inl e | Inr _ \<Rightarrow>
        Inr (listAgentTokens poolID db)))"

definition DeleteAgentToken :: "agent_env \<Rightarrow> TfeID \<Rightarrow> agent_db \<Rightarrow> (agent_db \<times> AgentToken) result" where
  "DeleteAgentToken env tokenID db =
     (case token_access env DeleteAction tokenID db of Inl e \<Rightarrow> Inl e | Inr t \<Rightarrow>
     (case deleteAgentToken tokenID db of Inl e \<Rightarrow> Inl e | Inr db1 \<Rightarrow> Inr (db1, t)))"

section \<open>Agent pools (runner/service.go)\<close>

definition CreateAgentPool :: "agent_env \<Rightarrow> CreateAgentPoolOptions \<Rightarrow> agent_db \<Rightarrow> (agent_db \<times> Pool) result" where
  "CreateAgentPool env opts db =
     (case agent_access env CreateAction AgentPoolKind (org_pointer_of (cpo_Organization opts)) db of Inl e \<Rightarrow> Inl e | Inr _ \<Rightarrow>
     (case newPool (ge_rnd env) (ge_now env) opts of Inl e \<Rightarrow> Inl e | Inr pool \<Rightarrow>
     (case createPool pool db of Inl e \<Rightarrow> Inl e | Inr db1 \<Rightarrow> Inr (db1, pool))))"

definition UpdateAgentPool :: "agent_env \<Rightarrow> TfeID \<Rightarrow> UpdatePoolOptions \<Rightarrow> agent_db \<Rightarrow> (agent_db \<times> Pool) result" where
  "UpdateAgentPool env poolID opts db =
     (case getPool poolID db of Inl e \<Rightarrow> Inl e | Inr before \<Rightarrow>
     (case agent_access env UpdateAction AgentPoolKind (org_pointer_of (pool_Organization before)) db of Inl e \<Rightarrow> Inl e | Inr _ \<Rightarrow>
     (case Pool_update opts before of Inl e \<Rightarrow> Inl e | Inr after \<Rightarrow>
     (case updatePool after db of Inl e \<Rightarrow> Inl e | Inr db1 \<Rightarrow>
     (case insert_allowed poolID (Diff (pool_AllowedWorkspaces after) (pool_AllowedWorkspaces before)) db1 of Inl e \<Rightarrow> Inl e | Inr db2 \<Rightarrow>
     (case delete_allowed poolID (Diff (pool_AllowedWorkspaces before) (pool_AllowedWorkspaces after)) db2 of Inl e \<Rightarrow> Inl e | Inr db3 \<Rightarrow>
        Inr (db3, after)))))))"

definition get_agent_pool :: "agent_env \<Rightarrow> agent_db \<Rightarrow> TfeID \<Rightarrow> Pool result" where
  "get_agent_pool env db poolID =
     (case getPool poolID db of Inl e \<Rightarrow> Inl e | Inr pool \<Rightarrow>
     (case agent_access env GetAction AgentPoolKind (org_pointer_of (pool_Organization pool)) db of Inl e \<Rightarrow> Inl e | Inr _ \<Rightarrow> Inr pool))"

definition ListAgentPoolsByOrganization :: "agent_env \<Rightarrow> string \<Rightarrow> ListPoolOptions \<Rightarrow> agent_db \<Rightarrow> Pool list result" where
  "ListAgentPoolsByOrganization env org opts db =
     (case agent_access env ListAction AgentPoolKind (OrganizationName_ID org) db of Inl e \<Rightarrow> Inl e | Inr _ \<Rightarrow>
        Inr (listPoolsByOrganization org opts db))"

definition DeleteAgentPool :: "agent_env \<Rightarrow> TfeID \<Rightarrow> agent_db \<Rightarrow> (agent_db \<times> Pool) result" where
  "DeleteAgentPool env poolID db =
     (case getPool poolID db of Inl e \<Rightarrow> Inl e | Inr pool \<Rightarrow>
     (case agent_access env DeleteAction AgentPoolKind (org_pointer_of (pool_Organization pool)) db of Inl e \<Rightarrow> Inl e | Inr _ \<Rightarrow>
        if pool_AssignedWorkspaces pool \<noteq> [] then Inl ErrCannotDeletePoolReferencedByWorkspaces
        else (case deleteAgentPool (pool_ID pool) db of Inl e \<Rightarrow> Inl e | Inr db1 \<Rightarrow> Inr (db1, pool))))"

section \<open>Authentication (tokens/registry.go, tokens/tokens.go, authn/auth.go)\<close>

text \<open>\<open>strings.Split\<close> with any separator that is not empty.\<close>

function Split :: "string \<Rightarrow> string \<Rightarrow> string list" where
  "Split sep s =
     (case s of
        [] \<Rightarrow> [[]]
      | c # cs \<Rightarrow>
          if sep \<noteq> [] \<and> prefix sep s then [] # Split sep (drop (length sep) s)
          else (case Split sep cs of [] \<Rightarrow> [[c]] | p # ps \<Rightarrow> (c # p) # ps))"
  by pat_completeness auto
termination
  by (relation "measure (length \<circ> snd)") (auto simp: Suc_le_eq)

declare Split.simps [simp del]

text \<open>The request: its path, its \<open>Authorization\<close> header and its \<open>otf-agent-id\<close> header, empty when absent.\<close>

record api_request =
  rq_Path :: string
  rq_Authorization :: string
  rq_RunnerID :: string

definition ParseBearerToken :: "api_request \<Rightarrow> string result" where
  "ParseBearerToken req =
     (if rq_Authorization req = [] then Inr []
      else case Split ''Bearer '' (rq_Authorization req) of
             [_, token] \<Rightarrow> Inr token
           | _ \<Rightarrow> Inl (Errorf ''malformed bearer token''))"

text \<open>The registry maps a kind of identifier to the function that finds the subject; a later entry replaces an earlier one.\<close>

type_synonym token_registry = "(Kind \<times> (TfeID \<Rightarrow> Subject result)) list"

definition RegisterTokenKind :: "Kind \<Rightarrow> (TfeID \<Rightarrow> Subject result) \<Rightarrow> token_registry \<Rightarrow> token_registry" where
  "RegisterTokenKind kind fn reg = (kind, fn) # filter (\<lambda>(k, _). k \<noteq> kind) reg"

definition GetSubject :: "agent_env \<Rightarrow> token_registry \<Rightarrow> string \<Rightarrow> Subject result" where
  "GetSubject env reg token =
     (case ge_ParseToken env token of Inl e \<Rightarrow> Inl e | Inr subj \<Rightarrow>
     (case ParseTfeID subj of Inl e \<Rightarrow> Inl e | Inr tid \<Rightarrow>
     (case map_of reg (tfe_kind tid) of
        None \<Rightarrow> Inl (Errorf (''unknown authentication token kind: '' @ tfe_kind tid))
      | Some fn \<Rightarrow> fn tid)))"

definition JWT_Authenticate :: "agent_env \<Rightarrow> token_registry \<Rightarrow> api_request \<Rightarrow> Subject option result" where
  "JWT_Authenticate env reg req =
     (case ParseBearerToken req of
        Inl e \<Rightarrow> Inl (Wrap ''parsing bearer token'' e)
      | Inr token \<Rightarrow>
          if token = [] then Inr None
          else (case GetSubject env reg token of Inl e \<Rightarrow> Inl e | Inr subj \<Rightarrow> Inr (Some subj)))"

text \<open>The two kinds that the runner service registers: agent tokens, with the headers of the request, and jobs.\<close>

definition agent_subject :: "api_request \<Rightarrow> agent_db \<Rightarrow> TfeID \<Rightarrow> Subject result" where
  "agent_subject req db tokenID =
     (case getPoolByTokenID tokenID db of Inl e \<Rightarrow> Inl e | Inr pool \<Rightarrow>
        if rq_RunnerID req = [] then Inr (UnregisteredSubject (Some pool))
        else (case ParseTfeID (rq_RunnerID req) of Inl e \<Rightarrow> Inl e | Inr rid \<Rightarrow>
             (case getRunner rid db of
                Inl e \<Rightarrow> Inl (Wrap ''retrieving runner corresponding to ID found in http header'' e)
              | Inr m \<Rightarrow> Inr (RunnerSubject m))))"

definition job_subject :: "agent_db \<Rightarrow> TfeID \<Rightarrow> Subject result" where
  "job_subject db jid = (case GetJob jid db of Inl e \<Rightarrow> Inl e | Inr j \<Rightarrow> Inr (JobSubject j))"

definition runner_registry :: "api_request \<Rightarrow> agent_db \<Rightarrow> token_registry \<Rightarrow> token_registry" where
  "runner_registry req db reg =
     RegisterTokenKind JobKind (job_subject db) (RegisterTokenKind AgentTokenKind (agent_subject req db) reg)"

datatype served = PassedThrough | Rejected error | ServedAs Subject

fun try_authenticators :: "(api_request \<Rightarrow> Subject option result) list \<Rightarrow> api_request \<Rightarrow> Subject result" where
  "try_authenticators [] req = Inl (Errorf ''you need to login to access the requested page'')"
| "try_authenticators (a # as) req =
     (case a req of
        Inl e \<Rightarrow> Inl e
      | Inr (Some subj) \<Rightarrow> Inr subj
      | Inr None \<Rightarrow> try_authenticators as req)"

definition Middleware_Authenticate ::
  "(string \<Rightarrow> bool) \<Rightarrow> (api_request \<Rightarrow> Subject option result) list \<Rightarrow> api_request \<Rightarrow> served" where
  "Middleware_Authenticate isPath auths req =
     (if \<not> isPath (rq_Path req) then PassedThrough
      else case try_authenticators auths req of Inl e \<Rightarrow> Rejected e | Inr subj \<Rightarrow> ServedAs subj)"

end
