(* ===== verification/AgentSafety.thy ===== *)
theory AgentSafety
  imports AgentService RunSystem
begin

text \<open>
  What the service of runners and pools keeps: the invariant of its tables through every operation, the
  effect of an update of a pool, which pools a workspace may use, which subject a token stands for, who
  is given credentials of a job, and what the deletion of a runner leaves behind.
\<close>

section \<open>The invariant\<close>

definition usable :: "agent_db \<Rightarrow> TfeID \<Rightarrow> TfeID \<Rightarrow> bool" where
  "usable db pid wid \<longleftrightarrow> (\<exists>r \<in> set (ad_pools db). plr_ID r = pid \<and> (plr_OrganizationScoped r \<or> (pid, wid) \<in> set (ad_allowed db)))"

definition keys_ok :: "agent_db \<Rightarrow> bool" where
  "keys_ok db \<longleftrightarrow> distinct (map plr_ID (ad_pools db)) \<and>
     distinct (map (\<lambda>r. (plr_Organization r, plr_Name r)) (ad_pools db)) \<and> distinct (ad_allowed db) \<and>
     distinct (map at_ID (ad_tokens db)) \<and> distinct (map rr_ID (ad_runners db)) \<and>
     distinct (map aw_ID (ad_workspaces db))"

definition refs_ok :: "agent_db \<Rightarrow> bool" where
  "refs_ok db \<longleftrightarrow>
     (\<forall>(p, w) \<in> set (ad_allowed db). p \<in> plr_ID ` set (ad_pools db) \<and> w \<in> aw_ID ` set (ad_workspaces db)) \<and>
     (\<forall>t \<in> set (ad_tokens db). at_AgentPoolID t \<in> plr_ID ` set (ad_pools db)) \<and>
     (\<forall>r \<in> set (ad_runners db). \<forall>p. rr_AgentPoolID r = Some p \<longrightarrow> p \<in> plr_ID ` set (ad_pools db)) \<and>
     (\<forall>j \<in> set (ad_jobs db). \<forall>r. job_RunnerID j = Some r \<longrightarrow> r \<in> rr_ID ` set (ad_runners db))"

text \<open>A workspace that is assigned to a pool may use it.\<close>

definition assigned_ok :: "agent_db \<Rightarrow> bool" where
  "assigned_ok db \<longleftrightarrow>
     (\<forall>w \<in> set (ad_workspaces db). \<forall>p. aw_AgentPoolID w = Some p \<longrightarrow> usable db p (aw_ID w))"

definition agent_inv :: "agent_db \<Rightarrow> bool" where
  "agent_inv db \<longleftrightarrow> keys_ok db \<and> refs_ok db \<and> assigned_ok db"

text \<open>A workspace is created after the check of its pool, with an identifier of its own.\<close>

definition add_workspace :: "agent_env \<Rightarrow> Workspace \<Rightarrow> agent_db \<Rightarrow> agent_db result" where
  "add_workspace env ws db =
     (case checkWorkspacePoolAccess (get_agent_pool env db) ws of Inl e \<Rightarrow> Inl e | Inr _ \<Rightarrow>
        if ws_ID ws \<in> set (map aw_ID (ad_workspaces db)) then Inl ErrResourceAlreadyExists
        else Inr (db\<lparr>ad_workspaces := ad_workspaces db @
               [\<lparr>aw_ID = ws_ID ws, aw_Name = ws_Name ws, aw_Organization = ws_Organization ws,
                 aw_AgentPoolID = mode_agentPoolID (ws_Mode ws)\<rparr>]\<rparr>))"

datatype agent_op =
    OpRegister RegisterRunnerOptions | OpStatus TfeID RunnerStatus | OpDeleteRunner TfeID
  | OpCreateToken TfeID string | OpDeleteToken TfeID
  | OpCreatePool CreateAgentPoolOptions | OpUpdatePool TfeID UpdatePoolOptions | OpDeletePool TfeID
  | OpAddWorkspace Workspace | OpJobs "Job list"

text \<open>The last operation stands for the writers of the table of jobs, whose foreign key is checked.\<close>

fun exec_agent :: "agent_op \<Rightarrow> agent_env \<Rightarrow> agent_db \<Rightarrow> agent_db result" where
  "exec_agent (OpRegister opts) env db = map_sum id fst (Register env opts db)"
| "exec_agent (OpStatus rid st) env db = UpdateRunnerStatus env rid st db"
| "exec_agent (OpDeleteRunner rid) env db = DeleteRunner rid db"
| "exec_agent (OpCreateToken pid d) env db = map_sum id fst (CreateAgentToken env pid d db)"
| "exec_agent (OpDeleteToken tid) env db = map_sum id fst (DeleteAgentToken env tid db)"
| "exec_agent (OpCreatePool opts) env db = map_sum id fst (CreateAgentPool env opts db)"
| "exec_agent (OpUpdatePool pid opts) env db = map_sum id fst (UpdateAgentPool env pid opts db)"
| "exec_agent (OpDeletePool pid) env db = map_sum id fst (DeleteAgentPool env pid db)"
| "exec_agent (OpAddWorkspace ws) env db = add_workspace env ws db"
| "exec_agent (OpJobs js) env db =
     (if list_all (\<lambda>j. case job_RunnerID j of None \<Rightarrow> True | Some r \<Rightarrow> r \<in> set (map rr_ID (ad_runners db))) js
      then Inr (db\<lparr>ad_jobs := js\<rparr>) else Inl fk_error)"

inductive reachable_agents :: "agent_db \<Rightarrow> bool" where
  init: "reachable_agents \<lparr>ad_organizations = orgs, ad_pools = [], ad_allowed = [], ad_tokens = [], ad_runners = [],
    ad_workspaces = [], ad_jobs = []\<rparr>"
| step: "reachable_agents db \<Longrightarrow> exec_agent opn env db = Inr db' \<Longrightarrow> reachable_agents db'"

lemma map_sum_Inr [simp]: "map_sum f g r = Inr y \<longleftrightarrow> (\<exists>x. r = Inr x \<and> y = g x)"
  by (cases r) auto

section \<open>The lists of allowed workspaces\<close>

lemma insert_allowed_ok:
  "insert_allowed pid ws db = Inr db' \<Longrightarrow>
     db' = db\<lparr>ad_allowed := ad_allowed db @ map (Pair pid) ws\<rparr> \<and>
     (distinct (ad_allowed db) \<longrightarrow> distinct (ad_allowed db')) \<and>
     (ws \<noteq> [] \<longrightarrow> pid \<in> plr_ID ` set (ad_pools db)) \<and> set ws \<subseteq> aw_ID ` set (ad_workspaces db)"
proof (induction ws arbitrary: db)
  case (Cons w ws)
  then have new: "(pid, w) \<notin> set (ad_allowed db)" "pid \<in> plr_ID ` set (ad_pools db)" "w \<in> aw_ID ` set (ad_workspaces db)"
    and rec: "insert_allowed pid ws (db\<lparr>ad_allowed := ad_allowed db @ [(pid, w)]\<rparr>) = Inr db'"
    by (auto split: if_splits)
  note ih = Cons.IH [OF rec]
  have "distinct (ad_allowed (db\<lparr>ad_allowed := ad_allowed db @ [(pid, w)]\<rparr>)) \<longrightarrow> distinct (ad_allowed db')"
    using ih by blast
  then have d: "distinct (ad_allowed db) \<longrightarrow> distinct (ad_allowed db')" using new(1) by simp
  have e: "db' = db\<lparr>ad_allowed := ad_allowed db @ map (Pair pid) (w # ws)\<rparr>"
    using conjunct1 [OF ih] by simp
  have "set ws \<subseteq> aw_ID ` set (ad_workspaces db)" using ih by simp
  with d e new(2,3) show ?case by (intro conjI) simp_all
qed simp

lemma delete_allowed_ok:
  "delete_allowed pid ws db = Inr db' \<Longrightarrow>
     db' = db\<lparr>ad_allowed := filter (\<lambda>a. a \<notin> Pair pid ` set ws) (ad_allowed db)\<rparr>"
proof (induction ws arbitrary: db)
  case (Cons w ws)
  then have rec: "delete_allowed pid ws (db\<lparr>ad_allowed := filter (\<lambda>a. a \<noteq> (pid, w)) (ad_allowed db)\<rparr>) = Inr db'"
    by (auto split: if_splits)
  show ?case unfolding Cons.IH [OF rec] by (simp add: conj_commute)
qed simp

lemma allowed_of_pool: "w \<in> set (pool_AllowedWorkspaces (pool_of db r)) \<longleftrightarrow> (plr_ID r, w) \<in> set (ad_allowed db)"
  by (force simp: pool_of_def)

lemma pool_of_simps [simp]: "pool_ID (pool_of db r) = plr_ID r" "pool_Name (pool_of db r) = plr_Name r"
  "pool_Organization (pool_of db r) = plr_Organization r" "pool_OrganizationScoped (pool_of db r) = plr_OrganizationScoped r"
  by (simp_all add: pool_of_def)

lemma getPool_Inr: "getPool pid db = Inr p \<longleftrightarrow> (\<exists>r. find_pool pid db = Some r \<and> p = pool_of db r)"
  by (auto simp: getPool_def split: option.splits)

lemma find_poolD: "find_pool pid db = Some r \<Longrightarrow> r \<in> set (ad_pools db) \<and> plr_ID r = pid"
  unfolding find_pool_def by (drule find_first_SomeD) simp

lemma find_pool_unique:
  assumes "keys_ok db" "r \<in> set (ad_pools db)"
  shows "find_pool (plr_ID r) db = Some r"
proof (cases "find_pool (plr_ID r) db")
  case None
  with assms(2) show ?thesis by (auto simp: find_pool_def find_first_None_iff)
next
  case (Some q)
  with find_poolD [OF Some] assms show ?thesis by (auto simp: keys_ok_def distinct_map inj_on_def)
qed

lemma write_pool_simps [simp]: "plr_ID (write_pool p q) = plr_ID q" "plr_Organization (write_pool p q) = plr_Organization q"
  "plr_CreatedAt (write_pool p q) = plr_CreatedAt q"
  "plr_ID q = pool_ID p \<Longrightarrow> plr_Name (write_pool p q) = pool_Name p"
  "plr_ID q = pool_ID p \<Longrightarrow> plr_OrganizationScoped (write_pool p q) = pool_OrganizationScoped p"
  "plr_ID q \<noteq> pool_ID p \<Longrightarrow> write_pool p q = q"
  by (simp_all add: write_pool_def)

text \<open>Adding and removing what differs gives the new list, as a set.\<close>

definition pool_written :: "TfeID \<Rightarrow> Pool \<Rightarrow> agent_db \<Rightarrow> agent_db \<Rightarrow> bool" where
  "pool_written pid p db db' \<longleftrightarrow>
     pool_ID p = pid \<and> ad_pools db' = map (write_pool p) (ad_pools db) \<and>
     (\<forall>q w. (q, w) \<in> set (ad_allowed db') \<longleftrightarrow>
        (if q = pid then w \<in> set (pool_AllowedWorkspaces p) else (q, w) \<in> set (ad_allowed db))) \<and>
     ad_organizations db' = ad_organizations db \<and> ad_tokens db' = ad_tokens db \<and> ad_runners db' = ad_runners db \<and>
     ad_workspaces db' = ad_workspaces db \<and> ad_jobs db' = ad_jobs db"

lemma Pool_update_fields:
  "Pool_update opts p = Inr p' \<Longrightarrow> pool_ID p' = pool_ID p \<and> pool_Organization p' = pool_Organization p \<and>
     pool_CreatedAt p' = pool_CreatedAt p \<and> pool_AssignedWorkspaces p' = pool_AssignedWorkspaces p"
  by (auto simp: Pool_update_def Let_def split: sum.splits option.splits if_splits)

lemma UpdateAgentPool_ok:
  assumes "UpdateAgentPool env pid opts db = Inr (db', p)"
  obtains r where "find_pool pid db = Some r" "Pool_update opts (pool_of db r) = Inr p" "pool_written pid p db db'"
    "\<And>q. q \<in> set (ad_pools db) \<Longrightarrow> plr_ID q \<noteq> pid \<Longrightarrow> (plr_Organization q, plr_Name q) \<noteq> (plr_Organization r, pool_Name p)"
    "distinct (ad_allowed db) \<Longrightarrow> distinct (ad_allowed db')"
    "set (pool_AllowedWorkspaces p) - set (pool_AllowedWorkspaces (pool_of db r)) \<subseteq> aw_ID ` set (ad_workspaces db)"
proof -
  from assms obtain r db1 db2 where r: "find_pool pid db = Some r" and p: "Pool_update opts (pool_of db r) = Inr p"
    and db1: "updatePool p db = Inr db1"
    and db2: "insert_allowed pid (Diff (pool_AllowedWorkspaces p) (pool_AllowedWorkspaces (pool_of db r))) db1 = Inr db2"
    and db3: "delete_allowed pid (Diff (pool_AllowedWorkspaces (pool_of db r)) (pool_AllowedWorkspaces p)) db2 = Inr db'"
    by (auto simp: UpdateAgentPool_def getPool_Inr split: sum.splits)
  have pid: "plr_ID r = pid" using find_poolD [OF r] by simp
  have pp: "pool_ID p = pid" using Pool_update_fields [OF p] pid by simp
  have e1: "db1 = db\<lparr>ad_pools := map (write_pool p) (ad_pools db)\<rparr>"
    and uniq: "\<not> list_ex (\<lambda>q. plr_ID q \<noteq> pid \<and> plr_Organization q = plr_Organization r \<and> plr_Name q = pool_Name p) (ad_pools db)"
    using db1 r by (auto simp: updatePool_def pp split: if_splits)
  note e2 = insert_allowed_ok [OF db2] and e3 = delete_allowed_ok [OF db3]
  have in_b: "w \<in> set (pool_AllowedWorkspaces (pool_of db r)) \<longleftrightarrow> (pid, w) \<in> set (ad_allowed db)" for w
    by (simp add: allowed_of_pool pid)
  show thesis
  proof (rule that [OF r p])
    show "pool_written pid p db db'"
    proof -
      have al: "ad_allowed db' = filter (\<lambda>a. a \<notin> Pair pid ` set (Diff (pool_AllowedWorkspaces (pool_of db r)) (pool_AllowedWorkspaces p)))
          (ad_allowed db @ map (Pair pid) (Diff (pool_AllowedWorkspaces p) (pool_AllowedWorkspaces (pool_of db r))))"
        unfolding e3 unfolding conjunct1 [OF e2] e1 by simp
      have rest: "ad_pools db' = ad_pools db1" "ad_organizations db' = ad_organizations db" "ad_tokens db' = ad_tokens db"
        "ad_runners db' = ad_runners db" "ad_workspaces db' = ad_workspaces db" "ad_jobs db' = ad_jobs db"
        unfolding e3 unfolding conjunct1 [OF e2] e1 by simp_all
      have "(q, w) \<in> set (ad_allowed db') \<longleftrightarrow>
          (if q = pid then w \<in> set (pool_AllowedWorkspaces p) else (q, w) \<in> set (ad_allowed db))" for q w
        unfolding al by (cases "q = pid") (auto simp: in_b)
      then show ?thesis unfolding pool_written_def rest by (simp add: e1 pp)
    qed
    show "(plr_Organization q, plr_Name q) \<noteq> (plr_Organization r, pool_Name p)" if "q \<in> set (ad_pools db)" "plr_ID q \<noteq> pid" for q
      using uniq that by (auto simp: list_ex_iff)
    show "distinct (ad_allowed db')" if "distinct (ad_allowed db)"
    proof -
      have "distinct (ad_allowed db1)" using that by (simp add: e1)
      with e2 have "distinct (ad_allowed db2)" by blast
      then show ?thesis unfolding e3 by simp
    qed
    show "set (pool_AllowedWorkspaces p) - set (pool_AllowedWorkspaces (pool_of db r)) \<subseteq> aw_ID ` set (ad_workspaces db)"
      using e2 by (simp add: e1)
  qed
qed

section \<open>Every operation keeps the invariant\<close>

lemma job_runner_exists: "refs_ok db \<Longrightarrow> j \<in> set (ad_jobs db) \<Longrightarrow> job_RunnerID j = Some r \<Longrightarrow> \<exists>x \<in> set (ad_runners db). rr_ID x = r"
  unfolding refs_ok_def by blast

lemma delete_runners_inv:
  assumes "agent_inv db"
  shows "agent_inv (delete_runners P db)"
proof -
  have rest: "ad_pools (delete_runners P db) = ad_pools db" "ad_allowed (delete_runners P db) = ad_allowed db"
    "ad_tokens (delete_runners P db) = ad_tokens db" "ad_workspaces (delete_runners P db) = ad_workspaces db"
    "ad_runners (delete_runners P db) = filter (\<lambda>r. \<not> P r) (ad_runners db)"
    "ad_jobs (delete_runners P db) = filter (\<lambda>j. \<not> (\<exists>r \<in> set (ad_runners db). P r \<and> job_RunnerID j = Some (rr_ID r))) (ad_jobs db)"
    by (simp_all add: delete_runners_def)
  have k: "keys_ok db" and f: "refs_ok db" and a: "assigned_ok db" using assms by (simp_all add: agent_inv_def)
  have "r \<in> rr_ID ` set (filter (\<lambda>r. \<not> P r) (ad_runners db))"
    if j: "j \<in> set (ad_jobs (delete_runners P db))" "job_RunnerID j = Some r" for j r
  proof -
    from j(1) have "j \<in> set (ad_jobs db)" by (simp add: rest(6))
    from job_runner_exists [OF f this j(2)] obtain x where x: "x \<in> set (ad_runners db)" "rr_ID x = r" by blast
    with j have "\<not> P x" by (auto simp: rest(6))
    with x show ?thesis by auto
  qed
  with f have "refs_ok (delete_runners P db)" unfolding refs_ok_def rest(1-5) by auto
  moreover have "keys_ok (delete_runners P db)" using k unfolding keys_ok_def rest by (simp add: distinct_filter_map)
  moreover have "assigned_ok (delete_runners P db)" using a unfolding assigned_ok_def usable_def rest by simp
  ultimately show ?thesis by (simp add: agent_inv_def)
qed

lemma usable_mono:
  assumes "usable db p w" "\<And>r. r \<in> set (ad_pools db) \<Longrightarrow> plr_ID r = p \<Longrightarrow> r \<in> set (ad_pools db')"
    "(p, w) \<in> set (ad_allowed db) \<Longrightarrow> (p, w) \<in> set (ad_allowed db')"
  shows "usable db' p w"
  using assms unfolding usable_def by blast

lemma distinct_names_write:
  assumes "distinct (map plr_ID rows)" "distinct (map (\<lambda>q. (plr_Organization q, plr_Name q)) rows)" "r \<in> set rows" "plr_ID r = pool_ID p"
    "\<And>q. q \<in> set rows \<Longrightarrow> plr_ID q \<noteq> pool_ID p \<Longrightarrow> (plr_Organization q, plr_Name q) \<noteq> (plr_Organization r, pool_Name p)"
  shows "distinct (map (\<lambda>q. (plr_Organization q, plr_Name q)) (map (write_pool p) rows))"
proof -
  have inj: "q = r" if "q \<in> set rows" "plr_ID q = pool_ID p" for q
    using assms(1,3,4) that by (auto simp: distinct_map inj_on_def)
  have "u = v" if "u \<in> set rows" "v \<in> set rows"
    and eq: "plr_Organization u = plr_Organization v" "plr_Name (write_pool p u) = plr_Name (write_pool p v)" for u v
  proof (cases "plr_ID u = pool_ID p"; cases "plr_ID v = pool_ID p")
    assume "plr_ID u = pool_ID p" "plr_ID v = pool_ID p"
    with inj that(1,2) show ?thesis by blast
  next
    assume u: "plr_ID u = pool_ID p" and v: "plr_ID v \<noteq> pool_ID p"
    from inj [OF that(1) u] assms(5) [OF that(2) v] eq u v show ?thesis by simp
  next
    assume u: "plr_ID u \<noteq> pool_ID p" and v: "plr_ID v = pool_ID p"
    from inj [OF that(2) v] assms(5) [OF that(1) u] eq u v show ?thesis by simp
  next
    assume "plr_ID u \<noteq> pool_ID p" "plr_ID v \<noteq> pool_ID p"
    with assms(2) that show ?thesis by (auto simp: distinct_map inj_on_def)
  qed
  then have "inj_on (\<lambda>q. (plr_Organization q, plr_Name (write_pool p q))) (set rows)" by (auto intro!: inj_onI)
  with assms(1) show ?thesis by (simp add: distinct_map comp_def)
qed

lemma update_pool_inv:
  assumes inv: "agent_inv db" and up: "UpdateAgentPool env pid opts db = Inr (db', p)"
  shows "agent_inv db'"
proof -
  obtain r where r: "find_pool pid db = Some r" and p: "Pool_update opts (pool_of db r) = Inr p" and w: "pool_written pid p db db'"
    and uniq: "\<And>q. q \<in> set (ad_pools db) \<Longrightarrow> plr_ID q \<noteq> pid \<Longrightarrow> (plr_Organization q, plr_Name q) \<noteq> (plr_Organization r, pool_Name p)"
    and dist: "distinct (ad_allowed db) \<Longrightarrow> distinct (ad_allowed db')"
    and exist: "set (pool_AllowedWorkspaces p) - set (pool_AllowedWorkspaces (pool_of db r)) \<subseteq> aw_ID ` set (ad_workspaces db)"
    using UpdateAgentPool_ok [OF up] by blast
  have k: "keys_ok db" and f: "refs_ok db" and a: "assigned_ok db" using inv by (simp_all add: agent_inv_def)
  have rest: "ad_pools db' = map (write_pool p) (ad_pools db)" "ad_tokens db' = ad_tokens db" "ad_runners db' = ad_runners db"
    "ad_workspaces db' = ad_workspaces db" "ad_jobs db' = ad_jobs db" and pid: "pool_ID p = pid"
    using w by (simp_all add: pool_written_def)
  have al: "(q, x) \<in> set (ad_allowed db') \<longleftrightarrow> (if q = pid then x \<in> set (pool_AllowedWorkspaces p) else (q, x) \<in> set (ad_allowed db))" for q x
    using w by (simp add: pool_written_def)
  have rp: "r \<in> set (ad_pools db)" "plr_ID r = pid" using find_poolD [OF r] by simp_all
  have keys: "map plr_ID (ad_pools db') = map plr_ID (ad_pools db)" unfolding rest by simp
  then have idset: "plr_ID ` set (ad_pools db') = plr_ID ` set (ad_pools db)" by (metis set_map)
  have "keys_ok db'"
    using k dist distinct_names_write [of "ad_pools db" r p] rp uniq
    unfolding keys_ok_def keys rest pid by (simp add: comp_def)
  moreover have "refs_ok db'"
  proof -
    have "q \<in> plr_ID ` set (ad_pools db) \<and> x \<in> aw_ID ` set (ad_workspaces db)" if "(q, x) \<in> set (ad_allowed db')" for q x
    proof (cases "q = pid")
      case False
      with that al f show ?thesis by (auto simp: refs_ok_def)
    next
      case True
      with that al have "x \<in> set (pool_AllowedWorkspaces p)" by simp
      moreover have "x \<in> aw_ID ` set (ad_workspaces db)" if "x \<in> set (pool_AllowedWorkspaces (pool_of db r))"
        using that f by (auto simp: allowed_of_pool refs_ok_def)
      ultimately show ?thesis using exist True rp by blast
    qed
    with f show ?thesis unfolding refs_ok_def idset unfolding rest by blast
  qed
  moreover have "assigned_ok db'"
    unfolding assigned_ok_def rest
  proof (intro ballI allI impI)
    fix x q
    assume x: "x \<in> set (ad_workspaces db)" "aw_AgentPoolID x = Some q"
    then have u: "usable db q (aw_ID x)" using a by (simp add: assigned_ok_def)
    show "usable db' q (aw_ID x)"
    proof (cases "q = pid")
      case False
      show ?thesis
      proof (rule usable_mono [OF u])
        show "s \<in> set (ad_pools db')" if "s \<in> set (ad_pools db)" "plr_ID s = q" for s
        proof -
          have "write_pool p s = s" using that(2) False pid by (simp add: write_pool_def)
          then show ?thesis unfolding rest using that(1) by force
        qed
        show "(q, aw_ID x) \<in> set (ad_allowed db')" if "(q, aw_ID x) \<in> set (ad_allowed db)"
          using that False al by simp
      qed
    next
      case True
      have "aw_ID x \<in> set (pool_AssignedWorkspaces p)"
        using Pool_update_fields [OF p] x True rp by (force simp: pool_of_def)
      then have ok: "pool_OrganizationScoped p \<or> aw_ID x \<in> set (pool_AllowedWorkspaces p)"
        using Pool_update_inv [OF p] by (auto simp: pool_inv_def)
      have "write_pool p r \<in> set (ad_pools db')" unfolding rest using rp by simp
      moreover have "plr_ID (write_pool p r) = q" "plr_OrganizationScoped (write_pool p r) = pool_OrganizationScoped p"
        using rp pid True by simp_all
      moreover have "(q, aw_ID x) \<in> set (ad_allowed db') \<longleftrightarrow> aw_ID x \<in> set (pool_AllowedWorkspaces p)" using al True by simp
      ultimately show ?thesis unfolding usable_def using ok by blast
    qed
  qed
  ultimately show ?thesis by (simp add: agent_inv_def)
qed

lemma create_pool_inv:
  assumes inv: "agent_inv db" and ok: "createPool p db = Inr db'"
  shows "agent_inv db'"
proof -
  define row where "row = \<lparr>plr_ID = pool_ID p, plr_Name = pool_Name p, plr_CreatedAt = pool_CreatedAt p,
    plr_Organization = pool_Organization p, plr_OrganizationScoped = pool_OrganizationScoped p\<rparr>"
  have new: "pool_ID p \<notin> plr_ID ` set (ad_pools db)"
    "(pool_Organization p, pool_Name p) \<notin> (\<lambda>r. (plr_Organization r, plr_Name r)) ` set (ad_pools db)"
    and ins: "insert_allowed (pool_ID p) (pool_AllowedWorkspaces p) (db\<lparr>ad_pools := ad_pools db @ [row]\<rparr>) = Inr db'"
    using ok by (auto simp: createPool_def row_def split: if_splits)
  note i = insert_allowed_ok [OF ins]
  have e: "db' = db\<lparr>ad_pools := ad_pools db @ [row], ad_allowed := ad_allowed db @ map (Pair (pool_ID p)) (pool_AllowedWorkspaces p)\<rparr>"
    using conjunct1 [OF i] by simp
  have k: "keys_ok db" and f: "refs_ok db" and a: "assigned_ok db" using inv by (simp_all add: agent_inv_def)
  have "distinct (ad_allowed (db\<lparr>ad_pools := ad_pools db @ [row]\<rparr>)) \<longrightarrow> distinct (ad_allowed db')" using i by blast
  then have d: "distinct (ad_allowed db) \<longrightarrow> distinct (ad_allowed db')" by simp
  have ws: "set (pool_AllowedWorkspaces p) \<subseteq> aw_ID ` set (ad_workspaces db)" using i by simp
  have rest: "ad_pools db' = ad_pools db @ [row]" "ad_tokens db' = ad_tokens db" "ad_runners db' = ad_runners db"
    "ad_workspaces db' = ad_workspaces db" "ad_jobs db' = ad_jobs db"
    "ad_allowed db' = ad_allowed db @ map (Pair (pool_ID p)) (pool_AllowedWorkspaces p)" using e by simp_all
  have "keys_ok db'" using k d new unfolding keys_ok_def rest(1-5) by (simp add: row_def)
  moreover have "refs_ok db'" using f ws unfolding refs_ok_def rest by (auto simp: row_def)
  moreover have "assigned_ok db'"
    unfolding assigned_ok_def rest(4)
  proof (intro ballI allI impI)
    fix w q
    assume "w \<in> set (ad_workspaces db)" "aw_AgentPoolID w = Some q"
    then have "usable db q (aw_ID w)" using a by (simp add: assigned_ok_def)
    then show "usable db' q (aw_ID w)" by (rule usable_mono) (simp_all add: rest(1,6))
  qed
  ultimately show ?thesis by (simp add: agent_inv_def)
qed

lemma delete_pool_inv:
  assumes inv: "agent_inv db" and ok: "deleteAgentPool pid db = Inr db'"
  shows "agent_inv db'"
proof -
  define d where "d = delete_runners (\<lambda>r. rr_AgentPoolID r = Some pid) db"
  have free: "\<forall>w \<in> set (ad_workspaces db). aw_AgentPoolID w \<noteq> Some pid"
    and e: "db' = d\<lparr>ad_pools := filter (\<lambda>r. plr_ID r \<noteq> pid) (ad_pools db), ad_allowed := filter (\<lambda>a. fst a \<noteq> pid) (ad_allowed db),
       ad_tokens := filter (\<lambda>t. at_AgentPoolID t \<noteq> pid) (ad_tokens db)\<rparr>"
    using ok by (auto simp: deleteAgentPool_def list_ex_iff d_def split: if_splits)
  have dd: "ad_pools d = ad_pools db" "ad_allowed d = ad_allowed db" "ad_tokens d = ad_tokens db" "ad_workspaces d = ad_workspaces db"
    by (simp_all add: d_def delete_runners_def)
  have gone: "\<forall>r \<in> set (ad_runners d). rr_AgentPoolID r \<noteq> Some pid" by (simp add: d_def delete_runners_def)
  have "agent_inv d" unfolding d_def by (rule delete_runners_inv [OF inv])
  then have k: "keys_ok d" and f: "refs_ok d" and a: "assigned_ok d" by (simp_all add: agent_inv_def)
  have "keys_ok db'" using k unfolding keys_ok_def e by (simp add: distinct_filter_map dd)
  moreover have "refs_ok db'"
  proof -
    have "p \<in> plr_ID ` set (filter (\<lambda>r. plr_ID r \<noteq> pid) (ad_pools db))" if "p \<in> plr_ID ` set (ad_pools d)" "p \<noteq> pid" for p
      using that by (auto simp: dd)
    note keep = this
    show ?thesis
      unfolding refs_ok_def
    proof (intro conjI)
      show "\<forall>(p, w) \<in> set (ad_allowed db'). p \<in> plr_ID ` set (ad_pools db') \<and> w \<in> aw_ID ` set (ad_workspaces db')"
        using f keep by (auto simp: e refs_ok_def dd)
      show "\<forall>t \<in> set (ad_tokens db'). at_AgentPoolID t \<in> plr_ID ` set (ad_pools db')"
        using f keep by (auto simp: e refs_ok_def dd)
      show "\<forall>r \<in> set (ad_runners db'). \<forall>p. rr_AgentPoolID r = Some p \<longrightarrow> p \<in> plr_ID ` set (ad_pools db')"
        using f gone keep unfolding refs_ok_def by (simp add: e) blast
      show "\<forall>j \<in> set (ad_jobs db'). \<forall>r. job_RunnerID j = Some r \<longrightarrow> r \<in> rr_ID ` set (ad_runners db')"
        using f by (simp add: e refs_ok_def)
    qed
  qed
  moreover have "assigned_ok db'"
    unfolding assigned_ok_def
  proof (intro ballI allI impI)
    fix w q
    assume w: "w \<in> set (ad_workspaces db')" "aw_AgentPoolID w = Some q"
    then have q: "q \<noteq> pid" and "usable d q (aw_ID w)" using a free by (auto simp: assigned_ok_def e dd)
    from this(2) show "usable db' q (aw_ID w)" by (rule usable_mono) (use q in \<open>simp_all add: e dd\<close>)
  qed
  ultimately show ?thesis by (simp add: agent_inv_def)
qed

lemma db_deleteRunner_inv:
  assumes "agent_inv db" "db_deleteRunner rid db = Inr db'"
  shows "agent_inv db'"
proof -
  have "db' = delete_runners (\<lambda>r. rr_ID r = rid) db" using assms(2) by (simp add: db_deleteRunner_def split: if_splits)
  with delete_runners_inv [OF assms(1)] show ?thesis by simp
qed

lemma create_runner_inv:
  assumes inv: "agent_inv db" and ok: "createRunner m db = Inr db'"
  shows "agent_inv db'"
proof -
  obtain row where row: "db' = db\<lparr>ad_runners := ad_runners db @ [row]\<rparr>" "rr_ID row = rn_ID m" "rr_AgentPoolID row = map_option pool_ID (rn_AgentPool m)"
    "rn_ID m \<notin> rr_ID ` set (ad_runners db)" "\<forall>p. rn_AgentPool m = Some p \<longrightarrow> pool_ID p \<in> plr_ID ` set (ad_pools db)"
    using ok by (auto simp: createRunner_def split: if_splits option.splits)
  then show ?thesis
    using inv by (auto simp: agent_inv_def keys_ok_def refs_ok_def assigned_ok_def usable_def)
qed

lemma update_runner_inv:
  assumes inv: "agent_inv db" and ok: "updateRunner rid fn db = Inr db'"
  shows "agent_inv db'"
proof -
  obtain f where f: "db' = db\<lparr>ad_runners := map f (ad_runners db)\<rparr>" "\<And>r. rr_ID (f r) = rr_ID r" "\<And>r. rr_AgentPoolID (f r) = rr_AgentPoolID r"
    using ok by (auto simp: updateRunner_def split: sum.splits)
  have "rr_ID \<circ> f = rr_ID" using f(2) by (simp add: fun_eq_iff)
  then have "map rr_ID (map f (ad_runners db)) = map rr_ID (ad_runners db)" by simp
  moreover have "rr_ID ` set (map f (ad_runners db)) = rr_ID ` set (ad_runners db)" using f(2) by (simp add: image_image)
  ultimately have "keys_ok db' = keys_ok db" "refs_ok db' = refs_ok db" "assigned_ok db' = assigned_ok db"
    unfolding keys_ok_def refs_ok_def assigned_ok_def usable_def f(1) by (simp_all add: f(2,3) del: map_map)
  with inv show ?thesis by (simp add: agent_inv_def)
qed

lemma create_token_inv: "agent_inv db \<Longrightarrow> createAgentToken t db = Inr db' \<Longrightarrow> agent_inv db'"
  by (auto simp: createAgentToken_def agent_inv_def keys_ok_def refs_ok_def assigned_ok_def usable_def split: if_splits)

lemma delete_token_inv: "agent_inv db \<Longrightarrow> deleteAgentToken t db = Inr db' \<Longrightarrow> agent_inv db'"
  by (auto simp: deleteAgentToken_def agent_inv_def keys_ok_def refs_ok_def assigned_ok_def usable_def distinct_filter_map split: if_splits)

lemma add_workspace_inv:
  assumes inv: "agent_inv db" and ok: "add_workspace env ws db = Inr db'"
  shows "agent_inv db'"
proof -
  define w where "w = \<lparr>aw_ID = ws_ID ws, aw_Name = ws_Name ws, aw_Organization = ws_Organization ws, aw_AgentPoolID = mode_agentPoolID (ws_Mode ws)\<rparr>"
  have e: "db' = db\<lparr>ad_workspaces := ad_workspaces db @ [w]\<rparr>" and new: "ws_ID ws \<notin> aw_ID ` set (ad_workspaces db)"
    and chk: "checkWorkspacePoolAccess (get_agent_pool env db) ws = Inr ()"
    using ok by (auto simp: add_workspace_def w_def split: sum.splits if_splits)
  have "usable db p (ws_ID ws)" if p: "mode_agentPoolID (ws_Mode ws) = Some p" for p
  proof -
    obtain pool where pool: "get_agent_pool env db p = Inr pool" "pool_OrganizationScoped pool \<or> ws_ID ws \<in> set (pool_AllowedWorkspaces pool)"
      using chk p by (auto simp: checkWorkspacePoolAccess_def split: sum.splits if_splits)
    then obtain r where r: "find_pool p db = Some r" "pool = pool_of db r"
      by (auto simp: get_agent_pool_def getPool_Inr split: sum.splits)
    with pool(2) find_poolD [OF r(1)] show ?thesis by (auto simp: usable_def allowed_of_pool)
  qed
  with inv new show ?thesis
    by (auto simp: e agent_inv_def keys_ok_def refs_ok_def assigned_ok_def usable_def w_def)
qed

lemma exec_agent_inv:
  assumes "agent_inv db" "exec_agent opn env db = Inr db'"
  shows "agent_inv db'"
proof (cases opn)
  case (OpJobs js)
  with assms show ?thesis
    by (auto simp: agent_inv_def keys_ok_def refs_ok_def assigned_ok_def usable_def list_all_iff split: if_splits option.splits)
next
  case (OpRegister opts)
  then obtain m where "createRunner m db = Inr db'"
    using assms(2) by (auto simp: Register_def split: sum.splits Subject.splits)
  then show ?thesis by (rule create_runner_inv [OF assms(1)])
next
  case (OpStatus rid st)
  then obtain fn where "updateRunner rid fn db = Inr db'"
    using assms(2) by (auto simp: UpdateRunnerStatus_def split: sum.splits)
  then show ?thesis by (rule update_runner_inv [OF assms(1)])
next
  case (OpDeleteRunner rid)
  with assms show ?thesis by (simp add: DeleteRunner_def db_deleteRunner_inv)
next
  case (OpCreateToken pid d)
  then obtain t where "createAgentToken t db = Inr db'"
    using assms(2) by (auto simp: CreateAgentToken_def split: sum.splits)
  then show ?thesis by (rule create_token_inv [OF assms(1)])
next
  case (OpDeleteToken tid)
  then have "deleteAgentToken tid db = Inr db'"
    using assms(2) by (auto simp: DeleteAgentToken_def split: sum.splits)
  then show ?thesis by (rule delete_token_inv [OF assms(1)])
next
  case (OpCreatePool opts)
  then obtain p where "createPool p db = Inr db'"
    using assms(2) by (auto simp: CreateAgentPool_def split: sum.splits)
  then show ?thesis by (rule create_pool_inv [OF assms(1)])
next
  case (OpUpdatePool pid opts)
  then obtain p where "UpdateAgentPool env pid opts db = Inr (db', p)" using assms(2) by auto
  then show ?thesis by (rule update_pool_inv [OF assms(1)])
next
  case (OpDeletePool pid)
  then obtain p where "deleteAgentPool p db = Inr db'"
    using assms(2) by (auto simp: DeleteAgentPool_def split: sum.splits if_splits)
  then show ?thesis by (rule delete_pool_inv [OF assms(1)])
next
  case (OpAddWorkspace ws)
  with assms show ?thesis by (simp add: add_workspace_inv)
qed

lemma reachable_agents_inv: "reachable_agents db \<Longrightarrow> agent_inv db"
proof (induction rule: reachable_agents.induct)
  case (init orgs)
  show ?case by (simp add: agent_inv_def keys_ok_def refs_ok_def assigned_ok_def)
next
  case (step db opn env db')
  from exec_agent_inv [OF step.IH step.hyps(2)] show ?case .
qed

text \<open>
  C19: the tables of runners, pools and tokens. In every database that the operations of the service, the
  creation of workspaces and the other writers of jobs can produce, identifiers and the names of pools in an
  organization are unique, everything refers to rows that exist, and every workspace that is assigned to a
  pool may use it: the pool is open to its organization or allows the workspace. In particular an update of a
  pool never takes away the permission of a workspace that uses it.
\<close>

theorem agent_tables_consistent:
  assumes "reachable_agents db"
  shows "keys_ok db \<and> refs_ok db \<and> assigned_ok db"
  using reachable_agents_inv [OF assms] by (simp add: agent_inv_def)

section \<open>Pools that a workspace may use\<close>

text \<open>
  the pools listed for a workspace are those that it may use. The query for the pools of an organization
  that are accessible to a workspace selects a pool exactly when the check that runs before a workspace is
  created or updated accepts it.
\<close>

theorem listed_pools_usable:
  assumes "keys_ok db" "refs_ok db" "r \<in> set (ad_pools db)" "w \<in> set (ad_workspaces db)"
    "ws_ID ws = aw_ID w" "mode_agentPoolID (ws_Mode ws) = Some (plr_ID r)"
  shows "pool_of db r \<in> set (listPoolsByOrganization (plr_Organization r)
      \<lparr>lpo_NameSubstring = None, lpo_AllowedWorkspaceName = None, lpo_AllowedWorkspaceID = Some (aw_ID w)\<rparr> db) \<longleftrightarrow>
    checkWorkspacePoolAccess (\<lambda>pid. getPool pid db) ws = Inr ()"
proof -
  let ?opts = "\<lparr>lpo_NameSubstring = None, lpo_AllowedWorkspaceName = None, lpo_AllowedWorkspaceID = Some (aw_ID w)\<rparr>"
  let ?js = "filter (\<lambda>w. (plr_ID r, aw_ID w) \<in> set (ad_allowed db)) (ad_workspaces db)"
  have inj: "q = r" if "q \<in> set (ad_pools db)" "pool_of db r = pool_of db q" for q
  proof -
    have "plr_ID q = plr_ID r" using arg_cong [OF that(2), of pool_ID] by simp
    with assms(1,3) that(1) show ?thesis by (auto simp: keys_ok_def distinct_map inj_on_def)
  qed
  have "(pool_of db r \<in> set (listPoolsByOrganization (plr_Organization r) ?opts db)) = pool_selected (plr_Organization r) ?opts db r"
    using assms(3) inj by (auto simp: listPoolsByOrganization_def)
  also have "\<dots> \<longleftrightarrow> plr_OrganizationScoped r \<or> (plr_ID r, aw_ID w) \<in> set (ad_allowed db)"
  proof -
    have "plr_OrganizationScoped r \<or> (\<exists>x \<in> set ?js. aw_ID x = aw_ID w) \<longleftrightarrow> plr_OrganizationScoped r \<or> (plr_ID r, aw_ID w) \<in> set (ad_allowed db)"
      using assms(4) by auto
    moreover have "pool_selected (plr_Organization r) ?opts db r \<longleftrightarrow> plr_OrganizationScoped r \<or> (\<exists>x \<in> set ?js. aw_ID x = aw_ID w)"
      by (cases ?js) (auto simp: pool_selected_def list_ex_iff split: list.splits)
    ultimately show ?thesis by blast
  qed
  also have "\<dots> \<longleftrightarrow> checkWorkspacePoolAccess (\<lambda>pid. getPool pid db) ws = Inr ()"
    using assms(5,6) find_pool_unique [OF assms(1,3)]
    by (simp add: checkWorkspacePoolAccess_def getPool_def allowed_of_pool)
  finally show ?thesis .
qed

section \<open>Tokens and subjects\<close>

lemma Split_absent: "sep \<noteq> [] \<Longrightarrow> \<not> sublist sep s \<Longrightarrow> Split sep s = [s]"
proof (induction s)
  case Nil
  then show ?case by (simp add: Split.simps)
next
  case (Cons c s)
  from Cons.prems have "\<not> prefix sep (c # s)" "\<not> sublist sep s"
    by (auto dest: prefix_imp_sublist sublist_Cons_right [THEN iffD2, OF disjI2])
  with Cons show ?case by (subst Split.simps) simp
qed

lemma Split_prefix: "sep \<noteq> [] \<Longrightarrow> Split sep (sep @ s) = [] # Split sep s"
proof -
  assume "sep \<noteq> []"
  then obtain c cs where c: "sep = c # cs" by (cases sep) auto
  then have "prefix (c # cs) (c # cs @ s)" by simp
  with c show ?thesis by (subst Split.simps) simp
qed

definition bearer :: "api_request \<Rightarrow> string \<Rightarrow> bool" where
  "bearer req token \<longleftrightarrow> rq_Authorization req = ''Bearer '' @ token \<and> token \<noteq> [] \<and> \<not> sublist ''Bearer '' token"

lemma JWT_Authenticate_bearer:
  assumes "bearer req token"
  shows "JWT_Authenticate env reg req = map_sum id Some (GetSubject env reg token)"
proof -
  have "Split ''Bearer '' (''Bearer '' @ token) = [[], token]"
    using assms Split_prefix [of "''Bearer ''" token] Split_absent [of "''Bearer ''" token] by (simp add: bearer_def)
  with assms show ?thesis
    by (auto simp: JWT_Authenticate_def ParseBearerToken_def bearer_def split: sum.splits)
qed

lemma runner_registry_agent [simp]:
  "map_of (runner_registry req db reg) AgentTokenKind = Some (agent_subject req db)"
  "map_of (runner_registry req db reg) JobKind = Some (job_subject db)"
  by (simp_all add: runner_registry_def RegisterTokenKind_def kind_defs)

lemma agent_token_subject:
  assumes "bearer req token" "ge_ParseToken env token = Inr (TfeID_String tid)" "wf_tfe_id tid" "tfe_kind tid = AgentTokenKind"
  shows "JWT_Authenticate env (runner_registry req db reg) req = map_sum id Some (agent_subject req db tid)"
  using assms by (simp add: JWT_Authenticate_bearer GetSubject_def ParseTfeID_String)

lemma getPoolByTokenID_None: "tid \<notin> at_ID ` set (ad_tokens db) \<Longrightarrow> getPoolByTokenID tid db = Inl ErrResourceNotFound"
  by (auto simp: getPoolByTokenID_def find_first_None_iff list_ex_iff split: option.splits dest!: find_first_SomeD)

lemma getPoolByTokenID_Some:
  assumes "t \<in> set (ad_tokens db)" "distinct (map at_ID (ad_tokens db))" "getPool (at_AgentPoolID t) db = Inr pool"
  shows "getPoolByTokenID (at_ID t) db = Inr pool"
proof -
  have "list_ex (\<lambda>u. at_ID u = at_ID t \<and> at_AgentPoolID u = plr_ID r) (ad_tokens db) \<longleftrightarrow> plr_ID r = at_AgentPoolID t" for r :: pool_row
    using assms(1,2) by (auto simp: list_ex_iff distinct_map inj_on_def)
  with assms(3) show ?thesis by (simp add: getPoolByTokenID_def getPool_def find_pool_def)
qed


text \<open>
  C21: an agent token stands for any runner. Which pool the runner belongs to that the header of the request
  names is never compared with the pool of the token: the request is served as that runner, of whatever
  organization, a runner of the server included, receives the jobs that are allocated to it, and may set its
  status.
\<close>

theorem agent_token_impersonates:
  assumes "bearer req token" "ge_ParseToken env token = Inr (TfeID_String tid)" "wf_tfe_id tid" "tfe_kind tid = AgentTokenKind"
    "getPoolByTokenID tid db = Inr pool" "rq_RunnerID req = TfeID_String (rr_ID victim)" "wf_tfe_id (rr_ID victim)"
    "find_runner (rr_ID victim) db = Some victim"
  shows "JWT_Authenticate env (runner_registry req db reg) req = Inr (Some (RunnerSubject (scan_runner db victim))) \<and>
    (\<forall>env2. ctx_subject (ae_ctx env2) = Some (RunnerSubject (scan_runner db victim)) \<longrightarrow>
       status_ping (rr_ID victim) (RunnerSubject (scan_runner db victim)) = Inr True \<and>
       (listAllocatedJobs (rr_ID victim) db \<noteq> [] \<longrightarrow>
          AwaitAllocatedJobs env2 (rr_ID victim) db [] = Inr (listAllocatedJobs (rr_ID victim) db)))"
proof -
  have "TfeID_String (rr_ID victim) \<noteq> []" by (simp add: TfeID_String_def)
  then have "agent_subject req db tid = Inr (RunnerSubject (scan_runner db victim))"
    using assms(5-8) by (simp add: agent_subject_def ParseTfeID_String getRunner_def)
  moreover have "rn_ID (scan_runner db victim) = rr_ID victim" by (simp add: scan_runner_def)
  ultimately show ?thesis
    by (auto simp: agent_token_subject [OF assms(1-4)] status_ping_def AwaitAllocatedJobs_def authorizeRunner_def
        RunnerFromContext_def subject_from_context_def split: list.splits)
qed

section \<open>Credentials of a job\<close>

lemma agent_access_workspace:
  assumes "tfe_kind wid = WorkspaceKind" "find_first (\<lambda>w. aw_ID w = wid) (ad_workspaces db) = Some w"
    "ae_policies env (TfeID_ID wid) = Inr pol" "ae_ctx env = \<lparr>ctx_subject = Some subj, ctx_skipAuthz = False\<rparr>"
    "Subject_CanAccess subj action kind \<lparr>req_ID = TfeID_ID wid, req_WorkspacePolicy = Some pol,
       req_lineage = [OrganizationName_ID (aw_Organization w)]\<rparr> = Inr True"
  shows "agent_access env action kind (TfeID_ID wid) db = Inr subj"
proof -
  have tables: "pt_workspace (agent_tables db) wid = Some (aw_Organization w)"
    using assms(2) by (simp add: agent_tables_def)
  have "generateRequest (otf_resolvers (agent_tables db)) (ae_policies env) (TfeID_ID wid) =
      Some (Inr \<lparr>req_ID = TfeID_ID wid, req_WorkspacePolicy = Some pol, req_lineage = [OrganizationName_ID (aw_Organization w)]\<rparr>)"
    by (rule generateRequest_workspace [where getPolicy = "ae_policies env", OF assms(1) tables assms(3)])
  with assms(4,5) show ?thesis
    by (simp add: agent_access_def check_access_def Authorize_def access_env.truncate_def)
qed


section \<open>Deletion of runners\<close>

text \<open>
  C23: deleting a runner strands its run. The foreign key of jobs cascades: with a runner that the manager
  deletes an hour after it went silent go its jobs, also a running one. The run of that job stays in its phase
  but has no unfinished job any more, so that no call of \<open>FinishJob\<close> for the job can end it.
\<close>

theorem runner_deletion_strands_run:
  assumes "joint_inv odb" "ad_jobs db = db_jobs odb" "rid \<in> rr_ID ` set (ad_runners db)" "DeleteRunner rid db = Inr db'"
    "j \<in> set (db_jobs odb)" "job_RunnerID j = Some rid" "job_Status j = JobRunning" "db_runs odb (job_RunID j) = Some r"
  shows "run_Status r \<in> {Planning, Applying} \<and> unfinished (jobs_of (job_RunID j) (ad_jobs db')) = [] \<and>
    \<not> joint_inv (odb\<lparr>db_jobs := ad_jobs db'\<rparr>) \<and>
    (\<forall>env st. \<not> is_ok (FinishJob env (job_ID j) st (odb\<lparr>db_jobs := ad_jobs db'\<rparr>)))"
proof -
  have jobs: "ad_jobs db' = filter (\<lambda>k. job_RunnerID k \<noteq> Some rid) (db_jobs odb)"
    using assms(2-4) by (auto simp: DeleteRunner_def db_deleteRunner_def delete_runners_def split: if_splits intro!: filter_cong)
  note inv = joint_invD [OF assms(1,8)]
  have mem: "j \<in> set (unfinished (jobs_of (job_RunID j) (db_jobs odb)))"
    using assms(5,7) by (simp add: unfinished_def jobs_of_def job_terminal_def)
  have ok: "run_job_ok (run_Status r) (unfinished (jobs_of (job_RunID j) (db_jobs odb)))"
    using inv(4) by (simp add: run_jobs_ok_def)
  have st: "run_Status r \<in> {Planning, Applying}" and only: "unfinished (jobs_of (job_RunID j) (db_jobs odb)) = [j]"
    using ok mem assms(7) by (auto simp: run_job_ok_def one_job_def split: Status.splits list.splits)
  have sub: "unfinished (jobs_of (job_RunID j) (ad_jobs db')) =
      filter (\<lambda>k. job_RunnerID k \<noteq> Some rid) (unfinished (jobs_of (job_RunID j) (db_jobs odb)))"
    unfolding jobs by (simp add: unfinished_def jobs_of_def conj_ac)
  have none: "unfinished (jobs_of (job_RunID j) (ad_jobs db')) = []"
    unfolding sub only by (simp add: assms(6))
  have broken: "\<not> joint_inv (odb\<lparr>db_jobs := ad_jobs db'\<rparr>)"
  proof
    assume "joint_inv (odb\<lparr>db_jobs := ad_jobs db'\<rparr>)"
    from joint_invD(4) [OF this, of "job_RunID j" r] assms(8) none
    have "run_job_ok (run_Status r) []" by (simp add: run_jobs_ok_def)
    with st show False by (auto simp: run_job_ok_def one_job_def)
  qed
  have "\<not> is_ok (FinishJob env (job_ID j) status (odb\<lparr>db_jobs := ad_jobs db'\<rparr>))" for env status
  proof -
    have jk: "tfe_kind (job_ID j) = JobKind" using inv(5) assms(5) by (simp add: jobs_db_ok_def)
    have "\<not> job_selected (job_ID j) k" if k: "k \<in> set (ad_jobs db')" for k
    proof -
      have kj: "k \<in> set (db_jobs odb)" "k \<noteq> j" using k assms(6) by (auto simp: jobs)
      then have "job_ID k \<noteq> job_ID j" using inv(5) assms(5) by (auto simp: jobs_db_ok_def distinct_map inj_on_def)
      moreover obtain r' where "db_runs odb (job_RunID k) = Some r'" using assms(1) kj by (auto simp: joint_inv_def)
      then have "tfe_kind (job_RunID k) = RunKind" using joint_invD(2) [OF assms(1)] by blast
      then have "job_RunID k \<noteq> job_ID j" using jk by (auto simp: kind_defs)
      ultimately show ?thesis by (simp add: job_selected_def)
    qed
    then have "find_first (job_selected (job_ID j)) (ad_jobs db') = None" by (simp add: find_first_None_iff)
    then show ?thesis by (simp add: FinishJob_def split: option.splits Subject.splits)
  qed
  with st none broken show ?thesis by blast
qed

section \<open>Witnesses\<close>

definition demo_agent_env :: "nat \<Rightarrow> Subject \<Rightarrow> agent_env" where
  "demo_agent_env n subj =
     \<lparr>ae_ctx = \<lparr>ctx_subject = Some subj, ctx_skipAuthz = True\<rparr>, ae_policies = demo_policy, ge_rnd = (\<lambda>_. n), ge_now = 0,
      ge_outbound = Inr ''10.0.0.1'', ge_NewToken = (\<lambda>t _. Inr (TfeID_String t)), ge_ParseToken = Inr, ge_issuer = ''https://otf'',
      ge_GenerateToken = Some (\<lambda>_ _ _ name _ _ audience. Inr (name @ '':'' @ audience))\<rparr>"

abbreviation root_agent_env :: "nat \<Rightarrow> agent_env" where
  "root_agent_env n \<equiv> demo_agent_env n (Superuser ''root'')"

definition demo_pool_options :: "string \<Rightarrow> CreateAgentPoolOptions" where
  "demo_pool_options org = \<lparr>cpo_Name = ''pool'', cpo_Organization = org, cpo_OrganizationScoped = None, cpo_AllowedWorkspaces = []\<rparr>"

definition demo_agents0 :: agent_db where
  "demo_agents0 = \<lparr>ad_organizations = [(''acme'', None), (''other'', None)], ad_pools = [], ad_allowed = [], ad_tokens = [],
     ad_runners = [], ad_workspaces = [], ad_jobs = []\<rparr>"

definition acme_pool :: TfeID where "acme_pool = NewTfeID (\<lambda>_. 0) ''apool''"
definition other_pool :: TfeID where "other_pool = NewTfeID (\<lambda>_. 1) ''apool''"
definition acme_runner :: TfeID where "acme_runner = NewTfeID (\<lambda>_. 0) RunnerKind"

definition acme_job :: Job where
  "acme_job = (demo_job PlanPhase)\<lparr>job_Status := JobAllocated, job_RunnerID := Some acme_runner\<rparr>"

text \<open>
  Two organizations with a pool each; a runner registers with the pool of the first and is allocated a job
  of a workspace that uses the pool.
\<close>

definition demo_agent_ops :: "(agent_op \<times> agent_env) list" where
  "demo_agent_ops =
     [(OpCreatePool (demo_pool_options ''acme''), root_agent_env 0), (OpCreatePool (demo_pool_options ''other''), root_agent_env 1),
      (OpRegister \<lparr>reg_Name = ''agent'', reg_Version = ''1'', reg_Concurrency = 1, reg_IPAddress = None, reg_ExecutorKind = ForkExecutorKind\<rparr>,
         demo_agent_env 0 (UnregisteredSubject (Some (pool_of demo_agents0
           \<lparr>plr_ID = acme_pool, plr_Name = [], plr_CreatedAt = 0, plr_Organization = ''acme'', plr_OrganizationScoped = True\<rparr>)))),
      (OpAddWorkspace (example_workspace\<lparr>ws_Mode := \<lparr>mode_kind = AgentKind, mode_agentPoolID = Some acme_pool\<rparr>\<rparr>), root_agent_env 0),
      (OpJobs [acme_job], root_agent_env 0)]"

fun exec_agents :: "(agent_op \<times> agent_env) list \<Rightarrow> agent_db \<Rightarrow> agent_db result" where
  "exec_agents [] db = Inr db"
| "exec_agents ((opn, env) # ops) db = (case exec_agent opn env db of Inl e \<Rightarrow> Inl e | Inr db' \<Rightarrow> exec_agents ops db')"

lemma exec_agents_reachable: "reachable_agents db \<Longrightarrow> exec_agents ops db = Inr db' \<Longrightarrow> reachable_agents db'"
proof (induction ops arbitrary: db)
  case (Cons x ops)
  obtain opn env where x: "x = (opn, env)" by fastforce
  then obtain d where d: "exec_agent opn env db = Inr d" "exec_agents ops d = Inr db'" using Cons.prems(2) by (auto split: sum.splits)
  from Cons.IH [OF reachable_agents.step [OF Cons.prems(1) d(1)] d(2)] show ?case .
qed simp

definition demo_agents :: agent_db where
  "demo_agents = projr (exec_agents demo_agent_ops demo_agents0)"

lemma demo_agents_exec: "exec_agents demo_agent_ops demo_agents0 = Inr demo_agents"
proof -
  have "is_ok (exec_agents demo_agent_ops demo_agents0)" by code_simp
  then show ?thesis by (cases "exec_agents demo_agent_ops demo_agents0") (simp_all add: demo_agents_def)
qed

lemma demo_agents_reachable: "reachable_agents demo_agents"
proof (rule exec_agents_reachable [OF _ demo_agents_exec])
  show "reachable_agents demo_agents0" unfolding demo_agents0_def by (rule reachable_agents.init)
qed

lemma agent_inv_demo: "agent_inv demo_agents"
  by (rule reachable_agents_inv [OF demo_agents_reachable])

lemma agent_tables_consistent_witness:
  "reachable_agents demo_agents \<and> length (ad_pools demo_agents) = 2 \<and> length (ad_workspaces demo_agents) = 1 \<and>
     keys_ok demo_agents \<and> refs_ok demo_agents \<and> assigned_ok demo_agents"
proof -
  have "length (ad_pools demo_agents) = 2" "length (ad_workspaces demo_agents) = 1" by code_simp+
  with agent_tables_consistent [OF demo_agents_reachable] demo_agents_reachable show ?thesis by simp
qed

text \<open>The workspace may use the pool of its organization, which is listed for it.\<close>

lemma listed_pools_usable_witness:
  "\<exists>r \<in> set (ad_pools demo_agents). \<exists>w \<in> set (ad_workspaces demo_agents).
     pool_of demo_agents r \<in> set (listPoolsByOrganization (plr_Organization r)
       \<lparr>lpo_NameSubstring = None, lpo_AllowedWorkspaceName = None, lpo_AllowedWorkspaceID = Some (aw_ID w)\<rparr> demo_agents)"
proof -
  let ?r = "hd (ad_pools demo_agents)" and ?w = "hd (ad_workspaces demo_agents)"
  let ?ws = "example_workspace\<lparr>ws_Mode := \<lparr>mode_kind = AgentKind, mode_agentPoolID = Some acme_pool\<rparr>\<rparr>"
  have facts: "ad_pools demo_agents \<noteq> []" "ad_workspaces demo_agents \<noteq> []" "ws_ID ?ws = aw_ID ?w"
    "mode_agentPoolID (ws_Mode ?ws) = Some (plr_ID ?r)"
    "checkWorkspacePoolAccess (\<lambda>pid. getPool pid demo_agents) ?ws = Inr ()"
    by code_simp+
  then have mem: "?r \<in> set (ad_pools demo_agents)" "?w \<in> set (ad_workspaces demo_agents)" by simp_all
  have "keys_ok demo_agents" "refs_ok demo_agents" using agent_inv_demo by (simp_all add: agent_inv_def)
  from listed_pools_usable [OF this mem facts(3,4)] facts(5) mem show ?thesis by blast
qed

text \<open>A token of the other organization: it stands for the pool of that organization.\<close>

definition demo_token_created :: "agent_db \<times> AgentToken \<times> string" where
  "demo_token_created = projr (CreateAgentToken (root_agent_env 1) other_pool ''laptop'' demo_agents)"

lemma demo_token_created: "CreateAgentToken (root_agent_env 1) other_pool ''laptop'' demo_agents = Inr demo_token_created"
proof -
  have "is_ok (CreateAgentToken (root_agent_env 1) other_pool ''laptop'' demo_agents)" by code_simp
  then show ?thesis by (cases "CreateAgentToken (root_agent_env 1) other_pool ''laptop'' demo_agents") (simp_all add: demo_token_created_def)
qed

definition demo_request_as :: "string \<Rightarrow> api_request" where
  "demo_request_as rid = \<lparr>rq_Path = ''/otfapi'', rq_Authorization = ''Bearer '' @ snd (snd demo_token_created), rq_RunnerID = rid\<rparr>"

lemma demo_bearer: "bearer (demo_request_as rid) (snd (snd demo_token_created))"
proof -
  have "snd (snd demo_token_created) = ''at-2222222222222222''" by code_simp
  moreover have "\<not> sublist ''Bearer '' ''at-2222222222222222''" by code_simp
  ultimately show ?thesis by (simp add: bearer_def demo_request_as_def)
qed


text \<open>With the header that names the runner of the first organization it stands for that runner.\<close>

lemma agent_token_impersonates_witness:
  "JWT_Authenticate (root_agent_env 1) (runner_registry (demo_request_as (TfeID_String acme_runner)) (fst demo_token_created) [])
      (demo_request_as (TfeID_String acme_runner)) =
     Inr (Some (RunnerSubject (scan_runner (fst demo_token_created) (hd (ad_runners (fst demo_token_created)))))) \<and>
   map_option pool_Organization (rn_AgentPool (scan_runner (fst demo_token_created) (hd (ad_runners (fst demo_token_created))))) = Some ''acme'' \<and>
   listAllocatedJobs acme_runner (fst demo_token_created) = [acme_job]"
proof -
  let ?db = "fst demo_token_created" and ?tid = "at_ID (fst (snd demo_token_created))"
  have "snd (snd demo_token_created) = TfeID_String ?tid" by code_simp
  then have parse: "ge_ParseToken (root_agent_env 1) (snd (snd demo_token_created)) = Inr (TfeID_String ?tid)"
    by (simp add: demo_agent_env_def)
  have wf: "wf_tfe_id ?tid" "tfe_kind ?tid = AgentTokenKind" "is_ok (getPoolByTokenID ?tid ?db)"
    "rr_ID (hd (ad_runners ?db)) = acme_runner" "wf_tfe_id (rr_ID (hd (ad_runners ?db)))"
    "find_runner (rr_ID (hd (ad_runners ?db))) ?db = Some (hd (ad_runners ?db))"
    "map_option pool_Organization (rn_AgentPool (scan_runner ?db (hd (ad_runners ?db)))) = Some ''acme''"
    "listAllocatedJobs acme_runner ?db = [acme_job]"
    by code_simp+
  then obtain pool where pool: "getPoolByTokenID ?tid ?db = Inr pool" by (auto elim: is_okE)
  have "rq_RunnerID (demo_request_as (TfeID_String acme_runner)) = TfeID_String (rr_ID (hd (ad_runners ?db)))"
    by (simp add: demo_request_as_def wf(4))
  from agent_token_impersonates [OF demo_bearer parse wf(1,2) pool this wf(5,6), of "[]"] wf(7,8) show ?thesis by simp
qed

text \<open>The credentials of the job of the first organization, for a team that may only read its workspace.\<close>

definition demo_reader_env :: agent_env where
  "demo_reader_env = (root_agent_env 0)
     \<lparr>ae_ctx := \<lparr>ctx_subject = Some (TeamSubject (demo_team ''devs'' ''acme'')), ctx_skipAuthz = False\<rparr>,
      ae_policies := (\<lambda>_. Inr \<lparr>pol_Permissions = [\<lparr>perm_TeamID = team_ID (demo_team [] []), perm_Role = WorkspaceReadRole\<rparr>],
                                pol_globalRemoteState = False\<rparr>)\<rparr>"


text \<open>The run of the running job of the demo of the run services, after its runner is deleted.\<close>

lemma runner_deletion_strands_run_witness:
  "\<exists>db db'. DeleteRunner (rn_ID demo_runner) db = Inr db' \<and> ad_jobs db = db_jobs demo_db \<and>
     unfinished (jobs_of demo_run_id (ad_jobs db')) = [] \<and> \<not> joint_inv (demo_db\<lparr>db_jobs := ad_jobs db'\<rparr>)"
proof -
  define db where "db = demo_agents0\<lparr>ad_jobs := db_jobs demo_db, ad_runners :=
    [\<lparr>rr_ID = rn_ID demo_runner, rr_Name = [], rr_Version = [], rr_MaxJobs = 1, rr_IPAddress = [], rr_LastPingAt = 0,
      rr_LastStatusAt = 0, rr_Status = Some RunnerErrored, rr_ExecutorKind = ForkExecutorKind, rr_AgentPoolID = None\<rparr>]\<rparr>"
  have jobs: "ad_jobs db = db_jobs demo_db" and mem: "rn_ID demo_runner \<in> rr_ID ` set (ad_runners db)" by (simp_all add: db_def)
  from mem obtain db' where db': "DeleteRunner (rn_ID demo_runner) db = Inr db'" by (auto simp: DeleteRunner_def db_deleteRunner_def)
  have inv: "joint_inv demo_db" by (rule reachable_joint [OF demo_reachable])
  have run: "job_RunnerID demo_running_job = Some (rn_ID demo_runner)" by code_simp
  have "demo_running_job \<in> set (db_jobs demo_db)" "db_runs demo_db (job_RunID demo_running_job) = Some demo_planning_run"
    by (simp_all add: demo_state)
  from runner_deletion_strands_run [OF inv jobs mem db' this(1) run demo_state(4) this(2)]
  show ?thesis using db' jobs by (auto simp: demo_state)
qed

end
