(* ===== verification/Spec2Isabelle.thy ===== *)
theory Spec2Isabelle
  imports AllocatorSafety SchedulerSafety RunLogs Reports VariableService State OrgSafety Daemons Signals WorkspaceAccess AgentSafety
begin

text \<open>
  OTF, an open replacement of Terraform Enterprise: a server (\<open>otfd\<close>) that keeps workspaces, runs,
  state and variables in PostgreSQL, and runners (\<open>otf-agent\<close>, or built into the server) that execute
  terraform for it. All paths below are relative to \<open>src/internal\<close>.

  \<^bold>\<open>How the program works.\<close> A run is created in a workspace by a user, by an event of a version control
  system (the spawner) or by an applied run of another workspace (the triggerer). The scheduler keeps a
  queue of runs per workspace and enqueues the plan of the next one, which locks the workspace. Enqueuing
  a plan or an apply creates a job; the allocator assigns it to a runner with capacity; the runner starts
  the job, which starts the phase of the run, streams its output as chunks of a log, uploads state, and
  finishes the job, which finishes the phase. The manager times out silent runners, the time-out daemon
  cancels phases that take too long, the reporter tells the VCS provider about changes of status. Every
  operation of a service first asks the authorizer, which resolves the organization and workspace of a
  resource and asks the subject of the request. Events of the database reach the daemons late, so that
  they act on stale data; every write is a transaction.

  \<^bold>\<open>Conventions.\<close> A Go function that returns an error is a function into \<open>'a result\<close> (\<open>Prelude\<close>), with a
  constructor per sentinel error and \<open>Panic\<close> for run-time panics. A transaction that fails leaves the
  database as it was, so an operation of a service maps a database to an error or to the new database;
  where the code commits part of its work before it fails, the operation returns both (\<open>effect\<close>). Rows of
  a table are lists in order of insertion where the order or duplicates matter, and maps where a primary
  key rules them out. Clocks, random identifiers, and the answers of code that is not in the repository
  (regular expressions, globs, semantic versions, JSON, MD5, tokens, clients of VCS providers) are
  arguments. Machine integers keep their width where overflow is possible (pagination, chunk offsets).

  \<^bold>\<open>Theories and what they show.\<close>

  \<^item> \<open>Prelude\<close>, \<open>Resource\<close>: errors, time, resource kinds and identifiers, names, pagination
    (\<open>errors.go\<close>, \<open>resource\<close>, \<open>sql/sql.go\<close>). Identifiers are parsed exactly in their printed form; the
    loop \<open>ListAll\<close> ends with every row for any \<open>page_source\<close>, a locale that the pager in memory and the
    pager of the database interpret; large page numbers overflow.
  \<^item> \<open>Workspace\<close>: execution modes, engine versions, construction, update and lock of workspaces
    (\<open>workspace/workspace.go\<close>, \<open>version.go\<close>, \<open>lock_db.go\<close>, \<open>execution\<close>).
  \<^item> \<open>Run\<close>, \<open>RunLifecycle\<close>: runs, phases and their status machine (\<open>run/run.go\<close>, \<open>phase.go\<close>,
    \<open>runstatus\<close>). The status of a run determines the statuses of its phases in every reachable run, the
    number of its changes is bounded, and only a plain cancelation changes a completed run.
  \<^item> \<open>Job\<close>, \<open>Runner\<close>: jobs, runners, pools and the manager (\<open>runner/job.go\<close>, \<open>meta.go\<close>, \<open>pool.go\<close>,
    \<open>manager.go\<close>).
  \<^item> \<open>Allocator\<close>, \<open>AllocatorSafety\<close>: the allocator with its caches (\<open>runner/allocator.go\<close>) as a step
    relation with the other writers of the tables: its tallies are exact and no runner is given more
    jobs than it can run, however late the events arrive.
  \<^item> \<open>Authz\<close>: roles, requests, workspace policies and the access check of every subject (\<open>authz\<close>,
    \<open>workspace/policy.go\<close>). The walk over the parents of a resource ends (locale
    \<open>ranked_resolvers\<close>), organizations are isolated from each other, jobs have least privilege.
  \<^item> \<open>RunService\<close>, \<open>RunJobs\<close>, \<open>RunJobsSafety\<close>, \<open>RunSystem\<close>: the services that change runs, jobs and
    locks (\<open>run/service.go\<close>, \<open>run/db.go\<close>, \<open>runner/service.go\<close>, \<open>workspace/lock_service.go\<close>). In every
    database they produce each run has exactly the unfinished job that its status calls for.
  \<^item> \<open>Scheduler\<close>, \<open>SchedulerSafety\<close>: the queues (\<open>run/scheduler.go\<close>) refine a list per workspace; over
    any services that meet the locale \<open>scheduler_client\<close>, which the services of the model do, a workspace
    never has two runs under way, except after a restart at the wrong moment.
  \<^item> \<open>RunLogs\<close>, \<open>Reports\<close>: chunks, tables, writer and tailer of logs (\<open>run/chunk.go\<close>,
    \<open>phase_writer.go\<close>, \<open>tailer.go\<close>) refine one byte string per phase; the summaries of plan files and of
    the output of an apply.
  \<^item> \<open>Variable\<close>, \<open>VariableService\<close>: variables and sets, their merge by precedence, terraform.tfvars, and
    the service with its check for conflicts (\<open>variable\<close>).
  \<^item> \<open>State\<close>: state versions with upload, rollback and deletion, and the difference of state files
    (\<open>state\<close>). Serial numbers of the current state never fall, except by a rollback.
  \<^item> \<open>Orgs\<close>, \<open>OrgService\<close>, \<open>OrgSafety\<close>: organizations, teams, users and their tokens with the hooks
    between the three services (\<open>organization\<close>, \<open>team\<close>, \<open>user\<close>). Every organization keeps an owner.
  \<^item> \<open>ConfigVersions\<close>, \<open>Spawner\<close>: configuration versions (\<open>configversion\<close>) refine a store of the last
    upload; an event of a VCS creates runs in exactly the workspaces that match it (\<open>run/factory.go\<close>,
    \<open>run/spawner.go\<close>).
  \<^item> \<open>Triggers\<close>, \<open>Daemons\<close>: triggers between workspaces (\<open>run/trigger\<close>), time-outs, the deleter and the
    reporter of statuses (\<open>run/timeout.go\<close>, \<open>resource/deleter.go\<close>, \<open>run/reporter.go\<close>). The deleter is a
    locale that the table of configuration versions interprets.
  \<^item> \<open>Broker\<close>, \<open>Signals\<close>: the broker of database events (\<open>pubsub/broker.go\<close>) as a step relation: a
    subscriber misses no event while its channel is open. Over it runs the relay of signals to jobs
    (\<open>runner/job_signaler.go\<close>), which delivers signals to their job only, but can send on a closed channel.
  \<^item> \<open>Providers\<close>, \<open>Hooks\<close>: VCS providers, the webhooks at their hosts and the connections that need
    them (\<open>vcs\<close>, \<open>repohooks\<close>, \<open>connections\<close>). Every stored webhook is the one its host knows;
    disconnecting deletes exactly the hooks that nothing needs.
  \<^item> \<open>WorkspaceService\<close>, \<open>WorkspaceTables\<close>, \<open>WorkspaceSafety\<close>, \<open>WorkspaceAccess\<close>: the tables of
    workspaces, tags and permissions and the service over them (\<open>workspace/service.go\<close>, \<open>db.go\<close>,
    \<open>tag_service.go\<close>, \<open>tag_db.go\<close>), with the triggers and cascades of the schema. Names stay unique, tags
    behave as sets, a permission gives a team exactly the rights of its role, and a created workspace is
    read back.
  \<^item> \<open>AgentService\<close>, \<open>AgentSafety\<close>: runners, agent pools, agent tokens and authentication by token
    (\<open>runner/service.go\<close>, \<open>db.go\<close>, \<open>tokens.go\<close>, \<open>tokens/registry.go\<close>, \<open>authn/auth.go\<close>). The tables stay
    consistent, the pools listed for a workspace are those it may use, a token gives access from its
    creation to its deletion; who may impersonate and read credentials is stated as the code has it.

  \<^bold>\<open>Loops and bounds.\<close> Recursion over lists is structural. \<open>ListAll\<close> and the walk over the parents of a
  resource use fuel, and it is shown that enough of it gives the result: the number of rows, and the
  number of kinds. The loop that looks for a delimiter of terraform.tfvars ends because a delimiter that
  is longer than the value cannot occur in it. Daemons that run for ever are step relations or
  functions of the finite sequence of events that they have received so far.

  \<^bold>\<open>Not modelled.\<close> The clients of GitHub, GitLab and Forgejo, the execution of jobs (archives, processes,
  Kubernetes), downloads of engines, JSON web tokens and OAuth flows are calls of third-party packages,
  the network or the file system. Handlers of HTTP and HTML, the command line and the wiring of the
  daemon decode, print and connect, around the operations that are modelled. SQL is modelled by the
  effect of each query on its tables with their keys, foreign keys and cascades; concurrent transactions
  are taken to be serial, as the table locks and row locks of the code make them.
\<close>

end
